(* ===== verification/Prelude.thy ===== *)
theory Prelude
  imports Main "HOL-Library.Word" "HOL-Library.Monad_Syntax"
begin

text \<open>
  Shared vocabulary of the development: the machine integer types of the C sources, the flat
  byte-addressed memory that kernel pointers denote, little-endian loads and stores of the four
  C integer widths, zones of addresses and their disjointness, and C bit-fields of a 64-bit
  storage unit.  The simplification rules of the memory live in the collection \<open>mem_simps\<close>,
  those of the bit-fields in \<open>bf_simps\<close>.
\<close>

unbundle bit_operations_syntax

named_theorems mem_simps \<open>loads after stores\<close>
named_theorems bf_simps \<open>bit-field reads after bit-field writes\<close>

subsection \<open>Machine types\<close>

type_synonym u8 = "8 word"
type_synonym u16 = "16 word"
type_synonym u32 = "32 word"
type_synonym u64 = "64 word"
type_synonym addr = "64 word"
type_synonym mem = "64 word \<Rightarrow> 8 word"

subsection \<open>Words\<close>

lemma unat_of_nat_eq: "n < 2 ^ 64 \<Longrightarrow> unat (of_nat n :: u64) = n"
  by (simp add: unsigned_of_nat take_bit_nat_eq_self)

lemma ucast_ucast_u8 [simp]: "(ucast (ucast (v :: u8) :: u64) :: u8) = v"
  by (rule bit_word_eqI) (simp add: bit_simps)

lemma ucast_ucast_u16 [simp]: "(ucast (ucast (v :: u16) :: u64) :: u16) = v"
  by (rule bit_word_eqI) (simp add: bit_simps)

lemma ucast_ucast_u32 [simp]: "(ucast (ucast (v :: u32) :: u64) :: u32) = v"
  by (rule bit_word_eqI) (simp add: bit_simps)

lemma of_nat_u64_ne_0:
  assumes "0 < i" and "i < 2 ^ 64"
  shows "(of_nat i :: u64) \<noteq> 0"
proof
  assume "(of_nat i :: u64) = 0"
  then have "unat (of_nat i :: u64) = 0" by simp
  moreover have "unat (of_nat i :: u64) = i"
    using assms by (simp add: unat_of_nat_eq)
  ultimately show False using assms by simp
qed

lemma of_nat_u64_inject:
  assumes "i < 2 ^ 64" and "j < 2 ^ 64"
  shows "(of_nat i :: u64) = of_nat j \<longleftrightarrow> i = j"
proof -
  have "unat (of_nat i :: u64) = i" and "unat (of_nat j :: u64) = j"
    using assms by (simp_all add: unat_of_nat_eq)
  then show ?thesis by metis
qed

lemma unat_add_u64: "unat (a :: u64) + unat b < 2 ^ 64 \<Longrightarrow> unat (a + b) = unat a + unat b"
  using unat_add_lem [of a b] by simp

lemma unat_add_of_nat: "unat (a :: u64) + n < 2 ^ 64 \<Longrightarrow> unat (a + of_nat n) = unat a + n"
  by (subst unat_add_u64) (auto simp: unat_of_nat_eq)

lemma unat_sub_u64: "unat b \<le> unat (a :: u64) \<Longrightarrow> unat (a - b) = unat a - unat b"
  by (simp add: unat_sub word_le_nat_alt)

lemma unat_mult_u64: "unat (a :: u64) * unat b < 2 ^ 64 \<Longrightarrow> unat (a * b) = unat a * unat b"
  using unat_mult_lem [of a b] by simp

lemma unat_lt_2_64: "unat (a :: u64) < 2 ^ 64"
  using unsigned_less [of a] by simp

lemma unat_ucast_up: "unat (ucast (w :: u32) :: u64) = unat w"
proof -
  have "unat w < 2 ^ 32" using unsigned_less [of w] by simp
  then show ?thesis by (simp add: unsigned_ucast_eq take_bit_nat_eq_self)
qed

lemma unat_bound: "unat (i :: 'a::len word) < 2 ^ LENGTH('a)"
  by (rule unsigned_less)

lemma unat_u32_bound: "unat (i :: u32) < 2 ^ 32"
  using unat_bound [of i] by simp

lemma take_bit_small: "unat (x :: 'a::len word) < 2 ^ n \<Longrightarrow> take_bit n x = x"
  by (simp add: word_unat_eq_iff unsigned_take_bit_eq take_bit_nat_eq_self)

text \<open>Page arithmetic: the low twelve bits and the rest.\<close>

lemma and_4095: "(x :: u64) AND 4095 = x mod 4096"
proof -
  have "x AND 4095 = take_bit 12 x" by (simp add: take_bit_eq_mask mask_eq_exp_minus_1)
  then show ?thesis by (simp add: take_bit_eq_mod)
qed

lemma and_not_4095: "(x :: u64) AND NOT 4095 = x - x mod 4096"
proof -
  have "x - (x AND 4095) = x AND NOT (x AND 4095)"
    by (rule disjunctive_diff_eq_and_not) (auto intro: bit_word_eqI simp: bit_simps)
  also have "\<dots> = x AND NOT 4095"
    by (rule bit_word_eqI) (auto simp: bit_simps)
  finally show ?thesis by (simp add: and_4095)
qed

lemma neg_4096_and: "- 4096 AND (x :: u64) = x - x mod 4096"
  using and_not_4095 [of x] by (simp add: and.commute)

lemma mod_add_4096: "((x :: u64) + 4096) mod 4096 = x mod 4096"
proof -
  have "(unat x + 4096) mod 2 ^ 64 mod 4096 = (unat x + 4096) mod (4096 :: nat)"
    by (rule mod_mod_cancel) simp
  then show ?thesis by (simp add: word_unat_eq_iff unat_mod unat_word_ariths)
qed

lemma unat_mod_4096: "unat ((x :: u64) mod 4096) = unat x mod 4096"
  by (simp add: unat_mod)

text \<open>A loop counter below its limit does not wrap when it is incremented.\<close>

lemma unat_Suc_word: "(i :: 'a::len word) < n \<Longrightarrow> unat (i + 1) = Suc (unat i)"
proof -
  assume "i < n"
  then have "unat i < unat n" by (simp add: word_less_nat_alt)
  then have "Suc (unat i) < 2 ^ LENGTH('a)" using unat_bound [of n] by linarith
  then show ?thesis by (simp add: unat_word_ariths)
qed

lemma loop_counter_decreases:
  "(i :: 'a::len word) < n \<Longrightarrow> unat n - unat (i + 1) < unat n - unat i"
  by (simp add: unat_Suc_word word_less_nat_alt)

lemma length_takeWhile_lt: "x \<in> set xs \<Longrightarrow> \<not> P x \<Longrightarrow> length (takeWhile P xs) < length xs"
  by (induction xs) auto

text \<open>A loop that advances a counter below a limit while a condition holds stops after the longest prefix.\<close>

lemma scan_takeWhile:
  fixes f :: "'a::len word \<Rightarrow> 'a word"
  assumes step: "\<And>i. f i = (if i < n \<and> P (unat i) then f (i + 1) else i)" and "i \<le> n"
  shows "unat (f i) = unat i + length (takeWhile P [unat i..<unat n])"
  using assms(2)
proof (induction "unat n - unat i" arbitrary: i)
  case 0
  then have "unat n \<le> unat i" by simp
  then show ?case by (subst step) (simp add: word_less_nat_alt)
next
  case (Suc k)
  then have lt: "i < n" and lt': "unat i < unat n" by (simp_all add: word_less_nat_alt)
  have u: "unat (i + 1) = Suc (unat i)" using lt by (rule unat_Suc_word)
  then have "i + 1 \<le> n" and "k = unat n - unat (i + 1)" using lt' Suc(2) by (simp_all add: word_le_nat_alt)
  from Suc(1) [OF this(2,1)] u lt lt' show ?case
    by (subst step) (simp add: upt_conv_Cons)
qed

subsection \<open>Memory\<close>

text \<open>
  \<open>load_le m a n\<close> reads the \<open>n\<close> bytes from \<open>a\<close> upwards as one little-endian number, and
  \<open>store_le m a n v\<close> writes the low \<open>n\<close> bytes of \<open>v\<close> there.  Addresses wrap at \<open>2 ^ 64\<close>.
\<close>

fun load_le :: "mem \<Rightarrow> addr \<Rightarrow> nat \<Rightarrow> u64" where
  "load_le m a 0 = 0"
| "load_le m a (Suc n) = ucast (m a) OR push_bit 8 (load_le m (a + 1) n)"

fun store_le :: "mem \<Rightarrow> addr \<Rightarrow> nat \<Rightarrow> u64 \<Rightarrow> mem" where
  "store_le m a 0 v = m"
| "store_le m a (Suc n) v = (store_le m (a + 1) n (drop_bit 8 v))(a := ucast v)"

declare load_le.simps [simp del] store_le.simps [simp del]

definition load8 :: "mem \<Rightarrow> addr \<Rightarrow> u8" where
  "load8 m a = m a"

definition load16 :: "mem \<Rightarrow> addr \<Rightarrow> u16" where
  "load16 m a = ucast (load_le m a 2)"

definition load32 :: "mem \<Rightarrow> addr \<Rightarrow> u32" where
  "load32 m a = ucast (load_le m a 4)"

definition load64 :: "mem \<Rightarrow> addr \<Rightarrow> u64" where
  "load64 m a = load_le m a 8"

definition store8 :: "mem \<Rightarrow> addr \<Rightarrow> u8 \<Rightarrow> mem" where
  "store8 m a v = m(a := v)"

definition store16 :: "mem \<Rightarrow> addr \<Rightarrow> u16 \<Rightarrow> mem" where
  "store16 m a v = store_le m a 2 (ucast v)"

definition store32 :: "mem \<Rightarrow> addr \<Rightarrow> u32 \<Rightarrow> mem" where
  "store32 m a v = store_le m a 4 (ucast v)"

definition store64 :: "mem \<Rightarrow> addr \<Rightarrow> u64 \<Rightarrow> mem" where
  "store64 m a v = store_le m a 8 v"

text \<open>Two zones of \<open>n\<close> and \<open>k\<close> bytes that share no address.\<close>

definition apart :: "addr \<Rightarrow> nat \<Rightarrow> addr \<Rightarrow> nat \<Rightarrow> bool" where
  "apart a n b k \<longleftrightarrow> (\<forall>i<n. \<forall>j<k. a + of_nat i \<noteq> b + of_nat j)"

lemma apart_sym: "apart a n b k \<Longrightarrow> apart b k a n"
  unfolding apart_def by metis

lemma apart_mono: "apart a n b k \<Longrightarrow> n' \<le> n \<Longrightarrow> k' \<le> k \<Longrightarrow> apart a n' b k'"
  unfolding apart_def by (meson less_le_trans)

lemma apart_sub:
  assumes "apart a n b k" and "i + n' \<le> n" and "j + k' \<le> k"
  shows "apart (a + of_nat i) n' (b + of_nat j) k'"
  unfolding apart_def
proof (intro allI impI)
  fix p q assume "p < n'" and "q < k'"
  with assms have "a + of_nat (i + p) \<noteq> b + of_nat (j + q)"
    unfolding apart_def by (meson add_less_cancel_left less_le_trans)
  then show "a + of_nat i + of_nat p \<noteq> b + of_nat j + of_nat q"
    by (simp add: add.assoc)
qed

lemma apart_by_nat:
  assumes "unat a + n \<le> 2 ^ 64" and "unat b + k \<le> 2 ^ 64"
    and "unat a + n \<le> unat b \<or> unat b + k \<le> unat a"
  shows "apart a n b k"
  unfolding apart_def
proof (intro allI impI)
  fix i j assume ij: "i < n" "j < k"
  then have "unat (a + of_nat i) = unat a + i" and "unat (b + of_nat j) = unat b + j"
    using assms(1,2) by (auto intro!: unat_add_of_nat)
  with ij assms(3) show "a + of_nat i \<noteq> b + of_nat j" by auto
qed

lemma apart_offsets:
  assumes "i + n \<le> j" and "j + k \<le> 2 ^ 64"
  shows "apart (p + of_nat i) n (p + of_nat j) k" and "apart (p + of_nat j) k (p + of_nat i) n"
proof -
  show "apart (p + of_nat i) n (p + of_nat j) k"
    unfolding apart_def
  proof (intro allI impI)
    fix a b assume ab: "a < n" "b < k"
    then have "(of_nat (i + a) :: u64) \<noteq> of_nat (j + b)"
      using assms by (subst of_nat_u64_inject) auto
    then show "p + of_nat i + of_nat a \<noteq> p + of_nat j + of_nat b" by (simp add: add.assoc)
  qed
  then show "apart (p + of_nat j) k (p + of_nat i) n" by (rule apart_sym)
qed

lemma store_le_other:
  "(\<And>i. i < n \<Longrightarrow> b \<noteq> a + of_nat i) \<Longrightarrow> store_le m a n v b = m b"
proof (induction n arbitrary: a v)
  case 0
  then show ?case by (simp add: store_le.simps)
next
  case (Suc n)
  have "b \<noteq> a" using Suc.prems [of 0] by simp
  moreover have "store_le m (a + 1) n (drop_bit 8 v) b = m b"
  proof (rule Suc.IH)
    fix i assume "i < n"
    then show "b \<noteq> a + 1 + of_nat i"
      using Suc.prems [of "Suc i"] by (simp add: algebra_simps)
  qed
  ultimately show ?case by (simp add: store_le.simps)
qed

lemma load_le_cong:
  "(\<And>i. i < n \<Longrightarrow> m (a + of_nat i) = m' (a + of_nat i)) \<Longrightarrow> load_le m a n = load_le m' a n"
proof (induction n arbitrary: a)
  case 0
  then show ?case by (simp add: load_le.simps)
next
  case (Suc n)
  have "m a = m' a" using Suc.prems [of 0] by simp
  moreover have "load_le m (a + 1) n = load_le m' (a + 1) n"
  proof (rule Suc.IH)
    fix i assume "i < n"
    then show "m (a + 1 + of_nat i) = m' (a + 1 + of_nat i)"
      using Suc.prems [of "Suc i"] by (simp add: algebra_simps)
  qed
  ultimately show ?case by (simp add: load_le.simps)
qed

lemma byte_split:
  "n \<le> 7 \<Longrightarrow> (ucast (ucast (v :: u64) :: u8) :: u64)
     OR push_bit 8 (take_bit (8 * n) (drop_bit 8 v)) = take_bit (8 * Suc n) v"
  by (rule bit_word_eqI) (auto simp: bit_simps)

lemma load_le_store_le: "n \<le> 8 \<Longrightarrow> load_le (store_le m a n v) a n = take_bit (8 * n) v"
proof (induction n arbitrary: a v)
  case 0
  then show ?case by (simp add: load_le.simps)
next
  case (Suc n)
  have "load_le ((store_le m (a + 1) n (drop_bit 8 v))(a := ucast v)) (a + 1) n
      = load_le (store_le m (a + 1) n (drop_bit 8 v)) (a + 1) n"
  proof (rule load_le_cong)
    fix i assume "i < n"
    with Suc.prems have "(of_nat (Suc i) :: u64) \<noteq> 0"
      by (intro of_nat_u64_ne_0) auto
    then show "((store_le m (a + 1) n (drop_bit 8 v))(a := ucast v)) (a + 1 + of_nat i)
        = store_le m (a + 1) n (drop_bit 8 v) (a + 1 + of_nat i)"
      by (simp add: add.assoc)
  qed
  with Suc.IH [of "a + 1" "drop_bit 8 v"] Suc.prems show ?case
    using byte_split [of n v] by (simp only: load_le.simps store_le.simps fun_upd_same)
qed

lemma load_le_store_le_apart:
  assumes "apart a n b k"
  shows "load_le (store_le m b k v) a n = load_le m a n"
proof (rule load_le_cong)
  fix i assume "i < n"
  with assms show "store_le m b k v (a + of_nat i) = m (a + of_nat i)"
    by (intro store_le_other) (auto simp: apart_def)
qed

lemma load_store_same [mem_simps]:
  "load8 (store8 m a v8) a = v8"
  "load16 (store16 m a v16) a = v16"
  "load32 (store32 m a v32) a = v32"
  "load64 (store64 m a v64) a = v64"
  by (simp_all add: load8_def store8_def load16_def store16_def load32_def store32_def
      load64_def store64_def load_le_store_le take_bit_word_eq_self)
     (rule bit_word_eqI; simp add: bit_simps; fail)+

lemma store8_le: "store8 m a v = store_le m a 1 (ucast v)"
  by (rule ext) (simp add: store8_def store_le.simps)

lemma load8_le: "load8 m a = ucast (load_le m a 1)"
  by (simp add: load8_def load_le.simps)

lemmas access_le = store8_le load8_le load16_def store16_def load32_def store32_def
  load64_def store64_def

text \<open>A load that is apart from the stored zone is unchanged, for all sixteen width pairs.\<close>

lemma load8_store_apart:
  "apart a 1 b 1 \<Longrightarrow> load8 (store8 m b v8) a = load8 m a"
  "apart a 1 b 2 \<Longrightarrow> load8 (store16 m b v16) a = load8 m a"
  "apart a 1 b 4 \<Longrightarrow> load8 (store32 m b v32) a = load8 m a"
  "apart a 1 b 8 \<Longrightarrow> load8 (store64 m b v64) a = load8 m a"
  by (simp_all only: access_le load_le_store_le_apart)

lemma load16_store_apart:
  "apart a 2 b 1 \<Longrightarrow> load16 (store8 m b v8) a = load16 m a"
  "apart a 2 b 2 \<Longrightarrow> load16 (store16 m b v16) a = load16 m a"
  "apart a 2 b 4 \<Longrightarrow> load16 (store32 m b v32) a = load16 m a"
  "apart a 2 b 8 \<Longrightarrow> load16 (store64 m b v64) a = load16 m a"
  by (simp_all only: access_le load_le_store_le_apart)

lemma load32_store_apart:
  "apart a 4 b 1 \<Longrightarrow> load32 (store8 m b v8) a = load32 m a"
  "apart a 4 b 2 \<Longrightarrow> load32 (store16 m b v16) a = load32 m a"
  "apart a 4 b 4 \<Longrightarrow> load32 (store32 m b v32) a = load32 m a"
  "apart a 4 b 8 \<Longrightarrow> load32 (store64 m b v64) a = load32 m a"
  by (simp_all only: access_le load_le_store_le_apart)

lemma load64_store_apart:
  "apart a 8 b 1 \<Longrightarrow> load64 (store8 m b v8) a = load64 m a"
  "apart a 8 b 2 \<Longrightarrow> load64 (store16 m b v16) a = load64 m a"
  "apart a 8 b 4 \<Longrightarrow> load64 (store32 m b v32) a = load64 m a"
  "apart a 8 b 8 \<Longrightarrow> load64 (store64 m b v64) a = load64 m a"
  by (simp_all only: access_le load_le_store_le_apart)

lemmas load_store_apart [mem_simps] =
  load8_store_apart load16_store_apart load32_store_apart load64_store_apart

subsection \<open>Frames\<close>

text \<open>
  \<open>changes_only A m m'\<close>: the memories differ at most at the addresses in \<open>A\<close>, given as numbers.
  A load outside \<open>A\<close> is the same in both.
\<close>

definition changes_only :: "nat set \<Rightarrow> mem \<Rightarrow> mem \<Rightarrow> bool" where
  "changes_only A m m' \<longleftrightarrow> (\<forall>x. unat x \<notin> A \<longrightarrow> m' x = m x)"

abbreviation zone :: "addr \<Rightarrow> nat \<Rightarrow> nat set" where
  "zone a n \<equiv> {unat a..<unat a + n}"

lemma changes_only_refl [simp]: "changes_only A m m"
  by (simp add: changes_only_def)

lemma changes_only_trans:
  "changes_only A m m1 \<Longrightarrow> changes_only A m1 m2 \<Longrightarrow> changes_only A m m2"
  by (simp add: changes_only_def)

lemma changes_only_mono: "changes_only A m m' \<Longrightarrow> A \<subseteq> B \<Longrightarrow> changes_only B m m'"
  by (auto simp: changes_only_def)

lemma changes_only_store_le:
  assumes "unat a + n \<le> 2 ^ 64" and "zone a n \<subseteq> A"
  shows "changes_only A m (store_le m a n v)"
  unfolding changes_only_def
proof (intro allI impI)
  fix x :: addr assume x: "unat x \<notin> A"
  show "store_le m a n v x = m x"
  proof (rule store_le_other)
    fix i assume "i < n"
    then have "unat (a + of_nat i) = unat a + i"
      using assms(1) by (intro unat_add_of_nat) simp
    with \<open>i < n\<close> have "unat (a + of_nat i) \<in> zone a n" by simp
    with assms(2) x show "x \<noteq> a + of_nat i" by blast
  qed
qed

lemma changes_only_store:
  "unat a + 1 \<le> 2 ^ 64 \<Longrightarrow> zone a 1 \<subseteq> A \<Longrightarrow> changes_only A m (store8 m a v8)"
  "unat a + 2 \<le> 2 ^ 64 \<Longrightarrow> zone a 2 \<subseteq> A \<Longrightarrow> changes_only A m (store16 m a v16)"
  "unat a + 4 \<le> 2 ^ 64 \<Longrightarrow> zone a 4 \<subseteq> A \<Longrightarrow> changes_only A m (store32 m a v32)"
  "unat a + 8 \<le> 2 ^ 64 \<Longrightarrow> zone a 8 \<subseteq> A \<Longrightarrow> changes_only A m (store64 m a v64)"
  by (simp_all only: access_le changes_only_store_le)

lemma load_le_changes_only:
  assumes "changes_only A m m'" and "unat a + n \<le> 2 ^ 64" and "zone a n \<inter> A = {}"
  shows "load_le m' a n = load_le m a n"
proof (rule load_le_cong)
  fix i assume "i < n"
  then have "unat (a + of_nat i) = unat a + i"
    using assms(2) by (intro unat_add_of_nat) simp
  with \<open>i < n\<close> have "unat (a + of_nat i) \<in> zone a n" by simp
  with assms(3) have "unat (a + of_nat i) \<notin> A" by blast
  with assms(1) show "m' (a + of_nat i) = m (a + of_nat i)"
    by (simp add: changes_only_def)
qed

lemma load_changes_only:
  assumes "changes_only A m m'" and "zone a n \<inter> A = {}" and "unat a + n \<le> 2 ^ 64"
  shows "n = 1 \<Longrightarrow> load8 m' a = load8 m a"
    and "n = 4 \<Longrightarrow> load32 m' a = load32 m a"
    and "n = 8 \<Longrightarrow> load64 m' a = load64 m a"
  using load_le_changes_only [OF assms(1,3,2)] by (simp_all only: access_le)

subsection \<open>Bit-fields\<close>

text \<open>
  A C bit-field of \<open>len\<close> bits at bit \<open>off\<close> of its storage unit: reading it, and assigning it
  (the assigned value is cut to the field's width).
\<close>

definition bf_get :: "nat \<Rightarrow> nat \<Rightarrow> 'a::len word \<Rightarrow> 'a word" where
  "bf_get off len w = take_bit len (drop_bit off w)"

definition bf_set :: "nat \<Rightarrow> nat \<Rightarrow> 'a::len word \<Rightarrow> 'a word \<Rightarrow> 'a word" where
  "bf_set off len v w = (w AND NOT (push_bit off (mask len))) OR push_bit off (take_bit len v)"

lemma bit_bf_get: "bit (bf_get off len (w :: 'a::len word)) n \<longleftrightarrow> n < len \<and> bit w (off + n)"
  by (auto simp: bf_get_def bit_simps dest: bit_imp_le_length)

lemma bit_bf_set:
  "bit (bf_set off len v (w :: 'a::len word)) n \<longleftrightarrow> n < LENGTH('a) \<and>
     (if off \<le> n \<and> n < off + len then bit v (n - off) else bit w n)"
  by (auto simp: bf_set_def bit_simps dest: bit_imp_le_length)

lemma bf_get_set_same [bf_simps]:
  "off + len \<le> LENGTH('a) \<Longrightarrow> bf_get off len (bf_set off len v (w :: 'a::len word)) = take_bit len v"
  by (rule bit_word_eqI) (auto simp: bit_bf_get bit_bf_set bit_take_bit_iff)

lemma bf_get_set_other [bf_simps]:
  "off + len \<le> off' \<or> off' + len' \<le> off \<Longrightarrow>
   bf_get off len (bf_set off' len' v (w :: 'a::len word)) = bf_get off len w"
  by (rule bit_word_eqI) (auto simp: bit_bf_get bit_bf_set dest: bit_imp_le_length)

lemma bf_set_set_same [bf_simps]:
  "bf_set off len v (bf_set off len v' (w :: 'a::len word)) = bf_set off len v w"
  by (rule bit_word_eqI) (auto simp: bit_bf_set)

lemma bf_set_get: "bf_set off len (bf_get off len w) (w :: 'a::len word) = w"
  by (rule bit_word_eqI) (auto simp: bit_bf_set bit_bf_get)

lemma bf_get_le: "len < LENGTH('a) \<Longrightarrow> unat (bf_get off len (w :: 'a::len word)) < 2 ^ len"
  by (simp add: bf_get_def unsigned_take_bit_eq)

end
