(* ===== verification/RtMemory.thy ===== *)
theory RtMemory
  imports Prelude
begin

text \<open>
  The runtime memory routines of \<open>kernel/lib/memory.c\<close>: byte loops over the flat memory.  The
  \<open>for\<close> loops run \<open>unat sz\<close> times and move one byte per step, in increasing address order.
\<close>

subsection \<open>Operations\<close>

text \<open>The loop shared by \<open>RtZeroMemory\<close> and \<open>RtFillMemory\<close>: \<open>ptr[i] = value\<close> for each \<open>i\<close>.\<close>

fun fill_loop :: "mem \<Rightarrow> addr \<Rightarrow> nat \<Rightarrow> u8 \<Rightarrow> mem" where
  "fill_loop m a 0 v = m"
| "fill_loop m a (Suc n) v = fill_loop (store8 m a v) (a + 1) n v"

definition RtZeroMemory :: "mem \<Rightarrow> addr \<Rightarrow> u64 \<Rightarrow> mem" where
  "RtZeroMemory m address sz = fill_loop m address (unat sz) 0"

text \<open>\<open>dest[i] = src[i]\<close>, one byte at a time, from the lowest address up.\<close>

fun copy_loop :: "mem \<Rightarrow> addr \<Rightarrow> addr \<Rightarrow> nat \<Rightarrow> mem" where
  "copy_loop m d s 0 = m"
| "copy_loop m d s (Suc n) = copy_loop (store8 m d (load8 m s)) (d + 1) (s + 1) n"

definition RtCopyMemory :: "mem \<Rightarrow> addr \<Rightarrow> addr \<Rightarrow> u64 \<Rightarrow> mem" where
  "RtCopyMemory m destination source sz = copy_loop m destination source (unat sz)"

definition RtFillMemory :: "mem \<Rightarrow> addr \<Rightarrow> u64 \<Rightarrow> u8 \<Rightarrow> mem" where
  "RtFillMemory m address sz value = fill_loop m address (unat sz) value"

definition memcpy :: "mem \<Rightarrow> addr \<Rightarrow> addr \<Rightarrow> u64 \<Rightarrow> addr \<times> mem" where
  "memcpy m dest source sz = (dest, RtCopyMemory m dest source sz)"

definition memmove :: "mem \<Rightarrow> addr \<Rightarrow> addr \<Rightarrow> u64 \<Rightarrow> addr \<times> mem" where
  "memmove m dest source sz = (dest, RtCopyMemory m dest source sz)"

definition memset :: "mem \<Rightarrow> addr \<Rightarrow> u32 \<Rightarrow> u64 \<Rightarrow> addr \<times> mem" where
  "memset m a data len = (a, RtFillMemory m a len (ucast data))"

text \<open>The difference of two promoted bytes is a C \<open>int\<close>; it cannot overflow.\<close>

fun memcmp_loop :: "mem \<Rightarrow> addr \<Rightarrow> addr \<Rightarrow> nat \<Rightarrow> int" where
  "memcmp_loop m a b 0 = 0"
| "memcmp_loop m a b (Suc n) =
     (if load8 m a \<noteq> load8 m b then uint (load8 m a) - uint (load8 m b)
      else memcmp_loop m (a + 1) (b + 1) n)"

definition memcmp :: "mem \<Rightarrow> addr \<Rightarrow> addr \<Rightarrow> u64 \<Rightarrow> int" where
  "memcmp m a b sz = memcmp_loop m a b (unat sz)"

subsection \<open>Filling\<close>

lemma of_nat_Suc_shift: "(a :: u64) + 1 + of_nat i = a + of_nat (Suc i)"
  by (simp add: algebra_simps)

lemma fill_loop_outside:
  "(\<And>i. i < n \<Longrightarrow> x \<noteq> a + of_nat i) \<Longrightarrow> fill_loop m a n v x = m x"
proof (induction n arbitrary: m a)
  case 0
  then show ?case by simp
next
  case (Suc n)
  have "x \<noteq> a" using Suc.prems [of 0] by simp
  moreover have "fill_loop (store8 m a v) (a + 1) n v x = store8 m a v x"
    by (rule Suc.IH) (use Suc.prems [of "Suc _"] in \<open>simp add: of_nat_Suc_shift del: of_nat_Suc\<close>)
  ultimately show ?case by (simp add: store8_def)
qed

lemma fill_loop_inside:
  "i < n \<Longrightarrow> n \<le> 2 ^ 64 \<Longrightarrow> fill_loop m a n v (a + of_nat i) = v"
proof (induction n arbitrary: m a i)
  case 0
  then show ?case by simp
next
  case (Suc n)
  show ?case
  proof (cases i)
    case 0
    have "fill_loop (store8 m a v) (a + 1) n v a = store8 m a v a"
    proof (rule fill_loop_outside)
      fix j assume "j < n"
      with Suc.prems have "(of_nat (Suc j) :: u64) \<noteq> 0" by (intro of_nat_u64_ne_0) auto
      then show "a \<noteq> a + 1 + of_nat j" by (simp only: of_nat_Suc_shift) simp
    qed
    with 0 show ?thesis by (simp add: store8_def)
  next
    case (Suc k)
    with Suc.IH [of k "store8 m a v" "a + 1"] Suc.prems show ?thesis
      by (simp add: of_nat_Suc_shift del: of_nat_Suc)
  qed
qed

lemma RtZeroMemory_inside: "i < unat sz \<Longrightarrow> RtZeroMemory m a sz (a + of_nat i) = 0"
  using unat_lt_2_64 [of sz]
  by (auto simp: RtZeroMemory_def intro!: fill_loop_inside)

lemma RtZeroMemory_outside:
  "apart x 1 a (unat sz) \<Longrightarrow> RtZeroMemory m a sz x = m x"
  by (auto simp: RtZeroMemory_def apart_def intro!: fill_loop_outside)

lemma load_le_zero: "(\<And>i. i < n \<Longrightarrow> m (a + of_nat i) = 0) \<Longrightarrow> load_le m a n = 0"
proof (induction n arbitrary: a)
  case 0
  then show ?case by (simp add: load_le.simps)
next
  case (Suc n)
  have "load_le m (a + 1) n = 0"
    by (rule Suc.IH) (use Suc.prems [of "Suc _"] in \<open>simp add: of_nat_Suc_shift del: of_nat_Suc\<close>)
  with Suc.prems [of 0] show ?case by (simp add: load_le.simps)
qed

lemma load_le_RtZeroMemory_inside:
  "j + n \<le> unat sz \<Longrightarrow> load_le (RtZeroMemory m a sz) (a + of_nat j) n = 0"
proof (rule load_le_zero)
  fix i assume "j + n \<le> unat sz" and "i < n"
  then have "RtZeroMemory m a sz (a + of_nat (j + i)) = 0"
    by (intro RtZeroMemory_inside) simp
  then show "RtZeroMemory m a sz (a + of_nat j + of_nat i) = 0"
    by (simp add: add.assoc)
qed

lemma load64_RtZeroMemory_inside:
  "j + 8 \<le> unat sz \<Longrightarrow> load64 (RtZeroMemory m a sz) (a + of_nat j) = 0"
  by (simp add: load64_def load_le_RtZeroMemory_inside)

lemma load_le_RtZeroMemory_apart:
  "apart x n a (unat sz) \<Longrightarrow> load_le (RtZeroMemory m a sz) x n = load_le m x n"
proof (rule load_le_cong)
  fix i assume "apart x n a (unat sz)" and "i < n"
  then have "apart (x + of_nat i) 1 (a + of_nat 0) (unat sz)"
    by (intro apart_sub) auto
  then show "RtZeroMemory m a sz (x + of_nat i) = m (x + of_nat i)"
    by (intro RtZeroMemory_outside) simp
qed

lemma load_RtZeroMemory_apart [mem_simps]:
  "apart x 8 a (unat sz) \<Longrightarrow> load64 (RtZeroMemory m a sz) x = load64 m x"
  "apart x 4 a (unat sz) \<Longrightarrow> load32 (RtZeroMemory m a sz) x = load32 m x"
  "apart x 1 a (unat sz) \<Longrightarrow> load8 (RtZeroMemory m a sz) x = load8 m x"
  by (simp_all only: access_le load_le_RtZeroMemory_apart)

lemma RtZeroMemory_changes:
  assumes "unat a + unat sz \<le> 2 ^ 64"
  shows "changes_only (zone a (unat sz)) m (RtZeroMemory m a sz)"
  unfolding changes_only_def
proof (intro allI impI)
  fix x :: addr assume x: "unat x \<notin> zone a (unat sz)"
  have "apart x 1 a (unat sz)"
    using x assms unat_lt_2_64 [of x] by (intro apart_by_nat) auto
  then show "RtZeroMemory m a sz x = m x" by (rule RtZeroMemory_outside)
qed

subsection \<open>Copying\<close>

lemma copy_loop_outside:
  "(\<And>i. i < n \<Longrightarrow> x \<noteq> d + of_nat i) \<Longrightarrow> copy_loop m d s n x = m x"
proof (induction n arbitrary: m d s)
  case 0
  then show ?case by simp
next
  case (Suc n)
  have "x \<noteq> d" using Suc.prems [of 0] by simp
  moreover have "copy_loop (store8 m d (load8 m s)) (d + 1) (s + 1) n x = store8 m d (load8 m s) x"
    by (rule Suc.IH) (use Suc.prems [of "Suc _"] in \<open>simp add: of_nat_Suc_shift del: of_nat_Suc\<close>)
  ultimately show ?case by (simp add: store8_def)
qed

text \<open>
  The forward loop copies correctly whenever no byte is overwritten before it is read: the
  destination never coincides with a source byte of a later step.
\<close>

lemma copy_loop_inside:
  assumes "i < n" and "n \<le> 2 ^ 64"
    and "\<And>p q. p < q \<Longrightarrow> q < n \<Longrightarrow> d + of_nat p \<noteq> s + of_nat q"
  shows "copy_loop m d s n (d + of_nat i) = m (s + of_nat i)"
  using assms
proof (induction n arbitrary: m d s i)
  case 0
  then show ?case by simp
next
  case (Suc n)
  let ?m = "store8 m d (load8 m s)"
  show ?case
  proof (cases i)
    case 0
    have "copy_loop ?m (d + 1) (s + 1) n d = ?m d"
    proof (rule copy_loop_outside)
      fix j assume "j < n"
      with Suc.prems(2) have "(of_nat (Suc j) :: u64) \<noteq> 0" by (intro of_nat_u64_ne_0) auto
      then show "d \<noteq> d + 1 + of_nat j" by (simp only: of_nat_Suc_shift) simp
    qed
    with 0 show ?thesis by (simp add: store8_def load8_def)
  next
    case (Suc k)
    have "copy_loop ?m (d + 1) (s + 1) n (d + 1 + of_nat k) = ?m (s + 1 + of_nat k)"
    proof (rule Suc.IH)
      show "k < n" and "n \<le> 2 ^ 64" using Suc Suc.prems by auto
      fix p q assume "p < q" and "q < n"
      then show "d + 1 + of_nat p \<noteq> s + 1 + of_nat q"
        using Suc.prems(3) [of "Suc p" "Suc q"] by (simp only: of_nat_Suc_shift) simp
    qed
    moreover have "d \<noteq> s + of_nat (Suc k)"
      using Suc.prems(3) [of 0 "Suc k"] Suc Suc.prems(1) by simp
    ultimately show ?thesis
      using Suc by (simp add: store8_def of_nat_Suc_shift del: of_nat_Suc)
  qed
qed

text \<open>With the destination one byte above the source the first byte is smeared over the zone.\<close>

lemma copy_loop_smears:
  "i < n \<Longrightarrow> n < 2 ^ 64 \<Longrightarrow> copy_loop m (s + 1) s n (s + 1 + of_nat i) = m s"
proof (induction n arbitrary: m s i)
  case 0
  then show ?case by simp
next
  case (Suc n)
  let ?m = "store8 m (s + 1) (load8 m s)"
  have first: "?m (s + 1) = m s" by (simp add: store8_def load8_def)
  show ?case
  proof (cases i)
    case 0
    have "copy_loop ?m (s + 1 + 1) (s + 1) n (s + 1) = ?m (s + 1)"
    proof (rule copy_loop_outside)
      fix j assume "j < n"
      with Suc.prems(2) have "(of_nat (Suc j) :: u64) \<noteq> 0" by (intro of_nat_u64_ne_0) auto
      then show "s + 1 \<noteq> s + 1 + 1 + of_nat j" by (simp only: of_nat_Suc_shift) simp
    qed
    with 0 first show ?thesis by simp
  next
    case (Suc k)
    with Suc.prems have "copy_loop ?m (s + 1 + 1) (s + 1) n (s + 1 + 1 + of_nat k) = ?m (s + 1)"
      by (intro Suc.IH) auto
    moreover have "s + 1 + of_nat (Suc k) = s + 1 + 1 + of_nat k"
      by (simp add: algebra_simps)
    ultimately show ?thesis using Suc first by (simp only: copy_loop.simps)
  qed
qed

subsection \<open>Comparing\<close>

lemma memcmp_loop_0_iff:
  "memcmp_loop m a b n = 0 \<longleftrightarrow> (\<forall>i<n. m (a + of_nat i) = m (b + of_nat i))"
proof (induction n arbitrary: a b)
  case 0
  then show ?case by simp
next
  case (Suc n)
  have split: "(\<forall>i<Suc n. m (a + of_nat i) = m (b + of_nat i)) \<longleftrightarrow>
      m a = m b \<and> (\<forall>i<n. m (a + 1 + of_nat i) = m (b + 1 + of_nat i))"
    by (simp only: All_less_Suc2 of_nat_Suc_shift) simp
  show ?case
    using Suc.IH [of "a + 1" "b + 1"] unfolding split
    by (simp add: load8_def word_uint_eq_iff)
qed

lemma memcmp_loop_first_diff:
  "(\<And>j. j < i \<Longrightarrow> m (a + of_nat j) = m (b + of_nat j)) \<Longrightarrow> i < n \<Longrightarrow>
   m (a + of_nat i) \<noteq> m (b + of_nat i) \<Longrightarrow>
   memcmp_loop m a b n = uint (m (a + of_nat i)) - uint (m (b + of_nat i))"
proof (induction i arbitrary: a b n)
  case 0
  then show ?case by (cases n) (auto simp: load8_def)
next
  case (Suc i)
  obtain k where n: "n = Suc k" using Suc.prems(2) by (cases n) auto
  have "memcmp_loop m (a + 1) (b + 1) k
      = uint (m (a + 1 + of_nat i)) - uint (m (b + 1 + of_nat i))"
  proof (rule Suc.IH)
    fix j assume "j < i"
    then show "m (a + 1 + of_nat j) = m (b + 1 + of_nat j)"
      using Suc.prems(1) [of "Suc j"] by (simp add: of_nat_Suc_shift del: of_nat_Suc)
  next
    show "i < k" using Suc.prems(2) n by simp
  next
    show "m (a + 1 + of_nat i) \<noteq> m (b + 1 + of_nat i)"
      using Suc.prems(3) by (simp add: of_nat_Suc_shift del: of_nat_Suc)
  qed
  moreover have "m a = m b" using Suc.prems(1) [of 0] by simp
  ultimately show ?case using n by (simp add: load8_def of_nat_Suc_shift del: of_nat_Suc)
qed

subsection \<open>Properties\<close>

lemma forward_copy_safe:
  fixes d s sz :: u64
  assumes "d = s \<or> sz \<le> d - s" and "p < q" and "q < unat sz"
  shows "d + of_nat p \<noteq> s + of_nat q"
proof
  assume "d + of_nat p = s + of_nat q"
  then have diff: "d - s = of_nat (q - p)"
    using assms(2) by (simp add: algebra_simps of_nat_diff)
  have "q - p < 2 ^ 64" using assms(3) unat_lt_2_64 [of sz] by linarith
  then have u: "unat (d - s) = q - p" unfolding diff by (rule unat_of_nat_eq)
  show False
  proof (cases "d = s")
    case True
    with u assms(2) show False by simp
  next
    case False
    with assms u show False by (auto simp: word_le_nat_alt)
  qed
qed

text \<open>C13: \<open>RtCopyMemory\<close> (and so \<open>memcpy\<close>) copies \<open>sz\<close> bytes and changes nothing else, unless the
  destination starts strictly inside the source zone; addresses wrap as 64-bit pointers do.\<close>

theorem RtCopyMemory_copies:
  assumes "d = s \<or> sz \<le> d - s"
  shows "(\<forall>i<unat sz. RtCopyMemory m d s sz (d + of_nat i) = m (s + of_nat i)) \<and>
    (\<forall>x. (\<forall>i<unat sz. x \<noteq> d + of_nat i) \<longrightarrow> RtCopyMemory m d s sz x = m x)"
proof -
  have "unat sz \<le> 2 ^ 64" using unat_lt_2_64 [of sz] by simp
  then show ?thesis
    using forward_copy_safe [OF assms]
    by (auto simp: RtCopyMemory_def intro!: copy_loop_inside copy_loop_outside)
qed

theorem RtCopyMemory_copies_witness:
  "RtCopyMemory (\<lambda>a. ucast a) 0x1000 0x2008 4 (0x1000 + of_nat 3) = 0x0B \<and>
   RtCopyMemory (\<lambda>a. ucast a) 0x1000 0x2008 4 0x2008 = 8"
proof -
  have safe: "(0x1000 :: u64) = 0x2008 \<or> 4 \<le> (0x1000 :: u64) - 0x2008" by simp
  have "\<forall>i<unat (4 :: u64). (0x2008 :: u64) \<noteq> 0x1000 + of_nat i"
  proof (intro allI impI)
    fix i assume "i < unat (4 :: u64)"
    then have "i \<in> {0, 1, 2, 3}" by auto
    then show "(0x2008 :: u64) \<noteq> 0x1000 + of_nat i" by auto
  qed
  with RtCopyMemory_copies [OF safe, of "\<lambda>a. ucast a"] show ?thesis
    by (auto dest: spec [of _ 3])
qed

text \<open>\<open>memmove\<close> is the same forward loop, so it does not move overlapping zones upwards: with the
  destination one byte above the source it fills the zone with the first byte.\<close>

theorem memmove_smears:
  assumes "i < unat sz"
  shows "snd (memmove m (s + 1) s sz) (s + 1 + of_nat i) = m s"
  using assms unat_lt_2_64 [of sz] by (simp add: memmove_def RtCopyMemory_def copy_loop_smears)

theorem memmove_smears_witness:
  "snd (memmove (\<lambda>a. ucast a) (0x2000 + 1) 0x2000 3) (0x2000 + 1 + of_nat 1) = 0 \<and>
   (ucast (0x2001 :: u64) :: u8) = 1"
  using memmove_smears [of 1 3 "\<lambda>a. ucast a" "0x2000"] by simp

text \<open>\<open>memcmp\<close> is zero exactly on equal zones; otherwise it is the signed difference of the first
  pair of bytes that differ.\<close>

theorem memcmp_correct:
  "(memcmp m a b sz = 0 \<longleftrightarrow> (\<forall>i<unat sz. m (a + of_nat i) = m (b + of_nat i))) \<and>
   (\<forall>i<unat sz. (\<forall>j<i. m (a + of_nat j) = m (b + of_nat j)) \<longrightarrow> m (a + of_nat i) \<noteq> m (b + of_nat i) \<longrightarrow>
      memcmp m a b sz = uint (m (a + of_nat i)) - uint (m (b + of_nat i)))"
  unfolding memcmp_def by (auto simp: memcmp_loop_0_iff intro: memcmp_loop_first_diff)

theorem memcmp_correct_witness:
  "memcmp (\<lambda>a. if a < 0x12 then 7 else ucast a) 0x10 0x20 8 = 7 - 0x20"
  using memcmp_correct [of "\<lambda>a. if a < 0x12 then 7 else ucast a" "0x10" "0x20" 8]
  by (auto dest!: spec [of _ 0])

end
