(* ===== verification/Pmm.thy ===== *)
theory Pmm
  imports RtMemory
begin

text \<open>
  The physical page allocator of \<open>kernel/mem/pmm.c\<close>: one bit per page of the largest usable
  region, a statistics block, and a rotating scan for the next free page.  The bitfield is kept in
  memory and read without bounds, as the macros do.  Reading outside it is therefore modelled.
\<close>

subsection \<open>State\<close>

definition PAGE_SIZE :: u64 where
  "PAGE_SIZE = 0x1000"

record MemoryStatistics =
  total_available_pages :: u64
  first_available_page_addr :: u64
  last_available_page_address :: u64
  total_memory :: u64
  total_pages :: u64
  bitfield :: addr
  free_memory :: u64
  locked_memory :: u64
  reserved_memory :: u64

text \<open>The memory, the statistics block and the static variable of \<open>MmRequestPage\<close>.\<close>

record pmm =
  mem :: mem
  kMemory :: MemoryStatistics
  last_requested :: u64

subsection \<open>Macros\<close>

definition ALIGN_ADDR :: "u64 \<Rightarrow> u64" where
  "ALIGN_ADDR x = (if (PAGE_SIZE - 1) AND x \<noteq> 0
     then (x + PAGE_SIZE) AND NOT (PAGE_SIZE - 1) else x)"

definition ADDR_TO_PAGE :: "addr \<Rightarrow> u64" where
  "ADDR_TO_PAGE x = drop_bit 12 x"

definition page_byte :: "'a pmm_scheme \<Rightarrow> u64 \<Rightarrow> addr" where
  "page_byte s x = bitfield (kMemory s) + drop_bit 3 x"

definition SET_PAGE_BIT :: "u64 \<Rightarrow> 'a pmm_scheme \<Rightarrow> 'a pmm_scheme" where
  "SET_PAGE_BIT x s = s\<lparr>mem := store8 (mem s) (page_byte s x)
     (load8 (mem s) (page_byte s x) OR push_bit (unat (x mod 8)) 1)\<rparr>"

definition CLEAR_PAGE_BIT :: "u64 \<Rightarrow> 'a pmm_scheme \<Rightarrow> 'a pmm_scheme" where
  "CLEAR_PAGE_BIT x s = s\<lparr>mem := store8 (mem s) (page_byte s x)
     (load8 (mem s) (page_byte s x) AND NOT (push_bit (unat (x mod 8)) 1))\<rparr>"

definition GET_PAGE_BIT :: "'a pmm_scheme \<Rightarrow> u64 \<Rightarrow> bool" where
  "GET_PAGE_BIT s x \<longleftrightarrow>
     drop_bit (unat (x mod 8)) (load8 (mem s) (page_byte s x) AND push_bit (unat (x mod 8)) 1) = 1"

subsection \<open>Operations\<close>

definition MmReservePage :: "addr \<Rightarrow> 'a pmm_scheme \<Rightarrow> 'a pmm_scheme" where
  "MmReservePage address s =
     (let s1 = SET_PAGE_BIT (ADDR_TO_PAGE address) s; k = kMemory s1
      in s1\<lparr>kMemory := k\<lparr>free_memory := free_memory k - PAGE_SIZE,
                          reserved_memory := reserved_memory k + PAGE_SIZE\<rparr>\<rparr>)"

definition MmUnreservePage :: "addr \<Rightarrow> 'a pmm_scheme \<Rightarrow> 'a pmm_scheme" where
  "MmUnreservePage address s =
     (let s1 = CLEAR_PAGE_BIT (ADDR_TO_PAGE address) s; k = kMemory s1
      in s1\<lparr>kMemory := k\<lparr>free_memory := free_memory k + PAGE_SIZE,
                          reserved_memory := reserved_memory k - PAGE_SIZE\<rparr>\<rparr>)"

definition MmLockPage :: "addr \<Rightarrow> 'a pmm_scheme \<Rightarrow> 'a pmm_scheme" where
  "MmLockPage address s =
     (let s1 = SET_PAGE_BIT (ADDR_TO_PAGE address) s; k = kMemory s1
      in s1\<lparr>kMemory := k\<lparr>free_memory := free_memory k - PAGE_SIZE,
                          locked_memory := locked_memory k + PAGE_SIZE\<rparr>\<rparr>)"

definition MmUnlockPage :: "addr \<Rightarrow> 'a pmm_scheme \<Rightarrow> 'a pmm_scheme" where
  "MmUnlockPage address s =
     (let s1 = CLEAR_PAGE_BIT (ADDR_TO_PAGE address) s; k = kMemory s1
      in s1\<lparr>kMemory := k\<lparr>free_memory := free_memory k + PAGE_SIZE,
                          locked_memory := locked_memory k - PAGE_SIZE\<rparr>\<rparr>)"

text \<open>The four range operations: \<open>for (i = 0; i < pages; i++) op(address + (i << 12))\<close>.\<close>

definition for_pages ::
    "(addr \<Rightarrow> 's \<Rightarrow> 's) \<Rightarrow> addr \<Rightarrow> u64 \<Rightarrow> 's \<Rightarrow> 's" where
  "for_pages oper address pages =
     fold (\<lambda>i. oper (address + push_bit 12 (of_nat i))) [0..<unat pages]"

definition MmReservePages :: "addr \<Rightarrow> u64 \<Rightarrow> 'a pmm_scheme \<Rightarrow> 'a pmm_scheme" where
  "MmReservePages = for_pages MmReservePage"

definition MmUnreservePages :: "addr \<Rightarrow> u64 \<Rightarrow> 'a pmm_scheme \<Rightarrow> 'a pmm_scheme" where
  "MmUnreservePages = for_pages MmUnreservePage"

definition MmLockPages :: "addr \<Rightarrow> u64 \<Rightarrow> 'a pmm_scheme \<Rightarrow> 'a pmm_scheme" where
  "MmLockPages = for_pages MmLockPage"

definition MmUnlockPages :: "addr \<Rightarrow> u64 \<Rightarrow> 'a pmm_scheme \<Rightarrow> 'a pmm_scheme" where
  "MmUnlockPages = for_pages MmUnlockPage"

text \<open>
  The \<open>while\<close> loop of \<open>MmRequestPage\<close> on the static counter; with no free page it never returns
  (it only prints a message), which is the value \<open>None\<close>.
\<close>

partial_function (option) request_scan :: "'a pmm_scheme \<Rightarrow> u64 \<Rightarrow> u64 option" where
  "request_scan s lastr =
     (if GET_PAGE_BIT s lastr
      then request_scan s ((if total_available_pages (kMemory s) \<le> lastr then 0 else lastr) + 1)
      else Some lastr)"

definition MmRequestPage :: "'a pmm_scheme \<Rightarrow> (addr \<times> 'a pmm_scheme) option" where
  "MmRequestPage s = do {
     lastr \<leftarrow> request_scan s (last_requested s);
     let s1 = s\<lparr>last_requested := lastr\<rparr>;
     let s2 = MmLockPage (push_bit 12 lastr) s1;
     Some (first_available_page_addr (kMemory s2) + push_bit 12 lastr, s2) }"

definition MmFreePage :: "addr \<Rightarrow> 'a pmm_scheme \<Rightarrow> 'a pmm_scheme" where
  "MmFreePage a s = MmUnlockPage (a - first_available_page_addr (kMemory s)) s"

subsection \<open>Initialisation\<close>

text \<open>
  The boot loader's memory map (\<open>limine.h\<close> is not part of the repository): its entries, and the
  type code of usable memory as a parameter.
\<close>

record memmap_entry =
  me_base :: u64
  me_length :: u64
  me_type :: u64

definition memmap_step ::
    "u64 \<Rightarrow> memmap_entry \<Rightarrow> u64 \<times> u64 \<times> memmap_entry option \<Rightarrow> u64 \<times> u64 \<times> memmap_entry option" where
  "memmap_step usable entry = (\<lambda>(total_memory, usable_memory, largest).
     let total_memory = total_memory + me_length entry in
     if me_type entry \<noteq> usable then (total_memory, usable_memory, largest)
     else (total_memory, usable_memory + me_length entry,
           case largest of
             None \<Rightarrow> Some entry
           | Some l \<Rightarrow> if me_length l < me_length entry then Some entry else Some l))"

definition memmap_scan :: "u64 \<Rightarrow> memmap_entry list \<Rightarrow> u64 \<times> u64 \<times> memmap_entry option" where
  "memmap_scan usable entries = fold (memmap_step usable) entries (0, 0, None)"

definition sizeof_MemoryStatistics :: u64 where
  "sizeof_MemoryStatistics = 72"

definition bitfield_entries_of :: "u64 \<Rightarrow> u64" where
  "bitfield_entries_of available_pages =
     (if available_pages mod 8 = 0 then drop_bit 3 available_pages
      else drop_bit 3 available_pages + 1)"

text \<open>
  Without a usable entry the C code dereferences the null pointer \<open>largest\<close>; the model returns
  \<open>None\<close>.  The two size and alignment checks of the source only print a message and go on.
\<close>

definition MmInitialize ::
    "u64 \<Rightarrow> memmap_entry list \<Rightarrow> 'a pmm_scheme \<Rightarrow> 'a pmm_scheme option" where
  "MmInitialize usable entries s = (case memmap_scan usable entries of
     (tot, _, None) \<Rightarrow> None
   | (tot, _, Some largest) \<Rightarrow>
      (let first_available = ALIGN_ADDR (me_base largest);
           last_available = ALIGN_ADDR (me_base largest + me_length largest);
           available_pages = drop_bit 12 (last_available - first_available);
           bitfield_entries = bitfield_entries_of available_pages;
           bf = ALIGN_ADDR (first_available + sizeof_MemoryStatistics);
           k = \<lparr>total_available_pages = available_pages,
                first_available_page_addr = first_available,
                last_available_page_address = last_available,
                total_memory = tot,
                total_pages = drop_bit 12 tot,
                bitfield = bf,
                free_memory = last_available - first_available,
                locked_memory = 0,
                reserved_memory = 0\<rparr>;
           s1 = s\<lparr>mem := RtZeroMemory (mem s) bf bitfield_entries, kMemory := k\<rparr>
       in Some (MmReservePages 0
            (drop_bit 12 (bitfield_entries + sizeof_MemoryStatistics + push_bit 12 3)) s1)))"

subsection \<open>The bitfield\<close>

lemma page_bit_index: "unat ((x :: u64) mod 8) = unat x mod 8" and page_bit_lt: "unat ((x :: u64) mod 8) < 8"
  by (simp_all add: unat_mod)

lemma GET_PAGE_BIT_bit: "GET_PAGE_BIT s x \<longleftrightarrow> bit (load8 (mem s) (page_byte s x)) (unat (x mod 8))"
proof -
  let ?n = "unat (x mod 8)"
  have n: "?n < 8" by (rule page_bit_lt)
  have "drop_bit ?n (b AND push_bit ?n 1) = (if bit b ?n then 1 else 0)" for b :: u8
    using n by (intro bit_word_eqI) (auto simp: bit_simps intro!: Nat.gr0I)
  then show ?thesis by (simp add: GET_PAGE_BIT_def)
qed

lemma page_index_eqI:
  assumes "drop_bit 3 x = drop_bit 3 (y :: u64)" and "unat (x mod 8) = unat (y mod 8)"
  shows "x = y"
proof -
  have "x div 8 = y div 8"
    using assms(1) by (simp add: drop_bit_eq_div)
  moreover have "x mod 8 = y mod 8"
    using assms(2) by (rule unsigned_word_eqI)
  ultimately show ?thesis by (metis div_mult_mod_eq)
qed

lemma bit_set_u8: "n < 8 \<Longrightarrow> bit (b OR 2 ^ n :: u8) k \<longleftrightarrow> bit b k \<or> k = n"
  by (auto simp: bit_simps)

lemma bit_clear_u8: "bit (b AND NOT (2 ^ n) :: u8) k \<longleftrightarrow> bit b k \<and> k \<noteq> n"
  by (auto simp: bit_simps dest: bit_imp_le_length)

lemma GET_SET_PAGE_BIT [simp]: "GET_PAGE_BIT (SET_PAGE_BIT x s) y \<longleftrightarrow> y = x \<or> GET_PAGE_BIT s y"
proof (cases "drop_bit 3 x = drop_bit 3 y")
  case True
  then show ?thesis
    by (auto simp: GET_PAGE_BIT_bit SET_PAGE_BIT_def page_byte_def load8_def store8_def
        bit_set_u8 page_bit_lt intro: page_index_eqI)
next
  case False
  then show ?thesis
    by (auto simp: GET_PAGE_BIT_bit SET_PAGE_BIT_def page_byte_def load8_def store8_def)
qed

lemma GET_CLEAR_PAGE_BIT [simp]: "GET_PAGE_BIT (CLEAR_PAGE_BIT x s) y \<longleftrightarrow> y \<noteq> x \<and> GET_PAGE_BIT s y"
proof (cases "drop_bit 3 x = drop_bit 3 y")
  case True
  then show ?thesis
    by (auto simp: GET_PAGE_BIT_bit CLEAR_PAGE_BIT_def page_byte_def load8_def store8_def
        bit_clear_u8 intro: page_index_eqI)
next
  case False
  then show ?thesis
    by (auto simp: GET_PAGE_BIT_bit CLEAR_PAGE_BIT_def page_byte_def load8_def store8_def)
qed

lemma GET_PAGE_BIT_frame [simp]:
  "GET_PAGE_BIT (s\<lparr>last_requested := l\<rparr>) x = GET_PAGE_BIT s x"
  "bitfield k = bitfield (kMemory s) \<Longrightarrow> GET_PAGE_BIT (s\<lparr>kMemory := k\<rparr>) x = GET_PAGE_BIT s x"
  by (simp_all add: GET_PAGE_BIT_def page_byte_def)

lemma kMemory_PAGE_BIT [simp]:
  "kMemory (SET_PAGE_BIT x s) = kMemory s" "kMemory (CLEAR_PAGE_BIT x s) = kMemory s"
  "last_requested (SET_PAGE_BIT x s) = last_requested s"
  "last_requested (CLEAR_PAGE_BIT x s) = last_requested s"
  by (simp_all add: SET_PAGE_BIT_def CLEAR_PAGE_BIT_def)

lemma GET_page_ops [simp]:
  "GET_PAGE_BIT (MmReservePage a s) x \<longleftrightarrow> x = ADDR_TO_PAGE a \<or> GET_PAGE_BIT s x"
  "GET_PAGE_BIT (MmLockPage a s) x \<longleftrightarrow> x = ADDR_TO_PAGE a \<or> GET_PAGE_BIT s x"
  "GET_PAGE_BIT (MmUnreservePage a s) x \<longleftrightarrow> x \<noteq> ADDR_TO_PAGE a \<and> GET_PAGE_BIT s x"
  "GET_PAGE_BIT (MmUnlockPage a s) x \<longleftrightarrow> x \<noteq> ADDR_TO_PAGE a \<and> GET_PAGE_BIT s x"
  by (simp_all add: MmReservePage_def MmLockPage_def MmUnreservePage_def MmUnlockPage_def Let_def)

subsection \<open>Accounting\<close>

text \<open>
  Every operation moves whole pages between the three counters: their sum never changes, wrap-around
  included.  The geometry of the managed region never changes either.
\<close>

definition accounted :: "'a pmm_scheme \<Rightarrow> u64" where
  "accounted s = free_memory (kMemory s) + locked_memory (kMemory s) + reserved_memory (kMemory s)"

definition same_region :: "'a pmm_scheme \<Rightarrow> 'a pmm_scheme \<Rightarrow> bool" where
  "same_region s t \<longleftrightarrow>
     total_available_pages (kMemory t) = total_available_pages (kMemory s) \<and>
     first_available_page_addr (kMemory t) = first_available_page_addr (kMemory s) \<and>
     last_available_page_address (kMemory t) = last_available_page_address (kMemory s) \<and>
     bitfield (kMemory t) = bitfield (kMemory s)"

lemma same_region_refl [simp]: "same_region s s"
  by (simp add: same_region_def)

lemma same_region_trans: "same_region s t \<Longrightarrow> same_region t u \<Longrightarrow> same_region s u"
  by (simp add: same_region_def)

lemmas page_op_defs = MmReservePage_def MmLockPage_def MmUnreservePage_def MmUnlockPage_def

lemma accounted_ops [simp]:
  "accounted (MmReservePage a s) = accounted s" "accounted (MmUnreservePage a s) = accounted s"
  "accounted (MmLockPage a s) = accounted s" "accounted (MmUnlockPage a s) = accounted s"
  by (simp_all add: accounted_def page_op_defs Let_def)

lemma same_region_ops [simp]:
  "same_region s (MmReservePage a s)" "same_region s (MmUnreservePage a s)"
  "same_region s (MmLockPage a s)" "same_region s (MmUnlockPage a s)"
  by (simp_all add: same_region_def page_op_defs Let_def)

lemma last_requested_ops [simp]:
  "last_requested (MmReservePage a s) = last_requested s"
  "last_requested (MmUnreservePage a s) = last_requested s"
  "last_requested (MmLockPage a s) = last_requested s"
  "last_requested (MmUnlockPage a s) = last_requested s"
  by (simp_all add: page_op_defs Let_def)

text \<open>A property kept by each single-page operation is kept by the loop over a range.\<close>

lemma for_pages_invariant:
  "(\<And>a s. P s \<Longrightarrow> P (oper a s)) \<Longrightarrow> P s \<Longrightarrow> P (for_pages oper address pages s)"
proof -
  assume step: "\<And>a s. P s \<Longrightarrow> P (oper a s)" and start: "P s"
  have "P (fold (\<lambda>i. oper (address + push_bit 12 (of_nat i))) is s)" for "is"
    using start by (induction "is" arbitrary: s) (auto intro: step)
  then show ?thesis by (simp add: for_pages_def)
qed

lemma GET_for_pages_set:
  assumes "\<And>a s x. GET_PAGE_BIT (oper a s) x \<longleftrightarrow> x = ADDR_TO_PAGE a \<or> GET_PAGE_BIT s x"
  shows "GET_PAGE_BIT (for_pages oper address pages s) x \<longleftrightarrow>
    (\<exists>i<unat pages. x = ADDR_TO_PAGE (address + push_bit 12 (of_nat i))) \<or> GET_PAGE_BIT s x"
proof -
  have "GET_PAGE_BIT (fold (\<lambda>i. oper (address + push_bit 12 (of_nat i))) is s) x \<longleftrightarrow>
      (\<exists>i\<in>set is. x = ADDR_TO_PAGE (address + push_bit 12 (of_nat i))) \<or> GET_PAGE_BIT s x" for "is"
    by (induction "is" arbitrary: s) (auto simp: assms)
  then show ?thesis by (auto simp: for_pages_def)
qed

subsection \<open>Requesting and freeing a page\<close>

text \<open>
  What \<open>MmInitialize\<close> establishes and every operation keeps: page numbers fit in 52 bits and the
  rotating counter stays within the region, its end included.
\<close>

definition pmm_ok :: "'a pmm_scheme \<Rightarrow> bool" where
  "pmm_ok s \<longleftrightarrow> unat (total_available_pages (kMemory s)) < 2 ^ 52 \<and>
     last_requested s \<le> total_available_pages (kMemory s)"

lemma next_candidate_le:
  "(l :: u64) \<le> n \<Longrightarrow> n \<noteq> 0 \<Longrightarrow>
    (if n \<le> l then 0 else l) + 1 \<le> n \<and> (if n \<le> l then 0 else l) + 1 \<noteq> 0"
proof (cases "n \<le> l")
  assume "n \<noteq> 0" and "n \<le> l"
  then show ?thesis by (simp add: word_le_nat_alt Suc_le_eq unat_gt_0)
next
  assume "\<not> n \<le> l"
  then have "l < n" by simp
  moreover from this have S: "unat (l + 1) = Suc (unat l)" by (rule unat_Suc_word)
  then have "l + 1 \<noteq> 0" by auto
  ultimately show ?thesis using S by (simp add: word_le_nat_alt word_less_nat_alt)
qed

lemma request_scan_result:
  assumes "request_scan s l = Some r"
  shows "\<not> GET_PAGE_BIT s r \<and>
    (l \<le> total_available_pages (kMemory s) \<longrightarrow> total_available_pages (kMemory s) \<noteq> 0 \<longrightarrow>
       r \<le> total_available_pages (kMemory s) \<and> (r = 0 \<longrightarrow> l = 0))"
proof (rule request_scan.raw_induct [where P = "\<lambda>s l r. \<not> GET_PAGE_BIT s r \<and>
    (l \<le> total_available_pages (kMemory s) \<longrightarrow> total_available_pages (kMemory s) \<noteq> 0 \<longrightarrow>
       r \<le> total_available_pages (kMemory s) \<and> (r = 0 \<longrightarrow> l = 0))", OF _ assms])
  fix f s l r
  let ?n = "total_available_pages (kMemory s)"
  assume IH: "\<And>s l r. f s l = Some r \<Longrightarrow> \<not> GET_PAGE_BIT s r \<and>
      (l \<le> total_available_pages (kMemory s) \<longrightarrow> total_available_pages (kMemory s) \<noteq> 0 \<longrightarrow>
         r \<le> total_available_pages (kMemory s) \<and> (r = 0 \<longrightarrow> l = 0))"
    and eq: "(if GET_PAGE_BIT s l then f s ((if ?n \<le> l then 0 else l) + 1) else Some l) = Some r"
  show "\<not> GET_PAGE_BIT s r \<and> (l \<le> ?n \<longrightarrow> ?n \<noteq> 0 \<longrightarrow> r \<le> ?n \<and> (r = 0 \<longrightarrow> l = 0))"
  proof (cases "GET_PAGE_BIT s l")
    case True
    with eq have "f s ((if ?n \<le> l then 0 else l) + 1) = Some r" by simp
    with IH [OF this] next_candidate_le [of l ?n] show ?thesis by blast
  next
    case False
    with eq show ?thesis by simp
  qed
qed

lemma request_scan_up:
  assumes "l \<le> y" and "y \<le> total_available_pages (kMemory s)" and "\<not> GET_PAGE_BIT s y"
  shows "\<exists>r. request_scan s l = Some r"
  using assms
proof (induction "unat y - unat l" arbitrary: l)
  case 0
  then have "l = y" by (simp add: word_le_nat_alt unsigned_word_eqI)
  with 0 show ?case by (simp add: request_scan.simps)
next
  case (Suc k)
  show ?case
  proof (cases "GET_PAGE_BIT s l")
    case True
    with Suc.prems have lt: "l < y" by (auto simp: order_less_le)
    then have "unat (l + 1) = Suc (unat l)" by (rule unat_Suc_word)
    with Suc.hyps(2) have k: "k = unat y - unat (l + 1)" by simp
    have le: "l + 1 \<le> y" using lt \<open>unat (l + 1) = Suc (unat l)\<close>
      by (simp add: word_le_nat_alt word_less_nat_alt)
    have "\<not> total_available_pages (kMemory s) \<le> l"
      using lt Suc.prems(2) by simp
    with True Suc.hyps(1) [OF k le Suc.prems(2,3)] show ?thesis
      by (subst request_scan.simps) simp
  next
    case False
    then show ?thesis by (simp add: request_scan.simps)
  qed
qed

lemma request_scan_returns:
  assumes l: "l \<le> total_available_pages (kMemory s)"
    and y: "1 \<le> y" "y \<le> total_available_pages (kMemory s)" "\<not> GET_PAGE_BIT s y"
  shows "\<exists>r. request_scan s l = Some r"
proof -
  let ?n = "total_available_pages (kMemory s)"
  have from_one: "\<exists>r. request_scan s 1 = Some r"
    using y by (intro request_scan_up)
  show ?thesis using l
  proof (induction "unat ?n - unat l" arbitrary: l)
    case 0
    then have "?n \<le> l" by (simp add: word_le_nat_alt)
    with from_one show ?case by (subst request_scan.simps) auto
  next
    case (Suc k)
    then have lt: "l < ?n" by (auto simp: word_less_nat_alt)
    then have S: "unat (l + 1) = Suc (unat l)" by (rule unat_Suc_word)
    with Suc.hyps(2) have k: "k = unat ?n - unat (l + 1)" by simp
    have "l + 1 \<le> ?n" using lt S by (simp add: word_le_nat_alt word_less_nat_alt)
    with Suc.hyps(1) [OF k] lt show ?case by (subst request_scan.simps) auto
  qed
qed

lemma page_roundtrip: "unat r < 2 ^ 52 \<Longrightarrow> ADDR_TO_PAGE (push_bit 12 r) = r"
proof -
  assume "unat r < 2 ^ 52"
  then have "take_bit 52 r = r" by (rule take_bit_small)
  moreover have "drop_bit 12 (push_bit 12 r) = take_bit 52 r"
    by (rule bit_word_eqI) (auto simp: bit_simps)
  ultimately show ?thesis by (simp add: ADDR_TO_PAGE_def)
qed

lemma MmRequestPage_cases:
  assumes "pmm_ok s" and "total_available_pages (kMemory s) \<noteq> 0" and "MmRequestPage s = Some (a, t)"
  obtains r where "r \<le> total_available_pages (kMemory s)" and "\<not> GET_PAGE_BIT s r"
    and "a = first_available_page_addr (kMemory s) + push_bit 12 r"
    and "ADDR_TO_PAGE (push_bit 12 r) = r" and "last_requested t = r"
    and "t = MmLockPage (push_bit 12 r) (s\<lparr>last_requested := r\<rparr>)"
proof -
  obtain r where scan: "request_scan s (last_requested s) = Some r"
    using assms(3) by (auto simp: MmRequestPage_def bind_eq_Some_conv)
  have r: "r \<le> total_available_pages (kMemory s)" "\<not> GET_PAGE_BIT s r"
    using request_scan_result [OF scan] assms(1,2) by (auto simp: pmm_ok_def)
  have "unat r < 2 ^ 52"
    using r(1) assms(1) by (simp add: pmm_ok_def word_le_nat_alt)
  then have page: "ADDR_TO_PAGE (push_bit 12 r) = r" by (rule page_roundtrip)
  have "a = first_available_page_addr (kMemory s) + push_bit 12 r"
    "t = MmLockPage (push_bit 12 r) (s\<lparr>last_requested := r\<rparr>)"
    using assms(3) scan by (auto simp: MmRequestPage_def MmLockPage_def Let_def)
  with that r page show ?thesis by simp
qed

lemma pmm_ok_MmRequestPage:
  assumes "pmm_ok s" and "total_available_pages (kMemory s) \<noteq> 0" and "MmRequestPage s = Some (a, t)"
  shows "pmm_ok t" and "same_region s t" and "accounted t = accounted s"
proof -
  obtain r where r: "r \<le> total_available_pages (kMemory s)" "last_requested t = r"
    and t: "t = MmLockPage (push_bit 12 r) (s\<lparr>last_requested := r\<rparr>)"
    using MmRequestPage_cases [OF assms] by metis
  have "same_region (s\<lparr>last_requested := r\<rparr>) t" unfolding t by simp
  then show region: "same_region s t" by (simp add: same_region_def)
  show "accounted t = accounted s" unfolding t by (simp add: accounted_def MmLockPage_def Let_def)
  show "pmm_ok t" using assms(1) r region by (simp add: pmm_ok_def same_region_def)
qed

lemma page_addresses_distinct:
  assumes "unat (r :: u64) < 2 ^ 52" and "unat r' < 2 ^ 52" and "r \<noteq> r'"
  shows "a + push_bit 12 r \<noteq> a + push_bit 12 r'"
  using page_roundtrip [OF assms(1)] page_roundtrip [OF assms(2)] assms(3) by auto

subsection \<open>Initialisation\<close>

lemma ALIGN_ADDR_eq:
  "ALIGN_ADDR x = (if x mod 4096 = 0 then x else x + 4096 - x mod 4096)"
  by (simp add: ALIGN_ADDR_def PAGE_SIZE_def and_4095 neg_4096_and mod_add_4096 and.commute)

lemma word_sub_mod_4096: "unat ((x :: u64) - x mod 4096) = unat x - unat x mod 4096"
  by (subst unat_sub_u64) (auto simp: unat_mod)

lemma ALIGN_ADDR_aligned: "ALIGN_ADDR x mod 4096 = 0"
proof -
  have "(x - x mod 4096) mod 4096 = 0"
    by (simp only: word_unat_eq_iff unat_mod word_sub_mod_4096) (simp add: minus_mod_eq_mult_div)
  then have "(x - x mod 4096 + 4096) mod 4096 = 0" by (simp add: mod_add_4096)
  then show ?thesis by (simp add: ALIGN_ADDR_eq algebra_simps)
qed

lemma bitfield_on_second_page:
  assumes "a mod 4096 = 0"
  shows "ALIGN_ADDR (a + sizeof_MemoryStatistics) = a + 4096"
proof -
  have a: "unat a mod 4096 = 0"
    using assms by (simp add: word_unat_eq_iff unat_mod)
  have "unat (a + 72) = unat a + 72"
    using a unat_lt_2_64 [of a] by (subst unat_add_u64) auto
  then have "(a + 72) mod 4096 = 72"
    using a by (simp add: word_unat_eq_iff unat_mod mod_add_left_eq [symmetric])
  then show ?thesis by (simp add: ALIGN_ADDR_eq sizeof_MemoryStatistics_def)
qed

lemma unat_drop_bit: "unat (drop_bit n (x :: u64)) = unat x div 2 ^ n"
  by (subst unat_drop_bit_eq) (simp add: drop_bit_eq_div)

lemma ceil_div_8: "(n + 7) div 8 = (if n mod 8 = 0 then n div 8 else n div 8 + 1)" for n :: nat
proof -
  have "n + 7 = n mod 8 + 7 + n div 8 * 8" by simp
  then have "(n + 7) div 8 = (n mod 8 + 7) div 8 + n div 8" by (metis div_mult_self3 zero_neq_numeral add.commute)
  moreover have "(n mod 8 + 7) div 8 = 1" if "n mod 8 \<noteq> 0"
    using that by (intro div_nat_eqI) auto
  ultimately show ?thesis by auto
qed

lemma unat_bitfield_entries:
  assumes "unat p < 2 ^ 52"
  shows "unat (bitfield_entries_of p) = (unat p + 7) div 8"
proof -
  have "unat (drop_bit 3 p) < 2 ^ 49" using assms by (simp add: unat_drop_bit)
  then have "unat (drop_bit 3 p + 1) = unat p div 8 + 1"
    by (subst unat_add_u64) (auto simp: unat_drop_bit)
  moreover have "p mod 8 = 0 \<longleftrightarrow> unat p mod 8 = 0"
    by (simp add: word_unat_eq_iff unat_mod)
  ultimately show ?thesis
    by (simp add: bitfield_entries_of_def unat_drop_bit ceil_div_8)
qed

text \<open>The number of pages \<open>MmInitialize\<close> reserves for its own data.\<close>

definition metadata_pages :: "'a pmm_scheme \<Rightarrow> nat" where
  "metadata_pages s =
     ((unat (total_available_pages (kMemory s)) + 7) div 8 + 72 + 3 * 4096) div 4096"

lemma MmInitialize_state:
  assumes "MmInitialize usable entries s = Some t"
  obtains s1 where
    "t = MmReservePages 0 (of_nat (metadata_pages s1)) s1"
    and "unat (total_available_pages (kMemory s1)) < 2 ^ 52"
    and "first_available_page_addr (kMemory s1) mod 4096 = 0"
    and "bitfield (kMemory s1) = first_available_page_addr (kMemory s1) + 4096"
    and "mem s1 = RtZeroMemory (mem s) (bitfield (kMemory s1))
           (bitfield_entries_of (total_available_pages (kMemory s1)))"
    and "accounted s1 = last_available_page_address (kMemory s1) - first_available_page_addr (kMemory s1)"
    and "last_requested s1 = last_requested s"
proof -
  obtain tot us largest where scan: "memmap_scan usable entries = (tot, us, Some largest)"
    using assms by (auto simp: MmInitialize_def split: prod.splits option.splits)
  define p where "p = drop_bit 12 (ALIGN_ADDR (me_base largest + me_length largest) - ALIGN_ADDR (me_base largest))"
  have p: "unat p < 2 ^ 52"
    using unat_lt_2_64 by (simp add: p_def unat_drop_bit less_mult_imp_div_less)
  have "unat (bitfield_entries_of p) \<le> 2 ^ 49"
    using p by (simp add: unat_bitfield_entries)
  then have E: "unat (bitfield_entries_of p + 72 + 12288) = (unat p + 7) div 8 + 72 + 12288"
    using p by (simp add: unat_add_u64 unat_bitfield_entries)
  then have count: "unat (drop_bit 12 (bitfield_entries_of p + 72 + 12288))
      = ((unat p + 7) div 8 + 72 + 3 * 4096) div 4096"
    by (simp add: unat_drop_bit)
  have "drop_bit 12 (bitfield_entries_of p + sizeof_MemoryStatistics + push_bit 12 3)
      = of_nat (unat (drop_bit 12 (bitfield_entries_of p + 72 + 12288)))"
    by (simp add: sizeof_MemoryStatistics_def)
  then have reserved: "drop_bit 12 (bitfield_entries_of p + sizeof_MemoryStatistics + push_bit 12 3)
      = of_nat (((unat p + 7) div 8 + 72 + 3 * 4096) div 4096)"
    by (simp only: count)
  define k where "k = \<lparr>total_available_pages = p,
      first_available_page_addr = ALIGN_ADDR (me_base largest),
      last_available_page_address = ALIGN_ADDR (me_base largest + me_length largest),
      total_memory = tot, total_pages = drop_bit 12 tot,
      bitfield = ALIGN_ADDR (ALIGN_ADDR (me_base largest) + sizeof_MemoryStatistics),
      free_memory = ALIGN_ADDR (me_base largest + me_length largest) - ALIGN_ADDR (me_base largest),
      locked_memory = 0, reserved_memory = 0\<rparr>"
  define s1 where "s1 = s\<lparr>mem := RtZeroMemory (mem s) (bitfield k) (bitfield_entries_of p), kMemory := k\<rparr>"
  have "t = MmReservePages 0 (of_nat (metadata_pages s1)) s1"
    using assms reserved
    by (simp add: MmInitialize_def scan Let_def s1_def k_def p_def metadata_pages_def)
  then show ?thesis
    by (rule that) (use p in \<open>simp_all add: s1_def k_def accounted_def
        ALIGN_ADDR_aligned bitfield_on_second_page\<close>)
qed

lemma GET_MmReservePages:
  "GET_PAGE_BIT (MmReservePages a n s) x \<longleftrightarrow>
    (\<exists>i<unat n. x = ADDR_TO_PAGE (a + push_bit 12 (of_nat i))) \<or> GET_PAGE_BIT s x"
  unfolding MmReservePages_def by (rule GET_for_pages_set) simp

lemma MmReservePages_keeps:
  "same_region s (MmReservePages a n s)" "accounted (MmReservePages a n s) = accounted s"
  "last_requested (MmReservePages a n s) = last_requested s"
  unfolding MmReservePages_def
  by (rule for_pages_invariant [where P = "same_region s"]
        for_pages_invariant [where P = "\<lambda>t. accounted t = accounted s"]
        for_pages_invariant [where P = "\<lambda>t. last_requested t = last_requested s"];
      auto intro: same_region_trans)+

lemma page_number_of_nat:
  assumes "i < 2 ^ 52"
  shows "ADDR_TO_PAGE (0 + push_bit 12 (of_nat i)) = of_nat i"
proof -
  have "unat (of_nat i :: u64) = i" using assms by (intro unat_of_nat_eq) simp
  with assms page_roundtrip [of "of_nat i"] show ?thesis by simp
qed

lemma MmInitialize_GET:
  assumes "MmInitialize usable entries s = Some t" and "x < total_available_pages (kMemory t)"
  shows "GET_PAGE_BIT t x \<longleftrightarrow> unat x < metadata_pages t"
proof -
  obtain s1 where t: "t = MmReservePages 0 (of_nat (metadata_pages s1)) s1"
    and n: "unat (total_available_pages (kMemory s1)) < 2 ^ 52"
    and m: "mem s1 = RtZeroMemory (mem s) (bitfield (kMemory s1))
           (bitfield_entries_of (total_available_pages (kMemory s1)))"
    by (rule MmInitialize_state [OF assms(1)])
  have k: "total_available_pages (kMemory t) = total_available_pages (kMemory s1)"
    using MmReservePages_keeps(1) [of s1] by (simp add: t same_region_def)
  then have meta: "metadata_pages t = metadata_pages s1" by (simp add: metadata_pages_def)
  have bound: "metadata_pages s1 < 2 ^ 52" using n by (simp add: metadata_pages_def)
  have x: "unat x < unat (total_available_pages (kMemory s1))"
    using assms(2) by (simp add: k word_less_nat_alt)
  have "\<not> GET_PAGE_BIT s1 x"
  proof -
    have "unat (drop_bit 3 x) < unat (bitfield_entries_of (total_available_pages (kMemory s1)))"
      using x n by (simp add: unat_bitfield_entries unat_drop_bit)
    then have "mem s1 (page_byte s1 x) = 0"
      using RtZeroMemory_inside [of "unat (drop_bit 3 x)"] by (simp add: m page_byte_def)
    then show ?thesis by (simp add: GET_PAGE_BIT_def load8_def)
  qed
  moreover have "unat (of_nat (metadata_pages s1) :: u64) = metadata_pages s1"
    using bound by (intro unat_of_nat_eq) simp
  moreover have "(\<exists>i<metadata_pages s1. x = ADDR_TO_PAGE (0 + push_bit 12 (of_nat i)))
      \<longleftrightarrow> unat x < metadata_pages s1"
  proof
    assume "\<exists>i<metadata_pages s1. x = ADDR_TO_PAGE (0 + push_bit 12 (of_nat i))"
    then obtain i where "i < metadata_pages s1" and "x = of_nat i"
      using bound page_number_of_nat by (metis order.strict_trans)
    then show "unat x < metadata_pages s1" using bound by (simp add: unat_of_nat_eq)
  next
    assume "unat x < metadata_pages s1"
    with bound page_number_of_nat [of "unat x"] show "\<exists>i<metadata_pages s1. x = ADDR_TO_PAGE (0 + push_bit 12 (of_nat i))"
      by (intro exI [of _ "unat x"]) simp
  qed
  ultimately show ?thesis by (simp only: t meta GET_MmReservePages) (simp add: meta [unfolded t])
qed

subsection \<open>The allocator as a transition system\<close>

inductive pmm_step :: "'a pmm_scheme \<Rightarrow> 'a pmm_scheme \<Rightarrow> bool" where
  reserve: "pmm_step s (MmReservePage a s)"
| unreserve: "pmm_step s (MmUnreservePage a s)"
| lock: "pmm_step s (MmLockPage a s)"
| unlock: "pmm_step s (MmUnlockPage a s)"
| reserve_range: "pmm_step s (MmReservePages a n s)"
| unreserve_range: "pmm_step s (MmUnreservePages a n s)"
| lock_range: "pmm_step s (MmLockPages a n s)"
| unlock_range: "pmm_step s (MmUnlockPages a n s)"
| request: "MmRequestPage s = Some (a, t) \<Longrightarrow> pmm_step s t"
| free: "pmm_step s (MmFreePage a s)"

text \<open>What the steps keep, relative to a start state.\<close>

definition pmm_kept :: "'a pmm_scheme \<Rightarrow> 'a pmm_scheme \<Rightarrow> bool" where
  "pmm_kept s t \<longleftrightarrow> pmm_ok t \<and> total_available_pages (kMemory t) \<noteq> 0 \<and>
     same_region s t \<and> accounted t = accounted s"

lemma pmm_kept_page_op:
  assumes "pmm_kept s t" and "same_region t t'" and "accounted t' = accounted t"
    and "last_requested t' = last_requested t"
  shows "pmm_kept s t'"
  using assms by (auto simp: pmm_kept_def pmm_ok_def same_region_def)

lemma pmm_kept_ops:
  "pmm_kept s t \<Longrightarrow> pmm_kept s (MmReservePage a t)" "pmm_kept s t \<Longrightarrow> pmm_kept s (MmUnreservePage a t)"
  "pmm_kept s t \<Longrightarrow> pmm_kept s (MmLockPage a t)" "pmm_kept s t \<Longrightarrow> pmm_kept s (MmUnlockPage a t)"
  by (auto elim!: pmm_kept_page_op)

lemma pmm_step_kept: "pmm_step t u \<Longrightarrow> pmm_kept s t \<Longrightarrow> pmm_kept s u"
proof (induction rule: pmm_step.induct)
  case (request t a u)
  then have "pmm_ok t" and "total_available_pages (kMemory t) \<noteq> 0"
    by (auto simp: pmm_kept_def)
  note u = pmm_ok_MmRequestPage [OF this request(1)]
  with request(2) show ?case
    by (auto simp: pmm_kept_def same_region_def)
qed (auto simp: MmReservePages_def MmUnreservePages_def MmLockPages_def MmUnlockPages_def MmFreePage_def
    intro!: pmm_kept_ops for_pages_invariant [where P = "pmm_kept s"])

lemma pmm_kept_refl: "pmm_ok s \<Longrightarrow> total_available_pages (kMemory s) \<noteq> 0 \<Longrightarrow> pmm_kept s s"
  by (simp add: pmm_kept_def)

lemma pmm_steps_kept: "pmm_step\<^sup>*\<^sup>* t u \<Longrightarrow> pmm_kept s t \<Longrightarrow> pmm_kept s u"
  by (induction rule: rtranclp_induct) (auto intro: pmm_step_kept)

lemma CLEAR_SET_PAGE_BIT: "\<not> GET_PAGE_BIT s x \<Longrightarrow> CLEAR_PAGE_BIT x (SET_PAGE_BIT x s) = s"
proof -
  assume "\<not> GET_PAGE_BIT s x"
  moreover have "(b OR 2 ^ n) AND NOT (2 ^ n) = b" if "\<not> bit b n" for b :: u8 and n
    using that by (intro bit_word_eqI) (auto simp: bit_simps)
  ultimately show ?thesis
    by (simp add: GET_PAGE_BIT_bit CLEAR_PAGE_BIT_def SET_PAGE_BIT_def page_byte_def load8_def store8_def)
qed

lemma MmUnlock_MmLock:
  assumes "\<not> GET_PAGE_BIT s (ADDR_TO_PAGE a)"
  shows "MmUnlockPage a (MmLockPage a s) = s"
proof -
  have "CLEAR_PAGE_BIT x (SET_PAGE_BIT x s\<lparr>kMemory := k\<rparr>) = CLEAR_PAGE_BIT x (SET_PAGE_BIT x s)\<lparr>kMemory := k\<rparr>"
    if "bitfield k = bitfield (kMemory s)" for x k
    using that by (simp add: CLEAR_PAGE_BIT_def SET_PAGE_BIT_def page_byte_def)
  then show ?thesis
    using assms by (simp add: MmLockPage_def MmUnlockPage_def Let_def CLEAR_SET_PAGE_BIT)
qed

subsection \<open>Properties\<close>

text \<open>A small allocator state on which the properties are exercised: sixteen pages, all free.\<close>

definition pmm_example :: pmm where
  "pmm_example = \<lparr>mem = (\<lambda>_. 0),
     kMemory = \<lparr>total_available_pages = 16, first_available_page_addr = 0x100000,
       last_available_page_address = 0x110000, total_memory = 0x10000, total_pages = 16,
       bitfield = 0x101000, free_memory = 0x10000, locked_memory = 0, reserved_memory = 0\<rparr>,
     last_requested = 0\<rparr>"

lemma pmm_example_ok: "pmm_ok pmm_example" "total_available_pages (kMemory pmm_example) \<noteq> 0"
  by (simp_all add: pmm_example_def pmm_ok_def)

lemma pmm_example_request:
  "MmRequestPage pmm_example = Some (0x100000, MmLockPage 0 pmm_example)"
  by (simp add: MmRequestPage_def pmm_example_def request_scan.simps GET_PAGE_BIT_def load8_def
      MmLockPage_def SET_PAGE_BIT_def Let_def)

text \<open>C6: a page handed out by \<open>MmRequestPage\<close> was free and is now marked used, no other page
  changes its mark, the address lies at the page's position in the region, and the statistics move
  exactly one page from free to locked.\<close>

theorem MmRequestPage_fresh:
  assumes "pmm_ok s" and "total_available_pages (kMemory s) \<noteq> 0" and "MmRequestPage s = Some (a, t)"
  shows "\<exists>r \<le> total_available_pages (kMemory s). \<not> GET_PAGE_BIT s r \<and>
    a = first_available_page_addr (kMemory s) + push_bit 12 r \<and>
    (\<forall>x. GET_PAGE_BIT t x \<longleftrightarrow> x = r \<or> GET_PAGE_BIT s x) \<and>
    free_memory (kMemory t) = free_memory (kMemory s) - PAGE_SIZE \<and>
    locked_memory (kMemory t) = locked_memory (kMemory s) + PAGE_SIZE \<and>
    pmm_ok t"
proof -
  obtain r where r: "r \<le> total_available_pages (kMemory s)" "\<not> GET_PAGE_BIT s r"
    "a = first_available_page_addr (kMemory s) + push_bit 12 r" "ADDR_TO_PAGE (push_bit 12 r) = r"
    and t: "t = MmLockPage (push_bit 12 r) (s\<lparr>last_requested := r\<rparr>)"
    by (rule MmRequestPage_cases [OF assms])
  have "pmm_ok t" using pmm_ok_MmRequestPage(1) [OF assms] .
  with r show ?thesis
    by (intro exI [of _ r]) (auto simp: t MmLockPage_def Let_def)
qed

theorem MmRequestPage_fresh_witness:
  "\<exists>r \<le> total_available_pages (kMemory pmm_example). \<not> GET_PAGE_BIT pmm_example r \<and>
    (0x100000 :: u64) = first_available_page_addr (kMemory pmm_example) + push_bit 12 r \<and>
    (\<forall>x. GET_PAGE_BIT (MmLockPage 0 pmm_example) x \<longleftrightarrow> x = r \<or> GET_PAGE_BIT pmm_example x)"
  using MmRequestPage_fresh [OF pmm_example_ok pmm_example_request] by blast

text \<open>C12: \<open>MmRequestPage\<close> returns exactly when the page it last handed out, or some page from 1 to
  the end of the region, is marked free; otherwise its loop never ends.\<close>

theorem MmRequestPage_returns_iff:
  assumes "pmm_ok s" and "total_available_pages (kMemory s) \<noteq> 0"
  shows "(\<exists>a t. MmRequestPage s = Some (a, t)) \<longleftrightarrow>
    \<not> GET_PAGE_BIT s (last_requested s) \<or>
    (\<exists>y. 1 \<le> y \<and> y \<le> total_available_pages (kMemory s) \<and> \<not> GET_PAGE_BIT s y)"
proof -
  let ?n = "total_available_pages (kMemory s)" and ?l = "last_requested s"
  have l: "?l \<le> ?n" using assms(1) by (simp add: pmm_ok_def)
  have "(\<exists>a t. MmRequestPage s = Some (a, t)) \<longleftrightarrow> (\<exists>r. request_scan s ?l = Some r)"
    by (auto simp: MmRequestPage_def Let_def bind_eq_Some_conv)
  also have "\<dots> \<longleftrightarrow> \<not> GET_PAGE_BIT s ?l \<or> (\<exists>y. 1 \<le> y \<and> y \<le> ?n \<and> \<not> GET_PAGE_BIT s y)"
  proof
    assume "\<exists>r. request_scan s ?l = Some r"
    then obtain r where r: "request_scan s ?l = Some r" ..
    from request_scan_result [OF r] l assms(2)
    have "\<not> GET_PAGE_BIT s r" "r \<le> ?n" "r = 0 \<longrightarrow> ?l = 0" by auto
    then show "\<not> GET_PAGE_BIT s ?l \<or> (\<exists>y. 1 \<le> y \<and> y \<le> ?n \<and> \<not> GET_PAGE_BIT s y)"
      by (cases "r = 0") (auto simp: word_le_nat_alt Suc_le_eq unat_gt_0 intro!: exI [of _ r])
  next
    assume "\<not> GET_PAGE_BIT s ?l \<or> (\<exists>y. 1 \<le> y \<and> y \<le> ?n \<and> \<not> GET_PAGE_BIT s y)"
    then show "\<exists>r. request_scan s ?l = Some r"
      using request_scan_returns [OF l] by (elim disjE) (simp add: request_scan.simps [of s ?l], blast)
  qed
  finally show ?thesis .
qed

theorem MmRequestPage_returns_iff_witness:
  "\<exists>a t. MmRequestPage pmm_example = Some (a, t)"
  using MmRequestPage_returns_iff [OF pmm_example_ok]
  by (auto simp: GET_PAGE_BIT_def load8_def pmm_example_def)

text \<open>two requests in a row, with nothing freed in between, return different pages.\<close>

theorem MmRequestPage_distinct:
  assumes "pmm_ok s" and "total_available_pages (kMemory s) \<noteq> 0"
    and "MmRequestPage s = Some (a, t)" and "MmRequestPage t = Some (b, u)"
  shows "a \<noteq> b"
proof -
  let ?n = "total_available_pages (kMemory s)"
  obtain r where r: "r \<le> ?n" "a = first_available_page_addr (kMemory s) + push_bit 12 r"
      "ADDR_TO_PAGE (push_bit 12 r) = r"
    and t: "t = MmLockPage (push_bit 12 r) (s\<lparr>last_requested := r\<rparr>)"
    by (rule MmRequestPage_cases [OF assms(1-3)])
  note t_ok = pmm_ok_MmRequestPage [OF assms(1-3)]
  then have "total_available_pages (kMemory t) \<noteq> 0"
    using assms(2) by (simp add: same_region_def)
  then obtain q where q: "q \<le> total_available_pages (kMemory t)" "\<not> GET_PAGE_BIT t q"
      "b = first_available_page_addr (kMemory t) + push_bit 12 q"
    by (rule MmRequestPage_cases [OF t_ok(1) _ assms(4)])
  have "q \<noteq> r" using q(2) r(3) by (auto simp: t)
  moreover have "unat r < 2 ^ 52" "unat q < 2 ^ 52"
    using r(1) q(1) assms(1) t_ok by (auto simp: pmm_ok_def same_region_def word_le_nat_alt)
  ultimately show ?thesis
    using r(2) q(3) t_ok(2) page_addresses_distinct [of q r] by (simp add: same_region_def)
qed

lemma pmm_example_request2:
  "MmRequestPage (MmLockPage 0 pmm_example) = Some (0x101000,
     MmLockPage 0x1000 (MmLockPage 0 pmm_example\<lparr>last_requested := 1\<rparr>))"
proof -
  let ?s = "MmLockPage 0 pmm_example"
  have set0: "GET_PAGE_BIT ?s 0" and clear1: "\<not> GET_PAGE_BIT ?s 1"
    by (simp_all add: ADDR_TO_PAGE_def) (simp add: GET_PAGE_BIT_def pmm_example_def load8_def)
  have "total_available_pages (kMemory ?s) = 16" "last_requested ?s = 0"
    "first_available_page_addr (kMemory ?s) = 0x100000"
    by (simp_all add: MmLockPage_def Let_def pmm_example_def)
  moreover from this have "request_scan ?s 0 = Some 1"
    using set0 clear1 by (simp add: request_scan.simps [of _ 0] request_scan.simps [of _ 1])
  ultimately show ?thesis by (simp add: MmRequestPage_def MmLockPage_def Let_def)
qed

theorem MmRequestPage_distinct_witness:
  "\<exists>a t b u. MmRequestPage pmm_example = Some (a, t) \<and> MmRequestPage t = Some (b, u) \<and> a \<noteq> b"
  using MmRequestPage_distinct [OF pmm_example_ok pmm_example_request pmm_example_request2]
    pmm_example_request pmm_example_request2 by blast

text \<open>freeing the page just requested undoes the request completely, memory and statistics
  included; only the rotating counter keeps its new position.\<close>

theorem MmFreePage_undoes_request:
  assumes "pmm_ok s" and "total_available_pages (kMemory s) \<noteq> 0" and "MmRequestPage s = Some (a, t)"
  shows "MmFreePage a t = s\<lparr>last_requested := last_requested t\<rparr>"
proof -
  obtain r where r: "\<not> GET_PAGE_BIT s r"
      "a = first_available_page_addr (kMemory s) + push_bit 12 r" "ADDR_TO_PAGE (push_bit 12 r) = r"
      "last_requested t = r"
    and t: "t = MmLockPage (push_bit 12 r) (s\<lparr>last_requested := r\<rparr>)"
    by (rule MmRequestPage_cases [OF assms])
  have "first_available_page_addr (kMemory t) = first_available_page_addr (kMemory s)"
    using pmm_ok_MmRequestPage(2) [OF assms] by (simp add: same_region_def)
  then have "MmFreePage a t = MmUnlockPage (push_bit 12 r) t"
    by (simp add: MmFreePage_def r(2))
  also have "\<dots> = s\<lparr>last_requested := r\<rparr>"
    unfolding t using r(1,3) by (intro MmUnlock_MmLock) simp
  finally show ?thesis using r(4) by simp
qed

theorem MmFreePage_undoes_request_witness:
  "MmFreePage 0x100000 (MmLockPage 0 pmm_example)
     = pmm_example\<lparr>last_requested := last_requested (MmLockPage 0 pmm_example)\<rparr>"
  by (rule MmFreePage_undoes_request [OF pmm_example_ok pmm_example_request])

text \<open>when every page of the region is used but the mark one past the end is clear (it is, when
  the page count is not a multiple of eight), \<open>MmRequestPage\<close> hands out the page behind the region.\<close>

theorem MmRequestPage_one_past_end:
  assumes "pmm_ok s" and "total_available_pages (kMemory s) \<noteq> 0"
    and "\<And>x. x < total_available_pages (kMemory s) \<Longrightarrow> GET_PAGE_BIT s x"
    and "\<not> GET_PAGE_BIT s (total_available_pages (kMemory s))"
  shows "\<exists>t. MmRequestPage s =
    Some (first_available_page_addr (kMemory s) + push_bit 12 (total_available_pages (kMemory s)), t)"
proof -
  let ?n = "total_available_pages (kMemory s)"
  have "last_requested s \<le> ?n" using assms(1) by (simp add: pmm_ok_def)
  then have "\<exists>r. request_scan s (last_requested s) = Some r"
    using assms(4) by (intro request_scan_up [where y = ?n]) auto
  then obtain a t where at: "MmRequestPage s = Some (a, t)"
    by (auto simp: MmRequestPage_def Let_def)
  obtain r where "r \<le> ?n" "\<not> GET_PAGE_BIT s r"
      "a = first_available_page_addr (kMemory s) + push_bit 12 r"
    by (rule MmRequestPage_cases [OF assms(1,2) at])
  moreover from this have "r = ?n" using assms(3) [of r] by (auto simp: order_less_le)
  ultimately show ?thesis using at by blast
qed

text \<open>Five pages, all of them used; the three spare bits of the only bitfield byte are clear.\<close>

definition pmm_full_example :: pmm where
  "pmm_full_example = pmm_example\<lparr>mem := (\<lambda>_. 0x1F),
     kMemory := (kMemory pmm_example)\<lparr>total_available_pages := 5,
       last_available_page_address := 0x105000\<rparr>\<rparr>"

theorem MmRequestPage_one_past_end_witness:
  "\<exists>t. MmRequestPage pmm_full_example = Some (last_available_page_address (kMemory pmm_full_example), t)"
proof -
  have bits: "GET_PAGE_BIT pmm_full_example x" if "x < 5" for x
  proof -
    have "unat x < 5" using that by (simp add: word_less_nat_alt)
    then have "unat (x mod 8) < 5" by (simp add: unat_mod)
    then have "unat (x mod 8) \<in> {0, 1, 2, 3, 4}" by auto
    then have "bit (0x1F :: u8) (unat (x mod 8))" by auto
    then show ?thesis by (simp add: GET_PAGE_BIT_bit pmm_full_example_def load8_def)
  qed
  have "\<not> GET_PAGE_BIT pmm_full_example 5"
    by (simp add: GET_PAGE_BIT_def pmm_full_example_def load8_def)
  moreover have n: "total_available_pages (kMemory pmm_full_example) = 5"
    "first_available_page_addr (kMemory pmm_full_example) + push_bit 12 5
       = last_available_page_address (kMemory pmm_full_example)"
    by (simp_all add: pmm_full_example_def pmm_example_def)
  moreover have "pmm_ok pmm_full_example"
    by (simp add: pmm_ok_def pmm_full_example_def pmm_example_def)
  ultimately show ?thesis
    using MmRequestPage_one_past_end [of pmm_full_example] bits by simp
qed

text \<open>after \<open>MmInitialize\<close> exactly the pages of the allocator's own data are marked used: a
  page of the region is marked if and only if its number is below the reserved count, and the
  reserved pages cover the statistics block and the whole bitfield.\<close>

theorem MmInitialize_reserves_metadata:
  assumes "MmInitialize usable entries s = Some t"
  shows "(\<forall>x < total_available_pages (kMemory t). GET_PAGE_BIT t x \<longleftrightarrow> unat x < metadata_pages t) \<and>
    unat (bitfield (kMemory t) + bitfield_entries_of (total_available_pages (kMemory t))
          - first_available_page_addr (kMemory t)) \<le> 4096 * metadata_pages t \<and>
    accounted t = last_available_page_address (kMemory t) - first_available_page_addr (kMemory t)"
proof (intro conjI allI impI)
  fix x assume "x < total_available_pages (kMemory t)"
  with assms show "GET_PAGE_BIT t x \<longleftrightarrow> unat x < metadata_pages t" by (rule MmInitialize_GET)
next
  obtain s1 where t: "t = MmReservePages 0 (of_nat (metadata_pages s1)) s1"
    and n: "unat (total_available_pages (kMemory s1)) < 2 ^ 52"
    and bf: "bitfield (kMemory s1) = first_available_page_addr (kMemory s1) + 4096"
    and acc: "accounted s1 = last_available_page_address (kMemory s1) - first_available_page_addr (kMemory s1)"
    by (rule MmInitialize_state [OF assms])
  have k: "same_region s1 t" and "accounted t = accounted s1"
    using MmReservePages_keeps by (simp_all add: t)
  then show "accounted t = last_available_page_address (kMemory t) - first_available_page_addr (kMemory t)"
    using acc by (simp add: same_region_def)
  let ?E = "bitfield_entries_of (total_available_pages (kMemory t))"
  have E: "unat ?E = (unat (total_available_pages (kMemory t)) + 7) div 8"
    using n k by (simp add: unat_bitfield_entries same_region_def)
  then have "unat (4096 + ?E) = 4096 + unat ?E"
    using n k by (subst unat_add_u64) (auto simp: same_region_def)
  then show "unat (bitfield (kMemory t) + ?E - first_available_page_addr (kMemory t)) \<le> 4096 * metadata_pages t"
    using bf k E by (simp add: same_region_def metadata_pages_def add.commute)
qed

theorem MmInitialize_reserves_metadata_witness:
  "\<exists>t. MmInitialize 0 [\<lparr>me_base = 0x100000, me_length = 0x10000, me_type = 0\<rparr>] pmm_example = Some t \<and>
     (\<forall>x < total_available_pages (kMemory t). GET_PAGE_BIT t x \<longleftrightarrow> unat x < metadata_pages t)"
proof -
  have "\<exists>t. MmInitialize 0 [\<lparr>me_base = 0x100000, me_length = 0x10000, me_type = 0\<rparr>] pmm_example = Some t"
    by (simp add: MmInitialize_def memmap_scan_def memmap_step_def Let_def)
  then show ?thesis using MmInitialize_reserves_metadata by blast
qed

text \<open>C7: whatever sequence of operations runs, the counter stays inside the region, the region never
  moves, and free, locked and reserved memory always add up to the same number of bytes.\<close>

theorem pmm_steps_invariant:
  assumes "pmm_step\<^sup>*\<^sup>* s t" and "pmm_ok s" and "total_available_pages (kMemory s) \<noteq> 0"
  shows "pmm_ok t \<and> same_region s t \<and> accounted t = accounted s"
  using pmm_steps_kept [OF assms(1) pmm_kept_refl [OF assms(2,3)]] by (simp add: pmm_kept_def)

theorem pmm_steps_invariant_witness:
  "pmm_ok (MmFreePage 0x100000 (MmLockPage 0 pmm_example)) \<and>
   same_region pmm_example (MmFreePage 0x100000 (MmLockPage 0 pmm_example)) \<and>
   accounted (MmFreePage 0x100000 (MmLockPage 0 pmm_example)) = accounted pmm_example"
proof -
  have "pmm_step\<^sup>*\<^sup>* pmm_example (MmFreePage 0x100000 (MmLockPage 0 pmm_example))"
    using pmm_step.request [OF pmm_example_request] pmm_step.free
    by (meson rtranclp.rtrancl_into_rtrancl rtranclp.rtrancl_refl)
  then show ?thesis by (rule pmm_steps_invariant [OF _ pmm_example_ok])
qed

end
