(* ===== verification/Vmm.thy ===== *)
theory Vmm
  imports Pmm
begin

text \<open>
  The four-level page tables of \<open>kernel/mem/vmm.c\<close>.  Tables are pages of 512 eight-byte entries in
  memory and entries are 64-bit words with the bit-fields of \<open>vmm.h\<close>.  The tables are reached
  through the physical addresses stored in the entries, as the code does.
\<close>

subsection \<open>State and entries\<close>

record vmm = pmm +
  kPML4 :: addr

text \<open>The bit-fields common to \<open>PageDirectoryEntry\<close> and \<open>PageTableEntry\<close> that the code uses.\<close>

type_synonym page_entry = u64

definition e_present :: "page_entry \<Rightarrow> u64" where "e_present = bf_get 0 1"
definition e_writeable :: "page_entry \<Rightarrow> u64" where "e_writeable = bf_get 1 1"
definition e_user_access :: "page_entry \<Rightarrow> u64" where "e_user_access = bf_get 2 1"
definition e_cache_disabled :: "page_entry \<Rightarrow> u64" where "e_cache_disabled = bf_get 4 1"
definition e_page_ppn :: "page_entry \<Rightarrow> u64" where "e_page_ppn = bf_get 12 28"
definition e_execution_disabled :: "page_entry \<Rightarrow> u64" where "e_execution_disabled = bf_get 63 1"

record PageMapIndex =
  pmi_pdp :: u64
  pmi_pd :: u64
  pmi_pt :: u64
  pmi_p :: u64

definition MmGetPageIndices :: "u64 \<Rightarrow> PageMapIndex" where
  "MmGetPageIndices address =
     (let address = drop_bit 12 address; p = address AND 0x1ff;
          address = drop_bit 9 address; pt = address AND 0x1ff;
          address = drop_bit 9 address; pd = address AND 0x1ff;
          address = drop_bit 9 address; pdp = address AND 0x1ff
      in \<lparr>pmi_pdp = pdp, pmi_pd = pd, pmi_pt = pt, pmi_p = p\<rparr>)"

text \<open>The address of \<open>table->entries[index]\<close>.\<close>

definition entry :: "addr \<Rightarrow> u64 \<Rightarrow> addr" where
  "entry table index = table + 8 * index"

definition MmInitializePaging :: "addr \<Rightarrow> 'a vmm_scheme \<Rightarrow> 'a vmm_scheme" where
  "MmInitializePaging cr3 s = s\<lparr>kPML4 := cr3\<rparr>"

subsection \<open>Mapping\<close>

text \<open>
  The block \<open>MmMapMemory\<close> repeats for the three directory levels: read the entry; if it is not
  present allocate and clear a page for the next table and write the entry back, else follow it.
\<close>

definition install_entry :: "page_entry \<Rightarrow> addr \<Rightarrow> page_entry" where
  "install_entry pde page = bf_set 1 1 1 (bf_set 0 1 1 (bf_set 12 28 (drop_bit 12 page) pde))"

definition descend :: "addr \<Rightarrow> u64 \<Rightarrow> 'a vmm_scheme \<Rightarrow> (addr \<times> 'a vmm_scheme) option" where
  "descend table index s =
     (let pde = load64 (mem s) (entry table index)
      in if e_present pde = 0
         then do {
           (page, s1) \<leftarrow> MmRequestPage s;
           let s2 = s1\<lparr>mem := RtZeroMemory (mem s1) page PAGE_SIZE\<rparr>;
           Some (page, s2\<lparr>mem := store64 (mem s2) (entry table index) (install_entry pde page)\<rparr>) }
         else Some (push_bit 12 (e_page_ppn pde), s))"

definition MmMapMemory :: "addr \<Rightarrow> addr \<Rightarrow> 'a vmm_scheme \<Rightarrow> 'a vmm_scheme option" where
  "MmMapMemory virtual_memory physical_memory s = do {
     let virtual_memory = virtual_memory AND 0xfffffffffffff000;
     let physical_memory = physical_memory AND 0xfffffffffffff000;
     let map = MmGetPageIndices virtual_memory;
     (pdp, s) \<leftarrow> descend (kPML4 s) (pmi_pdp map) s;
     (pd, s) \<leftarrow> descend pdp (pmi_pd map) s;
     (pt, s) \<leftarrow> descend pd (pmi_pt map) s;
     let pte = load64 (mem s) (entry pt (pmi_p map));
     let pte = install_entry pte physical_memory;
     Some (s\<lparr>mem := store64 (mem s) (entry pt (pmi_p map)) pte\<rparr>) }"

text \<open>The walk shared by the lookup functions; presence is not checked.\<close>

definition follow :: "mem \<Rightarrow> addr \<Rightarrow> u64 \<Rightarrow> addr" where
  "follow m table index = push_bit 12 (e_page_ppn (load64 m (entry table index)))"

definition pte_address :: "'a vmm_scheme \<Rightarrow> addr \<Rightarrow> addr" where
  "pte_address s a =
     (let map = MmGetPageIndices a;
          pd = follow (mem s) (kPML4 s) (pmi_pdp map);
          pd = follow (mem s) pd (pmi_pd map);
          pt = follow (mem s) pd (pmi_pt map)
      in entry pt (pmi_p map))"

definition MmGetPhysicalAddress :: "'a vmm_scheme \<Rightarrow> addr \<Rightarrow> u64" where
  "MmGetPhysicalAddress s virtual_memory =
     push_bit 12 (e_page_ppn (load64 (mem s) (pte_address s virtual_memory)))
       OR (virtual_memory AND 0xfff)"

definition MmGetIdentityPage :: "'a vmm_scheme \<Rightarrow> (addr \<times> 'a vmm_scheme) option" where
  "MmGetIdentityPage s = do {
     (result, s) \<leftarrow> MmRequestPage s;
     s \<leftarrow> MmMapMemory result result s;
     Some (result, s) }"

subsection \<open>Permissions\<close>

definition MmSetPagePermissions :: "addr \<Rightarrow> u8 \<Rightarrow> 'a vmm_scheme \<Rightarrow> 'a vmm_scheme" where
  "MmSetPagePermissions a permissions s =
     (let pa = pte_address s a; pte = load64 (mem s) pa;
          pte = bf_set 1 1 (ucast (permissions AND 1)) pte;
          pte = bf_set 2 1 (ucast (drop_bit 1 (permissions AND 2))) pte;
          pte = bf_set 63 1 (ucast (drop_bit 2 (permissions AND 4))) pte;
          pte = bf_set 4 1 (ucast (drop_bit 3 (permissions AND 8))) pte
      in s\<lparr>mem := store64 (mem s) pa pte\<rparr>)"

definition MmGetPagePermissions :: "'a vmm_scheme \<Rightarrow> addr \<Rightarrow> u8" where
  "MmGetPagePermissions s a =
     (let pte = load64 (mem s) (pte_address s a);
          result = ucast (e_writeable pte);
          result = result OR ucast (push_bit 1 (e_user_access pte));
          result = result OR ucast (push_bit 2 (e_execution_disabled pte));
          result = result OR ucast (push_bit 3 (e_cache_disabled pte))
      in result)"

definition MmPageSet :: "addr \<Rightarrow> u8 \<Rightarrow> 'a vmm_scheme \<Rightarrow> 'a vmm_scheme" where
  "MmPageSet a field s = MmSetPagePermissions a (MmGetPagePermissions s a OR field) s"

definition MmPageClear :: "addr \<Rightarrow> u8 \<Rightarrow> 'a vmm_scheme \<Rightarrow> 'a vmm_scheme" where
  "MmPageClear a field s = MmSetPagePermissions a (MmGetPagePermissions s a AND NOT field) s"

subsection \<open>Addresses of entries\<close>

lemma aligned_unat: "(t :: u64) mod 4096 = 0 \<longleftrightarrow> unat t mod 4096 = 0"
  by (simp add: word_unat_eq_iff unat_mod)

lemma aligned_room: "(t :: u64) mod 4096 = 0 \<Longrightarrow> unat t + 4096 \<le> 2 ^ 64"
  using unat_lt_2_64 [of t] by (auto simp: aligned_unat)

lemma aligned_distinct_apart:
  assumes "(t :: u64) mod 4096 = 0" and "t' mod 4096 = 0" and "t \<noteq> t'"
  shows "unat t + 4096 \<le> unat t' \<or> unat t' + 4096 \<le> unat t"
proof -
  obtain q q' where q: "unat t = 4096 * q" "unat t' = 4096 * q'"
    using assms(1,2) by (auto simp: aligned_unat elim!: mod_eq_0_iff_dvd [THEN iffD1, elim_format] dvdE)
  moreover have "q \<noteq> q'" using assms(3) q by (metis word_unat_eq_iff)
  ultimately show ?thesis by (simp add: neq_iff) linarith
qed

lemma pages_apart:
  assumes "(t :: u64) mod 4096 = 0" and "t' mod 4096 = 0" and "t \<noteq> t'"
  shows "apart t 4096 t' 4096"
  using assms by (intro apart_by_nat aligned_room aligned_distinct_apart)

lemma entry_offset: "unat i < 512 \<Longrightarrow> entry t i = t + of_nat (8 * unat i)"
  by (simp add: entry_def)

lemma entry_in_page:
  assumes "apart t 4096 b k" and "unat i < 512"
  shows "apart (entry t i) 8 b k"
  using apart_sub [OF assms(1), of "8 * unat i" 8 0 k] assms(2) by (simp add: entry_offset)

lemma entries_apart:
  assumes "(t :: u64) mod 4096 = 0" and "t' mod 4096 = 0" and "unat i < 512" and "unat i' < 512"
    and "(t, i) \<noteq> (t', i')"
  shows "apart (entry t i) 8 (entry t' i') 8"
proof (cases "t = t'")
  case True
  have room: "unat t + 4096 \<le> 2 ^ 64" using assms(1) by (rule aligned_room)
  have u: "unat (entry t i) = unat t + 8 * unat i" "unat (entry t i') = unat t + 8 * unat i'"
    using room assms(3,4) by (simp_all add: entry_offset unat_add_of_nat del: of_nat_mult)
  have "unat i \<noteq> unat i'" using True assms(5) by (auto simp: word_unat_eq_iff)
  then show ?thesis
    unfolding True [symmetric] using room assms(3,4) by (intro apart_by_nat) (auto simp: u)
next
  case False
  then have "apart t 4096 t' 4096" using assms(1,2) by (intro pages_apart)
  then show ?thesis
    using assms(3,4) by (meson apart_sym entry_in_page)
qed

lemma index_lt:
  "unat (pmi_pdp (MmGetPageIndices a)) < 512" "unat (pmi_pd (MmGetPageIndices a)) < 512"
  "unat (pmi_pt (MmGetPageIndices a)) < 512" "unat (pmi_p (MmGetPageIndices a)) < 512"
proof -
  have "unat (x AND 0x1ff) < 512" for x :: u64
    using word_and_le1 [of x "0x1ff"] by (simp add: word_le_nat_alt)
  then show "unat (pmi_pdp (MmGetPageIndices a)) < 512" "unat (pmi_pd (MmGetPageIndices a)) < 512"
    "unat (pmi_pt (MmGetPageIndices a)) < 512" "unat (pmi_p (MmGetPageIndices a)) < 512"
    by (simp_all add: MmGetPageIndices_def Let_def)
qed

subsection \<open>Entries and addresses\<close>

lemma page_of_ppn:
  assumes "(p :: u64) mod 4096 = 0" and "unat p < 2 ^ 40"
  shows "push_bit 12 (take_bit 28 (drop_bit 12 p)) = p"
proof (rule bit_word_eqI)
  fix n assume "n < LENGTH(64)"
  have low: "take_bit 12 p = 0" using assms(1) by (simp add: take_bit_eq_mod)
  then have "\<not> bit p n" if "n < 12" using that by (metis bit_take_bit_iff bit_0_eq bot_apply bot_bool_def)
  moreover have "take_bit 40 p = p" using assms(2) by (rule take_bit_small)
  then have "n < 40" if "bit p n" using that by (metis bit_take_bit_iff)
  ultimately show "bit (push_bit 12 (take_bit 28 (drop_bit 12 p))) n = bit p n"
    by (cases "n < 12") (auto simp: bit_simps)
qed

lemma install_entry_present: "e_present (install_entry e page) \<noteq> 0"
proof -
  have "e_present (install_entry e page) = 1"
    by (simp add: e_present_def install_entry_def bf_simps)
  then show ?thesis by simp
qed

lemma install_entry_ppn: "e_page_ppn (install_entry e page) = take_bit 28 (drop_bit 12 page)"
  by (simp add: e_page_ppn_def install_entry_def bf_simps)

lemma e_present_0 [simp]: "e_present 0 = 0"
  by (simp add: e_present_def bf_get_def)

subsection \<open>The invariant of the page tables\<close>

text \<open>
  \<open>L\<close> records which pages are tables and at which level (the root is at level 4, the tables of
  pages at level 1).  Present entries above level 1 lead to a table of the next level, and no two
  of them to the same one.  No free page is a table, and the bitfield lies neither in a table nor
  in a free page.
\<close>

type_synonym levels = "addr \<rightharpoonup> nat"

definition present :: "mem \<Rightarrow> addr \<Rightarrow> u64 \<Rightarrow> bool" where
  "present m t i \<longleftrightarrow> e_present (load64 m (entry t i)) \<noteq> 0"

definition page_at :: "'a pmm_scheme \<Rightarrow> u64 \<Rightarrow> addr" where
  "page_at s r = first_available_page_addr (kMemory s) + push_bit 12 r"

definition vm_tables :: "mem \<Rightarrow> levels \<Rightarrow> bool" where
  "vm_tables m L \<longleftrightarrow> (\<forall>t n. L t = Some n \<longrightarrow> t mod 4096 = 0 \<and>
     (\<forall>i. unat i < 512 \<longrightarrow> 2 \<le> n \<longrightarrow> present m t i \<longrightarrow> L (follow m t i) = Some (n - 1)))"

definition vm_tree :: "mem \<Rightarrow> levels \<Rightarrow> bool" where
  "vm_tree m L \<longleftrightarrow> (\<forall>t n i t' n' i'. L t = Some n \<longrightarrow> L t' = Some n' \<longrightarrow> 2 \<le> n \<longrightarrow> 2 \<le> n' \<longrightarrow>
     unat i < 512 \<longrightarrow> unat i' < 512 \<longrightarrow> present m t i \<longrightarrow> present m t' i' \<longrightarrow>
     follow m t i = follow m t' i' \<longrightarrow> (t, i) = (t', i'))"

definition vm_frames :: "'a pmm_scheme \<Rightarrow> levels \<Rightarrow> bool" where
  "vm_frames s L \<longleftrightarrow> (\<forall>r \<le> total_available_pages (kMemory s).
     (\<forall>t \<in> dom L. apart (page_byte s r) 1 t 4096) \<and>
     (\<not> GET_PAGE_BIT s r \<longrightarrow> page_at s r mod 4096 = 0 \<and> unat (page_at s r) < 2 ^ 40 \<and>
        L (page_at s r) = None \<and>
        (\<forall>x \<le> total_available_pages (kMemory s). apart (page_byte s x) 1 (page_at s r) 4096)))"

definition vm_ok :: "'a vmm_scheme \<Rightarrow> levels \<Rightarrow> bool" where
  "vm_ok s L \<longleftrightarrow> pmm_ok s \<and> total_available_pages (kMemory s) \<noteq> 0 \<and> L (kPML4 s) = Some 4 \<and>
     vm_tables (mem s) L \<and> vm_tree (mem s) L \<and> vm_frames s L"

lemma vm_tables_aligned: "vm_tables m L \<Longrightarrow> L t = Some n \<Longrightarrow> t mod 4096 = 0"
  by (simp add: vm_tables_def)

text \<open>Entries are only read through \<open>load64\<close>, so equal entries give equal table predicates.\<close>

lemma entry_cong:
  assumes "load64 m (entry t i) = load64 m' (entry t i)"
  shows "present m t i = present m' t i" "follow m t i = follow m' t i"
  using assms by (simp_all add: present_def follow_def)

text \<open>A memory change that leaves every entry of every table alone keeps the table predicates.\<close>

lemma vm_tables_tree_cong:
  assumes "\<And>t n i. L t = Some n \<Longrightarrow> 2 \<le> n \<Longrightarrow> unat i < 512 \<Longrightarrow>
      load64 m' (entry t i) = load64 m (entry t i)"
  shows "vm_tables m L \<Longrightarrow> vm_tables m' L" and "vm_tree m L \<Longrightarrow> vm_tree m' L"
proof -
  have eq: "present m' t i = present m t i" "follow m' t i = follow m t i"
    if "L t = Some n" "2 \<le> n" "unat i < 512" for t n i
    using entry_cong [OF assms [OF that]] .
  show "vm_tables m L \<Longrightarrow> vm_tables m' L"
    unfolding vm_tables_def using eq by metis
  show "vm_tree m L \<Longrightarrow> vm_tree m' L"
    unfolding vm_tree_def using eq by metis
qed

subsection \<open>One level of the walk\<close>

lemma MmRequestPage_vmm:
  assumes "pmm_ok s" and "total_available_pages (kMemory s) \<noteq> 0" and "MmRequestPage s = Some (pg, s1)"
  obtains r b where "r \<le> total_available_pages (kMemory s)" and "\<not> GET_PAGE_BIT s r"
    and "pg = page_at s r" and "mem s1 = store8 (mem s) (page_byte s r) b"
    and "\<forall>x. GET_PAGE_BIT s1 x \<longleftrightarrow> x = r \<or> GET_PAGE_BIT s x"
    and "same_region s s1" and "pmm_ok s1" and "page_byte s1 = page_byte s"
proof -
  obtain r where r: "r \<le> total_available_pages (kMemory s)" "\<not> GET_PAGE_BIT s r"
      "pg = first_available_page_addr (kMemory s) + push_bit 12 r" "ADDR_TO_PAGE (push_bit 12 r) = r"
    and s1: "s1 = MmLockPage (push_bit 12 r) (s\<lparr>last_requested := r\<rparr>)"
    by (rule MmRequestPage_cases [OF assms])
  have region: "same_region s s1" "pmm_ok s1"
    using pmm_ok_MmRequestPage [OF assms] by simp_all
  moreover have "page_byte s1 = page_byte s"
    using region(1) by (intro ext) (simp add: page_byte_def same_region_def)
  moreover have "mem s1 = store8 (mem s) (page_byte s r) (load8 (mem s) (page_byte s r) OR push_bit (unat (r mod 8)) 1)"
    using r(4) by (simp add: s1 MmLockPage_def SET_PAGE_BIT_def page_byte_def Let_def)
  moreover have "\<forall>x. GET_PAGE_BIT s1 x \<longleftrightarrow> x = r \<or> GET_PAGE_BIT s x"
    using r(4) by (simp add: s1)
  ultimately show ?thesis using that r(1-3) by (simp add: page_at_def)
qed

lemma kPML4_MmRequestPage: "MmRequestPage s = Some (a, t) \<Longrightarrow> kPML4 t = kPML4 s"
  by (auto simp: MmRequestPage_def MmLockPage_def SET_PAGE_BIT_def Let_def bind_eq_Some_conv)

text \<open>The memory after a fresh page \<open>pg\<close> was cleared and linked from entry \<open>i\<close> of table \<open>t\<close>.\<close>

lemma fresh_table_memory:
  assumes fr: "vm_frames s L" and tb: "vm_tables (mem s) L" and t: "L t = Some n" and i: "unat i < 512"
    and r: "r \<le> total_available_pages (kMemory s)" "\<not> GET_PAGE_BIT s r" and pg: "pg = page_at s r"
    and m': "m' = store64 (RtZeroMemory (store8 (mem s) (page_byte s r) b) pg PAGE_SIZE) (entry t i) e"
  shows "load64 m' (entry t i) = e"
    and "\<And>t2 n2 i2. L t2 = Some n2 \<Longrightarrow> unat i2 < 512 \<Longrightarrow> (t2, i2) \<noteq> (t, i) \<Longrightarrow>
      load64 m' (entry t2 i2) = load64 (mem s) (entry t2 i2)"
    and "\<And>j. unat j < 512 \<Longrightarrow> load64 m' (entry pg j) = 0"
    and "\<And>x. x \<le> total_available_pages (kMemory s) \<Longrightarrow>
      load8 m' (page_byte s x) = load8 (store8 (mem s) (page_byte s r) b) (page_byte s x)"
proof -
  have pgs: "pg mod 4096 = 0" "L pg = None"
    and bytes: "\<And>x. x \<le> total_available_pages (kMemory s) \<Longrightarrow> apart (page_byte s x) 1 pg 4096"
    and bytes_tab: "\<And>x u. x \<le> total_available_pages (kMemory s) \<Longrightarrow> u \<in> dom L \<Longrightarrow> apart (page_byte s x) 1 u 4096"
    using fr r by (auto simp: vm_frames_def pg)
  have size: "unat PAGE_SIZE = 4096" by (simp add: PAGE_SIZE_def)
  have al: "u mod 4096 = 0" if "L u = Some k" for u k using tb that by (rule vm_tables_aligned)
  have other: "apart (entry u j) 8 pg 4096" if "L u = Some k" "unat j < 512" for u k j
    using that pgs al by (intro entry_in_page pages_apart) auto
  show "load64 m' (entry t i) = e" by (simp add: m' load_store_same)
  show "load64 m' (entry t2 i2) = load64 (mem s) (entry t2 i2)"
    if "L t2 = Some n2" "unat i2 < 512" "(t2, i2) \<noteq> (t, i)" for t2 n2 i2
  proof -
    have "apart (entry t2 i2) 8 (entry t i) 8"
      using that t i al by (intro entries_apart) auto
    moreover have "apart (entry t2 i2) 8 (page_byte s r) 1"
      using bytes_tab [OF r(1), of t2] that by (meson apart_sym domI entry_in_page)
    ultimately show ?thesis
      using other [OF that(1,2)] by (simp add: m' load_store_apart load_RtZeroMemory_apart size)
  qed
  show "load64 m' (entry pg j) = 0" if "unat j < 512" for j
  proof -
    have "apart (entry pg j) 8 (entry t i) 8"
      using that t i al pgs by (intro entries_apart) auto
    moreover have "load64 (RtZeroMemory m pg PAGE_SIZE) (pg + of_nat (8 * unat j)) = 0" for m
      using that by (intro load64_RtZeroMemory_inside) (simp add: size)
    ultimately show ?thesis using that by (simp add: m' load_store_apart entry_offset del: of_nat_mult)
  qed
  show "load8 m' (page_byte s x) = load8 (store8 (mem s) (page_byte s r) b) (page_byte s x)"
    if "x \<le> total_available_pages (kMemory s)" for x
  proof -
    have "apart (page_byte s x) 1 (entry t i) 8"
      using bytes_tab [OF that, of t] t i by (meson apart_sym domI entry_in_page)
    with bytes [OF that] show ?thesis
      by (simp add: m' load_store_apart load_RtZeroMemory_apart size)
  qed
qed

text \<open>
  A later state extends an earlier one: the invariant holds for at least the same tables, and every
  present entry of an old table still reads the same.
\<close>

definition vm_extends :: "'a vmm_scheme \<Rightarrow> levels \<Rightarrow> 'a vmm_scheme \<Rightarrow> levels \<Rightarrow> bool" where
  "vm_extends s L s' L' \<longleftrightarrow> vm_ok s' L' \<and> L \<subseteq>\<^sub>m L' \<and> kPML4 s' = kPML4 s \<and>
     (\<forall>t n i. L t = Some n \<longrightarrow> unat i < 512 \<longrightarrow> present (mem s) t i \<longrightarrow>
        load64 (mem s') (entry t i) = load64 (mem s) (entry t i))"

text \<open>At most one page number became used between two states with the same region.\<close>

definition takes_at_most_one :: "'a vmm_scheme \<Rightarrow> 'a vmm_scheme \<Rightarrow> bool" where
  "takes_at_most_one s s' \<longleftrightarrow>
     total_available_pages (kMemory s') = total_available_pages (kMemory s) \<and>
     (\<exists>r. \<forall>x \<le> total_available_pages (kMemory s). GET_PAGE_BIT s' x \<longrightarrow> x = r \<or> GET_PAGE_BIT s x)"

lemma map_le_Some: "m \<subseteq>\<^sub>m m' \<Longrightarrow> m x = Some y \<Longrightarrow> m' x = Some y"
  by (metis domI map_le_def)

lemma vm_extends_refl: "vm_ok s L \<Longrightarrow> vm_extends s L s L"
  by (simp add: vm_extends_def)

lemma vm_extends_trans:
  assumes "vm_extends s L s' L'" and "vm_extends s' L' s'' L''"
  shows "vm_extends s L s'' L''"
  unfolding vm_extends_def
proof (intro conjI allI impI)
  show "L \<subseteq>\<^sub>m L''" using assms by (auto simp: vm_extends_def intro: map_le_trans)
  fix t n i assume h: "L t = Some n" "unat i < 512" "present (mem s) t i"
  then have eq: "load64 (mem s') (entry t i) = load64 (mem s) (entry t i)" and "L' t = Some n"
    using assms(1) by (auto simp: vm_extends_def intro: map_le_Some)
  moreover have "present (mem s') t i" using entry_cong(1) [OF eq] h(3) by simp
  ultimately show "load64 (mem s'') (entry t i) = load64 (mem s) (entry t i)"
    using assms(2) h(2) by (auto simp: vm_extends_def)
qed (use assms in \<open>auto simp: vm_extends_def\<close>)

text \<open>
  What linking a fresh, cleared table \<open>pg\<close> from entry \<open>i\<close> of table \<open>t\<close> does to the entries: that
  entry now leads to \<open>pg\<close>, no other entry of a table changes, and \<open>pg\<close> has no present entry.
\<close>

definition links_fresh :: "mem \<Rightarrow> mem \<Rightarrow> levels \<Rightarrow> addr \<Rightarrow> u64 \<Rightarrow> addr \<Rightarrow> bool" where
  "links_fresh m m' L t i pg \<longleftrightarrow> pg mod 4096 = 0 \<and> L pg = None \<and>
     present m' t i \<and> follow m' t i = pg \<and>
     (\<forall>t2 n2 i2. L t2 = Some n2 \<longrightarrow> unat i2 < 512 \<longrightarrow> (t2, i2) \<noteq> (t, i) \<longrightarrow>
        load64 m' (entry t2 i2) = load64 m (entry t2 i2)) \<and>
     (\<forall>j. unat j < 512 \<longrightarrow> \<not> present m' pg j)"

text \<open>A present entry of the new tables is the new link, or an old entry that leads elsewhere.\<close>

lemma links_fresh_edge:
  assumes lf: "links_fresh m m' L t i pg" and tb: "vm_tables m L"
    and e: "(L(pg \<mapsto> k)) u = Some n" "unat j < 512" "2 \<le> n" "present m' u j"
  shows "L u = Some n \<and> ((u, j) = (t, i) \<or> (u, j) \<noteq> (t, i) \<and> present m u j \<and>
    follow m' u j = follow m u j \<and> L (follow m u j) = Some (n - 1) \<and> follow m u j \<noteq> pg)"
proof -
  have "u \<noteq> pg" using lf e by (auto simp: links_fresh_def)
  then have Lu: "L u = Some n" using e(1) by simp
  show ?thesis
  proof (cases "(u, j) = (t, i)")
    case False
    then have eq: "load64 m' (entry u j) = load64 m (entry u j)"
      using lf Lu e(2) by (auto simp: links_fresh_def)
    then have "present m u j" using e(4) entry_cong(1) [OF eq] by simp
    then have "L (follow m u j) = Some (n - 1)" using tb Lu e(2,3) by (auto simp: vm_tables_def)
    moreover from this have "follow m u j \<noteq> pg" using lf by (auto simp: links_fresh_def)
    ultimately show ?thesis
      using False Lu \<open>present m u j\<close> entry_cong(2) [OF eq] by simp
  qed (use Lu in simp)
qed

lemma links_fresh_tables:
  assumes lf: "links_fresh m m' L t i pg" and tb: "vm_tables m L" and t: "L t = Some n"
  shows "vm_tables m' (L(pg \<mapsto> n - 1))"
  unfolding vm_tables_def
proof (intro allI impI conjI)
  fix u k assume "(L(pg \<mapsto> n - 1)) u = Some k"
  then show "u mod 4096 = 0" using lf tb by (auto simp: links_fresh_def vm_tables_def split: if_splits)
next
  fix u k j assume h: "(L(pg \<mapsto> n - 1)) u = Some k" "unat j < 512" "2 \<le> k" "present m' u j"
  from links_fresh_edge [OF lf tb h] t lf show "(L(pg \<mapsto> n - 1)) (follow m' u j) = Some (k - 1)"
    by (auto simp: links_fresh_def)
qed

lemma links_fresh_tree:
  assumes lf: "links_fresh m m' L t i pg" and tb: "vm_tables m L" and tr: "vm_tree m L"
  shows "vm_tree m' (L(pg \<mapsto> k))"
  unfolding vm_tree_def
proof (intro allI impI)
  fix t2 n2 i2 t3 n3 i3
  assume h: "(L(pg \<mapsto> k)) t2 = Some n2" "(L(pg \<mapsto> k)) t3 = Some n3" "2 \<le> n2" "2 \<le> n3"
    "unat i2 < 512" "unat i3 < 512" "present m' t2 i2" "present m' t3 i3" "follow m' t2 i2 = follow m' t3 i3"
  have pg: "follow m' t i = pg" using lf by (simp add: links_fresh_def)
  note e2 = links_fresh_edge [OF lf tb h(1,5,3,7)] and e3 = links_fresh_edge [OF lf tb h(2,6,4,8)]
  show "(t2, i2) = (t3, i3)"
  proof (cases "(t2, i2) = (t, i) \<or> (t3, i3) = (t, i)")
    case True
    with e2 e3 h(9) pg show ?thesis by auto
  next
    case False
    with e2 e3 h(9) have "follow m t2 i2 = follow m t3 i3" "L t2 = Some n2" "L t3 = Some n3"
      "present m t2 i2" "present m t3 i3" by auto
    with tr h(3-6) show ?thesis unfolding vm_tree_def by blast
  qed
qed

lemma marked_frames:
  assumes fr: "vm_frames s L" and ok: "pmm_ok s"
    and r: "r \<le> total_available_pages (kMemory s)" "\<not> GET_PAGE_BIT s r"
    and reg: "same_region s s'"
    and bits: "\<And>x. x \<le> total_available_pages (kMemory s) \<Longrightarrow> GET_PAGE_BIT s' x \<longleftrightarrow> x = r \<or> GET_PAGE_BIT s x"
  shows "vm_frames s' (L(page_at s r \<mapsto> k))"
proof -
  let ?N = "total_available_pages (kMemory s)"
  have eqs: "page_byte s' = page_byte s" "page_at s' = page_at s" "total_available_pages (kMemory s') = ?N"
    using reg by (auto simp: page_byte_def page_at_def same_region_def fun_eq_iff)
  have small: "unat x < 2 ^ 52" if "x \<le> ?N" for x
    using that ok by (simp add: pmm_ok_def word_le_nat_alt)
  show ?thesis
    unfolding vm_frames_def eqs
  proof (intro allI impI conjI ballI)
    fix x u assume "x \<le> ?N" and "u \<in> dom (L(page_at s r \<mapsto> k))"
    then show "apart (page_byte s x) 1 u 4096"
      using fr r by (cases "u = page_at s r") (auto simp: vm_frames_def)
  next
    fix x assume x: "x \<le> ?N" and "\<not> GET_PAGE_BIT s' x"
    then have fx: "\<not> GET_PAGE_BIT s x" "x \<noteq> r" using bits by auto
    then have "page_at s x \<noteq> page_at s r"
      using page_addresses_distinct small x r(1) by (simp add: page_at_def)
    then show "(L(page_at s r \<mapsto> k)) (page_at s x) = None" using fr x fx by (simp add: vm_frames_def)
    show "page_at s x mod 4096 = 0" "unat (page_at s x) < 2 ^ 40"
      using fr x fx by (auto simp: vm_frames_def)
    fix y assume "y \<le> ?N"
    then show "apart (page_byte s y) 1 (page_at s x) 4096"
      using fr x fx by (auto simp: vm_frames_def)
  qed
qed

lemma fresh_table_ok:
  assumes ok: "vm_ok s L" and t: "L t = Some n" "2 \<le> n" and i: "unat i < 512" "\<not> present (mem s) t i"
    and req: "MmRequestPage s = Some (pg, s1)"
    and s': "s' = s1\<lparr>mem := store64 (RtZeroMemory (mem s1) pg PAGE_SIZE) (entry t i) (install_entry e pg)\<rparr>"
  shows "vm_extends s L s' (L(pg \<mapsto> n - 1)) \<and> present (mem s') t i \<and> follow (mem s') t i = pg \<and>
    takes_at_most_one s s'"
proof -
  let ?N = "total_available_pages (kMemory s)"
  have parts: "pmm_ok s" "?N \<noteq> 0" "L (kPML4 s) = Some 4" "vm_tables (mem s) L" "vm_tree (mem s) L" "vm_frames s L"
    using ok by (auto simp: vm_ok_def)
  obtain r b where r: "r \<le> ?N" "\<not> GET_PAGE_BIT s r" and pg: "pg = page_at s r"
    and m1: "mem s1 = store8 (mem s) (page_byte s r) b"
    and g1: "\<forall>x. GET_PAGE_BIT s1 x \<longleftrightarrow> x = r \<or> GET_PAGE_BIT s x"
    and reg: "same_region s s1" and ok1: "pmm_ok s1" and pb: "page_byte s1 = page_byte s"
    by (rule MmRequestPage_vmm [OF parts(1,2) req])
  have m': "mem s' = store64 (RtZeroMemory (store8 (mem s) (page_byte s r) b) pg PAGE_SIZE) (entry t i) (install_entry e pg)"
    by (simp add: s' m1)
  note M = fresh_table_memory [OF parts(6,4) t(1) i(1) r pg m']
  have pgs: "pg mod 4096 = 0" "unat pg < 2 ^ 40" "L pg = None"
    using parts(6) r by (auto simp: vm_frames_def pg)
  have lf: "links_fresh (mem s) (mem s') L t i pg"
    using M pgs by (auto simp: links_fresh_def present_def follow_def install_entry_present
        install_entry_ppn page_of_ppn)
  have reg': "same_region s s'" "page_byte s' = page_byte s" "pmm_ok s'" "kPML4 s' = kPML4 s"
    using reg pb ok1 kPML4_MmRequestPage [OF req]
    by (auto simp: s' page_byte_def pmm_ok_def same_region_def fun_eq_iff)
  have bits: "GET_PAGE_BIT s' x \<longleftrightarrow> x = r \<or> GET_PAGE_BIT s x" if "x \<le> ?N" for x
  proof -
    have "load8 (mem s') (page_byte s' x) = load8 (mem s1) (page_byte s1 x)"
      using M(4) [OF that] by (simp add: reg'(2) pb m1)
    then have "GET_PAGE_BIT s' x = GET_PAGE_BIT s1 x" by (simp add: GET_PAGE_BIT_bit)
    then show ?thesis by (simp add: g1)
  qed
  then have "takes_at_most_one s s'"
    using reg'(1) by (auto simp: takes_at_most_one_def same_region_def)
  moreover have "vm_frames s' (L(pg \<mapsto> n - 1))"
    unfolding pg using parts(1,6) r reg'(1) bits by (intro marked_frames)
  moreover have "L \<subseteq>\<^sub>m L(pg \<mapsto> n - 1)" "(L(pg \<mapsto> n - 1)) (kPML4 s) = Some 4"
    using pgs(3) parts(3) by (auto simp: map_le_def)
  moreover have "load64 (mem s') (entry u j) = load64 (mem s) (entry u j)"
    if "L u = Some k" "unat j < 512" "present (mem s) u j" for u k j
    using M(2) [OF that(1,2)] that(3) i(2) by auto
  ultimately show ?thesis
    using links_fresh_tables [OF lf parts(4) t(1)] links_fresh_tree [OF lf parts(4,5)] lf parts(2) reg'
    by (auto simp: vm_extends_def vm_ok_def links_fresh_def same_region_def)
qed

lemma descend_ok:
  assumes ok: "vm_ok s L" and t: "L t = Some n" "2 \<le> n" and i: "unat i < 512"
    and d: "descend t i s = Some (c, s')"
  obtains L' where "vm_extends s L s' L'" and "L' c = Some (n - 1)" and "L' t = Some n"
    and "present (mem s') t i" and "follow (mem s') t i = c" and "takes_at_most_one s s'"
proof (cases "present (mem s) t i")
  case True
  then have "s' = s" and "c = follow (mem s) t i"
    using d by (auto simp: descend_def present_def follow_def Let_def)
  with True ok t i that [of L] show ?thesis
    by (auto simp: vm_extends_refl vm_ok_def vm_tables_def takes_at_most_one_def)
next
  case False
  then obtain s1 where req: "MmRequestPage s = Some (c, s1)"
    and s': "s' = s1\<lparr>mem := store64 (RtZeroMemory (mem s1) c PAGE_SIZE) (entry t i)
        (install_entry (load64 (mem s) (entry t i)) c)\<rparr>"
    using d by (auto simp: descend_def present_def Let_def bind_eq_Some_conv)
  note F = fresh_table_ok [OF ok t i False req s']
  then have "L \<subseteq>\<^sub>m L(c \<mapsto> n - 1)" by (simp add: vm_extends_def)
  then have "(L(c \<mapsto> n - 1)) t = Some n" using t(1) by (rule map_le_Some)
  with F that [of "L(c \<mapsto> n - 1)"] show ?thesis by auto
qed

subsection \<open>The whole walk\<close>

definition walk3 :: "'a vmm_scheme \<Rightarrow> addr \<Rightarrow> addr" where
  "walk3 s a = follow (mem s) (kPML4 s) (pmi_pdp (MmGetPageIndices a))"

definition walk2 :: "'a vmm_scheme \<Rightarrow> addr \<Rightarrow> addr" where
  "walk2 s a = follow (mem s) (walk3 s a) (pmi_pd (MmGetPageIndices a))"

definition walk1 :: "'a vmm_scheme \<Rightarrow> addr \<Rightarrow> addr" where
  "walk1 s a = follow (mem s) (walk2 s a) (pmi_pt (MmGetPageIndices a))"

lemma pte_address_walk: "pte_address s a = entry (walk1 s a) (pmi_p (MmGetPageIndices a))"
  by (simp add: pte_address_def walk1_def walk2_def walk3_def Let_def)

text \<open>The three directory entries on the way are present; with \<open>mapped\<close> the page entry is, too.\<close>

definition walkable :: "'a vmm_scheme \<Rightarrow> addr \<Rightarrow> bool" where
  "walkable s a \<longleftrightarrow> present (mem s) (kPML4 s) (pmi_pdp (MmGetPageIndices a)) \<and>
     present (mem s) (walk3 s a) (pmi_pd (MmGetPageIndices a)) \<and>
     present (mem s) (walk2 s a) (pmi_pt (MmGetPageIndices a))"

definition mapped :: "'a vmm_scheme \<Rightarrow> addr \<Rightarrow> bool" where
  "mapped s a \<longleftrightarrow> walkable s a \<and> present (mem s) (walk1 s a) (pmi_p (MmGetPageIndices a))"

lemma walk_levels:
  assumes "vm_ok s L" and "walkable s a"
  shows "L (kPML4 s) = Some 4" and "L (walk3 s a) = Some 3" and "L (walk2 s a) = Some 2"
    and "L (walk1 s a) = Some 1"
proof -
  have step: "L (follow (mem s) t i) = Some (n - 1)"
    if "L t = Some n" "2 \<le> n" "unat i < 512" "present (mem s) t i" for t n i
    using assms(1) that by (auto simp: vm_ok_def vm_tables_def)
  show 4: "L (kPML4 s) = Some 4" using assms(1) by (simp add: vm_ok_def)
  show 3: "L (walk3 s a) = Some 3"
    using step [OF 4 _ index_lt(1) [of a]] assms(2) by (simp add: walk3_def walkable_def)
  show 2: "L (walk2 s a) = Some 2"
    using step [OF 3 _ index_lt(2) [of a]] assms(2) by (simp add: walk2_def walkable_def)
  show "L (walk1 s a) = Some 1"
    using step [OF 2 _ index_lt(3) [of a]] assms(2) by (simp add: walk1_def walkable_def)
qed

text \<open>A walk depends on three directory entries only.\<close>

lemma walk_cong:
  assumes "kPML4 s' = kPML4 s"
    and "load64 (mem s') (entry (kPML4 s) (pmi_pdp (MmGetPageIndices a))) =
      load64 (mem s) (entry (kPML4 s) (pmi_pdp (MmGetPageIndices a)))"
    and "load64 (mem s') (entry (walk3 s a) (pmi_pd (MmGetPageIndices a))) =
      load64 (mem s) (entry (walk3 s a) (pmi_pd (MmGetPageIndices a)))"
    and "load64 (mem s') (entry (walk2 s a) (pmi_pt (MmGetPageIndices a))) =
      load64 (mem s) (entry (walk2 s a) (pmi_pt (MmGetPageIndices a)))"
  shows "walkable s' a = walkable s a" and "walk1 s' a = walk1 s a"
proof -
  note c4 = entry_cong [OF assms(2)] and c3 = entry_cong [OF assms(3)] and c2 = entry_cong [OF assms(4)]
  have w3: "walk3 s' a = walk3 s a" using c4(2) assms(1) by (simp add: walk3_def)
  have w2: "walk2 s' a = walk2 s a" using c3(2) w3 by (simp add: walk2_def)
  show "walk1 s' a = walk1 s a" using c2(2) w2 by (simp add: walk1_def)
  show "walkable s' a = walkable s a"
    using c4(1) c3(1) c2(1) w3 w2 assms(1) by (simp add: walkable_def)
qed

lemma walk_extends:
  assumes ok: "vm_ok s L" and ex: "vm_extends s L s' L'" and w: "walkable s a"
  shows "walkable s' a" and "walk1 s' a = walk1 s a"
proof -
  have keep: "load64 (mem s') (entry t i) = load64 (mem s) (entry t i)"
    if "L t = Some n" "unat i < 512" "present (mem s) t i" for t n i
    using ex that by (auto simp: vm_extends_def)
  have root: "kPML4 s' = kPML4 s" using ex by (simp add: vm_extends_def)
  note lv = walk_levels [OF ok w]
  have "walkable s' a = walkable s a \<and> walk1 s' a = walk1 s a"
    using w root walk_cong [OF root]
      keep [OF lv(1) index_lt(1) [of a]] keep [OF lv(2) index_lt(2) [of a]] keep [OF lv(3) index_lt(3) [of a]]
    unfolding walkable_def by blast
  with w show "walkable s' a" "walk1 s' a = walk1 s a" by simp_all
qed

text \<open>Two walkable addresses that end in the same table share all three directory indices.\<close>

lemma walk1_inj:
  assumes ok: "vm_ok s L" and w: "walkable s a" "walkable s b" and eq: "walk1 s a = walk1 s b"
  shows "pmi_pdp (MmGetPageIndices a) = pmi_pdp (MmGetPageIndices b)"
    and "pmi_pd (MmGetPageIndices a) = pmi_pd (MmGetPageIndices b)"
    and "pmi_pt (MmGetPageIndices a) = pmi_pt (MmGetPageIndices b)"
proof -
  have tree: "(t, i) = (t', i')"
    if "L t = Some n" "L t' = Some n" "2 \<le> n" "unat i < 512" "unat i' < 512"
      "present (mem s) t i" "present (mem s) t' i'" "follow (mem s) t i = follow (mem s) t' i'"
    for t t' n i i'
    using ok that unfolding vm_ok_def vm_tree_def by blast
  note la = walk_levels [OF ok w(1)] and lb = walk_levels [OF ok w(2)]
  have 2: "(walk2 s a, pmi_pt (MmGetPageIndices a)) = (walk2 s b, pmi_pt (MmGetPageIndices b))"
    using w eq by (intro tree [OF la(3) lb(3)] index_lt) (auto simp: walkable_def walk1_def)
  then have 3: "(walk3 s a, pmi_pd (MmGetPageIndices a)) = (walk3 s b, pmi_pd (MmGetPageIndices b))"
    using w by (intro tree [OF la(2) lb(2)] index_lt) (auto simp: walkable_def walk2_def)
  then have 4: "(kPML4 s, pmi_pdp (MmGetPageIndices a)) = (kPML4 s, pmi_pdp (MmGetPageIndices b))"
    using w by (intro tree [OF la(1) lb(1)] index_lt) (auto simp: walkable_def walk3_def)
  from 2 3 4 show "pmi_pdp (MmGetPageIndices a) = pmi_pdp (MmGetPageIndices b)"
    "pmi_pd (MmGetPageIndices a) = pmi_pd (MmGetPageIndices b)"
    "pmi_pt (MmGetPageIndices a) = pmi_pt (MmGetPageIndices b)" by simp_all
qed

text \<open>Writing an entry of a level-1 table disturbs no other entry and keeps the invariant.\<close>

lemma leaf_store:
  assumes ok: "vm_ok s L" and t: "L t = Some 1" and i: "unat i < 512"
    and s': "s' = s\<lparr>mem := store64 (mem s) (entry t i) e\<rparr>"
  shows "vm_ok s' L"
    and "\<And>u n j. L u = Some n \<Longrightarrow> unat j < 512 \<Longrightarrow> (u, j) \<noteq> (t, i) \<Longrightarrow>
      load64 (mem s') (entry u j) = load64 (mem s) (entry u j)"
proof -
  have tb: "vm_tables (mem s) L" and tr: "vm_tree (mem s) L" and fr: "vm_frames s L"
    using ok by (auto simp: vm_ok_def)
  show other: "load64 (mem s') (entry u j) = load64 (mem s) (entry u j)"
    if "L u = Some n" "unat j < 512" "(u, j) \<noteq> (t, i)" for u n j
  proof -
    have "apart (entry u j) 8 (entry t i) 8"
      using that t i vm_tables_aligned [OF tb] by (intro entries_apart) auto
    then show ?thesis by (simp add: s' load_store_apart)
  qed
  have upper: "load64 (mem s') (entry u j) = load64 (mem s) (entry u j)"
    if "L u = Some n" "2 \<le> n" "unat j < 512" for u n j
    using other [OF that(1,3)] that t by (cases "u = t") auto
  have bits: "GET_PAGE_BIT s' x = GET_PAGE_BIT s x" if "x \<le> total_available_pages (kMemory s)" for x
  proof -
    have "apart t 4096 (page_byte s x) 1"
      using fr that t unfolding vm_frames_def by (meson apart_sym domI)
    then have "apart (page_byte s x) 1 (entry t i) 8"
      using i by (rule apart_sym [OF entry_in_page])
    then show ?thesis by (simp add: GET_PAGE_BIT_bit s' page_byte_def load_store_apart)
  qed
  have "page_byte s' = page_byte s" "page_at s' = page_at s"
    by (auto simp: s' page_byte_def page_at_def fun_eq_iff)
  then have "vm_frames s' L"
    using fr bits unfolding vm_frames_def by (simp add: s')
  moreover have "vm_tables (mem s') L" using upper tb by (rule vm_tables_tree_cong(1))
  moreover have "vm_tree (mem s') L" using upper tr by (rule vm_tables_tree_cong(2))
  moreover have "pmm_ok s'" using ok by (simp add: vm_ok_def pmm_ok_def s')
  ultimately show "vm_ok s' L" using ok by (simp add: vm_ok_def s')
qed

lemma page_mask: "(x :: u64) AND 0xfffffffffffff000 = x - x mod 4096"
proof -
  have "(0xfffffffffffff000 :: u64) = - 4096" by (simp add: eq_neg_iff_add_eq_0)
  then show ?thesis using neg_4096_and [of x] by (simp only: and.commute)
qed

lemma indices_page_mask:
  "MmGetPageIndices (a AND 0xfffffffffffff000) = MmGetPageIndices a"
proof -
  have "(unat a - unat a mod 4096) div 4096 = unat a div 4096"
    by (simp add: minus_mod_eq_mult_div)
  then have "drop_bit 12 (a - a mod 4096) = drop_bit 12 a"
    by (simp add: word_unat_eq_iff unat_drop_bit word_sub_mod_4096 del: minus_mod_eq_mult_div)
  then show ?thesis by (simp only: MmGetPageIndices_def page_mask)
qed

text \<open>The state before the final store: all three tables exist and the walk of \<open>a\<close> leads to \<open>pt\<close>.\<close>

lemma descend_chain:
  assumes ok: "vm_ok s L" and ix: "ix = MmGetPageIndices a"
    and d3: "descend (kPML4 s) (pmi_pdp ix) s = Some (pdp, s3)"
    and d2: "descend pdp (pmi_pd ix) s3 = Some (pd, s2)"
    and d1: "descend pd (pmi_pt ix) s2 = Some (pt, s1)"
  obtains L' where "vm_extends s L s1 L'" and "walkable s1 a" and "walk1 s1 a = pt"
proof -
  have root: "L (kPML4 s) = Some 4" using ok by (simp add: vm_ok_def)
  have lt: "unat (pmi_pdp ix) < 512" "unat (pmi_pd ix) < 512" "unat (pmi_pt ix) < 512"
    by (simp_all add: ix index_lt)
  obtain L3 where x3: "vm_extends s L s3 L3" "L3 pdp = Some (4 - 1)" "L3 (kPML4 s) = Some 4"
      "present (mem s3) (kPML4 s) (pmi_pdp ix)" "follow (mem s3) (kPML4 s) (pmi_pdp ix) = pdp"
      "takes_at_most_one s s3"
    by (rule descend_ok [OF ok root _ lt(1) d3]) simp
  have ok3: "vm_ok s3 L3" and t3: "L3 pdp = Some 3" using x3(1,2) by (simp_all add: vm_extends_def)
  obtain L2 where x2: "vm_extends s3 L3 s2 L2" "L2 pd = Some (3 - 1)" "L2 pdp = Some 3"
      "present (mem s2) pdp (pmi_pd ix)" "follow (mem s2) pdp (pmi_pd ix) = pd"
      "takes_at_most_one s3 s2"
    by (rule descend_ok [OF ok3 t3 _ lt(2) d2]) simp
  have ok2: "vm_ok s2 L2" and t2: "L2 pd = Some 2" using x2(1,2) by (simp_all add: vm_extends_def)
  obtain L1 where x1: "vm_extends s2 L2 s1 L1" "L1 pt = Some (2 - 1)" "L1 pd = Some 2"
      "present (mem s1) pd (pmi_pt ix)" "follow (mem s1) pd (pmi_pt ix) = pt"
      "takes_at_most_one s2 s1"
    by (rule descend_ok [OF ok2 t2 _ lt(3) d1]) simp
  have x31: "vm_extends s3 L3 s1 L1" using x2(1) x1(1) by (rule vm_extends_trans)
  have e4: "load64 (mem s1) (entry (kPML4 s) (pmi_pdp ix)) = load64 (mem s3) (entry (kPML4 s) (pmi_pdp ix))"
    using x31 x3(3,4) index_lt(1) [of a] by (auto simp: vm_extends_def ix)
  have e3: "load64 (mem s1) (entry pdp (pmi_pd ix)) = load64 (mem s2) (entry pdp (pmi_pd ix))"
    using x1(1) x2(3,4) index_lt(2) [of a] by (auto simp: vm_extends_def ix)
  have k: "kPML4 s1 = kPML4 s" using x3(1) x31 by (simp add: vm_extends_def)
  have "walk3 s1 a = pdp" using entry_cong(2) [OF e4] x3(5) by (simp add: walk3_def k ix)
  moreover from this have "walk2 s1 a = pd" using entry_cong(2) [OF e3] x2(5) by (simp add: walk2_def ix)
  moreover from this have "walk1 s1 a = pt" using x1(5) by (simp add: walk1_def ix)
  moreover have "walkable s1 a"
    using entry_cong(1) [OF e4] entry_cong(1) [OF e3] x3(4) x2(4) x1(4) calculation
    by (simp add: walkable_def k ix)
  ultimately show ?thesis
    using that vm_extends_trans [OF x3(1) x31] by blast
qed

subsection \<open>Termination of the mapping\<close>

definition free_pages :: "'a pmm_scheme \<Rightarrow> u64 set" where
  "free_pages s = {y. 1 \<le> y \<and> y \<le> total_available_pages (kMemory s) \<and> \<not> GET_PAGE_BIT s y}"

lemma free_pages_takes_at_most_one:
  assumes "takes_at_most_one s s'"
  shows "card (free_pages s) \<le> Suc (card (free_pages s'))"
proof -
  obtain r where "free_pages s - {r} \<subseteq> free_pages s'"
    using assms by (auto simp: takes_at_most_one_def free_pages_def)
  then have "card (free_pages s - {r}) \<le> card (free_pages s')"
    by (intro card_mono) auto
  then show ?thesis using card_Diff1_le [of "free_pages s" r] by (simp add: card_Diff_singleton_if split: if_splits)
qed

text \<open>Taking a page without linking it anywhere keeps the invariant too.\<close>

lemma MmRequestPage_vm_ok:
  assumes ok: "vm_ok s L" and req: "MmRequestPage s = Some (pg, s1)"
  shows "vm_ok s1 L" and "takes_at_most_one s s1" and "pg mod 4096 = 0" and "unat pg < 2 ^ 40"
proof -
  let ?N = "total_available_pages (kMemory s)"
  have parts: "pmm_ok s" "?N \<noteq> 0" "L (kPML4 s) = Some 4" "vm_tables (mem s) L" "vm_tree (mem s) L" "vm_frames s L"
    using ok by (auto simp: vm_ok_def)
  obtain r b where r: "r \<le> ?N" "\<not> GET_PAGE_BIT s r" and pg: "pg = page_at s r"
    and m1: "mem s1 = store8 (mem s) (page_byte s r) b"
    and g1: "\<forall>x. GET_PAGE_BIT s1 x \<longleftrightarrow> x = r \<or> GET_PAGE_BIT s x"
    and reg: "same_region s s1" and ok1: "pmm_ok s1" and pb: "page_byte s1 = page_byte s"
    by (rule MmRequestPage_vmm [OF parts(1,2) req])
  show "pg mod 4096 = 0" and "unat pg < 2 ^ 40" using parts(6) r by (auto simp: vm_frames_def pg)
  show "takes_at_most_one s s1" using g1 reg by (auto simp: takes_at_most_one_def same_region_def)
  have "load64 (mem s1) (entry t i) = load64 (mem s) (entry t i)" if "L t = Some n" "unat i < 512" for t n i
  proof -
    have "apart (page_byte s r) 1 t 4096" using parts(6) r(1) that(1) by (auto simp: vm_frames_def)
    then have "apart (entry t i) 8 (page_byte s r) 1" using that(2) by (meson apart_sym entry_in_page)
    then show ?thesis by (simp add: m1 load_store_apart)
  qed
  then have "vm_tables (mem s1) L" "vm_tree (mem s1) L"
    using vm_tables_tree_cong [of L "mem s1" "mem s"] parts(4,5) by blast+
  moreover have "page_at s1 = page_at s" using reg by (auto simp: page_at_def same_region_def)
  then have "vm_frames s1 L"
    using parts(6) reg g1 pb by (simp add: vm_frames_def same_region_def)
  ultimately show "vm_ok s1 L"
    using parts ok1 reg kPML4_MmRequestPage [OF req] by (simp add: vm_ok_def same_region_def)
qed

lemma MmRequestPage_returns:
  assumes "vm_ok s L" and "free_pages s \<noteq> {}"
  shows "\<exists>pg s1. MmRequestPage s = Some (pg, s1)"
proof -
  have "last_requested s \<le> total_available_pages (kMemory s)"
    using assms(1) by (simp add: vm_ok_def pmm_ok_def)
  then obtain r where "request_scan s (last_requested s) = Some r"
    using assms(2) request_scan_returns unfolding free_pages_def by blast
  then show ?thesis by (simp add: MmRequestPage_def Let_def)
qed

lemma descend_returns:
  assumes "vm_ok s L" and "free_pages s \<noteq> {}"
  shows "\<exists>c s'. descend t i s = Some (c, s')"
  using MmRequestPage_returns [OF assms] by (auto simp: descend_def Let_def)

text \<open>One table level, with the invariant, the levels and the budget of free pages.\<close>

lemma descend_step:
  assumes "vm_ok s L" and "L t = Some n" and "2 \<le> n" and "unat i < 512" and "k < card (free_pages s)"
  obtains c s' L' where "descend t i s = Some (c, s')" and "vm_ok s' L'" and "L' c = Some (n - 1)"
    and "k \<le> card (free_pages s')"
proof -
  have "free_pages s \<noteq> {}" using assms(5) by auto
  then obtain c s' where d: "descend t i s = Some (c, s')" using descend_returns [OF assms(1)] by blast
  obtain L' where "vm_extends s L s' L'" "L' c = Some (n - 1)" "takes_at_most_one s s'"
    using descend_ok [OF assms(1-4) d] by blast
  with d assms(5) free_pages_takes_at_most_one [of s s'] that show ?thesis
    by (auto simp: vm_extends_def)
qed

lemma MmMapMemory_returns:
  assumes ok: "vm_ok s L" and free: "3 \<le> card (free_pages s)"
  shows "\<exists>s'. MmMapMemory v p s = Some s'"
proof -
  let ?ix = "MmGetPageIndices (v AND 0xfffffffffffff000)"
  have root: "L (kPML4 s) = Some 4" using ok by (simp add: vm_ok_def)
  have k: "2 < card (free_pages s)" using free by simp
  obtain pdp s3 L3 where 3: "descend (kPML4 s) (pmi_pdp ?ix) s = Some (pdp, s3)" "vm_ok s3 L3"
      "L3 pdp = Some (4 - 1)" "2 \<le> card (free_pages s3)"
    by (rule descend_step [OF ok root _ index_lt(1) k]) simp
  have t3: "L3 pdp = Some 3" and k3: "1 < card (free_pages s3)" using 3 by simp_all
  obtain pd s2 L2 where 2: "descend pdp (pmi_pd ?ix) s3 = Some (pd, s2)" "vm_ok s2 L2"
      "L2 pd = Some (3 - 1)" "1 \<le> card (free_pages s2)"
    by (rule descend_step [OF 3(2) t3 _ index_lt(2) k3]) simp
  have "free_pages s2 \<noteq> {}" using 2(4) by auto
  then obtain pt s1 where 1: "descend pd (pmi_pt ?ix) s2 = Some (pt, s1)"
    using descend_returns [OF 2(2)] by blast
  show ?thesis using 3(1) 2(1) 1 by (simp add: MmMapMemory_def Let_def)
qed

subsection \<open>What a mapping does\<close>

lemma MmMapMemory_steps:
  assumes "vm_ok s L" and "MmMapMemory v p s = Some s'"
  obtains s1 L' e where "vm_extends s L s1 L'" and "walkable s1 v"
    and "s' = s1\<lparr>mem := store64 (mem s1) (pte_address s1 v) (install_entry e (p AND 0xfffffffffffff000))\<rparr>"
proof -
  let ?ix = "MmGetPageIndices v"
  obtain pdp s3 pd s2 pt s1 where d: "descend (kPML4 s) (pmi_pdp ?ix) s = Some (pdp, s3)"
      "descend pdp (pmi_pd ?ix) s3 = Some (pd, s2)" "descend pd (pmi_pt ?ix) s2 = Some (pt, s1)"
    and s': "s' = s1\<lparr>mem := store64 (mem s1) (entry pt (pmi_p ?ix))
        (install_entry (load64 (mem s1) (entry pt (pmi_p ?ix))) (p AND 0xfffffffffffff000))\<rparr>"
    using assms(2)
    by (auto simp: MmMapMemory_def Let_def indices_page_mask bind_eq_Some_conv split: prod.splits)
  obtain L' where "vm_extends s L s1 L'" "walkable s1 v" "walk1 s1 v = pt"
    by (rule descend_chain [OF assms(1) refl d])
  with s' that show ?thesis by (simp add: pte_address_walk)
qed

lemma leaf_walk:
  assumes ok: "vm_ok s L" and v: "walkable s v" and w: "walkable s w"
    and s': "s' = s\<lparr>mem := store64 (mem s) (pte_address s v) e\<rparr>"
  shows "walkable s' w" and "pte_address s' w = pte_address s w"
    and "MmGetPageIndices w \<noteq> MmGetPageIndices v \<Longrightarrow>
      load64 (mem s') (pte_address s' w) = load64 (mem s) (pte_address s w)"
proof -
  let ?iv = "pmi_p (MmGetPageIndices v)" and ?iw = "pmi_p (MmGetPageIndices w)"
  note lv = walk_levels [OF ok v] and lw = walk_levels [OF ok w]
  have s'e: "s' = s\<lparr>mem := store64 (mem s) (entry (walk1 s v) ?iv) e\<rparr>"
    by (simp add: s' pte_address_walk)
  have other: "load64 (mem s') (entry u j) = load64 (mem s) (entry u j)"
    if "L u = Some n" "unat j < 512" "(u, j) \<noteq> (walk1 s v, ?iv)" for u n j
    using leaf_store(2) [OF ok lv(4) index_lt(4) s'e that] .
  have k: "kPML4 s' = kPML4 s" by (simp add: s')
  have ne: "kPML4 s \<noteq> walk1 s v" "walk3 s w \<noteq> walk1 s v" "walk2 s w \<noteq> walk1 s v"
    using lv lw by auto
  note cong = walk_cong [OF k other [OF lw(1) index_lt(1)] other [OF lw(2) index_lt(2)] other [OF lw(3) index_lt(3)]]
  show "walkable s' w" using cong(1) ne w by simp
  show pw: "pte_address s' w = pte_address s w" using cong(2) ne by (simp add: pte_address_walk)
  assume ne': "MmGetPageIndices w \<noteq> MmGetPageIndices v"
  have "(walk1 s w, ?iw) \<noteq> (walk1 s v, ?iv)"
    using walk1_inj [OF ok w v] ne' by (auto intro: PageMapIndex.equality)
  then show "load64 (mem s') (pte_address s' w) = load64 (mem s) (pte_address s w)"
    using other [OF lw(4) index_lt(4)] pw by (simp add: pte_address_walk)
qed

lemma MmMapMemory_after:
  assumes ok: "vm_ok s L" and mp: "MmMapMemory v p s = Some s'"
  obtains L' e where "vm_ok s' L'" and "L \<subseteq>\<^sub>m L'" and "walkable s' v"
    and "load64 (mem s') (pte_address s' v) = install_entry e (p AND 0xfffffffffffff000)"
    and "\<forall>w. mapped s w \<longrightarrow> MmGetPageIndices w \<noteq> MmGetPageIndices v \<longrightarrow> walkable s' w \<and>
       load64 (mem s') (pte_address s' w) = load64 (mem s) (pte_address s w)"
proof -
  obtain s1 L' e where ex: "vm_extends s L s1 L'" and wv: "walkable s1 v"
    and s': "s' = s1\<lparr>mem := store64 (mem s1) (pte_address s1 v) (install_entry e (p AND 0xfffffffffffff000))\<rparr>"
    by (rule MmMapMemory_steps [OF ok mp])
  have ok1: "vm_ok s1 L'" using ex by (simp add: vm_extends_def)
  have "vm_ok s' L'"
    using leaf_store(1) [OF ok1 walk_levels(4) [OF ok1 wv] index_lt(4)] s' by (simp add: pte_address_walk)
  moreover note leaf_walk(1,2) [OF ok1 wv wv s']
  moreover from this have "load64 (mem s') (pte_address s' v) = install_entry e (p AND 0xfffffffffffff000)"
    by (simp only: s') (simp add: load_store_same)
  moreover have "walkable s' w \<and> load64 (mem s') (pte_address s' w) = load64 (mem s) (pte_address s w)"
    if w: "mapped s w" and ne: "MmGetPageIndices w \<noteq> MmGetPageIndices v" for w
  proof -
    have ws: "walkable s w" "present (mem s) (walk1 s w) (pmi_p (MmGetPageIndices w))"
      using w by (auto simp: mapped_def)
    note w1 = walk_extends [OF ok ex ws(1)]
    have "load64 (mem s1) (pte_address s1 w) = load64 (mem s) (pte_address s w)"
      using ex walk_levels(4) [OF ok ws(1)] ws(2) w1(2) index_lt(4) [of w]
      by (auto simp: vm_extends_def pte_address_walk)
    then show ?thesis using leaf_walk(1,3) [OF ok1 wv w1(1) s'] ne by simp
  qed
  ultimately show ?thesis using that ex by (auto simp: vm_extends_def)
qed

subsection \<open>An example state\<close>

text \<open>
  Sixteen pages from \<open>0x100000\<close>, the first four used (the bitfield is in the second), and an empty
  root table at \<open>0x1000\<close>.
\<close>

definition vmm_example :: vmm where
  "vmm_example = \<lparr>mem = (\<lambda>a. if a = 0x101000 then 0x0F else 0),
     kMemory = kMemory pmm_example, last_requested = 0, kPML4 = 0x1000\<rparr>"

definition levels_example :: levels where
  "levels_example = [0x1000 \<mapsto> 4]"

lemma vmm_example_simps:
  "total_available_pages (kMemory vmm_example) = 16" "last_requested vmm_example = 0"
  "kPML4 vmm_example = 0x1000" "page_at vmm_example r = 0x100000 + push_bit 12 r"
  "page_byte vmm_example r = 0x101000 + drop_bit 3 r"
  by (simp_all add: vmm_example_def pmm_example_def page_at_def page_byte_def)

lemma vmm_example_byte: "(r :: u64) \<le> 16 \<Longrightarrow> unat (0x101000 + drop_bit 3 r :: u64) = 0x101000 + unat r div 8"
  by (subst unat_add_u64) (auto simp: unat_drop_bit word_le_nat_alt)

lemma vmm_example_page: "(r :: u64) \<le> 16 \<Longrightarrow> unat (0x100000 + push_bit 12 r) = 0x100000 + 4096 * unat r"
proof -
  assume "r \<le> 16"
  then have r: "unat r \<le> 16" by (simp add: word_le_nat_alt)
  then have "unat (push_bit 12 r) = 4096 * unat r"
    by (simp add: push_bit_eq_mult mult.commute unat_mult_u64)
  with r show ?thesis by (subst unat_add_u64) auto
qed

lemma vmm_example_used: "(r :: u64) < 4 \<Longrightarrow> GET_PAGE_BIT vmm_example r"
proof -
  assume "r < 4"
  then have r: "unat r < 4" by (simp add: word_less_nat_alt)
  then have "drop_bit 3 r = 0" by (simp add: word_unat_eq_iff unat_drop_bit)
  moreover have "unat (r mod 8) \<in> {0, 1, 2, 3}" using r by (auto simp: unat_mod)
  then have "bit (0x0F :: u8) (unat (r mod 8))" by auto
  ultimately show ?thesis
    by (simp add: GET_PAGE_BIT_bit vmm_example_simps load8_def) (simp add: vmm_example_def)
qed

lemma vmm_example_free: "(r :: u64) \<le> 16 \<Longrightarrow> 4 \<le> r \<Longrightarrow> \<not> GET_PAGE_BIT vmm_example r"
proof -
  assume "r \<le> 16" and "4 \<le> r"
  then have r: "unat r \<le> 16" "4 \<le> unat r" by (simp_all add: word_le_nat_alt)
  show ?thesis
  proof (cases "unat r < 8")
    case True
    then have "unat (r mod 8) \<in> {4, 5, 6, 7}" using r by (auto simp: unat_mod)
    then have "\<not> bit (0x0F :: u8) (unat (r mod 8))" by auto
    then show ?thesis
      by (simp add: GET_PAGE_BIT_bit vmm_example_simps load8_def) (simp add: vmm_example_def)
  next
    case False
    then have "drop_bit 3 r \<noteq> 0" using r by (auto simp: word_unat_eq_iff unat_drop_bit)
    then show ?thesis
      by (simp add: GET_PAGE_BIT_bit vmm_example_simps load8_def) (simp add: vmm_example_def)
  qed
qed

lemma vmm_example_root: "unat i < 512 \<Longrightarrow> \<not> present (mem vmm_example) 0x1000 i"
proof -
  assume i: "unat i < 512"
  have "load64 (mem vmm_example) (entry 0x1000 i) = 0"
    unfolding load64_def
  proof (rule load_le_zero)
    fix k :: nat assume "k < 8"
    with i have "unat (entry 0x1000 i + of_nat k) = 0x1000 + 8 * unat i + k"
      by (simp add: entry_offset unat_add_of_nat add.assoc flip: of_nat_add del: of_nat_mult)
    with i \<open>k < 8\<close> have "entry 0x1000 i + of_nat k \<noteq> 0x101000" by (auto simp: word_unat_eq_iff)
    then show "mem vmm_example (entry 0x1000 i + of_nat k) = 0" by (simp add: vmm_example_def)
  qed
  then show ?thesis by (simp add: present_def)
qed

lemma vmm_example_ok: "vm_ok vmm_example levels_example"
proof -
  have "vm_frames vmm_example levels_example"
    unfolding vm_frames_def vmm_example_simps
  proof (intro allI impI conjI ballI)
    fix r t assume "(r :: u64) \<le> 16" and "t \<in> dom levels_example"
    then show "apart (0x101000 + drop_bit 3 r) 1 t 4096"
      by (intro apart_by_nat) (auto simp: levels_example_def vmm_example_byte word_le_nat_alt split: if_splits)
  next
    fix r :: u64 assume r: "r \<le> 16" and "\<not> GET_PAGE_BIT vmm_example r"
    then have r4: "4 \<le> unat r" using vmm_example_used [of r] by (fastforce simp: word_less_nat_alt)
    have r16: "unat r \<le> 16" using r by (simp add: word_le_nat_alt)
    note page = vmm_example_page [OF r]
    show "(0x100000 + push_bit 12 r) mod 4096 = 0"
      unfolding aligned_unat page using r16 by presburger
    show "unat (0x100000 + push_bit 12 r) < 2 ^ 40" using page r16 by simp
    show "levels_example (0x100000 + push_bit 12 r) = None"
      using page by (auto simp: levels_example_def word_unat_eq_iff)
    fix x :: u64 assume "x \<le> 16"
    then show "apart (0x101000 + drop_bit 3 x) 1 (0x100000 + push_bit 12 r) 4096"
      using page r4 r16 by (intro apart_by_nat) (auto simp: vmm_example_byte word_le_nat_alt)
  qed
  moreover have "vm_tables (mem vmm_example) levels_example" "vm_tree (mem vmm_example) levels_example"
    using vmm_example_root by (auto simp: vm_tables_def vm_tree_def levels_example_def split: if_splits)
  ultimately show ?thesis
    by (simp add: vm_ok_def vmm_example_simps pmm_ok_def) (simp add: levels_example_def)
qed

lemma vmm_example_pages: "4 \<le> card (free_pages vmm_example)"
proof -
  have "{4, 5, 6, 7} \<subseteq> free_pages vmm_example"
    by (auto simp: free_pages_def vmm_example_simps vmm_example_free)
  then have "card {4, 5, 6, 7 :: u64} \<le> card (free_pages vmm_example)" by (intro card_mono) auto
  then show ?thesis by simp
qed

subsection \<open>Properties\<close>

lemma vmm_example_budget: "3 \<le> card (free_pages vmm_example)"
  using vmm_example_pages by simp

lemma ppn_aligned:
  assumes "take_bit 12 (q :: u64) = 0"
  shows "push_bit 12 (take_bit 28 (drop_bit 12 q)) = take_bit 40 q"
proof (rule bit_word_eqI)
  fix n assume "n < LENGTH(64)"
  have "\<not> bit q n" if "n < 12" using that assms by (metis bit_take_bit_iff bit_0_eq bot_apply bot_bool_def)
  then show "bit (push_bit 12 (take_bit 28 (drop_bit 12 q))) n = bit (take_bit 40 q) n"
    by (cases "n < 12") (auto simp: bit_simps)
qed

lemma page_mask_low: "take_bit 12 ((p :: u64) AND 0xfffffffffffff000) = 0"
proof -
  have "(unat p - unat p mod 4096) mod 4096 = 0" by (simp add: minus_mod_eq_mult_div)
  then have "(p - p mod 4096) mod 4096 = 0"
    by (simp only: word_unat_eq_iff unat_mod word_sub_mod_4096) simp
  then show ?thesis by (simp only: page_mask take_bit_eq_mod) simp
qed

lemma MmMapMemory_returns_walkable:
  "walkable s v \<Longrightarrow> \<exists>s'. MmMapMemory v p s = Some s'"
  by (simp add: MmMapMemory_def Let_def indices_page_mask descend_def walkable_def present_def
      walk3_def walk2_def follow_def)

lemma MmMapMemory_physical:
  assumes "vm_ok s L" and "MmMapMemory v p s = Some s'"
  shows "MmGetPhysicalAddress s' v = take_bit 40 (p AND 0xfffffffffffff000) OR (v AND 0xfff)"
proof -
  obtain e where "load64 (mem s') (pte_address s' v) = install_entry e (p AND 0xfffffffffffff000)"
    by (rule MmMapMemory_after [OF assms])
  then show ?thesis
    by (simp only: MmGetPhysicalAddress_def install_entry_ppn ppn_aligned [OF page_mask_low])
qed

text \<open>C4: after \<open>MmMapMemory\<close> the virtual page translates to the requested physical page (its low 40
  bits, which is what the 28-bit page number field holds) with the offset kept, the entry is
  present, and the page-table invariant still holds for at least the tables there were before.\<close>

theorem MmMapMemory_translates:
  assumes "vm_ok s L" and "MmMapMemory v p s = Some s'"
  shows "MmGetPhysicalAddress s' v = take_bit 40 (p AND 0xfffffffffffff000) OR (v AND 0xfff) \<and>
    mapped s' v \<and> (\<exists>L'. vm_ok s' L' \<and> L \<subseteq>\<^sub>m L')"
proof -
  obtain L' e where ok': "vm_ok s' L'" "L \<subseteq>\<^sub>m L'" and w: "walkable s' v"
    and e: "load64 (mem s') (pte_address s' v) = install_entry e (p AND 0xfffffffffffff000)"
    by (rule MmMapMemory_after [OF assms])
  have "MmGetPhysicalAddress s' v = take_bit 40 (p AND 0xfffffffffffff000) OR (v AND 0xfff)"
    by (rule MmMapMemory_physical [OF assms])
  moreover have "mapped s' v"
    using w e by (simp add: mapped_def present_def install_entry_present pte_address_walk)
  ultimately show ?thesis using ok' by blast
qed

theorem MmMapMemory_translates_witness:
  "\<exists>s'. MmMapMemory 0x100000000000 0x7000 vmm_example = Some s' \<and>
     MmGetPhysicalAddress s' 0x100000000000 = 0x7000 \<and> mapped s' 0x100000000000"
proof -
  obtain s' where s': "MmMapMemory 0x100000000000 0x7000 vmm_example = Some s'"
    using MmMapMemory_returns [OF vmm_example_ok vmm_example_budget] by blast
  from MmMapMemory_translates [OF vmm_example_ok s'] s' show ?thesis by simp
qed

text \<open>C8: mapping one page leaves the translation of every other mapped page alone.\<close>

theorem MmMapMemory_frame:
  assumes "vm_ok s L" and "MmMapMemory v p s = Some s'"
    and "mapped s w" and "MmGetPageIndices w \<noteq> MmGetPageIndices v"
  shows "MmGetPhysicalAddress s' w = MmGetPhysicalAddress s w \<and> mapped s' w"
proof -
  have "walkable s' w" and eq: "load64 (mem s') (pte_address s' w) = load64 (mem s) (pte_address s w)"
    by (rule MmMapMemory_after [OF assms(1,2)], use assms(3,4) in blast)+
  moreover have "present (mem s') (walk1 s' w) (pmi_p (MmGetPageIndices w))"
    using assms(3) eq by (simp add: mapped_def present_def pte_address_walk)
  ultimately show ?thesis by (simp add: MmGetPhysicalAddress_def mapped_def)
qed

lemma indices_example:
  "MmGetPageIndices 0x5000 = \<lparr>pmi_pdp = 0, pmi_pd = 0, pmi_pt = 0, pmi_p = 5\<rparr>"
  "MmGetPageIndices 0x6000 = \<lparr>pmi_pdp = 0, pmi_pd = 0, pmi_pt = 0, pmi_p = 6\<rparr>"
  by (simp_all add: MmGetPageIndices_def)

lemma mapped_walkable_neighbour:
  assumes "mapped s 0x5000"
  shows "walkable s 0x6000"
  using assms by (simp add: mapped_def walkable_def walk3_def walk2_def indices_example)

lemma MmMapMemory_mapped:
  assumes "vm_ok s L" and "MmMapMemory v p s = Some s'"
  shows "mapped s' v" and "\<exists>L'. vm_ok s' L' \<and> L \<subseteq>\<^sub>m L'"
proof -
  obtain L' e where "vm_ok s' L'" "L \<subseteq>\<^sub>m L'" and w: "walkable s' v"
    and e: "load64 (mem s') (pte_address s' v) = install_entry e (p AND 0xfffffffffffff000)"
    by (rule MmMapMemory_after [OF assms])
  then show "mapped s' v" "\<exists>L'. vm_ok s' L' \<and> L \<subseteq>\<^sub>m L'"
    by (auto simp: mapped_def present_def install_entry_present pte_address_walk)
qed

theorem MmMapMemory_frame_witness:
  "\<exists>s1 s2. MmMapMemory 0x5000 0x7000 vmm_example = Some s1 \<and> MmMapMemory 0x6000 0x8000 s1 = Some s2 \<and>
     MmGetPhysicalAddress s2 0x5000 = MmGetPhysicalAddress s1 0x5000 \<and> mapped s2 0x5000"
proof -
  obtain s1 where s1: "MmMapMemory 0x5000 0x7000 vmm_example = Some s1"
    using MmMapMemory_returns [OF vmm_example_ok vmm_example_budget] by blast
  note m1 = MmMapMemory_mapped [OF vmm_example_ok s1]
  then obtain L1 where ok1: "vm_ok s1 L1" by blast
  obtain s2 where s2: "MmMapMemory 0x6000 0x8000 s1 = Some s2"
    using MmMapMemory_returns_walkable [OF mapped_walkable_neighbour [OF m1(1)]] by blast
  have "MmGetPageIndices 0x5000 \<noteq> MmGetPageIndices 0x6000" by (simp add: indices_example)
  from MmMapMemory_frame [OF ok1 s2 m1(1) this] s1 s2 show ?thesis by blast
qed

text \<open>C11: \<open>MmMapMemory\<close> returns whenever three pages are free, which covers the three tables it may
  have to allocate.\<close>

theorem MmMapMemory_terminates:
  assumes "vm_ok s L" and "3 \<le> card (free_pages s)"
  shows "\<exists>s'. MmMapMemory v p s = Some s'"
  using assms by (rule MmMapMemory_returns)

theorem MmMapMemory_terminates_witness:
  "\<exists>s'. MmMapMemory 0xFEE00000 0xFEE00000 vmm_example = Some s'"
  by (rule MmMapMemory_terminates [OF vmm_example_ok vmm_example_budget])

text \<open>the four indices and the page offset determine the low 48 bits of a virtual address, so
  distinct canonical pages never share a page-table slot.\<close>

theorem MmGetPageIndices_reconstruct:
  "push_bit 39 (pmi_pdp (MmGetPageIndices a)) OR push_bit 30 (pmi_pd (MmGetPageIndices a)) OR
   push_bit 21 (pmi_pt (MmGetPageIndices a)) OR push_bit 12 (pmi_p (MmGetPageIndices a)) OR
   take_bit 12 a = take_bit 48 a"
proof -
  have nine: "x AND 0x1ff = take_bit 9 x" for x :: u64
    by (simp add: take_bit_eq_mask mask_eq_exp_minus_1)
  show ?thesis
  proof (rule bit_word_eqI)
    fix n assume "n < LENGTH(64)"
    consider "n < 12" | "12 \<le> n" "n < 21" | "21 \<le> n" "n < 30" | "30 \<le> n" "n < 39" | "39 \<le> n"
      by linarith
    then show "bit (push_bit 39 (pmi_pdp (MmGetPageIndices a)) OR push_bit 30 (pmi_pd (MmGetPageIndices a)) OR
        push_bit 21 (pmi_pt (MmGetPageIndices a)) OR push_bit 12 (pmi_p (MmGetPageIndices a)) OR
        take_bit 12 a) n = bit (take_bit 48 a) n"
      by cases (auto simp: MmGetPageIndices_def Let_def nine bit_simps)
  qed
qed

lemma permission_bit:
  assumes "k < 8"
  shows "ucast (push_bit k (take_bit 1 (ucast (drop_bit k (x AND push_bit k 1)) :: u64))) = (x :: u8) AND push_bit k 1"
  using assms by (intro bit_word_eqI) (auto simp: bit_simps simp flip: bit_0)

lemma permission_bits:
  "ucast (take_bit 1 (ucast (x AND 1) :: u64)) OR
   ucast (push_bit 1 (take_bit 1 (ucast (drop_bit 1 (x AND 2)) :: u64))) OR
   ucast (push_bit 2 (take_bit 1 (ucast (drop_bit 2 (x AND 4)) :: u64))) OR
   ucast (push_bit 3 (take_bit 1 (ucast (drop_bit 3 (x AND 8)) :: u64))) = (x :: u8) AND 0xF"
proof -
  have "x AND 1 OR x AND 2 OR x AND 4 OR x AND 8 = x AND 0xF"
    by (simp add: bit.conj_disj_distrib [symmetric])
  then show ?thesis
    using permission_bit [of 0 x] permission_bit [of 1 x] permission_bit [of 2 x] permission_bit [of 3 x]
    by simp
qed

lemma set_permissions_state:
  assumes "vm_ok s L" and "walkable s a"
  shows "pte_address (MmSetPagePermissions a perms s) a = pte_address s a"
  using leaf_walk(2) [OF assms(1,2,2)] by (simp add: MmSetPagePermissions_def Let_def)

text \<open>the four permission bits written by \<open>MmSetPagePermissions\<close> are the ones
  \<open>MmGetPagePermissions\<close> reads back, and the page's translation is untouched.\<close>

theorem page_permissions_roundtrip:
  assumes "vm_ok s L" and "walkable s a"
  shows "MmGetPagePermissions (MmSetPagePermissions a perms s) a = perms AND 0xF \<and>
    MmGetPhysicalAddress (MmSetPagePermissions a perms s) a = MmGetPhysicalAddress s a"
proof -
  let ?s = "MmSetPagePermissions a perms s"
  let ?pte = "bf_set 4 1 (ucast (drop_bit 3 (perms AND 8))) (bf_set 63 1 (ucast (drop_bit 2 (perms AND 4)))
     (bf_set 2 1 (ucast (drop_bit 1 (perms AND 2))) (bf_set 1 1 (ucast (perms AND 1))
       (load64 (mem s) (pte_address s a)))))"
  have pte: "load64 (mem ?s) (pte_address ?s a) = ?pte"
    unfolding set_permissions_state [OF assms]
    by (simp add: MmSetPagePermissions_def Let_def load_store_same)
  have "MmGetPagePermissions ?s a = perms AND 0xF"
    unfolding MmGetPagePermissions_def Let_def pte permission_bits [of perms, symmetric]
    by (simp add: e_writeable_def e_user_access_def e_execution_disabled_def e_cache_disabled_def
        bf_simps or.assoc)
  moreover have "e_page_ppn ?pte = e_page_ppn (load64 (mem s) (pte_address s a))"
    by (simp add: e_page_ppn_def bf_simps)
  ultimately show ?thesis by (simp add: MmGetPhysicalAddress_def pte)
qed

theorem page_permissions_roundtrip_witness:
  "\<exists>s. MmMapMemory 0x5000 0x7000 vmm_example = Some s \<and>
     MmGetPagePermissions (MmSetPagePermissions 0x5000 0x6 s) 0x5000 = 6 AND 0xF"
proof -
  obtain s1 where s1: "MmMapMemory 0x5000 0x7000 vmm_example = Some s1"
    using MmMapMemory_returns [OF vmm_example_ok vmm_example_budget] by blast
  note m1 = MmMapMemory_mapped [OF vmm_example_ok s1]
  then obtain L1 where ok1: "vm_ok s1 L1" by blast
  have "walkable s1 0x5000" using m1(1) by (simp add: mapped_def)
  from page_permissions_roundtrip [OF ok1 this, of 6] s1 show ?thesis by blast
qed


lemma MmGetIdentityPage_run:
  assumes ok: "vm_ok s L" and free: "4 \<le> card (free_pages s)"
  obtains pg s' where "MmGetIdentityPage s = Some (pg, s')" and "pg mod 4096 = 0" and "unat pg < 2 ^ 40"
    and "\<exists>s1 L. vm_ok s1 L \<and> MmMapMemory pg pg s1 = Some s'"
proof -
  have "free_pages s \<noteq> {}" using free by auto
  then obtain pg s1 where req: "MmRequestPage s = Some (pg, s1)" using MmRequestPage_returns [OF ok] by blast
  note r = MmRequestPage_vm_ok [OF ok req]
  have "3 \<le> card (free_pages s1)" using free_pages_takes_at_most_one [OF r(2)] free by simp
  then obtain s' where map: "MmMapMemory pg pg s1 = Some s'" using MmMapMemory_returns [OF r(1)] by blast
  have "MmGetIdentityPage s = Some (pg, s')" by (simp add: MmGetIdentityPage_def req map)
  from that [OF this r(3,4)] r(1) map show ?thesis by blast
qed

text \<open>with four free pages \<open>MmGetIdentityPage\<close> returns a page-aligned address that translates to
  itself, and the page-table invariant still holds.\<close>

theorem MmGetIdentityPage_identity:
  assumes "vm_ok s L" and "4 \<le> card (free_pages s)"
  shows "\<exists>pg s' L'. MmGetIdentityPage s = Some (pg, s') \<and> MmGetPhysicalAddress s' pg = pg \<and>
    pg mod 4096 = 0 \<and> mapped s' pg \<and> vm_ok s' L'"
proof -
  obtain pg s' where run: "MmGetIdentityPage s = Some (pg, s')" and pg: "pg mod 4096 = 0" "unat pg < 2 ^ 40"
    and "\<exists>s1 L. vm_ok s1 L \<and> MmMapMemory pg pg s1 = Some s'"
    by (rule MmGetIdentityPage_run [OF assms])
  then obtain s1 L1 where ok1: "vm_ok s1 L1" and map: "MmMapMemory pg pg s1 = Some s'" by blast
  have "pg AND 0xfff = 0" using pg(1) and_4095 [of pg] by simp
  then have "MmGetPhysicalAddress s' pg = pg"
    using MmMapMemory_physical [OF ok1 map] pg by (simp add: page_mask take_bit_small)
  moreover obtain L2 where "vm_ok s' L2" using MmMapMemory_mapped(2) [OF ok1 map] by blast
  ultimately show ?thesis
    using run pg(1) MmMapMemory_mapped(1) [OF ok1 map] by (intro exI conjI)
qed

theorem MmGetIdentityPage_identity_witness:
  "\<exists>pg s'. MmGetIdentityPage vmm_example = Some (pg, s') \<and> MmGetPhysicalAddress s' pg = pg"
  using MmGetIdentityPage_identity [OF vmm_example_ok vmm_example_pages] by blast

end
