(* ===== verification/OrderedArray.thy ===== *)
theory OrderedArray
  imports RtMemory "HOL-Library.Multiset"
begin

text \<open>
  The ordered array of \<open>kernel/lib/array.c\<close>: a vector of pointers in memory, kept in the order
  of a caller-supplied predicate.  The C loops are kept with their 32-bit counters.  The second
  half relates them to operations on the list of stored pointers.
\<close>

subsection \<open>State and operations\<close>

text \<open>
  The predicate is a function pointer called on two stored items; it may read memory, as
  \<open>HeaderPredicate\<close> does, and its \<open>int8_t\<close> result is used as a truth value.
\<close>

type_synonym ArrayCompare = "mem \<Rightarrow> addr \<Rightarrow> addr \<Rightarrow> bool"

record OrderedArray =
  arr_array :: addr
  arr_size :: u32
  arr_capacity :: u32
  arr_predicate :: ArrayCompare

definition PointerPredicate :: ArrayCompare where
  "PointerPredicate m a b \<longleftrightarrow> a < b"

text \<open>The address of \<open>array->array[index]\<close>.\<close>

definition slot :: "addr \<Rightarrow> u32 \<Rightarrow> addr" where
  "slot base index = base + 8 * ucast index"

definition ArrayCreate ::
    "mem \<Rightarrow> addr \<Rightarrow> u32 \<Rightarrow> ArrayCompare \<Rightarrow> OrderedArray \<times> mem" where
  "ArrayCreate m address capacity predicate =
     (\<lparr>arr_array = address, arr_size = 0, arr_capacity = capacity, arr_predicate = predicate\<rparr>,
      RtZeroMemory m address (ucast capacity * 8))"

text \<open>First loop of \<open>ArrayInsert\<close>: find the first position not ordered before the item.\<close>

function insert_scan :: "ArrayCompare \<Rightarrow> mem \<Rightarrow> addr \<Rightarrow> u32 \<Rightarrow> addr \<Rightarrow> u32 \<Rightarrow> u32" where
  "insert_scan p m base n item iterator =
     (if iterator < n \<and> p m (load64 m (slot base iterator)) item
      then insert_scan p m base n item (iterator + 1) else iterator)"
  by pat_completeness auto
termination
  by (relation "measure (\<lambda>(p, m, base, n, item, iterator). unat n - unat iterator)")
    (auto simp: loop_counter_decreases)

text \<open>Second loop of \<open>ArrayInsert\<close>: carry each displaced pointer one slot up.\<close>

function insert_shift :: "mem \<Rightarrow> addr \<Rightarrow> u32 \<Rightarrow> u32 \<Rightarrow> addr \<Rightarrow> mem" where
  "insert_shift m base n iterator tmp =
     (if iterator < n
      then let iterator' = iterator + 1; tmp2 = load64 m (slot base iterator')
           in insert_shift (store64 m (slot base iterator') tmp) base n iterator' tmp2
      else m)"
  by pat_completeness auto
termination
  by (relation "measure (\<lambda>(m, base, n, iterator, tmp). unat n - unat iterator)")
    (auto simp: loop_counter_decreases)

definition ArrayInsert :: "mem \<Rightarrow> OrderedArray \<Rightarrow> addr \<Rightarrow> OrderedArray \<times> mem" where
  "ArrayInsert m array item =
     (let base = arr_array array; n = arr_size array;
          iterator = insert_scan (arr_predicate array) m base n item 0
      in if iterator = n
         then (array\<lparr>arr_size := n + 1\<rparr>, store64 m (slot base n) item)
         else let tmp = load64 m (slot base iterator);
                  m1 = store64 m (slot base iterator) item
              in (array\<lparr>arr_size := n + 1\<rparr>, insert_shift m1 base n iterator tmp))"

definition ArrayGet :: "mem \<Rightarrow> OrderedArray \<Rightarrow> u32 \<Rightarrow> addr" where
  "ArrayGet m array index = load64 m (slot (arr_array array) index)"

function remove_shift :: "mem \<Rightarrow> addr \<Rightarrow> u32 \<Rightarrow> u32 \<Rightarrow> mem" where
  "remove_shift m base n index =
     (if index < n
      then remove_shift (store64 m (slot base index) (load64 m (slot base (index + 1))))
             base n (index + 1)
      else m)"
  by pat_completeness auto
termination
  by (relation "measure (\<lambda>(m, base, n, index). unat n - unat index)")
    (auto simp: loop_counter_decreases)

definition ArrayRemove :: "mem \<Rightarrow> OrderedArray \<Rightarrow> u32 \<Rightarrow> OrderedArray \<times> mem" where
  "ArrayRemove m array index =
     (array\<lparr>arr_size := arr_size array - 1\<rparr>,
      remove_shift m (arr_array array) (arr_size array) index)"

declare insert_scan.simps [simp del] insert_shift.simps [simp del] remove_shift.simps [simp del]

subsection \<open>The stored pointers as a list\<close>

definition cell :: "mem \<Rightarrow> addr \<Rightarrow> nat \<Rightarrow> addr" where
  "cell m base i = load64 m (base + of_nat (8 * i))"

definition contents :: "mem \<Rightarrow> OrderedArray \<Rightarrow> addr list" where
  "contents m array = map (cell m (arr_array array)) [0..<unat (arr_size array)]"

lemma length_contents [simp]: "length (contents m a) = unat (arr_size a)"
  by (simp add: contents_def)

lemma nth_contents [simp]: "i < unat (arr_size a) \<Longrightarrow> contents m a ! i = cell m (arr_array a) i"
  by (simp add: contents_def)

lemma slot_unat: "slot base i = base + of_nat (8 * unat i)"
proof -
  have "(ucast i :: u64) = of_nat (unat i)"
    by (simp add: unat_ucast_up [symmetric])
  then show ?thesis by (simp add: slot_def)
qed

lemma load64_slot: "load64 m (slot base i) = cell m base (unat i)"
  by (simp add: cell_def slot_unat)

lemma ArrayGet_contents:
  "unat i < unat (arr_size a) \<Longrightarrow> ArrayGet m a i = contents m a ! unat i"
  by (simp add: ArrayGet_def load64_slot)

lemma cells_apart:
  assumes "i \<noteq> j" and "i \<le> 2 ^ 32" and "j \<le> 2 ^ 32"
  shows "apart (base + of_nat (8 * i)) 8 (base + of_nat (8 * j)) 8"
  unfolding apart_def
proof (intro allI impI)
  fix p q :: nat assume pq: "p < 8" "q < 8"
  have "8 * i + p \<noteq> 8 * j + q" using assms(1) pq by presburger
  moreover have "8 * i + p < 2 ^ 64" and "8 * j + q < 2 ^ 64" using assms pq by auto
  ultimately have "(of_nat (8 * i + p) :: u64) \<noteq> of_nat (8 * j + q)"
    using of_nat_u64_inject by blast
  moreover have "base + of_nat (8 * i) + of_nat p = base + of_nat (8 * i + p)"
    and "base + of_nat (8 * j) + of_nat q = base + of_nat (8 * j + q)"
    by (simp_all only: of_nat_add add.assoc)
  ultimately show "base + of_nat (8 * i) + of_nat p \<noteq> base + of_nat (8 * j) + of_nat q"
    by (simp only: add_left_cancel simp_thms)
qed

lemma cell_store:
  "i \<le> 2 ^ 32 \<Longrightarrow> cell (store64 m (slot base j) v) base i = (if i = unat j then v else cell m base i)"
proof -
  assume "i \<le> 2 ^ 32"
  moreover have "unat j \<le> 2 ^ 32" using unat_u32_bound [of j] by simp
  ultimately have "apart (base + of_nat (8 * i)) 8 (base + of_nat (8 * unat j)) 8" if "i \<noteq> unat j"
    using that by (intro cells_apart)
  then show ?thesis
    unfolding cell_def slot_unat by (simp add: load_store_same load_store_apart)
qed

subsection \<open>What the loops compute\<close>

lemma cells_takeWhile:
  "length (takeWhile P (map (cell m base) ns)) = length (takeWhile (\<lambda>i. P (cell m base i)) ns)"
  by (simp add: takeWhile_map o_def)

lemma insert_scan_length:
  assumes "iterator \<le> n"
  shows "unat (insert_scan p m base n item iterator)
    = unat iterator + length (takeWhile (\<lambda>y. p m y item)
        (map (cell m base) [unat iterator..<unat n]))"
  unfolding cells_takeWhile using assms
  by (rule scan_takeWhile [rotated]) (subst insert_scan.simps, simp add: load64_slot)

lemma cell_insert_shift:
  assumes "iterator \<le> n" and "j \<le> 2 ^ 32" and "Suc (unat n) < 2 ^ 32"
  shows "cell (insert_shift m base n iterator tmp) base j =
    (if unat iterator < j \<and> j \<le> unat n
     then (if j = Suc (unat iterator) then tmp else cell m base (j - 1)) else cell m base j)"
  using assms
proof (induction m base n iterator tmp rule: insert_shift.induct)
  case (1 m base n i tmp)
  show ?case
  proof (cases "i < n")
    case True
    have le: "i + 1 \<le> n"
      using True by (simp add: word_le_nat_alt word_less_nat_alt unat_Suc_word)
    have lt: "unat i < unat n" using True by (simp add: word_less_nat_alt)
    show ?thesis
      using True lt "1.IH" [OF True refl refl le "1.prems"(2,3)] "1.prems"
      by (subst insert_shift.simps)
         (auto simp: Let_def cell_store load64_slot unat_Suc_word)
  next
    case False
    then show ?thesis
      by (subst insert_shift.simps) (auto simp: word_less_nat_alt)
  qed
qed

lemma cell_remove_shift:
  assumes "j < 2 ^ 32"
  shows "cell (remove_shift m base n index) base j =
    (if unat index \<le> j \<and> j < unat n then cell m base (Suc j) else cell m base j)"
  using assms
proof (induction m base n index rule: remove_shift.induct)
  case (1 m base n i)
  show ?case
  proof (cases "i < n")
    case True
    then have "unat i < unat n" by (simp add: word_less_nat_alt)
    with True "1.IH" [OF True "1.prems"] "1.prems" show ?thesis
      by (subst remove_shift.simps)
         (auto simp: cell_store load64_slot unat_Suc_word)
  next
    case False
    then show ?thesis by (subst remove_shift.simps) (auto simp: word_less_nat_alt)
  qed
qed

subsection \<open>Refinement to lists\<close>

text \<open>
  The abstract insertion puts the item before the first element that is not ordered before it;
  the abstract removal drops one position.
\<close>

definition insert_by :: "('a \<Rightarrow> 'a \<Rightarrow> bool) \<Rightarrow> 'a \<Rightarrow> 'a list \<Rightarrow> 'a list" where
  "insert_by p x xs = takeWhile (\<lambda>y. p y x) xs @ x # dropWhile (\<lambda>y. p y x) xs"

definition remove_at :: "nat \<Rightarrow> 'a list \<Rightarrow> 'a list" where
  "remove_at i xs = take i xs @ drop (Suc i) xs"

lemma insert_by_simps [simp]:
  "insert_by p x [] = [x]"
  "insert_by p x (y # ys) = (if p y x then y # insert_by p x ys else x # y # ys)"
  by (simp_all add: insert_by_def)

lemma set_insert_by [simp]: "set (insert_by p x xs) = insert x (set xs)"
  by (induction xs) auto

lemma length_insert_by [simp]: "length (insert_by p x xs) = Suc (length xs)"
  by (induction xs) auto

lemma distinct_insert_by [simp]: "distinct (insert_by p x xs) \<longleftrightarrow> x \<notin> set xs \<and> distinct xs"
  by (induction xs) auto

lemma sorted_wrt_insert_by:
  "sorted_wrt (\<lambda>a b. f a \<le> f b) xs \<Longrightarrow>
   sorted_wrt (\<lambda>a b. f a \<le> f b) (insert_by (\<lambda>a b. f a < (f b :: 'b::linorder)) x xs)"
  by (induction xs) (auto simp: not_less intro: order_trans)

lemma ArrayInsert_contents:
  assumes "Suc (unat (arr_size a)) < 2 ^ 32" and "ArrayInsert m a x = (a', m')"
  shows "contents m' a' = insert_by (arr_predicate a m) x (contents m a)"
proof -
  define base n where "base = arr_array a" and "n = arr_size a"
  define it where "it = insert_scan (arr_predicate a) m base n x 0"
  let ?p = "\<lambda>y. arr_predicate a m y x" and ?xs = "contents m a"
  define t where "t = unat it"
  have xs: "?xs = map (cell m base) [0..<unat n]"
    by (simp add: contents_def base_def n_def)
  have t: "t = length (takeWhile ?p ?xs)"
    unfolding t_def it_def xs by (subst insert_scan_length) auto
  have tle: "t \<le> unat n"
    unfolding t using length_takeWhile_le [of ?p ?xs] by (simp add: n_def)
  have Sn: "unat (n + 1) = Suc (unat n)"
    using assms(1) unfolding n_def by (simp add: unat_arith_simps)
  have a': "arr_size a' = n + 1" "arr_array a' = base"
    using assms(2) by (auto simp: ArrayInsert_def Let_def base_def n_def split: if_splits)
  have cells: "cell m' base j = (if j = t then x else if t < j then cell m base (j - 1) else cell m base j)"
    if "j \<le> unat n" for j
  proof (cases "it = n")
    case True
    then have "m' = store64 m (slot base n) x" and "t = unat n"
      using assms(2) by (auto simp: ArrayInsert_def Let_def base_def n_def it_def t_def)
    then show ?thesis using that assms(1) by (auto simp: cell_store n_def)
  next
    case False
    then have m': "m' = insert_shift (store64 m (slot base it) x) base n it (load64 m (slot base it))"
      using assms(2) by (auto simp: ArrayInsert_def Let_def base_def n_def it_def)
    have "it \<le> n" using tle by (simp add: word_le_nat_alt t_def)
    then show ?thesis
      unfolding m' using that assms(1)
      by (subst cell_insert_shift) (auto simp: n_def cell_store load64_slot t_def)
  qed
  have take: "takeWhile ?p ?xs = take t ?xs"
    unfolding t by (rule takeWhile_eq_take)
  have drop: "dropWhile ?p ?xs = drop t ?xs"
    unfolding t by (rule dropWhile_eq_drop)
  show ?thesis
  proof (rule nth_equalityI)
    show "length (contents m' a') = length (insert_by (arr_predicate a m) x ?xs)"
      using Sn by (simp add: a' n_def)
    fix j assume "j < length (contents m' a')"
    then have j: "j \<le> unat n" by (simp add: a' Sn)
    then have "contents m' a' ! j = cell m' base j"
      by (simp add: a' Sn)
    also have "\<dots> = insert_by (arr_predicate a m) x ?xs ! j"
    proof (cases "t < j")
      case True
      then obtain k where "j = Suc (t + k)" using less_iff_Suc_add by blast
      then show ?thesis
        using j tle unfolding insert_by_def take drop
        by (simp add: cells nth_append xs min_def)
    next
      case False
      then show ?thesis
        using j tle unfolding insert_by_def take drop
        by (auto simp: cells nth_append xs min_def)
    qed
    finally show "contents m' a' ! j = insert_by (arr_predicate a m) x ?xs ! j" .
  qed
qed

lemma ArrayRemove_contents:
  assumes "unat i < unat (arr_size a)" and "ArrayRemove m a i = (a', m')"
  shows "contents m' a' = remove_at (unat i) (contents m a)"
proof -
  let ?n = "arr_size a"
  have a': "arr_size a' = ?n - 1" "arr_array a' = arr_array a"
    and m': "m' = remove_shift m (arr_array a) ?n i"
    using assms(2) by (auto simp: ArrayRemove_def)
  have n1: "unat (?n - 1) = unat ?n - 1"
    using assms(1) by (simp add: unat_arith_simps)
  show ?thesis
  proof (rule nth_equalityI)
    show "length (contents m' a') = length (remove_at (unat i) (contents m a))"
      using assms(1) by (simp add: a' n1 remove_at_def)
    fix j assume "j < length (contents m' a')"
    then have j: "j < unat ?n - 1" by (simp add: a' n1)
    then have "j < 2 ^ 32" using unat_u32_bound [of ?n] by simp
    with j assms(1) show "contents m' a' ! j = remove_at (unat i) (contents m a) ! j"
      by (auto simp: a' n1 m' cell_remove_shift remove_at_def nth_append)
  qed
qed

text \<open>
  \<open>ArrayRemove\<close> does not check its index: past the end nothing moves, yet the size still
  drops, so the last element is lost.
\<close>

lemma ArrayRemove_past_end:
  assumes "unat (arr_size a) \<le> unat i" and "arr_size a \<noteq> 0" and "ArrayRemove m a i = (a', m')"
  shows "contents m' a' = butlast (contents m a)"
proof -
  have "remove_shift m (arr_array a) (arr_size a) i = m"
    using assms(1) by (subst remove_shift.simps) (simp add: word_less_nat_alt)
  moreover have "unat (arr_size a - 1) = unat (arr_size a) - 1"
    using assms(2) by (simp add: unat_minus_one)
  ultimately show ?thesis
    using assms(3)
    by (auto simp: ArrayRemove_def contents_def butlast_conv_take take_map)
qed

subsection \<open>What the operations leave alone\<close>

text \<open>\<open>array_zone\<close>: the addresses of the first \<open>n\<close> slots.\<close>

abbreviation array_zone :: "addr \<Rightarrow> nat \<Rightarrow> nat set" where
  "array_zone base n \<equiv> zone base (8 * n)"

lemma slot_store_changes:
  assumes "unat i < n" and "unat base + 8 * n < 2 ^ 64"
  shows "changes_only (array_zone base n) m (store64 m (slot base i) v)"
proof -
  have "unat (slot base i) = unat base + 8 * unat i"
    unfolding slot_unat using assms by (intro unat_add_of_nat) simp
  with assms show ?thesis by (intro changes_only_store) auto
qed

lemma insert_shift_changes:
  assumes "unat n < k" and "unat base + 8 * k < 2 ^ 64"
  shows "changes_only (array_zone base k) m (insert_shift m base n iterator tmp)"
  using assms
proof (induction m base n iterator tmp rule: insert_shift.induct)
  case (1 m base n i tmp)
  show ?case
  proof (cases "i < n")
    case True
    then have "unat (i + 1) < k"
      using "1.prems" by (simp add: unat_Suc_word word_less_nat_alt)
    from changes_only_trans [OF slot_store_changes [OF this "1.prems"(2)] "1.IH" [OF True refl refl "1.prems"]]
    show ?thesis using True by (subst insert_shift.simps) (simp add: Let_def)
  qed (subst insert_shift.simps, simp)
qed

lemma remove_shift_changes:
  assumes "unat n \<le> k" and "unat base + 8 * k < 2 ^ 64"
  shows "changes_only (array_zone base k) m (remove_shift m base n i)"
  using assms
proof (induction m base n i rule: remove_shift.induct)
  case (1 m base n i)
  show ?case
  proof (cases "i < n")
    case True
    then have "unat i < k" using "1.prems" by (simp add: word_less_nat_alt)
    from changes_only_trans [OF slot_store_changes [OF this "1.prems"(2)] "1.IH" [OF True "1.prems"]]
    show ?thesis using True by (subst remove_shift.simps) simp
  qed (subst remove_shift.simps, simp)
qed

lemma ArrayInsert_changes:
  assumes "ArrayInsert m a x = (a', m')" and "unat (arr_size a) < k" and "unat (arr_array a) + 8 * k < 2 ^ 64"
  shows "changes_only (array_zone (arr_array a) k) m m'"
proof -
  let ?n = "arr_size a" and ?base = "arr_array a"
  define it where "it = insert_scan (arr_predicate a) m ?base ?n x 0"
  have "unat it \<le> unat ?n"
    unfolding it_def
    using length_takeWhile_le [of "\<lambda>y. arr_predicate a m y x" "map (cell m ?base) [0..<unat ?n]"]
    by (subst insert_scan_length) auto
  then have "unat it < k" using assms(2) by simp
  from changes_only_trans [OF slot_store_changes [OF this assms(3)] insert_shift_changes [OF assms(2,3)]]
  show ?thesis
    using assms slot_store_changes [OF assms(2,3)]
    by (auto simp: ArrayInsert_def Let_def it_def split: if_splits)
qed

lemma ArrayRemove_changes:
  assumes "ArrayRemove m a i = (a', m')" and "unat (arr_size a) \<le> k" and "unat (arr_array a) + 8 * k < 2 ^ 64"
  shows "changes_only (array_zone (arr_array a) k) m m'"
  using assms remove_shift_changes [OF assms(2,3)] by (auto simp: ArrayRemove_def)

lemma contents_changes_only:
  assumes "changes_only A m m'" and "array_zone (arr_array a) (unat (arr_size a)) \<inter> A = {}"
    and "unat (arr_array a) + 8 * unat (arr_size a) < 2 ^ 64"
  shows "contents m' a = contents m a"
  unfolding contents_def
proof (rule map_cong [OF refl])
  fix i assume i: "i \<in> set [0..<unat (arr_size a)]"
  then have "unat (arr_array a + of_nat (8 * i)) = unat (arr_array a) + 8 * i"
    using assms(3) by (intro unat_add_of_nat) simp
  then have z: "zone (arr_array a + of_nat (8 * i)) 8 \<subseteq> array_zone (arr_array a) (unat (arr_size a))"
    using i by auto
  then have "zone (arr_array a + of_nat (8 * i)) 8 \<inter> A = {}" using assms(2) by blast
  then show "cell m' (arr_array a) i = cell m (arr_array a) i"
    using z i assms(3) \<open>unat (arr_array a + of_nat (8 * i)) = _\<close>
    unfolding cell_def by (intro load_changes_only(3) [OF assms(1), where n = 8]) auto
qed

lemma ArrayInsert_fields:
  "ArrayInsert m a x = (a', m') \<Longrightarrow> arr_array a' = arr_array a \<and> arr_predicate a' = arr_predicate a \<and>
     arr_capacity a' = arr_capacity a \<and> arr_size a' = arr_size a + 1"
  by (auto simp: ArrayInsert_def Let_def split: if_splits)

lemma ArrayRemove_fields:
  "ArrayRemove m a i = (a', m') \<Longrightarrow> arr_array a' = arr_array a \<and> arr_predicate a' = arr_predicate a \<and>
     arr_capacity a' = arr_capacity a \<and> arr_size a' = arr_size a - 1"
  by (auto simp: ArrayRemove_def)

subsection \<open>Properties\<close>

lemma mset_insert_by: "mset (insert_by p x xs) = add_mset x (mset xs)"
  by (induction xs) auto

text \<open>C9: on an array ordered by a key, \<open>ArrayInsert\<close> with the key's strict order adds exactly the item
  and keeps the array ordered.\<close>

theorem ArrayInsert_keeps_order:
  fixes key :: "addr \<Rightarrow> 'k :: linorder"
  assumes "Suc (unat (arr_size a)) < 2 ^ 32"
    and "arr_predicate a m = (\<lambda>x y. key x < key y)"
    and "sorted_wrt (\<lambda>x y. key x \<le> key y) (contents m a)"
    and "ArrayInsert m a item = (a', m')"
  shows "sorted_wrt (\<lambda>x y. key x \<le> key y) (contents m' a') \<and>
    mset (contents m' a') = add_mset item (mset (contents m a)) \<and>
    unat (arr_size a') = Suc (unat (arr_size a))"
proof -
  have c: "contents m' a' = insert_by (\<lambda>x y. key x < key y) item (contents m a)"
    using ArrayInsert_contents [OF assms(1,4)] assms(2) by simp
  then have "unat (arr_size a') = Suc (unat (arr_size a))"
    by (metis length_contents length_insert_by)
  with c show ?thesis
    by (simp add: mset_insert_by sorted_wrt_insert_by [OF assms(3)])
qed

theorem ArrayInsert_keeps_order_witness:
  "\<exists>a m a' m'. arr_predicate a m = PointerPredicate m \<and> ArrayInsert m a 0x30 = (a', m') \<and>
     mset (contents m' a') = {#0x30#} \<and> sorted (contents m' a')"
proof -
  define m :: mem where "m = (\<lambda>_. 0)"
  define a where "a = fst (ArrayCreate m 0x1000 16 PointerPredicate)"
  obtain a' m' where ins: "ArrayInsert m a 0x30 = (a', m')" by (cases "ArrayInsert m a 0x30")
  have a: "arr_size a = 0" "arr_predicate a = PointerPredicate"
    by (simp_all add: a_def ArrayCreate_def)
  have "Suc (unat (arr_size a)) < 2 ^ 32" and "arr_predicate a m = (\<lambda>x y. id x < id y)"
    and "sorted_wrt (\<lambda>x y. id x \<le> id y) (contents m a)"
    by (auto simp: a PointerPredicate_def contents_def fun_eq_iff)
  note sorted = ArrayInsert_keeps_order [OF this ins]
  have "contents m a = []" by (simp add: contents_def a)
  with sorted have "mset (contents m' a') = {#0x30#}" and "sorted (contents m' a')" by simp_all
  moreover have "arr_predicate a m = PointerPredicate m" by (simp add: a)
  ultimately show ?thesis using ins by blast
qed

text \<open>\<open>ArrayRemove\<close> removes the element at its index and keeps the order of the others; with an
  index past the end, which it does not refuse, it drops the last element instead.\<close>

theorem ArrayRemove_refines:
  assumes "arr_size a \<noteq> 0" and "ArrayRemove m a i = (a', m')"
  shows "contents m' a' =
    (if i < arr_size a then remove_at (unat i) (contents m a) else butlast (contents m a))"
  using assms ArrayRemove_contents [of i a m a' m'] ArrayRemove_past_end [of a i m a' m']
  by (auto simp: word_less_nat_alt)

theorem ArrayRemove_refines_witness:
  "\<exists>a m a' m'. ArrayRemove m a 9 = (a', m') \<and> contents m a = [0x30] \<and> contents m' a' = []"
proof -
  define a where "a = \<lparr>arr_array = 0x1000, arr_size = 1, arr_capacity = 16, arr_predicate = PointerPredicate\<rparr>"
  define m where "m = store64 (\<lambda>_. 0) 0x1000 0x30"
  obtain a' m' where rm: "ArrayRemove m a 9 = (a', m')" by (cases "ArrayRemove m a 9")
  have "contents m a = [0x30]"
    by (simp add: contents_def a_def m_def cell_def load_store_same)
  moreover have "arr_size a \<noteq> 0" by (simp add: a_def)
  from ArrayRemove_refines [OF this rm] have "contents m' a' = butlast (contents m a)"
    by (simp add: a_def)
  ultimately show ?thesis using rm by fastforce
qed

end
