(* ===== verification/Heap.thy ===== *)
theory Heap
  imports Vmm OrderedArray
begin

text \<open>
  The kernel heap of \<open>kernel/mem/heap.c\<close>: blocks with a header and a footer in memory, and an
  ordered array of the holes.  The heap lives at virtual addresses that no other code uses; the
  model keeps them in the same flat memory, under the address the code uses.
\<close>

subsection \<open>State and block fields\<close>

definition HEAP_ADDR :: u64 where "HEAP_ADDR = 0x0000100000000000"
definition HEAP_SIZE :: u64 where "HEAP_SIZE = PAGE_SIZE * 65536"
definition HEAP_MIN_SIZE :: u64 where "HEAP_MIN_SIZE = 0x70000"
definition HEAP_INDEX_SIZE :: u32 where "HEAP_INDEX_SIZE = 0x20000"
definition HEAP_MAGIC :: u32 where "HEAP_MAGIC = 0x123890AB"

text \<open>
  \<open>HeapHeader\<close> is \<open>magic\<close> at 0, \<open>is_hole\<close> at 4 and \<open>size\<close> at 8; \<open>HeapFooter\<close> is \<open>magic\<close> at 0
  and \<open>header\<close> at 8.  Both take 16 bytes.
\<close>

definition sizeof_HeapHeader :: u64 where "sizeof_HeapHeader = 16"
definition sizeof_HeapFooter :: u64 where "sizeof_HeapFooter = 16"
definition sizeof_Heap :: u64 where "sizeof_Heap = 56"

definition hdr_magic :: "mem \<Rightarrow> addr \<Rightarrow> u32" where "hdr_magic m h = load32 m h"
definition hdr_is_hole :: "mem \<Rightarrow> addr \<Rightarrow> u8" where "hdr_is_hole m h = load8 m (h + 4)"
definition hdr_size :: "mem \<Rightarrow> addr \<Rightarrow> u64" where "hdr_size m h = load64 m (h + 8)"
definition ftr_magic :: "mem \<Rightarrow> addr \<Rightarrow> u32" where "ftr_magic m f = load32 m f"
definition ftr_header :: "mem \<Rightarrow> addr \<Rightarrow> addr" where "ftr_header m f = load64 m (f + 8)"

definition set_hdr_magic :: "addr \<Rightarrow> u32 \<Rightarrow> mem \<Rightarrow> mem" where "set_hdr_magic h v m = store32 m h v"
definition set_hdr_is_hole :: "addr \<Rightarrow> u8 \<Rightarrow> mem \<Rightarrow> mem" where "set_hdr_is_hole h v m = store8 m (h + 4) v"
definition set_hdr_size :: "addr \<Rightarrow> u64 \<Rightarrow> mem \<Rightarrow> mem" where "set_hdr_size h v m = store64 m (h + 8) v"
definition set_ftr_magic :: "addr \<Rightarrow> u32 \<Rightarrow> mem \<Rightarrow> mem" where "set_ftr_magic f v m = store32 m f v"
definition set_ftr_header :: "addr \<Rightarrow> addr \<Rightarrow> mem \<Rightarrow> mem" where "set_ftr_header f v m = store64 m (f + 8) v"

record Heap =
  hp_index :: OrderedArray
  start_address :: u64
  end_address :: u64
  max_address :: u64
  supervisor :: u8
  readonly :: u8

text \<open>The virtual memory state and the \<open>kHeap\<close> structure.\<close>

record heap_state = vmm +
  kHeap :: Heap

subsection \<open>Growing and shrinking\<close>

partial_function (option) expand_loop ::
    "u64 \<Rightarrow> u64 \<Rightarrow> u64 \<Rightarrow> 'a vmm_scheme \<Rightarrow> 'a vmm_scheme option" where
  "expand_loop start sz offset s =
     (if offset < sz
      then do {
        (page, s1) \<leftarrow> MmRequestPage s;
        s2 \<leftarrow> MmMapMemory (start + offset) page s1;
        expand_loop start sz (offset + PAGE_SIZE) s2 }
      else Some s)"

definition HeapExpand :: "Heap \<Rightarrow> u64 \<Rightarrow> 'a vmm_scheme \<Rightarrow> (Heap \<times> 'a vmm_scheme) option" where
  "HeapExpand heap sz s = do {
     let sz = (if sz AND 0xFFFFF000 \<noteq> 0 then (sz AND 0xFFFFF000) + 0x1000 else sz);
     let old_size = end_address heap - start_address heap;
     s1 \<leftarrow> expand_loop (start_address heap) sz old_size s;
     Some (heap\<lparr>end_address := start_address heap + sz\<rparr>, s1) }"

text \<open>The loop of \<open>HeapContract\<close>, whose body frees no frame (the call is commented out).\<close>

partial_function (option) contract_loop :: "u64 \<Rightarrow> u64 \<Rightarrow> u64 option" where
  "contract_loop sz offset = (if sz < offset then contract_loop sz (offset - 0x1000) else Some offset)"

definition HeapContract :: "Heap \<Rightarrow> u64 \<Rightarrow> (u64 \<times> Heap) option" where
  "HeapContract heap sz = do {
     let sz = (if sz AND 0x1000 \<noteq> 0 then (sz AND 0x1000) + 0x1000 else sz);
     let sz = (if sz < HEAP_MIN_SIZE then HEAP_MIN_SIZE else sz);
     let old_size = end_address heap - start_address heap;
     _ \<leftarrow> contract_loop sz (old_size - 0x1000);
     Some (sz, heap\<lparr>end_address := start_address heap + sz\<rparr>) }"

subsection \<open>Finding a hole\<close>

text \<open>Whether the hole \<open>header\<close> ends the search of \<open>HeapFindSmallestHole\<close>.\<close>

definition hole_fits :: "mem \<Rightarrow> u64 \<Rightarrow> u8 \<Rightarrow> addr \<Rightarrow> bool" where
  "hole_fits m sz page_align header =
     (if 0 < sint page_align
      then (let location = header;
                offset = (if (location + sizeof_HeapHeader) AND 0xFFFFF000 \<noteq> 0
                          then PAGE_SIZE - (location + sizeof_HeapHeader) mod PAGE_SIZE else 0);
                hole_size = hdr_size m header - offset
            in sint sz \<le> sint hole_size)
      else sz \<le> hdr_size m header)"

function find_hole :: "mem \<Rightarrow> OrderedArray \<Rightarrow> u64 \<Rightarrow> u8 \<Rightarrow> u64 \<Rightarrow> u64" where
  "find_hole m index sz page_align iterator =
     (if iterator < ucast (arr_size index) \<and>
         \<not> hole_fits m sz page_align (ArrayGet m index (ucast iterator))
      then find_hole m index sz page_align (iterator + 1) else iterator)"
  by pat_completeness auto
termination
  by (relation "measure (\<lambda>(m, index, sz, page_align, iterator).
        unat (ucast (arr_size index) :: u64) - unat iterator)")
    (auto simp: loop_counter_decreases)

definition HeapFindSmallestHole :: "mem \<Rightarrow> Heap \<Rightarrow> u64 \<Rightarrow> u8 \<Rightarrow> int" where
  "HeapFindSmallestHole m heap sz page_align =
     (let iterator = find_hole m (hp_index heap) sz page_align 0
      in if iterator = ucast (arr_size (hp_index heap)) then -1 else uint iterator)"

definition HeaderPredicate :: ArrayCompare where
  "HeaderPredicate m a b \<longleftrightarrow> hdr_size m a < hdr_size m b"

subsection \<open>Creation\<close>

definition write_hole :: "addr \<Rightarrow> u64 \<Rightarrow> mem \<Rightarrow> mem" where
  "write_hole hole sz m =
     set_hdr_is_hole hole 1 (set_hdr_magic hole HEAP_MAGIC (set_hdr_size hole sz m))"

text \<open>The \<open>Heap\<close> structure is kept as a record; its page is allocated and cleared.\<close>

definition HeapCreate ::
    "u64 \<Rightarrow> u64 \<Rightarrow> u64 \<Rightarrow> u8 \<Rightarrow> u8 \<Rightarrow> 'a vmm_scheme \<Rightarrow> (Heap \<times> 'a vmm_scheme) option" where
  "HeapCreate start end max_addr supervisor_flag readonly_flag s = do {
     (heap_page, s) \<leftarrow> MmGetIdentityPage s;
     let m0 = RtZeroMemory (mem s) heap_page sizeof_Heap;
     let (index, m1) = ArrayCreate m0 start HEAP_INDEX_SIZE HeaderPredicate;
     let start = start + 8 * ucast HEAP_INDEX_SIZE;
     let start = (if start AND 0xFFFFFFFFFFFFF000 \<noteq> 0
                  then (start AND 0xFFFFFFFFFFFFF000) + 0x1000 else start);
     let m2 = write_hole start (end - start) m1;
     let (index, m3) = ArrayInsert m2 index start;
     Some (\<lparr>hp_index = index, start_address = start, end_address = end, max_address = max_addr,
            supervisor = supervisor_flag, readonly = readonly_flag\<rparr>, s\<lparr>mem := m3\<rparr>) }"

subsection \<open>Allocation\<close>

text \<open>The search for the index entry with the greatest address; \<open>idx\<close> is \<open>-1\<close> on an empty index.\<close>

function highest_hole :: "mem \<Rightarrow> OrderedArray \<Rightarrow> u64 \<Rightarrow> int \<Rightarrow> u64 \<Rightarrow> int" where
  "highest_hole m index iterator idx value =
     (if iterator < ucast (arr_size index)
      then let tmp = ArrayGet m index (ucast iterator)
           in if value < tmp then highest_hole m index (iterator + 1) (uint iterator) tmp
              else highest_hole m index (iterator + 1) idx value
      else idx)"
  by pat_completeness auto
termination
  by (relation "measure (\<lambda>(m, index, iterator, idx, value).
        unat (ucast (arr_size index) :: u64) - unat iterator)")
    (auto simp: loop_counter_decreases)

text \<open>The branch of \<open>HeapAllocate\<close> without a fitting hole, up to the recursive call.\<close>

definition alloc_grow :: "u64 \<Rightarrow> Heap \<Rightarrow> 'a vmm_scheme \<Rightarrow> (Heap \<times> 'a vmm_scheme) option" where
  "alloc_grow new_size heap s = do {
     let old_length = end_address heap - start_address heap;
     let old_end_address = end_address heap;
     (heap, s) \<leftarrow> HeapExpand heap (old_length + new_size) s;
     let new_length = end_address heap - start_address heap;
     let idx = highest_hole (mem s) (hp_index heap) 0 (-1) 0;
     if idx = -1
     then do {
       let header = old_end_address;
       let m = set_hdr_is_hole header 1
                 (set_hdr_size header (new_length - old_length)
                   (set_hdr_magic header HEAP_MAGIC (mem s)));
       let footer = old_end_address + hdr_size m header - sizeof_HeapFooter;
       let m = set_ftr_header footer header (set_ftr_magic footer HEAP_MAGIC m);
       let (index, m) = ArrayInsert m (hp_index heap) header;
       Some (heap\<lparr>hp_index := index\<rparr>, s\<lparr>mem := m\<rparr>) }
     else do {
       let header = ArrayGet (mem s) (hp_index heap) (of_int idx);
       let m = set_hdr_size header (hdr_size (mem s) header + (new_length - old_length)) (mem s);
       let footer = header + hdr_size m header - sizeof_HeapFooter;
       let m = set_ftr_magic footer HEAP_MAGIC (set_ftr_header footer header m);
       Some (heap, s\<lparr>mem := m\<rparr>) } }"

text \<open>
  The rest of \<open>HeapAllocate\<close>, from the hole at position \<open>iterator\<close> of the index on: the size of
  the block, the optional page alignment, and writing the block and the remaining hole.
\<close>

definition alloc_fit :: "u64 \<Rightarrow> u64 \<Rightarrow> u64 \<times> u64" where
  "alloc_fit sz orig_hole_size =
     (let new_size = sz + sizeof_HeapHeader + sizeof_HeapFooter
      in if orig_hole_size - new_size < sizeof_HeapHeader + sizeof_HeapFooter
         then (sz + (orig_hole_size - new_size), orig_hole_size) else (sz, new_size))"

definition alloc_align ::
    "u8 \<Rightarrow> u32 \<Rightarrow> u64 \<Rightarrow> u64 \<Rightarrow> OrderedArray \<Rightarrow> mem \<Rightarrow> u64 \<times> u64 \<times> OrderedArray \<times> mem" where
  "alloc_align page_align iterator orig_hole_pos orig_hole_size index m =
     (if page_align \<noteq> 0 \<and> orig_hole_pos AND 0xFFFFF000 \<noteq> 0
      then let new_location = orig_hole_pos + PAGE_SIZE - (orig_hole_pos AND 0xFFF) - sizeof_HeapHeader;
               hole_header = orig_hole_pos;
               m = set_hdr_is_hole hole_header 1 (set_hdr_magic hole_header HEAP_MAGIC
                     (set_hdr_size hole_header
                       (PAGE_SIZE - (orig_hole_pos AND 0xFFF) - sizeof_HeapHeader) m));
               hole_footer = new_location - sizeof_HeapFooter;
               m = set_ftr_header hole_footer hole_header (set_ftr_magic hole_footer HEAP_MAGIC m)
           in (new_location, orig_hole_size - hdr_size m hole_header, index, m)
      else let (index, m) = ArrayRemove m index iterator
           in (orig_hole_pos, orig_hole_size, index, m))"

definition write_block :: "addr \<Rightarrow> u64 \<Rightarrow> u64 \<Rightarrow> mem \<Rightarrow> mem" where
  "write_block block_header sz new_size m =
     (let m = set_hdr_size block_header new_size (set_hdr_is_hole block_header 0
                (set_hdr_magic block_header HEAP_MAGIC m));
          block_footer = block_header + sizeof_HeapHeader + sz
      in set_ftr_header block_footer block_header (set_ftr_magic block_footer HEAP_MAGIC m))"

definition write_rest :: "addr \<Rightarrow> u64 \<Rightarrow> u64 \<Rightarrow> mem \<Rightarrow> mem" where
  "write_rest hole_header rest end_addr m =
     (let m = set_hdr_size hole_header rest (set_hdr_is_hole hole_header 1
                (set_hdr_magic hole_header HEAP_MAGIC m));
          hole_footer = hole_header + rest - sizeof_HeapFooter
      in if hole_footer < end_addr
         then set_ftr_header hole_footer hole_header (set_ftr_magic hole_footer HEAP_MAGIC m)
         else m)"

definition alloc_in_hole :: "u64 \<Rightarrow> u8 \<Rightarrow> u32 \<Rightarrow> Heap \<Rightarrow> mem \<Rightarrow> addr \<times> Heap \<times> mem" where
  "alloc_in_hole sz page_align iterator heap m =
     (let orig_hole_header = ArrayGet m (hp_index heap) iterator;
          orig_hole_size = hdr_size m orig_hole_header;
          (sz, new_size) = alloc_fit sz orig_hole_size;
          (pos, hole_size, index, m) =
            alloc_align page_align iterator orig_hole_header orig_hole_size (hp_index heap) m;
          m = write_block pos sz new_size m
      in if 0 < hole_size - new_size
         then let hole_header = pos + sizeof_HeapHeader + sz + sizeof_HeapFooter;
                  m = write_rest hole_header (hole_size - new_size) (end_address heap) m;
                  (index, m) = ArrayInsert m index hole_header
              in (pos + sizeof_HeapHeader, heap\<lparr>hp_index := index\<rparr>, m)
         else (pos + sizeof_HeapHeader, heap\<lparr>hp_index := index\<rparr>, m))"

partial_function (option) HeapAllocate ::
    "u64 \<Rightarrow> u8 \<Rightarrow> Heap \<Rightarrow> 'a vmm_scheme \<Rightarrow> (addr \<times> Heap \<times> 'a vmm_scheme) option" where
  "HeapAllocate sz page_align heap s =
     (let new_size = sz + sizeof_HeapHeader + sizeof_HeapFooter;
          iterator = HeapFindSmallestHole (mem s) heap new_size page_align
      in if iterator = -1
         then do {
           (heap1, s1) \<leftarrow> alloc_grow new_size heap s;
           HeapAllocate sz page_align heap1 s1 }
         else let (block, heap1, m) = alloc_in_hole sz page_align (of_int iterator) heap (mem s)
              in Some (block, heap1, s\<lparr>mem := m\<rparr>))"

subsection \<open>Freeing\<close>

text \<open>\<open>HeapFree\<close> in the order of its code: unify to the left, unify to the right, contract, add.\<close>

definition free_left :: "addr \<Rightarrow> addr \<Rightarrow> mem \<Rightarrow> addr \<times> bool \<times> mem" where
  "free_left header footer m =
     (let test_footer = header - sizeof_HeapFooter
      in if ftr_magic m test_footer = HEAP_MAGIC \<and> hdr_is_hole m (ftr_header m test_footer) = 1
         then let cache_size = hdr_size m header;
                  header = ftr_header m test_footer;
                  m = set_ftr_header footer header m;
                  m = set_hdr_size header (hdr_size m header + cache_size) m
              in (header, False, m)
         else (header, True, m))"

function index_of :: "mem \<Rightarrow> OrderedArray \<Rightarrow> addr \<Rightarrow> u64 \<Rightarrow> u64" where
  "index_of m index item iterator =
     (if iterator < ucast (arr_size index) \<and> ArrayGet m index (ucast iterator) \<noteq> item
      then index_of m index item (iterator + 1) else iterator)"
  by pat_completeness auto
termination
  by (relation "measure (\<lambda>(m, index, item, iterator).
        unat (ucast (arr_size index) :: u64) - unat iterator)")
    (auto simp: loop_counter_decreases)

definition free_right :: "addr \<Rightarrow> addr \<Rightarrow> OrderedArray \<Rightarrow> mem \<Rightarrow> addr \<times> OrderedArray \<times> mem" where
  "free_right header footer index m =
     (let test_header = footer + sizeof_HeapFooter
      in if hdr_magic m test_header = HEAP_MAGIC \<and> hdr_is_hole m test_header \<noteq> 0
         then let m = set_hdr_size header (hdr_size m header + hdr_size m test_header) m;
                  test_footer = test_header + hdr_size m test_header - sizeof_HeapFooter;
                  iterator = index_of m index test_header 0;
                  (index, m) = ArrayRemove m index (ucast iterator)
              in (test_footer, index, m)
         else (footer, index, m))"

definition free_contract :: "addr \<Rightarrow> addr \<Rightarrow> addr \<Rightarrow> Heap \<Rightarrow> mem \<Rightarrow> (Heap \<times> mem) option" where
  "free_contract header footer test_header heap m =
     (if footer + sizeof_HeapFooter = end_address heap
      then do {
        let old_length = end_address heap - start_address heap;
        (new_length, heap) \<leftarrow> HeapContract heap (header - start_address heap);
        if 0 < hdr_size m header - (old_length - new_length)
        then do {
          let m = set_hdr_size header (hdr_size m header - (old_length - new_length)) m;
          let footer = header + hdr_size m header - sizeof_HeapFooter;
          Some (heap, set_ftr_header footer header (set_ftr_magic footer HEAP_MAGIC m)) }
        else do {
          let iterator = index_of m (hp_index heap) test_header 0;
          if iterator < ucast (arr_size (hp_index heap))
          then do {
            let (index, m) = ArrayRemove m (hp_index heap) (ucast iterator);
            Some (heap\<lparr>hp_index := index\<rparr>, m) }
          else Some (heap, m) } }
      else Some (heap, m))"

definition free_end :: "addr \<Rightarrow> addr \<Rightarrow> addr \<Rightarrow> bool \<Rightarrow> Heap \<Rightarrow> mem \<Rightarrow> (Heap \<times> mem) option" where
  "free_end header footer test_header do_add heap m = do {
     (heap, m) \<leftarrow> free_contract header footer test_header heap m;
     if do_add
     then do {
       let (index, m) = ArrayInsert m (hp_index heap) header;
       Some (heap\<lparr>hp_index := index\<rparr>, m) }
     else Some (heap, m) }"

definition HeapFree :: "addr \<Rightarrow> Heap \<Rightarrow> mem \<Rightarrow> (Heap \<times> mem) option" where
  "HeapFree address heap m =
     (if address = 0 then Some (heap, m)
      else do {
        let header = address - sizeof_HeapHeader;
        let footer = header + hdr_size m header - sizeof_HeapFooter;
        let m = set_hdr_is_hole header 1 m;
        let (header, do_add, m) = free_left header footer m;
        let test_header = footer + sizeof_HeapFooter;
        let (footer, index, m) = free_right header footer (hp_index heap) m;
        free_end header footer test_header do_add (heap\<lparr>hp_index := index\<rparr>) m })"

subsection \<open>The kernel's heap\<close>

partial_function (option) map_heap_pages :: "u64 \<Rightarrow> 'a vmm_scheme \<Rightarrow> 'a vmm_scheme option" where
  "map_heap_pages offset s =
     (if offset < HEAP_SIZE
      then do {
        (page, s1) \<leftarrow> MmRequestPage s;
        s2 \<leftarrow> MmMapMemory (HEAP_ADDR + offset) page s1;
        map_heap_pages (offset + PAGE_SIZE) s2 }
      else Some s)"

definition MmInitializeHeap :: "'a heap_state_scheme \<Rightarrow> 'a heap_state_scheme option" where
  "MmInitializeHeap s = do {
     s \<leftarrow> map_heap_pages 0 s;
     (heap, s) \<leftarrow> HeapCreate HEAP_ADDR (HEAP_ADDR + HEAP_SIZE) (HEAP_ADDR + 0x40000000) 0 0 s;
     Some (s\<lparr>kHeap := heap\<rparr>) }"

definition kmalloc :: "u32 \<Rightarrow> 'a heap_state_scheme \<Rightarrow> (addr \<times> 'a heap_state_scheme) option" where
  "kmalloc sz s = do {
     (block, heap, s) \<leftarrow> HeapAllocate (ucast sz) 0 (kHeap s) s;
     Some (block, s\<lparr>kHeap := heap\<rparr>) }"

definition kfree :: "addr \<Rightarrow> 'a heap_state_scheme \<Rightarrow> 'a heap_state_scheme option" where
  "kfree address s = do {
     (heap, m) \<leftarrow> HeapFree address (kHeap s) (mem s);
     Some (s\<lparr>kHeap := heap, mem := m\<rparr>) }"

declare find_hole.simps [simp del] highest_hole.simps [simp del] index_of.simps [simp del]


subsection \<open>Reading back header and footer fields\<close>

named_theorems heap_simps \<open>header and footer reads after writes\<close>

lemmas hdr_defs = hdr_magic_def hdr_is_hole_def hdr_size_def set_hdr_magic_def
  set_hdr_is_hole_def set_hdr_size_def
lemmas ftr_defs = ftr_magic_def ftr_header_def set_ftr_magic_def set_ftr_header_def

lemma hdr_get_set [heap_simps]:
  "hdr_magic (set_hdr_magic h v32 m) h = v32"
  "hdr_is_hole (set_hdr_is_hole h v8 m) h = v8"
  "hdr_size (set_hdr_size h v64 m) h = v64"
  "ftr_magic (set_ftr_magic h v32 m) h = v32"
  "ftr_header (set_ftr_header h v64 m) h = v64"
  by (simp_all add: hdr_defs ftr_defs mem_simps)

lemma hdr_get_set_other [heap_simps]:
  "hdr_magic (set_hdr_is_hole h v8 m) h = hdr_magic m h"
  "hdr_magic (set_hdr_size h v64 m) h = hdr_magic m h"
  "hdr_is_hole (set_hdr_magic h v32 m) h = hdr_is_hole m h"
  "hdr_is_hole (set_hdr_size h v64 m) h = hdr_is_hole m h"
  "hdr_size (set_hdr_magic h v32 m) h = hdr_size m h"
  "hdr_size (set_hdr_is_hole h v8 m) h = hdr_size m h"
  "ftr_magic (set_ftr_header h v64 m) h = ftr_magic m h"
  "ftr_header (set_ftr_magic h v32 m) h = ftr_header m h"
  using apart_offsets [of 0 4 4 1 h] apart_offsets [of 0 4 8 8 h] apart_offsets [of 4 1 8 8 h]
  by (simp_all add: hdr_defs ftr_defs mem_simps)

subsection \<open>Blocks and the invariant\<close>

text \<open>
  A block is its header's address, its size with header and footer, and whether it is a hole.
  The blocks tile the heap; \<open>block_ok\<close> says that the memory holds a block's header, and for an
  allocated one its footer (the hole of \<open>HeapCreate\<close> has no footer).
\<close>

record block =
  b_pos :: addr
  b_size :: u64
  b_hole :: bool

abbreviation used_block :: "addr \<Rightarrow> u64 \<Rightarrow> block" where
  "used_block p sz \<equiv> \<lparr>b_pos = p, b_size = sz, b_hole = False\<rparr>"

abbreviation hole_block :: "addr \<Rightarrow> u64 \<Rightarrow> block" where
  "hole_block p sz \<equiv> \<lparr>b_pos = p, b_size = sz, b_hole = True\<rparr>"

fun tiles :: "nat \<Rightarrow> block list \<Rightarrow> nat \<Rightarrow> bool" where
  "tiles a [] e \<longleftrightarrow> a = e"
| "tiles a (b # bs) e \<longleftrightarrow>
     unat (b_pos b) = a \<and> 32 \<le> unat (b_size b) \<and> tiles (a + unat (b_size b)) bs e"

definition b_footer :: "block \<Rightarrow> addr" where
  "b_footer b = b_pos b + b_size b - sizeof_HeapFooter"

definition footer_ok :: "mem \<Rightarrow> block \<Rightarrow> bool" where
  "footer_ok m b \<longleftrightarrow> ftr_magic m (b_footer b) = HEAP_MAGIC \<and> ftr_header m (b_footer b) = b_pos b"

definition block_ok :: "mem \<Rightarrow> block \<Rightarrow> bool" where
  "block_ok m b \<longleftrightarrow> hdr_magic m (b_pos b) = HEAP_MAGIC \<and>
     hdr_is_hole m (b_pos b) = (if b_hole b then 1 else 0) \<and> hdr_size m (b_pos b) = b_size b \<and>
     (\<not> b_hole b \<longrightarrow> footer_ok m b)"

definition holes :: "block list \<Rightarrow> addr list" where
  "holes bs = map b_pos (filter b_hole bs)"

abbreviation block_zone :: "block \<Rightarrow> nat set" where
  "block_zone b \<equiv> zone (b_pos b) (unat (b_size b))"

abbreviation index_slots :: nat where
  "index_slots \<equiv> unat HEAP_INDEX_SIZE"

abbreviation index_zone :: "Heap \<Rightarrow> nat set" where
  "index_zone h \<equiv> array_zone (arr_array (hp_index h)) index_slots"

definition index_ok :: "mem \<Rightarrow> Heap \<Rightarrow> addr list \<Rightarrow> bool" where
  "index_ok m h ps \<longleftrightarrow> mset (contents m (hp_index h)) = mset ps \<and>
     arr_predicate (hp_index h) = HeaderPredicate \<and> length ps \<le> index_slots \<and>
     unat (arr_array (hp_index h)) + 8 * index_slots \<le> unat (start_address h)"

definition laid_out :: "mem \<Rightarrow> Heap \<Rightarrow> block list \<Rightarrow> bool" where
  "laid_out m h bs \<longleftrightarrow> tiles (unat (start_address h)) bs (unat (end_address h)) \<and>
     (\<forall>b\<in>set bs. block_ok m b)"

definition heap_ok :: "mem \<Rightarrow> Heap \<Rightarrow> block list \<Rightarrow> bool" where
  "heap_ok m h bs \<longleftrightarrow> laid_out m h bs \<and> index_ok m h (holes bs)"

lemma laid_out_index_update [simp]: "laid_out m (h\<lparr>hp_index := i\<rparr>) bs = laid_out m h bs"
  by (simp add: laid_out_def)

lemma tiles_append: "tiles a (xs @ ys) e \<longleftrightarrow> (\<exists>c. tiles a xs c \<and> tiles c ys e)"
  by (induction xs arbitrary: a) auto

lemma tiles_bounds: "tiles a bs e \<Longrightarrow> a \<le> e"
  by (induction bs arbitrary: a) force+

lemma tiles_member:
  "tiles a bs e \<Longrightarrow> b \<in> set bs \<Longrightarrow>
     a \<le> unat (b_pos b) \<and> unat (b_pos b) + unat (b_size b) \<le> e \<and> 32 \<le> unat (b_size b)"
  by (induction bs arbitrary: a) (auto dest: tiles_bounds, force)

lemma tiles_split:
  assumes "tiles a (xs @ b # ys) e"
  shows "c \<in> set xs \<Longrightarrow> unat (b_pos c) + unat (b_size c) \<le> unat (b_pos b)"
    and "c \<in> set ys \<Longrightarrow> unat (b_pos b) + unat (b_size b) \<le> unat (b_pos c)"
  using assms by (auto simp: tiles_append dest!: tiles_member)

lemma tiles_disjoint:
  assumes "tiles a (xs @ b # ys) e" and "c \<in> set (xs @ ys)"
  shows "block_zone c \<inter> block_zone b = {}"
  using tiles_split [OF assms(1), of c] assms(2) by auto

lemma tiles_distinct: "tiles a bs e \<Longrightarrow> distinct (map b_pos bs)"
proof (induction bs arbitrary: a)
  case (Cons b bs)
  then have "b_pos b \<noteq> b_pos c" if "c \<in> set bs" for c
    using that tiles_split(2) [of a "[]" b bs e c] by auto
  with Cons show ?case by auto
qed simp

lemma block_addresses:
  fixes p n :: u64
  assumes "unat p + unat n < 2 ^ 64" and "32 \<le> unat n"
  shows "unat (p + 4) = unat p + 4" and "unat (p + 8) = unat p + 8"
    and "unat (p + n - 16) = unat p + unat n - 16" and "unat (p + n - 16 + 8) = unat p + unat n - 8"
proof -
  have "unat (p + n) = unat p + unat n" using assms(1) by (rule unat_add_u64)
  then show f: "unat (p + n - 16) = unat p + unat n - 16"
    using assms(2) by (subst unat_sub_u64) auto
  show "unat (p + n - 16 + 8) = unat p + unat n - 8"
    using f assms by (subst unat_add_u64) auto
  show "unat (p + 4) = unat p + 4" and "unat (p + 8) = unat p + 8"
    using assms by (auto simp: unat_add_u64)
qed

lemma load_inside:
  assumes "changes_only A m m'" and "zone p n \<inter> A = {}" and "unat p + n \<le> 2 ^ 64"
    and "unat p \<le> unat a"
  shows "unat a + 1 \<le> unat p + n \<Longrightarrow> load8 m' a = load8 m a"
    and "unat a + 4 \<le> unat p + n \<Longrightarrow> load32 m' a = load32 m a"
    and "unat a + 8 \<le> unat p + n \<Longrightarrow> load64 m' a = load64 m a"
proof -
  have z: "zone a k \<inter> A = {}" if "unat a + k \<le> unat p + n" for k
  proof -
    have "zone a k \<subseteq> zone p n" using that assms(4) by auto
    with assms(2) show ?thesis by blast
  qed
  note ld = load_changes_only [OF assms(1) z le_trans [OF _ assms(3)]]
  show "unat a + 1 \<le> unat p + n \<Longrightarrow> load8 m' a = load8 m a"
    and "unat a + 4 \<le> unat p + n \<Longrightarrow> load32 m' a = load32 m a"
    and "unat a + 8 \<le> unat p + n \<Longrightarrow> load64 m' a = load64 m a"
    by (rule ld(1) ld(2) ld(3); simp)+
qed

lemma block_ok_changes:
  assumes "changes_only A m m'" and "block_zone b \<inter> A = {}"
    and "unat (b_pos b) + unat (b_size b) < 2 ^ 64" and "32 \<le> unat (b_size b)"
  shows "block_ok m' b = block_ok m b"
proof -
  let ?p = "b_pos b" and ?f = "b_pos b + b_size b - 16"
  note addr = block_addresses [OF assms(3,4)]
  note ld = load_inside [OF assms(1,2) less_imp_le [OF assms(3)]]
  have "hdr_magic m' ?p = hdr_magic m ?p" and "hdr_is_hole m' ?p = hdr_is_hole m ?p"
    and "hdr_size m' ?p = hdr_size m ?p"
    using addr assms(4) by (auto simp: hdr_defs intro!: ld)
  moreover have "ftr_magic m' ?f = ftr_magic m ?f" and "ftr_header m' ?f = ftr_header m ?f"
    unfolding ftr_defs using addr assms(4) by (auto intro!: ld simp del: diff_add_eq)
  ultimately show ?thesis
    by (simp add: block_ok_def footer_ok_def b_footer_def sizeof_HeapFooter_def)
qed


subsection \<open>Writing blocks\<close>

lemma field_changes:
  assumes "unat h + 16 < 2 ^ 64" and "zone h 16 \<subseteq> A"
  shows "changes_only A m (set_hdr_magic h v32 m)" "changes_only A m (set_hdr_is_hole h v8 m)"
    "changes_only A m (set_hdr_size h v64 m)" "changes_only A m (set_ftr_magic h v32 m)"
    "changes_only A m (set_ftr_header h v64 m)"
proof -
  have "unat (h + 4) = unat h + 4" and "unat (h + 8) = unat h + 8"
    using assms(1) by (auto simp: unat_add_u64)
  moreover from this have "zone h 4 \<subseteq> A" "zone (h + 4) 1 \<subseteq> A" "zone (h + 8) 8 \<subseteq> A"
    using assms(2) by auto
  ultimately show "changes_only A m (set_hdr_magic h v32 m)" "changes_only A m (set_hdr_is_hole h v8 m)"
    "changes_only A m (set_hdr_size h v64 m)" "changes_only A m (set_ftr_magic h v32 m)"
    "changes_only A m (set_ftr_header h v64 m)"
    unfolding hdr_defs ftr_defs using assms(1) by (auto intro!: changes_only_store)
qed

lemma hdr_outside:
  assumes "changes_only A m m'" and "zone h 16 \<inter> A = {}" and "unat h + 16 < 2 ^ 64"
  shows "hdr_magic m' h = hdr_magic m h" "hdr_is_hole m' h = hdr_is_hole m h"
    "hdr_size m' h = hdr_size m h" "ftr_magic m' h = ftr_magic m h" "ftr_header m' h = ftr_header m h"
proof -
  have "unat (h + 4) = unat h + 4" and "unat (h + 8) = unat h + 8"
    using assms(3) by (auto simp: unat_add_u64)
  then show "hdr_magic m' h = hdr_magic m h" "hdr_is_hole m' h = hdr_is_hole m h"
    "hdr_size m' h = hdr_size m h" "ftr_magic m' h = ftr_magic m h" "ftr_header m' h = ftr_header m h"
    unfolding hdr_defs ftr_defs by (auto intro!: load_inside [OF assms(1,2) less_imp_le [OF assms(3)]])
qed

definition write_header :: "addr \<Rightarrow> u8 \<Rightarrow> u64 \<Rightarrow> mem \<Rightarrow> mem" where
  "write_header h hole sz m = set_hdr_size h sz (set_hdr_is_hole h hole (set_hdr_magic h HEAP_MAGIC m))"

definition write_footer :: "addr \<Rightarrow> addr \<Rightarrow> mem \<Rightarrow> mem" where
  "write_footer f h m = set_ftr_header f h (set_ftr_magic f HEAP_MAGIC m)"

lemma write_header_reads [heap_simps]:
  "hdr_magic (write_header h x sz m) h = HEAP_MAGIC" "hdr_is_hole (write_header h x sz m) h = x"
  "hdr_size (write_header h x sz m) h = sz"
  by (simp_all add: write_header_def heap_simps)

lemma write_footer_reads [heap_simps]:
  "ftr_magic (write_footer f h m) f = HEAP_MAGIC" "ftr_header (write_footer f h m) f = h"
  by (simp_all add: write_footer_def heap_simps)

lemma write_changes:
  assumes "unat h + 16 < 2 ^ 64" and "zone h 16 \<subseteq> A"
  shows "changes_only A m (write_header h x sz m)" and "changes_only A m (write_footer h y m)"
  unfolding write_header_def write_footer_def
  by (intro changes_only_trans [OF _ field_changes(3) [OF assms]]
      changes_only_trans [OF _ field_changes(2) [OF assms]]
      changes_only_trans [OF _ field_changes(5) [OF assms]] field_changes(1,4) [OF assms])+

lemma written_block:
  assumes "unat p + unat n < 2 ^ 64" and "32 \<le> unat n"
    and "m' = write_footer (p + n - 16) p (write_header p x n m)" and "x = (if hole then 1 else 0)"
  shows "block_ok m' \<lparr>b_pos = p, b_size = n, b_hole = hole\<rparr> \<and>
     footer_ok m' \<lparr>b_pos = p, b_size = n, b_hole = hole\<rparr> \<and> changes_only (zone p (unat n)) m m'"
proof -
  let ?f = "p + n - 16"
  have f: "unat ?f = unat p + unat n - 16" by (rule block_addresses [OF assms(1,2)])
  then have "changes_only (zone ?f 16) (write_header p x n m) m'"
    unfolding assms(3) using assms(1,2) by (intro write_changes) auto
  note hd = hdr_outside [OF this, of p] and foot = changes_only_mono [OF this, of "zone p (unat n)"]
  have "changes_only (zone p (unat n)) m (write_header p x n m)"
    using assms(1,2) by (intro write_changes) auto
  then have "changes_only (zone p (unat n)) m m'"
    by (rule changes_only_trans [OF _ foot]) (use f assms(2) in auto)
  moreover have "footer_ok m' \<lparr>b_pos = p, b_size = n, b_hole = hole\<rparr>"
    by (simp add: footer_ok_def b_footer_def sizeof_HeapFooter_def assms(3) heap_simps)
  moreover have "zone p 16 \<inter> zone ?f 16 = {}" using f assms(2) by auto
  ultimately show ?thesis
    using hd assms(1,2,4) by (cases hole) (simp_all add: block_ok_def heap_simps)
qed

lemma write_block_header_footer:
  "n = sz + 32 \<Longrightarrow> write_block p sz n m = write_footer (p + n - 16) p (write_header p 0 n m)"
  by (simp add: write_block_def write_footer_def write_header_def Let_def sizeof_HeapHeader_def
      algebra_simps)

lemma write_rest_header_footer:
  "p + n - 16 < e \<Longrightarrow> write_rest p n e m = write_footer (p + n - 16) p (write_header p 1 n m)"
  by (simp add: write_rest_def write_footer_def write_header_def Let_def sizeof_HeapFooter_def)


subsection \<open>The index of holes\<close>

lemma index_ok_mset: "mset ps = mset qs \<Longrightarrow> index_ok m h ps = index_ok m h qs"
  using mset_eq_length [of ps qs] by (simp add: index_ok_def)

lemma index_ok_size:
  assumes "index_ok m h ps"
  shows "unat (arr_size (hp_index h)) = length ps"
proof -
  have "mset (contents m (hp_index h)) = mset ps" using assms by (simp add: index_ok_def)
  from mset_eq_length [OF this] show ?thesis by simp
qed

lemma index_ok_room:
  assumes "index_ok m h ps"
  shows "unat (arr_array (hp_index h)) + 8 * index_slots < 2 ^ 64"
proof -
  have "unat (arr_array (hp_index h)) + 8 * index_slots \<le> unat (start_address h)"
    using assms by (simp add: index_ok_def)
  then show ?thesis by (rule le_less_trans) (rule unat_lt_2_64)
qed

lemma index_slots_eq: "index_slots = 0x20000"
  by (simp add: HEAP_INDEX_SIZE_def)

lemma index_frame:
  assumes "index_ok m h ps" and "changes_only A m m'" and "A \<inter> index_zone h = {}"
  shows "index_ok m' h ps"
proof -
  note sz = index_ok_size [OF assms(1)]
  have "length ps \<le> index_slots" using assms(1) by (simp add: index_ok_def)
  then have "array_zone (arr_array (hp_index h)) (unat (arr_size (hp_index h))) \<subseteq> index_zone h"
    and "unat (arr_array (hp_index h)) + 8 * unat (arr_size (hp_index h)) < 2 ^ 64"
    using sz index_ok_room [OF assms(1)] by auto
  then have "contents m' (hp_index h) = contents m (hp_index h)"
    using assms(3) by (intro contents_changes_only [OF assms(2)]) blast+
  with assms(1) show ?thesis by (simp add: index_ok_def)
qed

lemma index_remove:
  assumes "index_ok m h ps" and "i < length ps" and "contents m (hp_index h) ! i = p"
    and "ArrayRemove m (hp_index h) (of_nat i) = (index, m')"
  shows "index_ok m' (h\<lparr>hp_index := index\<rparr>) (remove1 p ps)" and "changes_only (index_zone h) m m'"
    and "arr_array index = arr_array (hp_index h)"
proof -
  let ?a = "hp_index h" and ?c = "contents m (hp_index h)"
  have le: "length ps \<le> index_slots" using assms(1) by (simp add: index_ok_def)
  have i: "unat (of_nat i :: u32) = i"
    using assms(2) le by (simp add: index_slots_eq unsigned_of_nat take_bit_nat_eq_self)
  have "contents m' index = remove_at i ?c"
    using ArrayRemove_contents [OF _ assms(4)] assms(2) index_ok_size [OF assms(1)] i by simp
  moreover have "?c = take i ?c @ p # drop (Suc i) ?c"
    using id_take_nth_drop [of i ?c] assms(2,3) index_ok_size [OF assms(1)] by simp
  then have "mset ?c = add_mset p (mset (remove_at i ?c))"
    unfolding remove_at_def by (metis mset.simps(2) mset_append union_mset_add_mset_right)
  moreover have "mset ?c = mset ps" using assms(1) by (simp add: index_ok_def)
  ultimately have "mset (contents m' index) = mset (remove1 p ps)"
    by (metis add_mset_remove_trivial mset_remove1)
  moreover note ArrayRemove_fields [OF assms(4)]
  ultimately show "index_ok m' (h\<lparr>hp_index := index\<rparr>) (remove1 p ps)"
    using assms(1) le length_remove1 [of p ps] by (auto simp: index_ok_def split: if_splits)
  show "changes_only (index_zone h) m m'"
    using le index_ok_size [OF assms(1)]
    by (intro ArrayRemove_changes [OF assms(4) _ index_ok_room [OF assms(1)]]) simp
  show "arr_array index = arr_array (hp_index h)" using ArrayRemove_fields [OF assms(4)] by simp
qed

lemma index_insert:
  assumes "index_ok m h ps" and "length ps < index_slots"
    and "ArrayInsert m (hp_index h) p = (index, m')"
  shows "index_ok m' (h\<lparr>hp_index := index\<rparr>) (p # ps)" and "changes_only (index_zone h) m m'"
    and "arr_array index = arr_array (hp_index h)"
proof -
  have "Suc (unat (arr_size (hp_index h))) < 2 ^ 32"
    using assms(2) index_ok_size [OF assms(1)] by (simp add: index_slots_eq)
  then have "mset (contents m' index) = add_mset p (mset ps)"
    using ArrayInsert_contents [OF _ assms(3)] assms(1) by (simp add: mset_insert_by index_ok_def)
  with ArrayInsert_fields [OF assms(3)] assms(1,2)
  show "index_ok m' (h\<lparr>hp_index := index\<rparr>) (p # ps)" by (simp add: index_ok_def)
  show "changes_only (index_zone h) m m'"
    using assms(2) index_ok_size [OF assms(1)]
    by (intro ArrayInsert_changes [OF assms(3) _ index_ok_room [OF assms(1)]]) simp
  show "arr_array index = arr_array (hp_index h)" using ArrayInsert_fields [OF assms(3)] by simp
qed

text \<open>The two loops over the index stop at the first entry with a property.\<close>

lemma index_cell:
  "it < ucast (arr_size a) \<Longrightarrow> ArrayGet m a (ucast (it :: u64)) = cell m (arr_array a) (unat it)"
proof -
  assume "it < ucast (arr_size a)"
  then have "unat it < unat (arr_size a)" by (simp add: word_less_nat_alt unat_ucast_up)
  then have "unat (ucast it :: u32) = unat it"
    using unat_u32_bound [of "arr_size a"] by (simp add: unsigned_ucast_eq take_bit_nat_eq_self)
  then show ?thesis by (simp add: ArrayGet_def load64_slot)
qed

lemma find_hole_takeWhile:
  "unat (find_hole m a sz pa 0) = length (takeWhile (\<lambda>h. \<not> hole_fits m sz pa h) (contents m a))"
proof -
  have "find_hole m a sz pa i = (if i < ucast (arr_size a) \<and>
      \<not> hole_fits m sz pa (cell m (arr_array a) (unat i)) then find_hole m a sz pa (i + 1) else i)" for i
    by (subst find_hole.simps) (simp add: index_cell cong: conj_cong)
  from scan_takeWhile [OF this, of 0] show ?thesis
    by (simp add: contents_def cells_takeWhile unat_ucast_up)
qed

lemma index_of_takeWhile:
  "unat (index_of m a item 0) = length (takeWhile (\<lambda>x. x \<noteq> item) (contents m a))"
proof -
  have "index_of m a item i = (if i < ucast (arr_size a) \<and>
      cell m (arr_array a) (unat i) \<noteq> item then index_of m a item (i + 1) else i)" for i
    by (subst index_of.simps) (simp add: index_cell cong: conj_cong)
  from scan_takeWhile [OF this, of 0] show ?thesis
    by (simp add: contents_def cells_takeWhile unat_ucast_up)
qed

lemma index_of_found:
  assumes "item \<in> set (contents m a)"
  obtains i where "i < unat (arr_size a)" and "contents m a ! i = item"
    and "ucast (index_of m a item 0) = (of_nat i :: u32)"
proof -
  let ?c = "contents m a" and ?i = "length (takeWhile (\<lambda>x. x \<noteq> item) (contents m a))"
  have "?i < length ?c" using assms by (rule length_takeWhile_lt) simp
  moreover from this have "?c ! ?i = item" using nth_length_takeWhile by fastforce
  moreover have "index_of m a item 0 = of_nat ?i"
    by (simp add: index_of_takeWhile [symmetric])
  then have "ucast (index_of m a item 0) = (of_nat ?i :: u32)" by (simp add: unsigned_of_nat word_of_nat_eq_iff)
  ultimately show ?thesis using that by simp
qed

lemma HeapFindSmallestHole_none:
  assumes "\<forall>p\<in>set (contents m (hp_index h)). \<not> hole_fits m sz pa p"
  shows "HeapFindSmallestHole m h sz pa = -1"
proof -
  have "unat (find_hole m (hp_index h) sz pa 0) = unat (arr_size (hp_index h))"
    using assms unfolding find_hole_takeWhile by (simp add: takeWhile_eq_all_conv [THEN iffD2])
  then show ?thesis
    by (simp add: HeapFindSmallestHole_def word_unat_eq_iff unat_ucast_up)
qed

lemma HeapFindSmallestHole_first:
  assumes "\<exists>p\<in>set (contents m (hp_index h)). hole_fits m sz pa p"
  obtains i where "i < unat (arr_size (hp_index h))" and "HeapFindSmallestHole m h sz pa = int i"
    and "hole_fits m sz pa (contents m (hp_index h) ! i)"
    and "\<forall>j<i. \<not> hole_fits m sz pa (contents m (hp_index h) ! j)"
proof -
  let ?c = "contents m (hp_index h)" and ?P = "\<lambda>h. \<not> hole_fits m sz pa h"
  define it where "it = find_hole m (hp_index h) sz pa 0"
  have it: "unat it = length (takeWhile ?P ?c)"
    unfolding it_def by (rule find_hole_takeWhile)
  then have lt: "unat it < length ?c"
    using assms length_takeWhile_lt [of _ ?c ?P] by auto
  then have "it \<noteq> ucast (arr_size (hp_index h))"
    using unat_ucast_up [of "arr_size (hp_index h)"] by auto
  then have "HeapFindSmallestHole m h sz pa = int (unat it)"
    by (simp add: HeapFindSmallestHole_def it_def)
  moreover have "hole_fits m sz pa (?c ! unat it)"
    using lt nth_length_takeWhile [of ?P ?c] unfolding it by simp
  moreover have "\<forall>j<unat it. ?P (?c ! j)"
    unfolding it by (metis nth_mem set_takeWhileD takeWhile_nth)
  ultimately show ?thesis using that lt by simp
qed


subsection \<open>Allocation on blocks\<close>

text \<open>The abstract effect of an allocation: the hole becomes a block, possibly followed by a hole.\<close>

definition split_hole :: "u64 \<Rightarrow> block \<Rightarrow> block list" where
  "split_hole sz b = (let n = snd (alloc_fit sz (b_size b))
     in used_block (b_pos b) n #
        (if n = b_size b then [] else [hole_block (b_pos b + n) (b_size b - n)]))"

lemma alloc_fit_facts:
  assumes "unat sz + 32 \<le> unat hs" and "alloc_fit sz hs = (sz', n)"
  shows "n = sz' + 32" and "unat n = unat sz' + 32" and "unat sz \<le> unat sz'" and "unat n \<le> unat hs"
    and "n = hs \<or> unat n + 32 \<le> unat hs"
proof -
  have s: "unat (sz + 32) = unat sz + 32"
    using assms(1) unat_lt_2_64 [of hs] by (subst unat_add_u64) auto
  then have d: "unat (hs - (sz + 32)) = unat hs - (unat sz + 32)"
    using assms(1) by (subst unat_sub_u64) auto
  have res: "(sz', n) = (if hs - (sz + 32) < 32 then (sz + (hs - (sz + 32)), hs) else (sz, sz + 32))"
    using assms(2) by (simp add: alloc_fit_def Let_def sizeof_HeapHeader_def sizeof_HeapFooter_def add.assoc)
  show n: "n = sz' + 32" using res by (auto split: if_splits)
  show "unat n \<le> unat hs" using res s assms(1) by (auto split: if_splits)
  show "n = hs \<or> unat n + 32 \<le> unat hs"
    using res s d by (auto simp: word_less_nat_alt split: if_splits)
  have "unat sz \<le> unat sz' \<and> unat sz' + 32 \<le> unat hs"
  proof (cases "hs - (sz + 32) < 32")
    case True
    then have "sz' = hs - 32" using res by simp
    moreover have "unat (hs - 32) = unat hs - 32" using assms(1) by (subst unat_sub_u64) auto
    ultimately show ?thesis using assms(1) by simp
  next
    case False
    with res assms(1) show ?thesis by simp
  qed
  then show "unat sz \<le> unat sz'" and "unat n = unat sz' + 32"
    unfolding n using unat_lt_2_64 [of hs] by (simp, subst unat_add_u64) auto
qed

lemma laid_out_bounds:
  assumes "laid_out m h bs" and "b \<in> set bs"
  shows "unat (start_address h) \<le> unat (b_pos b)"
    and "unat (b_pos b) + unat (b_size b) \<le> unat (end_address h)"
    and "unat (b_pos b) + unat (b_size b) < 2 ^ 64" and "32 \<le> unat (b_size b)"
proof -
  have "unat (start_address h) \<le> unat (b_pos b) \<and>
      unat (b_pos b) + unat (b_size b) \<le> unat (end_address h) \<and> 32 \<le> unat (b_size b)"
    using assms by (intro tiles_member) (auto simp: laid_out_def)
  then show "unat (start_address h) \<le> unat (b_pos b)" "32 \<le> unat (b_size b)"
    and e: "unat (b_pos b) + unat (b_size b) \<le> unat (end_address h)" by simp_all
  from e show "unat (b_pos b) + unat (b_size b) < 2 ^ 64" by (rule le_less_trans) (rule unat_lt_2_64)
qed

lemma index_ok_apart:
  assumes "laid_out m h bs" and "index_ok m' h ps" and "b \<in> set bs"
  shows "block_zone b \<inter> index_zone h = {}"
proof -
  have "unat (arr_array (hp_index h)) + 8 * index_slots \<le> unat (start_address h)"
    using assms(2) by (simp add: index_ok_def)
  with laid_out_bounds [OF assms(1,3)] show ?thesis by auto
qed

lemma laid_out_index:
  assumes "laid_out m h bs" and "index_ok m0 h ps" and "changes_only (index_zone h) m m'"
  shows "laid_out m' h bs"
proof -
  have "block_ok m' b = block_ok m b" if "b \<in> set bs" for b
    using block_ok_changes [OF assms(3) index_ok_apart [OF assms(1,2) that]]
      laid_out_bounds [OF assms(1) that] by blast
  with assms(1) show ?thesis by (simp add: laid_out_def)
qed

text \<open>Replacing a run of blocks by others in the same place.\<close>

lemma laid_out_replace:
  assumes "laid_out m h (xs @ us @ ys)" and "changes_only (\<Union>u\<in>set us. block_zone u) m m'"
    and "tiles (unat (start_address h)) (xs @ vs @ ys) (unat (end_address h))"
    and "\<forall>c\<in>set vs. block_ok m' c"
  shows "laid_out m' h (xs @ vs @ ys)"
proof -
  have "block_ok m' c" if c: "c \<in> set (xs @ ys)" for c
  proof -
    have c': "c \<in> set (xs @ us @ ys)" using c by auto
    have "block_zone c \<inter> block_zone u = {}" if u: "u \<in> set us" for u
    proof -
      obtain as bs where us: "us = as @ u # bs" using u by (meson split_list)
      have "tiles (unat (start_address h)) ((xs @ as) @ u # bs @ ys) (unat (end_address h))"
        using assms(1) by (simp add: laid_out_def us)
      then show ?thesis
        by (rule tiles_disjoint [where xs = "xs @ as" and ys = "bs @ ys"]) (use c in auto)
    qed
    then have "block_zone c \<inter> (\<Union>u\<in>set us. block_zone u) = {}" by blast
    from block_ok_changes [OF assms(2) this] laid_out_bounds [OF assms(1) c'] assms(1) c'
    show ?thesis unfolding laid_out_def by blast
  qed
  with assms(3,4) show ?thesis by (auto simp: laid_out_def)
qed

text \<open>Adding a hole to the index, and taking one out, in a heap that is laid out.\<close>

lemma heap_index_insert:
  assumes "laid_out m h bs" and "index_ok m h ps" and "length ps < index_slots"
    and "mset (p # ps) = mset (holes bs)" and "ArrayInsert m (hp_index h) p = (index, m')"
  shows "heap_ok m' (h\<lparr>hp_index := index\<rparr>) bs" and "changes_only (index_zone h) m m'"
proof -
  note ins = index_insert [OF assms(2,3,5)]
  show "changes_only (index_zone h) m m'" by (rule ins(2))
  show "heap_ok m' (h\<lparr>hp_index := index\<rparr>) bs"
    using ins(1) laid_out_index [OF assms(1,2) ins(2)] index_ok_mset [OF assms(4)]
    by (simp add: heap_ok_def)
qed

lemma index_remove_hole:
  assumes "laid_out m h bs" and "index_ok m h ps" and "i < length ps"
    and "contents m (hp_index h) ! i = p" and "ArrayRemove m (hp_index h) (of_nat i) = (index, m')"
  shows "laid_out m' h bs" and "index_ok m' (h\<lparr>hp_index := index\<rparr>) (remove1 p ps)"
    and "changes_only (index_zone h) m m'" and "index_zone (h\<lparr>hp_index := index\<rparr>) = index_zone h"
proof -
  note rm = index_remove [OF assms(2-5)]
  show "index_ok m' (h\<lparr>hp_index := index\<rparr>) (remove1 p ps)" and "changes_only (index_zone h) m m'"
    by (rule rm)+
  show "laid_out m' h bs" by (rule laid_out_index [OF assms(1,2) rm(2)])
  show "index_zone (h\<lparr>hp_index := index\<rparr>) = index_zone h" using rm(3) by simp
qed

lemma holes_append [simp]: "holes (xs @ ys) = holes xs @ holes ys"
  by (simp add: holes_def)

lemma holes_simps [simp]:
  "holes [] = []" "holes (b # bs) = (if b_hole b then b_pos b # holes bs else holes bs)"
  by (simp_all add: holes_def)

lemma split_hole_tiles:
  assumes "unat sz + 32 \<le> unat (b_size b)" and "unat (b_pos b) + unat (b_size b) < 2 ^ 64"
    and "tiles a (xs @ b # ys) e"
  shows "tiles a (xs @ split_hole sz b @ ys) e"
proof -
  obtain sz' n where fit: "alloc_fit sz (b_size b) = (sz', n)" by (cases "alloc_fit sz (b_size b)")
  note f = alloc_fit_facts [OF assms(1) fit]
  have "unat (b_pos b + n) = unat (b_pos b) + unat n"
    using f assms(2) by (intro unat_add_u64) simp
  moreover have "unat (b_size b - n) = unat (b_size b) - unat n"
    using f by (intro unat_sub_u64) simp
  ultimately show ?thesis
    using assms(3) f(2-5) by (auto simp: tiles_append split_hole_def fit Let_def)
qed


text \<open>The memory \<open>alloc_in_hole\<close> leaves before it updates the index.\<close>

definition write_split :: "block \<Rightarrow> u64 \<Rightarrow> u64 \<Rightarrow> u64 \<Rightarrow> mem \<Rightarrow> mem" where
  "write_split b sz n e m =
     (let m = write_block (b_pos b) sz n m
      in if n = b_size b then m else write_rest (b_pos b + n) (b_size b - n) e m)"

lemma write_split_ok:
  assumes "unat sz + 32 \<le> unat (b_size b)" and "unat (b_pos b) + unat (b_size b) \<le> unat e"
    and "alloc_fit sz (b_size b) = (sz', n)" and "m' = write_split b sz' n e m"
  shows "\<forall>c\<in>set (split_hole sz b). block_ok m' c" and "changes_only (block_zone b) m m'"
proof -
  let ?p = "b_pos b" and ?m = "write_block (b_pos b) sz' n m" and ?r = "b_size b - n"
  note f = alloc_fit_facts [OF assms(1,3)]
  have lt: "unat ?p + unat (b_size b) < 2 ^ 64" using assms(2) unat_lt_2_64 [of e] by (rule le_less_trans)
  then have "unat ?p + unat n < 2 ^ 64" "32 \<le> unat n" using f by auto
  from written_block [OF this write_block_header_footer [OF f(1)], where hole = False]
  have blk: "block_ok ?m (used_block ?p n)" and ch: "changes_only (zone ?p (unat n)) m ?m" by auto
  have "(\<forall>c\<in>set (split_hole sz b). block_ok m' c) \<and> changes_only (block_zone b) m m'"
  proof (cases "n = b_size b")
    case True
    with blk ch show ?thesis by (simp add: assms(4) write_split_def split_hole_def assms(3) Let_def)
  next
    case False
    have q: "unat (?p + n) = unat ?p + unat n" using f lt by (intro unat_add_u64) simp
    have r: "unat ?r = unat (b_size b) - unat n" using f by (intro unat_sub_u64) simp
    have rr: "unat (?p + n) + unat ?r < 2 ^ 64" "32 \<le> unat ?r" using q r f False lt by auto
    then have "?p + n + ?r - 16 < e"
      using assms(2) q r f(4) block_addresses(3) [OF rr] by (simp only: word_less_nat_alt)
    then have m': "m' = write_footer (?p + n + ?r - 16) (?p + n) (write_header (?p + n) 1 ?r ?m)"
      using False write_rest_header_footer by (simp only: assms(4) write_split_def Let_def if_False)
    from written_block [OF rr m', where hole = True]
    have hole: "block_ok m' (hole_block (?p + n) ?r)" and ch2: "changes_only (zone (?p + n) (unat ?r)) ?m m'"
      by simp_all
    have "block_ok m' (used_block ?p n) = block_ok ?m (used_block ?p n)"
      using ch2 by (rule block_ok_changes) (use q f lt in auto)
    moreover have "changes_only (block_zone b) m m'"
      using q r f(4) by (intro changes_only_trans [OF changes_only_mono [OF ch] changes_only_mono [OF ch2]]) auto
    ultimately show ?thesis using blk hole False by (simp add: split_hole_def assms(3) Let_def)
  qed
  then show "\<forall>c\<in>set (split_hole sz b). block_ok m' c" and "changes_only (block_zone b) m m'" by auto
qed

lemma alloc_in_hole_eq:
  assumes "ArrayGet m (hp_index h) it = b_pos b" and "hdr_size m (b_pos b) = b_size b"
    and "unat sz + 32 \<le> unat (b_size b)" and "alloc_fit sz (b_size b) = (sz', n)"
    and "ArrayRemove m (hp_index h) it = (idx1, m1)"
    and "ArrayInsert (write_split b sz' n (end_address h) m1) idx1 (b_pos b + n) = (idx3, m3)"
  shows "alloc_in_hole sz 0 it h m =
    (if n = b_size b
     then (b_pos b + 16, h\<lparr>hp_index := idx1\<rparr>, write_split b sz' n (end_address h) m1)
     else (b_pos b + 16, h\<lparr>hp_index := idx3\<rparr>, m3))"
proof -
  note f = alloc_fit_facts [OF assms(3,4)]
  have "0 < b_size b - n \<longleftrightarrow> n \<noteq> b_size b"
    using word_neq_0_conv [of "b_size b - n"] by auto
  moreover have q: "32 + (b_pos b + sz') = b_pos b + n" by (simp add: f(1))
  ultimately show ?thesis
    using assms(1,2,4,5,6)
    by (cases "n = b_size b") (simp_all add: q alloc_in_hole_def alloc_align_def sizeof_HeapHeader_def sizeof_HeapFooter_def
        write_split_def Let_def)
qed

lemma index_get:
  assumes "i < unat (arr_size a)" and "contents m a ! i = p"
  shows "ArrayGet m a (of_nat i) = p"
proof -
  have "unat (of_nat i :: u32) = i"
    using assms(1) unat_u32_bound [of "arr_size a"] by (simp add: unsigned_of_nat take_bit_nat_eq_self)
  with assms ArrayGet_contents [of "of_nat i" a m] show ?thesis by simp
qed

lemma alloc_in_hole_ok:
  assumes ok: "heap_ok m h (xs @ b # ys)" and b: "b_hole b" and fits: "unat sz + 32 \<le> unat (b_size b)"
    and i: "i < unat (arr_size (hp_index h))" "contents m (hp_index h) ! i = b_pos b"
    and alloc: "alloc_in_hole sz 0 (of_nat i) h m = (r, h', m')"
  shows "r = b_pos b + 16" and "heap_ok m' h' (xs @ split_hole sz b @ ys)"
    and "changes_only (block_zone b \<union> index_zone h) m m'"
proof -
  obtain sz' n where fit: "alloc_fit sz (b_size b) = (sz', n)" by (cases "alloc_fit sz (b_size b)")
  obtain idx1 m1 where rm: "ArrayRemove m (hp_index h) (of_nat i) = (idx1, m1)" by fastforce
  define m2 where "m2 = write_split b sz' n (end_address h) m1"
  obtain idx3 m3 where ins: "ArrayInsert m2 idx1 (b_pos b + n) = (idx3, m3)" by fastforce
  let ?Z = "block_zone b \<union> index_zone h" and ?h1 = "h\<lparr>hp_index := idx1\<rparr>"
  let ?bs = "xs @ split_hole sz b @ ys"
  have lay: "laid_out m h (xs @ b # ys)" and ix: "index_ok m h (holes (xs @ b # ys))"
    using ok by (simp_all add: heap_ok_def)
  have "i < length (holes (xs @ b # ys))" using index_ok_size [OF ix] i(1) by simp
  note r1 = index_remove_hole [OF lay ix this i(2) rm]
  have bm: "b \<in> set (xs @ b # ys)" by simp
  note bnd = laid_out_bounds [OF lay bm]
  note ws = write_split_ok [OF fits bnd(2) fit m2_def]
  have "mset (remove1 (b_pos b) (holes (xs @ b # ys))) = mset (holes (xs @ ys))" using b by simp
  then have "index_ok m1 ?h1 (holes (xs @ ys))" using r1(2) index_ok_mset by blast
  moreover have "block_zone b \<inter> index_zone ?h1 = {}" unfolding r1(4) by (rule index_ok_apart [OF lay ix bm])
  ultimately have ix2: "index_ok m2 ?h1 (holes (xs @ ys))" by (rule index_frame [OF _ ws(2)])
  have "tiles (unat (start_address h)) ?bs (unat (end_address h))"
    using lay by (intro split_hole_tiles [OF fits bnd(3)]) (simp add: laid_out_def)
  then have lay2: "laid_out m2 ?h1 ?bs" using laid_out_replace [of m1 h xs "[b]" ys m2, OF _ _ _ ws(1)] r1(1) ws(2) by simp
  have ch2: "changes_only ?Z m m2"
    by (rule changes_only_trans [OF changes_only_mono [OF r1(3)] changes_only_mono [OF ws(2)]]) auto
  have "hdr_size m (b_pos b) = b_size b" using lay by (auto simp: laid_out_def block_ok_def)
  note eq = alloc_in_hole_eq [OF index_get [OF i] this fits fit rm ins [unfolded m2_def]]
  show "r = b_pos b + 16" using alloc eq by (simp split: if_splits)
  have "heap_ok m' h' ?bs \<and> changes_only ?Z m m'"
  proof (cases "n = b_size b")
    case True
    then have "m' = m2" "h' = ?h1" using alloc eq by (simp_all add: m2_def)
    with True lay2 ix2 ch2 show ?thesis by (simp add: heap_ok_def split_hole_def fit)
  next
    case False
    have len: "length (holes (xs @ ys)) < index_slots" using ix b unfolding index_ok_def by simp
    have "mset ((b_pos b + n) # holes (xs @ ys)) = mset (holes ?bs)"
      using False by (simp add: split_hole_def fit Let_def)
    moreover have "ArrayInsert m2 (hp_index ?h1) (b_pos b + n) = (idx3, m3)" using ins by simp
    ultimately have "heap_ok m3 (?h1\<lparr>hp_index := idx3\<rparr>) ?bs" and "changes_only (index_zone ?h1) m2 m3"
      by (rule heap_index_insert [OF lay2 ix2 len])+
    with False alloc eq r1(4) show ?thesis
      by (auto intro: changes_only_trans [OF ch2] changes_only_mono)
  qed
  then show "heap_ok m' h' ?bs" "changes_only ?Z m m'" by auto
qed


lemma hole_of_index:
  assumes "heap_ok m h bs" and "p \<in> set (contents m (hp_index h))"
  obtains xs b ys where "bs = xs @ b # ys" and "b_hole b" and "b_pos b = p" and "hdr_size m p = b_size b"
proof -
  have "set (contents m (hp_index h)) = set (holes bs)"
    using assms(1) unfolding heap_ok_def index_ok_def by (metis set_mset_mset)
  then obtain b where "b \<in> set bs" "b_hole b" "b_pos b = p"
    using assms(2) by (auto simp: holes_def)
  moreover from this obtain xs ys where "bs = xs @ b # ys" by (meson split_list)
  moreover have "hdr_size m (b_pos b) = b_size b"
    using assms(1) \<open>b \<in> set bs\<close> by (auto simp: heap_ok_def laid_out_def block_ok_def)
  ultimately show ?thesis using that by blast
qed

lemma index_of_hole:
  assumes "heap_ok m h bs" and "b \<in> set bs" and "b_hole b"
  shows "b_pos b \<in> set (contents m (hp_index h))" and "hdr_size m (b_pos b) = b_size b"
proof -
  have "set (contents m (hp_index h)) = set (holes bs)"
    using assms(1) unfolding heap_ok_def index_ok_def by (metis set_mset_mset)
  then show "b_pos b \<in> set (contents m (hp_index h))" using assms(2,3) by (auto simp: holes_def)
  show "hdr_size m (b_pos b) = b_size b"
    using assms(1,2) by (auto simp: heap_ok_def laid_out_def block_ok_def)
qed

abbreviation fits :: "u64 \<Rightarrow> block \<Rightarrow> bool" where
  "fits sz b \<equiv> unat sz + 32 \<le> unat (b_size b)"

lemma hole_fits_iff:
  assumes "unat sz + 32 < 2 ^ 64" and "hdr_size m (b_pos b) = b_size b"
  shows "hole_fits m (sz + sizeof_HeapHeader + sizeof_HeapFooter) 0 (b_pos b) \<longleftrightarrow> fits sz b"
proof -
  have "unat (sz + 32) = unat sz + 32" using assms(1) by (subst unat_add_u64) auto
  then show ?thesis
    by (simp add: hole_fits_def sizeof_HeapHeader_def sizeof_HeapFooter_def word_le_nat_alt
        assms(2) add.assoc)
qed

text \<open>Without page alignment \<open>HeapAllocate\<close> takes the first fitting hole of the index.\<close>

lemma HeapAllocate_hole:
  assumes ok: "heap_ok (mem s) h bs" and b0: "b0 \<in> set bs" "b_hole b0" "fits sz b0"
  obtains xs b ys i h' m' where "bs = xs @ b # ys" and "b_hole b" and "fits sz b"
    and "HeapAllocate sz 0 h s = Some (b_pos b + 16, h', s\<lparr>mem := m'\<rparr>)"
    and "heap_ok m' h' (xs @ split_hole sz b @ ys)"
    and "changes_only (block_zone b \<union> index_zone h) (mem s) m'"
    and "i < unat (arr_size (hp_index h))" and "contents (mem s) (hp_index h) ! i = b_pos b"
    and "\<forall>j<i. hdr_size (mem s) (contents (mem s) (hp_index h) ! j) < sz + 32"
proof -
  let ?c = "contents (mem s) (hp_index h)" and ?new = "sz + sizeof_HeapHeader + sizeof_HeapFooter"
  have lt: "unat sz + 32 < 2 ^ 64" using b0(3) unat_lt_2_64 [of "b_size b0"] by (rule le_less_trans)
  have "\<exists>p\<in>set ?c. hole_fits (mem s) ?new 0 p"
    using index_of_hole [OF ok b0(1,2)] hole_fits_iff [OF lt] b0(3) by blast
  then obtain i where i: "i < unat (arr_size (hp_index h))"
    and found: "HeapFindSmallestHole (mem s) h ?new 0 = int i"
    and fit: "hole_fits (mem s) ?new 0 (?c ! i)"
    and before: "\<forall>j<i. \<not> hole_fits (mem s) ?new 0 (?c ! j)"
    by (rule HeapFindSmallestHole_first)
  have "?c ! i \<in> set ?c" using i by (intro nth_mem) simp
  from ok this obtain xs b ys where b: "bs = xs @ b # ys" "b_hole b" "b_pos b = ?c ! i"
    "hdr_size (mem s) (?c ! i) = b_size b" by (rule hole_of_index)
  obtain r h' m' where alloc: "alloc_in_hole sz 0 (of_nat i) h (mem s) = (r, h', m')"
    by (cases "alloc_in_hole sz 0 (of_nat i) h (mem s)")
  have fb: "fits sz b" using hole_fits_iff [OF lt, of "mem s" b] fit b by simp
  note res = alloc_in_hole_ok [OF ok [unfolded b(1)] b(2) fb i b(3) [symmetric] alloc]
  have "HeapAllocate sz 0 h s = Some (b_pos b + 16, h', s\<lparr>mem := m'\<rparr>)"
    using found alloc res(1) by (subst HeapAllocate.simps) (simp add: Let_def)
  moreover have "\<forall>j<i. hdr_size (mem s) (?c ! j) < sz + 32"
    using before
    by (auto simp: hole_fits_def sizeof_HeapHeader_def sizeof_HeapFooter_def add.assoc not_le)
  ultimately show ?thesis by (rule that [OF b(1,2) fb _ res(2,3) i b(3) [symmetric]])
qed

lemma used_survive:
  assumes "laid_out m h (xs @ b # ys)" and "index_ok m h ps" and "b_hole b" and "c \<in> set (xs @ b # ys)" and "\<not> b_hole c"
    and "changes_only (block_zone b \<union> index_zone h) m m'"
  shows "c \<in> set (xs @ ys)" and "block_zone c \<inter> block_zone b = {}"
    and "\<forall>x. unat x \<in> block_zone c \<longrightarrow> m' x = m x"
proof -
  show c: "c \<in> set (xs @ ys)" using assms(3-5) by auto
  show d: "block_zone c \<inter> block_zone b = {}"
    using assms(1) c by (intro tiles_disjoint [where xs = xs and ys = ys]) (auto simp: laid_out_def)
  have "block_zone c \<inter> index_zone h = {}" by (rule index_ok_apart [OF assms(1,2,4)])
  with d assms(6) show "\<forall>x. unat x \<in> block_zone c \<longrightarrow> m' x = m x"
    unfolding changes_only_def by blast
qed


subsection \<open>A new heap\<close>

lemma heap_start_address:
  fixes start :: u64
  assumes "start mod 4096 = 0" and "unat start + 0x101000 < 2 ^ 64"
  shows "(if (start + 8 * ucast HEAP_INDEX_SIZE) AND 0xFFFFFFFFFFFFF000 \<noteq> 0
     then ((start + 8 * ucast HEAP_INDEX_SIZE) AND 0xFFFFFFFFFFFFF000) + 0x1000
     else start + 8 * ucast HEAP_INDEX_SIZE) = start + 0x101000"
proof -
  have u: "unat (start + 0x100000) = unat start + 0x100000" using assms(2) by (subst unat_add_u64) auto
  have "unat start mod 4096 = 0" using assms(1) unfolding aligned_unat .
  then have "unat (start + 0x100000) mod 4096 = 0"
    unfolding u using mod_mult_self1 [of "unat start" 256 4096] by simp
  then have "(start + 0x100000) mod 4096 = 0" unfolding aligned_unat .
  then have "(start + 0x100000) AND 0xFFFFFFFFFFFFF000 = start + 0x100000" unfolding page_mask by simp
  moreover have "start + 0x100000 \<noteq> 0"
  proof
    assume "start + 0x100000 = 0"
    with u show False by simp
  qed
  ultimately show ?thesis by (simp add: HEAP_INDEX_SIZE_def)
qed

lemma write_hole_ok:
  assumes "unat p + 16 < 2 ^ 64"
  shows "block_ok (write_hole p n m) (hole_block p n)" and "changes_only (zone p 16) m (write_hole p n m)"
proof -
  show "block_ok (write_hole p n m) (hole_block p n)"
    by (simp add: block_ok_def write_hole_def heap_simps)
  show "changes_only (zone p 16) m (write_hole p n m)"
    unfolding write_hole_def
    by (intro changes_only_trans [OF _ field_changes(2) [OF assms]]
        changes_only_trans [OF _ field_changes(1) [OF assms]] field_changes(3) [OF assms]) simp_all
qed

lemma HeapCreate_heap_ok:
  assumes create: "HeapCreate start e mx sv ro s = Some (h, s')"
    and start: "start mod 4096 = 0" "unat start + 0x101000 + 32 \<le> unat e"
  shows "heap_ok (mem s') h [hole_block (start + 0x101000) (e - (start + 0x101000))]"
    and "start_address h = start + 0x101000" and "end_address h = e"
proof -
  let ?p = "start + 0x101000" and ?bs = "[hole_block (start + 0x101000) (e - (start + 0x101000))]"
  have lt: "unat start + 0x101000 + 32 < 2 ^ 64" using start(2) unat_lt_2_64 [of e] by (rule le_less_trans)
  have p: "unat ?p = unat start + 0x101000" using lt by (subst unat_add_u64) auto
  have n: "unat (e - ?p) = unat e - unat ?p" using p start(2) by (intro unat_sub_u64) simp
  obtain page s1 where page: "MmGetIdentityPage s = Some (page, s1)"
    using create by (cases "MmGetIdentityPage s") (auto simp: HeapCreate_def)
  define a0 m1 where "a0 = \<lparr>arr_array = start, arr_size = 0, arr_capacity = HEAP_INDEX_SIZE, arr_predicate = HeaderPredicate\<rparr>"
    and "m1 = snd (ArrayCreate (RtZeroMemory (mem s1) page sizeof_Heap) start HEAP_INDEX_SIZE HeaderPredicate)"
  define m2 where "m2 = write_hole ?p (e - ?p) m1"
  obtain idx m3 where ins: "ArrayInsert m2 a0 ?p = (idx, m3)" by fastforce
  have res: "h = \<lparr>hp_index = idx, start_address = ?p, end_address = e, max_address = mx,
      supervisor = sv, readonly = ro\<rparr> \<and> s' = s1\<lparr>mem := m3\<rparr>"
    using create page ins heap_start_address [OF start(1)] lt
    by (simp add: HeapCreate_def ArrayCreate_def Let_def a0_def m1_def m2_def split: prod.splits)
  let ?h = "h\<lparr>hp_index := a0\<rparr>"
  have lay: "laid_out m2 ?h ?bs"
    unfolding m2_def laid_out_def using write_hole_ok(1) [of ?p] res p n lt start(2) by simp
  have ix: "index_ok m2 ?h []"
    using p res lt by (simp add: index_ok_def contents_def a0_def index_slots_eq)
  have "heap_ok m3 (?h\<lparr>hp_index := idx\<rparr>) ?bs"
    using ins by (intro heap_index_insert(1) [OF lay ix]) (simp_all add: index_slots_eq)
  then show "heap_ok (mem s') h ?bs" using res by simp
  show "start_address h = ?p" and "end_address h = e" using res by simp_all
qed


subsection \<open>Freeing on blocks\<close>

text \<open>
  The abstract effect of \<open>HeapFree\<close> on the blocks: the block becomes a hole and is united with a
  hole on its left and one on its right.
\<close>

definition free_blocks :: "block list \<Rightarrow> block \<Rightarrow> block list \<Rightarrow> block list \<times> block \<times> block list" where
  "free_blocks xs b ys =
     (let (zs, c) = (if xs \<noteq> [] \<and> b_hole (last xs)
            then (butlast xs, hole_block (b_pos (last xs)) (b_size (last xs) + b_size b))
            else (xs, hole_block (b_pos b) (b_size b)))
      in if ys \<noteq> [] \<and> b_hole (hd ys)
         then (zs, hole_block (b_pos c) (b_size c + b_size (hd ys)), tl ys)
         else (zs, c, ys))"

lemma tiles_adjacent:
  assumes "tiles a (xs @ b # c # ys) e"
  shows "unat (b_pos c) = unat (b_pos b) + unat (b_size b)"
  using assms by (auto simp: tiles_append)

lemma adjacent_word:
  assumes "laid_out m h (xs @ b # c # ys)"
  shows "b_pos c = b_pos b + b_size b" and "unat (b_size b + b_size c) = unat (b_size b) + unat (b_size c)"
proof -
  have t: "unat (b_pos c) = unat (b_pos b) + unat (b_size b)"
    using assms tiles_adjacent unfolding laid_out_def by blast
  have "unat (b_pos b) + unat (b_size b) < 2 ^ 64" and "unat (b_pos c) + unat (b_size c) < 2 ^ 64"
    using laid_out_bounds(3) [OF assms, of b] laid_out_bounds(3) [OF assms, of c] by simp_all
  then show "b_pos c = b_pos b + b_size b" "unat (b_size b + b_size c) = unat (b_size b) + unat (b_size c)"
    using t by (simp_all add: word_unat_eq_iff unat_add_u64)
qed

lemma merge_tiles:
  assumes "laid_out m h (xs @ b # c # ys)"
  shows "tiles (unat (start_address h)) (xs @ hole_block (b_pos b) (b_size b + b_size c) # ys) (unat (end_address h))"
  using assms adjacent_word(2) [OF assms] by (auto simp: laid_out_def tiles_append add.assoc)

lemma footer_of_left:
  assumes "laid_out m h (xs @ l # b # ys)"
  shows "b_pos b - sizeof_HeapFooter = b_footer l"
  using adjacent_word [OF assms] by (simp add: b_footer_def)

lemma header_of_right:
  assumes "laid_out m h (xs @ c # r # ys)"
  shows "b_footer c + sizeof_HeapFooter = b_pos r"
  using adjacent_word [OF assms] by (simp add: b_footer_def)

lemma set_hole_ok:
  assumes "laid_out m h (xs @ b # ys)" and "m' = set_hdr_is_hole (b_pos b) 1 m" and "\<not> b_hole b"
  shows "laid_out m' h (xs @ hole_block (b_pos b) (b_size b) # ys)"
    and "footer_ok m' (hole_block (b_pos b) (b_size b))" and "changes_only (block_zone b) m m'"
proof -
  let ?b = "hole_block (b_pos b) (b_size b)" and ?p = "b_pos b"
  note bnd = laid_out_bounds [OF assms(1), of b, simplified]
  have ok: "block_ok m b" using assms(1) by (simp add: laid_out_def)
  have ch: "changes_only (zone ?p 16) m m'"
    unfolding assms(2) using bnd by (intro field_changes) auto
  then show ch': "changes_only (block_zone b) m m'"
    using bnd by (auto intro: changes_only_mono)
  have "unat (b_footer b) = unat ?p + unat (b_size b) - 16"
    unfolding b_footer_def sizeof_HeapFooter_def using bnd by (intro block_addresses) auto
  then have "zone (b_footer b) 16 \<inter> zone ?p 16 = {}" and "unat (b_footer b) + 16 < 2 ^ 64"
    using bnd by auto
  note ft = hdr_outside(4,5) [OF ch this]
  then show ft': "footer_ok m' ?b"
    using ok assms(3) by (simp add: footer_ok_def block_ok_def b_footer_def)
  have "block_ok m' ?b"
    using ok by (simp add: block_ok_def assms(2) heap_simps)
  then show "laid_out m' h (xs @ ?b # ys)"
    using laid_out_replace [of m h xs "[b]" ys m' "[?b]"] assms(1) ch' by (auto simp: laid_out_def tiles_append)
qed


text \<open>Uniting two adjacent blocks by enlarging the left header.\<close>

lemma grow_header_ok:
  assumes "laid_out m h (xs @ b # c # ys)" and "b_hole b"
    and "changes_only (block_zone c) m m1" and "m' = set_hdr_size (b_pos b) (b_size b + b_size c) m1"
  shows "laid_out m' h (xs @ hole_block (b_pos b) (b_size b + b_size c) # ys)"
    and "changes_only (block_zone b \<union> block_zone c) m m'" and "changes_only (block_zone b) m1 m'"
proof -
  let ?n = "b_size b + b_size c" and ?p = "b_pos b"
  have lay: "laid_out m h ((xs @ [b]) @ c # ys)" using assms(1) by simp
  note bnd = laid_out_bounds [OF assms(1), of b, simplified]
  show ch: "changes_only (block_zone b) m1 m'"
    unfolding assms(4) using bnd by (intro field_changes) auto
  show ch': "changes_only (block_zone b \<union> block_zone c) m m'"
    by (rule changes_only_trans [OF changes_only_mono [OF assms(3)] changes_only_mono [OF ch]]) auto
  have "zone ?p 16 \<inter> block_zone c = {}"
    using bnd tiles_adjacent [of "unat (start_address h)" xs b c ys "unat (end_address h)"] assms(1)
    by (auto simp: laid_out_def)
  then have "hdr_magic m1 ?p = hdr_magic m ?p" "hdr_is_hole m1 ?p = hdr_is_hole m ?p"
    using bnd by (intro hdr_outside [OF assms(3)]; simp)+
  moreover have "block_ok m b" using assms(1) by (simp add: laid_out_def)
  ultimately have "block_ok m' (hole_block ?p ?n)"
    using assms(2) by (simp add: block_ok_def assms(4) heap_simps)
  then show "laid_out m' h (xs @ hole_block ?p ?n # ys)"
    using laid_out_replace [of m h xs "[b, c]" ys m' "[hole_block ?p ?n]"] assms(1) ch'
      merge_tiles [OF assms(1)] by simp
qed

text \<open>What the left unification leaves: a hole \<open>c\<close> that ends where the freed block ended.\<close>

definition united_left :: "block list \<Rightarrow> block \<Rightarrow> block list \<Rightarrow> block \<Rightarrow> bool \<Rightarrow> bool" where
  "united_left xs b zs c do_add \<longleftrightarrow> b_hole c \<and> b_footer c = b_footer b \<and>
     (if xs \<noteq> [] \<and> b_hole (last xs)
      then zs = butlast xs \<and> c = hole_block (b_pos (last xs)) (b_size (last xs) + b_size b) \<and> \<not> do_add
      else zs = xs \<and> c = hole_block (b_pos b) (b_size b) \<and> do_add)"

lemma free_left_merge:
  assumes "laid_out m h (xs @ l # b # ys)" and "b_hole l" and "footer_ok m l" and "b_hole b"
    and "footer_ok m b" and "free_left (b_pos b) (b_footer b) m = (hd', do_add, m')"
  defines "c \<equiv> hole_block (b_pos l) (b_size l + b_size b)"
  shows "hd' = b_pos l" and "\<not> do_add" and "laid_out m' h (xs @ c # ys)" and "b_footer c = b_footer b"
    and "changes_only (block_zone l \<union> block_zone b) m m'"
proof -
  have lb: "block_ok m l" "block_ok m b" using assms(1) by (simp_all add: laid_out_def)
  have lay: "laid_out m h ((xs @ [l]) @ b # ys)" using assms(1) by simp
  note bnd = laid_out_bounds [OF lay, of b, simplified] and lbnd = laid_out_bounds [OF assms(1), of l, simplified]
  let ?f = "b_footer b" and ?m1 = "set_ftr_header (b_footer b) (b_pos l) m"
  have "unat ?f = unat (b_pos b) + unat (b_size b) - 16"
    unfolding b_footer_def sizeof_HeapFooter_def using bnd by (intro block_addresses) auto
  then have ch: "changes_only (block_zone b) m ?m1" using bnd by (intro field_changes) auto
  have "block_zone l \<inter> block_zone b = {}"
    using tiles_adjacent [of "unat (start_address h)" xs l b ys "unat (end_address h)"] assms(1)
    by (auto simp: laid_out_def)
  then have "zone (b_pos l) 16 \<inter> block_zone b = {}" using lbnd by auto
  then have "hdr_size ?m1 (b_pos l) = b_size l"
    using lbnd lb(1) hdr_outside(3) [OF ch] by (simp add: block_ok_def)
  then have res: "hd' = b_pos l \<and> \<not> do_add \<and> m' = set_hdr_size (b_pos l) (b_size l + b_size b) ?m1"
    using assms(2,3,6) lb footer_of_left [OF assms(1)]
    by (auto simp: free_left_def Let_def footer_ok_def block_ok_def split: if_splits)
  then have "m' = set_hdr_size (b_pos l) (b_size l + b_size b) ?m1" by blast
  note g = grow_header_ok [OF assms(1,2) ch this]
  show "hd' = b_pos l" "\<not> do_add" using res by auto
  show "laid_out m' h (xs @ c # ys)" "changes_only (block_zone l \<union> block_zone b) m m'"
    using g by (simp_all add: c_def)
  show "b_footer c = b_footer b"
    using adjacent_word(1) [OF assms(1)] by (simp add: c_def b_footer_def add.assoc)
qed

lemma free_left_keep:
  assumes "ftr_magic m (b_pos b - sizeof_HeapFooter) = HEAP_MAGIC \<longrightarrow>
      hdr_is_hole m (ftr_header m (b_pos b - sizeof_HeapFooter)) \<noteq> 1"
  shows "free_left (b_pos b) f m = (b_pos b, True, m)"
  using assms by (simp add: free_left_def Let_def)

lemma free_left_used:
  assumes "laid_out m h (xs @ l # b # ys)" and "\<not> b_hole l"
  shows "free_left (b_pos b) f m = (b_pos b, True, m)"
proof (rule free_left_keep)
  have "block_ok m l" using assms(1) by (simp add: laid_out_def)
  then show "ftr_magic m (b_pos b - sizeof_HeapFooter) = HEAP_MAGIC \<longrightarrow>
      hdr_is_hole m (ftr_header m (b_pos b - sizeof_HeapFooter)) \<noteq> 1"
    using assms(2) footer_of_left [OF assms(1)] by (simp add: block_ok_def footer_ok_def)
qed


text \<open>
  What \<open>HeapFree\<close> relies on to the left of the block: the hole before it has a valid footer, and
  the bytes below the first block do not look like a footer.
\<close>

definition left_readable :: "mem \<Rightarrow> block list \<Rightarrow> block \<Rightarrow> bool" where
  "left_readable m xs b \<longleftrightarrow>
     (if xs = [] then ftr_magic m (b_pos b - sizeof_HeapFooter) \<noteq> HEAP_MAGIC
      else b_hole (last xs) \<longrightarrow> footer_ok m (last xs))"

definition free_zone :: "block list \<Rightarrow> block \<Rightarrow> nat set" where
  "free_zone bs b = (\<Union>c\<in>{c \<in> set bs. c = b \<or> b_hole c}. block_zone c)"

lemma free_zone_upper: "c \<in> set bs \<Longrightarrow> c = b \<or> b_hole c \<Longrightarrow> block_zone c \<subseteq> free_zone bs b"
  unfolding free_zone_def by (rule UN_upper) simp

lemma free_zone_least:
  "(\<And>c. c \<in> set bs \<Longrightarrow> c = b \<or> b_hole c \<Longrightarrow> block_zone c \<subseteq> Z) \<Longrightarrow> free_zone bs b \<subseteq> Z"
  unfolding free_zone_def by (rule UN_least) simp

lemma free_left_ok:
  assumes "laid_out m h (xs @ b # ys)" and "b_hole b" and "footer_ok m b" and "left_readable m xs b"
    and "free_left (b_pos b) (b_footer b) m = (hd', do_add, m')"
  obtains zs c where "hd' = b_pos c" and "united_left xs b zs c do_add" and "laid_out m' h (zs @ c # ys)"
    and "changes_only (free_zone (xs @ [b]) b) m m'"
proof (cases "xs \<noteq> [] \<and> b_hole (last xs)")
  case True
  then obtain xs' l where xs: "xs = xs' @ [l]" and l: "b_hole l" by (cases xs rule: rev_cases) auto
  have lay: "laid_out m h (xs' @ l # b # ys)" and fl: "footer_ok m l"
    using assms(1,4) xs l by (simp_all add: left_readable_def)
  note fm = free_left_merge [OF lay l fl assms(2,3,5)]
  have "changes_only (free_zone (xs @ [b]) b) m m'"
    by (rule changes_only_mono [OF fm(5)]) (use xs l in \<open>auto simp: free_zone_def\<close>)
  then show ?thesis
    using fm xs l by (intro that [of "hole_block (b_pos l) (b_size l + b_size b)" xs'])
      (simp_all add: united_left_def)
next
  case False
  have "free_left (b_pos b) (b_footer b) m = (b_pos b, True, m)"
  proof (cases xs rule: rev_cases)
    case Nil
    with assms(4) show ?thesis by (intro free_left_keep) (simp add: left_readable_def)
  next
    case (snoc xs' l)
    with False assms(1) show ?thesis by (intro free_left_used [of m h xs' l b ys]) simp_all
  qed
  moreover have "b = hole_block (b_pos b) (b_size b)" using assms(2) by simp
  ultimately show ?thesis
    using False assms(1,2,5) by (intro that [of b xs]) (simp_all add: united_left_def)
qed

lemma free_right_merge:
  assumes lay: "laid_out m h (zs @ c # r # ys)" and c: "b_hole c" and r: "b_hole r"
    and ix: "index_ok m h ps" and mem: "b_pos r \<in> set ps"
    and run: "free_right (b_pos c) (b_footer c) (hp_index h) m = (footer, index, m')"
  shows "laid_out m' h (zs @ hole_block (b_pos c) (b_size c + b_size r) # ys)"
    and "index_ok m' (h\<lparr>hp_index := index\<rparr>) (remove1 (b_pos r) ps)"
    and "changes_only (block_zone c \<union> index_zone h) m m'"
    and "footer = b_footer (hole_block (b_pos c) (b_size c + b_size r))"
    and "index_zone (h\<lparr>hp_index := index\<rparr>) = index_zone h"
proof -
  let ?n = "b_size c + b_size r" and ?p = "b_pos c"
  define m1 where "m1 = set_hdr_size ?p ?n m"
  note g = grow_header_ok [OF lay c changes_only_refl m1_def]
  have blk: "block_ok m c" "block_ok m r" using lay by (simp_all add: laid_out_def)
  have cm: "c \<in> set (zs @ c # r # ys)" and rm: "r \<in> set (zs @ c # r # ys)" by simp_all
  have ix1: "index_ok m1 h ps" by (rule index_frame [OF ix g(3)]) (rule index_ok_apart [OF lay ix cm])
  have "set (contents m1 (hp_index h)) = set ps" using ix1 unfolding index_ok_def by (metis set_mset_mset)
  with mem obtain i where i: "i < unat (arr_size (hp_index h))" "contents m1 (hp_index h) ! i = b_pos r"
    "ucast (index_of m1 (hp_index h) (b_pos r) 0) = (of_nat i :: u32)"
    using index_of_found by blast
  have "zone (b_pos r) 16 \<inter> block_zone c = {}"
    using tiles_adjacent [of "unat (start_address h)" zs c r ys "unat (end_address h)"] lay
    by (auto simp: laid_out_def)
  then have sr: "hdr_size m1 (b_pos r) = b_size r"
    using hdr_outside(3) [OF g(3)] laid_out_bounds [OF lay rm] blk(2) by (simp add: block_ok_def)
  have rem: "ArrayRemove m1 (hp_index h) (of_nat i) = (index, m')"
    and foot: "footer = b_pos r + b_size r - sizeof_HeapFooter"
    using run blk c r i(3) sr header_of_right [OF lay]
    by (auto simp: free_right_def Let_def block_ok_def m1_def split: prod.splits)
  have "i < length ps" using index_ok_size [OF ix1] i(1) by simp
  note ir = index_remove_hole [OF g(1) ix1 this i(2) rem]
  show "laid_out m' h (zs @ hole_block ?p ?n # ys)" "index_ok m' (h\<lparr>hp_index := index\<rparr>) (remove1 (b_pos r) ps)"
    and "index_zone (h\<lparr>hp_index := index\<rparr>) = index_zone h"
    by (rule ir)+
  show "changes_only (block_zone c \<union> index_zone h) m m'"
    by (rule changes_only_trans [OF changes_only_mono [OF g(3)] changes_only_mono [OF ir(3)]]) auto
  show "footer = b_footer (hole_block ?p ?n)"
    using foot adjacent_word(1) [OF lay] by (simp add: b_footer_def add.assoc)
qed

lemma free_right_keep:
  assumes "laid_out m h (zs @ c # r # ys)" and "\<not> b_hole r"
  shows "free_right (b_pos c) (b_footer c) index m = (b_footer c, index, m)"
  using assms header_of_right [OF assms(1)]
  by (simp add: free_right_def Let_def laid_out_def block_ok_def)

lemma no_contract:
  assumes "laid_out m h (zs @ c # r # ys)"
  shows "free_contract hd' (b_footer c) th h m = Some (h, m)"
proof -
  have "unat (b_pos r) < unat (end_address h)"
    using laid_out_bounds [OF assms, of r] by simp
  then have "b_footer c + sizeof_HeapFooter \<noteq> end_address h"
    unfolding header_of_right [OF assms] by auto
  then show ?thesis by (simp add: free_contract_def)
qed


lemma free_zone_apart:
  assumes "laid_out m h bs" and "index_ok m' h ps" and "set cs \<subseteq> set bs"
  shows "free_zone cs b \<inter> index_zone h = {}"
proof -
  have "block_zone c \<inter> index_zone h = {}" if "c \<in> set cs" for c
    using that assms(3) index_ok_apart [OF assms(1,2)] by blast
  then show ?thesis unfolding free_zone_def by blast
qed

lemma footer_ok_frame:
  assumes "laid_out m0 h bs" and "l \<in> set bs" and "changes_only A m m'" and "block_zone l \<inter> A = {}"
  shows "ftr_magic m' (b_footer l) = ftr_magic m (b_footer l)"
    and "ftr_header m' (b_footer l) = ftr_header m (b_footer l)" and "footer_ok m' l = footer_ok m l"
proof -
  note bnd = laid_out_bounds [OF assms(1,2)]
  have f: "unat (b_footer l) = unat (b_pos l) + unat (b_size l) - 16"
    unfolding b_footer_def sizeof_HeapFooter_def using bnd by (intro block_addresses) auto
  then have "zone (b_footer l) 16 \<subseteq> block_zone l" using bnd by auto
  then have "zone (b_footer l) 16 \<inter> A = {}" using assms(4) by blast
  moreover have "unat (b_footer l) + 16 < 2 ^ 64" using f bnd by auto
  ultimately show "ftr_magic m' (b_footer l) = ftr_magic m (b_footer l)"
    "ftr_header m' (b_footer l) = ftr_header m (b_footer l)"
    by (rule hdr_outside(4,5) [OF assms(3)])+
  then show "footer_ok m' l = footer_ok m l" by (simp add: footer_ok_def)
qed

lemma left_readable_frame:
  assumes "laid_out m h (xs @ b # ys)" and "index_ok m h ps" and "changes_only (block_zone b) m m'"
  shows "left_readable m' xs b = left_readable m xs b"
proof (cases xs rule: rev_cases)
  case Nil
  have "16 \<le> unat (b_pos b)"
    using laid_out_bounds(1) [OF assms(1), of b] assms(2) by (simp add: index_ok_def index_slots_eq)
  then have "unat (b_pos b - 16) = unat (b_pos b) - 16" by (subst unat_sub_u64) simp_all
  then have "zone (b_pos b - 16) 16 \<inter> block_zone b = {}" and "unat (b_pos b - 16) + 16 < 2 ^ 64"
    using unat_lt_2_64 [of "b_pos b"] \<open>16 \<le> unat (b_pos b)\<close> by auto
  from hdr_outside(4) [OF assms(3) this] show ?thesis
    by (simp add: left_readable_def Nil sizeof_HeapFooter_def)
next
  case (snoc zs l)
  have l: "l \<in> set (xs @ b # ys)" using snoc by simp
  have "tiles (unat (start_address h)) (xs @ b # ys) (unat (end_address h))"
    using assms(1) by (simp add: laid_out_def)
  then have "block_zone l \<inter> block_zone b = {}" by (rule tiles_disjoint) (simp add: snoc)
  then have "footer_ok m' l = footer_ok m l" by (rule footer_ok_frame [OF assms(1) l assms(3)])
  then show ?thesis by (simp add: left_readable_def snoc)
qed

lemma free_finish:
  assumes lay: "laid_out m h (zs @ c # ws)" and ws: "ws \<noteq> []" and c: "b_hole c"
    and ix: "index_ok m h ps" and len: "length ps < index_slots"
    and ps: "mset ps = mset (holes zs @ (if do_add then [] else [b_pos c]) @ holes ws)"
  obtains h' m' where "free_end (b_pos c) (b_footer c) th do_add h m = Some (h', m')"
    and "heap_ok m' h' (zs @ c # ws)" and "changes_only (index_zone h) m m'"
proof -
  obtain r ys where ys: "ws = r # ys" using ws by (cases ws) auto
  note nc = no_contract [OF lay [unfolded ys]]
  show ?thesis
  proof (cases do_add)
    case True
    obtain index m' where ins: "ArrayInsert m (hp_index h) (b_pos c) = (index, m')" by fastforce
    have "mset (b_pos c # ps) = mset (holes (zs @ c # ws))" using ps True c by simp
    note ok = heap_index_insert [OF lay ix len this ins]
    show ?thesis by (rule that [OF _ ok]) (simp add: free_end_def True nc ins)
  next
    case False
    then have "mset ps = mset (holes (zs @ c # ws))" using ps c by simp
    then have "index_ok m h (holes (zs @ c # ws))" using ix index_ok_mset by blast
    with lay nc False show ?thesis by (intro that [of h m]) (simp_all add: heap_ok_def free_end_def)
  qed
qed

lemma HeapFree_run:
  assumes "unat (b_pos b) + 16 < 2 ^ 64" and "hdr_size m (b_pos b) = b_size b"
    and "free_left (b_pos b) (b_footer b) (set_hdr_is_hole (b_pos b) 1 m) = (hd', do_add, m1)"
    and "free_right hd' (b_footer b) (hp_index h) m1 = (footer, index, m2)"
  shows "HeapFree (b_pos b + 16) h m =
    free_end hd' footer (b_footer b + sizeof_HeapFooter) do_add (h\<lparr>hp_index := index\<rparr>) m2"
proof -
  have "unat (b_pos b + 16) \<noteq> 0" using assms(1) by (subst unat_add_u64) auto
  then have "b_pos b + 16 \<noteq> 0" by auto
  moreover have "b_pos b + b_size b - sizeof_HeapFooter = b_footer b"
    and "b_footer b + sizeof_HeapFooter = b_pos b + b_size b" by (simp_all add: b_footer_def)
  ultimately show ?thesis
    using assms(2-4) by (simp add: HeapFree_def Let_def sizeof_HeapHeader_def)
qed

lemma united_left_holes:
  "united_left xs b zs c do_add \<Longrightarrow>
   mset (holes xs) = mset (holes zs @ (if do_add then [] else [b_pos c]))"
  by (cases xs rule: rev_cases) (auto simp: united_left_def split: if_splits)

text \<open>What the right unification and the end make of the state after the left unification.\<close>

lemma free_right_finish:
  assumes lay: "laid_out m h (zs @ c # r # ys)" and c: "b_hole c" and ix: "index_ok m h (holes (xs @ r # ys))"
    and left: "mset (holes xs) = mset (holes zs @ (if do_add then [] else [b_pos c]))"
    and len: "length (holes (xs @ r # ys)) < index_slots"
    and run: "free_right (b_pos c) (b_footer c) (hp_index h) m = (footer, index, m2)"
    and ys: "b_hole r \<longrightarrow> ys \<noteq> []"
  obtains h' m' where "free_end (b_pos c) footer th do_add (h\<lparr>hp_index := index\<rparr>) m2 = Some (h', m')"
    and "heap_ok m' h' (zs @ (if b_hole r then hole_block (b_pos c) (b_size c + b_size r) # ys else c # r # ys))"
    and "changes_only (block_zone c \<union> index_zone h) m m'"
proof (cases "b_hole r")
  case True
  let ?d = "hole_block (b_pos c) (b_size c + b_size r)" and ?h = "h\<lparr>hp_index := index\<rparr>"
  let ?ps = "remove1 (b_pos r) (holes (xs @ r # ys))"
  have "b_pos r \<in> set (holes (xs @ r # ys))" using True by simp
  note fm = free_right_merge [OF lay c True ix this run]
  have "mset ?ps = mset (holes zs @ (if do_add then [] else [b_pos ?d]) @ holes ys)" using True left by simp
  moreover have "length ?ps < index_slots" using len True by (simp add: length_remove1)
  ultimately obtain h' m' where "free_end (b_pos ?d) (b_footer ?d) th do_add ?h m2 = Some (h', m')"
    and "heap_ok m' h' (zs @ ?d # ys)" and "changes_only (index_zone ?h) m2 m'"
    using free_finish [of m2 ?h zs ?d ys ?ps do_add th] fm(1,2) ys True by auto
  moreover from this fm(3,5) have "changes_only (block_zone c \<union> index_zone h) m m'"
    by (auto intro: changes_only_trans changes_only_mono)
  ultimately show ?thesis using that fm(4) True by simp
next
  case False
  have eq: "footer = b_footer c" "index = hp_index h" "m2 = m"
    using run free_right_keep [OF lay False] by simp_all
  have "mset (holes (xs @ r # ys)) = mset (holes zs @ (if do_add then [] else [b_pos c]) @ holes (r # ys))"
    using left by simp
  then obtain h' m' where "free_end (b_pos c) (b_footer c) th do_add h m = Some (h', m')"
    and "heap_ok m' h' (zs @ c # r # ys)" and "changes_only (index_zone h) m m'"
    using free_finish [OF lay _ c ix len, of do_add th] by auto
  moreover from this(3) have "changes_only (block_zone c \<union> index_zone h) m m'"
    by (rule changes_only_mono) simp
  ultimately show ?thesis using that eq False by simp
qed


lemma free_blocks_united:
  assumes "united_left xs (hole_block (b_pos b) (b_size b)) zs c do_add"
  shows "free_blocks xs b (r # ys) =
    (if b_hole r then (zs, hole_block (b_pos c) (b_size c + b_size r), ys) else (zs, c, r # ys))"
  using assms by (auto simp: free_blocks_def united_left_def split: if_splits)

lemma united_left_zone:
  assumes "laid_out m h (xs @ b # ys)" and "united_left xs (hole_block (b_pos b) (b_size b)) zs c do_add"
  shows "block_zone c \<subseteq> free_zone (xs @ [b]) b"
proof (cases "xs \<noteq> [] \<and> b_hole (last xs)")
  case True
  then obtain xs' l where xs: "xs = xs' @ [l]" "b_hole l" by (cases xs rule: rev_cases) auto
  have lay: "laid_out m h (xs' @ l # b # ys)" using assms(1) xs by simp
  have "unat (b_pos b) = unat (b_pos l) + unat (b_size l)"
    using lay tiles_adjacent unfolding laid_out_def by blast
  moreover have "c = hole_block (b_pos l) (b_size l + b_size b)" using assms(2) xs by (simp add: united_left_def)
  ultimately have "block_zone c \<subseteq> block_zone l \<union> block_zone b"
    using adjacent_word(2) [OF lay] by auto
  then show ?thesis using xs by (auto simp: free_zone_def)
next
  case False
  then have "c = hole_block (b_pos b) (b_size b)" using assms(2) by (auto simp: united_left_def)
  then show ?thesis by (auto simp: free_zone_def)
qed

text \<open>\<open>HeapFree\<close> up to and including the left unification.\<close>

lemma free_begin:
  assumes lay: "laid_out m h (xs @ b # ys)" and ix: "index_ok m h (holes (xs @ b # ys))"
    and b: "\<not> b_hole b" and left: "left_readable m xs b"
  obtains zs c do_add m1
  where "free_left (b_pos b) (b_footer b) (set_hdr_is_hole (b_pos b) 1 m) = (b_pos c, do_add, m1)"
    and "united_left xs (hole_block (b_pos b) (b_size b)) zs c do_add" and "laid_out m1 h (zs @ c # ys)"
    and "index_ok m1 h (holes (xs @ ys))" and "changes_only (free_zone (xs @ [b]) b) m m1"
proof -
  let ?b = "hole_block (b_pos b) (b_size b)" and ?bs = "xs @ b # ys" and ?Z = "free_zone (xs @ [b]) b"
  define m0 where "m0 = set_hdr_is_hole (b_pos b) 1 m"
  note sh = set_hole_ok [OF lay m0_def b]
  have "left_readable m0 xs b" using left left_readable_frame [OF lay ix sh(3)] by simp
  then have lr: "left_readable m0 xs ?b" by (simp add: left_readable_def)
  obtain hd' do_add m1 where fl: "free_left (b_pos b) (b_footer b) m0 = (hd', do_add, m1)"
    by (cases "free_left (b_pos b) (b_footer b) m0")
  then have fl': "free_left (b_pos ?b) (b_footer ?b) m0 = (hd', do_add, m1)" by (simp add: b_footer_def)
  have hb: "b_hole ?b" by simp
  obtain zs c where c: "hd' = b_pos c" "united_left xs ?b zs c do_add"
    "laid_out m1 h (zs @ c # ys)" and ch1: "changes_only (free_zone (xs @ [?b]) ?b) m0 m1"
    by (rule free_left_ok [OF sh(1) hb sh(2) lr fl'])
  have bz: "block_zone b \<subseteq> ?Z" by (rule free_zone_upper) simp_all
  have "free_zone (xs @ [?b]) ?b \<subseteq> ?Z"
  proof (rule free_zone_least)
    fix c assume c: "c \<in> set (xs @ [?b])" "c = ?b \<or> b_hole c"
    show "block_zone c \<subseteq> ?Z"
    proof (cases "c = ?b")
      case True
      then show ?thesis using bz by simp
    next
      case False
      with c show ?thesis by (intro free_zone_upper) auto
    qed
  qed
  with bz have ch: "changes_only ?Z m m1"
    by (rule changes_only_trans [OF changes_only_mono [OF sh(3)] changes_only_mono [OF ch1]])
  have bm: "set (xs @ [b]) \<subseteq> set ?bs" and "holes ?bs = holes (xs @ ys)" using b by auto
  then have "index_ok m1 h (holes (xs @ ys))"
    using index_frame [OF ix ch free_zone_apart [OF lay ix bm]] by simp
  from that [OF fl [unfolded m0_def c(1)] c(2,3) this ch] show ?thesis .
qed

lemma HeapFree_interior:
  assumes ok: "heap_ok m h (xs @ b # ys)" and b: "\<not> b_hole b" and left: "left_readable m xs b"
    and fb: "free_blocks xs b ys = (zs, c, ws)" and ws: "ws \<noteq> []"
    and len: "length (holes (xs @ b # ys)) < index_slots"
  obtains h' m' where "HeapFree (b_pos b + 16) h m = Some (h', m')" and "heap_ok m' h' (zs @ c # ws)"
    and "changes_only (free_zone (xs @ [b]) b \<union> index_zone h) m m'"
proof -
  let ?Z = "free_zone (xs @ [b]) b"
  have lay: "laid_out m h (xs @ b # ys)" and ix: "index_ok m h (holes (xs @ b # ys))"
    using ok by (simp_all add: heap_ok_def)
  obtain r ys' where ys: "ys = r # ys'" using fb ws by (cases ys) (auto simp: free_blocks_def split: if_splits)
  obtain zs' c' do_add m1
    where fl: "free_left (b_pos b) (b_footer b) (set_hdr_is_hole (b_pos b) 1 m) = (b_pos c', do_add, m1)"
    and un: "united_left xs (hole_block (b_pos b) (b_size b)) zs' c' do_add"
    and lay1: "laid_out m1 h (zs' @ c' # r # ys')" and ix1: "index_ok m1 h (holes (xs @ r # ys'))"
    and ch: "changes_only ?Z m m1"
    by (rule free_begin [OF lay ix b left]) (simp only: ys)
  obtain footer index m2 where fr: "free_right (b_pos c') (b_footer c') (hp_index h) m1 = (footer, index, m2)"
    by (cases "free_right (b_pos c') (b_footer c') (hp_index h) m1")
  have c': "b_hole c'" "b_footer c' = b_footer b" using un by (auto simp: united_left_def b_footer_def)
  have res: "zs @ c # ws = zs' @ (if b_hole r then hole_block (b_pos c') (b_size c' + b_size r) # ys' else c' # r # ys')"
    "b_hole r \<longrightarrow> ys' \<noteq> []"
    using fb ws free_blocks_united [OF un, of r ys'] ys by (auto split: if_splits)
  have len': "length (holes (xs @ r # ys')) < index_slots" using len b ys by simp
  obtain h' m' where fe: "free_end (b_pos c') footer (b_footer b + sizeof_HeapFooter) do_add (h\<lparr>hp_index := index\<rparr>) m2 = Some (h', m')"
    and ok': "heap_ok m' h' (zs @ c # ws)" and ch2: "changes_only (block_zone c' \<union> index_zone h) m1 m'"
    by (rule free_right_finish [OF lay1 c'(1) ix1 united_left_holes [OF un] len' fr res(2)])
       (simp only: res(1))
  have "hdr_size m (b_pos b) = b_size b" and "unat (b_pos b) + 16 < 2 ^ 64"
    using lay laid_out_bounds [OF lay, of b] by (auto simp: laid_out_def block_ok_def)
  then have run: "HeapFree (b_pos b + 16) h m = Some (h', m')"
    using HeapFree_run [of b m "b_pos c'" do_add m1 h footer index m2] fl fr fe c' by simp
  have "block_zone c' \<subseteq> ?Z" by (rule united_left_zone [OF lay un])
  then have "changes_only (?Z \<union> index_zone h) m m'"
    by (intro changes_only_trans [OF changes_only_mono [OF ch] changes_only_mono [OF ch2]]) auto
  with run ok' show ?thesis by (rule that)
qed


lemma used_apart:
  assumes "laid_out m h (xs @ b # ys)" and "index_ok m h ps" and "d \<in> set (xs @ ys)" and "\<not> b_hole d"
  shows "block_zone d \<inter> (free_zone (xs @ [b]) b \<union> index_zone h) = {}"
proof -
  let ?bs = "xs @ b # ys"
  have d: "d \<in> set ?bs" using assms(3) by auto
  have t: "tiles (unat (start_address h)) ?bs (unat (end_address h))" using assms(1) by (simp add: laid_out_def)
  have "d \<noteq> b"
    using tiles_disjoint [OF t assms(3)] laid_out_bounds(4) [OF assms(1) d] by auto
  have "block_zone d \<inter> block_zone c = {}" if c: "c \<in> set (xs @ [b])" "c = b \<or> b_hole c" for c
  proof -
    have "c \<in> set ?bs" using c(1) by auto
    then obtain as es where bs: "?bs = as @ c # es" by (meson split_list)
    have "d \<noteq> c" using c(2) assms(4) \<open>d \<noteq> b\<close> by auto
    then have "d \<in> set (as @ es)" using d bs by auto
    with t bs show ?thesis using tiles_disjoint by metis
  qed
  then have "block_zone d \<inter> free_zone (xs @ [b]) b = {}" unfolding free_zone_def by blast
  moreover have "block_zone d \<inter> index_zone h = {}" by (rule index_ok_apart [OF assms(1,2) d])
  ultimately show ?thesis by blast
qed

subsection \<open>Contraction\<close>

lemma contract_loop_returns:
  assumes "0x1000 \<le> sz"
  shows "\<exists>r. contract_loop sz offset = Some r"
proof (induction "unat offset" arbitrary: offset rule: less_induct)
  case less
  show ?case
  proof (cases "sz < offset")
    case True
    then have "0x1000 \<le> unat offset" using assms by (simp add: word_le_nat_alt word_less_nat_alt)
    then have "unat (offset - 0x1000) = unat offset - 0x1000" by (subst unat_sub_u64) simp_all
    with \<open>0x1000 \<le> unat offset\<close> have "unat (offset - 0x1000) < unat offset" by simp
    from less [OF this] show ?thesis using True by (subst contract_loop.simps) simp
  next
    case False
    then show ?thesis by (subst contract_loop.simps) simp
  qed
qed

definition contracted_size :: "u64 \<Rightarrow> u64" where
  "contracted_size sz = (if sz AND 0x1000 \<noteq> 0 then HEAP_MIN_SIZE else max sz HEAP_MIN_SIZE)"

lemma and_power: "(x :: u64) AND 2 ^ k = (if bit x k then 2 ^ k else 0)"
  by (rule bit_word_eqI) (auto simp: bit_simps)

lemma HeapContract_total:
  "HeapContract heap sz =
     Some (contracted_size sz, heap\<lparr>end_address := start_address heap + contracted_size sz\<rparr>)"
proof -
  have b: "sz AND 0x1000 = 0x1000" if "sz AND 0x1000 \<noteq> 0"
    using that and_power [of sz 12] by (simp split: if_splits)
  define n where "n = contracted_size sz"
  have n: "(let sz = (if sz AND 0x1000 \<noteq> 0 then (sz AND 0x1000) + 0x1000 else sz)
     in if sz < HEAP_MIN_SIZE then HEAP_MIN_SIZE else sz) = n"
    using b by (auto simp: n_def contracted_size_def HEAP_MIN_SIZE_def max_def Let_def not_le)
  have "0x1000 \<le> n"
    by (auto simp: n_def contracted_size_def HEAP_MIN_SIZE_def max_def word_le_nat_alt)
  then obtain r where "contract_loop n (end_address heap - start_address heap - 0x1000) = Some r"
    using contract_loop_returns by blast
  with n show ?thesis by (simp add: HeapContract_def Let_def n_def)
qed


subsection \<open>Interface\<close>

text \<open>
  What the users of an allocator rely on: its state has blocks that never overlap, an allocation
  that fits a hole succeeds, leaves every used block and its bytes alone and adds one used block.
\<close>

definition payload :: "addr \<Rightarrow> nat \<Rightarrow> nat set" where
  "payload r n = zone r n"

definition b_payload :: "block \<Rightarrow> nat set" where
  "b_payload u = {unat (b_pos u) + 16..<unat (b_pos u) + unat (b_size u) - 16}"

lemma b_payload_sub: "b_payload u \<subseteq> block_zone u"
  by (auto simp: b_payload_def)

definition allocated :: "block list \<Rightarrow> block list \<Rightarrow> addr \<Rightarrow> u64 \<Rightarrow> bool" where
  "allocated bs bs' r n \<longleftrightarrow> (\<exists>u\<in>set bs'. \<not> b_hole u \<and> r = b_pos u + 16 \<and> payload r (unat n) \<subseteq> b_payload u \<and>
     (\<forall>c\<in>set bs. \<not> b_hole c \<longrightarrow> c \<in> set bs' \<and> block_zone c \<inter> block_zone u = {}))"

locale block_allocator =
  fixes inv :: "'s \<Rightarrow> block list \<Rightarrow> bool"
    and bytes :: "'s \<Rightarrow> mem"
    and allocate :: "u32 \<Rightarrow> 's \<Rightarrow> (addr \<times> 's) option"
  assumes allocate_ok: "inv s bs \<Longrightarrow> b \<in> set bs \<Longrightarrow> b_hole b \<Longrightarrow> fits (ucast n) b \<Longrightarrow>
      \<exists>r s' bs'. allocate n s = Some (r, s') \<and> inv s' bs' \<and> allocated bs bs' r (ucast n) \<and>
        (\<forall>c\<in>set bs. \<not> b_hole c \<longrightarrow> (\<forall>x. unat x \<in> block_zone c \<longrightarrow> bytes s' x = bytes s x))"
begin

lemma allocate_twice:
  assumes "inv s bs" and "b \<in> set bs" "b_hole b" "fits (ucast n) b"
  shows "\<exists>r s' bs'. allocate n s = Some (r, s') \<and> inv s' bs' \<and>
    (\<forall>k b'. b' \<in> set bs' \<and> b_hole b' \<and> fits (ucast k) b' \<longrightarrow>
      (\<exists>q s''. allocate k s' = Some (q, s'') \<and> payload r (unat n) \<inter> payload q (unat k) = {} \<and>
        (\<forall>x. unat x \<in> payload r (unat n) \<longrightarrow> bytes s'' x = bytes s' x)))"
proof -
  from allocate_ok [OF assms] obtain r s' bs' where 1: "allocate n s = Some (r, s')" "inv s' bs'" "allocated bs bs' r (ucast n)"
    by blast
  from 1(3) obtain u where u: "u \<in> set bs'" "\<not> b_hole u" "payload r (unat n) \<subseteq> block_zone u"
    using b_payload_sub unfolding allocated_def unat_ucast_up by blast
  have "\<exists>q s''. allocate k s' = Some (q, s'') \<and> payload r (unat n) \<inter> payload q (unat k) = {} \<and>
      (\<forall>x. unat x \<in> payload r (unat n) \<longrightarrow> bytes s'' x = bytes s' x)"
    if b': "b' \<in> set bs'" "b_hole b'" "fits (ucast k) b'" for k b'
  proof -
    from allocate_ok [OF 1(2) b'] obtain q s'' bs'' where 2: "allocate k s' = Some (q, s'')" "allocated bs' bs'' q (ucast k)"
      and keep: "\<forall>c\<in>set bs'. \<not> b_hole c \<longrightarrow> (\<forall>x. unat x \<in> block_zone c \<longrightarrow> bytes s'' x = bytes s' x)"
      by blast
    from 2(2) u(1,2) obtain v where "payload q (unat k) \<subseteq> block_zone v" "block_zone u \<inter> block_zone v = {}"
      using b_payload_sub unfolding allocated_def unat_ucast_up by blast
    then have "payload r (unat n) \<inter> payload q (unat k) = {}" using u(3) by blast
    moreover have "\<forall>x. unat x \<in> payload r (unat n) \<longrightarrow> bytes s'' x = bytes s' x" using keep u by blast
    ultimately show ?thesis using 2(1) by blast
  qed
  with 1(1,2) show ?thesis by blast
qed

end

lemma split_hole_first:
  assumes "fits n b" and "unat (b_pos b) + unat (b_size b) < 2 ^ 64"
  obtains u where "u \<in> set (split_hole n b)" and "\<not> b_hole u" and "b_pos u = b_pos b"
    and "payload (b_pos b + 16) (unat n) \<subseteq> b_payload u" and "block_zone u \<subseteq> block_zone b"
proof -
  obtain n' k where fit: "alloc_fit n (b_size b) = (n', k)" by (cases "alloc_fit n (b_size b)")
  note f = alloc_fit_facts [OF assms(1) fit]
  have "unat (b_pos b + 16) = unat (b_pos b) + 16" using assms by (subst unat_add_u64) auto
  then show ?thesis
    using f by (intro that [of "used_block (b_pos b) k"]) (auto simp: split_hole_def fit payload_def b_payload_def Let_def)
qed

lemma HeapAllocate_allocated:
  assumes ok: "heap_ok (mem s) h bs" and b: "b \<in> set bs" "b_hole b" "fits n b"
  obtains r h' m' bs' where "HeapAllocate n 0 h s = Some (r, h', s\<lparr>mem := m'\<rparr>)"
    and "heap_ok m' h' bs'" and "allocated bs bs' r n"
    and "\<forall>c\<in>set bs. \<not> b_hole c \<longrightarrow> (\<forall>x. unat x \<in> block_zone c \<longrightarrow> m' x = mem s x)"
proof -
  obtain xs a ys i h' m' where bs: "bs = xs @ a # ys" and a: "b_hole a" "fits n a"
    and run: "HeapAllocate n 0 h s = Some (b_pos a + 16, h', s\<lparr>mem := m'\<rparr>)"
    and ok': "heap_ok m' h' (xs @ split_hole n a @ ys)"
    and ch: "changes_only (block_zone a \<union> index_zone h) (mem s) m'"
    and "i < unat (arr_size (hp_index h))" "contents (mem s) (hp_index h) ! i = b_pos a"
    and "\<forall>j<i. hdr_size (mem s) (contents (mem s) (hp_index h) ! j) < n + 32"
    by (rule HeapAllocate_hole [OF assms])
  have lay: "laid_out (mem s) h (xs @ a # ys)" and ix: "index_ok (mem s) h (holes (xs @ a # ys))"
    using ok bs by (simp_all add: heap_ok_def)
  note keep = used_survive [OF lay ix a(1) _ _ ch, folded bs]
  have "unat (b_pos a) + unat (b_size a) < 2 ^ 64" using laid_out_bounds(3) [OF lay] by simp
  from split_hole_first [OF a(2) this] obtain u where u: "u \<in> set (split_hole n a)" "\<not> b_hole u"
    "b_pos u = b_pos a" "payload (b_pos a + 16) (unat n) \<subseteq> b_payload u" "block_zone u \<subseteq> block_zone a" .
  have "allocated bs (xs @ split_hole n a @ ys) (b_pos a + 16) n"
    unfolding allocated_def
  proof (intro bexI [of _ u] conjI ballI impI)
    fix c assume c: "c \<in> set bs" "\<not> b_hole c"
    show "c \<in> set (xs @ split_hole n a @ ys)" using keep(1) [OF c] by auto
    show "block_zone c \<inter> block_zone u = {}" using keep(2) [OF c] u(5) by blast
  qed (use u in auto)
  with run ok' keep(3) show ?thesis by (intro that) auto
qed


lemma kmalloc_run:
  assumes "heap_ok (mem s) (kHeap s) bs" and "b \<in> set bs" "b_hole b" "fits (ucast n) b"
  obtains r h' m' bs' where "kmalloc n s = Some (r, s\<lparr>mem := m', kHeap := h'\<rparr>)"
    and "heap_ok m' h' bs'" and "allocated bs bs' r (ucast n)"
    and "\<forall>c\<in>set bs. \<not> b_hole c \<longrightarrow> (\<forall>x. unat x \<in> block_zone c \<longrightarrow> m' x = mem s x)"
proof -
  obtain r h' m' bs' where "HeapAllocate (ucast n) 0 (kHeap s) s = Some (r, h', s\<lparr>mem := m'\<rparr>)"
    and res: "heap_ok m' h' bs'" "allocated bs bs' r (ucast n)"
      "\<forall>c\<in>set bs. \<not> b_hole c \<longrightarrow> (\<forall>x. unat x \<in> block_zone c \<longrightarrow> m' x = mem s x)"
    by (rule HeapAllocate_allocated [OF assms])
  then have "kmalloc n s = Some (r, s\<lparr>mem := m', kHeap := h'\<rparr>)" by (simp add: kmalloc_def)
  from that [OF this res] show ?thesis .
qed

lemma kmalloc_allocated:
  assumes "heap_ok (mem s) (kHeap s) bs" and "b \<in> set bs" "b_hole b" "fits (ucast n) b"
  shows "\<exists>r s' bs'. kmalloc n s = Some (r, s') \<and> heap_ok (mem s') (kHeap s') bs' \<and>
    allocated bs bs' r (ucast n) \<and>
    (\<forall>c\<in>set bs. \<not> b_hole c \<longrightarrow> (\<forall>x. unat x \<in> block_zone c \<longrightarrow> mem s' x = mem s x))"
proof -
  obtain r h' m' bs' where "kmalloc n s = Some (r, s\<lparr>mem := m', kHeap := h'\<rparr>)"
    and "heap_ok m' h' bs'" and "allocated bs bs' r (ucast n)"
    and "\<forall>c\<in>set bs. \<not> b_hole c \<longrightarrow> (\<forall>x. unat x \<in> block_zone c \<longrightarrow> m' x = mem s x)"
    by (rule kmalloc_run [OF assms])
  then show ?thesis by (intro exI [of _ r] exI [of _ "s\<lparr>mem := m', kHeap := h'\<rparr>"] exI [of _ bs']) simp
qed

text \<open>Writing inside the payload of a used block leaves the heap consistent.\<close>

lemma payload_write_ok:
  assumes "heap_ok m h bs" and "u \<in> set bs" and "\<not> b_hole u" and "changes_only (b_payload u) m m'"
  shows "heap_ok m' h bs"
proof -
  have lay: "laid_out m h bs" and ix: "index_ok m h (holes bs)" using assms(1) by (simp_all add: heap_ok_def)
  obtain xs ys where bs: "bs = xs @ u # ys" using assms(2) by (meson split_list)
  note bnd = laid_out_bounds [OF lay assms(2)]
  have f: "unat (b_footer u) = unat (b_pos u) + unat (b_size u) - 16"
    unfolding b_footer_def sizeof_HeapFooter_def using bnd by (intro block_addresses) auto
  have "zone (b_pos u) 16 \<inter> b_payload u = {}" "zone (b_footer u) 16 \<inter> b_payload u = {}"
    using f by (auto simp: b_payload_def)
  moreover have "unat (b_pos u) + 16 < 2 ^ 64" "unat (b_footer u) + 16 < 2 ^ 64" using bnd f by auto
  ultimately have "block_ok m' u"
    using assms(2,3) lay hdr_outside(1-3) [OF assms(4), of "b_pos u"] hdr_outside(4,5) [OF assms(4), of "b_footer u"]
    by (auto simp: laid_out_def block_ok_def footer_ok_def)
  moreover have "changes_only (\<Union>c\<in>set [u]. block_zone c) m m'"
    using changes_only_mono [OF assms(4) b_payload_sub] by simp
  ultimately have "laid_out m' h bs"
    using laid_out_replace [of m h xs "[u]" ys m' "[u]"] lay bs by (simp add: laid_out_def)
  moreover have "b_payload u \<inter> index_zone h = {}"
    using index_ok_apart [OF lay ix assms(2)] b_payload_sub by blast
  then have "index_ok m' h (holes bs)" by (rule index_frame [OF ix assms(4)])
  ultimately show ?thesis by (simp add: heap_ok_def)
qed

interpretation kheap: block_allocator "\<lambda>s. heap_ok (mem s) (kHeap s)" mem kmalloc
  by unfold_locales (rule kmalloc_allocated)


subsection \<open>Properties\<close>

text \<open>A heap of one 4096-byte hole at \<open>0x400000\<close>, for the concrete instances.\<close>

definition index_example :: OrderedArray where
  "index_example = \<lparr>arr_array = 0x100000, arr_size = 0, arr_capacity = HEAP_INDEX_SIZE, arr_predicate = HeaderPredicate\<rparr>"

definition heap_example :: "Heap \<times> mem" where
  "heap_example = (let (index, m) = ArrayInsert (write_hole 0x400000 0x1000 (\<lambda>_. 0)) index_example 0x400000
     in (\<lparr>hp_index = index, start_address = 0x400000, end_address = 0x401000, max_address = 0x500000,
          supervisor = 0, readonly = 0\<rparr>, m))"

definition heap_state_example :: heap_state where
  "heap_state_example = vmm.extend (vmm_example\<lparr>mem := snd heap_example\<rparr>) (heap_state.fields (fst heap_example))"

abbreviation hole_example :: block where
  "hole_example \<equiv> hole_block 0x400000 0x1000"

lemma heap_example_ok:
  "heap_ok (snd heap_example) (fst heap_example) [hole_example]"
  "index_zone (fst heap_example) = array_zone 0x100000 index_slots"
proof -
  let ?m = "write_hole 0x400000 0x1000 (\<lambda>_. 0)"
  obtain index m where ins: "ArrayInsert ?m index_example 0x400000 = (index, m)" by fastforce
  define h where "h = \<lparr>hp_index = index_example, start_address = 0x400000, end_address = 0x401000,
    max_address = 0x500000, supervisor = 0, readonly = 0\<rparr>"
  have lay: "laid_out ?m h [hole_example]"
    using write_hole_ok(1) [of "0x400000"] by (simp add: laid_out_def h_def)
  have ix: "index_ok ?m h []"
    by (simp add: index_ok_def h_def contents_def index_example_def index_slots_eq)
  have "heap_ok m (h\<lparr>hp_index := index\<rparr>) [hole_example]"
    using ins by (intro heap_index_insert(1) [OF lay ix]) (simp_all add: index_slots_eq h_def)
  then show "heap_ok (snd heap_example) (fst heap_example) [hole_example]"
    by (simp add: heap_example_def ins h_def)
  show "index_zone (fst heap_example) = array_zone 0x100000 index_slots"
    using ArrayInsert_fields [OF ins] by (simp add: heap_example_def ins) (simp add: index_example_def)
qed

lemma heap_state_example_ok: "heap_ok (mem heap_state_example) (kHeap heap_state_example) [hole_example]"
  using heap_example_ok by (simp add: heap_state_example_def vmm.defs heap_state.defs)

text \<open>C1: \<open>kmalloc\<close> on a consistent heap with a hole of at least \<open>n + 32\<close> bytes returns a block of at
  least \<open>n\<close> usable bytes, keeps the heap consistent, and leaves every used block, its bytes
  included, as it was and apart from the new one.\<close>

theorem kmalloc_safe:
  assumes "heap_ok (mem s) (kHeap s) bs" and "b \<in> set bs" and "b_hole b" and "fits (ucast n) b"
  shows "\<exists>r s' bs' u. kmalloc n s = Some (r, s') \<and> heap_ok (mem s') (kHeap s') bs' \<and> u \<in> set bs' \<and>
    \<not> b_hole u \<and> r = b_pos u + 16 \<and> payload r (unat n) \<subseteq> b_payload u \<and>
    (\<forall>c\<in>set bs. \<not> b_hole c \<longrightarrow> c \<in> set bs' \<and> block_zone c \<inter> block_zone u = {} \<and>
       (\<forall>x. unat x \<in> block_zone c \<longrightarrow> mem s' x = mem s x))"
  using kheap.allocate_ok [OF assms] unfolding allocated_def unat_ucast_up by blast

theorem kmalloc_safe_witness:
  "\<exists>r s' bs' u. kmalloc 0x20 heap_state_example = Some (r, s') \<and> heap_ok (mem s') (kHeap s') bs' \<and>
     u \<in> set bs' \<and> \<not> b_hole u \<and> payload r 0x20 \<subseteq> b_payload u"
proof -
  have "hole_example \<in> set [hole_example]" "b_hole hole_example" "fits (ucast (0x20 :: u32)) hole_example" by simp_all
  from kmalloc_safe [OF heap_state_example_ok this] show ?thesis by fastforce
qed

text \<open>two successive calls of \<open>kmalloc\<close> return disjoint zones, and the second call does not
  change the bytes of the first zone.\<close>

theorem kmalloc_disjoint:
  assumes "heap_ok (mem s) (kHeap s) bs" and "b \<in> set bs" and "b_hole b" and "fits (ucast n) b"
  shows "\<exists>r s' bs'. kmalloc n s = Some (r, s') \<and> heap_ok (mem s') (kHeap s') bs' \<and>
    (\<forall>k b'. b' \<in> set bs' \<and> b_hole b' \<and> fits (ucast k) b' \<longrightarrow>
      (\<exists>q s''. kmalloc k s' = Some (q, s'') \<and> payload r (unat n) \<inter> payload q (unat k) = {} \<and>
        (\<forall>x. unat x \<in> payload r (unat n) \<longrightarrow> mem s'' x = mem s' x)))"
  using assms by (rule kheap.allocate_twice)

theorem kmalloc_disjoint_witness:
  "\<exists>r s'. kmalloc 0x20 heap_state_example = Some (r, s')"
proof -
  have "hole_example \<in> set [hole_example]" "b_hole hole_example" "fits (ucast (0x20 :: u32)) hole_example" by simp_all
  from kmalloc_disjoint [OF heap_state_example_ok this] show ?thesis by blast
qed


text \<open>Blocks written with their headers and footers, and a heap with a hole between two used blocks.\<close>

fun write_blocks :: "block list \<Rightarrow> mem \<Rightarrow> mem" where
  "write_blocks [] m = m"
| "write_blocks (b # bs) m = write_blocks bs
     (write_footer (b_pos b + b_size b - 16) (b_pos b) (write_header (b_pos b) (if b_hole b then 1 else 0) (b_size b) m))"

lemma write_blocks_ok:
  assumes "tiles a bs e" and "e < 2 ^ 64"
  shows "changes_only {a..<e} m (write_blocks bs m) \<and>
    (\<forall>b\<in>set bs. block_ok (write_blocks bs m) b \<and> footer_ok (write_blocks bs m) b)"
  using assms
proof (induction bs arbitrary: a m)
  case (Cons b bs)
  let ?c = "a + unat (b_size b)"
  define m1 where "m1 = write_footer (b_pos b + b_size b - 16) (b_pos b)
    (write_header (b_pos b) (if b_hole b then 1 else 0) (b_size b) m)"
  have t: "tiles ?c bs e" "unat (b_pos b) = a" "32 \<le> unat (b_size b)" "?c \<le> e"
    using Cons.prems(1) by (auto dest: tiles_bounds)
  note IH = conjunct1 [OF Cons.IH [OF t(1) Cons.prems(2), of m1]] conjunct2 [OF Cons.IH [OF t(1) Cons.prems(2), of m1]]
  have lt: "unat (b_pos b) + unat (b_size b) < 2 ^ 64" using t Cons.prems(2) by simp
  have eta: "\<lparr>b_pos = b_pos b, b_size = b_size b, b_hole = b_hole b\<rparr> = b" by simp
  note w = written_block [OF lt t(3) m1_def refl, unfolded eta]
  have "changes_only {a..<e} m m1" using w t by (auto intro: changes_only_mono)
  moreover have "changes_only {a..<e} m1 (write_blocks bs m1)"
    by (rule changes_only_mono [OF IH(1)]) simp
  moreover have "laid_out m1 \<lparr>hp_index = index_example, start_address = b_pos b, end_address = b_pos b + b_size b,
      max_address = 0, supervisor = 0, readonly = 0\<rparr> [b]"
    using w t lt by (simp add: laid_out_def unat_add_u64)
  from footer_ok_frame [OF this _ IH(1)] block_ok_changes [OF IH(1), of b] w t lt
  have "block_ok (write_blocks bs m1) b" "footer_ok (write_blocks bs m1) b" by auto
  ultimately show ?case
    using IH(2) by (auto simp: m1_def intro: changes_only_trans)
qed simp_all

abbreviation blocks_example :: "block list" where
  "blocks_example \<equiv> [used_block 0x400000 0x40, hole_block 0x400040 0x40, used_block 0x400080 0xF80]"

lemma blocks_example_ok:
  obtains h m where "heap_ok m h blocks_example" and "ftr_magic m (0x400000 - 16) \<noteq> HEAP_MAGIC"
    and "\<forall>b\<in>set blocks_example. footer_ok m b"
proof -
  define h where "h = \<lparr>hp_index = index_example, start_address = 0x400000, end_address = 0x401000,
    max_address = 0x500000, supervisor = 0, readonly = 0\<rparr>"
  define m where "m = write_blocks blocks_example (\<lambda>_. 0)"
  have t: "tiles 0x400000 blocks_example 0x401000" by simp
  have "(0x401000 :: nat) < 2 ^ 64" by simp
  then have w: "changes_only {0x400000..<0x401000} (\<lambda>_. 0) m" "\<forall>b\<in>set blocks_example. block_ok m b \<and> footer_ok m b"
    using write_blocks_ok [OF t] unfolding m_def by blast+
  have lay: "laid_out m h blocks_example" using w(2) t by (simp add: laid_out_def h_def)
  have ix: "index_ok m h []"
    by (simp add: index_ok_def h_def contents_def index_example_def index_slots_eq)
  obtain index m' where ins: "ArrayInsert m (hp_index h) 0x400040 = (index, m')" by fastforce
  have "length ([] :: addr list) < index_slots" and "mset [0x400040] = mset (holes blocks_example)"
    by (simp_all add: index_slots_eq)
  note ok = heap_index_insert [OF lay ix this ins]
  have iz: "index_zone h = {0x100000..<0x200000}" by (simp add: h_def index_example_def index_slots_eq)
  have "changes_only ({0x400000..<0x401000} \<union> {0x100000..<0x200000}) (\<lambda>_. 0) m'"
    by (rule changes_only_trans [OF changes_only_mono [OF w(1)] changes_only_mono [OF ok(2) [unfolded iz]]]) simp_all
  then have "ftr_magic m' (0x400000 - 16) = ftr_magic (\<lambda>_. 0) (0x400000 - 16)"
    by (rule hdr_outside(4)) auto
  also have "\<dots> = 0" by (simp add: ftr_magic_def load32_def load_le_zero)
  finally have "ftr_magic m' (0x400000 - 16) \<noteq> HEAP_MAGIC" by (simp add: HEAP_MAGIC_def)
  moreover have "\<forall>b\<in>set blocks_example. footer_ok m' b"
    using footer_ok_frame(3) [OF lay _ ok(2) index_ok_apart [OF lay ix]] w(2) by blast
  ultimately show ?thesis by (rule that [OF ok(1)])
qed




lemma right_apart:
  assumes "laid_out m h (xs @ b # ys)" and "index_ok m h ps" and "d \<in> set ys"
  shows "block_zone d \<inter> (free_zone (xs @ [b]) b \<union> index_zone h) = {}"
proof -
  have t: "tiles (unat (start_address h)) (xs @ b # ys) (unat (end_address h))"
    using assms(1) by (simp add: laid_out_def)
  have bd: "unat (b_pos b) + unat (b_size b) \<le> unat (b_pos d)" by (rule tiles_split(2) [OF t assms(3)])
  have "block_zone d \<inter> block_zone c = {}" if c: "c \<in> set (xs @ [b])" for c
    using c bd tiles_split(1) [OF t, of c] by fastforce
  then have "block_zone d \<inter> free_zone (xs @ [b]) b = {}" unfolding free_zone_def by blast
  moreover have "block_zone d \<inter> index_zone h = {}"
    by (rule index_ok_apart [OF assms(1,2)]) (simp add: assms(3))
  ultimately show ?thesis by blast
qed

lemma free_blocks_right:
  assumes lay: "laid_out m h (xs @ b # r # ys)" and r: "b_hole r" and fb: "free_blocks xs b (r # ys) = (zs, c, ws)"
  shows "b_footer c = b_footer r" and "b_pos c \<noteq> b_pos r" and "ws = ys"
proof -
  have t: "tiles (unat (start_address h)) (xs @ b # r # ys) (unat (end_address h))"
    using lay by (simp add: laid_out_def)
  have br: "b_pos r = b_pos b + b_size b" and ub: "unat (b_pos b) + unat (b_size b) \<le> unat (b_pos r)"
    using adjacent_word(1) [OF lay] tiles_split(2) [OF t, of r] by simp_all
  have sb: "32 \<le> unat (b_size b)" using laid_out_bounds(4) [OF lay, of b] by simp
  show "ws = ys" using fb r by (auto simp: free_blocks_def split: if_splits)
  have "b_footer c = b_footer r \<and> b_pos c \<noteq> b_pos r"
  proof (cases xs rule: rev_cases)
    case Nil
    then have c: "c = hole_block (b_pos b) (b_size b + b_size r)" using fb r by (simp add: free_blocks_def)
    then show ?thesis using br sb ub by (auto simp: b_footer_def)
  next
    case (snoc xs' l)
    have lb: "b_pos b = b_pos l + b_size l" using adjacent_word(1) [of m h xs' l b "r # ys"] lay snoc by simp
    have ul: "unat (b_pos l) + unat (b_size l) \<le> unat (b_pos b)" using tiles_split(1) [OF t, of l] snoc by simp
    have "c = hole_block (b_pos b) (b_size b + b_size r) \<or> c = hole_block (b_pos l) (b_size l + b_size b + b_size r)"
      using fb r snoc by (auto simp: free_blocks_def split: if_splits)
    then show ?thesis using br lb sb ub ul by (auto simp: b_footer_def algebra_simps)
  qed
  then show "b_footer c = b_footer r" "b_pos c \<noteq> b_pos r" by auto
qed

text \<open>when the block is united with the hole on its right, \<open>HeapFree\<close> does not write the footer of
  the enlarged hole: it still names the header of the absorbed hole.\<close>

theorem HeapFree_stale_footer:
  assumes "heap_ok m h (xs @ b # r # ys)" and "\<not> b_hole b" and "left_readable m xs b"
    and "free_blocks xs b (r # ys) = (zs, c, ys)" and "ys \<noteq> []" and "b_hole r" and "footer_ok m r"
    and "length (holes (xs @ b # r # ys)) < index_slots"
  shows "\<exists>h' m'. HeapFree (b_pos b + 16) h m = Some (h', m') \<and> heap_ok m' h' (zs @ c # ys) \<and>
    ftr_header m' (b_footer c) = b_pos r \<and> \<not> footer_ok m' c"
proof -
  obtain h' m' where run: "HeapFree (b_pos b + 16) h m = Some (h', m')" "heap_ok m' h' (zs @ c # ys)"
    and ch: "changes_only (free_zone (xs @ [b]) b \<union> index_zone h) m m'"
    by (rule HeapFree_interior [OF assms(1-5,8)])
  have lay: "laid_out m h (xs @ b # r # ys)" and ix: "index_ok m h (holes (xs @ b # r # ys))"
    using assms(1) by (simp_all add: heap_ok_def)
  have rm: "r \<in> set (xs @ b # r # ys)" by simp
  note fr = free_blocks_right [OF lay assms(6,4)]
  have "ftr_header m' (b_footer r) = b_pos r"
    using footer_ok_frame(2) [OF lay rm ch right_apart [OF lay ix]] assms(7) by (simp add: footer_ok_def)
  with run fr show ?thesis by (auto simp: footer_ok_def)
qed

theorem HeapFree_stale_footer_witness:
  "\<exists>h m h' m'. HeapFree (0x400000 + 16) h m = Some (h', m') \<and>
     ftr_header m' (b_footer (hole_block 0x400000 0x80)) = 0x400040"
proof -
  let ?b = "used_block 0x400000 0x40" and ?r = "hole_block 0x400040 0x40" and ?u = "used_block 0x400080 0xF80"
  obtain h m where ok: "heap_ok m h ([] @ ?b # ?r # [?u])"
    and magic: "ftr_magic m (0x400000 - 16) \<noteq> HEAP_MAGIC" and foot: "footer_ok m ?r"
    by (rule blocks_example_ok) simp
  have "left_readable m [] ?b" using magic by (simp add: left_readable_def sizeof_HeapFooter_def)
  moreover have "free_blocks [] ?b (?r # [?u]) = ([], hole_block 0x400000 0x80, [?u])" by (simp add: free_blocks_def)
  moreover have "length (holes ([] @ ?b # ?r # [?u])) < index_slots" by (simp add: index_slots_eq)
  ultimately have "\<exists>h' m'. HeapFree (b_pos ?b + 16) h m = Some (h', m') \<and>
      ftr_header m' (b_footer (hole_block 0x400000 0x80)) = b_pos ?r"
    using HeapFree_stale_footer [OF ok, of "[]"] foot by auto
  then show ?thesis by auto
qed

text \<open>\<open>HeapContract\<close> always returns; the new length is at least \<open>HEAP_MIN_SIZE\<close>, but any length with
  bit 12 set is replaced by \<open>HEAP_MIN_SIZE\<close> itself, and other lengths are not rounded to a page.\<close>

theorem HeapContract_result:
  "\<exists>n. HeapContract heap sz = Some (n, heap\<lparr>end_address := start_address heap + n\<rparr>) \<and>
     n = (if bit sz 12 then HEAP_MIN_SIZE else max sz HEAP_MIN_SIZE)"
proof -
  have "sz AND 0x1000 \<noteq> 0 \<longleftrightarrow> bit sz 12" using and_power [of sz 12] by simp
  then show ?thesis by (simp add: HeapContract_total contracted_size_def)
qed

text \<open>\<open>HeapCreate\<close> at a page-aligned start gives a consistent heap of one hole, which begins one
  page and \<open>0x100000\<close> bytes (the index) after the start.\<close>

theorem HeapCreate_one_hole:
  assumes "HeapCreate start e mx sv ro s = Some (h, s')"
    and "start mod 4096 = 0" and "unat start + 0x101000 + 32 \<le> unat e"
  shows "heap_ok (mem s') h [hole_block (start + 0x101000) (e - (start + 0x101000))]"
  using assms by (rule HeapCreate_heap_ok)


theorem HeapCreate_one_hole_witness:
  "\<exists>h s'. HeapCreate HEAP_ADDR (HEAP_ADDR + HEAP_SIZE) (HEAP_ADDR + 0x40000000) 0 0 vmm_example = Some (h, s') \<and>
     heap_ok (mem s') h [hole_block (HEAP_ADDR + 0x101000) (HEAP_ADDR + HEAP_SIZE - (HEAP_ADDR + 0x101000))]"
proof -
  obtain pg s1 where "MmGetIdentityPage vmm_example = Some (pg, s1)"
    by (rule MmGetIdentityPage_run [OF vmm_example_ok vmm_example_pages])
  then have "HeapCreate HEAP_ADDR (HEAP_ADDR + HEAP_SIZE) (HEAP_ADDR + 0x40000000) 0 0 vmm_example \<noteq> None"
    by (simp add: HeapCreate_def Let_def case_prod_beta)
  then obtain h s' where
    c: "HeapCreate HEAP_ADDR (HEAP_ADDR + HEAP_SIZE) (HEAP_ADDR + 0x40000000) 0 0 vmm_example = Some (h, s')"
    by fast
  have "HEAP_ADDR mod 4096 = 0" and "unat HEAP_ADDR + 0x101000 + 32 \<le> unat (HEAP_ADDR + HEAP_SIZE)"
    by (simp_all add: HEAP_ADDR_def HEAP_SIZE_def PAGE_SIZE_def)
  from HeapCreate_one_hole [OF c this] c show ?thesis by blast
qed

text \<open>on an index ordered by size \<open>HeapAllocate\<close> takes the smallest hole the request fits in.\<close>

theorem HeapAllocate_best_fit:
  assumes "heap_ok (mem s) h bs" and "b0 \<in> set bs" and "b_hole b0" and "fits sz b0"
    and "sorted_wrt (\<lambda>p q. hdr_size (mem s) p \<le> hdr_size (mem s) q) (contents (mem s) (hp_index h))"
  shows "\<exists>b\<in>set bs. \<exists>h' s'. HeapAllocate sz 0 h s = Some (b_pos b + 16, h', s') \<and> b_hole b \<and>
    (\<forall>c\<in>set bs. b_hole c \<and> fits sz c \<longrightarrow> b_size b \<le> b_size c)"
proof -
  let ?c = "contents (mem s) (hp_index h)"
  obtain xs b ys i h' m' where bs: "bs = xs @ b # ys" and b: "b_hole b" "fits sz b"
    and run: "HeapAllocate sz 0 h s = Some (b_pos b + 16, h', s\<lparr>mem := m'\<rparr>)"
    and "heap_ok m' h' (xs @ split_hole sz b @ ys)"
    and "changes_only (block_zone b \<union> index_zone h) (mem s) m'"
    and i: "i < unat (arr_size (hp_index h))" "?c ! i = b_pos b"
    and before: "\<forall>j<i. hdr_size (mem s) (?c ! j) < sz + 32"
    by (rule HeapAllocate_hole [OF assms(1-4)])
  have bm: "b \<in> set bs" using bs by simp
  have "unat sz + 32 < 2 ^ 64" using b(2) unat_lt_2_64 [of "b_size b"] by (rule le_less_trans)
  then have u: "unat (sz + 32) = unat sz + 32" by (subst unat_add_u64) auto
  have "b_size b \<le> b_size c" if c: "c \<in> set bs" "b_hole c" "fits sz c" for c
  proof -
    note h = index_of_hole [OF assms(1) c(1,2)] and hb = index_of_hole [OF assms(1) bm b(1)]
    from h(1) obtain j where j: "j < length ?c" "?c ! j = b_pos c" by (auto simp: in_set_conv_nth)
    have "\<not> j < i" using before j h(2) c(3) u by (auto simp: word_less_nat_alt)
    then have "j = i \<or> i < j" by auto
    then show ?thesis
      using sorted_wrt_nth_less [OF assms(5), of i j] i j h(2) hb(2) by auto
  qed
  with run b bm show ?thesis by blast
qed

theorem HeapAllocate_best_fit_witness:
  "\<exists>b\<in>set [hole_example]. \<exists>h' s'. HeapAllocate 0x20 0 (kHeap heap_state_example) heap_state_example = Some (b_pos b + 16, h', s')"
proof -
  let ?s = heap_state_example
  have m: "hole_example \<in> set [hole_example]" "b_hole hole_example" "fits 0x20 hole_example" by simp_all
  have "mset (contents (mem ?s) (hp_index (kHeap ?s))) = {#0x400000#}"
    using heap_state_example_ok by (simp add: heap_ok_def index_ok_def)
  then have "contents (mem ?s) (hp_index (kHeap ?s)) = [0x400000]" by simp
  then have "sorted_wrt (\<lambda>p q. hdr_size (mem ?s) p \<le> hdr_size (mem ?s) q) (contents (mem ?s) (hp_index (kHeap ?s)))"
    by simp
  from HeapAllocate_best_fit [OF heap_state_example_ok m this] show ?thesis by blast
qed

end
