(* ===== verification/DList.thy ===== *)
theory DList
  imports Prelude
begin

text \<open>
  The intrusive doubly linked list macros of \<open>kernel/lib/list.h\<close>.  A list entry (\<open>LIST_ENTRY\<close>)
  is a pair of links stored in each element; the links of all elements form a store from element
  addresses to entries, and address 0 is the null pointer.  \<open>dlist\<close> says that a head and the
  links represent a sequence of elements; the macros refine the operations on that sequence.
\<close>

subsection \<open>State and operations\<close>

record list_head =
  lh_first :: addr
  lh_last :: addr

record list_entry =
  le_next :: addr
  le_prev :: addr

type_synonym links = "addr \<Rightarrow> list_entry"

abbreviation set_nxt :: "addr \<Rightarrow> addr \<Rightarrow> links \<Rightarrow> links" where
  "set_nxt el v l \<equiv> l(el := (l el)\<lparr>le_next := v\<rparr>)"

abbreviation set_prv :: "addr \<Rightarrow> addr \<Rightarrow> links \<Rightarrow> links" where
  "set_prv el v l \<equiv> l(el := (l el)\<lparr>le_prev := v\<rparr>)"

definition LIST_HEAD_INIT :: list_head where
  "LIST_HEAD_INIT = \<lparr>lh_first = 0, lh_last = 0\<rparr>"

definition LIST_INIT :: "list_head \<Rightarrow> list_head" where
  "LIST_INIT h = h\<lparr>lh_first := 0, lh_last := 0\<rparr>"

definition LIST_ENTRY_INIT :: "addr \<Rightarrow> links \<Rightarrow> links" where
  "LIST_ENTRY_INIT entry l = set_prv entry 0 (set_nxt entry 0 l)"

definition LIST_ADD :: "addr \<Rightarrow> list_head \<times> links \<Rightarrow> list_head \<times> links" where
  "LIST_ADD el = (\<lambda>(h, l).
     if lh_first h = 0
     then (h\<lparr>lh_first := el, lh_last := el\<rparr>, set_prv el 0 (set_nxt el 0 l))
     else (let l1 = set_nxt (lh_last h) el l;
               l2 = set_nxt el 0 l1;
               l3 = set_prv el (lh_last h) l2
           in (h\<lparr>lh_last := el\<rparr>, l3)))"

definition LIST_ADD_FRONT :: "addr \<Rightarrow> list_head \<times> links \<Rightarrow> list_head \<times> links" where
  "LIST_ADD_FRONT el = (\<lambda>(h, l).
     if lh_first h = 0
     then (h\<lparr>lh_first := el, lh_last := el\<rparr>, set_prv el 0 (set_nxt el 0 l))
     else (let l1 = set_prv (lh_first h) el l;
               l2 = set_nxt el (lh_first h) l1;
               l3 = set_prv el 0 l2
           in (h\<lparr>lh_first := el\<rparr>, l3)))"

definition LIST_REMOVE :: "addr \<Rightarrow> list_head \<times> links \<Rightarrow> list_head \<times> links" where
  "LIST_REMOVE el = (\<lambda>(h, l).
     if el = lh_first h then
       if el = lh_last h then (h\<lparr>lh_first := 0, lh_last := 0\<rparr>, l)
       else (let l1 = set_prv (le_next (l el)) 0 l;
                 h1 = h\<lparr>lh_first := le_next (l1 el)\<rparr>;
                 l2 = set_nxt el 0 l1
             in (h1, l2))
     else if el = lh_last h then
       (let l1 = set_nxt (le_prev (l el)) 0 l;
            h1 = h\<lparr>lh_last := le_prev (l1 el)\<rparr>;
            l2 = set_prv el 0 l1
        in (h1, l2))
     else
       (let l1 = set_prv (le_next (l el)) (le_prev (l el)) l;
            l2 = set_nxt (le_prev (l1 el)) (le_next (l1 el)) l1;
            l3 = set_nxt el 0 l2;
            l4 = set_prv el 0 l3
        in (h, l4)))"

text \<open>
  The elements a \<open>RLIST_FOREACH\<close> loop visits from an element on, in order; the loop of a cyclic
  list does not return (\<open>None\<close>).  \<open>LIST_FOREACH\<close> starts at the head.
\<close>

partial_function (option) RLIST_FOREACH :: "links \<Rightarrow> addr \<Rightarrow> addr list option" where
  "RLIST_FOREACH l var =
     (if var = 0 then Some []
      else do { rest \<leftarrow> RLIST_FOREACH l (le_next (l var)); Some (var # rest) })"

definition LIST_FOREACH :: "list_head \<times> links \<Rightarrow> addr list option" where
  "LIST_FOREACH = (\<lambda>(h, l). RLIST_FOREACH l (lh_first h))"

text \<open>A \<open>LIST_FOREACH\<close> loop that returns the first element with a property, or null after the last.\<close>

partial_function (option) RLIST_FIND :: "links \<Rightarrow> (addr \<Rightarrow> bool) \<Rightarrow> addr \<Rightarrow> addr option" where
  "RLIST_FIND l P var =
     (if var = 0 then Some 0 else if P var then Some var else RLIST_FIND l P (le_next (l var)))"

definition LIST_FIND :: "list_head \<times> links \<Rightarrow> (addr \<Rightarrow> bool) \<Rightarrow> addr option" where
  "LIST_FIND = (\<lambda>(h, l) P. RLIST_FIND l P (lh_first h))"

subsection \<open>The represented sequence\<close>

text \<open>
  \<open>seg l p xs q\<close>: the elements \<open>xs\<close> are linked in order, the first one's predecessor link is
  \<open>p\<close> and the last one's successor link is \<open>q\<close>.
\<close>

fun seg :: "links \<Rightarrow> addr \<Rightarrow> addr list \<Rightarrow> addr \<Rightarrow> bool" where
  "seg l p [] q \<longleftrightarrow> True"
| "seg l p (x # xs) q \<longleftrightarrow>
     le_prev (l x) = p \<and> le_next (l x) = (if xs = [] then q else hd xs) \<and> seg l x xs q"

definition dlist :: "list_head \<times> links \<Rightarrow> addr list \<Rightarrow> bool" where
  "dlist = (\<lambda>(h, l) xs. distinct xs \<and> 0 \<notin> set xs \<and> seg l 0 xs 0 \<and>
     lh_first h = (if xs = [] then 0 else hd xs) \<and> lh_last h = (if xs = [] then 0 else last xs))"

lemma seg_append:
  "seg l p (xs @ ys) q \<longleftrightarrow>
     seg l p xs (if ys = [] then q else hd ys) \<and> seg l (if xs = [] then p else last xs) ys q"
  by (induction xs arbitrary: p) (auto simp: hd_append)

lemma seg_frame: "x \<notin> set xs \<Longrightarrow> seg (l(x := e)) p xs q = seg l p xs q"
  by (induction xs arbitrary: p) auto

lemma dlist_init: "dlist (LIST_HEAD_INIT, l) []" "dlist (LIST_INIT h, l) []"
  by (simp_all add: dlist_def LIST_HEAD_INIT_def LIST_INIT_def)

lemma seg_foreach: "seg l p xs 0 \<Longrightarrow> 0 \<notin> set xs \<Longrightarrow>
    RLIST_FOREACH l (if xs = [] then 0 else hd xs) = Some xs"
proof (induction xs arbitrary: p)
  case Nil
  then show ?case by (simp add: RLIST_FOREACH.simps)
next
  case (Cons x xs)
  then show ?case by (subst RLIST_FOREACH.simps) auto
qed

lemma LIST_FOREACH_dlist: "dlist s xs \<Longrightarrow> LIST_FOREACH s = Some xs"
proof -
  assume d: "dlist s xs"
  obtain h l where s: "s = (h, l)" by (cases s)
  have "RLIST_FOREACH l (if xs = [] then 0 else hd xs) = Some xs"
    using d by (intro seg_foreach) (auto simp: s dlist_def)
  with d show ?thesis by (simp add: s dlist_def LIST_FOREACH_def split: if_splits)
qed

lemma seg_find: "seg l p xs 0 \<Longrightarrow> 0 \<notin> set xs \<Longrightarrow>
    RLIST_FIND l P (if xs = [] then 0 else hd xs) = Some (case find P xs of None \<Rightarrow> 0 | Some x \<Rightarrow> x)"
proof (induction xs arbitrary: p)
  case Nil
  then show ?case by (simp add: RLIST_FIND.simps)
next
  case (Cons x xs)
  then show ?case by (subst RLIST_FIND.simps) auto
qed

lemma LIST_FIND_dlist:
  assumes "dlist s xs"
  shows "LIST_FIND s P = Some (case find P xs of None \<Rightarrow> 0 | Some x \<Rightarrow> x)"
proof -
  obtain h l where s: "s = (h, l)" by (cases s)
  have "RLIST_FIND l P (if xs = [] then 0 else hd xs) = Some (case find P xs of None \<Rightarrow> 0 | Some x \<Rightarrow> x)"
    using assms by (intro seg_find) (auto simp: s dlist_def)
  with assms show ?thesis by (simp add: s dlist_def LIST_FIND_def split: if_splits)
qed

subsection \<open>The macros on sequences\<close>

lemma LIST_ADD_dlist:
  assumes "dlist s xs" and "x \<notin> set xs" and "x \<noteq> 0"
  shows "dlist (LIST_ADD x s) (xs @ [x])"
proof (cases "xs = []")
  case True
  with assms show ?thesis by (cases s) (auto simp: dlist_def LIST_ADD_def)
next
  case False
  then obtain ys y where xs: "xs = ys @ [y]" by (cases xs rule: rev_cases) auto
  obtain h l where s: "s = (h, l)" by (cases s)
  have "lh_first h \<noteq> 0"
    using assms(1) False by (simp add: s dlist_def) (metis hd_in_set)
  moreover have "lh_last h = y"
    using assms(1) by (simp add: s dlist_def xs)
  ultimately show ?thesis
    using assms
    by (auto simp: s xs dlist_def LIST_ADD_def Let_def seg_append seg_frame hd_append)
qed

lemma LIST_ADD_FRONT_dlist:
  assumes "dlist s xs" and "x \<notin> set xs" and "x \<noteq> 0"
  shows "dlist (LIST_ADD_FRONT x s) (x # xs)"
proof (cases xs)
  case Nil
  with assms show ?thesis by (cases s) (auto simp: dlist_def LIST_ADD_FRONT_def)
next
  case (Cons y ys)
  with assms show ?thesis
    by (cases s) (auto simp: dlist_def LIST_ADD_FRONT_def Let_def seg_frame)
qed

lemma LIST_REMOVE_dlist:
  assumes "dlist s (xs @ x # ys)"
  shows "dlist (LIST_REMOVE x s) (xs @ ys)"
proof -
  obtain h l where s: "s = (h, l)" by (cases s)
  show ?thesis
  proof (cases xs rule: rev_cases)
    case Nil
    with assms show ?thesis
      by (cases ys) (auto simp: s dlist_def LIST_REMOVE_def Let_def seg_frame)
  next
    case (snoc xs' w)
    have "x \<noteq> lh_first h"
      using assms snoc by (auto simp: s dlist_def hd_append)
    with assms snoc show ?thesis
      by (cases ys)
         (auto simp: s dlist_def LIST_REMOVE_def Let_def seg_append seg_frame hd_append)
  qed
qed

subsection \<open>Interface\<close>

text \<open>
  What clients of the list rely on: a state that represents a sequence, appending an item, removing and
  traversing.  Whatever was appended is found by a traversal, in order of insertion.
\<close>

locale linked_sequence =
  fixes rep :: "'s \<Rightarrow> addr list \<Rightarrow> bool"
    and add :: "addr \<Rightarrow> 's \<Rightarrow> 's"
    and remove :: "addr \<Rightarrow> 's \<Rightarrow> 's"
    and elements :: "'s \<Rightarrow> addr list option"
    and item :: "addr \<Rightarrow> bool"
  assumes rep_distinct: "rep s xs \<Longrightarrow> distinct xs"
    and rep_add: "rep s xs \<Longrightarrow> x \<notin> set xs \<Longrightarrow> item x \<Longrightarrow> rep (add x s) (xs @ [x])"
    and rep_remove: "rep s (xs @ x # ys) \<Longrightarrow> rep (remove x s) (xs @ ys)"
    and rep_elements: "rep s xs \<Longrightarrow> elements s = Some xs"
begin

lemma rep_unique: "rep s xs \<Longrightarrow> rep s ys \<Longrightarrow> xs = ys"
  using rep_elements [of s xs] rep_elements [of s ys] by simp

lemma rep_fold_add:
  "rep s xs \<Longrightarrow> distinct (xs @ ys) \<Longrightarrow> list_all item ys \<Longrightarrow> rep (fold add ys s) (xs @ ys)"
proof (induction ys arbitrary: s xs)
  case Nil
  then show ?case by simp
next
  case (Cons y ys)
  then have "rep (add y s) (xs @ [y])" by (intro rep_add) auto
  with Cons.IH [of "add y s" "xs @ [y]"] Cons.prems show ?case by simp
qed

lemma elements_add_remove:
  assumes "rep s xs" and "x \<notin> set xs" and "item x"
  shows "elements (remove x (add x s)) = elements s"
proof -
  have "rep (remove x (add x s)) (xs @ [])"
    using rep_add [OF assms] by (intro rep_remove) simp
  with assms(1) show ?thesis by (simp add: rep_elements)
qed

lemma elements_remove:
  assumes "rep s xs" and "x \<in> set xs"
  shows "elements (remove x s) = Some (remove1 x xs)"
proof -
  obtain us vs where xs: "xs = us @ x # vs" and "x \<notin> set us"
    using assms(2) by (meson split_list_first)
  then have "remove1 x xs = us @ vs" by (simp add: remove1_append)
  with rep_remove [of s us x vs] assms(1) xs show ?thesis by (simp add: rep_elements)
qed

end

interpretation dl: linked_sequence dlist LIST_ADD LIST_REMOVE LIST_FOREACH "\<lambda>x. x \<noteq> 0"
proof unfold_locales
  fix s xs assume "dlist s xs"
  then show "distinct xs" by (cases s) (simp add: dlist_def)
  show "LIST_FOREACH s = Some xs" using \<open>dlist s xs\<close> by (rule LIST_FOREACH_dlist)
qed (simp_all add: LIST_ADD_dlist LIST_REMOVE_dlist)

subsection \<open>Properties\<close>

text \<open>C10: a list built by \<open>LIST_ADD\<close> from the initial head is traversed by \<open>LIST_FOREACH\<close> in order of
  insertion, and after \<open>LIST_REMOVE\<close> of any element the traversal ends and finds the others.\<close>

theorem list_add_remove_foreach:
  assumes "distinct xs" and "0 \<notin> set xs" and "x \<in> set xs"
  shows "LIST_FOREACH (fold LIST_ADD xs (LIST_HEAD_INIT, l)) = Some xs \<and>
    LIST_FOREACH (LIST_REMOVE x (fold LIST_ADD xs (LIST_HEAD_INIT, l))) = Some (remove1 x xs)"
proof -
  have "dlist (fold LIST_ADD xs (LIST_HEAD_INIT, l)) xs"
    using dl.rep_fold_add [OF dlist_init(1), of xs l] assms by (simp add: list_all_iff) metis
  with assms show ?thesis by (simp add: dl.rep_elements dl.elements_remove)
qed

theorem list_add_remove_foreach_witness:
  "LIST_FOREACH (LIST_REMOVE 0x20 (fold LIST_ADD [0x10, 0x20, 0x30] (LIST_HEAD_INIT, (\<lambda>_. \<lparr>le_next = 7, le_prev = 7\<rparr>)))) = Some [0x10, 0x30]"
  using list_add_remove_foreach [of "[0x10, 0x20, 0x30]" "0x20"] by simp

end
