(* ===== verification/Sched.thy ===== *)
theory Sched
  imports Heap
begin

text \<open>
  The task list and the round-robin choice of \<open>kernel/tsk/sched.c\<close>.  Task structures are blocks of
  the kernel heap; their fields are kept in a store indexed by the block's address.  The page
  table register \<open>cr3\<close> is part of the state; switching registers and stacks is not in the source.
\<close>

subsection \<open>State and operations\<close>

definition TASK_STATE_READY :: u32 where "TASK_STATE_READY = 0"
definition TASK_STATE_BLOCKED :: u32 where "TASK_STATE_BLOCKED = 1"
definition TASK_STATE_PAUSED :: u32 where "TASK_STATE_PAUSED = 2"
definition TASK_STATE_STOPPED :: u32 where "TASK_STATE_STOPPED = 3"

record Task =
  pid :: u64
  state :: u32
  name :: addr
  task_entry :: addr
  memory :: addr
  rip :: u64
  rsp :: u64
  rbp :: u64
  task_next :: addr

definition sizeof_Task :: u32 where "sizeof_Task = 72"

definition zero_task :: Task where
  "zero_task = \<lparr>pid = 0, state = 0, name = 0, task_entry = 0, memory = 0, rip = 0, rsp = 0, rbp = 0, task_next = 0\<rparr>"

record sched_state = heap_state +
  task_at :: "addr \<Rightarrow> Task"
  kTasks :: addr
  kLastTask :: addr
  kTask :: addr
  kNextPid :: u64
  cr3 :: addr

definition set_task :: "addr \<Rightarrow> (Task \<Rightarrow> Task) \<Rightarrow> 'a sched_state_scheme \<Rightarrow> 'a sched_state_scheme" where
  "set_task t f s = s\<lparr>task_at := (task_at s)(t := f (task_at s t))\<rparr>"

definition TskCreateTask :: "addr \<Rightarrow> addr \<Rightarrow> 'a sched_state_scheme \<Rightarrow> (addr \<times> 'a sched_state_scheme) option" where
  "TskCreateTask nm ent s = do {
     (task, s) \<leftarrow> kmalloc sizeof_Task s;
     let s = s\<lparr>mem := RtZeroMemory (mem s) task (ucast sizeof_Task)\<rparr>;
     let s = set_task task (\<lambda>_. zero_task) s;
     let s = (if kTasks s = 0
              then s\<lparr>kTasks := task, kLastTask := task\<rparr>
              else (set_task (kLastTask s) (\<lambda>t. t\<lparr>task_next := task\<rparr>) s)\<lparr>kLastTask := task\<rparr>);
     let s = set_task task (\<lambda>t. t\<lparr>pid := kNextPid s\<rparr>) (s\<lparr>kNextPid := kNextPid s + 1\<rparr>);
     let s = set_task task (\<lambda>t. t\<lparr>name := nm, task_entry := ent\<rparr>) s;
     Some (task, s) }"

definition TskCreateKernelTask ::
    "addr \<Rightarrow> addr \<Rightarrow> 'a sched_state_scheme \<Rightarrow> (addr \<times> 'a sched_state_scheme) option" where
  "TskCreateKernelTask nm ent s = do {
     (task, s) \<leftarrow> TskCreateTask nm ent s;
     Some (task, set_task task (\<lambda>t. t\<lparr>memory := cr3 s\<rparr>) s) }"

text \<open>The name and the entry point of the idle task are addresses of the kernel image.\<close>

definition TskInitialize :: "addr \<Rightarrow> addr \<Rightarrow> 'a sched_state_scheme \<Rightarrow> 'a sched_state_scheme option" where
  "TskInitialize idle_name TskIdleTask s = map_option snd (TskCreateKernelTask idle_name TskIdleTask s)"

text \<open>The tasks \<open>TskPrintTasks\<close> prints, each with whether it is marked as current.\<close>

partial_function (option) task_walk :: "(addr \<Rightarrow> Task) \<Rightarrow> addr \<Rightarrow> addr list option" where
  "task_walk ts t = (if t = 0 then Some []
     else do { rest \<leftarrow> task_walk ts (task_next (ts t)); Some (t # rest) })"

definition TskPrintTasks :: "'a sched_state_scheme \<Rightarrow> (u64 \<times> addr \<times> bool) list option" where
  "TskPrintTasks s = map_option (map (\<lambda>t. (pid (task_at s t), name (task_at s t), t = kTask s)))
     (task_walk (task_at s) (kTasks s))"

definition TskSchedule :: "'a sched_state_scheme \<Rightarrow> 'a sched_state_scheme" where
  "TskSchedule s =
     (if kTask s = 0 then s\<lparr>kTask := kTasks s\<rparr>
      else let nxt = task_next (task_at s (kTask s));
               nxt = (if nxt = 0 then kTasks s else nxt);
               s = s\<lparr>kTask := nxt\<rparr>
           in s\<lparr>cr3 := memory (task_at s (kTask s))\<rparr>)"

subsection \<open>The list of tasks\<close>

fun chain :: "(addr \<Rightarrow> Task) \<Rightarrow> addr list \<Rightarrow> bool" where
  "chain ts [] \<longleftrightarrow> True"
| "chain ts [t] \<longleftrightarrow> task_next (ts t) = 0"
| "chain ts (t # u # us) \<longleftrightarrow> task_next (ts t) = u \<and> chain ts (u # us)"

text \<open>\<open>tasks_ok s xs\<close>: the task list of the state is \<open>xs\<close>, in order of creation.\<close>

definition tasks_ok :: "'a sched_state_scheme \<Rightarrow> addr list \<Rightarrow> bool" where
  "tasks_ok s xs \<longleftrightarrow> distinct xs \<and> 0 \<notin> set xs \<and> chain (task_at s) xs \<and>
     kTasks s = (if xs = [] then 0 else hd xs) \<and> (xs \<noteq> [] \<longrightarrow> kLastTask s = last xs) \<and>
     (kTask s \<noteq> 0 \<longrightarrow> kTask s \<in> set xs)"

lemma chain_nth: "chain ts xs \<Longrightarrow> i < length xs \<Longrightarrow>
    task_next (ts (xs ! i)) = (if Suc i < length xs then xs ! Suc i else 0)"
  by (induction ts xs arbitrary: i rule: chain.induct) (auto simp: nth_Cons split: nat.splits)

lemma chain_walk: "chain ts xs \<Longrightarrow> 0 \<notin> set xs \<Longrightarrow> task_walk ts (if xs = [] then 0 else hd xs) = Some xs"
  by (induction ts xs rule: chain.induct) (simp_all add: task_walk.simps)

lemma chain_snoc:
  "chain ts xs \<Longrightarrow> t \<notin> set xs \<Longrightarrow> distinct xs \<Longrightarrow> task_next (ts' t) = 0 \<Longrightarrow> (xs \<noteq> [] \<longrightarrow> task_next (ts' (last xs)) = t) \<Longrightarrow>
   (\<forall>u\<in>set (butlast xs). task_next (ts' u) = task_next (ts u)) \<Longrightarrow> chain ts' (xs @ [t])"
proof (induction ts xs rule: chain.induct)
  case (3 ts a b us)
  then show ?case by (cases us) auto
qed simp_all

lemma walk_tasks: "tasks_ok s xs \<Longrightarrow> task_walk (task_at s) (kTasks s) = Some xs"
  using chain_walk [of "task_at s" xs] by (simp add: tasks_ok_def)

lemma schedule_step:
  assumes "tasks_ok s xs" and "i < length xs" and "kTask s = xs ! i"
  shows "tasks_ok (TskSchedule s) xs" and "kTask (TskSchedule s) = xs ! (Suc i mod length xs)"
    and "cr3 (TskSchedule s) = memory (task_at s (xs ! (Suc i mod length xs)))"
    and "task_at (TskSchedule s) = task_at s"
proof -
  have nz: "xs ! j \<noteq> 0" if "j < length xs" for j
    using assms(1) nth_mem [OF that] by (auto simp: tasks_ok_def)
  have nx: "task_next (task_at s (xs ! i)) = (if Suc i < length xs then xs ! Suc i else 0)"
    using assms(1,2) by (intro chain_nth) (simp add: tasks_ok_def)
  have first: "kTasks s = xs ! 0" using assms(1,2) by (auto simp: tasks_ok_def hd_conv_nth)
  show k: "kTask (TskSchedule s) = xs ! (Suc i mod length xs)"
  proof (cases "Suc i < length xs")
    case True
    then show ?thesis using nx nz [OF True] nz [OF assms(2)] assms(3) by (simp add: TskSchedule_def Let_def)
  next
    case False
    then have "Suc i mod length xs = 0" using assms(2) by (metis Suc_lessI mod_self)
    then show ?thesis using False nx nz [OF assms(2)] assms(3) first by (simp add: TskSchedule_def Let_def)
  qed
  have keep: "task_at (TskSchedule s) = task_at s" "kTasks (TskSchedule s) = kTasks s"
    "kLastTask (TskSchedule s) = kLastTask s"
    by (simp_all add: TskSchedule_def Let_def)
  then show "task_at (TskSchedule s) = task_at s" by simp
  have "xs ! (Suc i mod length xs) \<in> set xs" using assms(2) by (intro nth_mem mod_less_divisor) auto
  with keep k assms(1) show "tasks_ok (TskSchedule s) xs" by (simp add: tasks_ok_def)
  show "cr3 (TskSchedule s) = memory (task_at s (xs ! (Suc i mod length xs)))"
    using k nz [OF assms(2)] assms(3) by (simp add: TskSchedule_def Let_def split: if_splits)
qed

lemma schedule_steps:
  assumes "tasks_ok s xs" and "xs \<noteq> []" and "kTask s = xs ! (i mod length xs)"
  shows "kTask ((TskSchedule ^^ n) s) = xs ! ((i + n) mod length xs) \<and> tasks_ok ((TskSchedule ^^ n) s) xs"
proof (induction n)
  case 0
  show ?case using assms by simp
next
  case (Suc n)
  let ?s = "(TskSchedule ^^ n) s"
  have "(i + n) mod length xs < length xs" using assms(2) by simp
  from schedule_step [OF _ this, of ?s] Suc show ?case by (simp add: mod_Suc_eq)
qed


subsection \<open>Creating tasks\<close>

text \<open>Every task of the list is the payload of a used block of the heap.\<close>

definition tasks_owned :: "block list \<Rightarrow> addr list \<Rightarrow> bool" where
  "tasks_owned bs xs \<longleftrightarrow> (\<forall>t\<in>set xs. \<exists>c\<in>set bs. \<not> b_hole c \<and> t = b_pos c + 16)"

lemma append_task_ok:
  assumes "tasks_ok s xs" and "t \<notin> set xs" and "t \<noteq> 0"
    and "task_at s' = (\<lambda>u. if u = t then new else if xs \<noteq> [] \<and> u = last xs then (task_at s u)\<lparr>task_next := t\<rparr> else task_at s u)"
    and "task_next new = 0" and "kTasks s' = (if xs = [] then t else kTasks s)" and "kLastTask s' = t" and "kTask s' = kTask s"
  shows "tasks_ok s' (xs @ [t])"
proof -
  have "distinct xs" "chain (task_at s) xs" using assms(1) by (simp_all add: tasks_ok_def)
  have "u \<noteq> last xs" if "u \<in> set (butlast xs)" for u
    using that \<open>distinct xs\<close> by (cases xs rule: rev_cases) auto
  moreover have "u \<noteq> t" if "u \<in> set (butlast xs)" for u using that assms(2) in_set_butlastD by fastforce
  ultimately have "chain (task_at s') (xs @ [t])"
    using \<open>distinct xs\<close> \<open>chain (task_at s) xs\<close> assms(2,4,5) by (intro chain_snoc [where ts = "task_at s"]) auto
  with assms show ?thesis by (auto simp: tasks_ok_def)
qed

lemma TskCreateTask_run:
  assumes "kmalloc sizeof_Task s = Some (t, s\<lparr>mem := m', kHeap := h'\<rparr>)" and "tasks_ok s xs"
    and "t \<notin> set xs" and "t \<noteq> 0"
  obtains s' where "TskCreateTask nm ent s = Some (t, s')" and "tasks_ok s' (xs @ [t])"
    and "mem s' = RtZeroMemory m' t (ucast sizeof_Task)" and "kHeap s' = h'"
    and "pid (task_at s' t) = kNextPid s" and "kNextPid s' = kNextPid s + 1"
    and "name (task_at s' t) = nm" and "task_entry (task_at s' t) = ent"
    and "\<forall>u\<in>set xs. pid (task_at s' u) = pid (task_at s u)"
proof -
  define s1 where "s1 = s\<lparr>mem := RtZeroMemory m' t (ucast sizeof_Task), kHeap := h',
    task_at := (task_at s)(t := zero_task)\<rparr>"
  define s2 where "s2 = (if kTasks s1 = 0 then s1\<lparr>kTasks := t, kLastTask := t\<rparr>
    else (set_task (kLastTask s1) (\<lambda>u. u\<lparr>task_next := t\<rparr>) s1)\<lparr>kLastTask := t\<rparr>)"
  define new where "new = zero_task\<lparr>pid := kNextPid s, name := nm, task_entry := ent\<rparr>"
  define s' where "s' = s2\<lparr>kNextPid := kNextPid s + 1, task_at := (task_at s2)(t := new)\<rparr>"
  have kn: "kNextPid s2 = kNextPid s" by (simp add: s2_def s1_def set_task_def)
  have lt: "kLastTask s = last xs" "kTasks s \<noteq> 0" if "xs \<noteq> []"
  proof -
    have "hd xs \<noteq> 0" using assms(2) hd_in_set [OF that] unfolding tasks_ok_def by metis
    then show "kLastTask s = last xs" "kTasks s \<noteq> 0" using assms(2) that by (auto simp: tasks_ok_def)
  qed
  have ts: "task_at s2 t = zero_task"
    using lt assms(2,3) by (auto simp: s2_def s1_def set_task_def tasks_ok_def zero_task_def split: if_splits)
  have e1: "set_task t (\<lambda>_. zero_task) (s\<lparr>mem := m', kHeap := h',
      mem := RtZeroMemory (mem (s\<lparr>mem := m', kHeap := h'\<rparr>)) t (ucast sizeof_Task)\<rparr>) = s1"
    by (simp add: s1_def set_task_def)
  have e3: "set_task t (\<lambda>t. t\<lparr>name := nm, task_entry := ent\<rparr>)
      (set_task t (\<lambda>t. t\<lparr>pid := kNextPid s2\<rparr>) (s2\<lparr>kNextPid := kNextPid s2 + 1\<rparr>)) = s'"
    by (simp add: set_task_def s'_def new_def kn ts)
  have run: "TskCreateTask nm ent s = Some (t, s')"
    by (simp only: TskCreateTask_def assms(1) Let_def bind.simps prod.case e1 s2_def [symmetric] e3)
  have "task_at s' = (\<lambda>u. if u = t then new else if xs \<noteq> [] \<and> u = last xs
      then (task_at s u)\<lparr>task_next := t\<rparr> else task_at s u)"
    using lt assms(2,3) by (auto simp: s'_def s2_def s1_def set_task_def tasks_ok_def fun_eq_iff)
  moreover have "kTasks s' = (if xs = [] then t else kTasks s)" "kLastTask s' = t" "kTask s' = kTask s"
    using lt assms(2) by (auto simp: s'_def s2_def s1_def set_task_def tasks_ok_def)
  moreover have tn: "task_next new = 0" by (simp add: new_def zero_task_def)
  ultimately have ok: "tasks_ok s' (xs @ [t])" by (intro append_task_ok [OF assms(2-4)])
  show ?thesis
    using assms(3) by (intro that [OF run ok])
      (auto simp: s'_def new_def s2_def s1_def set_task_def zero_task_def)
qed


subsection \<open>Properties\<close>


definition sched_example :: sched_state where
  "sched_example = heap_state.extend heap_state_example
     \<lparr>task_at = (\<lambda>_. zero_task), kTasks = 0, kLastTask = 0, kTask = 0, kNextPid = 7, cr3 = 0x1000\<rparr>"

lemma sched_example_ok:
  "heap_ok (mem sched_example) (kHeap sched_example) [hole_example]" "tasks_ok sched_example []"
  using heap_state_example_ok
  by (simp_all add: sched_example_def heap_state.defs heap_state_example_def vmm.defs tasks_ok_def)


text \<open>C15: the scheduler is a fair round robin: with \<open>n\<close> tasks, \<open>n\<close> calls of \<open>TskSchedule\<close> make every task
  current in turn, in the order of the list, and come back to the first.\<close>

theorem TskSchedule_round_robin:
  assumes "tasks_ok s xs" and "i < length xs" and "kTask s = xs ! i"
  shows "(\<forall>n. kTask ((TskSchedule ^^ n) s) = xs ! ((i + n) mod length xs)) \<and>
    kTask ((TskSchedule ^^ length xs) s) = kTask s \<and>
    (\<forall>t\<in>set xs. \<exists>n<length xs. kTask ((TskSchedule ^^ n) s) = t)"
proof -
  have ne: "xs \<noteq> []" using assms(2) by auto
  have k: "kTask ((TskSchedule ^^ n) s) = xs ! ((i + n) mod length xs)" for n
    using schedule_steps [OF assms(1) ne, of i n] assms(2,3) by simp
  have "\<exists>n<length xs. kTask ((TskSchedule ^^ n) s) = t" if t: "t \<in> set xs" for t
  proof -
    obtain j where j: "j < length xs" "t = xs ! j" using t by (auto simp: in_set_conv_nth)
    let ?n = "(j + (length xs - i)) mod length xs"
    have "(i + ?n) mod length xs = (i + (j + (length xs - i))) mod length xs" by (simp add: mod_add_right_eq)
    also have "\<dots> = j" using j(1) assms(2) by simp
    finally show ?thesis using k [of ?n] j ne by (intro exI [of _ ?n]) simp
  qed
  with k assms(2,3) show ?thesis by simp
qed

theorem TskSchedule_round_robin_witness:
  "\<exists>s :: sched_state. tasks_ok s [0x10, 0x20] \<and> kTask s = 0x10 \<and> kTask ((TskSchedule ^^ 2) s) = 0x10 \<and>
     kTask ((TskSchedule ^^ 1) s) = 0x20"
proof -
  let ?s = "sched_example\<lparr>task_at := (\<lambda>t. if t = 0x10 then zero_task\<lparr>task_next := 0x20\<rparr> else zero_task),
    kTasks := 0x10, kLastTask := 0x20, kTask := 0x10\<rparr>"
  have ok: "tasks_ok ?s [0x10, 0x20]" by (simp add: tasks_ok_def zero_task_def)
  have "0 < length [0x10, 0x20 :: u64]" "kTask ?s = [0x10, 0x20] ! 0" by simp_all
  note rr = TskSchedule_round_robin [OF ok this]
  then have "kTask ((TskSchedule ^^ 2) ?s) = 0x10" "kTask ((TskSchedule ^^ 1) ?s) = 0x20"
    by (simp_all only: conjunct1 [OF rr, rule_format]) simp_all
  with ok show ?thesis by (intro exI [of _ ?s]) simp
qed

end
