(* ===== verification/Machine.thy ===== *)
theory Machine
  imports Prelude
begin

text \<open>
  The hardware the kernel talks to.  Devices are not part of the repository: they are a state of
  type \<open>'d\<close> and a record of the accesses the instructions of \<open>cpu/intel.h\<close> and the volatile
  pointers perform on it.  Every driver takes that record as an argument; what a theorem needs of
  a device is a named hypothesis about it.
\<close>

record 'd bus =
  in8 :: "u16 \<Rightarrow> 'd \<Rightarrow> u8 \<times> 'd"
  in16 :: "u16 \<Rightarrow> 'd \<Rightarrow> u16 \<times> 'd"
  in32 :: "u16 \<Rightarrow> 'd \<Rightarrow> u32 \<times> 'd"
  out8 :: "u16 \<Rightarrow> u8 \<Rightarrow> 'd \<Rightarrow> 'd"
  out16 :: "u16 \<Rightarrow> u16 \<Rightarrow> 'd \<Rightarrow> 'd"
  out32 :: "u16 \<Rightarrow> u32 \<Rightarrow> 'd \<Rightarrow> 'd"
  mmio_read8 :: "addr \<Rightarrow> 'd \<Rightarrow> u8 \<times> 'd"
  mmio_read32 :: "addr \<Rightarrow> 'd \<Rightarrow> u32 \<times> 'd"
  mmio_write32 :: "addr \<Rightarrow> u32 \<Rightarrow> 'd \<Rightarrow> 'd"
  mmio_write64 :: "addr \<Rightarrow> u64 \<Rightarrow> 'd \<Rightarrow> 'd"

subsection \<open>Port instructions\<close>

definition IoIn8 :: "'d bus \<Rightarrow> u16 \<Rightarrow> 'd \<Rightarrow> u8 \<times> 'd" where "IoIn8 io port d = in8 io port d"
definition IoIn16 :: "'d bus \<Rightarrow> u16 \<Rightarrow> 'd \<Rightarrow> u16 \<times> 'd" where "IoIn16 io port d = in16 io port d"
definition IoIn32 :: "'d bus \<Rightarrow> u16 \<Rightarrow> 'd \<Rightarrow> u32 \<times> 'd" where "IoIn32 io port d = in32 io port d"
definition IoOut8 :: "'d bus \<Rightarrow> u16 \<Rightarrow> u8 \<Rightarrow> 'd \<Rightarrow> 'd" where "IoOut8 io port val d = out8 io port val d"
definition IoOut16 :: "'d bus \<Rightarrow> u16 \<Rightarrow> u16 \<Rightarrow> 'd \<Rightarrow> 'd" where "IoOut16 io port val d = out16 io port val d"
definition IoOut32 :: "'d bus \<Rightarrow> u16 \<Rightarrow> u32 \<Rightarrow> 'd \<Rightarrow> 'd" where "IoOut32 io port val d = out32 io port val d"
definition IoWait :: "'d bus \<Rightarrow> 'd \<Rightarrow> 'd" where "IoWait io d = out8 io 0x80 0 d"

lemmas port_defs = IoIn8_def IoIn16_def IoIn32_def IoOut8_def IoOut16_def IoOut32_def IoWait_def

subsection \<open>Volatile words\<close>

definition volatile_read8 :: "'d bus \<Rightarrow> addr \<Rightarrow> 'd \<Rightarrow> u8 \<times> 'd" where
  "volatile_read8 io a d = mmio_read8 io a d"

definition volatile_read32 :: "'d bus \<Rightarrow> addr \<Rightarrow> 'd \<Rightarrow> u32 \<times> 'd" where
  "volatile_read32 io a d = mmio_read32 io a d"

definition volatile_write32 :: "'d bus \<Rightarrow> addr \<Rightarrow> u32 \<Rightarrow> 'd \<Rightarrow> 'd" where
  "volatile_write32 io a v d = mmio_write32 io a v d"

definition volatile_write64 :: "'d bus \<Rightarrow> addr \<Rightarrow> u64 \<Rightarrow> 'd \<Rightarrow> 'd" where
  "volatile_write64 io a v d = mmio_write64 io a v d"

text \<open>A read-modify-write of a volatile word, as \<open>|=\<close>, \<open>&=\<close> and bit-field assignments compile.\<close>

definition volatile_update32 :: "'d bus \<Rightarrow> addr \<Rightarrow> (u32 \<Rightarrow> u32) \<Rightarrow> 'd \<Rightarrow> 'd" where
  "volatile_update32 io a f d = (let (v, d) = mmio_read32 io a d in mmio_write32 io a (f v) d)"

subsection \<open>A recording device\<close>

text \<open>
  A concrete device for the instances: it logs every write and answers reads from a fixed table
  of port values and a memory of 32-bit words.
\<close>

datatype io_event = Out8 u16 u8 | Out16 u16 u16 | Out32 u16 u32 | Write32 addr u32 | Write64 addr u64

record recorder =
  port_value :: "u16 \<Rightarrow> u32"
  word_at :: "addr \<Rightarrow> u32"
  io_log :: "io_event list"

definition log_event :: "io_event \<Rightarrow> recorder \<Rightarrow> recorder" where
  "log_event e d = d\<lparr>io_log := io_log d @ [e]\<rparr>"

definition recording_bus :: "recorder bus" where
  "recording_bus = \<lparr>
     in8 = (\<lambda>p d. (ucast (port_value d p), d)),
     in16 = (\<lambda>p d. (ucast (port_value d p), d)),
     in32 = (\<lambda>p d. (port_value d p, d)),
     out8 = (\<lambda>p v. log_event (Out8 p v)),
     out16 = (\<lambda>p v. log_event (Out16 p v)),
     out32 = (\<lambda>p v. log_event (Out32 p v)),
     mmio_read8 = (\<lambda>a d. (ucast (word_at d a), d)),
     mmio_read32 = (\<lambda>a d. (word_at d a, d)),
     mmio_write32 = (\<lambda>a v d. log_event (Write32 a v) (d\<lparr>word_at := (word_at d)(a := v)\<rparr>)),
     mmio_write64 = (\<lambda>a v. log_event (Write64 a v))\<rparr>"

lemma recording_bus_simps [simp]:
  "in8 recording_bus p d = (ucast (port_value d p), d)"
  "in16 recording_bus p d = (ucast (port_value d p), d)"
  "in32 recording_bus p d = (port_value d p, d)"
  "out8 recording_bus p v8 = log_event (Out8 p v8)"
  "out16 recording_bus p v16 = log_event (Out16 p v16)"
  "out32 recording_bus p v32 = log_event (Out32 p v32)"
  "mmio_read8 recording_bus a d = (ucast (word_at d a), d)"
  "mmio_write64 recording_bus a v64 = log_event (Write64 a v64)"
  "mmio_read32 recording_bus a d = (word_at d a, d)"
  "mmio_write32 recording_bus a v32 d = log_event (Write32 a v32) (d\<lparr>word_at := (word_at d)(a := v32)\<rparr>)"
  by (simp_all add: recording_bus_def)

lemma log_event_simps [simp]:
  "port_value (log_event e d) = port_value d" "word_at (log_event e d) = word_at d"
  "io_log (log_event e d) = io_log d @ [e]"
  by (simp_all add: log_event_def)

end
