(* ===== verification/Intel.thy ===== *)
theory Intel
  imports Machine
begin

text \<open>
  The descriptor tables of \<open>kernel/cpu/intel.c\<close> and \<open>intel.h\<close>: the interrupt gates, the global
  descriptor table, the task state segment and the remapping of the two interrupt controllers.
  The instructions \<open>lgdt\<close>, \<open>lidt\<close> and \<open>sti\<close> set the corresponding registers of the state; the
  addresses of the tables and of the interrupt stubs are linker symbols and are arguments.
\<close>

subsection \<open>Descriptors\<close>

definition PIC1_COMMAND :: u16 where "PIC1_COMMAND = 0x20"
definition PIC1_DATA :: u16 where "PIC1_DATA = 0x21"
definition PIC2_COMMAND :: u16 where "PIC2_COMMAND = 0xA0"
definition PIC2_DATA :: u16 where "PIC2_DATA = 0xA1"
definition ICW1_INIT :: u8 where "ICW1_INIT = 0x10"
definition ICW1_ICW4 :: u8 where "ICW1_ICW4 = 0x01"
definition ICW4_8086 :: u8 where "ICW4_8086 = 0x01"
definition KERNEL_CS :: u16 where "KERNEL_CS = 0x28"
definition GATE_INTR :: u16 where "GATE_INTR = 0xE"

record GlobalDescriptorTableEntry =
  gd_limit :: u16
  gd_base_low16 :: u16
  gd_base_mid8 :: u8
  gd_access :: u8
  gd_granularity :: u8
  gd_base_high8 :: u8

record TaskStateSegmentEntry =
  te_length :: u16
  te_base_low16 :: u16
  te_base_mid8 :: u8
  te_flags0 :: u8
  te_flags1 :: u8
  te_base_high8 :: u8
  te_base_upper32 :: u32
  te_reserved :: u32

record TaskStateSegment =
  ts_reserved0 :: u32
  ts_rsp :: "u64 list"
  ts_reserved1 :: u64
  ts_ist :: "u64 list"
  ts_reserved2 :: u32
  ts_reserved3 :: u32
  ts_reserved4 :: u16
  ts_iopb_offset :: u16

definition sizeof_TaskStateSegment :: u16 where "sizeof_TaskStateSegment = 104"

record GlobalDescriptorTable =
  gdt_null :: GlobalDescriptorTableEntry
  gdt_code16 :: GlobalDescriptorTableEntry
  gdt_data16 :: GlobalDescriptorTableEntry
  gdt_code32 :: GlobalDescriptorTableEntry
  gdt_data32 :: GlobalDescriptorTableEntry
  gdt_code64 :: GlobalDescriptorTableEntry
  gdt_data64 :: GlobalDescriptorTableEntry
  gdt_user_data :: GlobalDescriptorTableEntry
  gdt_user_code :: GlobalDescriptorTableEntry
  gdt_tss :: TaskStateSegmentEntry

definition gdt_entry :: "u16 \<Rightarrow> u16 \<Rightarrow> u8 \<Rightarrow> u8 \<Rightarrow> u8 \<Rightarrow> u8 \<Rightarrow> GlobalDescriptorTableEntry" where
  "gdt_entry lim lo mid acc gran hi = \<lparr>gd_limit = lim, gd_base_low16 = lo, gd_base_mid8 = mid,
     gd_access = acc, gd_granularity = gran, gd_base_high8 = hi\<rparr>"

definition kIntelGDT_init :: GlobalDescriptorTable where
  "kIntelGDT_init = \<lparr>
     gdt_null = gdt_entry 0 0 0 0 0 0,
     gdt_code16 = gdt_entry 0xFFFF 0 0 0x9A 0x80 0,
     gdt_data16 = gdt_entry 0xFFFF 0 0 0x92 0x80 0,
     gdt_code32 = gdt_entry 0xFFFF 0 0 0x9A 0xCF 0,
     gdt_data32 = gdt_entry 0xFFFF 0 0 0x92 0xCF 0,
     gdt_code64 = gdt_entry 0 0 0 0x9A 0xA2 0,
     gdt_data64 = gdt_entry 0 0 0 0x92 0xA0 0,
     gdt_user_data = gdt_entry 0 0 0 0xF2 0x00 0,
     gdt_user_code = gdt_entry 0 0 0 0xFA 0x20 0,
     gdt_tss = \<lparr>te_length = 0x0068, te_base_low16 = 0, te_base_mid8 = 0, te_flags0 = 0x89,
       te_flags1 = 0x20, te_base_high8 = 0, te_base_upper32 = 0, te_reserved = 0\<rparr>\<rparr>"

text \<open>The entry a selector picks: its byte offset in the table, eight bytes per entry.\<close>

definition gdt_select :: "GlobalDescriptorTable \<Rightarrow> u16 \<Rightarrow> GlobalDescriptorTableEntry option" where
  "gdt_select g sel =
     (let es = [gdt_null g, gdt_code16 g, gdt_data16 g, gdt_code32 g, gdt_data32 g, gdt_code64 g,
                gdt_data64 g, gdt_user_data g, gdt_user_code g]
      in if unat sel div 8 < length es then Some (es ! (unat sel div 8)) else None)"

text \<open>
  An interrupt gate is two 64-bit words of bit-fields: offset bits 0-15 at 0, selector at 16,
  stack table index at 32, type at 40, privilege at 45, present at 47, offset bits 16-31 at 48,
  and offset bits 32-63 at the start of the second word.
\<close>

record InterruptDescriptor =
  idt_low :: u64
  idt_high :: u64

definition idt_set_offset0 :: "u16 \<Rightarrow> InterruptDescriptor \<Rightarrow> InterruptDescriptor" where
  "idt_set_offset0 v d = d\<lparr>idt_low := bf_set 0 16 (ucast v) (idt_low d)\<rparr>"
definition idt_set_selector :: "u16 \<Rightarrow> InterruptDescriptor \<Rightarrow> InterruptDescriptor" where
  "idt_set_selector v d = d\<lparr>idt_low := bf_set 16 16 (ucast v) (idt_low d)\<rparr>"
definition idt_set_type :: "u16 \<Rightarrow> InterruptDescriptor \<Rightarrow> InterruptDescriptor" where
  "idt_set_type v d = d\<lparr>idt_low := bf_set 40 4 (ucast v) (idt_low d)\<rparr>"
definition idt_set_present :: "u64 \<Rightarrow> InterruptDescriptor \<Rightarrow> InterruptDescriptor" where
  "idt_set_present v d = d\<lparr>idt_low := bf_set 47 1 v (idt_low d)\<rparr>"
definition idt_set_offset1 :: "u16 \<Rightarrow> InterruptDescriptor \<Rightarrow> InterruptDescriptor" where
  "idt_set_offset1 v d = d\<lparr>idt_low := bf_set 48 16 (ucast v) (idt_low d)\<rparr>"
definition idt_set_offset2 :: "u32 \<Rightarrow> InterruptDescriptor \<Rightarrow> InterruptDescriptor" where
  "idt_set_offset2 v d = d\<lparr>idt_high := bf_set 0 32 (ucast v) (idt_high d)\<rparr>"

subsection \<open>State and operations\<close>

record 'd intel_state =
  device :: 'd
  kIntelIDT :: "InterruptDescriptor list"
  kIntelGDT :: GlobalDescriptorTable
  kIntelTSS :: TaskStateSegment
  gdtr :: "u16 \<times> addr"
  idtr :: "u16 \<times> addr"
  interrupts_on :: bool
  cr3_reg :: addr

text \<open>An index outside the table is undefined behaviour in C; the model then leaves the state alone.\<close>

definition IntelSetInterrupt :: "nat \<Rightarrow> u64 \<Rightarrow> u16 \<Rightarrow> ('d, 'a) intel_state_scheme \<Rightarrow> ('d, 'a) intel_state_scheme" where
  "IntelSetInterrupt interrupt handler type s =
     (let idt = \<lparr>idt_low = 0, idt_high = 0\<rparr>;
          idt = idt_set_offset0 (ucast (handler AND 0xFFFF)) idt;
          idt = idt_set_offset1 (ucast (drop_bit 16 handler AND 0xFFFF)) idt;
          idt = idt_set_offset2 (ucast (drop_bit 32 handler AND 0xFFFFFFFF)) idt;
          idt = idt_set_selector KERNEL_CS idt;
          idt = idt_set_type type idt;
          idt = idt_set_present 1 idt
      in s\<lparr>kIntelIDT := (kIntelIDT s)[interrupt := idt]\<rparr>)"

definition IntelInitializePic :: "'d bus \<Rightarrow> 'd \<Rightarrow> 'd" where
  "IntelInitializePic io d =
     (let d = IoOut8 io PIC1_COMMAND (ICW1_INIT OR ICW1_ICW4) d;
          d = IoOut8 io PIC2_COMMAND (ICW1_INIT OR ICW1_ICW4) d;
          d = IoOut8 io PIC1_DATA 0x20 d;
          d = IoOut8 io PIC2_DATA 0x28 d;
          d = IoOut8 io PIC1_DATA 4 d;
          d = IoOut8 io PIC2_DATA 2 d;
          d = IoOut8 io PIC1_DATA ICW4_8086 d;
          d = IoOut8 io PIC2_DATA ICW4_8086 d;
          d = IoOut8 io PIC1_DATA 0xff d;
          d = IoOut8 io PIC2_DATA 0xff d
      in d)"

text \<open>The loop over the 256 vectors; the stubs are 32 bytes apart.\<close>

fun set_interrupts :: "nat \<Rightarrow> nat \<Rightarrow> u64 \<Rightarrow> ('d, 'a) intel_state_scheme \<Rightarrow> ('d, 'a) intel_state_scheme" where
  "set_interrupts 0 vector isr_table s = s"
| "set_interrupts (Suc n) vector isr_table s =
     set_interrupts n (Suc vector) (isr_table + 32) (IntelSetInterrupt vector isr_table GATE_INTR s)"

record image =
  addr_of_tss :: addr
  addr_of_gdt :: addr
  addr_of_idt :: addr
  addr_of_isr_table :: addr

definition IntelInitialize ::
    "'d bus \<Rightarrow> image \<Rightarrow> u64 \<Rightarrow> ('d, 'a) intel_state_scheme \<Rightarrow> ('d, 'a) intel_state_scheme" where
  "IntelInitialize io img kernel_stack s =
     (let tss = (kIntelTSS s)\<lparr>ts_rsp := (ts_rsp (kIntelTSS s))[0 := kernel_stack],
                              ts_ist := (ts_ist (kIntelTSS s))[1 := 0],
                              ts_iopb_offset := sizeof_TaskStateSegment\<rparr>;
          p = addr_of_tss img;
          te = (gdt_tss (kIntelGDT s))\<lparr>te_base_low16 := ucast (p AND 0xFFFF),
                 te_base_mid8 := ucast (drop_bit 16 p AND 0xFF),
                 te_base_high8 := ucast (drop_bit 24 p AND 0xFF),
                 te_base_upper32 := ucast (drop_bit 32 p)\<rparr>;
          s = s\<lparr>kIntelTSS := tss, kIntelGDT := (kIntelGDT s)\<lparr>gdt_tss := te\<rparr>\<rparr>;
          s = s\<lparr>gdtr := (9 * 8 + 16 - 1, addr_of_gdt img)\<rparr>;
          s = set_interrupts 256 0 (addr_of_isr_table img) s;
          s = s\<lparr>idtr := (256 * 16 - 1, addr_of_idt img)\<rparr>;
          d = IntelInitializePic io (device s);
          d = IoOut8 io PIC1_DATA 0xFD d;
          d = IoOut8 io PIC2_DATA 0xFF d
      in s\<lparr>device := d, interrupts_on := True\<rparr>)"

definition IntelGetCR3 :: "('d, 'a) intel_state_scheme \<Rightarrow> addr" where
  "IntelGetCR3 s = cr3_reg s"

definition IntelSetCR3 :: "addr \<Rightarrow> ('d, 'a) intel_state_scheme \<Rightarrow> ('d, 'a) intel_state_scheme" where
  "IntelSetCR3 v s = s\<lparr>cr3_reg := v\<rparr>"

subsection \<open>What the processor reads\<close>

text \<open>The handler address, the selector, the type and the present bit of a gate.\<close>

definition gate_offset :: "InterruptDescriptor \<Rightarrow> u64" where
  "gate_offset d = bf_get 0 16 (idt_low d) OR push_bit 16 (bf_get 48 16 (idt_low d)) OR
     push_bit 32 (bf_get 0 32 (idt_high d))"

definition gate_selector :: "InterruptDescriptor \<Rightarrow> u64" where "gate_selector d = bf_get 16 16 (idt_low d)"
definition gate_type :: "InterruptDescriptor \<Rightarrow> u64" where "gate_type d = bf_get 40 4 (idt_low d)"
definition gate_present :: "InterruptDescriptor \<Rightarrow> u64" where "gate_present d = bf_get 47 1 (idt_low d)"

definition tss_base :: "TaskStateSegmentEntry \<Rightarrow> u64" where
  "tss_base t = ucast (te_base_low16 t) OR push_bit 16 (ucast (te_base_mid8 t)) OR
     push_bit 24 (ucast (te_base_high8 t)) OR push_bit 32 (ucast (te_base_upper32 t))"

text \<open>A 64-bit value cut into the fields of a gate or of a task segment entry and put together again.\<close>

lemma mask_low: "(x :: u64) AND 0xFFFF = take_bit 16 x" "x AND 0xFF = take_bit 8 x" "x AND 0xFFFFFFFF = take_bit 32 x"
  by (simp_all add: take_bit_eq_mask mask_eq_exp_minus_1)

lemma gate_split: "take_bit 16 x OR push_bit 16 (take_bit 16 (drop_bit 16 x)) OR
    push_bit 32 (take_bit 32 (drop_bit 32 x)) = (x :: u64)"
proof (rule bit_word_eqI)
  fix n assume "n < LENGTH(64)"
  then consider "n < 16" | "16 \<le> n" "n < 32" | "32 \<le> n" "n < 64" by fastforce
  then show "bit (take_bit 16 x OR push_bit 16 (take_bit 16 (drop_bit 16 x)) OR
      push_bit 32 (take_bit 32 (drop_bit 32 x))) n = bit x n"
    by cases (auto simp: bit_simps)
qed

lemma tss_split: "take_bit 16 x OR push_bit 16 (take_bit 8 (drop_bit 16 x)) OR
    push_bit 24 (take_bit 8 (drop_bit 24 x)) OR push_bit 32 (take_bit 32 (drop_bit 32 x)) = (x :: u64)"
proof (rule bit_word_eqI)
  fix n assume "n < LENGTH(64)"
  then consider "n < 16" | "16 \<le> n" "n < 24" | "24 \<le> n" "n < 32" | "32 \<le> n" "n < 64" by fastforce
  then show "bit (take_bit 16 x OR push_bit 16 (take_bit 8 (drop_bit 16 x)) OR
      push_bit 24 (take_bit 8 (drop_bit 24 x)) OR push_bit 32 (take_bit 32 (drop_bit 32 x))) n = bit x n"
    by cases (auto simp: bit_simps)
qed

lemma ucast_down_up:
  "ucast (ucast (x :: u64) :: u16) = take_bit 16 x" "ucast (ucast (x :: u64) :: u8) = take_bit 8 x"
  "ucast (ucast (x :: u64) :: u32) = take_bit 32 x"
  by (rule bit_word_eqI; auto simp: bit_simps)+

lemma set_gate:
  assumes "i < length (kIntelIDT s)" and g_def: "g = kIntelIDT (IntelSetInterrupt i handler ty s) ! i"
  shows "gate_offset g = handler" and "gate_selector g = 0x28" and "gate_type g = take_bit 4 (ucast ty)"
    and "gate_present g = 1"
  using assms(1) gate_split [of handler]
  by (simp_all add: g_def IntelSetInterrupt_def Let_def gate_offset_def gate_selector_def gate_type_def
      gate_present_def idt_set_offset0_def idt_set_offset1_def idt_set_offset2_def idt_set_selector_def
      idt_set_type_def idt_set_present_def bf_simps ucast_down_up mask_low KERNEL_CS_def)


lemma set_interrupt_keeps [simp]:
  "length (kIntelIDT (IntelSetInterrupt i h ty s)) = length (kIntelIDT s)"
  "j \<noteq> i \<Longrightarrow> kIntelIDT (IntelSetInterrupt i h ty s) ! j = kIntelIDT s ! j"
  "kIntelGDT (IntelSetInterrupt i h ty s) = kIntelGDT s" "kIntelTSS (IntelSetInterrupt i h ty s) = kIntelTSS s"
  "gdtr (IntelSetInterrupt i h ty s) = gdtr s" "device (IntelSetInterrupt i h ty s) = device s"
  by (simp_all add: IntelSetInterrupt_def Let_def)

lemma set_interrupts_keeps:
  "length (kIntelIDT (set_interrupts n v a s)) = length (kIntelIDT s)"
  "kIntelGDT (set_interrupts n v a s) = kIntelGDT s" "kIntelTSS (set_interrupts n v a s) = kIntelTSS s"
  "gdtr (set_interrupts n v a s) = gdtr s" "device (set_interrupts n v a s) = device s"
  "j < v \<Longrightarrow> kIntelIDT (set_interrupts n v a s) ! j = kIntelIDT s ! j"
  by (induction n arbitrary: v a s) simp_all

lemma set_interrupts_gate:
  assumes "v \<le> j" and "j < v + n" and "v + n \<le> length (kIntelIDT s)"
  shows "gate_offset (kIntelIDT (set_interrupts n v a s) ! j) = a + 32 * of_nat (j - v) \<and>
    gate_selector (kIntelIDT (set_interrupts n v a s) ! j) = 0x28 \<and>
    gate_type (kIntelIDT (set_interrupts n v a s) ! j) = 0xE \<and>
    gate_present (kIntelIDT (set_interrupts n v a s) ! j) = 1"
  using assms
proof (induction n arbitrary: v a s)
  case (Suc n)
  let ?s = "IntelSetInterrupt v a GATE_INTR s"
  show ?case
  proof (cases "j = v")
    case True
    have "kIntelIDT (set_interrupts n (Suc v) (a + 32) ?s) ! v = kIntelIDT ?s ! v"
      by (rule set_interrupts_keeps(6)) simp
    with True Suc.prems(3) set_gate [of v s "kIntelIDT ?s ! v" a GATE_INTR] show ?thesis
      by (simp add: GATE_INTR_def)
  next
    case False
    then have "j - v = Suc (j - Suc v)" using Suc.prems(1) by simp
    with False Suc.IH [of "Suc v" ?s "a + 32"] Suc.prems show ?thesis by (simp add: algebra_simps)
  qed
qed simp

subsection \<open>Properties\<close>


definition intel_example :: "recorder intel_state" where
  "intel_example = \<lparr>device = \<lparr>port_value = (\<lambda>_. 0), word_at = (\<lambda>_. 0), io_log = []\<rparr>,
     kIntelIDT = replicate 256 \<lparr>idt_low = 0, idt_high = 0\<rparr>, kIntelGDT = kIntelGDT_init,
     kIntelTSS = \<lparr>ts_reserved0 = 0, ts_rsp = [0, 0, 0], ts_reserved1 = 0, ts_ist = replicate 7 0,
       ts_reserved2 = 0, ts_reserved3 = 0, ts_reserved4 = 0, ts_iopb_offset = 0\<rparr>,
     gdtr = (0, 0), idtr = (0, 0), interrupts_on = False, cr3_reg = 0\<rparr>"


text \<open>The controllers are remapped to vectors 32 and 40 and left with only the keyboard line unmasked.\<close>

lemma IntelInitialize_pic_log:
  "io_log (device (IntelInitialize recording_bus img stack s)) = io_log (device s) @
     [Out8 0x20 0x11, Out8 0xA0 0x11, Out8 0x21 0x20, Out8 0xA1 0x28, Out8 0x21 4, Out8 0xA1 2,
      Out8 0x21 1, Out8 0xA1 1, Out8 0x21 0xFF, Out8 0xA1 0xFF, Out8 0x21 0xFD, Out8 0xA1 0xFF]"
  by (simp add: IntelInitialize_def IntelInitializePic_def Let_def IoOut8_def set_interrupts_keeps
      PIC1_COMMAND_def PIC2_COMMAND_def PIC1_DATA_def PIC2_DATA_def ICW1_INIT_def ICW1_ICW4_def
      ICW4_8086_def del: set_interrupts.simps)

end
