(* ===== verification/Apic.thy ===== *)
theory Apic
  imports Sched DList Machine
begin

text \<open>
  The interrupt controllers of \<open>kernel/cpu/apic.c\<close>: the list of I/O APICs found in the MADT table,
  their indirectly addressed registers, and the redirection entries.  \<open>IoApic\<close> structures are heap
  blocks; their fields are kept in a store indexed by address, the list links in \<open>kIoApics\<close>.
  The last call of \<open>ApicInitialize\<close> leads into \<open>irqhandler.c\<close> and is added in theory \<open>Irq\<close>.
\<close>

subsection \<open>State\<close>

definition ACPI_MADT_TYPE_IO_APIC :: u8 where "ACPI_MADT_TYPE_IO_APIC = 1"
definition IOREGSEL :: u64 where "IOREGSEL = 0x00"
definition IOREGWIN :: u64 where "IOREGWIN = 0x10"
definition IOAPIC_VERSION :: u8 where "IOAPIC_VERSION = 0x01"
definition IOAPIC_RENTRY_BASE :: u8 where "IOAPIC_RENTRY_BASE = 0x10"
definition IOAPIC_ACTIVE_HIGH :: u64 where "IOAPIC_ACTIVE_HIGH = 0"
definition IOAPIC_ACTIVE_LOW :: u64 where "IOAPIC_ACTIVE_LOW = 1"
definition IOAPIC_EDGE :: u64 where "IOAPIC_EDGE = 0"
definition IOAPIC_LEVEL :: u64 where "IOAPIC_LEVEL = 1"

text \<open>The redirection entry \<open>IoApicRentry\<close> is a 64-bit word with bit-fields.\<close>

type_synonym IoApicRentry = u64

definition re_set_vector :: "u64 \<Rightarrow> IoApicRentry \<Rightarrow> IoApicRentry" where "re_set_vector = bf_set 0 8"
definition re_set_dest_mode :: "u64 \<Rightarrow> IoApicRentry \<Rightarrow> IoApicRentry" where "re_set_dest_mode = bf_set 11 1"
definition re_set_polarity :: "u64 \<Rightarrow> IoApicRentry \<Rightarrow> IoApicRentry" where "re_set_polarity = bf_set 13 1"
definition re_set_trigger_mode :: "u64 \<Rightarrow> IoApicRentry \<Rightarrow> IoApicRentry" where "re_set_trigger_mode = bf_set 15 1"
definition re_set_mask :: "u64 \<Rightarrow> IoApicRentry \<Rightarrow> IoApicRentry" where "re_set_mask = bf_set 16 1"
definition re_set_dest :: "u64 \<Rightarrow> IoApicRentry \<Rightarrow> IoApicRentry" where "re_set_dest = bf_set 56 8"
definition re_vector :: "IoApicRentry \<Rightarrow> u64" where "re_vector = bf_get 0 8"
definition re_dest_mode :: "IoApicRentry \<Rightarrow> u64" where "re_dest_mode = bf_get 11 1"
definition re_polarity :: "IoApicRentry \<Rightarrow> u64" where "re_polarity = bf_get 13 1"
definition re_trigger_mode :: "IoApicRentry \<Rightarrow> u64" where "re_trigger_mode = bf_get 15 1"
definition re_mask :: "IoApicRentry \<Rightarrow> u64" where "re_mask = bf_get 16 1"
definition re_dest :: "IoApicRentry \<Rightarrow> u64" where "re_dest = bf_get 56 8"

lemmas re_defs = re_set_vector_def re_set_dest_mode_def re_set_polarity_def re_set_trigger_mode_def
  re_set_mask_def re_set_dest_def re_vector_def re_dest_mode_def re_polarity_def re_trigger_mode_def
  re_mask_def re_dest_def

record IoApic =
  io_id :: u8
  max_rentry :: u8
  io_version :: u8
  gsi_base :: u32
  phys_addr :: addr
  address :: addr

definition sizeof_IoApic :: u32 where "sizeof_IoApic = 40"

record 'd apic_state = sched_state +
  dev :: 'd
  io_at :: "addr \<Rightarrow> IoApic"
  kIoApics :: "list_head \<times> links"
  kNumIoApics :: u32
  kLocalApicAddress :: u64

subsection \<open>Registers\<close>

definition IoApicRead :: "'d bus \<Rightarrow> addr \<Rightarrow> u8 \<Rightarrow> 'd \<Rightarrow> u32 \<times> 'd" where
  "IoApicRead io a index d =
     (let d = volatile_write32 io (a + IOREGSEL) (ucast index) d
      in volatile_read32 io (a + IOREGWIN) d)"

definition IoApicWrite :: "'d bus \<Rightarrow> addr \<Rightarrow> u8 \<Rightarrow> u32 \<Rightarrow> 'd \<Rightarrow> 'd" where
  "IoApicWrite io a index value d =
     (let d = volatile_write32 io (a + IOREGSEL) (ucast index) d
      in volatile_write32 io (a + IOREGWIN) value d)"

definition IoApicRead64 :: "'d bus \<Rightarrow> addr \<Rightarrow> u8 \<Rightarrow> 'd \<Rightarrow> u64 \<times> 'd" where
  "IoApicRead64 io a index d =
     (let d = volatile_write32 io (a + IOREGSEL) (ucast index) d;
          (low, d) = volatile_read32 io (a + IOREGWIN) d;
          d = volatile_write32 io (a + IOREGSEL) (ucast index + 1) d;
          (high, d) = volatile_read32 io (a + IOREGWIN) d
      in (push_bit 32 (ucast high) OR ucast low, d))"

definition IoApicWrite64 :: "'d bus \<Rightarrow> addr \<Rightarrow> u8 \<Rightarrow> u64 \<Rightarrow> 'd \<Rightarrow> 'd" where
  "IoApicWrite64 io a index value d =
     (let d = volatile_write32 io (a + IOREGSEL) (ucast index) d;
          d = volatile_write32 io (a + IOREGWIN) (ucast (value AND 0xFFFFFFFF)) d;
          d = volatile_write32 io (a + IOREGSEL) (ucast index + 1) d
      in volatile_write32 io (a + IOREGWIN) (ucast (drop_bit 32 value)) d)"

subsection \<open>Lookup\<close>

definition IoApicGetById :: "u8 \<Rightarrow> ('d, 'a) apic_state_scheme \<Rightarrow> addr option" where
  "IoApicGetById i s = LIST_FIND (kIoApics s) (\<lambda>a. io_id (io_at s a) = i)"

definition covers_irq :: "IoApic \<Rightarrow> u8 \<Rightarrow> bool" where
  "covers_irq c irq \<longleftrightarrow> gsi_base c \<le> ucast irq \<and> ucast irq < gsi_base c + ucast (max_rentry c)"

definition IoApicGetByIrq :: "u8 \<Rightarrow> ('d, 'a) apic_state_scheme \<Rightarrow> addr option" where
  "IoApicGetByIrq irq s = LIST_FIND (kIoApics s) (\<lambda>a. covers_irq (io_at s a) irq)"

text \<open>\<open>highest\<close> is a C \<open>int\<close>, compared and assigned through \<open>uint32_t\<close>.\<close>

definition ApicGetHighestIrq :: "('d, 'a) apic_state_scheme \<Rightarrow> int option" where
  "ApicGetHighestIrq s = do {
     xs \<leftarrow> LIST_FOREACH (kIoApics s);
     Some (sint (fold (\<lambda>a highest.
       let top = gsi_base (io_at s a) + ucast (max_rentry (io_at s a))
       in if highest < top then top else highest) xs (0 :: u32))) }"

subsection \<open>Redirection entries\<close>

text \<open>
  The part the four setters share: find the controller, read the entry of the interrupt, change
  it and write it back.  The register number is an \<open>uint8_t\<close> and wraps.
\<close>

definition rentry_index :: "u8 \<Rightarrow> u8" where
  "rentry_index irq = IOAPIC_RENTRY_BASE + 2 * irq"

definition change_rentry ::
    "'d bus \<Rightarrow> u8 \<Rightarrow> (IoApicRentry \<Rightarrow> IoApicRentry) \<Rightarrow> ('d, 'a) apic_state_scheme \<Rightarrow> (int \<times> ('d, 'a) apic_state_scheme) option" where
  "change_rentry io irq f s = do {
     ioapic \<leftarrow> IoApicGetByIrq irq s;
     if ioapic = 0 then Some (-1, s)
     else do {
       let a = address (io_at s ioapic);
       let (raw, d) = IoApicRead64 io a (rentry_index irq) (dev s);
       Some (0, s\<lparr>dev := IoApicWrite64 io a (rentry_index irq) (f raw) d\<rparr>) } }"

definition isa_rentry :: "u8 \<Rightarrow> u16 \<Rightarrow> IoApicRentry \<Rightarrow> IoApicRentry" where
  "isa_rentry vector flags rentry =
     (let rentry = re_set_mask 1 rentry;
          rentry = re_set_vector (ucast vector) rentry;
          polarity = flags AND 0x3;
          rentry = (if polarity = 0 \<or> polarity = 3 then re_set_polarity IOAPIC_ACTIVE_LOW rentry
                    else if polarity = 1 then re_set_polarity IOAPIC_ACTIVE_HIGH rentry else rentry);
          trigger_mode = drop_bit 2 flags AND 0x3
      in if trigger_mode = 0 \<or> trigger_mode = 1 then re_set_trigger_mode IOAPIC_EDGE rentry
         else if trigger_mode = 3 then re_set_trigger_mode IOAPIC_LEVEL rentry else rentry)"

definition ApicSetIrqIsaRouting ::
    "'d bus \<Rightarrow> u8 \<Rightarrow> u8 \<Rightarrow> u16 \<Rightarrow> ('d, 'a) apic_state_scheme \<Rightarrow> (int \<times> ('d, 'a) apic_state_scheme) option" where
  "ApicSetIrqIsaRouting io isa_irq vector flags = change_rentry io isa_irq (isa_rentry vector flags)"

definition ApicSetIrqVector ::
    "'d bus \<Rightarrow> u8 \<Rightarrow> u8 \<Rightarrow> ('d, 'a) apic_state_scheme \<Rightarrow> (int \<times> ('d, 'a) apic_state_scheme) option" where
  "ApicSetIrqVector io irq vector =
     change_rentry io irq (\<lambda>r. re_set_vector (ucast vector) (re_set_trigger_mode IOAPIC_EDGE r))"

definition ApicSetIrqDest ::
    "'d bus \<Rightarrow> u8 \<Rightarrow> u8 \<Rightarrow> u8 \<Rightarrow> ('d, 'a) apic_state_scheme \<Rightarrow> (int \<times> ('d, 'a) apic_state_scheme) option" where
  "ApicSetIrqDest io irq mode dst =
     change_rentry io irq (\<lambda>r. re_set_dest (ucast dst) (re_set_dest_mode (ucast mode) r))"

definition ApicSetIrqMask ::
    "'d bus \<Rightarrow> u8 \<Rightarrow> u8 \<Rightarrow> ('d, 'a) apic_state_scheme \<Rightarrow> (int \<times> ('d, 'a) apic_state_scheme) option" where
  "ApicSetIrqMask io irq msk = change_rentry io irq (re_set_mask (ucast (msk AND 1)))"

subsection \<open>Reading the MADT\<close>

text \<open>\<open>AcpiMadt\<close>: table length at 4, \<open>local_apic_address\<close> at 36, \<open>flags\<close> at 40, entries from 44 on.\<close>

definition madt_length :: "mem \<Rightarrow> addr \<Rightarrow> u32" where "madt_length m t = load32 m (t + 4)"
definition madt_local_apic :: "mem \<Rightarrow> addr \<Rightarrow> u32" where "madt_local_apic m t = load32 m (t + 36)"
definition madt_flags :: "mem \<Rightarrow> addr \<Rightarrow> u32" where "madt_flags m t = load32 m (t + 40)"

text \<open>Masking every redirection entry of a new controller: \<open>for (i = 0; i <= max_rentry; i++)\<close>.\<close>

definition mask_rentry :: "'d bus \<Rightarrow> addr \<Rightarrow> nat \<Rightarrow> 'd \<Rightarrow> 'd" where
  "mask_rentry io a i d =
     (let index = IOAPIC_RENTRY_BASE + 2 * of_nat i;
          (raw, d) = IoApicRead64 io a index d
      in IoApicWrite64 io a index (re_set_mask 1 raw) d)"

definition mask_all :: "'d bus \<Rightarrow> addr \<Rightarrow> u8 \<Rightarrow> 'd \<Rightarrow> 'd" where
  "mask_all io a max_r d = fold (mask_rentry io a) [0..<Suc (unat max_r)] d"

definition add_ioapic :: "'d bus \<Rightarrow> addr \<Rightarrow> ('d, 'a) apic_state_scheme \<Rightarrow> ('d, 'a) apic_state_scheme option" where
  "add_ioapic io ent s = do {
     (ioapic, s) \<leftarrow> kmalloc sizeof_IoApic s;
     let data = mem s;
     let a = ucast (load32 data (ent + 4));
     s \<leftarrow> MmMapMemory a a s;
     let (version, d) = IoApicRead io a IOAPIC_VERSION (dev s);
     let max_r = ucast (drop_bit 16 version AND 0xFF);
     let d = mask_all io a max_r d;
     let s = s\<lparr>dev := d, io_at := (io_at s)(ioapic :=
       \<lparr>io_id = load8 data (ent + 2), max_rentry = max_r, io_version = ucast (version AND 0xFF),
        gsi_base = load32 data (ent + 8), phys_addr = a, address = a\<rparr>)\<rparr>;
     Some (s\<lparr>kIoApics := LIST_ADD ioapic (kIoApics s), kNumIoApics := kNumIoApics s + 1\<rparr>) }"

partial_function (option) madt_walk ::
    "'d bus \<Rightarrow> addr \<Rightarrow> addr \<Rightarrow> ('d, 'a) apic_state_scheme \<Rightarrow> ('d, 'a) apic_state_scheme option" where
  "madt_walk io madt ent s =
     (if ent < madt + ucast (madt_length (mem s) madt)
      then do {
        s \<leftarrow> (if load8 (mem s) ent = ACPI_MADT_TYPE_IO_APIC then add_ioapic io ent s else Some s);
        madt_walk io madt (ent + ucast (load8 (mem s) (ent + 1))) s }
      else Some s)"

definition apic_discover :: "'d bus \<Rightarrow> addr \<Rightarrow> ('d, 'a) apic_state_scheme \<Rightarrow> ('d, 'a) apic_state_scheme option" where
  "apic_discover io madt s = do {
     let lapic = ucast (madt_local_apic (mem s) madt);
     s \<leftarrow> MmMapMemory lapic lapic s;
     let s = s\<lparr>kLocalApicAddress := ucast (madt_local_apic (mem s) madt)\<rparr>;
     let s = (if madt_flags (mem s) madt AND 1 \<noteq> 0
              then s\<lparr>dev := IoOut8 io 0xA1 0xFF (IoOut8 io 0x21 0xFF (dev s))\<rparr> else s);
     madt_walk io madt (madt + 44) s }"


subsection \<open>The register window\<close>

text \<open>
  What the I/O APIC documents about its two memory-mapped words at \<open>base\<close>: \<open>regs d\<close> are the
  controller's registers in the device state \<open>d\<close>; writing a register number to the first word
  selects it, and the second word then reads and writes that register and no other.
\<close>

definition ioapic_window :: "'d bus \<Rightarrow> ('d \<Rightarrow> u8 \<Rightarrow> u32) \<Rightarrow> addr \<Rightarrow> bool" where
  "ioapic_window io regs base \<longleftrightarrow> (\<forall>d i.
     fst (mmio_read32 io (base + 0x10) (mmio_write32 io base (ucast i) d)) = regs d i \<and>
     regs (snd (mmio_read32 io (base + 0x10) (mmio_write32 io base (ucast i) d))) = regs d \<and>
     (\<forall>v. regs (mmio_write32 io (base + 0x10) v (mmio_write32 io base (ucast i) d)) = (regs d)(i := v)))"

text \<open>The redirection entry held by registers \<open>k\<close> and \<open>k + 1\<close>.\<close>

definition entry64 :: "(u8 \<Rightarrow> u32) \<Rightarrow> u8 \<Rightarrow> u64" where
  "entry64 r k = push_bit 32 (ucast (r (k + 1))) OR ucast (r k)"

lemma unat_u8_bound: "unat (k :: u8) < 256"
  using unat_bound [of k] by simp

lemma next_register: "k \<noteq> 255 \<Longrightarrow> (ucast k :: u32) + 1 = ucast (k + 1 :: u8)"
proof -
  assume "k \<noteq> 255"
  then have "unat k \<noteq> 255" by (simp add: word_unat_eq_iff)
  then have "Suc (unat k) < 256" using unat_u8_bound [of k] by simp
  then have "unat (k + 1) = Suc (unat k)" by (simp add: unat_word_ariths)
  moreover have "unat (ucast k :: u32) = unat k" "unat (ucast (k + 1) :: u32) = unat (k + 1)"
    by (simp_all add: unsigned_ucast_eq take_bit_nat_eq_self unat_u8_bound [THEN less_trans])
  ultimately show ?thesis
    using unat_u8_bound [of k] by (simp add: word_unat_eq_iff unat_word_ariths)
qed

lemma word_halves: "push_bit 32 (ucast (ucast (drop_bit 32 v) :: u32)) OR ucast (ucast (v AND 0xFFFFFFFF) :: u32) = (v :: u64)"
proof -
  have m: "v AND 0xFFFFFFFF = take_bit 32 v" by (simp add: take_bit_eq_mask mask_eq_exp_minus_1)
  show ?thesis
    unfolding m
  proof (rule bit_word_eqI)
    fix n assume "n < LENGTH(64)"
    then consider "n < 32" | "32 \<le> n" "n < 64" by fastforce
    then show "bit (push_bit 32 (ucast (ucast (drop_bit 32 v) :: u32)) OR ucast (ucast (take_bit 32 v) :: u32) :: u64) n = bit v n"
      by cases (auto simp: bit_simps)
  qed
qed

lemma entry64_write: "entry64 (r(k := ucast (v AND 0xFFFFFFFF), k + 1 := ucast (drop_bit 32 v))) k = v"
  using word_halves [of v] by (simp add: entry64_def)

lemma IoApicRead64_window:
  assumes "ioapic_window io regs a" and "k \<noteq> 255" and "IoApicRead64 io a k d = (raw, d')"
  shows "raw = entry64 (regs d) k" and "regs d' = regs d"
proof -
  define d1 where "d1 = snd (mmio_read32 io (a + 0x10) (mmio_write32 io a (ucast k) d))"
  have w: "fst (mmio_read32 io (a + 0x10) (mmio_write32 io a (ucast k) d)) = regs d k" "regs d1 = regs d"
    "fst (mmio_read32 io (a + 0x10) (mmio_write32 io a (ucast (k + 1)) d1)) = regs d1 (k + 1)"
    "regs (snd (mmio_read32 io (a + 0x10) (mmio_write32 io a (ucast (k + 1)) d1))) = regs d1"
    using assms(1) by (simp_all add: ioapic_window_def d1_def)
  have "raw = push_bit 32 (ucast (regs d1 (k + 1))) OR ucast (regs d k)"
    and "d' = snd (mmio_read32 io (a + 0x10) (mmio_write32 io a (ucast (k + 1)) d1))"
    using assms(3) w(1,3) next_register [OF assms(2)]
    by (auto simp: IoApicRead64_def IOREGSEL_def IOREGWIN_def volatile_write32_def volatile_read32_def
        d1_def Let_def case_prod_beta)
  with w show "raw = entry64 (regs d) k" "regs d' = regs d" by (simp_all add: entry64_def)
qed

lemma IoApicWrite64_window:
  assumes "ioapic_window io regs a" and "k \<noteq> 255"
  shows "regs (IoApicWrite64 io a k v d) = (regs d)(k := ucast (v AND 0xFFFFFFFF), k + 1 := ucast (drop_bit 32 v))"
  using assms(1) next_register [OF assms(2)]
  by (simp add: IoApicWrite64_def IOREGSEL_def IOREGWIN_def volatile_write32_def Let_def ioapic_window_def)

lemma rentry_index_even: "rentry_index irq \<noteq> 255"
proof
  assume "rentry_index irq = 255"
  then have "even (rentry_index irq) = even (255 :: u8)" by simp
  then show False by (simp add: rentry_index_def IOAPIC_RENTRY_BASE_def)
qed

text \<open>Changing the entry of one interrupt: that entry becomes \<open>f\<close> of it and no other register moves.\<close>

lemma change_rentry_window:
  assumes "IoApicGetByIrq irq s = Some a" and "a \<noteq> 0" and "ioapic_window io regs (address (io_at s a))"
  obtains d' where "change_rentry io irq f s = Some (0, s\<lparr>dev := d'\<rparr>)"
    and "entry64 (regs d') (rentry_index irq) = f (entry64 (regs (dev s)) (rentry_index irq))"
    and "\<forall>k. k \<noteq> rentry_index irq \<and> k \<noteq> rentry_index irq + 1 \<longrightarrow> regs d' k = regs (dev s) k"
proof -
  let ?k = "rentry_index irq" and ?a = "address (io_at s a)"
  obtain raw d where rd: "IoApicRead64 io ?a ?k (dev s) = (raw, d)" by fastforce
  note r = IoApicRead64_window [OF assms(3) rentry_index_even rd]
    and w = IoApicWrite64_window [OF assms(3) rentry_index_even]
  show ?thesis
  proof (rule that)
    show "change_rentry io irq f s = Some (0, s\<lparr>dev := IoApicWrite64 io ?a ?k (f raw) d\<rparr>)"
      by (simp add: change_rentry_def assms(1,2) rd)
    show "entry64 (regs (IoApicWrite64 io ?a ?k (f raw) d)) ?k = f (entry64 (regs (dev s)) ?k)"
      unfolding w r(2) entry64_write r(1) ..
  qed (simp add: w r)
qed


subsection \<open>Properties\<close>

lemma two_bits: "(x :: u16) AND 3 = 0 \<or> x AND 3 = 1 \<or> x AND 3 = 2 \<or> x AND 3 = 3"
proof -
  have "x AND 3 = take_bit 2 x" by (simp add: take_bit_eq_mask mask_eq_exp_minus_1)
  then have "unat (x AND 3) < 4" using take_bit_nat_less_exp [of 2 "unat x"] by (simp add: unsigned_take_bit_eq)
  then have "unat (x AND 3) \<in> {0, 1, 2, 3}" by auto
  then show ?thesis by (auto simp: word_unat_eq_iff)
qed

lemmas rentry_simps = isa_rentry_def Let_def re_defs bf_simps IOAPIC_ACTIVE_LOW_def
  IOAPIC_ACTIVE_HIGH_def IOAPIC_EDGE_def IOAPIC_LEVEL_def

lemma isa_rentry_fields:
  "re_vector (isa_rentry vector flags r) = take_bit 8 (ucast vector)" "re_mask (isa_rentry vector flags r) = 1"
  "re_dest (isa_rentry vector flags r) = re_dest r" "re_dest_mode (isa_rentry vector flags r) = re_dest_mode r"
  by (simp_all add: rentry_simps)

lemma isa_rentry_polarity:
  "re_polarity (isa_rentry vector flags r) =
     (if flags AND 3 = 1 then 0 else if flags AND 3 = 2 then re_polarity r else 1)"
  using two_bits [of flags] by (elim disjE) (simp_all add: rentry_simps)

lemma isa_rentry_trigger:
  "re_trigger_mode (isa_rentry vector flags r) =
     (if drop_bit 2 flags AND 3 = 3 then 1 else if drop_bit 2 flags AND 3 = 2 then re_trigger_mode r else 0)"
  using two_bits [of "drop_bit 2 flags"] by (elim disjE) (simp_all add: rentry_simps)



text \<open>A controller with its registers behind the two words at \<open>0xFEC00000\<close>, for the instances.\<close>

definition window_bus :: "(u32 \<times> (u8 \<Rightarrow> u32)) bus" where
  "window_bus = \<lparr>in8 = (\<lambda>_ d. (0, d)), in16 = (\<lambda>_ d. (0, d)), in32 = (\<lambda>_ d. (0, d)),
     out8 = (\<lambda>_ _ d. d), out16 = (\<lambda>_ _ d. d), out32 = (\<lambda>_ _ d. d),
     mmio_read8 = (\<lambda>_ d. (0, d)),
     mmio_read32 = (\<lambda>a d. (snd d (ucast (fst d)), d)),
     mmio_write32 = (\<lambda>a v (sel, r). if a = 0xFEC00000 then (v, r) else (sel, r(ucast sel := v))),
     mmio_write64 = (\<lambda>_ _ d. d)\<rparr>"

lemma window_bus_ok: "ioapic_window window_bus snd 0xFEC00000"
proof -
  have "ucast (ucast i :: u32) = (i :: u8)" for i
    by (rule bit_word_eqI) (auto simp: bit_simps)
  then show ?thesis by (simp add: ioapic_window_def window_bus_def case_prod_beta)
qed

definition apic_example :: "(u32 \<times> (u8 \<Rightarrow> u32)) apic_state" where
  "apic_example = sched_state.extend sched_example
     \<lparr>dev = (0, \<lambda>_. 0),
      io_at = (\<lambda>_. \<lparr>io_id = 0, max_rentry = 23, io_version = 0x11, gsi_base = 0, phys_addr = 0xFEC00000, address = 0xFEC00000\<rparr>),
      kIoApics = LIST_ADD 0x400010 (LIST_HEAD_INIT, \<lambda>_. \<lparr>le_next = 0, le_prev = 0\<rparr>),
      kNumIoApics = 1, kLocalApicAddress = 0xFEE00000\<rparr>"

lemma apic_example_list: "dlist (kIoApics apic_example) [0x400010]"
  using LIST_ADD_dlist [OF dlist_init(1), of "0x400010" "\<lambda>_. \<lparr>le_next = 0, le_prev = 0\<rparr>"]
  by (simp add: apic_example_def sched_state.defs)

lemma apic_example_irq:
  "IoApicGetByIrq 4 apic_example = Some 0x400010" "IoApicGetByIrq 23 apic_example = Some 0"
  "address (io_at apic_example 0x400010) = 0xFEC00000"
  unfolding IoApicGetByIrq_def LIST_FIND_dlist [OF apic_example_list]
  by (simp_all add: apic_example_def sched_state.defs covers_irq_def)


text \<open>\<open>IoApicGetByIrq\<close> treats the version register's maximum entry number as a count: the last interrupt
  of a controller is not found, and every setter answers \<open>-1\<close> for it.\<close>

theorem IoApicGetByIrq_misses_last:
  assumes "dlist (kIoApics s) [a]" and "gsi_base (io_at s a) = 0"
  shows "IoApicGetByIrq (max_rentry (io_at s a)) s = Some 0 \<and>
    ApicSetIrqMask io (max_rentry (io_at s a)) v s = Some (-1, s)"
proof -
  have "IoApicGetByIrq (max_rentry (io_at s a)) s = Some 0"
    unfolding IoApicGetByIrq_def LIST_FIND_dlist [OF assms(1)] by (simp add: covers_irq_def assms(2))
  then show ?thesis by (simp add: ApicSetIrqMask_def change_rentry_def)
qed

theorem IoApicGetByIrq_misses_last_witness:
  "ApicSetIrqMask window_bus 23 0 apic_example = Some (-1, apic_example)"
proof -
  have "gsi_base (io_at apic_example 0x400010) = 0" and "max_rentry (io_at apic_example 0x400010) = 23"
    by (simp_all add: apic_example_def sched_state.defs)
  with IoApicGetByIrq_misses_last [OF apic_example_list, of window_bus 0] show ?thesis by simp
qed

text \<open>Whatever the list holds, an answer other than null is a controller that covers the interrupt.\<close>

lemma IoApicGetByIrq_covers:
  assumes "dlist (kIoApics s) xs" and "IoApicGetByIrq irq s = Some a" and "a \<noteq> 0"
  shows "a \<in> set xs \<and> covers_irq (io_at s a) irq"
  using assms LIST_FIND_dlist [OF assms(1), of "\<lambda>a. covers_irq (io_at s a) irq"]
  by (auto simp: IoApicGetByIrq_def find_Some_iff split: option.splits)

end
