(* ===== verification/Irq.thy ===== *)
theory Irq
  imports Apic
begin

text \<open>
  Interrupt vectors of \<open>kernel/cpu/irqhandler.c\<close>: the handler table, the two bitmaps of used
  interrupt numbers, registration, dispatch and allocation.  A handler is a function pointer;
  calling it is an argument \<open>invoke\<close> of the dispatch functions.
\<close>

subsection \<open>State\<close>

definition IRQ_NUM_VECTORS :: int where "IRQ_NUM_VECTORS = 256"
definition IRQ_NUM_ISA :: int where "IRQ_NUM_ISA = 16"
definition IRQ_VECTOR_BASE :: int where "IRQ_VECTOR_BASE = 32"

lemmas irq_consts = IRQ_NUM_VECTORS_def IRQ_NUM_ISA_def IRQ_VECTOR_BASE_def

record IrqHandlerEntry =
  ih_ignored :: u8
  ih_type :: u8
  ih_handler :: addr
  ih_data :: addr

record IrqIsaOverride =
  iso_used :: u8
  iso_dest_irq :: u8
  iso_flags :: u16

type_synonym bitmap = "nat \<Rightarrow> u8"

record 'd irq_state = "'d apic_state" +
  kIrqHandlers :: "u8 \<Rightarrow> IrqHandlerEntry"
  kIrqIsaOverrides :: "nat \<Rightarrow> IrqIsaOverride"
  kApicHighestIrq :: int
  kIrqSwBitmap :: bitmap
  kIrqHwBitmap :: bitmap
  kIpiVector :: u8

text \<open>The bitmap macros; \<open>index\<close> is a non-negative \<open>int\<close> wherever the code uses them.\<close>

definition bitmap_get :: "bitmap \<Rightarrow> int \<Rightarrow> bool" where
  "bitmap_get b index \<longleftrightarrow> b (nat (index div 8)) AND push_bit (nat (index mod 8)) 1 \<noteq> 0"

definition bitmap_set :: "int \<Rightarrow> bitmap \<Rightarrow> bitmap" where
  "bitmap_set index b = b(nat (index div 8) := b (nat (index div 8)) OR push_bit (nat (index mod 8)) 1)"

definition SW_BITMAP_GET :: "('d, 'a) irq_state_scheme \<Rightarrow> int \<Rightarrow> bool" where
  "SW_BITMAP_GET s index = bitmap_get (kIrqSwBitmap s) index"
definition SW_BITMAP_SET :: "int \<Rightarrow> ('d, 'a) irq_state_scheme \<Rightarrow> ('d, 'a) irq_state_scheme" where
  "SW_BITMAP_SET index s = s\<lparr>kIrqSwBitmap := bitmap_set index (kIrqSwBitmap s)\<rparr>"
definition HW_BITMAP_GET :: "('d, 'a) irq_state_scheme \<Rightarrow> int \<Rightarrow> bool" where
  "HW_BITMAP_GET s index = bitmap_get (kIrqHwBitmap s) index"
definition HW_BITMAP_SET :: "int \<Rightarrow> ('d, 'a) irq_state_scheme \<Rightarrow> ('d, 'a) irq_state_scheme" where
  "HW_BITMAP_SET index s = s\<lparr>kIrqHwBitmap := bitmap_set index (kIrqHwBitmap s)\<rparr>"

subsection \<open>Dispatch\<close>

definition end_of_interrupt :: "'d bus \<Rightarrow> ('d, 'a) irq_state_scheme \<Rightarrow> ('d, 'a) irq_state_scheme" where
  "end_of_interrupt io s = s\<lparr>dev := volatile_write32 io (kLocalApicAddress s + 0xB0) 0 (dev s)\<rparr>"

definition IrqHandler ::
    "'d bus \<Rightarrow> (addr \<Rightarrow> u8 \<Rightarrow> addr \<Rightarrow> ('d, 'a) irq_state_scheme \<Rightarrow> ('d, 'a) irq_state_scheme) \<Rightarrow> u8 \<Rightarrow>
     ('d, 'a) irq_state_scheme \<Rightarrow> ('d, 'a) irq_state_scheme" where
  "IrqHandler io invoke vector s =
     (let s = end_of_interrupt io s; e = kIrqHandlers s vector
      in if ih_handler e \<noteq> 0 then invoke (ih_handler e) (vector - 32) (ih_data e) s else s)"

text \<open>
  \<open>ExcHandler\<close> prints and then halts for ever; the model gives the state it halts in.  A vector
  above 30 without a handler reads past the table of names.
\<close>

definition ExcHandler ::
    "'d bus \<Rightarrow> (addr \<Rightarrow> u8 \<Rightarrow> addr \<Rightarrow> ('d, 'a) irq_state_scheme \<Rightarrow> ('d, 'a) irq_state_scheme) \<Rightarrow> u8 \<Rightarrow>
     ('d, 'a) irq_state_scheme \<Rightarrow> ('d, 'a) irq_state_scheme" where
  "ExcHandler io invoke vector s =
     (let s = end_of_interrupt io s; e = kIrqHandlers s vector
      in if ih_handler e \<noteq> 0 then invoke (ih_handler e) vector (ih_data e) s else s)"

subsection \<open>Enabling\<close>

definition set_ignored :: "u8 \<Rightarrow> u8 \<Rightarrow> ('d, 'a) irq_state_scheme \<Rightarrow> ('d, 'a) irq_state_scheme" where
  "set_ignored vector v s = s\<lparr>kIrqHandlers := (kIrqHandlers s)(vector := (kIrqHandlers s vector)\<lparr>ih_ignored := v\<rparr>)\<rparr>"

definition ApicEnableInterrupt ::
    "'d bus \<Rightarrow> u8 \<Rightarrow> ('d, 'a) irq_state_scheme \<Rightarrow> (int \<times> ('d, 'a) irq_state_scheme) option" where
  "ApicEnableInterrupt io irq s =
     (if uint irq > IRQ_NUM_VECTORS - IRQ_VECTOR_BASE then Some (-1, s)
      else do {
        let s = set_ignored (irq + 32) 0 s;
        s \<leftarrow> (if uint irq \<le> kApicHighestIrq s then map_option snd (ApicSetIrqMask io irq 0 s) else Some s);
        Some (0, s) })"

definition ApicDisableInterrupt ::
    "'d bus \<Rightarrow> u8 \<Rightarrow> ('d, 'a) irq_state_scheme \<Rightarrow> (int \<times> ('d, 'a) irq_state_scheme) option" where
  "ApicDisableInterrupt io irq s =
     (if uint irq > IRQ_NUM_VECTORS - IRQ_VECTOR_BASE then Some (-1, s)
      else do {
        let s = set_ignored (irq + 32) 1 s;
        s \<leftarrow> (if uint irq \<le> kApicHighestIrq s then map_option snd (ApicSetIrqMask io irq 1 s) else Some s);
        Some (0, s) })"

subsection \<open>Initialisation\<close>

definition route_isa :: "'d bus \<Rightarrow> int \<Rightarrow> ('d, 'a) irq_state_scheme \<Rightarrow> ('d, 'a) irq_state_scheme option" where
  "route_isa io irq s =
     (let ov = kIrqIsaOverrides s (nat irq)
      in map_option snd
           (if iso_used ov \<noteq> 0
            then ApicSetIrqIsaRouting io (of_int irq) (iso_dest_irq ov + 32) (iso_flags ov) s
            else ApicSetIrqVector io (of_int irq) (of_int irq + 32) s))"

fun route_all :: "'d bus \<Rightarrow> int list \<Rightarrow> ('d, 'a) irq_state_scheme \<Rightarrow> ('d, 'a) irq_state_scheme option" where
  "route_all io [] s = Some s"
| "route_all io (irq # irqs) s = do { s \<leftarrow> route_isa io irq s; route_all io irqs s }"

definition ApicInitializeInterrupts ::
    "'d bus \<Rightarrow> ('d, 'a) irq_state_scheme \<Rightarrow> ('d, 'a) irq_state_scheme option" where
  "ApicInitializeInterrupts io s = do {
     h \<leftarrow> ApicGetHighestIrq s;
     let s = s\<lparr>kApicHighestIrq := h\<rparr>;
     let s = fold (\<lambda>bm s. HW_BITMAP_SET bm (SW_BITMAP_SET bm s))
               [IRQ_NUM_VECTORS - IRQ_VECTOR_BASE..IRQ_NUM_VECTORS - 1] s;
     let s = fold HW_BITMAP_SET [0..IRQ_NUM_ISA - 1] s;
     let s = fold HW_BITMAP_SET [kApicHighestIrq s + 1..IRQ_NUM_VECTORS - IRQ_VECTOR_BASE] s;
     s \<leftarrow> route_all io [0..IRQ_NUM_ISA - 1] s;
     let s = s\<lparr>kIpiVector := of_int (IRQ_NUM_VECTORS - 1)\<rparr>;
     let s = SW_BITMAP_SET (uint (kIpiVector s) - IRQ_VECTOR_BASE) s;
     map_option snd (ApicEnableInterrupt io (kIpiVector s) s) }"

text \<open>\<open>ApicInitialize\<close> of \<open>apic.c\<close>: the controllers of the table, then the interrupts.\<close>

definition ApicInitialize :: "'d bus \<Rightarrow> addr \<Rightarrow> ('d, 'a) irq_state_scheme \<Rightarrow> ('d, 'a) irq_state_scheme option" where
  "ApicInitialize io madt s = do { s \<leftarrow> apic_discover io madt s; ApicInitializeInterrupts io s }"

subsection \<open>Registration and allocation\<close>

definition ApicIrqMapToVector ::
    "'d bus \<Rightarrow> u8 \<Rightarrow> ('d, 'a) irq_state_scheme \<Rightarrow> (u8 \<times> ('d, 'a) irq_state_scheme) option" where
  "ApicIrqMapToVector io irq s =
     (if uint irq \<le> kApicHighestIrq s
      then let ov = kIrqIsaOverrides s (unat irq)
           in if uint irq < IRQ_NUM_ISA \<and> iso_used ov \<noteq> 0
              then do {
                let vector = iso_dest_irq ov + 32;
                s \<leftarrow> map_option snd (ApicSetIrqIsaRouting io irq vector (iso_flags ov) s);
                Some (vector, s) }
              else do {
                s \<leftarrow> map_option snd (ApicSetIrqVector io irq (irq + 32) s);
                Some (irq + 32, s) }
      else Some (irq + 32, s))"

function alloc_scan :: "bitmap \<Rightarrow> int \<Rightarrow> int option" where
  "alloc_scan b bm =
     (if bm < IRQ_NUM_VECTORS then if \<not> bitmap_get b bm then Some bm else alloc_scan b (bm + 1) else None)"
  by pat_completeness auto
termination
  by (relation "measure (\<lambda>(b, bm). nat (IRQ_NUM_VECTORS - bm))") auto

declare alloc_scan.simps [simp del]

definition ApicAllocateSoftwareIrq :: "('d, 'a) irq_state_scheme \<Rightarrow> int \<times> ('d, 'a) irq_state_scheme" where
  "ApicAllocateSoftwareIrq s = (case alloc_scan (kIrqSwBitmap s) 0 of
     Some bm \<Rightarrow> (bm + kApicHighestIrq s + 1, SW_BITMAP_SET bm s)
   | None \<Rightarrow> (-1, s))"

definition ApicRegisterIrqHandler ::
    "'d bus \<Rightarrow> u8 \<Rightarrow> addr \<Rightarrow> addr \<Rightarrow> ('d, 'a) irq_state_scheme \<Rightarrow> ('d, 'a) irq_state_scheme option" where
  "ApicRegisterIrqHandler io irq handler data s = do {
     (vector, s) \<leftarrow> ApicIrqMapToVector io irq s;
     Some (s\<lparr>kIrqHandlers := (kIrqHandlers s)(vector :=
       \<lparr>ih_ignored = 1, ih_type = 1, ih_handler = handler, ih_data = data\<rparr>)\<rparr>) }"

subsection \<open>Bitmaps\<close>

lemma and_bit_u8: "n < 8 \<Longrightarrow> (b :: u8) AND push_bit n 1 \<noteq> 0 \<longleftrightarrow> bit b n"
proof -
  assume "n < 8"
  then have "b AND push_bit n 1 = (if bit b n then push_bit n 1 else 0)"
    by (intro bit_word_eqI) (auto simp: bit_simps)
  moreover have "push_bit n (1 :: u8) \<noteq> 0" using \<open>n < 8\<close> by (simp add: not_le)
  ultimately show ?thesis by simp
qed

lemma bitmap_get_bit: "bitmap_get b i \<longleftrightarrow> bit (b (nat (i div 8))) (nat (i mod 8))"
  unfolding bitmap_get_def by (rule and_bit_u8) (simp add: nat_less_iff)

lemma bitmap_get_set:
  assumes "0 \<le> i" and "0 \<le> j"
  shows "bitmap_get (bitmap_set i b) j \<longleftrightarrow> j = i \<or> bitmap_get b j"
proof -
  have eq: "nat (i div 8) = nat (j div 8) \<and> nat (i mod 8) = nat (j mod 8) \<longleftrightarrow> i = j"
  proof
    assume "nat (i div 8) = nat (j div 8) \<and> nat (i mod 8) = nat (j mod 8)"
    then have "i div 8 = j div 8" and "i mod 8 = j mod 8"
      using assms by (simp_all add: pos_imp_zdiv_nonneg_iff eq_nat_nat_iff)
    then show "i = j" by (metis div_mult_mod_eq)
  qed simp
  have "nat (i mod 8) < 8" by (simp add: nat_less_iff)
  then show ?thesis
    using eq by (auto simp: bitmap_get_bit bitmap_set_def bit_simps)
qed

lemma alloc_scan_Some:
  "alloc_scan b i = Some bm \<Longrightarrow> i \<le> bm \<and> bm < 256 \<and> \<not> bitmap_get b bm \<and> (\<forall>j. i \<le> j \<and> j < bm \<longrightarrow> bitmap_get b j)"
proof (induction b i rule: alloc_scan.induct)
  case (1 b i)
  show ?case
  proof (cases "i < 256 \<and> bitmap_get b i")
    case True
    with 1 have "i + 1 \<le> bm \<and> bm < 256 \<and> \<not> bitmap_get b bm \<and> (\<forall>j. i + 1 \<le> j \<and> j < bm \<longrightarrow> bitmap_get b j)"
      by (simp add: alloc_scan.simps [of b i] irq_consts)
    moreover have "i \<le> j \<Longrightarrow> j = i \<or> i + 1 \<le> j" for j by auto
    ultimately show ?thesis using True by (metis zless_add1_eq order.strict_implies_order add1_zle_eq)
  next
    case False
    with 1 show ?thesis by (auto simp: alloc_scan.simps [of b i] irq_consts split: if_splits)
  qed
qed

lemma alloc_scan_None: "alloc_scan b i = None \<Longrightarrow> i \<le> j \<Longrightarrow> j < 256 \<Longrightarrow> bitmap_get b j"
proof (induction b i rule: alloc_scan.induct)
  case (1 b i)
  note step = alloc_scan.simps [of b i] and prems = "1.prems"
  have "i < 256" using prems by simp
  then have g: "bitmap_get b i" and "alloc_scan b (i + 1) = None"
    using prems(1) step by (simp_all add: irq_consts split: if_splits)
  then show ?case
    using "1.IH" \<open>i < 256\<close> prems by (cases "i = j") (simp_all add: irq_consts)
qed


subsection \<open>What initialisation and the setters keep\<close>

lemma change_rentry_keeps:
  "change_rentry io irq f s = Some (r, s') \<Longrightarrow> \<exists>d. s' = s\<lparr>dev := d\<rparr>"
proof -
  assume run: "change_rentry io irq f s = Some (r, s')"
  obtain a where a: "IoApicGetByIrq irq s = Some a"
    using run by (cases "IoApicGetByIrq irq s") (simp_all add: change_rentry_def)
  show ?thesis
  proof (cases "a = 0")
    case True
    with run a have "s' = s" by (simp add: change_rentry_def)
    then show ?thesis by (intro exI [of _ "dev s"]) simp
  next
    case False
    with run a show ?thesis by (auto simp: change_rentry_def Let_def split: prod.splits)
  qed
qed

lemmas setter_defs = ApicSetIrqIsaRouting_def ApicSetIrqVector_def ApicSetIrqMask_def ApicSetIrqDest_def

lemma ApicIrqMapToVector_result:
  assumes "ApicIrqMapToVector io irq s = Some (v, s')"
  shows "v = (if uint irq \<le> kApicHighestIrq s \<and> uint irq < 16 \<and> iso_used (kIrqIsaOverrides s (unat irq)) \<noteq> 0
      then iso_dest_irq (kIrqIsaOverrides s (unat irq)) else irq) + 32" and "\<exists>d. s' = s\<lparr>dev := d\<rparr>"
proof -
  have same: "\<exists>d. s = s\<lparr>dev := d\<rparr>" by (rule exI [of _ "dev s"]) simp
  show "v = (if uint irq \<le> kApicHighestIrq s \<and> uint irq < 16 \<and> iso_used (kIrqIsaOverrides s (unat irq)) \<noteq> 0
      then iso_dest_irq (kIrqIsaOverrides s (unat irq)) else irq) + 32"
    using assms by (auto simp: ApicIrqMapToVector_def Let_def bind_eq_Some_conv irq_consts split: if_splits)
  show "\<exists>d. s' = s\<lparr>dev := d\<rparr>"
    using assms same change_rentry_keeps
    by (fastforce simp: ApicIrqMapToVector_def Let_def bind_eq_Some_conv setter_defs split: if_splits)
qed

subsection \<open>Properties\<close>

text \<open>C14: a registered handler is the one the dispatcher calls for the vector the interrupt was mapped to, with
  the interrupt number (after a legacy override) and its data, after acknowledging the interrupt;
  every other vector keeps its handler.\<close>

theorem ApicRegisterIrqHandler_dispatch:
  assumes "ApicRegisterIrqHandler io irq h data s = Some s'" and "h \<noteq> 0"
    and "n = (if uint irq \<le> kApicHighestIrq s \<and> uint irq < 16 \<and> iso_used (kIrqIsaOverrides s (unat irq)) \<noteq> 0
              then iso_dest_irq (kIrqIsaOverrides s (unat irq)) else irq)"
  shows "IrqHandler io invoke (n + 32) s' = invoke h n data (end_of_interrupt io s') \<and>
    (\<forall>v. v \<noteq> n + 32 \<longrightarrow> kIrqHandlers s' v = kIrqHandlers s v)"
proof -
  obtain v s1 where m: "ApicIrqMapToVector io irq s = Some (v, s1)"
    and s': "s' = s1\<lparr>kIrqHandlers := (kIrqHandlers s1)(v :=
       \<lparr>ih_ignored = 1, ih_type = 1, ih_handler = h, ih_data = data\<rparr>)\<rparr>"
    using assms(1) by (auto simp: ApicRegisterIrqHandler_def bind_eq_Some_conv)
  obtain d where d: "s1 = s\<lparr>dev := d\<rparr>" using ApicIrqMapToVector_result(2) [OF m] by blast
  have v: "v = n + 32" using ApicIrqMapToVector_result(1) [OF m] assms(3) by simp
  show ?thesis
    using assms(2) by (simp add: IrqHandler_def end_of_interrupt_def s' v d Let_def)
qed

definition irq_example :: "(u32 \<times> (u8 \<Rightarrow> u32)) irq_state" where
  "irq_example = apic_state.extend apic_example
     \<lparr>kIrqHandlers = (\<lambda>_. \<lparr>ih_ignored = 0, ih_type = 0, ih_handler = 0, ih_data = 0\<rparr>),
      kIrqIsaOverrides = (\<lambda>_. \<lparr>iso_used = 0, iso_dest_irq = 0, iso_flags = 0\<rparr>),
      kApicHighestIrq = 23, kIrqSwBitmap = (\<lambda>_. 0), kIrqHwBitmap = (\<lambda>_. 0), kIpiVector = 255\<rparr>"

theorem ApicRegisterIrqHandler_dispatch_witness:
  "\<exists>s'. ApicRegisterIrqHandler window_bus 200 0x7000 0x8000 irq_example = Some s' \<and>
     IrqHandler window_bus (\<lambda>h n d s. s\<lparr>kIpiVector := n\<rparr>) 232 s' =
       (end_of_interrupt window_bus s')\<lparr>kIpiVector := 200\<rparr>"
proof -
  obtain s' where s': "ApicRegisterIrqHandler window_bus 200 0x7000 0x8000 irq_example = Some s'"
    by (simp add: ApicRegisterIrqHandler_def ApicIrqMapToVector_def irq_example_def apic_state.defs)
  have "(200 :: u8) = (if uint (200 :: u8) \<le> kApicHighestIrq irq_example \<and> uint (200 :: u8) < 16 \<and>
      iso_used (kIrqIsaOverrides irq_example (unat (200 :: u8))) \<noteq> 0
    then iso_dest_irq (kIrqIsaOverrides irq_example (unat (200 :: u8))) else 200)"
    by (simp add: irq_example_def apic_state.defs)
  from ApicRegisterIrqHandler_dispatch [OF s' _ this, of "\<lambda>h n d s. s\<lparr>kIpiVector := n\<rparr>"] s' show ?thesis by simp
qed

text \<open>\<open>ApicAllocateSoftwareIrq\<close> marks the lowest clear bit of the software bitmap and returns its number
  past the highest hardware interrupt, or \<open>-1\<close> when all 256 bits are set; a second call returns a
  different number.\<close>

theorem ApicAllocateSoftwareIrq_fresh:
  "case ApicAllocateSoftwareIrq s of (r, s') \<Rightarrow>
     (r = -1 \<and> s' = s \<and> (\<forall>i. 0 \<le> i \<and> i < 256 \<longrightarrow> SW_BITMAP_GET s i)) \<or>
     (\<exists>bm. 0 \<le> bm \<and> bm < 256 \<and> r = bm + kApicHighestIrq s + 1 \<and> \<not> SW_BITMAP_GET s bm \<and>
        (\<forall>i\<ge>0. SW_BITMAP_GET s' i \<longleftrightarrow> i = bm \<or> SW_BITMAP_GET s i) \<and> (\<forall>i. 0 \<le> i \<and> i < bm \<longrightarrow> SW_BITMAP_GET s i))"
proof (cases "alloc_scan (kIrqSwBitmap s) 0")
  case None
  then show ?thesis
    using alloc_scan_None [OF None] by (simp add: ApicAllocateSoftwareIrq_def SW_BITMAP_GET_def)
next
  case (Some bm)
  note a = alloc_scan_Some [OF Some]
  then have "\<forall>i\<ge>0. bitmap_get (bitmap_set bm (kIrqSwBitmap s)) i \<longleftrightarrow> i = bm \<or> bitmap_get (kIrqSwBitmap s) i"
    using bitmap_get_set by blast
  with a Some show ?thesis
    by (intro case_prodI2 disjI2 exI [of _ bm])
       (auto simp: ApicAllocateSoftwareIrq_def SW_BITMAP_GET_def SW_BITMAP_SET_def)
qed

theorem ApicAllocateSoftwareIrq_fresh_witness:
  "fst (ApicAllocateSoftwareIrq irq_example) \<noteq> fst (ApicAllocateSoftwareIrq (snd (ApicAllocateSoftwareIrq irq_example)))"
proof -
  let ?s = "snd (ApicAllocateSoftwareIrq irq_example)"
  have h: "kApicHighestIrq irq_example = 23" "\<not> SW_BITMAP_GET irq_example i" for i
    by (simp_all add: irq_example_def apic_state.defs SW_BITMAP_GET_def bitmap_get_def)
  obtain r s' where 1: "ApicAllocateSoftwareIrq irq_example = (r, s')" by fastforce
  then have k: "kApicHighestIrq s' = 23"
    using h(1) by (auto simp: ApicAllocateSoftwareIrq_def SW_BITMAP_SET_def split: option.splits)
  obtain q s'' where 2: "ApicAllocateSoftwareIrq s' = (q, s'')" by fastforce
  show ?thesis
    using ApicAllocateSoftwareIrq_fresh [of irq_example] ApicAllocateSoftwareIrq_fresh [of s'] h k
    by (auto simp: 1 2)
qed

text \<open>the range check of \<open>ApicEnableInterrupt\<close> lets one number too many through and is applied to the
  inter-processor vector: number 224 changes the entry of vector 0, and the call for vector 255 at
  the end of \<open>ApicInitializeInterrupts\<close> is refused.\<close>

theorem ApicEnableInterrupt_bounds:
  assumes "kApicHighestIrq s < 224"
  shows "ApicEnableInterrupt io 224 s = Some (0, set_ignored 0 0 s) \<and> ApicEnableInterrupt io 255 s = Some (-1, s) \<and>
    (uint (irq :: u8) < 224 \<longrightarrow> unat (irq + 32) = unat irq + 32)"
proof -
  have "unat (irq + 32) = unat irq + 32" if "uint irq < 224"
  proof -
    have "int (unat irq) < 224" using that by simp
    then have "unat irq < 224" by linarith
    then show ?thesis by (simp add: unat_word_ariths)
  qed
  moreover have z: "(256 :: u8) = 0" using word_exp_length_eq_0 [where 'a = 8] by simp
  ultimately show ?thesis
    using assms by (simp add: ApicEnableInterrupt_def irq_consts Let_def set_ignored_def z)
qed

theorem ApicEnableInterrupt_bounds_witness:
  "ApicEnableInterrupt window_bus 255 irq_example = Some (-1, irq_example)"
proof -
  have "kApicHighestIrq irq_example < 224" by (simp add: irq_example_def apic_state.defs)
  from ApicEnableInterrupt_bounds [OF this, of window_bus 0] show ?thesis by simp
qed

end
