(* ===== verification/Pci.thy ===== *)
theory Pci
  imports Irq
begin

text \<open>
  \<open>dev/pci.c\<close>, \<open>dev/pci.h\<close> and \<open>dev/gpu/cherrytrail.c\<close>: access to configuration space through the two
  ports \<open>0xCF8\<close> and \<open>0xCFC\<close>, the enumeration of all functions of the buses the MCFG table names, the
  loading of drivers and the CherryTrail graphics driver.  A driver is a record of its name and its
  two entry points; the drivers that can be loaded are an argument of the enumeration.
\<close>

subsection \<open>Devices\<close>

definition PCI_CONFIG_ADDRESS :: u16 where "PCI_CONFIG_ADDRESS = 0xCF8"
definition PCI_CONFIG_DATA :: u16 where "PCI_CONFIG_DATA = 0xCFC"
definition kPciBarIo :: u64 where "kPciBarIo = 0x01"
definition kPciBar64 :: u64 where "kPciBar64 = 0x04"
definition kPciBarTypeMemory :: u8 where "kPciBarTypeMemory = 0"
definition kPciBarTypeIo :: u8 where "kPciBarTypeIo = 1"

record PciBar =
  bar_base :: u64
  bar_size :: u64
  bar_flags :: u8
  bar_type :: u8

record PciDevice =
  pci_bus :: u8
  pci_device :: u8
  pci_function :: u8
  vendor_id :: u16
  device_id :: u16
  class_code :: u8
  subclass_code :: u8
  interface_code :: u8
  bars :: "PciBar list"

definition pci_device_at :: "u8 \<Rightarrow> u8 \<Rightarrow> u8 \<Rightarrow> PciDevice" where
  "pci_device_at b dv f = \<lparr>pci_bus = b, pci_device = dv, pci_function = f, vendor_id = 0, device_id = 0,
     class_code = 0, subclass_code = 0, interface_code = 0,
     bars = replicate 6 \<lparr>bar_base = 0, bar_size = 0, bar_flags = 0, bar_type = 0\<rparr>\<rparr>"

subsection \<open>Configuration space\<close>

definition pci_address :: "PciDevice \<Rightarrow> u8 \<Rightarrow> u32" where
  "pci_address dv offset = push_bit 31 1 OR push_bit 16 (ucast (pci_bus dv)) OR push_bit 11 (ucast (pci_device dv))
     OR push_bit 8 (ucast (pci_function dv)) OR ucast (offset AND 0xFC)"

definition PciRead8 :: "'d bus \<Rightarrow> PciDevice \<Rightarrow> u8 \<Rightarrow> 'd \<Rightarrow> u8 \<times> 'd" where
  "PciRead8 io dv offset d =
     IoIn8 io (PCI_CONFIG_DATA + ucast (offset AND 3)) (IoOut32 io PCI_CONFIG_ADDRESS (pci_address dv offset) d)"

definition PciRead16 :: "'d bus \<Rightarrow> PciDevice \<Rightarrow> u8 \<Rightarrow> 'd \<Rightarrow> u16 \<times> 'd" where
  "PciRead16 io dv offset d =
     (let d = IoOut32 io PCI_CONFIG_ADDRESS (pci_address dv offset) d;
          (v, d) = IoIn32 io PCI_CONFIG_DATA d
      in (ucast (drop_bit (unat (offset AND 2) * 8) v AND 0xFFFF), d))"

definition PciRead32 :: "'d bus \<Rightarrow> PciDevice \<Rightarrow> u8 \<Rightarrow> 'd \<Rightarrow> u32 \<times> 'd" where
  "PciRead32 io dv offset d =
     (let (low, d) = PciRead16 io dv offset d;
          (high, d) = PciRead16 io dv (offset + 2) d
      in (push_bit 16 (ucast high) OR ucast low, d))"

definition PciWrite8 :: "'d bus \<Rightarrow> PciDevice \<Rightarrow> u8 \<Rightarrow> u8 \<Rightarrow> 'd \<Rightarrow> 'd" where
  "PciWrite8 io dv offset v d =
     IoOut8 io (PCI_CONFIG_DATA + ucast (offset AND 3)) v (IoOut32 io PCI_CONFIG_ADDRESS (pci_address dv offset) d)"

definition PciWrite16 :: "'d bus \<Rightarrow> PciDevice \<Rightarrow> u8 \<Rightarrow> u16 \<Rightarrow> 'd \<Rightarrow> 'd" where
  "PciWrite16 io dv offset v d =
     IoOut16 io (PCI_CONFIG_DATA + ucast (offset AND 2)) v (IoOut32 io PCI_CONFIG_ADDRESS (pci_address dv offset) d)"

definition PciWrite32 :: "'d bus \<Rightarrow> PciDevice \<Rightarrow> u8 \<Rightarrow> u32 \<Rightarrow> 'd \<Rightarrow> 'd" where
  "PciWrite32 io dv offset v d =
     PciWrite16 io dv (offset + 2) (ucast (drop_bit 16 v) AND 0xFFFF) (PciWrite16 io dv offset (ucast (v AND 0xFFFF)) d)"

subsection \<open>Names\<close>

definition PciDeviceClasses :: "string list" where
  "PciDeviceClasses = [
     ''Unclassified'', ''Mass Storage Controller'', ''Network Controller'', ''Display Controller'',
     ''Multimedia Controller'', ''Memory Controller'', ''Bridge Device'', ''Simple Communication Controller'',
     ''Base System Peripheral'', ''Input Device Controller'', ''Docking Station'', ''Processor'',
     ''Serial Bus Controller'', ''Wireless Controller'', ''Intelligent Controller'',
     ''Satellite Communication Controller'', ''Encryption Controller'', ''Signal Processing Controller'',
     ''Processing Accelerator'', ''Non Essential Instrumentation'']"

definition PciGetVendorName :: "u16 \<Rightarrow> string" where
  "PciGetVendorName v = (
     if v = 0x1234 then ''Bochs'' else if v = 0x8086 then ''Intel'' else if v = 0x1022 then ''AMD''
     else if v = 0x10de then ''NVIDIA'' else if v = 0x1af4 then ''Virtio'' else if v = 0x1b36 then ''QEMU''
     else if v = 0x1b4b then ''Red Hat'' else if v = 0x1b73 then ''VMWare'' else ''Unknown'')"

definition device_names :: "((u16 \<times> u16) \<times> string) list" where
  "device_names = [
     ((0x8086, 0x29C0), ''Xeon E3-1200 v2/3rd Gen Core processor DRAM Controller''),
     ((0x8086, 0x10D3), ''7 Series/C210 Series Chipset Family 6-port SATA AHCI Controller''),
     ((0x8086, 0x2918), ''82801IB (ICH9) LPC Interface Controller''),
     ((0x8086, 0x2922), ''ICH9 SATA AHCI Controller driver''),
     ((0x8086, 0x2930), ''82801I (ICH9 Family) SMBus Controller''),
     ((0x8086, 0x24CD), ''82801DB/DBM (ICH4/ICH4-M) USB2 EHCI Controller''),
     ((0x8086, 0x2280), ''Atom SoC Transaction Register''),
     ((0x8086, 0x22B0), ''Atom Integrated Graphics Controller''),
     ((0x8086, 0x22B8), ''Atom Imaging Unit''),
     ((0x8086, 0x22D8), ''Atom Integrated Sensor Hub''),
     ((0x8086, 0x22DC), ''Atom Power Management Controller''),
     ((0x8086, 0x22B5), ''Atom USB xHCI Controller''),
     ((0x8086, 0x2298), ''Atom Trusted Execution Engine''),
     ((0x8086, 0x22C8), ''Atom PCI Express Port #1''),
     ((0x8086, 0x229C), ''Atom Package Control Unit''),
     ((0x1234, 0x1111), ''Graphics Adapter''),
     ((0x1b36, 0x000D), ''XHCI Host Controller''),
     ((0x1af4, 0x1000), ''Network Adapter''),
     ((0x1af4, 0x1001), ''Block Device''),
     ((0x1af4, 0x1002), ''Console''),
     ((0x1af4, 0x1041), ''RNG''),
     ((0x1af4, 0x1050), ''GPU'')]"

definition PciGetDeviceName :: "u16 \<Rightarrow> u16 \<Rightarrow> string" where
  "PciGetDeviceName v dv = (case map_of device_names (v, dv) of Some n \<Rightarrow> n | None \<Rightarrow> ''Unknown'')"

subsection \<open>Enumeration\<close>

text \<open>
  \<open>PciDriver\<close>: the copy in the table of loaded drivers keeps the name, the device and the data
  pointer; the entry points are those of the driver's row.  \<open>initialize\<close> gets the slot of that copy.
\<close>

record PciDriver =
  drv_name :: string
  drv_device :: PciDevice
  drv_data :: addr

record 's driver_ops =
  ops_name :: string
  try_probe :: "PciDevice \<Rightarrow> bool"
  initialize :: "nat \<Rightarrow> 's \<Rightarrow> 's option"

text \<open>\<open>pci_report\<close> collects the lines the enumeration prints.\<close>

type_synonym report_line = "u8 \<times> u8 \<times> u8 \<times> string \<times> string \<times> string"

record 'd pci_state = "'d irq_state" +
  kLoadedPciDrivers :: "nat \<Rightarrow> PciDriver"
  kLoadedPciDriverCount :: u8
  pci_report :: "report_line list"

text \<open>
  \<open>kLoadedPciDrivers[kLoadedPciDriverCount++]\<close>: the counter has 8 bits, and with 256 drivers the slot
  pointer computed from the wrapped counter lies below the table (no result).
\<close>

definition load_driver ::
    "('d, 'a) pci_state_scheme driver_ops \<Rightarrow> PciDevice \<Rightarrow> ('d, 'a) pci_state_scheme \<Rightarrow> ('d, 'a) pci_state_scheme option" where
  "load_driver drv dv s =
     (let n = kLoadedPciDriverCount s;
          s = s\<lparr>kLoadedPciDrivers := (kLoadedPciDrivers s)(unat n := \<lparr>drv_name = ops_name drv, drv_device = dv, drv_data = 0\<rparr>),
                kLoadedPciDriverCount := n + 1\<rparr>
      in if n = 255 then None else initialize drv (unat n) s)"

fun probe_drivers ::
    "('d, 'a) pci_state_scheme driver_ops list \<Rightarrow> PciDevice \<Rightarrow> ('d, 'a) pci_state_scheme \<Rightarrow> ('d, 'a) pci_state_scheme option" where
  "probe_drivers [] dv s = Some s"
| "probe_drivers (drv # drvs) dv s = (if \<not> try_probe drv dv then probe_drivers drvs dv s else load_driver drv dv s)"

text \<open>The body of the innermost loop; a class code past the table of class names is read outside it (no result).\<close>

definition pci_identify :: "PciDevice \<Rightarrow> u16 \<Rightarrow> u16 \<Rightarrow> u16 \<Rightarrow> PciDevice" where
  "pci_identify dv vendor devid cls =
     dv\<lparr>vendor_id := vendor, device_id := devid, class_code := ucast (drop_bit 8 cls),
        subclass_code := ucast (drop_bit 4 cls AND 0xF), interface_code := ucast (cls AND 0xF)\<rparr>"

definition report_of :: "PciDevice \<Rightarrow> report_line option" where
  "report_of dv = (if unat (class_code dv) < length PciDeviceClasses
     then Some (pci_bus dv, pci_device dv, pci_function dv, PciGetVendorName (vendor_id dv),
                PciGetDeviceName (vendor_id dv) (device_id dv), PciDeviceClasses ! unat (class_code dv))
     else None)"

definition scan_function ::
    "'d bus \<Rightarrow> ('d, 'a) pci_state_scheme driver_ops list \<Rightarrow> u16 \<Rightarrow> nat \<times> nat \<Rightarrow> ('d, 'a) pci_state_scheme
      \<Rightarrow> ('d, 'a) pci_state_scheme option" where
  "scan_function io drivers b = (\<lambda>(dv, f) s.
     (let dev0 = pci_device_at (ucast b) (of_nat dv) (of_nat f);
          (vendor, d) = PciRead16 io dev0 0 (dev s)
      in if vendor = 0xFFFF then Some (s\<lparr>dev := d\<rparr>)
         else (let (devid, d) = PciRead16 io dev0 2 d;
                   (cls, d) = PciRead16 io dev0 10 d;
                   pdev = pci_identify dev0 vendor devid cls
               in do {
                 line \<leftarrow> report_of pdev;
                 probe_drivers drivers pdev (s\<lparr>dev := d, pci_report := pci_report s @ [line]\<rparr>) })))"

fun scan_functions ::
    "'d bus \<Rightarrow> ('d, 'a) pci_state_scheme driver_ops list \<Rightarrow> u16 \<Rightarrow> (nat \<times> nat) list \<Rightarrow> ('d, 'a) pci_state_scheme
      \<Rightarrow> ('d, 'a) pci_state_scheme option" where
  "scan_functions io drivers b [] s = Some s"
| "scan_functions io drivers b (x # xs) s = do { s \<leftarrow> scan_function io drivers b x s; scan_functions io drivers b xs s }"

definition bus_functions :: "(nat \<times> nat) list" where
  "bus_functions = List.product [0..<32] [0..<8]"

partial_function (option) scan_buses ::
    "'d bus \<Rightarrow> ('d, 'a) pci_state_scheme driver_ops list \<Rightarrow> addr \<Rightarrow> u16 \<Rightarrow> ('d, 'a) pci_state_scheme
      \<Rightarrow> ('d, 'a) pci_state_scheme option" where
  "scan_buses io drivers mcfg b s =
     (if b \<le> ucast (load8 (mem s) (mcfg + 55))
      then do { s \<leftarrow> scan_functions io drivers b bus_functions s; scan_buses io drivers mcfg (b + 1) s }
      else Some s)"

definition PciInitialize ::
    "'d bus \<Rightarrow> ('d, 'a) pci_state_scheme driver_ops list \<Rightarrow> addr \<Rightarrow> ('d, 'a) pci_state_scheme
      \<Rightarrow> ('d, 'a) pci_state_scheme option" where
  "PciInitialize io drivers mcfg s = scan_buses io drivers mcfg (ucast (load8 (mem s) (mcfg + 54))) s"

subsection \<open>Base addresses and the command register\<close>

text \<open>
  \<open>PciReadBar\<close> fills \<open>*out\<close>.  The upper half of a 64-bit base is computed by shifting a 32-bit value by
  32, which C leaves undefined (no result); a 32-bit memory base leaves \<open>*out\<close> as it was.
\<close>

definition PciReadBar :: "'d bus \<Rightarrow> PciDevice \<Rightarrow> u8 \<Rightarrow> PciBar \<Rightarrow> 'd \<Rightarrow> (PciBar \<times> 'd) option" where
  "PciReadBar io dv bar out d =
     (let (v, d) = PciRead32 io dv (0x10 + bar * 4) d; base = ucast v :: u64
      in if base AND kPciBar64 \<noteq> 0 then None
         else if base AND kPciBarIo \<noteq> 0
         then Some (out\<lparr>bar_base := base AND NOT 3, bar_type := kPciBarTypeIo, bar_size := 0\<rparr>, d)
         else Some (out, d))"

definition PciMaybeEnableBusMastering :: "'d bus \<Rightarrow> PciDevice \<Rightarrow> 'd \<Rightarrow> 'd" where
  "PciMaybeEnableBusMastering io dv d =
     (let (command, d) = PciRead16 io dv 4 d
      in if command AND push_bit 2 1 \<noteq> 0 then d else PciWrite16 io dv 4 (command OR push_bit 2 1) d)"

definition PciMaybeEnableMemoryAccess :: "'d bus \<Rightarrow> PciDevice \<Rightarrow> 'd \<Rightarrow> 'd" where
  "PciMaybeEnableMemoryAccess io dv d =
     (let (command, d) = PciRead16 io dv 4 d
      in if command AND push_bit 1 1 \<noteq> 0 then d else PciWrite16 io dv 4 (command OR push_bit 1 1) d)"

text \<open>The base address of a driver's register window, as both drivers read it.\<close>

definition read_window :: "'d bus \<Rightarrow> PciDevice \<Rightarrow> u8 \<Rightarrow> 'd \<Rightarrow> u64 \<times> 'd" where
  "read_window io dv offset d =
     (let (low, d) = PciRead32 io dv offset d
      in if ucast low AND kPciBar64 \<noteq> 0
         then let (high, d) = PciRead32 io dv (offset + 4) d
              in ((ucast low OR push_bit 32 (ucast high)) AND NOT 0xF, d)
         else (ucast low AND NOT 0xF, d))"

subsection \<open>The CherryTrail driver\<close>

definition CherryTrailTryProbe :: "PciDevice \<Rightarrow> bool" where
  "CherryTrailTryProbe dv \<longleftrightarrow> vendor_id dv = 0x8086 \<and> device_id dv = 0x22B0"

definition CherryTrailInitialize ::
    "'d bus \<Rightarrow> nat \<Rightarrow> ('d, 'a) pci_state_scheme \<Rightarrow> ('d, 'a) pci_state_scheme option" where
  "CherryTrailInitialize io row s =
     (let pdev = drv_device (kLoadedPciDrivers s row);
          (gttmmaddr, d) = read_window io pdev 0x10 (dev s);
          (gmadr, d) = read_window io pdev 0x18 d;
          (iobase, d) = PciRead32 io pdev 0x20 d
      in do {
        s \<leftarrow> MmMapMemory gttmmaddr gttmmaddr (s\<lparr>dev := d\<rparr>);
        MmMapMemory gmadr gmadr s })"

definition kCherryTrailDriver :: "'d bus \<Rightarrow> ('d, 'a) pci_state_scheme driver_ops" where
  "kCherryTrailDriver io = \<lparr>ops_name = ''CherryTrail GPU'', try_probe = CherryTrailTryProbe,
     initialize = CherryTrailInitialize io\<rparr>"

subsection \<open>The configuration mechanism\<close>

text \<open>
  What the PCI specification documents about the two ports: \<open>cfg d\<close> is the configuration space in
  device state \<open>d\<close>, by the 32-bit words the address port selects.  Reading the data port returns the
  selected word and changes no word.
\<close>

definition config_reads :: "'d bus \<Rightarrow> ('d \<Rightarrow> u32 \<Rightarrow> u32) \<Rightarrow> bool" where
  "config_reads io cfg \<longleftrightarrow> (\<forall>d a.
     fst (in32 io 0xCFC (out32 io 0xCF8 a d)) = cfg d a \<and>
     cfg (snd (in32 io 0xCFC (out32 io 0xCF8 a d))) = cfg d)"

text \<open>The selected word is an ordinary read/write register of which 16 bits are written at a time.\<close>

definition config_writes :: "'d bus \<Rightarrow> ('d \<Rightarrow> u32 \<Rightarrow> u32) \<Rightarrow> u32 \<Rightarrow> bool" where
  "config_writes io cfg a \<longleftrightarrow> (\<forall>d v.
     cfg (out16 io 0xCFC v (out32 io 0xCF8 a d)) = (cfg d)(a := push_bit 16 (drop_bit 16 (cfg d a)) OR ucast v) \<and>
     cfg (out16 io 0xCFE v (out32 io 0xCF8 a d)) = (cfg d)(a := push_bit 16 (ucast v) OR take_bit 16 (cfg d a)))"

lemma pci_read_half:
  assumes "config_reads io cfg"
  shows "fst (PciRead16 io dv offset d) = ucast (drop_bit (unat (offset AND 2) * 8) (cfg d (pci_address dv offset)) AND 0xFFFF)"
    and "cfg (snd (PciRead16 io dv offset d)) = cfg d"
  using assms by (simp_all add: PciRead16_def port_defs PCI_CONFIG_ADDRESS_def PCI_CONFIG_DATA_def config_reads_def Let_def case_prod_beta)

text \<open>For an offset that is a multiple of four, the second half-word is in the same register.\<close>

lemma aligned_next:
  assumes "offset AND 3 = (0 :: u8)"
  shows "(offset + 2) AND 0xFC = offset" "offset AND 0xFC = offset" "offset AND 2 = 0" "(offset + 2) AND 2 = 2"
proof -
  have "offset AND 2 = (offset AND 3) AND 2" by (simp add: and.assoc)
  with assms show two: "offset AND 2 = 0" by simp
  then have sum: "offset + 2 = offset OR 2" by (rule disjunctive_add_eq_or)
  have "(3 OR 0xFC :: u8) = - 1" by simp
  then have "offset = offset AND (3 OR 0xFC)" by (simp only: and_minus_numerals bit.conj_one_right)
  also have "\<dots> = (offset AND 3) OR (offset AND 0xFC)" by (rule bit.conj_disj_distrib)
  finally show a: "offset AND 0xFC = offset" using assms by simp
  show "(offset + 2) AND 0xFC = offset"
    unfolding sum bit.conj_disj_distrib2 using a by simp
  show "(offset + 2) AND 2 = 2"
    unfolding sum bit.conj_disj_distrib2 using two by simp
qed

text \<open>The two half-words of a register.\<close>

lemma word32_halves:
  "push_bit 16 (ucast (ucast (drop_bit 16 w AND 0xFFFF) :: u16)) OR ucast (ucast (w AND 0xFFFF) :: u16) = (w :: u32)"
proof -
  have m: "x AND 0xFFFF = take_bit 16 x" for x :: u32 by (simp add: take_bit_eq_mask mask_eq_exp_minus_1)
  show ?thesis
    unfolding m
  proof (rule bit_word_eqI)
    fix n assume "n < LENGTH(32)"
    then consider "n < 16" | "16 \<le> n" "n < 32" by fastforce
    then show "bit (push_bit 16 (ucast (ucast (take_bit 16 (drop_bit 16 w)) :: u16)) OR ucast (ucast (take_bit 16 w) :: u16) :: u32) n = bit w n"
      by cases (auto simp: bit_simps)
  qed
qed

lemma write_halves:
  "push_bit 16 (ucast (ucast (drop_bit 16 v) AND 0xFFFF :: u16)) OR
     take_bit 16 (push_bit 16 (drop_bit 16 w) OR ucast (ucast (v AND 0xFFFF) :: u16)) = (v :: u32)"
proof -
  have m: "x AND 0xFFFF = take_bit 16 x" for x :: "'b::len word" by (simp add: take_bit_eq_mask mask_eq_exp_minus_1)
  show ?thesis
    unfolding m
  proof (rule bit_word_eqI)
    fix n assume "n < LENGTH(32)"
    then consider "n < 16" | "16 \<le> n" "n < 32" by fastforce
    then show "bit (push_bit 16 (ucast (take_bit 16 (ucast (drop_bit 16 v)) :: u16)) OR
        take_bit 16 (push_bit 16 (drop_bit 16 w) OR ucast (ucast (take_bit 16 v) :: u16)) :: u32) n = bit v n"
      by cases (auto simp: bit_simps)
  qed
qed

lemma pci_address_next:
  assumes "offset AND 3 = 0" shows "pci_address dv (offset + 2) = pci_address dv offset"
  using aligned_next [OF assms] by (simp add: pci_address_def)

lemma PciRead32_config:
  assumes "config_reads io cfg" and "offset AND 3 = 0"
  shows "fst (PciRead32 io dv offset d) = cfg d (pci_address dv offset)"
    and "cfg (snd (PciRead32 io dv offset d)) = cfg d"
proof -
  note r = pci_read_half [OF assms(1)] and al = aligned_next [OF assms(2)] pci_address_next [OF assms(2)]
  show "fst (PciRead32 io dv offset d) = cfg d (pci_address dv offset)"
    using word32_halves [of "cfg d (pci_address dv offset)"]
    by (simp add: PciRead32_def Let_def case_prod_beta r al)
  show "cfg (snd (PciRead32 io dv offset d)) = cfg d"
    by (simp add: PciRead32_def Let_def case_prod_beta r)
qed

lemma PciWrite16_config:
  assumes "config_writes io cfg (pci_address dv offset)" and "offset AND 3 = 0"
  shows "cfg (PciWrite16 io dv offset v d) =
      (cfg d)(pci_address dv offset := push_bit 16 (drop_bit 16 (cfg d (pci_address dv offset))) OR ucast v)"
    and "cfg (PciWrite16 io dv (offset + 2) v d) =
      (cfg d)(pci_address dv offset := push_bit 16 (ucast v) OR take_bit 16 (cfg d (pci_address dv offset)))"
  using assms(1) aligned_next [OF assms(2)] pci_address_next [OF assms(2)]
  by (simp_all add: PciWrite16_def port_defs PCI_CONFIG_ADDRESS_def PCI_CONFIG_DATA_def config_writes_def)

lemma PciWrite32_config:
  assumes "config_writes io cfg (pci_address dv offset)" and "offset AND 3 = 0"
  shows "cfg (PciWrite32 io dv offset v d) = (cfg d)(pci_address dv offset := v)"
  using PciWrite16_config [OF assms] write_halves [of v] by (simp add: PciWrite32_def)

text \<open>The fields of a configuration address.\<close>

lemma short_field:
  fixes x :: "'b::len word"
  assumes "unat x < 2 ^ n" and "n \<le> k"
  shows "\<not> bit x k"
proof -
  have "take_bit n x = x" using assms(1) by (simp add: word_eq_iff_unsigned [where 'a = nat] unsigned_take_bit_eq take_bit_nat_eq_self)
  then show ?thesis using assms(2) by (metis bit_take_bit_iff not_le)
qed

lemma pci_address_bit:
  "bit (pci_address dv offset) n \<longleftrightarrow> n = 31 \<or> 16 \<le> n \<and> n < 32 \<and> bit (pci_bus dv) (n - 16) \<or>
     11 \<le> n \<and> n < 32 \<and> bit (pci_device dv) (n - 11) \<or> 8 \<le> n \<and> n < 32 \<and> bit (pci_function dv) (n - 8) \<or>
     n < 32 \<and> bit (offset AND 0xFC) n"
  unfolding pci_address_def bit_or_iff bit_push_bit_iff bit_unsigned_iff by (auto simp: bit_1_iff)

lemma pci_address_fields:
  assumes "pci_device dv < 32" and "pci_function dv < 8"
  shows "ucast (drop_bit 16 (pci_address dv offset)) = pci_bus dv"
    and "ucast (take_bit 5 (drop_bit 11 (pci_address dv offset))) = pci_device dv"
    and "ucast (take_bit 3 (drop_bit 8 (pci_address dv offset))) = pci_function dv"
    and "ucast (take_bit 8 (pci_address dv offset)) = offset AND 0xFC"
proof -
  have d: "5 \<le> n \<Longrightarrow> \<not> bit (pci_device dv) n" for n using assms(1) short_field [of "pci_device dv" 5] by (simp add: word_less_nat_alt)
  have f: "3 \<le> n \<Longrightarrow> \<not> bit (pci_function dv) n" for n using assms(2) short_field [of "pci_function dv" 3] by (simp add: word_less_nat_alt)
  have o8: "8 \<le> n \<Longrightarrow> \<not> bit (offset AND 0xFC) n" for n using bit_imp_le_length [of "offset AND 0xFC" n] by fastforce
  note bits = bit_unsigned_iff bit_drop_bit_eq bit_take_bit_iff pci_address_bit d f o8
  show "ucast (drop_bit 16 (pci_address dv offset)) = pci_bus dv"
  proof (rule bit_word_eqI)
    fix n assume "n < LENGTH(8)"
    then show "bit (ucast (drop_bit 16 (pci_address dv offset)) :: u8) n = bit (pci_bus dv) n"
      by (simp add: bits del: bit_and_iff)
  qed
  show "ucast (take_bit 5 (drop_bit 11 (pci_address dv offset))) = pci_device dv"
  proof (rule bit_word_eqI)
    fix n assume "n < LENGTH(8)"
    then show "bit (ucast (take_bit 5 (drop_bit 11 (pci_address dv offset))) :: u8) n = bit (pci_device dv) n"
      by (cases "n < 5") (simp_all add: bits del: bit_and_iff)
  qed
  show "ucast (take_bit 3 (drop_bit 8 (pci_address dv offset))) = pci_function dv"
  proof (rule bit_word_eqI)
    fix n assume "n < LENGTH(8)"
    then show "bit (ucast (take_bit 3 (drop_bit 8 (pci_address dv offset))) :: u8) n = bit (pci_function dv) n"
      by (cases "n < 3") (simp_all add: bits del: bit_and_iff)
  qed
  show "ucast (take_bit 8 (pci_address dv offset)) = offset AND 0xFC"
  proof (rule bit_word_eqI)
    fix n assume "n < LENGTH(8)"
    then show "bit (ucast (take_bit 8 (pci_address dv offset)) :: u8) n = bit (offset AND 0xFC) n"
      by (simp add: bits del: bit_and_iff)
  qed
qed

lemma pci_address_inj:
  assumes "pci_device dv < 32" "pci_function dv < 8" "pci_device dv' < 32" "pci_function dv' < 8"
    and "pci_address dv offset = pci_address dv' offset'"
  shows "pci_bus dv = pci_bus dv'" "pci_device dv = pci_device dv'" "pci_function dv = pci_function dv'"
    "offset AND 0xFC = offset' AND 0xFC"
  using pci_address_fields [OF assms(1,2), of offset] pci_address_fields [OF assms(3,4), of offset'] assms(5)
  by simp_all

text \<open>A word written to configuration space is read back, and no register of another function or at
  another offset changes, provided the register is an ordinary read/write register.\<close>

theorem PciWrite32_roundtrip:
  assumes "config_reads io cfg" and "config_writes io cfg (pci_address dv offset)"
    and "offset AND 3 = 0" and "pci_device dv < 32" and "pci_function dv < 8"
  shows "fst (PciRead32 io dv offset (PciWrite32 io dv offset v d)) = v \<and>
    (\<forall>dv' offset'. offset' AND 3 = 0 \<and> pci_device dv' < 32 \<and> pci_function dv' < 8 \<and>
      (pci_bus dv', pci_device dv', pci_function dv', offset') \<noteq> (pci_bus dv, pci_device dv, pci_function dv, offset) \<longrightarrow>
      fst (PciRead32 io dv' offset' (PciWrite32 io dv offset v d)) = fst (PciRead32 io dv' offset' d))"
proof (intro conjI allI impI)
  note w = PciWrite32_config [OF assms(2,3), of v d]
  show "fst (PciRead32 io dv offset (PciWrite32 io dv offset v d)) = v"
    using PciRead32_config(1) [OF assms(1,3)] w by simp
  fix dv' :: PciDevice and offset' :: u8
  assume a: "offset' AND 3 = 0 \<and> pci_device dv' < 32 \<and> pci_function dv' < 8 \<and>
      (pci_bus dv', pci_device dv', pci_function dv', offset') \<noteq> (pci_bus dv, pci_device dv, pci_function dv, offset)"
  then have al: "offset' AND 3 = 0" and lim: "pci_device dv' < 32" "pci_function dv' < 8" by blast+
  have "pci_address dv' offset' \<noteq> pci_address dv offset"
  proof
    assume "pci_address dv' offset' = pci_address dv offset"
    from pci_address_inj [OF lim assms(4,5) this] a show False
      by (simp only: aligned_next(2) [OF al] aligned_next(2) [OF assms(3)] prod.inject simp_thms)
  qed
  then show "fst (PciRead32 io dv' offset' (PciWrite32 io dv offset v d)) = fst (PciRead32 io dv' offset' d)"
    using PciRead32_config(1) [OF assms(1) al] w by simp
qed

definition config_bus :: "(u32 \<times> (u32 \<Rightarrow> u32)) bus" where
  "config_bus = \<lparr>in8 = (\<lambda>_ d. (0, d)), in16 = (\<lambda>_ d. (0, d)), in32 = (\<lambda>_ (a, r). (r a, a, r)),
     out8 = (\<lambda>_ _ d. d),
     out16 = (\<lambda>p v (a, r). (a, r(a := if p = 0xCFC then push_bit 16 (drop_bit 16 (r a)) OR ucast v
                                    else push_bit 16 (ucast v) OR take_bit 16 (r a)))),
     out32 = (\<lambda>_ v (a, r). (v, r)),
     mmio_read8 = (\<lambda>_ d. (0, d)), mmio_read32 = (\<lambda>_ d. (0, d)), mmio_write32 = (\<lambda>_ _ d. d),
     mmio_write64 = (\<lambda>_ _ d. d)\<rparr>"

lemma config_bus_ok: "config_reads config_bus snd" "config_writes config_bus snd a"
  by (simp_all add: config_reads_def config_writes_def config_bus_def case_prod_beta)

theorem PciWrite32_roundtrip_witness:
  "fst (PciRead32 config_bus (pci_device_at 0 3 0) 0x10 (PciWrite32 config_bus (pci_device_at 0 3 0) 0x10 0xFEB00004 (0, \<lambda>_. 7))) = 0xFEB00004 \<and>
   fst (PciRead32 config_bus (pci_device_at 0 3 1) 0x10 (PciWrite32 config_bus (pci_device_at 0 3 0) 0x10 0xFEB00004 (0, \<lambda>_. 7))) =
     fst (PciRead32 config_bus (pci_device_at 0 3 1) 0x10 (0, \<lambda>_. 7))"
proof -
  have al: "(0x10 :: u8) AND 3 = 0" "pci_device (pci_device_at 0 3 0) < 32" "pci_function (pci_device_at 0 3 0) < 8"
    by (simp_all add: pci_device_at_def)
  have "pci_device (pci_device_at 0 3 1) < 32" "pci_function (pci_device_at 0 3 1) < 8"
    "pci_function (pci_device_at 0 3 1) \<noteq> pci_function (pci_device_at 0 3 0)"
    by (simp_all add: pci_device_at_def)
  with PciWrite32_roundtrip [OF config_bus_ok al, where v = "0xFEB00004" and d = "(0, \<lambda>_. 7)"] al(1) show ?thesis by blast
qed

subsection \<open>What the enumeration finds\<close>

definition config_half :: "(u32 \<Rightarrow> u32) \<Rightarrow> PciDevice \<Rightarrow> u8 \<Rightarrow> u16" where
  "config_half c dv offset = ucast (drop_bit (unat (offset AND 2) * 8) (c (pci_address dv offset)) AND 0xFFFF)"

text \<open>The function at a place, if its vendor word is not all ones.\<close>

definition function_at :: "(u32 \<Rightarrow> u32) \<Rightarrow> u16 \<Rightarrow> nat \<times> nat \<Rightarrow> PciDevice option" where
  "function_at c b = (\<lambda>(dv, f).
     (let d0 = pci_device_at (ucast b) (of_nat dv) (of_nat f)
      in if config_half c d0 0 = 0xFFFF then None
         else Some (pci_identify d0 (config_half c d0 0) (config_half c d0 2) (config_half c d0 10))))"

text \<open>The first driver whose probe accepts a function, as it is entered into the table.\<close>

definition driver_row :: "'s driver_ops list \<Rightarrow> PciDevice \<Rightarrow> (string \<times> PciDevice) option" where
  "driver_row drivers pdev = map_option (\<lambda>drv. (ops_name drv, pdev)) (find (\<lambda>drv. try_probe drv pdev) drivers)"

definition loaded_rows :: "('d, 'a) pci_state_scheme \<Rightarrow> (string \<times> PciDevice) list" where
  "loaded_rows s = map (\<lambda>i. (drv_name (kLoadedPciDrivers s i), drv_device (kLoadedPciDrivers s i))) [0..<unat (kLoadedPciDriverCount s)]"

text \<open>
  The contract of a driver's \<open>initialize\<close>: it returns, the same functions answer afterwards, the table
  of buses and the names and devices of the loaded drivers stay, and it prints no line of this report.
\<close>

definition same_buses :: "('d \<Rightarrow> u32 \<Rightarrow> u32) \<Rightarrow> addr \<Rightarrow> ('d, 'a) pci_state_scheme \<Rightarrow> ('d, 'a) pci_state_scheme \<Rightarrow> bool" where
  "same_buses cfg mcfg s s' \<longleftrightarrow> function_at (cfg (dev s')) = function_at (cfg (dev s)) \<and>
     load8 (mem s') (mcfg + 55) = load8 (mem s) (mcfg + 55)"

definition driver_ok :: "('d \<Rightarrow> u32 \<Rightarrow> u32) \<Rightarrow> addr \<Rightarrow> ('d, 'a) pci_state_scheme driver_ops \<Rightarrow> bool" where
  "driver_ok cfg mcfg drv \<longleftrightarrow> (\<forall>k s. \<exists>s'. initialize drv k s = Some s' \<and> same_buses cfg mcfg s s' \<and>
     loaded_rows s' = loaded_rows s \<and> kLoadedPciDriverCount s' = kLoadedPciDriverCount s \<and> pci_report s' = pci_report s)"

text \<open>\<open>finds\<close>: \<open>s'\<close> reports the functions \<open>ds\<close> after \<open>s\<close> and has their drivers loaded.\<close>

definition finds :: "('d \<Rightarrow> u32 \<Rightarrow> u32) \<Rightarrow> addr \<Rightarrow> 't driver_ops list \<Rightarrow> PciDevice list \<Rightarrow>
    ('d, 'a) pci_state_scheme \<Rightarrow> ('d, 'a) pci_state_scheme \<Rightarrow> bool" where
  "finds cfg mcfg drivers ds s s' \<longleftrightarrow> same_buses cfg mcfg s s' \<and>
     map Some (pci_report s') = map Some (pci_report s) @ map report_of ds \<and>
     loaded_rows s' = loaded_rows s @ List.map_filter (driver_row drivers) ds"

lemma finds_refl: "same_buses cfg mcfg s s' \<Longrightarrow> pci_report s' = pci_report s \<Longrightarrow> loaded_rows s' = loaded_rows s \<Longrightarrow>
    finds cfg mcfg drivers [] s s'"
  by (simp add: finds_def List.map_filter_simps)

lemma finds_trans: "finds cfg mcfg drivers xs s s' \<Longrightarrow> finds cfg mcfg drivers ys s' s'' \<Longrightarrow> finds cfg mcfg drivers (xs @ ys) s s''"
  by (auto simp: finds_def same_buses_def List.map_filter_def)

lemma length_loaded_rows: "length (loaded_rows s) = unat (kLoadedPciDriverCount s)"
  by (simp add: loaded_rows_def)

lemma load_driver_ok:
  assumes "driver_ok cfg mcfg drv" and "length (loaded_rows s) < 255"
  obtains s' where "load_driver drv pdev s = Some s'" and "same_buses cfg mcfg s s'" and "pci_report s' = pci_report s"
    and "loaded_rows s' = loaded_rows s @ [(ops_name drv, pdev)]"
proof -
  let ?n = "kLoadedPciDriverCount s"
  let ?s = "s\<lparr>kLoadedPciDrivers := (kLoadedPciDrivers s)(unat ?n := \<lparr>drv_name = ops_name drv, drv_device = pdev, drv_data = 0\<rparr>),
                kLoadedPciDriverCount := ?n + 1\<rparr>"
  have n: "unat ?n < 255" using assms(2) by (simp add: length_loaded_rows)
  then have "?n \<noteq> 255" and "unat (?n + 1) = Suc (unat ?n)" by (auto simp: unat_word_ariths)
  then have rows: "loaded_rows ?s = loaded_rows s @ [(ops_name drv, pdev)]" by (simp add: loaded_rows_def)
  obtain s' where s': "initialize drv (unat ?n) ?s = Some s'" "same_buses cfg mcfg ?s s'" "loaded_rows s' = loaded_rows ?s"
      "pci_report s' = pci_report ?s"
    using assms(1) unfolding driver_ok_def by blast
  show thesis
  proof (rule that)
    show "load_driver drv pdev s = Some s'" using s'(1) \<open>?n \<noteq> 255\<close> by (simp add: load_driver_def Let_def)
  qed (use s' rows in \<open>simp_all add: same_buses_def\<close>)
qed

lemma probe_drivers_ok:
  assumes "\<forall>drv\<in>set drivers. driver_ok cfg mcfg drv"
    and "length (loaded_rows s) + length (List.map_filter (driver_row drivers) [pdev]) < 256"
  obtains s' where "probe_drivers drivers pdev s = Some s'" and "same_buses cfg mcfg s s'" and "pci_report s' = pci_report s"
    and "loaded_rows s' = loaded_rows s @ List.map_filter (driver_row drivers) [pdev]"
  using assms
proof (induction drivers arbitrary: thesis)
  case Nil
  then show ?case by (simp add: same_buses_def driver_row_def List.map_filter_simps)
next
  case (Cons drv drivers)
  show ?case
  proof (cases "try_probe drv pdev")
    case True
    then have row: "List.map_filter (driver_row (drv # drivers)) [pdev] = [(ops_name drv, pdev)]"
      by (simp add: driver_row_def List.map_filter_simps)
    with Cons.prems(2,3) obtain s' where "load_driver drv pdev s = Some s'" "same_buses cfg mcfg s s'"
        "pci_report s' = pci_report s" "loaded_rows s' = loaded_rows s @ [(ops_name drv, pdev)]"
      using load_driver_ok [of cfg mcfg drv s pdev] by auto
    with True row show ?thesis by (intro Cons.prems(1)) auto
  next
    case False
    then have "List.map_filter (driver_row (drv # drivers)) [pdev] = List.map_filter (driver_row drivers) [pdev]"
      by (simp add: driver_row_def List.map_filter_def)
    with Cons False show ?thesis by auto
  qed
qed

definition found :: "(u32 \<Rightarrow> u32) \<Rightarrow> u16 \<Rightarrow> (nat \<times> nat) list \<Rightarrow> PciDevice list" where
  "found c b xs = List.map_filter (function_at c b) xs"

lemma found_Cons: "found c b (x # xs) = found c b [x] @ found c b xs"
  by (simp add: found_def List.map_filter_simps split: option.split)

lemma scan_function_ok:
  assumes cfg: "config_reads io cfg" and drv: "\<forall>drv\<in>set drivers. driver_ok cfg mcfg drv"
    and cls: "\<forall>pdev\<in>set (found (cfg (dev s)) b [x]). unat (class_code pdev) < length PciDeviceClasses"
    and room: "length (loaded_rows s) + length (List.map_filter (driver_row drivers) (found (cfg (dev s)) b [x])) < 256"
  obtains s' where "scan_function io drivers b x s = Some s'" and "finds cfg mcfg drivers (found (cfg (dev s)) b [x]) s s'"
proof -
  obtain dv f where x: "x = (dv, f)" by fastforce
  let ?d0 = "pci_device_at (ucast b) (of_nat dv) (of_nat f)"
  let ?c = "cfg (dev s)"
  obtain v d1 where r0: "PciRead16 io ?d0 0 (dev s) = (v, d1)" by fastforce
  obtain w d2 where r2: "PciRead16 io ?d0 2 d1 = (w, d2)" by fastforce
  obtain k d3 where r10: "PciRead16 io ?d0 10 d2 = (k, d3)" by fastforce
  note rd = pci_read_half [OF cfg, of ?d0]
  have h: "v = config_half ?c ?d0 0" "w = config_half ?c ?d0 2" "k = config_half ?c ?d0 10"
    "cfg d1 = ?c" "cfg d3 = ?c"
    using rd [of 0 "dev s"] rd [of 2 d1] rd [of 10 d2] r0 r2 r10 by (simp_all add: config_half_def)
  show thesis
  proof (cases "v = 0xFFFF")
    case True
    then have "found ?c b [x] = []" by (simp add: found_def function_at_def x h Let_def List.map_filter_simps)
    with True r0 h show thesis
      by (intro that [of "s\<lparr>dev := d1\<rparr>"]) (simp_all add: scan_function_def x Let_def finds_def same_buses_def loaded_rows_def List.map_filter_simps)
  next
    case False
    define pdev where "pdev = pci_identify ?d0 v w k"
    have fd: "found ?c b [x] = [pdev]"
      using False by (simp add: found_def function_at_def x h Let_def List.map_filter_simps pdev_def)
    with cls obtain line where line: "report_of pdev = Some line" by (auto simp: report_of_def)
    let ?s = "s\<lparr>dev := d3, pci_report := pci_report s @ [line]\<rparr>"
    have rows: "loaded_rows ?s = loaded_rows s" by (simp add: loaded_rows_def)
    obtain s' where s': "probe_drivers drivers pdev ?s = Some s'" "same_buses cfg mcfg ?s s'" "pci_report s' = pci_report ?s"
        "loaded_rows s' = loaded_rows ?s @ List.map_filter (driver_row drivers) [pdev]"
      using probe_drivers_ok [OF drv, of ?s pdev] room fd rows by auto
    have "scan_function io drivers b x s = Some s'"
      using False r0 r2 r10 line s'(1) by (simp add: scan_function_def x pdev_def)
    moreover have "finds cfg mcfg drivers [pdev] s s'"
      using s' rows line h(5) by (simp add: finds_def same_buses_def)
    ultimately show thesis using fd that by simp
  qed
qed

lemma scan_functions_ok:
  assumes "config_reads io cfg" and "\<forall>drv\<in>set drivers. driver_ok cfg mcfg drv"
    and "\<forall>pdev\<in>set (found (cfg (dev s)) b xs). unat (class_code pdev) < length PciDeviceClasses"
    and "length (loaded_rows s) + length (List.map_filter (driver_row drivers) (found (cfg (dev s)) b xs)) < 256"
  obtains s' where "scan_functions io drivers b xs s = Some s'" and "finds cfg mcfg drivers (found (cfg (dev s)) b xs) s s'"
  using assms(3,4)
proof (induction xs arbitrary: s thesis)
  case Nil
  then show ?case by (simp add: finds_refl same_buses_def found_def List.map_filter_simps)
next
  case (Cons x xs)
  let ?a = "found (cfg (dev s)) b [x]" and ?r = "found (cfg (dev s)) b xs"
  have app: "found (cfg (dev s)) b (x # xs) = ?a @ ?r" by (rule found_Cons)
  have rows: "List.map_filter (driver_row drivers) (?a @ ?r) =
      List.map_filter (driver_row drivers) ?a @ List.map_filter (driver_row drivers) ?r"
    by (simp add: List.map_filter_def)
  obtain s1 where s1: "scan_function io drivers b x s = Some s1" "finds cfg mcfg drivers ?a s s1"
    using scan_function_ok [OF assms(1,2), of s b x] Cons.prems(2,3) app rows by auto
  have same: "found (cfg (dev s1)) b xs = ?r" using s1(2) by (simp add: finds_def same_buses_def found_def)
  have "length (loaded_rows s1) = length (loaded_rows s) + length (List.map_filter (driver_row drivers) ?a)"
    using s1(2) by (simp add: finds_def)
  then obtain s2 where "scan_functions io drivers b xs s1 = Some s2" "finds cfg mcfg drivers ?r s1 s2"
    using Cons.IH [of s1] Cons.prems(2,3) app rows same by auto
  then show ?case using Cons.prems(1) [of s2] finds_trans [OF s1(2)] s1(1) app by simp
qed

text \<open>The functions of all buses from \<open>b\<close> to the last one the table names.\<close>

definition found_from :: "(u32 \<Rightarrow> u32) \<Rightarrow> nat \<Rightarrow> nat \<Rightarrow> PciDevice list" where
  "found_from c b e = concat (map (\<lambda>k. found c (of_nat k) bus_functions) [b..<Suc e])"

lemma found_from_step: "b \<le> e \<Longrightarrow> found_from c b e = found c (of_nat b) bus_functions @ found_from c (Suc b) e"
  by (simp only: found_from_def upt_conv_Cons [of b "Suc e"] less_Suc_eq_le list.map concat.simps)

lemma scan_buses_ok:
  assumes "config_reads io cfg" and "\<forall>drv\<in>set drivers. driver_ok cfg mcfg drv"
    and "\<forall>pdev\<in>set (found_from (cfg (dev s)) b e). unat (class_code pdev) < length PciDeviceClasses"
    and "length (loaded_rows s) + length (List.map_filter (driver_row drivers) (found_from (cfg (dev s)) b e)) < 256"
    and "e = unat (load8 (mem s) (mcfg + 55))" and "b \<le> 256"
  obtains s' where "scan_buses io drivers mcfg (of_nat b) s = Some s'" and "finds cfg mcfg drivers (found_from (cfg (dev s)) b e) s s'"
  using assms(3-)
proof (induction "256 - b" arbitrary: b s thesis rule: less_induct)
  case less
  have e: "e < 256" using less.prems(4) unat_bound [of "load8 (mem s) (mcfg + 55)"] by simp
  have "unat (of_nat b :: u16) = b" using less.prems(5) by (simp add: unat_of_nat take_bit_nat_eq_self)
  moreover have "unat (ucast (load8 (mem s) (mcfg + 55)) :: u16) = e"
    using e less.prems(4) by (simp add: unsigned_ucast_eq take_bit_nat_eq_self)
  ultimately have le: "(of_nat b :: u16) \<le> ucast (load8 (mem s) (mcfg + 55)) \<longleftrightarrow> b \<le> e" by (simp add: word_le_nat_alt)
  show ?case
  proof (cases "b \<le> e")
    case False
    then have "scan_buses io drivers mcfg (of_nat b) s = Some s" using le by (subst scan_buses.simps) simp
    moreover have "found_from (cfg (dev s)) b e = []" using False by (simp add: found_from_def)
    ultimately show ?thesis using less.prems(1) [of s] by (simp add: finds_refl same_buses_def)
  next
    case True
    let ?a = "found (cfg (dev s)) (of_nat b) bus_functions" and ?r = "found_from (cfg (dev s)) (Suc b) e"
    note app = found_from_step [OF True, of "cfg (dev s)"]
    have rows: "List.map_filter (driver_row drivers) (?a @ ?r) =
        List.map_filter (driver_row drivers) ?a @ List.map_filter (driver_row drivers) ?r" by (simp add: List.map_filter_def)
    obtain s1 where s1: "scan_functions io drivers (of_nat b) bus_functions s = Some s1" "finds cfg mcfg drivers ?a s s1"
      using scan_functions_ok [OF assms(1,2), of s "of_nat b" bus_functions] less.prems(2,3) app rows by auto
    have same: "found_from (cfg (dev s1)) (Suc b) e = ?r" "e = unat (load8 (mem s1) (mcfg + 55))"
      using s1(2) less.prems(4) by (simp_all add: finds_def same_buses_def found_def found_from_def)
    have "length (loaded_rows s1) = length (loaded_rows s) + length (List.map_filter (driver_row drivers) ?a)"
      using s1(2) by (simp add: finds_def)
    moreover have "256 - Suc b < 256 - b" using True e by simp
    ultimately obtain s2 where s2: "scan_buses io drivers mcfg (of_nat (Suc b)) s1 = Some s2" "finds cfg mcfg drivers ?r s1 s2"
      using less.hyps [of "Suc b" s1] less.prems(2,3) True e app rows same by auto
    have "scan_buses io drivers mcfg (of_nat b) s = Some s2"
      using le True s1(1) s2(1) by (subst scan_buses.simps) (simp add: add.commute)
    then show ?thesis using less.prems(1) [of s2] finds_trans [OF s1(2) s2(2)] app by simp
  qed
qed


text \<open>A bus with a graphics adapter at device 2, a driver that does not know it and one that does.\<close>

definition example_config :: "u32 \<Rightarrow> u32" where
  "example_config a = (if a = 0x80001000 then 0x11111234 else if a = 0x80001008 then 0x03000000 else 0xFFFFFFFF)"

definition example_function :: PciDevice where
  "example_function = pci_identify (pci_device_at 0 2 0) 0x1234 0x1111 0x0300"

lemma found_example: "found_from example_config 0 0 = [example_function]"
  by code_simp

definition pci_example :: "(u32 \<times> (u32 \<Rightarrow> u32)) pci_state" where
  "pci_example = sched_state.extend (sched_example\<lparr>mem := \<lambda>_. 0\<rparr>)
     \<lparr>dev = (0, example_config),
      io_at = (\<lambda>_. \<lparr>io_id = 0, max_rentry = 23, io_version = 0x11, gsi_base = 0, phys_addr = 0xFEC00000, address = 0xFEC00000\<rparr>),
      kIoApics = (LIST_HEAD_INIT, \<lambda>_. \<lparr>le_next = 0, le_prev = 0\<rparr>), kNumIoApics = 0, kLocalApicAddress = 0xFEE00000,
      kIrqHandlers = (\<lambda>_. \<lparr>ih_ignored = 0, ih_type = 0, ih_handler = 0, ih_data = 0\<rparr>),
      kIrqIsaOverrides = (\<lambda>_. \<lparr>iso_used = 0, iso_dest_irq = 0, iso_flags = 0\<rparr>), kApicHighestIrq = 23,
      kIrqSwBitmap = (\<lambda>_. 0), kIrqHwBitmap = (\<lambda>_. 0), kIpiVector = 255,
      kLoadedPciDrivers = (\<lambda>_. \<lparr>drv_name = [], drv_device = pci_device_at 0 0 0, drv_data = 0\<rparr>),
      kLoadedPciDriverCount = 0, pci_report = []\<rparr>"

lemma pci_example_simps:
  "dev pci_example = (0, example_config)" "load8 (mem pci_example) a = 0" "loaded_rows pci_example = []" "pci_report pci_example = []"
  by (simp_all add: pci_example_def sched_state.defs loaded_rows_def load8_def)

definition quiet_driver :: "string \<Rightarrow> u16 \<Rightarrow> 's driver_ops" where
  "quiet_driver nm v = \<lparr>ops_name = nm, try_probe = (\<lambda>pdev. vendor_id pdev = v), initialize = (\<lambda>_ s. Some s)\<rparr>"


lemma enable_command_bit:
  assumes "config_reads io cfg" and "config_writes io cfg (pci_address dv 4)"
    and d': "d' = (let (command, d) = PciRead16 io dv 4 d
      in if command AND push_bit n 1 \<noteq> 0 then d else PciWrite16 io dv 4 (command OR push_bit n 1) d)"
    and "n < 16"
  shows "cfg d' = (cfg d)(pci_address dv 4 := cfg d (pci_address dv 4) OR push_bit n 1)"
proof -
  let ?w = "cfg d (pci_address dv 4)"
  have al: "(4 :: u8) AND 3 = 0" by simp
  obtain c d1 where r: "PciRead16 io dv 4 d = (c, d1)" by fastforce
  have c: "c = ucast (?w AND 0xFFFF)" "cfg d1 = cfg d" using pci_read_half [OF assms(1), of dv 4 d] r by simp_all
  have m: "x AND 0xFFFF = take_bit 16 x" for x :: u32 by (simp add: take_bit_eq_mask mask_eq_exp_minus_1)
  have bit_c: "bit c k \<longleftrightarrow> k < 16 \<and> bit ?w k" for k by (auto simp: c m bit_simps)
  show ?thesis
  proof (cases "c AND push_bit n 1 = 0")
    case True
    have "push_bit 16 (drop_bit 16 ?w) OR ucast (c OR push_bit n 1) = ?w OR push_bit n 1"
    proof (rule bit_word_eqI)
      fix k assume "k < LENGTH(32)"
      then show "bit (push_bit 16 (drop_bit 16 ?w) OR ucast (c OR push_bit n 1) :: u32) k = bit (?w OR push_bit n 1) k"
        using assms(4) by (cases "k < 16") (auto simp: bit_simps bit_c)
    qed
    with True PciWrite16_config(1) [OF assms(2) al] show ?thesis by (simp add: d' r c(2))
  next
    case False
    then have "bit c n" by (metis and_exp_eq_0_iff_not_bit push_bit_of_1)
    then have "?w OR push_bit n 1 = ?w"
      by (intro bit_word_eqI) (auto simp: bit_simps bit_c)
    with False show ?thesis by (simp add: d' r c(2))
  qed
qed

text \<open>\<open>PciMaybeEnableBusMastering\<close> followed by \<open>PciMaybeEnableMemoryAccess\<close> sets bits 1 and 2 of a function's
  command register, keeps its other bits and the status register beside it, and touches no other register.\<close>

theorem pci_enable_command:
  assumes "config_reads io cfg" and "config_writes io cfg (pci_address dv 4)"
  shows "cfg (PciMaybeEnableMemoryAccess io dv (PciMaybeEnableBusMastering io dv d)) =
     (cfg d)(pci_address dv 4 := cfg d (pci_address dv 4) OR 6)"
proof -
  let ?a = "pci_address dv 4" and ?d = "PciMaybeEnableBusMastering io dv d"
  have 1: "cfg ?d = (cfg d)(?a := cfg d ?a OR push_bit 2 1)"
    by (rule enable_command_bit [OF assms]) (simp_all add: PciMaybeEnableBusMastering_def)
  have 2: "cfg (PciMaybeEnableMemoryAccess io dv ?d) = (cfg ?d)(?a := cfg ?d ?a OR push_bit 1 1)"
    by (rule enable_command_bit [OF assms]) (simp_all add: PciMaybeEnableMemoryAccess_def)
  have "push_bit 2 1 OR push_bit 1 1 = (6 :: u32)" by simp
  then have "(cfg d ?a OR push_bit 2 1) OR push_bit 1 1 = cfg d ?a OR 6" by (simp only: or.assoc)
  with 1 2 show ?thesis by simp
qed

theorem pci_enable_command_witness:
  "snd (PciMaybeEnableMemoryAccess config_bus (pci_device_at 0 3 0) (PciMaybeEnableBusMastering config_bus (pci_device_at 0 3 0) (0, \<lambda>_. 0x00100001)))
     0x80001804 = 0x00100007"
proof -
  have "pci_address (pci_device_at 0 3 0) 4 = 0x80001804" by (simp add: pci_address_def pci_device_at_def)
  with pci_enable_command [OF config_bus_ok, of "pci_device_at 0 3 0" "(0, \<lambda>_. 0x00100001)"] show ?thesis by simp
qed

end
