(* ===== verification/XhciRing.thy ===== *)
theory XhciRing
  imports Heap
begin

text \<open>
  The transfer-request rings of \<open>dev/usb/xhci.c\<close>: a ring is a structure in memory with a pointer to
  its segment, the next index, the number of entries and the producer's cycle bit; the last entry
  of the segment is the link back to the first.
\<close>

definition kTrbLink :: u32 where "kTrbLink = 6"

text \<open>\<open>XhciTrb\<close>: four 32-bit words; \<open>cycle\<close> is bit 0 and \<open>trb_type\<close> bits 10 to 15 of the last.\<close>

type_synonym XhciTrb = "u32 \<times> u32 \<times> u32 \<times> u32"

definition load_trb :: "mem \<Rightarrow> addr \<Rightarrow> XhciTrb" where
  "load_trb m a = (load32 m a, load32 m (a + 4), load32 m (a + 8), load32 m (a + 12))"

definition store_trb :: "mem \<Rightarrow> addr \<Rightarrow> XhciTrb \<Rightarrow> mem" where
  "store_trb m a = (\<lambda>(w0, w1, w2, w3). store32 (store32 (store32 (store32 m a w0) (a + 4) w1) (a + 8) w2) (a + 12) w3)"

definition trb_type :: "u32 \<Rightarrow> u32" where "trb_type w = bf_get 10 6 w"
definition trb_set_cycle :: "u32 \<Rightarrow> u32 \<Rightarrow> u32" where "trb_set_cycle c w = bf_set 0 1 c w"

text \<open>\<open>XhciTrbLink\<close>: the segment address, then the word with \<open>cycle\<close>, \<open>toggle_cycle\<close> (bit 1) and the type.\<close>

definition XhciTrbLink :: "u64 \<Rightarrow> u32 \<Rightarrow> XhciTrb" where
  "XhciTrbLink rs_addr c = (ucast rs_addr, ucast (drop_bit 32 rs_addr), 0, bf_set 1 1 1 (bf_set 0 1 c (bf_set 10 6 kTrbLink 0)))"

text \<open>\<open>XhciRing\<close>: \<open>ptr\<close> at 0, \<open>index\<close> at 8, \<open>max_index\<close> at 12, \<open>cycle\<close> at 16; 24 bytes.\<close>

definition ring_ptr :: "mem \<Rightarrow> addr \<Rightarrow> addr" where "ring_ptr m r = load64 m r"
definition ring_index :: "mem \<Rightarrow> addr \<Rightarrow> u32" where "ring_index m r = load32 m (r + 8)"
definition ring_max :: "mem \<Rightarrow> addr \<Rightarrow> u32" where "ring_max m r = load32 m (r + 12)"
definition ring_cycle :: "mem \<Rightarrow> addr \<Rightarrow> u32" where "ring_cycle m r = load32 m (r + 16)"

lemmas ring_fields = ring_ptr_def ring_index_def ring_max_def ring_cycle_def

text \<open>The number of entries \<open>XhciRingCreate\<close> records: those of the pages that \<open>sz\<close> entries would touch.\<close>

definition ring_entries :: "u64 \<Rightarrow> u32" where
  "ring_entries sz =
     (let num_pages = (ucast ((sz * 16 + 0xFFF) div PAGE_SIZE) :: u32)
      in ucast ((ucast (num_pages * 0x1000) :: u64) div 16))"

definition XhciRingCreate :: "u64 \<Rightarrow> 'a heap_state_scheme \<Rightarrow> (addr \<times> 'a heap_state_scheme) option" where
  "XhciRingCreate sz s = do {
     let num_trbs = ring_entries sz;
     (ring, s) \<leftarrow> kmalloc 24 s;
     let s = s\<lparr>mem := RtZeroMemory (mem s) ring 24\<rparr>;
     (p, s) \<leftarrow> kmalloc (ucast (sz * 16)) s;
     let m = store64 (mem s) ring p;
     let m = store32 m (ring + 8) 0;
     let m = store32 m (ring + 12) num_trbs;
     let m = store32 m (ring + 16) 1;
     Some (ring, s\<lparr>mem := m\<rparr>) }"

definition XhciRingDestroy :: "addr \<Rightarrow> 'a heap_state_scheme \<Rightarrow> 'a heap_state_scheme option" where
  "XhciRingDestroy ring s = do { s \<leftarrow> kfree (ring_ptr (mem s) ring) s; kfree ring s }"

definition trb_slot :: "mem \<Rightarrow> addr \<Rightarrow> addr" where
  "trb_slot m ring = ring_ptr m ring + 16 * ucast (ring_index m ring)"

definition XhciRingAdd :: "addr \<Rightarrow> addr \<Rightarrow> 'a vmm_scheme \<Rightarrow> int \<times> 'a vmm_scheme" where
  "XhciRingAdd ring trb s =
     (let m = mem s
      in if trb_type (load32 m (trb + 12)) = 0 then (-1, s)
         else
           let m = store32 m (trb + 12) (trb_set_cycle (ring_cycle m ring) (load32 m (trb + 12)));
               m = store_trb m (trb_slot m ring) (load_trb m trb);
               m = store32 m (ring + 8) (ring_index m ring + 1)
           in if ring_index m ring = ring_max m ring - 1
              then let link = XhciTrbLink (MmGetPhysicalAddress (s\<lparr>mem := m\<rparr>) (ring_ptr m ring)) (ring_cycle m ring);
                       m = store_trb m (trb_slot m ring) link;
                       m = store32 m (ring + 8) 0;
                       m = store32 m (ring + 16) (if ring_cycle m ring = 0 then 1 else 0)
                   in (0, s\<lparr>mem := m\<rparr>)
              else (0, s\<lparr>mem := m\<rparr>))"

definition XhciRingGet :: "addr \<Rightarrow> addr \<Rightarrow> mem \<Rightarrow> int \<times> mem" where
  "XhciRingGet ring trb m =
     (if trb = 0 \<or> ring_index m ring = 0 then (-1, m)
      else let src = trb_slot m ring
           in if trb_type (load32 m (src + 12)) = 0 then (-1, m)
              else let m = store32 m (ring + 8) (ring_index m ring + 1);
                       m = (if ring_index m ring = ring_max m ring
                            then let m = store32 m (ring + 8) 0
                                 in store32 m (ring + 16) (if ring_cycle m ring = 0 then 1 else 0)
                            else m)
                   in (0, store_trb m trb (load_trb m src)))"

definition XhciRingGetPhysicalAddress :: "addr \<Rightarrow> 'a vmm_scheme \<Rightarrow> u64" where
  "XhciRingGetPhysicalAddress ring s =
     MmGetPhysicalAddress s (ring_ptr (mem s) ring) + ucast (ring_index (mem s) ring) * 16"

definition XhciRingSize :: "addr \<Rightarrow> mem \<Rightarrow> u64" where
  "XhciRingSize ring m = ucast (ring_max m ring) * 16"

subsection \<open>Entries in memory\<close>

lemma apart_shift: "apart a n b k \<Longrightarrow> i + n' \<le> n \<Longrightarrow> j + k' \<le> k \<Longrightarrow> x = a + of_nat i \<Longrightarrow> y = b + of_nat j \<Longrightarrow> apart x n' y k'"
  by (simp add: apart_sub)

lemma word_apart:
  assumes "apart a n b 16" and "i + w \<le> n" and "x = a + of_nat i"
  shows "apart x w b 4" "apart x w (b + 4) 4" "apart x w (b + 8) 4" "apart x w (b + 12) 4"
  using apart_shift [OF assms(1,2), of 0 4] apart_shift [OF assms(1,2), of 4 4]
    apart_shift [OF assms(1,2), of 8 4] apart_shift [OF assms(1,2), of 12 4] assms(3) by simp_all

text \<open>A field of a structure that is apart from a written entry.\<close>

lemma load_store_trb_apart:
  assumes "apart a n b 16" and "x = a + of_nat i"
  shows "i + 4 \<le> n \<Longrightarrow> load32 (store_trb m b t) x = load32 m x"
    and "i + 8 \<le> n \<Longrightarrow> load64 (store_trb m b t) x = load64 m x"
  using word_apart [OF assms(1) _ assms(2), of 4] word_apart [OF assms(1) _ assms(2), of 8]
  by (simp_all add: store_trb_def case_prod_beta mem_simps)

lemma load_trb_store_trb: "load_trb (store_trb m a t) a = t"
proof -
  have "apart (a + of_nat i) 4 (a + of_nat j) 4" "apart (a + of_nat j) 4 (a + of_nat i) 4" if "i + 4 \<le> j" "j \<le> 12" for i j
    using apart_offsets [of i 4 j 4 a] that by simp_all
  from this [of 0 4] this [of 0 8] this [of 0 12] this [of 4 8] this [of 4 12] this [of 8 12]
  show ?thesis by (cases t) (simp add: load_trb_def store_trb_def mem_simps)
qed

lemma load_trb_apart: "apart a 16 b 16 \<Longrightarrow> load_trb (store_trb m b t) a = load_trb m a"
  using load_store_trb_apart(1) [of a 16 b a 0] load_store_trb_apart(1) [of a 16 b "a + 4" 4]
    load_store_trb_apart(1) [of a 16 b "a + 8" 8] load_store_trb_apart(1) [of a 16 b "a + 12" 12]
  by (simp add: load_trb_def)

text \<open>An entry that is apart from a written word.\<close>

lemma load_trb_store32:
  assumes "apart a 16 b n" and "j + 4 \<le> n" and "y = b + of_nat j"
  shows "load_trb (store32 m y v) a = load_trb m a"
proof -
  have "apart (a + of_nat i) 4 y 4" if "i + 4 \<le> 16" for i using apart_shift [OF assms(1) that assms(2)] assms(3) by simp
  from this [of 0] this [of 4] this [of 8] this [of 12] show ?thesis by (simp add: load_trb_def mem_simps)
qed

subsection \<open>One step of the producer\<close>

definition slot_of :: "addr \<Rightarrow> nat \<Rightarrow> addr" where "slot_of p k = p + of_nat (16 * k)"

text \<open>The ring structure at \<open>r\<close>, its segment of \<open>n\<close> entries at \<open>p\<close> and the caller's entry at \<open>t\<close> do not overlap.\<close>

definition ring_zones :: "addr \<Rightarrow> addr \<Rightarrow> nat \<Rightarrow> addr \<Rightarrow> bool" where
  "ring_zones r p n t \<longleftrightarrow> 2 \<le> n \<and> n < 2 ^ 28 \<and> apart r 24 p (16 * n) \<and> apart t 16 r 24 \<and> apart t 16 p (16 * n)"

definition ring_at :: "mem \<Rightarrow> addr \<Rightarrow> addr \<Rightarrow> nat \<Rightarrow> nat \<Rightarrow> u32 \<Rightarrow> bool" where
  "ring_at m r p n i c \<longleftrightarrow> ring_ptr m r = p \<and> ring_max m r = of_nat n \<and> ring_index m r = of_nat i \<and> ring_cycle m r = c"

lemma ring_words_apart:
  "apart r 8 (r + 8) 4" "apart r 8 (r + 16) 4" "apart (r + 12) 4 (r + 8) 4" "apart (r + 16) 4 (r + 8) 4"
  "apart (r + 8) 4 (r + 16) 4" "apart (r + 12) 4 (r + 16) 4"
  using apart_offsets [of 0 8 8 4 r] apart_offsets [of 0 8 16 4 r] apart_offsets [of 8 4 12 4 r]
    apart_offsets [of 8 4 16 4 r] apart_offsets [of 12 4 16 4 r] by simp_all

lemma ring_at_store_index: "ring_at m r p n i c \<Longrightarrow> ring_at (store32 m (r + 8) (of_nat j)) r p n j c"
  using ring_words_apart [of r] by (simp add: ring_at_def ring_fields mem_simps)

lemma ring_at_store_cycle: "ring_at m r p n i c \<Longrightarrow> ring_at (store32 m (r + 16) c') r p n i c'"
  using ring_words_apart [of r] by (simp add: ring_at_def ring_fields mem_simps)

lemma ring_at_store_trb:
  assumes "apart r 24 a 16" and "ring_at m r p n i c" shows "ring_at (store_trb m a t) r p n i c"
  using assms(2) load_store_trb_apart(2) [OF assms(1), of r 0] load_store_trb_apart(1) [OF assms(1), of "r + 8" 8]
    load_store_trb_apart(1) [OF assms(1), of "r + 12" 12] load_store_trb_apart(1) [OF assms(1), of "r + 16" 16]
  by (simp add: ring_at_def ring_fields)

lemma ring_at_store32:
  assumes "apart r 24 b 16" and "j + 4 \<le> 16" and "y = b + of_nat j" and "ring_at m r p n i c"
  shows "ring_at (store32 m y v) r p n i c"
proof -
  have "apart (r + of_nat k) w y 4" if "k + w \<le> 24" for k w using apart_shift [OF assms(1) that assms(2)] assms(3) by simp
  from this [of 0 8] this [of 8 4] this [of 12 4] this [of 16 4] assms(4) show ?thesis
    by (simp add: ring_at_def ring_fields mem_simps)
qed

lemma slots_apart: "ring_zones r p n t \<Longrightarrow> i < n \<Longrightarrow> j < n \<Longrightarrow> i \<noteq> j \<Longrightarrow> apart (slot_of p i) 16 (slot_of p j) 16"
  unfolding slot_of_def ring_zones_def
  using apart_offsets [of "16 * i" 16 "16 * j" 16 p] apart_offsets [of "16 * j" 16 "16 * i" 16 p]
  by (cases "i < j") auto

lemma slot_zones_apart:
  assumes "ring_zones r p n t" and "i < n"
  shows "apart r 24 (slot_of p i) 16" "apart t 16 (slot_of p i) 16" "apart (slot_of p i) 16 r 24" "apart (slot_of p i) 16 t 16"
proof -
  show "apart r 24 (slot_of p i) 16" "apart t 16 (slot_of p i) 16"
    using assms apart_sub [of r 24 p "16 * n" 0 24 "16 * i" 16] apart_sub [of t 16 p "16 * n" 0 16 "16 * i" 16]
    by (simp_all add: slot_of_def ring_zones_def)
  then show "apart (slot_of p i) 16 r 24" "apart (slot_of p i) 16 t 16" by (simp_all add: apart_sym)
qed

lemma trb_slot_at: "ring_at m r p n i c \<Longrightarrow> i < 2 ^ 28 \<Longrightarrow> trb_slot m r = slot_of p i"
proof -
  assume a: "ring_at m r p n i c" "i < 2 ^ 28"
  then have "(ucast (of_nat i :: u32) :: u64) = of_nat i"
    by (simp add: word_eq_iff_unsigned [where 'a = nat] unsigned_ucast_eq unat_of_nat take_bit_nat_eq_self)
  with a(1) show ?thesis by (simp add: trb_slot_def ring_at_def slot_of_def)
qed

text \<open>The first half of \<open>XhciRingAdd\<close>: the entry is stamped, copied into the next slot and the index advanced.\<close>

definition ring_put :: "addr \<Rightarrow> addr \<Rightarrow> mem \<Rightarrow> mem" where
  "ring_put ring trb m =
     (let m = store32 m (trb + 12) (trb_set_cycle (ring_cycle m ring) (load32 m (trb + 12)));
          m = store_trb m (trb_slot m ring) (load_trb m trb)
      in store32 m (ring + 8) (ring_index m ring + 1))"

definition stamp :: "u32 \<Rightarrow> XhciTrb \<Rightarrow> XhciTrb" where
  "stamp c = (\<lambda>(w0, w1, w2, w3). (w0, w1, w2, trb_set_cycle c w3))"

lemma ring_put_ok:
  assumes z: "ring_zones r p n t" and at: "ring_at m r p n i c" and i: "i < n"
  shows "ring_at (ring_put r t m) r p n (Suc i) c"
    and "load_trb (ring_put r t m) (slot_of p i) = stamp c (load_trb m t)"
    and "k < n \<Longrightarrow> k \<noteq> i \<Longrightarrow> load_trb (ring_put r t m) (slot_of p k) = load_trb m (slot_of p k)"
proof -
  have lim: "i < 2 ^ 28" and tr: "apart t 16 r 24" using z i by (simp_all add: ring_zones_def)
  define m1 where "m1 = store32 m (t + 12) (trb_set_cycle c (load32 m (t + 12)))"
  define m2 where "m2 = store_trb m1 (slot_of p i) (load_trb m1 t)"
  have at1: "ring_at m1 r p n i c"
    unfolding m1_def using ring_at_store32 [OF apart_sym [OF tr], of 12 "t + 12"] at by simp
  note at2 = ring_at_store_trb [OF slot_zones_apart(1) [OF z i] at1, of "load_trb m1 t", folded m2_def]
  have put: "ring_put r t m = store32 m2 (r + 8) (of_nat (Suc i))"
    using at at2 trb_slot_at [OF at1 lim] by (simp add: ring_put_def Let_def m1_def m2_def ring_at_def add.commute)
  show "ring_at (ring_put r t m) r p n (Suc i) c"
    unfolding put by (rule ring_at_store_index [OF at2])
  have slot: "load_trb (store32 m' (r + 8) v) (slot_of p k) = load_trb m' (slot_of p k)" if "k < n" for k m' v
    using load_trb_store32 [OF slot_zones_apart(3) [OF z that], of 8 "r + 8"] by simp
  have "load_trb m1 t = stamp c (load_trb m t)"
    using apart_offsets [of 0 4 12 4 t] apart_offsets [of 4 4 12 4 t] apart_offsets [of 8 4 12 4 t]
    by (simp add: m1_def load_trb_def stamp_def mem_simps)
  then show "load_trb (ring_put r t m) (slot_of p i) = stamp c (load_trb m t)"
    by (simp only: put slot [OF i] m2_def load_trb_store_trb)
  show "load_trb (ring_put r t m) (slot_of p k) = load_trb m (slot_of p k)" if "k < n" "k \<noteq> i"
  proof -
    have "load_trb m1 (slot_of p k) = load_trb m (slot_of p k)"
      unfolding m1_def using load_trb_store32 [OF slot_zones_apart(4) [OF z that(1)], of 12 "t + 12"] by simp
    then show ?thesis by (simp only: put slot [OF that(1)] m2_def load_trb_apart [OF slots_apart [OF z that(1) i that(2)]])
  qed
qed

text \<open>The second half, at the end of the segment: the link, the reset of the index and the toggled cycle.\<close>

definition ring_wrap :: "addr \<Rightarrow> u64 \<Rightarrow> mem \<Rightarrow> mem" where
  "ring_wrap ring base m =
     (let m = store_trb m (trb_slot m ring) (XhciTrbLink base (ring_cycle m ring));
          m = store32 m (ring + 8) 0
      in store32 m (ring + 16) (if ring_cycle m ring = 0 then 1 else 0))"

lemma XhciRingAdd_alt:
  "XhciRingAdd ring trb s =
     (if trb_type (load32 (mem s) (trb + 12)) = 0 then (-1, s)
      else let m = ring_put ring trb (mem s)
           in (0, s\<lparr>mem := if ring_index m ring = ring_max m ring - 1
                     then ring_wrap ring (MmGetPhysicalAddress (s\<lparr>mem := m\<rparr>) (ring_ptr m ring)) m else m\<rparr>))"
  by (simp add: XhciRingAdd_def ring_put_def ring_wrap_def Let_def)

lemma ring_wrap_ok:
  assumes z: "ring_zones r p n t" and at: "ring_at m r p n i c" and i: "i < n"
  shows "ring_at (ring_wrap r base m) r p n 0 (if c = 0 then 1 else 0)"
    and "load_trb (ring_wrap r base m) (slot_of p i) = XhciTrbLink base c"
    and "k < n \<Longrightarrow> k \<noteq> i \<Longrightarrow> load_trb (ring_wrap r base m) (slot_of p k) = load_trb m (slot_of p k)"
proof -
  have lim: "i < 2 ^ 28" using z i by (simp add: ring_zones_def)
  define m1 where "m1 = store_trb m (slot_of p i) (XhciTrbLink base c)"
  define m2 where "m2 = store32 m1 (r + 8) (of_nat 0)"
  note at1 = ring_at_store_trb [OF slot_zones_apart(1) [OF z i] at, of "XhciTrbLink base c", folded m1_def]
  note at2 = ring_at_store_index [OF at1, of 0, folded m2_def]
  have wrap: "ring_wrap r base m = store32 m2 (r + 16) (if c = 0 then 1 else 0)"
    using at at1 at2 trb_slot_at [OF at lim] by (simp add: ring_wrap_def Let_def m1_def m2_def ring_at_def)
  show "ring_at (ring_wrap r base m) r p n 0 (if c = 0 then 1 else 0)"
    unfolding wrap by (rule ring_at_store_cycle [OF at2])
  have slot: "load_trb (ring_wrap r base m) (slot_of p k) = load_trb m1 (slot_of p k)" if "k < n" for k
    unfolding wrap m2_def using load_trb_store32 [OF slot_zones_apart(3) [OF z that], of 8 "r + 8"]
      load_trb_store32 [OF slot_zones_apart(3) [OF z that], of 16 "r + 16"] by simp
  then show "load_trb (ring_wrap r base m) (slot_of p i) = XhciTrbLink base c"
    using i by (simp add: m1_def load_trb_store_trb)
  show "load_trb (ring_wrap r base m) (slot_of p k) = load_trb m (slot_of p k)" if "k < n" "k \<noteq> i"
    using slot [OF that(1)] load_trb_apart [OF slots_apart [OF z that(1) i that(2)]] by (simp add: m1_def)
qed

text \<open>The whole operation, with \<open>n - 1\<close> entries per lap.\<close>

lemma XhciRingAdd_step:
  assumes z: "ring_zones r p n t" and at: "ring_at (mem s) r p n i c" and i: "i < n - 1"
    and ty: "trb_type (load32 (mem s) (t + 12)) \<noteq> 0"
  obtains m' base where "XhciRingAdd r t s = (0, s\<lparr>mem := m'\<rparr>)"
    and "if Suc i = n - 1 then ring_at m' r p n 0 (if c = 0 then 1 else 0) \<and> load_trb m' (slot_of p (n - 1)) = XhciTrbLink base c
      else ring_at m' r p n (Suc i) c \<and> load_trb m' (slot_of p (n - 1)) = load_trb (mem s) (slot_of p (n - 1))"
    and "load_trb m' (slot_of p i) = stamp c (load_trb (mem s) t)"
    and "\<forall>k < n - 1. k \<noteq> i \<longrightarrow> load_trb m' (slot_of p k) = load_trb (mem s) (slot_of p k)"
proof -
  define m1 where "m1 = ring_put r t (mem s)"
  have n: "2 \<le> n" "n < 2 ^ 28" using z by (simp_all add: ring_zones_def)
  with i have i': "i < n" by simp
  note p1 = ring_put_ok [OF z at i', folded m1_def]
  have "ring_index m1 r = of_nat (Suc i)" "ring_max m1 r = of_nat n" using p1(1) by (simp_all add: ring_at_def)
  moreover have "(of_nat n :: u32) - 1 = of_nat (n - 1)" using n by (simp add: of_nat_diff)
  moreover have "(of_nat (Suc i) :: u32) = of_nat (n - 1) \<longleftrightarrow> Suc i = n - 1"
    using n i' by (simp only: word_eq_iff_unsigned [where 'a = nat] unat_of_nat) (simp add: take_bit_nat_eq_self)
  ultimately have full: "ring_index m1 r = ring_max m1 r - 1 \<longleftrightarrow> Suc i = n - 1" by simp
  define base where "base = MmGetPhysicalAddress (s\<lparr>mem := m1\<rparr>) (ring_ptr m1 r)"
  define m' where "m' = (if Suc i = n - 1 then ring_wrap r base m1 else m1)"
  have add: "XhciRingAdd r t s = (0, s\<lparr>mem := m'\<rparr>)"
    using ty full by (simp add: XhciRingAdd_alt Let_def m1_def base_def m'_def)
  show thesis
  proof (cases "Suc i = n - 1")
    case True
    then have "Suc i < n" using n by simp
    note p2 = ring_wrap_ok [OF z p1(1) this, where base = base]
    show thesis
      by (rule that [of m' base, OF add]) (use True p1 p2 i' n in \<open>auto simp: m'_def\<close>)
  next
    case False
    show thesis
      by (rule that [of m' 0, OF add]) (use False p1 i i' n in \<open>auto simp: m'_def\<close>)
  qed
qed

subsection \<open>Laps\<close>

text \<open>A producer writes an entry to its buffer at \<open>t\<close> and adds it.\<close>

definition post :: "addr \<Rightarrow> addr \<Rightarrow> XhciTrb \<Rightarrow> 'a vmm_scheme \<Rightarrow> 'a vmm_scheme" where
  "post r t x s = snd (XhciRingAdd r t (s\<lparr>mem := store_trb (mem s) t x\<rparr>))"

definition lap_cycle :: "nat \<Rightarrow> nat \<Rightarrow> u32" where
  "lap_cycle N k = (if even (k div N) then 1 else 0)"

lemma lap_step:
  assumes "0 < N"
  shows "(if Suc (L mod N) = N then 0 else Suc (L mod N)) = Suc L mod N"
    and "(if Suc (L mod N) = N then (if lap_cycle N L = 0 then 1 else 0) else lap_cycle N L) = lap_cycle N (Suc L)"
  using assms by (auto simp: lap_cycle_def mod_Suc div_Suc)

definition lap_state :: "addr \<Rightarrow> addr \<Rightarrow> nat \<Rightarrow> XhciTrb list \<Rightarrow> mem \<Rightarrow> bool" where
  "lap_state r p n xs m \<longleftrightarrow> (let N = n - 1; L = length xs in
     ring_at m r p n (L mod N) (lap_cycle N L) \<and>
     (\<forall>k<L. L \<le> k + N \<longrightarrow> load_trb m (slot_of p (k mod N)) = stamp (lap_cycle N k) (xs ! k)) \<and>
     (N \<le> L \<longrightarrow> (\<exists>base. load_trb m (slot_of p N) = XhciTrbLink base (lap_cycle N (L - L mod N - 1)))))"

lemma mod_window: "k < L \<Longrightarrow> L < k + N \<Longrightarrow> k mod N \<noteq> L mod (N :: nat)"
  by (metis add_diff_inverse_nat less_diff_conv2 mod_eq_dvd_iff_nat nat_dvd_not_less nat_less_le not_less zero_less_diff less_imp_le add.commute)

lemma post_lap:
  assumes z: "ring_zones r p n t" and st: "lap_state r p n xs (mem s)" and ty: "trb_type (snd (snd (snd x))) \<noteq> 0"
  shows "\<exists>m'. post r t x s = s\<lparr>mem := m'\<rparr> \<and> lap_state r p n (xs @ [x]) m'"
proof -
  define N where "N = n - 1"
  define L where "L = length xs"
  have n: "2 \<le> n" "0 < N" using z by (auto simp: ring_zones_def N_def)
  have tr: "apart r 24 t 16" using z apart_sym by (auto simp: ring_zones_def)
  let ?s = "s\<lparr>mem := store_trb (mem s) t x\<rparr>"
  have at: "ring_at (mem ?s) r p n (L mod N) (lap_cycle N L)"
    using st ring_at_store_trb [OF tr] by (simp add: lap_state_def Let_def N_def L_def)
  have slots: "load_trb (mem ?s) (slot_of p k) = load_trb (mem s) (slot_of p k)" if "k < n" for k
    using load_trb_apart [OF slot_zones_apart(4) [OF z that]] by simp
  have tx: "load_trb (mem ?s) t = x" by (simp add: load_trb_store_trb)
  then have "trb_type (load32 (mem ?s) (t + 12)) \<noteq> 0" using ty by (cases x) (auto simp: load_trb_def)
  moreover have "L mod N < n - 1" using n by (simp add: N_def)
  ultimately obtain m' base where m': "XhciRingAdd r t ?s = (0, ?s\<lparr>mem := m'\<rparr>)"
    "if Suc (L mod N) = N then ring_at m' r p n 0 (if lap_cycle N L = 0 then 1 else 0) \<and> load_trb m' (slot_of p N) = XhciTrbLink base (lap_cycle N L)
      else ring_at m' r p n (Suc (L mod N)) (lap_cycle N L) \<and> load_trb m' (slot_of p N) = load_trb (mem ?s) (slot_of p N)"
    "load_trb m' (slot_of p (L mod N)) = stamp (lap_cycle N L) x"
    "\<forall>k < N. k \<noteq> L mod N \<longrightarrow> load_trb m' (slot_of p k) = load_trb (mem ?s) (slot_of p k)"
    using XhciRingAdd_step [OF z at] tx unfolding N_def by metis
  have "ring_at m' r p n (Suc L mod N) (lap_cycle N (Suc L))"
    using m'(2) lap_step [OF n(2), of L] by (auto split: if_splits)
  moreover have "load_trb m' (slot_of p (k mod N)) = stamp (lap_cycle N k) ((xs @ [x]) ! k)"
    if k: "k < Suc L" "Suc L \<le> k + N" for k
  proof (cases "k = L")
    case True then show ?thesis using m'(3) by (simp add: L_def)
  next
    case False
    then have "k mod N \<noteq> L mod N" "k mod N < N" using k n mod_window [of k L N] by auto
    then have "load_trb m' (slot_of p (k mod N)) = load_trb (mem s) (slot_of p (k mod N))"
      using m'(4) slots [of "k mod N"] by (simp add: N_def)
    then show ?thesis using st k False by (auto simp: lap_state_def Let_def N_def L_def nth_append)
  qed
  moreover have "\<exists>base. load_trb m' (slot_of p N) = XhciTrbLink base (lap_cycle N (Suc L - Suc L mod N - 1))" if "N \<le> Suc L"
  proof (cases "Suc (L mod N) = N")
    case True
    then have "Suc L mod N = 0" by (simp add: mod_Suc)
    with True m'(2) show ?thesis by auto
  next
    case False
    then have "Suc L mod N = Suc (L mod N)" using n by (simp add: mod_Suc)
    moreover have "N \<le> L" using that False n by (metis le_SucE mod_less lessI Suc_inject)
    moreover have "load_trb m' (slot_of p N) = load_trb (mem s) (slot_of p N)"
      using False m'(2) slots [of N] n by (simp add: N_def)
    ultimately show ?thesis using st by (auto simp: lap_state_def Let_def N_def L_def)
  qed
  ultimately have "lap_state r p n (xs @ [x]) m'" by (simp add: lap_state_def Let_def N_def L_def)
  then show ?thesis using m'(1) by (intro exI [of _ m']) (simp add: post_def)
qed

lemma post_all_lap:
  assumes "ring_zones r p n t" and "ring_at (mem s) r p n 0 1" and "\<forall>x\<in>set xs. trb_type (snd (snd (snd x))) \<noteq> 0"
  shows "\<exists>m'. fold (post r t) xs s = s\<lparr>mem := m'\<rparr> \<and> lap_state r p n xs m'"
  using assms(3)
proof (induction xs rule: rev_induct)
  case Nil
  then show ?case
    using assms(1,2) by (intro exI [of _ "mem s"]) (simp add: lap_state_def Let_def lap_cycle_def ring_zones_def)
next
  case (snoc x xs)
  then obtain m' where "fold (post r t) xs s = s\<lparr>mem := m'\<rparr>" "lap_state r p n xs m'" by auto
  with post_lap [OF assms(1), of xs "s\<lparr>mem := m'\<rparr>" x] snoc.prems show ?case by auto
qed

text \<open>C20: Entries posted to a new ring are laid out in laps of \<open>max_index - 1\<close>: after any number of posts the
  last lap's worth of entries is in its slots in order, each stamped with the cycle bit of its lap, the
  last slot links back with the toggle flag and the cycle of the lap it closed, and the index and the cycle bit are those of the next entry.\<close>

theorem XhciRingAdd_laps:
  assumes "ring_zones r p n t" and "ring_at (mem s) r p n 0 1" and "\<forall>x\<in>set xs. trb_type (snd (snd (snd x))) \<noteq> 0"
    and "N = n - 1" and "L = length xs"
  shows "\<exists>m'. fold (post r t) xs s = s\<lparr>mem := m'\<rparr> \<and>
     ring_at m' r p n (L mod N) (lap_cycle N L) \<and>
     (\<forall>k<L. L \<le> k + N \<longrightarrow> load_trb m' (slot_of p (k mod N)) = stamp (lap_cycle N k) (xs ! k)) \<and>
     (N \<le> L \<longrightarrow> (\<exists>base. load_trb m' (slot_of p N) = XhciTrbLink base (lap_cycle N (L - L mod N - 1))))"
  using post_all_lap [OF assms(1,2,3)] by (simp add: lap_state_def Let_def assms(4,5))

definition ring_example :: mem where
  "ring_example = store32 (store32 (store32 (store64 (\<lambda>_. 0) 0x1000 0x2000) 0x1008 0) 0x100C 4) 0x1010 1"

theorem XhciRingAdd_laps_witness:
  "\<exists>m'. fold (post 0x1000 0x3000) [(1, 0, 0, 0x400), (2, 0, 0, 0x400), (3, 0, 0, 0x400), (4, 0, 0, 0x401)] (vmm_example\<lparr>mem := ring_example\<rparr>) =
       vmm_example\<lparr>mem := m'\<rparr> \<and>
     ring_index m' 0x1000 = 1 \<and> ring_cycle m' 0x1000 = 0 \<and>
     load_trb m' 0x2000 = (4, 0, 0, 0x400) \<and> load_trb m' 0x2010 = (2, 0, 0, 0x401)"
proof -
  let ?xs = "[(1, 0, 0, 0x400), (2, 0, 0, 0x400), (3, 0, 0, 0x400), (4, 0, 0, 0x401)] :: XhciTrb list"
  let ?s = "vmm_example\<lparr>mem := ring_example\<rparr>"
  have z: "ring_zones 0x1000 0x2000 4 0x3000"
    using apart_by_nat [of "0x1000" 24 "0x2000" 64] apart_by_nat [of "0x3000" 16 "0x1000" 24] apart_by_nat [of "0x3000" 16 "0x2000" 64]
    by (simp add: ring_zones_def)
  have at: "ring_at (mem ?s) 0x1000 0x2000 4 0 1"
    using ring_words_apart [of "0x1000"] apart_offsets [of 0 8 12 4 "0x1000"] apart_offsets [of 8 4 12 4 "0x1000"]
    by (simp add: ring_at_def ring_fields ring_example_def mem_simps)
  have ty: "\<forall>x\<in>set ?xs. trb_type (snd (snd (snd x))) \<noteq> 0" by (simp add: trb_type_def bf_get_def)
  have c: "stamp (lap_cycle 3 3) (4, 0, 0, 0x401) = (4, 0, 0, 0x400)" "stamp (lap_cycle 3 1) (2, 0, 0, 0x400) = (2, 0, 0, 0x401)"
    by (simp_all add: stamp_def lap_cycle_def trb_set_cycle_def bf_set_def)
  from XhciRingAdd_laps [OF z at ty, of 3 4] obtain m' where m': "fold (post 0x1000 0x3000) ?xs ?s = ?s\<lparr>mem := m'\<rparr>"
    "ring_at m' 0x1000 0x2000 4 1 (lap_cycle 3 4)"
    "\<forall>k<4. 4 \<le> k + 3 \<longrightarrow> load_trb m' (slot_of 0x2000 (k mod 3)) = stamp (lap_cycle 3 k) (?xs ! k)" by auto
  have "load_trb m' 0x2000 = (4, 0, 0, 0x400)" using m'(3) [rule_format, of 3] c by (simp add: slot_of_def)
  moreover have "load_trb m' 0x2010 = (2, 0, 0, 0x401)" using m'(3) [rule_format, of 1] c by (simp add: slot_of_def)
  ultimately show ?thesis using m'(1,2) by (auto simp: ring_at_def lap_cycle_def)
qed

text \<open>\<open>XhciRingCreate\<close> allocates \<open>size\<close> entries but records the entries of whole pages: the recorded number is
  never below \<open>size\<close>, and equals it exactly for multiples of 256.\<close>

theorem ring_entries_rounds_up:
  assumes "unat sz \<le> 2 ^ 20"
  shows "unat (ring_entries sz) = 256 * ((unat sz + 255) div 256) \<and> unat sz \<le> unat (ring_entries sz) \<and>
    (unat (ring_entries sz) = unat sz \<longleftrightarrow> 256 dvd unat sz)"
proof -
  have 1: "unat (sz * 16 + 0xFFF) = unat sz * 16 + 4095"
    using assms by (simp add: unat_add_u64 unat_mult_u64)
  define pg where "pg = (unat sz + 255) div 256"
  have "(unat sz * 16 + 4095) div 16 = unat sz + 255" by simp
  then have "(unat sz * 16 + 4095) div 4096 = pg" using div_mult2_eq [of "unat sz * 16 + 4095" 16 256] by (simp add: pg_def)
  moreover have lim: "pg \<le> 4096" using assms by (simp add: pg_def)
  ultimately have "unat (ucast ((sz * 16 + 0xFFF) div PAGE_SIZE) :: u32) = pg"
    using 1 by (simp add: PAGE_SIZE_def unsigned_ucast_eq unat_div take_bit_nat_eq_self)
  then have "unat ((ucast ((sz * 16 + 0xFFF) div PAGE_SIZE) :: u32) * 0x1000) = pg * 4096"
    using lim by (simp add: unat_word_ariths)
  then have e: "unat (ring_entries sz) = pg * 256"
    using lim by (simp add: ring_entries_def unsigned_ucast_eq unat_div unat_ucast_up take_bit_nat_eq_self)
  have le: "unat sz \<le> pg * 256"
    using div_mult_mod_eq [of "unat sz + 255" 256] mod_less_divisor [of 256 "unat sz + 255"] unfolding pg_def by linarith
  have up: "pg * 256 = unat sz" if "256 dvd unat sz"
    using that unfolding pg_def by (elim dvdE) simp
  have down: "256 dvd unat sz" if "pg * 256 = unat sz" using that by (metis dvd_triv_right)
  have "256 * ((unat sz + 255) div 256) = pg * 256" by (simp only: pg_def mult.commute)
  then show ?thesis using e le up down by (simp only:) blast
qed

theorem ring_entries_rounds_up_witness: "unat (ring_entries 256) = 256 \<and> unat (ring_entries 16) \<noteq> 16"
  using ring_entries_rounds_up [of 256] ring_entries_rounds_up [of 16] by simp

end
