(* ===== verification/Xhci.thy ===== *)
theory Xhci
  imports Pci XhciRing
begin

text \<open>
  The host controller driver of \<open>dev/usb/xhci.c\<close>: probing, reset, the device context array, the
  interrupters with their MSI-X table entry and the interrupt handler.  The registers the volatile
  structures of \<open>dev/usb/xhci.h\<close> describe are reached through the bus; the offsets are those the
  packed structures give.
\<close>

subsection \<open>Registers\<close>

definition cap_length :: addr where "cap_length = 0"
definition cap_hcs_params1 :: addr where "cap_hcs_params1 = 4"
definition cap_hcc_params1 :: addr where "cap_hcc_params1 = 16"
definition cap_doorbell_offset :: addr where "cap_doorbell_offset = 20"
definition cap_run_regs_off :: addr where "cap_run_regs_off = 24"

definition op_usb_command :: addr where "op_usb_command = 0"
definition op_usb_status :: addr where "op_usb_status = 4"
definition op_dcbaap_low :: addr where "op_dcbaap_low = 56"
definition op_dcbaap_high :: addr where "op_dcbaap_high = 60"
definition op_config :: addr where "op_config = 64"

text \<open>\<open>rt->interrupters[0].iman_r\<close>\<close>

definition rt_iman0 :: addr where "rt_iman0 = 32"

definition kUsbCmdRun :: u32 where "kUsbCmdRun = 1"
definition kUsbCmdHcReset :: u32 where "kUsbCmdHcReset = push_bit 1 1"
definition kUsbStsHostSystemError :: u32 where "kUsbStsHostSystemError = push_bit 2 1"
definition kUsbStsEventInterrupt :: u32 where "kUsbStsEventInterrupt = push_bit 3 1"
definition kUsbStsControllerNotReady :: u32 where "kUsbStsControllerNotReady = push_bit 11 1"
definition kUsbStsHcError :: u32 where "kUsbStsHcError = push_bit 12 1"
definition kImanInterruptPending :: u32 where "kImanInterruptPending = 1"

definition CMD_RING_SIZE :: u64 where "CMD_RING_SIZE = 256"
definition EVT_RING_SIZE :: u64 where "EVT_RING_SIZE = 256"

subsection \<open>The controller's data\<close>

text \<open>\<open>x_pci\<close> is the row of the loaded driver whose device the pointer \<open>pci\<close> names.\<close>

record XhciDevice =
  x_pci :: nat
  x_mmio :: addr
  x_cap :: addr
  x_op :: addr
  x_rt :: addr
  x_db :: addr
  x_xcap :: addr
  x_dcbaap :: u64
  x_interrupter_bitmap_size :: u64
  x_interrupter_bitmap :: addr
  x_interrupter :: addr
  x_cmd :: addr
  x_evt :: addr

definition sizeof_XhciDevice :: u32 where "sizeof_XhciDevice = 104"

record XhciInterrupter =
  i_index :: u8
  i_vector :: u8
  i_erst :: addr
  i_ring :: addr

definition sizeof_XhciInterrupter :: u32 where "sizeof_XhciInterrupter = 24"
definition sizeof_XhciErstEntry :: u32 where "sizeof_XhciErstEntry = 16"

record 'd xhci_state = "'d pci_state" +
  xhci_at :: "addr \<Rightarrow> XhciDevice"
  interrupter_at :: "addr \<Rightarrow> XhciInterrupter"

definition set_xhci :: "addr \<Rightarrow> (XhciDevice \<Rightarrow> XhciDevice) \<Rightarrow> ('d, 'a) xhci_state_scheme \<Rightarrow> ('d, 'a) xhci_state_scheme" where
  "set_xhci x f s = s\<lparr>xhci_at := (xhci_at s)(x := f (xhci_at s x))\<rparr>"

text \<open>The accesses to registers as operations on the whole state.\<close>

definition reg_read :: "'d bus \<Rightarrow> addr \<Rightarrow> ('d, 'a) apic_state_scheme \<Rightarrow> u32 \<times> ('d, 'a) apic_state_scheme" where
  "reg_read io a s = (let (v, d) = volatile_read32 io a (dev s) in (v, s\<lparr>dev := d\<rparr>))"

definition reg_write :: "'d bus \<Rightarrow> addr \<Rightarrow> u32 \<Rightarrow> ('d, 'a) apic_state_scheme \<Rightarrow> ('d, 'a) apic_state_scheme" where
  "reg_write io a v s = s\<lparr>dev := volatile_write32 io a v (dev s)\<rparr>"

definition reg_update :: "'d bus \<Rightarrow> addr \<Rightarrow> (u32 \<Rightarrow> u32) \<Rightarrow> ('d, 'a) apic_state_scheme \<Rightarrow> ('d, 'a) apic_state_scheme" where
  "reg_update io a f s = s\<lparr>dev := volatile_update32 io a f (dev s)\<rparr>"

subsection \<open>Probing\<close>

definition XhciTryProbe :: "PciDevice \<Rightarrow> bool" where
  "XhciTryProbe dv \<longleftrightarrow> vendor_id dv = 0x1B36 \<and> device_id dv = 0x000D \<or> vendor_id dv = 0x8086 \<and> device_id dv = 0x22B5"

subsection \<open>Interrupters\<close>

definition INTERRUPTER_BITMAP_GET :: "mem \<Rightarrow> addr \<Rightarrow> nat \<Rightarrow> bool" where
  "INTERRUPTER_BITMAP_GET m bm i \<longleftrightarrow> load8 m (bm + of_nat (i div 8)) AND push_bit (i mod 8) 1 \<noteq> 0"

definition INTERRUPTER_BITMAP_SET :: "addr \<Rightarrow> nat \<Rightarrow> mem \<Rightarrow> mem" where
  "INTERRUPTER_BITMAP_SET bm i m = store8 m (bm + of_nat (i div 8)) (load8 m (bm + of_nat (i div 8)) OR push_bit (i mod 8) 1)"

text \<open>\<open>for (i = 0; i < interrupter_bitmap_size; i++)\<close> up to the first clear bit.\<close>

definition free_interrupter :: "mem \<Rightarrow> XhciDevice \<Rightarrow> nat option" where
  "free_interrupter m x = find (\<lambda>i. \<not> INTERRUPTER_BITMAP_GET m (x_interrupter_bitmap x) i) [0..<unat (x_interrupter_bitmap_size x)]"

definition XCAP_ID :: "u32 \<Rightarrow> u32" where "XCAP_ID v = v AND 0xFF"
definition XCAP_NEXT :: "u32 \<Rightarrow> u32" where "XCAP_NEXT v = push_bit 2 (drop_bit 8 v AND 0xFF)"

text \<open>\<open>XhciCapMsix\<close>: \<open>off\<close> is the upper 29 bits.\<close>

definition msix_off :: "u32 \<Rightarrow> u32" where "msix_off raw = drop_bit 3 raw"

text \<open>
  The walk over the capabilities; the result is the address of the MSI-X table, 0 when there is no
  such capability.  The loop ends only if it meets that capability or one whose next pointer is 0.
\<close>

partial_function (option) find_msix ::
    "'d bus \<Rightarrow> PciDevice \<Rightarrow> addr \<Rightarrow> u32 \<Rightarrow> u32 \<Rightarrow> 'd \<Rightarrow> (addr \<times> 'd) option" where
  "find_msix io pdev mmio cap_address capability d =
     (if XCAP_ID capability = 0x11
      then (let (raw, d) = PciRead32 io pdev (ucast (cap_address + 4)) d;
                d = PciWrite32 io pdev (ucast cap_address) (capability OR 0x8000) d
            in Some (mmio + ucast (msix_off raw), d))
      else if XCAP_NEXT capability = 0 then Some (0, d)
      else (let cap_address = cap_address + XCAP_NEXT capability;
                (capability, d) = PciRead32 io pdev (ucast cap_address) d
            in find_msix io pdev mmio cap_address capability d))"

definition locate_msix :: "'d bus \<Rightarrow> PciDevice \<Rightarrow> addr \<Rightarrow> 'd \<Rightarrow> (addr \<times> 'd) option" where
  "locate_msix io pdev mmio d =
     (let (v, d) = PciRead32 io pdev 0x34 d;
          cap_address = v AND 0xFF;
          (capability, d) = PciRead32 io pdev (ucast cap_address) d
      in find_msix io pdev mmio cap_address capability d)"

text \<open>\<open>XhciMsixEntry\<close>: address at 0, data at 8, the mask bit in the word at 12.\<close>

definition set_msix_entry :: "'d bus \<Rightarrow> addr \<Rightarrow> nat \<Rightarrow> int \<Rightarrow> 'd \<Rightarrow> 'd" where
  "set_msix_entry io msix i irq d =
     (let ent = msix + 16 * of_nat i;
          d = volatile_write64 io ent 0xFEE00000 d;
          d = volatile_write32 io (ent + 8) (word_of_int irq) d
      in volatile_update32 io (ent + 12) (bf_set 0 1 0) d)"

definition XhciInterrupterCreate ::
    "'d bus \<Rightarrow> addr \<Rightarrow> addr \<Rightarrow> addr \<Rightarrow> ('d, 'a) xhci_state_scheme \<Rightarrow> (addr \<times> ('d, 'a) xhci_state_scheme) option" where
  "XhciInterrupterCreate io xhci handler data s =
     (let x = xhci_at s xhci
      in case free_interrupter (mem s) x of None \<Rightarrow> Some (0, s) | Some i \<Rightarrow>
        (let s = s\<lparr>mem := INTERRUPTER_BITMAP_SET (x_interrupter_bitmap x) i (mem s)\<rparr>;
             (irq, s) = ApicAllocateSoftwareIrq s
         in if irq = -1 then Some (0, s)
            else do {
              s \<leftarrow> ApicRegisterIrqHandler io (word_of_int irq) handler data s;
              (_, s) \<leftarrow> ApicEnableInterrupt io (word_of_int irq) s;
              (msix, d) \<leftarrow> locate_msix io (drv_device (kLoadedPciDrivers s (x_pci x))) (x_mmio x) (dev s);
              let s = s\<lparr>dev := d\<rparr>;
              if msix = 0 then Some (0, s)
              else do {
                let s = s\<lparr>dev := set_msix_entry io msix i irq (dev s)\<rparr>;
                (erst, s) \<leftarrow> kmalloc sizeof_XhciErstEntry s;
                (ring, s) \<leftarrow> XhciRingCreate EVT_RING_SIZE s;
                let m = store64 (mem s) erst (XhciRingGetPhysicalAddress ring s);
                let s = s\<lparr>mem := store32 m (erst + 8) (ucast (XhciRingSize ring m))\<rparr>;
                (interrupter, s) \<leftarrow> kmalloc sizeof_XhciInterrupter s;
                Some (interrupter, s\<lparr>interrupter_at := (interrupter_at s)(interrupter :=
                  \<lparr>i_index = of_nat i, i_vector = word_of_int irq, i_erst = erst, i_ring = ring\<rparr>)\<rparr>) } }))"

subsection \<open>Initialisation\<close>

text \<open>\<open>while (usb_status & ControllerNotReady) ComPrint(..., usb_status)\<close>: two reads in each round.\<close>

partial_function (option) wait_ready :: "'d bus \<Rightarrow> addr \<Rightarrow> 'd \<Rightarrow> 'd option" where
  "wait_ready io sts d =
     (let (v, d) = volatile_read32 io sts d
      in if v AND kUsbStsControllerNotReady \<noteq> 0 then wait_ready io sts (snd (volatile_read32 io sts d)) else Some d)"

text \<open>The register windows from the capability registers.\<close>

definition locate_registers :: "'d bus \<Rightarrow> addr \<Rightarrow> addr \<Rightarrow> ('d, 'a) xhci_state_scheme \<Rightarrow> ('d, 'a) xhci_state_scheme" where
  "locate_registers io base x s =
     (let (len, d) = volatile_read8 io (base + cap_length) (dev s);
          s = s\<lparr>dev := d\<rparr>;
          (rt, s) = reg_read io (base + cap_run_regs_off) s;
          (db, s) = reg_read io (base + cap_doorbell_offset) s;
          (hcc, s) = reg_read io (base + cap_hcc_params1) s
      in set_xhci x (\<lambda>xd. xd\<lparr>x_mmio := base, x_cap := base, x_op := base + ucast len, x_rt := base + ucast rt,
           x_db := base + ucast db, x_xcap := base + ucast (push_bit 2 (drop_bit 16 hcc AND 0xFFF))\<rparr>) s)"

definition reset_controller :: "'d bus \<Rightarrow> addr \<Rightarrow> ('d, 'a) xhci_state_scheme \<Rightarrow> ('d, 'a) xhci_state_scheme option" where
  "reset_controller io x s = do {
     let opr = x_op (xhci_at s x);
     let s = reg_update io (opr + op_usb_command) (\<lambda>v. v AND NOT kUsbCmdRun) s;
     let s = reg_update io (opr + op_usb_command) (\<lambda>v. v OR kUsbCmdHcReset) s;
     d \<leftarrow> wait_ready io (opr + op_usb_status) (dev s);
     Some (s\<lparr>dev := d\<rparr>) }"

definition setup_contexts :: "'d bus \<Rightarrow> addr \<Rightarrow> ('d, 'a) xhci_state_scheme \<Rightarrow> ('d, 'a) xhci_state_scheme option" where
  "setup_contexts io x s = do {
     let opr = x_op (xhci_at s x);
     let cap = x_cap (xhci_at s x);
     let (hcc, s) = reg_read io (cap + cap_hcc_params1) s;
     let s = reg_write io (opr + op_config) (hcc AND 0xFF) s;
     let (hcs, s) = reg_read io (cap + cap_hcs_params1) s;
     (dcbaap, s) \<leftarrow> kmalloc (ucast (ucast (hcs AND 0xFF) * 8 :: u64)) s;
     let phys = MmGetPhysicalAddress s dcbaap;
     let s = set_xhci x (\<lambda>xd. xd\<lparr>x_dcbaap := phys\<rparr>) s;
     let s = reg_write io (opr + op_dcbaap_low) (ucast phys) s;
     Some (reg_write io (opr + op_dcbaap_high) (ucast (drop_bit 32 phys)) s) }"

definition XhciInitialize ::
    "'d bus \<Rightarrow> addr \<Rightarrow> nat \<Rightarrow> ('d, 'a) xhci_state_scheme \<Rightarrow> ('d, 'a) xhci_state_scheme option" where
  "XhciInitialize io host_irq row s = do {
     let pdev = drv_device (kLoadedPciDrivers s row);
     let d = PciMaybeEnableMemoryAccess io pdev (PciMaybeEnableBusMastering io pdev (dev s));
     let (mmio_base, d) = read_window io pdev 0x10 d;
     s \<leftarrow> MmMapMemory mmio_base mmio_base (s\<lparr>dev := d\<rparr>);
     (x, s) \<leftarrow> kmalloc sizeof_XhciDevice s;
     let s = s\<lparr>kLoadedPciDrivers := (kLoadedPciDrivers s)(row := (kLoadedPciDrivers s row)\<lparr>drv_data := x\<rparr>)\<rparr>;
     let s = set_xhci x (\<lambda>xd. xd\<lparr>x_pci := row\<rparr>) s;
     let s = locate_registers io mmio_base x s;
     s \<leftarrow> reset_controller io x s;
     s \<leftarrow> setup_contexts io x s;
     (cmd, s) \<leftarrow> XhciRingCreate CMD_RING_SIZE s;
     let s = set_xhci x (\<lambda>xd. xd\<lparr>x_cmd := cmd\<rparr>) s;
     let (hcs, s) = reg_read io (x_cap (xhci_at s x) + cap_hcs_params1) s;
     let n = (ucast (drop_bit 8 hcs AND 0x7FF) :: u64);
     let s = set_xhci x (\<lambda>xd. xd\<lparr>x_interrupter_bitmap_size := n\<rparr>) s;
     (bm, s) \<leftarrow> kmalloc (ucast (n div 8)) s;
     let s = set_xhci x (\<lambda>xd. xd\<lparr>x_interrupter_bitmap := bm\<rparr>) (s\<lparr>mem := RtZeroMemory (mem s) bm (n div 8)\<rparr>);
     (i, s) \<leftarrow> XhciInterrupterCreate io x host_irq x s;
     Some (set_xhci x (\<lambda>xd. xd\<lparr>x_interrupter := i\<rparr>) s) }"

subsection \<open>The interrupt\<close>

text \<open>The handler returns the two error bits it reads and prints.\<close>

definition XhciHostIrq :: "'d bus \<Rightarrow> addr \<Rightarrow> ('d, 'a) xhci_state_scheme \<Rightarrow> (bool \<times> bool) \<times> ('d, 'a) xhci_state_scheme" where
  "XhciHostIrq io data s =
     (let x = xhci_at s data;
          s = reg_update io (x_op x + op_usb_status) (\<lambda>v. v OR kUsbStsEventInterrupt) s;
          s = reg_update io (x_rt x + rt_iman0) (\<lambda>v. v OR kImanInterruptPending) s;
          (v, s) = reg_read io (x_op x + op_usb_status) s;
          (w, s) = reg_read io (x_op x + op_usb_status) s
      in ((v AND kUsbStsHcError \<noteq> 0, w AND kUsbStsHostSystemError \<noteq> 0), s))"

definition kXhciDriver :: "'d bus \<Rightarrow> addr \<Rightarrow> ('d, 'a) xhci_state_scheme driver_ops" where
  "kXhciDriver io host_irq = \<lparr>ops_name = ''USB xHCI Controller'', try_probe = XhciTryProbe,
     initialize = XhciInitialize io host_irq\<rparr>"

text \<open>The drivers \<open>dev/pci.c\<close> tries, in order.\<close>

definition kPciDrivers :: "'d bus \<Rightarrow> addr \<Rightarrow> ('d, 'a) xhci_state_scheme driver_ops list" where
  "kPciDrivers io host_irq = [kXhciDriver io host_irq, kCherryTrailDriver io]"

subsection \<open>Properties\<close>

text \<open>on a function whose first capability is MSI-X, the walk stops there, takes the table offset shifted right by
  three as the distance of the table, and sets bit 15 of the capability word; the enable bit of the
  capability, bit 31 of that word, keeps its value.\<close>

theorem find_msix_enable:
  assumes "config_reads io cfg" and "config_writes io cfg (pci_address pdev (ucast a))"
    and "ucast a AND (3 :: u8) = 0" and "(ucast (a + 4) :: u8) AND 3 = 0" and "XCAP_ID capability = 0x11"
  shows "\<exists>d'. find_msix io pdev mmio a capability d =
       Some (mmio + ucast (drop_bit 3 (cfg d (pci_address pdev (ucast (a + 4))))), d') \<and>
     cfg d' = (cfg d)(pci_address pdev (ucast a) := capability OR 0x8000) \<and>
     (bit (cfg d' (pci_address pdev (ucast a))) 31 \<longleftrightarrow> bit capability 31)"
proof -
  obtain raw d1 where r: "PciRead32 io pdev (ucast (a + 4)) d = (raw, d1)" by fastforce
  note rd = PciRead32_config [OF assms(1,4), of pdev d]
  let ?d = "PciWrite32 io pdev (ucast a) (capability OR 0x8000) d1"
  have "find_msix io pdev mmio a capability d = Some (mmio + ucast (msix_off raw), ?d)"
    using assms(5) by (subst find_msix.simps) (simp add: r)
  moreover have "cfg ?d = (cfg d)(pci_address pdev (ucast a) := capability OR 0x8000)"
    using PciWrite32_config [OF assms(2,3), of "capability OR 0x8000" d1] rd(2) r by simp
  moreover have "bit (capability OR 0x8000) 31 \<longleftrightarrow> bit capability 31"
    by (simp add: bit_or_iff)
  ultimately show ?thesis using rd(1) r by (simp add: msix_off_def)
qed

theorem find_msix_enable_witness:
  "\<exists>d'. find_msix config_bus (pci_device_at 0 3 0) 0xFEB00000 0x90 0x00070011 (0, \<lambda>_. 0x3000) = Some (0xFEB00600, d') \<and>
     snd d' 0x80001890 = 0x00078011"
proof -
  have a: "pci_address (pci_device_at 0 3 0) 0x90 = 0x80001890" by (simp add: pci_address_def pci_device_at_def)
  have "XCAP_ID 0x00070011 = 0x11" by (simp add: XCAP_ID_def)
  from find_msix_enable [OF config_bus_ok, of "0x90" "0x00070011" "pci_device_at 0 3 0" "0xFEB00000" "(0, \<lambda>_. 0x3000)"] this a
  show ?thesis by auto
qed

end
