(* ===== verification/Acpi.thy ===== *)
theory Acpi
  imports Xhci
begin

text \<open>
  \<open>cpu/acpi.c\<close> and \<open>cpu/acpi.h\<close>: the walk over the extended system description table, the start of the
  interrupt controllers and of the PCI enumeration, and the services the ACPI interpreter asks of its
  host.  The address of the root pointer comes from the boot loader and is an argument; the
  interpreter itself is not started (\<open>ACPI_USE_LAI\<close> is not defined by the build).
\<close>

subsection \<open>Tables\<close>

definition ACPI_MADT_ID :: u32 where "ACPI_MADT_ID = 0x43495041"
definition ACPI_FADT_ID :: u32 where "ACPI_FADT_ID = 0x50434146"
definition ACPI_HPET_ID :: u32 where "ACPI_HPET_ID = 0x54455048"
definition ACPI_MCFG_ID :: u32 where "ACPI_MCFG_ID = 0x4746434D"
definition ACPI_DSDT_ID :: u32 where "ACPI_DSDT_ID = 0x54445344"

text \<open>Fields by their offsets in the packed structures.\<close>

definition rsdp_xsdt_address :: "mem \<Rightarrow> addr \<Rightarrow> addr" where "rsdp_xsdt_address m rsdp = load64 m (rsdp + 24)"
definition header_signature :: "mem \<Rightarrow> addr \<Rightarrow> u32" where "header_signature m h = load32 m h"
definition header_length :: "mem \<Rightarrow> addr \<Rightarrow> u32" where "header_length m h = load32 m (h + 4)"
definition fadt_x_dsdt :: "mem \<Rightarrow> addr \<Rightarrow> u64" where "fadt_x_dsdt m f = load64 m (f + 140)"

text \<open>\<open>int length = (xsdt->header.length - sizeof(AcpiTableHeader)) / sizeof(uint64_t)\<close>, in 64 bits and then cut.\<close>

definition xsdt_count :: "mem \<Rightarrow> addr \<Rightarrow> int" where
  "xsdt_count m xsdt = sint (ucast ((ucast (header_length m xsdt) - 36 :: u64) div 8) :: u32)"

definition xsdt_tables :: "mem \<Rightarrow> addr \<Rightarrow> addr list" where
  "xsdt_tables m xsdt = map (\<lambda>i. load64 m (xsdt + 36 + 8 * of_nat i)) [0..<nat (xsdt_count m xsdt)]"

record acpi_tables =
  t_madt :: addr
  t_fadt :: addr
  t_hpet :: addr
  t_mcfg :: addr

definition note_table :: "mem \<Rightarrow> addr \<Rightarrow> acpi_tables \<Rightarrow> acpi_tables" where
  "note_table m h t =
     (let sig = header_signature m h
      in if sig = ACPI_MADT_ID then t\<lparr>t_madt := h\<rparr> else if sig = ACPI_FADT_ID then t\<lparr>t_fadt := h\<rparr>
         else if sig = ACPI_HPET_ID then t\<lparr>t_hpet := h\<rparr> else if sig = ACPI_MCFG_ID then t\<lparr>t_mcfg := h\<rparr> else t)"

definition find_tables :: "mem \<Rightarrow> addr \<Rightarrow> acpi_tables" where
  "find_tables m xsdt = fold (note_table m) (xsdt_tables m xsdt) \<lparr>t_madt = 0, t_fadt = 0, t_hpet = 0, t_mcfg = 0\<rparr>"

definition AcpiInitialize ::
    "'d bus \<Rightarrow> addr \<Rightarrow> addr \<Rightarrow> ('d, 'a) xhci_state_scheme \<Rightarrow> ('d, 'a) xhci_state_scheme option" where
  "AcpiInitialize io host_irq rsdp s = do {
     let t = find_tables (mem s) (rsdp_xsdt_address (mem s) rsdp);
     s \<leftarrow> ApicInitialize io (t_madt t) s;
     PciInitialize io (kPciDrivers io host_irq) (t_mcfg t) s }"

subsection \<open>Memory for the interpreter\<close>

definition laihost_malloc :: "u64 \<Rightarrow> 'a heap_state_scheme \<Rightarrow> (addr \<times> 'a heap_state_scheme) option" where
  "laihost_malloc sz s = kmalloc (ucast sz) s"

definition laihost_free :: "addr \<Rightarrow> u64 \<Rightarrow> 'a heap_state_scheme \<Rightarrow> 'a heap_state_scheme option" where
  "laihost_free p sz s = kfree p s"

definition laihost_realloc :: "addr \<Rightarrow> u64 \<Rightarrow> u64 \<Rightarrow> 'a heap_state_scheme \<Rightarrow> (addr \<times> 'a heap_state_scheme) option" where
  "laihost_realloc p sz old_size s =
     (if sz = old_size then Some (p, s)
      else if sz = 0 then do { s \<leftarrow> kfree p s; Some (0, s) }
      else if p = 0 then kmalloc (ucast sz) s
      else do {
        (new_ptr, s) \<leftarrow> kmalloc (ucast sz) s;
        let s = s\<lparr>mem := RtCopyMemory (mem s) new_ptr p old_size\<rparr>;
        s \<leftarrow> kfree p s;
        Some (new_ptr, s) })"

partial_function (option) map_pages :: "addr \<Rightarrow> u64 \<Rightarrow> u64 \<Rightarrow> 'a vmm_scheme \<Rightarrow> 'a vmm_scheme option" where
  "map_pages base cnt i s =
     (if i < cnt then do { s \<leftarrow> MmMapMemory (base + i) (base + i) s; map_pages base cnt (i + PAGE_SIZE) s }
      else Some s)"

definition laihost_map :: "addr \<Rightarrow> u64 \<Rightarrow> 'a vmm_scheme \<Rightarrow> (addr \<times> 'a vmm_scheme) option" where
  "laihost_map base cnt s = do {
     let base = base AND NOT 0xFFF;
     s \<leftarrow> map_pages base cnt 0 s;
     Some (base, s) }"

text \<open>Unmapping and sleeping only print.\<close>

definition laihost_unmap :: "addr \<Rightarrow> u64 \<Rightarrow> 's \<Rightarrow> 's" where "laihost_unmap base cnt s = s"
definition laihost_sleep :: "u64 \<Rightarrow> 's \<Rightarrow> 's" where "laihost_sleep ms s = s"

subsection \<open>Finding a table\<close>

fun scan_tables :: "mem \<Rightarrow> u32 \<Rightarrow> u64 \<Rightarrow> addr list \<Rightarrow> addr option" where
  "scan_tables m sig index [] = None"
| "scan_tables m sig index (h # hs) =
     (if header_signature m h = sig then (if index = 0 then Some h else scan_tables m sig (index - 1) hs)
      else scan_tables m sig index hs)"

definition laihost_scan :: "addr \<Rightarrow> u32 \<Rightarrow> u64 \<Rightarrow> mem \<Rightarrow> addr" where
  "laihost_scan rsdp sig index m =
     (let tables = xsdt_tables m (rsdp_xsdt_address m rsdp)
      in case scan_tables m sig index tables of Some h \<Rightarrow> h
         | None \<Rightarrow> if sig = ACPI_DSDT_ID
             then (case find (\<lambda>h. header_signature m h = ACPI_FADT_ID) tables of Some f \<Rightarrow> fadt_x_dsdt m f | None \<Rightarrow> 0)
             else 0)"

subsection \<open>Ports and configuration space\<close>

definition laihost_outb :: "'d bus \<Rightarrow> u16 \<Rightarrow> u8 \<Rightarrow> 'd \<Rightarrow> 'd" where "laihost_outb io port v d = out8 io port v d"
definition laihost_outw :: "'d bus \<Rightarrow> u16 \<Rightarrow> u16 \<Rightarrow> 'd \<Rightarrow> 'd" where "laihost_outw io port v d = out16 io port v d"
definition laihost_outd :: "'d bus \<Rightarrow> u16 \<Rightarrow> u32 \<Rightarrow> 'd \<Rightarrow> 'd" where "laihost_outd io port v d = out32 io port v d"
definition laihost_inb :: "'d bus \<Rightarrow> u16 \<Rightarrow> 'd \<Rightarrow> u8 \<times> 'd" where "laihost_inb io port d = in8 io port d"
definition laihost_inw :: "'d bus \<Rightarrow> u16 \<Rightarrow> 'd \<Rightarrow> u16 \<times> 'd" where "laihost_inw io port d = in16 io port d"
definition laihost_ind :: "'d bus \<Rightarrow> u16 \<Rightarrow> 'd \<Rightarrow> u32 \<times> 'd" where "laihost_ind io port d = in32 io port d"

definition laihost_pci_readb :: "'d bus \<Rightarrow> u16 \<Rightarrow> u8 \<Rightarrow> u8 \<Rightarrow> u8 \<Rightarrow> u16 \<Rightarrow> 'd \<Rightarrow> u8 \<times> 'd" where
  "laihost_pci_readb io sg b dv f offset d = PciRead8 io (pci_device_at b dv f) (ucast offset) d"
definition laihost_pci_readw :: "'d bus \<Rightarrow> u16 \<Rightarrow> u8 \<Rightarrow> u8 \<Rightarrow> u8 \<Rightarrow> u16 \<Rightarrow> 'd \<Rightarrow> u16 \<times> 'd" where
  "laihost_pci_readw io sg b dv f offset d = PciRead16 io (pci_device_at b dv f) (ucast offset) d"
definition laihost_pci_readd :: "'d bus \<Rightarrow> u16 \<Rightarrow> u8 \<Rightarrow> u8 \<Rightarrow> u8 \<Rightarrow> u16 \<Rightarrow> 'd \<Rightarrow> u32 \<times> 'd" where
  "laihost_pci_readd io sg b dv f offset d = PciRead32 io (pci_device_at b dv f) (ucast offset) d"
definition laihost_pci_writeb :: "'d bus \<Rightarrow> u16 \<Rightarrow> u8 \<Rightarrow> u8 \<Rightarrow> u8 \<Rightarrow> u16 \<Rightarrow> u8 \<Rightarrow> 'd \<Rightarrow> 'd" where
  "laihost_pci_writeb io sg b dv f offset v d = PciWrite8 io (pci_device_at b dv f) (ucast offset) v d"
definition laihost_pci_writew :: "'d bus \<Rightarrow> u16 \<Rightarrow> u8 \<Rightarrow> u8 \<Rightarrow> u8 \<Rightarrow> u16 \<Rightarrow> u16 \<Rightarrow> 'd \<Rightarrow> 'd" where
  "laihost_pci_writew io sg b dv f offset v d = PciWrite16 io (pci_device_at b dv f) (ucast offset) v d"
definition laihost_pci_writed :: "'d bus \<Rightarrow> u16 \<Rightarrow> u8 \<Rightarrow> u8 \<Rightarrow> u8 \<Rightarrow> u16 \<Rightarrow> u32 \<Rightarrow> 'd \<Rightarrow> 'd" where
  "laihost_pci_writed io sg b dv f offset v d = PciWrite32 io (pci_device_at b dv f) (ucast offset) v d"

subsection \<open>Properties\<close>

lemma scan_tables_nth:
  "scan_tables m sig index hs =
     (let ts = filter (\<lambda>h. header_signature m h = sig) hs
      in if unat index < length ts then Some (ts ! unat index) else None)"
proof (induction hs arbitrary: index)
  case (Cons h hs)
  show ?case
  proof (cases "header_signature m h = sig \<and> index \<noteq> 0")
    case True
    then have "unat index = Suc (unat (index - 1))"
      using unat_sub_u64 [of 1 index] unat_gt_0 [of index] by simp
    with True Cons.IH [of "index - 1"] show ?thesis by (simp add: Let_def)
  qed (use Cons.IH [of index] in \<open>auto simp: Let_def\<close>)
qed simp

text \<open>\<open>laihost_scan\<close> returns the table with the given number among those of the XSDT with that signature; the DSDT,
  which the XSDT does not list, is found through the first FADT; otherwise the result is the null pointer.\<close>

theorem laihost_scan_finds:
  assumes "tables = xsdt_tables m (rsdp_xsdt_address m rsdp)" and "ts = filter (\<lambda>h. header_signature m h = sig) tables"
    and "fs = filter (\<lambda>h. header_signature m h = ACPI_FADT_ID) tables"
  shows "laihost_scan rsdp sig index m =
    (if unat index < length ts then ts ! unat index
     else if sig = ACPI_DSDT_ID \<and> fs \<noteq> [] then fadt_x_dsdt m (hd fs) else 0)"
proof -
  have "find P xs = (if filter P xs = [] then None else Some (hd (filter P xs)))" for P and xs :: "addr list"
    by (induction xs) auto
  then show ?thesis
    unfolding laihost_scan_def scan_tables_nth assms Let_def by simp
qed

definition acpi_memory :: mem where
  "acpi_memory = store64 (store32 (store64 (store64 (store32 (store32 (\<lambda>_. 0)
     0x2000 ACPI_FADT_ID) 0x1004 44) 0x1024 0x2000) 0x18 0x1000) 0x1000 0) 0x208C 0x5000"

theorem laihost_scan_finds_witness:
  "laihost_scan 0 ACPI_DSDT_ID 0 acpi_memory = 0x5000 \<and> laihost_scan 0 ACPI_FADT_ID 0 acpi_memory = 0x2000"
proof -
  have t: "xsdt_tables acpi_memory (rsdp_xsdt_address acpi_memory 0) = [0x2000]" by code_simp
  have h: "header_signature acpi_memory 0x2000 = ACPI_FADT_ID" "fadt_x_dsdt acpi_memory 0x2000 = 0x5000" by code_simp+
  show ?thesis
    using laihost_scan_finds [OF refl refl refl, where rsdp = 0 and m = acpi_memory and sig = ACPI_DSDT_ID and index = 0]
      laihost_scan_finds [OF refl refl refl, where rsdp = 0 and m = acpi_memory and sig = ACPI_FADT_ID and index = 0]
    by (simp add: t h ACPI_DSDT_ID_def ACPI_FADT_ID_def)
qed

end
