(* ===== verification/Serial.thy ===== *)
theory Serial
  imports Machine
begin

text \<open>
  \<open>utl/serial.c\<close>: the serial console.  \<open>ComPrint\<close> interprets a format string; the characters it emits
  are a function of the format and the arguments, and every character then goes through \<open>ComPutChar\<close>,
  which polls the line status register.  The boot loader's terminal is an argument.
\<close>

subsection \<open>Characters\<close>

partial_function (option) wait_transmit :: "'d bus \<Rightarrow> 'd \<Rightarrow> 'd option" where
  "wait_transmit io d =
     (let (v, d) = IoIn8 io (0x3F8 + 5) d in if v AND 0x20 = 0 then wait_transmit io d else Some d)"

definition ComPutChar :: "'d bus \<Rightarrow> (char \<Rightarrow> 'd \<Rightarrow> 'd) option \<Rightarrow> char \<Rightarrow> 'd \<Rightarrow> 'd option" where
  "ComPutChar io terminal c d = do {
     d \<leftarrow> wait_transmit io d;
     let d = IoOut8 io 0x3F8 (of_char c) d;
     Some (case terminal of None \<Rightarrow> d | Some write \<Rightarrow> write c d) }"

subsection \<open>Formats\<close>

text \<open>A variadic argument has the type it was passed with; reading it with another type is undefined (no result).\<close>

datatype com_arg = ArgStr string | ArgInt "32 word" | ArgU64 u64

text \<open>\<open>%d\<close>: the largest power of ten not above the number, then one digit per round.\<close>

function find_div :: "nat \<Rightarrow> nat \<Rightarrow> nat" where
  "find_div num dv = (if 0 < dv \<and> 10 \<le> num div dv then find_div num (dv * 10) else dv)"
  by pat_completeness auto
termination
proof (relation "measure (\<lambda>(num, dv). num - dv)")
  fix num dv :: nat
  assume a: "0 < dv \<and> 10 \<le> num div dv"
  then have "10 * dv \<le> num" by (metis div_le_mono2 less_eq_div_iff_mult_less_eq)
  with a show "((num, dv * 10), num, dv) \<in> measure (\<lambda>(num, dv). num - dv)" by auto
qed simp

fun emit_digits :: "nat \<Rightarrow> nat \<Rightarrow> string" where
  "emit_digits num dv = (if dv = 0 then [] else char_of (48 + num div dv) # emit_digits (num mod dv) (dv div 10))"

declare find_div.simps [simp del] emit_digits.simps [simp del]

text \<open>The negation of the smallest \<open>int\<close> is undefined (no result).\<close>

definition com_decimal :: "32 word \<Rightarrow> string option" where
  "com_decimal w = (let num = sint w
     in if num = - (2 ^ 31) then None
        else Some ((if num < 0 then ''-'' else []) @ emit_digits (nat \<bar>num\<bar>) (find_div (nat \<bar>num\<bar>) 1)))"

definition hex_digits :: string where "hex_digits = ''0123456789ABCDEF''"

definition com_hex :: "nat \<Rightarrow> 'w::len word \<Rightarrow> string" where
  "com_hex n v = map (\<lambda>i. hex_digits ! unat (drop_bit (4 * i) v AND 0xF)) (rev [0..<n])"

text \<open>
  The format loop.  After a percent sign the conversion letter selects the argument; \<open>%%\<close> prints a percent
  sign and leaves the pointer at the second one; any other letter is left to the next round.
\<close>

fun com_format :: "string \<Rightarrow> com_arg list \<Rightarrow> string option" where
  "com_format [] args = Some []"
| "com_format (c # r) args =
     (if c \<noteq> CHR ''%'' then map_option ((#) c) (com_format r args)
      else case r of [] \<Rightarrow> Some []
      | f # r' \<Rightarrow>
          if f = CHR ''s'' then (case args of ArgStr t # as \<Rightarrow> map_option ((@) t) (com_format r' as) | _ \<Rightarrow> None)
          else if f = CHR ''c'' then (case args of ArgInt w # as \<Rightarrow> map_option ((#) (char_of (unat w))) (com_format r' as) | _ \<Rightarrow> None)
          else if f = CHR ''d'' then (case args of ArgInt w # as \<Rightarrow>
              (case com_decimal w of Some t \<Rightarrow> map_option ((@) t) (com_format r' as) | None \<Rightarrow> None) | _ \<Rightarrow> None)
          else if f = CHR ''x'' then (case args of ArgInt w # as \<Rightarrow> map_option ((@) (com_hex 8 w)) (com_format r' as) | _ \<Rightarrow> None)
          else if f = CHR ''X'' then (case args of ArgU64 w # as \<Rightarrow> map_option ((@) (com_hex 16 w)) (com_format r' as) | _ \<Rightarrow> None)
          else if f = CHR ''%'' then map_option ((#) CHR ''%'') (com_format r args)
          else com_format r args)"

fun put_string :: "'d bus \<Rightarrow> (char \<Rightarrow> 'd \<Rightarrow> 'd) option \<Rightarrow> string \<Rightarrow> 'd \<Rightarrow> 'd option" where
  "put_string io terminal [] d = Some d"
| "put_string io terminal (c # cs) d = do { d \<leftarrow> ComPutChar io terminal c d; put_string io terminal cs d }"

definition ComPrint :: "'d bus \<Rightarrow> (char \<Rightarrow> 'd \<Rightarrow> 'd) option \<Rightarrow> string \<Rightarrow> com_arg list \<Rightarrow> 'd \<Rightarrow> 'd option" where
  "ComPrint io terminal fmt args d = do { cs \<leftarrow> com_format fmt args; put_string io terminal cs d }"

subsection \<open>Decimal numbers\<close>

text \<open>The decimal numeral of a number, defined from its last digit.\<close>

fun decimal :: "nat \<Rightarrow> string" where
  "decimal n = (if n < 10 then [char_of (48 + n)] else decimal (n div 10) @ [char_of (48 + n mod 10)])"

declare decimal.simps [simp del]

lemma find_div_power:
  assumes "0 < n" and "10 ^ j \<le> n"
  obtains k where "find_div n (10 ^ j) = 10 ^ k" and "10 ^ k \<le> n" and "n < 10 ^ Suc k"
  using assms(2)
proof (induction "n - 10 ^ j" arbitrary: j thesis rule: less_induct)
  case less
  show ?case
  proof (cases "10 \<le> n div 10 ^ j")
    case True
    then have le: "10 ^ Suc j \<le> n" by (simp add: less_eq_div_iff_mult_less_eq)
    moreover have "(10 :: nat) ^ j < 10 ^ Suc j" by simp
    ultimately have "n - 10 ^ Suc j < n - 10 ^ j" by linarith
    then obtain k where "find_div n (10 ^ Suc j) = 10 ^ k" "10 ^ k \<le> n" "n < 10 ^ Suc k"
      using less.hyps [OF _ _ le] by blast
    moreover have "find_div n (10 ^ j) = find_div n (10 ^ Suc j)"
      using True by (simp add: find_div.simps [of n "10 ^ j"] mult.commute)
    ultimately show ?thesis using less.prems(1) by simp
  next
    case False
    then have "n < 10 ^ Suc j" by (simp add: less_eq_div_iff_mult_less_eq not_le)
    with False less.prems show ?thesis by (simp add: find_div.simps [of n "10 ^ j"])
  qed
qed

lemma emit_digits_snoc:
  "emit_digits n (10 ^ Suc k) = emit_digits (n div 10) (10 ^ k) @ [char_of (48 + n mod 10)]"
proof (induction k arbitrary: n)
  case 0
  show ?case by (simp add: emit_digits.simps)
next
  case (Suc k)
  let ?p = "10 ^ Suc k :: nat"
  have m: "n mod (10 * ?p) = 10 * (n div 10 mod ?p) + n mod 10" by (rule mod_mult2_eq)
  then have m1: "n mod (10 * ?p) div 10 = n div 10 mod ?p" and m2: "n mod (10 * ?p) mod 10 = n mod 10" by simp_all
  have d: "n div (10 * ?p) = n div 10 div ?p" by (rule div_mult2_eq)
  have "emit_digits n (10 * ?p) = char_of (48 + n div (10 * ?p)) # emit_digits (n mod (10 * ?p)) ?p"
    by (subst emit_digits.simps) simp
  also have "\<dots> = char_of (48 + n div 10 div ?p) # emit_digits (n div 10 mod ?p) (10 ^ k) @ [char_of (48 + n mod 10)]"
    by (simp only: Suc.IH d m1 m2)
  also have "\<dots> = emit_digits (n div 10) ?p @ [char_of (48 + n mod 10)]"
    by (subst (2) emit_digits.simps) simp
  finally show ?case by simp
qed

lemma emit_digits_decimal: "10 ^ k \<le> n \<or> k = 0 \<Longrightarrow> n < 10 ^ Suc k \<Longrightarrow> emit_digits n (10 ^ k) = decimal n"
proof (induction k arbitrary: n)
  case 0
  then show ?case by (simp add: emit_digits.simps decimal.simps)
next
  case (Suc k)
  have b: "10 * 10 ^ k \<le> n" "n < 10 * 10 ^ Suc k" using Suc.prems by simp_all
  moreover have "1 \<le> (10 :: nat) ^ k" by simp
  ultimately have "10 \<le> n" by linarith
  moreover have "10 ^ k \<le> n div 10" "n div 10 < 10 ^ Suc k"
    using b by (simp_all add: less_eq_div_iff_mult_less_eq less_mult_imp_div_less mult.commute del: power_Suc)
  then have "emit_digits (n div 10) (10 ^ k) = decimal (n div 10)" using Suc.IH by blast
  ultimately show ?case by (simp only: emit_digits_snoc decimal.simps [of n] not_less [symmetric] if_False)
qed

lemma emit_is_decimal: "emit_digits n (find_div n 1) = decimal n"
proof (cases "n = 0")
  case True
  then show ?thesis by (simp add: find_div.simps emit_digits.simps decimal.simps)
next
  case False
  with find_div_power [of n 0] obtain k where "find_div n 1 = 10 ^ k" "10 ^ k \<le> n" "n < 10 ^ Suc k" by auto
  then show ?thesis using emit_digits_decimal [of k n] by simp
qed

text \<open>Reading a numeral back.\<close>

definition digit_value :: "char \<Rightarrow> nat" where
  "digit_value c = (if of_char c < (65 :: nat) then of_char c - 48 else of_char c - 55)"

definition read_numeral :: "nat \<Rightarrow> string \<Rightarrow> nat" where
  "read_numeral base t = foldl (\<lambda>a c. base * a + digit_value c) 0 t"

lemma digit_value_decimal: "d < 10 \<Longrightarrow> digit_value (char_of (48 + d)) = d"
  by (simp add: digit_value_def of_char_of)

lemma read_decimal: "read_numeral 10 (decimal n) = n"
proof (induction n rule: decimal.induct)
  case (1 n)
  show ?case
  proof (cases "n < 10")
    case True
    then show ?thesis by (simp add: decimal.simps [of n] read_numeral_def digit_value_decimal)
  next
    case False
    then show ?thesis
      using 1 by (simp add: decimal.simps [of n] read_numeral_def digit_value_decimal)
  qed
qed

subsection \<open>Hexadecimal numbers\<close>

lemma length_com_hex [simp]: "length (com_hex n v) = n"
  by (simp add: com_hex_def)

lemma digit_value_hex: "k < 16 \<Longrightarrow> digit_value (hex_digits ! k) = k"
proof -
  have "\<forall>k\<in>set [0..<16]. digit_value (hex_digits ! k) = k" by code_simp
  then show "k < 16 \<Longrightarrow> digit_value (hex_digits ! k) = k" by simp
qed

lemma nibble: "unat (drop_bit (4 * i) v AND 0xF) = unat v div 16 ^ i mod 16" for v :: "'w::len word"
proof -
  have "drop_bit (4 * i) v AND 0xF = take_bit 4 (drop_bit (4 * i) v)"
    by (simp add: take_bit_eq_mask mask_eq_exp_minus_1)
  then have "unat (drop_bit (4 * i) v AND 0xF) = take_bit 4 (drop_bit (4 * i) (unat v))"
    by (simp only: unsigned_take_bit_eq unsigned_drop_bit_eq take_bit_nat_eq_self [OF unat_bound])
  also have "\<dots> = unat v div 16 ^ i mod 16" by (simp only: take_bit_eq_mod drop_bit_eq_div power_mult) simp
  finally show ?thesis .
qed

lemma foldl_com_hex:
  "foldl (\<lambda>a c. 16 * a + digit_value c) a (com_hex n v) = a * 16 ^ n + unat v mod 16 ^ n"
proof (induction n arbitrary: a)
  case 0
  show ?case by (simp add: com_hex_def)
next
  case (Suc n)
  let ?d = "unat v div 16 ^ n mod 16"
  have "com_hex (Suc n) v = hex_digits ! ?d # com_hex n v" by (simp add: com_hex_def nibble)
  then have "foldl (\<lambda>a c. 16 * a + digit_value c) a (com_hex (Suc n) v) = (16 * a + ?d) * 16 ^ n + unat v mod 16 ^ n"
    using Suc.IH by (simp add: digit_value_hex)
  also have "\<dots> = a * 16 ^ Suc n + (16 ^ n * ?d + unat v mod 16 ^ n)" by (simp add: algebra_simps)
  also have "16 ^ n * ?d + unat v mod 16 ^ n = unat v mod 16 ^ Suc n"
    using mod_mult2_eq [of "unat v" "16 ^ n" 16] by (simp add: mult.commute)
  finally show ?case .
qed

lemma read_hex: "unat v < 16 ^ n \<Longrightarrow> read_numeral 16 (com_hex n v) = unat v"
  by (simp add: read_numeral_def foldl_com_hex)

subsection \<open>Properties\<close>

text \<open>C21: \<open>%d\<close> prints the sign and the decimal numeral of the argument, without leading zeros, and reading it
  back gives the argument; the rest of the format is then processed with the remaining arguments.\<close>

theorem ComPrint_decimal:
  assumes "sint w \<noteq> - (2 ^ 31)"
  shows "com_format (''%d'' @ r) (ArgInt w # args) =
      map_option ((@) ((if sint w < 0 then ''-'' else []) @ decimal (nat \<bar>sint w\<bar>))) (com_format r args) \<and>
    int (read_numeral 10 (decimal (nat \<bar>sint w\<bar>))) = \<bar>sint w\<bar>"
  using assms by (simp add: com_decimal_def Let_def emit_is_decimal [unfolded One_nat_def] read_decimal)

theorem ComPrint_decimal_witness:
  "com_format ''%d ok'' [ArgInt (- 42)] = Some ''-42 ok''"
  using ComPrint_decimal [of "- 42" "'' ok''" "[]"] by (simp add: decimal.simps char_of_def bit_numeral_rec bit_0)

text \<open>\<open>%X\<close> prints sixteen hexadecimal digits and \<open>%x\<close> eight, which read back as the argument.\<close>

theorem ComPrint_hex:
  "com_format (''%X'' @ r) (ArgU64 v # args) = map_option ((@) (com_hex 16 v)) (com_format r args) \<and>
   com_format (''%x'' @ r) (ArgInt w # args) = map_option ((@) (com_hex 8 w)) (com_format r args) \<and>
   length (com_hex 16 v) = 16 \<and> length (com_hex 8 w) = 8 \<and>
   read_numeral 16 (com_hex 16 v) = unat v \<and> read_numeral 16 (com_hex 8 w) = unat w"
  using unat_bound [of v] unat_bound [of w] by (simp add: read_hex)

text \<open>after \<open>%%\<close> the second percent sign is read again and starts a conversion of its own: with a conversion letter
  behind it, an argument is consumed and printed.\<close>

theorem ComPrint_percent:
  "com_format (''%%'' @ r) args = map_option ((#) CHR ''%'') (com_format (CHR ''%'' # r) args) \<and>
   com_format ''%%X'' [ArgU64 0x1F] = Some ''%000000000000001F''"
  by (simp add: com_hex_def hex_digits_def upt_rec)

text \<open>What reaches the line: the characters in order, once the device is ready to transmit.\<close>

lemma put_string_ready:
  assumes "\<And>d. fst (in8 io 0x3FD d) AND 0x20 \<noteq> 0 \<and> snd (in8 io 0x3FD d) = d"
  shows "put_string io None cs d = Some (fold (\<lambda>c. out8 io 0x3F8 (of_char c)) cs d)"
proof -
  have "wait_transmit io d = Some d" for d
    using assms [of d] by (subst wait_transmit.simps) (auto simp: port_defs case_prod_beta Let_def)
  then show ?thesis by (induction cs arbitrary: d) (simp_all add: ComPutChar_def port_defs)
qed

end
