(* ===== verification/Kernel.thy ===== *)
theory Kernel
  imports Acpi Intel Serial
begin

text \<open>
  \<open>kernel.c\<close>: the keyboard and mouse handlers, the controller of the PS/2 devices, the detection of a
  virtual machine and the boot sequence \<open>KeMain\<close>, which starts the components in order.  Addresses of
  functions and strings are those of the linked image and arguments; the messages are left out.
\<close>

subsection \<open>State\<close>

record 'd kernel_state = "'d xhci_state" +
  k_cpu :: "'d intel_state"
  mouse_cycle :: u8
  mouse_byte :: "u8 list"
  mouse_x :: u8
  mouse_y :: u8

subsection \<open>PS/2 handlers\<close>

text \<open>The handlers return what they print: the scan code, and position and buttons of the mouse.\<close>

definition Ps2KeyboardHandler :: "'d bus \<Rightarrow> ('d, 'a) kernel_state_scheme \<Rightarrow> u8 \<times> ('d, 'a) kernel_state_scheme" where
  "Ps2KeyboardHandler io s = (let (k, d) = IoIn8 io 0x60 (dev s) in (k, s\<lparr>dev := d\<rparr>))"

definition Ps2MouseHandler ::
    "'d bus \<Rightarrow> ('d, 'a) kernel_state_scheme \<Rightarrow> (u8 \<times> u8 \<times> u8 \<times> u8 \<times> u8) \<times> ('d, 'a) kernel_state_scheme" where
  "Ps2MouseHandler io s =
     (let s = (if mouse_cycle s = 0 then
                 (let (v, d) = IoIn8 io 0x60 (dev s)
                  in s\<lparr>dev := d, mouse_byte := (mouse_byte s)[0 := v], mouse_cycle := mouse_cycle s + 1\<rparr>)
               else if mouse_cycle s = 1 then
                 (let (v, d) = IoIn8 io 0x60 (dev s)
                  in s\<lparr>dev := d, mouse_byte := (mouse_byte s)[1 := v], mouse_cycle := mouse_cycle s + 1\<rparr>)
               else if mouse_cycle s = 2 then
                 (let (v, d) = IoIn8 io 0x60 (dev s);
                      b = (mouse_byte s)[2 := v]
                  in s\<lparr>dev := d, mouse_byte := b, mouse_x := b ! 1, mouse_y := b ! 2, mouse_cycle := 0\<rparr>)
               else s)
      in ((mouse_x s, mouse_y s, mouse_byte s ! 0 AND 1, drop_bit 1 (mouse_byte s ! 0 AND 2), drop_bit 2 (mouse_byte s ! 0 AND 4)), s))"

subsection \<open>The PS/2 controller\<close>

text \<open>\<open>while (_time_out--)\<close>: at most \<open>_time_out\<close> reads of the status port.\<close>

fun poll_status :: "'d bus \<Rightarrow> (u8 \<Rightarrow> bool) \<Rightarrow> nat \<Rightarrow> 'd \<Rightarrow> 'd" where
  "poll_status io ready 0 d = d"
| "poll_status io ready (Suc n) d = (let (v, d) = IoIn8 io 0x64 d in if ready v then d else poll_status io ready n d)"

definition mouse_wait :: "'d bus \<Rightarrow> u8 \<Rightarrow> 'd \<Rightarrow> 'd" where
  "mouse_wait io a_type d =
     (if a_type = 0 then poll_status io (\<lambda>v. v AND 1 = 1) 100000 d else poll_status io (\<lambda>v. v AND 2 = 0) 100000 d)"

definition mouse_write :: "'d bus \<Rightarrow> u8 \<Rightarrow> 'd \<Rightarrow> 'd" where
  "mouse_write io a_write d =
     (let d = mouse_wait io 1 d;
          d = IoOut8 io 0x64 0xD4 d;
          d = mouse_wait io 1 d
      in IoOut8 io 0x60 a_write d)"

definition mouse_read :: "'d bus \<Rightarrow> 'd \<Rightarrow> u8 \<times> 'd" where
  "mouse_read io d = IoIn8 io 0x60 (mouse_wait io 0 d)"

text \<open>The sequence of \<open>KeMain\<close> that enables the mouse and its interrupt.\<close>

definition mouse_setup :: "'d bus \<Rightarrow> 'd \<Rightarrow> 'd" where
  "mouse_setup io d =
     (let d = IoOut8 io 0x64 0xA8 (mouse_wait io 1 d);
          d = IoOut8 io 0x64 0x20 (mouse_wait io 1 d);
          (v, d) = IoIn8 io 0x60 (mouse_wait io 0 d);
          status = v OR 2;
          d = IoOut8 io 0x64 0x60 (mouse_wait io 1 d);
          d = IoOut8 io 0x60 status (mouse_wait io 1 d);
          d = mouse_write io 0xF6 d;
          (_, d) = mouse_read io d;
          d = mouse_write io 0xF4 d;
          (_, d) = mouse_read io d
      in d)"

subsection \<open>The virtual machine backdoor\<close>

definition VMWARE_MAGIC :: u32 where "VMWARE_MAGIC = 0x564D5868"
definition VMWARE_PORT :: u16 where "VMWARE_PORT = 0x5658"
definition VMWARE_PORTHB :: u16 where "VMWARE_PORTHB = 0x5659"

record vmware_cmd =
  vm_ax :: u32
  vm_bx :: u32
  vm_cx :: u32
  vm_dx :: u32
  vm_si :: u32
  vm_di :: u32

text \<open>Assigning \<open>command\<close> and \<open>port\<close> changes the low half of \<open>cx\<close> and \<open>dx\<close>.\<close>

definition set_low16 :: "u16 \<Rightarrow> u32 \<Rightarrow> u32" where "set_low16 v w = bf_set 0 16 (ucast v) w"

text \<open>The instruction exchanges all six registers with the hypervisor, if there is one: it is an argument.\<close>

definition vmware_send :: "(vmware_cmd \<Rightarrow> 'd \<Rightarrow> vmware_cmd \<times> 'd) \<Rightarrow> vmware_cmd \<Rightarrow> 'd \<Rightarrow> vmware_cmd \<times> 'd" where
  "vmware_send exchange cmd d = exchange (cmd\<lparr>vm_ax := VMWARE_MAGIC, vm_dx := set_low16 VMWARE_PORT (vm_dx cmd)\<rparr>) d"

definition vmware_send_hb :: "(vmware_cmd \<Rightarrow> 'd \<Rightarrow> vmware_cmd \<times> 'd) \<Rightarrow> vmware_cmd \<Rightarrow> 'd \<Rightarrow> vmware_cmd \<times> 'd" where
  "vmware_send_hb outs cmd d = outs (cmd\<lparr>vm_ax := VMWARE_MAGIC, vm_dx := set_low16 VMWARE_PORTHB (vm_dx cmd)\<rparr>) d"

definition vmware_get_hb :: "(vmware_cmd \<Rightarrow> 'd \<Rightarrow> vmware_cmd \<times> 'd) \<Rightarrow> vmware_cmd \<Rightarrow> 'd \<Rightarrow> vmware_cmd \<times> 'd" where
  "vmware_get_hb ins cmd d = ins (cmd\<lparr>vm_ax := VMWARE_MAGIC, vm_dx := set_low16 VMWARE_PORTHB (vm_dx cmd)\<rparr>) d"

text \<open>\<open>cmd\<close> is what the stack holds before the two assignments.\<close>

definition is_vmware_backdoor ::
    "(vmware_cmd \<Rightarrow> 'd \<Rightarrow> vmware_cmd \<times> 'd) \<Rightarrow> vmware_cmd \<Rightarrow> 'd \<Rightarrow> bool \<times> 'd" where
  "is_vmware_backdoor exchange cmd d =
     (let (cmd, d) = vmware_send exchange (cmd\<lparr>vm_bx := NOT VMWARE_MAGIC, vm_cx := set_low16 10 (vm_cx cmd)\<rparr>) d
      in (\<not> (vm_bx cmd \<noteq> VMWARE_MAGIC \<or> vm_ax cmd = 0xFFFFFFFF), d))"

subsection \<open>Boot\<close>

text \<open>The addresses of the image and what the boot loader hands over.\<close>

record kernel_image = image +
  addr_of_idle_name :: addr
  addr_of_idle_task :: addr
  addr_of_host_irq :: addr
  addr_of_keyboard :: addr
  addr_of_mouse :: addr
  addr_of_task1_name :: addr
  addr_of_task1 :: addr
  addr_of_task2_name :: addr
  addr_of_task2 :: addr

record boot_info =
  b_stack :: u64
  b_usable :: u64
  b_memmap :: "memmap_entry list"
  b_rsdp :: addr

text \<open>\<open>IntelInitialize\<close> works on the processor's tables, its control register and the devices.\<close>

definition on_cpu :: "('d intel_state \<Rightarrow> 'd intel_state) \<Rightarrow> ('d, 'a) kernel_state_scheme \<Rightarrow> ('d, 'a) kernel_state_scheme" where
  "on_cpu f s = (let c = f ((k_cpu s)\<lparr>device := dev s, cr3_reg := cr3 s\<rparr>)
     in s\<lparr>k_cpu := c, dev := device c, cr3 := IntelGetCR3 c\<rparr>)"

definition register_and_enable ::
    "'d bus \<Rightarrow> u8 \<Rightarrow> addr \<Rightarrow> ('d, 'a) irq_state_scheme \<Rightarrow> ('d, 'a) irq_state_scheme option" where
  "register_and_enable io irq handler s = do {
     s \<leftarrow> ApicRegisterIrqHandler io irq handler 0 s;
     (_, s) \<leftarrow> ApicEnableInterrupt io irq s;
     Some s }"

text \<open>\<open>KeMain\<close> up to its final loop of \<open>hlt\<close>; the list is what \<open>TskPrintTasks\<close> prints.\<close>

definition KeMain ::
    "'d bus \<Rightarrow> (vmware_cmd \<Rightarrow> 'd \<Rightarrow> vmware_cmd \<times> 'd) \<Rightarrow> vmware_cmd \<Rightarrow> kernel_image \<Rightarrow> boot_info \<Rightarrow> ('d, 'a) kernel_state_scheme
      \<Rightarrow> ((u64 \<times> addr \<times> bool) list \<times> ('d, 'a) kernel_state_scheme) option" where
  "KeMain io exchange junk img boot s = do {
     let s = on_cpu (IntelInitialize io (image.truncate img) (b_stack boot)) s;
     s \<leftarrow> MmInitialize (b_usable boot) (b_memmap boot) s;
     let s = MmInitializePaging (cr3 s) s;
     s \<leftarrow> MmInitializeHeap s;
     s \<leftarrow> TskInitialize (addr_of_idle_name img) (addr_of_idle_task img) s;
     s \<leftarrow> AcpiInitialize io (addr_of_host_irq img) (b_rsdp boot) s;
     let (_, d) = is_vmware_backdoor exchange junk (dev s);
     s \<leftarrow> register_and_enable io 1 (addr_of_keyboard img) (s\<lparr>dev := d\<rparr>);
     let s = s\<lparr>dev := mouse_setup io (dev s)\<rparr>;
     s \<leftarrow> register_and_enable io 12 (addr_of_mouse img) s;
     (_, s) \<leftarrow> TskCreateKernelTask (addr_of_task1_name img) (addr_of_task1 img) s;
     (_, s) \<leftarrow> TskCreateKernelTask (addr_of_task2_name img) (addr_of_task2 img) s;
     tasks \<leftarrow> TskPrintTasks s;
     Some (tasks, s) }"

subsection \<open>Mouse packets\<close>

text \<open>The data port delivers the bytes \<open>bs\<close>, one per read, between two device states.\<close>

fun delivers :: "'d bus \<Rightarrow> u8 list \<Rightarrow> 'd \<Rightarrow> 'd \<Rightarrow> bool" where
  "delivers io [] d d' \<longleftrightarrow> d' = d"
| "delivers io (b # bs) d d' \<longleftrightarrow> (case in8 io 0x60 d of (v, d1) \<Rightarrow> v = b \<and> delivers io bs d1 d')"

lemma delivers_snoc: "delivers io (bs @ [b]) d d' \<longleftrightarrow> (\<exists>d1. delivers io bs d d1 \<and> in8 io 0x60 d1 = (b, d'))"
  by (induction bs arbitrary: d) (auto split: prod.splits)

text \<open>What the handler has stored after the bytes \<open>bs\<close>, the last of them at \<open>length bs - 1\<close>.\<close>

definition mouse_holds :: "u8 list \<Rightarrow> ('d, 'a) kernel_state_scheme \<Rightarrow> bool" where
  "mouse_holds bs s \<longleftrightarrow> length (mouse_byte s) = 3 \<and> mouse_cycle s = of_nat (length bs mod 3) \<and>
     (\<forall>k < length bs. length bs \<le> k + 3 \<longrightarrow> mouse_byte s ! (k mod 3) = bs ! k) \<and>
     (let p = 3 * (length bs div 3) in 0 < p \<longrightarrow> mouse_x s = bs ! (p - 2) \<and> mouse_y s = bs ! (p - 1))"

text \<open>One interrupt, for all three phases.\<close>

lemma Ps2MouseHandler_phase:
  assumes "mouse_cycle s = of_nat n" and "n < 3" and "in8 io 0x60 (dev s) = (b, d)" and "t = snd (Ps2MouseHandler io s)"
  shows "dev t = d" "mouse_byte t = (mouse_byte s)[n := b]" "mouse_cycle t = of_nat (Suc n mod 3)"
    "mouse_x t = (if n = 2 then mouse_byte t ! 1 else mouse_x s)" "mouse_y t = (if n = 2 then mouse_byte t ! 2 else mouse_y s)"
proof -
  have "n = 0 \<or> n = 1 \<or> n = 2" using assms(2) by linarith
  then have "dev t = d \<and> mouse_byte t = (mouse_byte s)[n := b] \<and> mouse_cycle t = of_nat (Suc n mod 3) \<and>
    mouse_x t = (if n = 2 then mouse_byte t ! 1 else mouse_x s) \<and> mouse_y t = (if n = 2 then mouse_byte t ! 2 else mouse_y s)"
    using assms(1,3,4) by (elim disjE) (simp_all add: Ps2MouseHandler_def port_defs Let_def)
  then show "dev t = d" "mouse_byte t = (mouse_byte s)[n := b]" "mouse_cycle t = of_nat (Suc n mod 3)"
    "mouse_x t = (if n = 2 then mouse_byte t ! 1 else mouse_x s)" "mouse_y t = (if n = 2 then mouse_byte t ! 2 else mouse_y s)"
    by blast+
qed

lemma mouse_step:
  assumes h: "mouse_holds bs s" and r: "in8 io 0x60 (dev s) = (b, d)"
  shows "mouse_holds (bs @ [b]) (snd (Ps2MouseHandler io s)) \<and> dev (snd (Ps2MouseHandler io s)) = d"
proof -
  define L where "L = length bs"
  define t where "t = snd (Ps2MouseHandler io s)"
  have len: "length (mouse_byte s) = 3" and cyc: "mouse_cycle s = of_nat (L mod 3)"
    and win: "\<And>k. k < L \<Longrightarrow> L \<le> k + 3 \<Longrightarrow> mouse_byte s ! (k mod 3) = bs ! k"
    and xy: "0 < 3 * (L div 3) \<Longrightarrow> mouse_x s = bs ! (3 * (L div 3) - 2) \<and> mouse_y s = bs ! (3 * (L div 3) - 1)"
    using h by (simp_all add: mouse_holds_def Let_def L_def)
  have lt: "L mod 3 < 3" by simp
  note ph = Ps2MouseHandler_phase [OF cyc lt r t_def]
  have byte: "mouse_byte t ! (k mod 3) = (bs @ [b]) ! k" if k: "k < Suc L" "Suc L \<le> k + 3" for k
  proof (cases "k = L")
    case True
    then show ?thesis using len lt by (simp add: ph(2) L_def)
  next
    case False
    then have "k < L" "L < k + 3" using k by simp_all
    then have "k mod 3 \<noteq> L mod 3" by presburger
    then show ?thesis using win [of k] \<open>k < L\<close> \<open>L < k + 3\<close> by (simp add: ph(2) L_def nth_append)
  qed
  have "mouse_x t = (bs @ [b]) ! (p - 2) \<and> mouse_y t = (bs @ [b]) ! (p - 1)" if p: "p = 3 * (Suc L div 3)" "0 < p" for p
  proof (cases "L mod 3 = 2")
    case True
    then have "Suc L mod 3 = 0" "L = 3 * (L div 3) + 2" by presburger+
    then have q: "p = Suc L" "(L - 1) mod 3 = 1" "0 < L" using p(1) by presburger+
    then show ?thesis using byte [of "L - 1"] byte [of L] True by (simp add: ph(4,5))
  next
    case False
    then have q: "Suc L div 3 = L div 3" by presburger
    then have le: "p - 2 < L" "p - 1 < L" using p by simp_all
    have "mouse_x s = bs ! (p - 2) \<and> mouse_y s = bs ! (p - 1)" using xy p q by simp
    with le show ?thesis using False by (simp add: ph(4,5) L_def nth_append)
  qed
  moreover have "mouse_cycle t = of_nat (Suc L mod 3)" using ph(3) by (simp add: mod_Suc_eq)
  ultimately show ?thesis
    using byte len ph(1,2) by (simp add: mouse_holds_def Let_def flip: t_def L_def)
qed

lemma mouse_run:
  assumes "delivers io bs (dev s) d" and "mouse_holds [] s"
  shows "mouse_holds bs (((\<lambda>s. snd (Ps2MouseHandler io s)) ^^ length bs) s) \<and> dev (((\<lambda>s. snd (Ps2MouseHandler io s)) ^^ length bs) s) = d"
  using assms(1)
proof (induction bs arbitrary: d rule: rev_induct)
  case Nil
  then show ?case using assms(2) by simp
next
  case (snoc b bs)
  then obtain d1 where "delivers io bs (dev s) d1" "in8 io 0x60 d1 = (b, d)" by (auto simp: delivers_snoc)
  with snoc.IH [of d1] mouse_step [of bs "((\<lambda>s. snd (Ps2MouseHandler io s)) ^^ length bs) s" io b d] show ?case by simp
qed

text \<open>C22: the mouse handler reassembles packets of three bytes: whatever bytes the port delivers, one per interrupt, after any
  number of interrupts the phase is that number modulo three and the position is that of the last complete packet.\<close>

theorem Ps2MouseHandler_packets:
  assumes "delivers io bs (dev s) d" and "mouse_cycle s = 0" and "length (mouse_byte s) = 3"
    and "s' = ((\<lambda>s. snd (Ps2MouseHandler io s)) ^^ length bs) s" and "p = 3 * (length bs div 3)"
  shows "mouse_cycle s' = of_nat (length bs mod 3) \<and> dev s' = d \<and>
    (0 < p \<longrightarrow> mouse_x s' = bs ! (p - 2) \<and> mouse_y s' = bs ! (p - 1))"
proof -
  have "mouse_holds [] s" using assms(2,3) by (simp add: mouse_holds_def)
  from mouse_run [OF assms(1) this] show ?thesis by (simp add: mouse_holds_def Let_def assms(4,5))
qed

text \<open>A device whose data port counts up.\<close>

definition counting_bus :: "u8 bus" where
  "counting_bus = \<lparr>in8 = (\<lambda>_ d. (d, d + 1)), in16 = (\<lambda>_ d. (0, d)), in32 = (\<lambda>_ d. (0, d)),
     out8 = (\<lambda>_ _ d. d), out16 = (\<lambda>_ _ d. d), out32 = (\<lambda>_ _ d. d),
     mmio_read8 = (\<lambda>_ d. (0, d)), mmio_read32 = (\<lambda>_ d. (0, d)), mmio_write32 = (\<lambda>_ _ d. d), mmio_write64 = (\<lambda>_ _ d. d)\<rparr>"

theorem Ps2MouseHandler_packets_witness:
  "\<exists>s s' :: u8 kernel_state. s' = ((\<lambda>s. snd (Ps2MouseHandler counting_bus s)) ^^ 7) s \<and> dev s = 8 \<and>
     mouse_cycle s' = 1 \<and> mouse_x s' = 12 \<and> mouse_y s' = 13"
proof -
  obtain s0 :: "u8 kernel_state" where True by simp
  define s where "s = s0\<lparr>dev := 8, mouse_cycle := 0, mouse_byte := [0, 0, 0]\<rparr>"
  have "delivers counting_bus [8, 9, 10, 11, 12, 13, 14] (dev s) 15" "mouse_cycle s = 0" "length (mouse_byte s) = 3"
    by (simp_all add: counting_bus_def s_def)
  note r = this
  define s' where "s' = ((\<lambda>s. snd (Ps2MouseHandler counting_bus s)) ^^ length [8, 9, 10, 11, 12, 13, 14 :: u8]) s"
  have "mouse_cycle s' = 1 \<and> mouse_x s' = 12 \<and> mouse_y s' = 13"
    using Ps2MouseHandler_packets [OF r s'_def refl] by simp
  moreover have "length [8, 9, 10, 11, 12, 13, 14 :: u8] = 7" by simp
  then have "s' = ((\<lambda>s. snd (Ps2MouseHandler counting_bus s)) ^^ 7) s" unfolding s'_def by (rule arg_cong)
  moreover have "dev s = 8" by (simp add: s_def)
  ultimately show ?thesis by blast
qed

end
