(* ===== verification/LaiLibc.thy ===== *)
theory LaiLibc
  imports RtMemory Acpi Serial "HOL-Library.List_Lexorder"
begin

text \<open>
  The C library the ACPI interpreter brings along: \<open>core/libc.c\<close> (strings and zeroed allocation) and
  \<open>core/vsnprintf.c\<close> (formatting into a bounded buffer).  Strings are zero-terminated bytes in memory.
\<close>

subsection \<open>Strings\<close>

partial_function (option) strlen_loop :: "mem \<Rightarrow> addr \<Rightarrow> u64 \<Rightarrow> u64 option" where
  "strlen_loop m s i = (if load8 m (s + i) \<noteq> 0 then strlen_loop m s (i + 1) else Some i)"

definition lai_strlen :: "mem \<Rightarrow> addr \<Rightarrow> u64 option" where
  "lai_strlen m s = strlen_loop m s 0"

partial_function (option) strcpy_loop :: "mem \<Rightarrow> addr \<Rightarrow> addr \<Rightarrow> mem option" where
  "strcpy_loop m dest src =
     (if load8 m src \<noteq> 0 then strcpy_loop (store8 m dest (load8 m src)) (dest + 1) (src + 1)
      else Some (store8 m dest 0))"

definition lai_strcpy :: "mem \<Rightarrow> addr \<Rightarrow> addr \<Rightarrow> (addr \<times> mem) option" where
  "lai_strcpy m dest src = map_option (Pair dest) (strcpy_loop m dest src)"

partial_function (option) strcmp_loop :: "mem \<Rightarrow> addr \<Rightarrow> addr \<Rightarrow> u64 \<Rightarrow> int option" where
  "strcmp_loop m a b i =
     (let ac = load8 m (a + i); bc = load8 m (b + i)
      in if ac = 0 \<and> bc = 0 then Some 0
         else if ac < bc then Some (-1)
         else if ac > bc then Some 1
         else strcmp_loop m a b (i + 1))"

definition lai_strcmp :: "mem \<Rightarrow> addr \<Rightarrow> addr \<Rightarrow> int option" where
  "lai_strcmp m a b = strcmp_loop m a b 0"

definition lai_calloc :: "u64 \<Rightarrow> u64 \<Rightarrow> 'a heap_state_scheme \<Rightarrow> (addr \<times> 'a heap_state_scheme) option" where
  "lai_calloc cnt item_size s = do {
     let sz = cnt * item_size;
     (p, s) \<leftarrow> laihost_malloc sz s;
     Some (p, if p \<noteq> 0 then s\<lparr>mem := snd (memset (mem s) p 0 sz)\<rparr> else s) }"

text \<open>A zero-terminated string in memory.\<close>

definition cstring :: "mem \<Rightarrow> addr \<Rightarrow> u8 list \<Rightarrow> bool" where
  "cstring m a cs \<longleftrightarrow> 0 \<notin> set cs \<and> length cs < 2 ^ 64 \<and>
     (\<forall>i<length cs. load8 m (a + of_nat i) = cs ! i) \<and> load8 m (a + of_nat (length cs)) = 0"

lemma cstring_char: "cstring m a cs \<Longrightarrow> i \<le> length cs \<Longrightarrow> load8 m (a + of_nat i) = (if i < length cs then cs ! i else 0)"
  by (auto simp: cstring_def)

lemma cstring_nonzero: "cstring m a cs \<Longrightarrow> i < length cs \<Longrightarrow> load8 m (a + of_nat i) \<noteq> 0"
  by (auto simp: cstring_def) (metis nth_mem)

lemma strlen_at:
  assumes "cstring m a cs" and "i \<le> length cs"
  shows "strlen_loop m a (of_nat i) = Some (of_nat (length cs))"
  using assms(2)
proof (induction "length cs - i" arbitrary: i)
  case 0
  then show ?case using cstring_char [OF assms(1), of i] by (subst strlen_loop.simps) simp
next
  case (Suc n)
  then have i: "i < length cs" "n = length cs - Suc i" "Suc i \<le> length cs" by simp_all
  have "strlen_loop m a (of_nat i) = strlen_loop m a (of_nat (Suc i))"
    using cstring_nonzero [OF assms(1) i(1)] by (subst strlen_loop.simps) (simp add: add.commute)
  then show ?case using Suc.hyps(1) [OF i(2,3)] by simp
qed

lemma lai_strlen_cstring: "cstring m a cs \<Longrightarrow> lai_strlen m a = Some (of_nat (length cs))"
  using strlen_at [of m a cs 0] by (simp add: lai_strlen_def)

text \<open>The comparison of the first characters, 0 standing for the end of a string.\<close>

definition first_char :: "u8 list \<Rightarrow> u8" where
  "first_char us = (case us of [] \<Rightarrow> 0 | u # _ \<Rightarrow> u)"

lemma first_char_order:
  assumes "0 \<notin> set us" and "0 \<notin> set vs" and "first_char us \<noteq> first_char vs"
  shows "us \<noteq> vs" and "us < vs \<longleftrightarrow> first_char us < first_char vs" and "vs < us \<longleftrightarrow> first_char vs < first_char us"
  using assms by (auto simp: first_char_def word_gt_0 split: list.splits)

lemma first_char_end: "0 \<notin> set us \<Longrightarrow> first_char us = 0 \<longleftrightarrow> us = []"
  by (auto simp: first_char_def split: list.splits)

lemma cstring_split:
  assumes "cstring m a (p @ us)"
  shows "load8 m (a + of_nat (length p)) = first_char us" and "0 \<notin> set us"
  using cstring_char [OF assms, of "length p"] assms by (auto simp: first_char_def cstring_def nth_append split: list.splits)

lemma strcmp_at:
  assumes "cstring m a (p @ us)" and "cstring m b (p @ vs)"
  shows "\<exists>r. strcmp_loop m a b (of_nat (length p)) = Some r \<and> (r = 0 \<longleftrightarrow> us = vs) \<and> (r = -1 \<longleftrightarrow> us < vs) \<and> (r = 1 \<longleftrightarrow> vs < us)"
  using assms
proof (induction us arbitrary: p vs)
  case Nil
  note x = cstring_split [OF Nil(1)] and y = cstring_split [OF Nil(2)]
  show ?case
  proof (cases "vs = []")
    case True
    then show ?thesis using x y by (subst strcmp_loop.simps) (simp add: first_char_def)
  next
    case False
    then have "first_char [] < first_char vs" using y(2) first_char_end [of vs] by (simp add: first_char_def word_gt_0)
    then show ?thesis using x y first_char_order [OF x(2) y(2)]
      by (subst strcmp_loop.simps) (auto simp: Let_def)
  qed
next
  case (Cons u us)
  note x = cstring_split [OF Cons.prems(1)] and y = cstring_split [OF Cons.prems(2)]
  have u: "u \<noteq> 0" "first_char (u # us) = u" using x(2) by (auto simp: first_char_def)
  show ?case
  proof (cases "first_char vs = u")
    case False
    then consider "u < first_char vs" | "first_char vs < u" by (meson linorder_neqE)
    then show ?thesis
      using x y u first_char_order [OF x(2) y(2)] by cases (subst strcmp_loop.simps, auto simp: Let_def)+
  next
    case True
    then obtain vs' where vs: "vs = u # vs'" using u y(2) by (cases vs) (auto simp: first_char_def)
    have "strcmp_loop m a b (of_nat (length p)) = strcmp_loop m a b (of_nat (length (p @ [u])))"
      using x y u True by (subst strcmp_loop.simps) (simp add: add.commute)
    then show ?thesis using Cons.IH [of "p @ [u]" vs'] Cons.prems vs by simp
  qed
qed

text \<open>\<open>lai_strcmp\<close> ends on zero-terminated strings and returns 0, -1 or 1 as the first string is equal to, before or after the
  second in the lexicographic order of unsigned bytes; \<open>lai_strlen\<close> returns the length.\<close>

theorem lai_strcmp_order:
  assumes "cstring m a xs" and "cstring m b ys"
  shows "lai_strlen m a = Some (of_nat (length xs)) \<and>
    (\<exists>r. lai_strcmp m a b = Some r \<and> (r = 0 \<longleftrightarrow> xs = ys) \<and> (r = -1 \<longleftrightarrow> xs < ys) \<and> (r = 1 \<longleftrightarrow> ys < xs))"
  using strcmp_at [of m a "[]" xs b ys] lai_strlen_cstring [OF assms(1)] assms by (simp add: lai_strcmp_def)

definition names_example :: mem where
  "names_example = (\<lambda>_. 0)(0x10 := 95, 0x11 := 65, 0x20 := 95, 0x21 := 66)"

theorem lai_strcmp_order_witness: "lai_strlen names_example 0x10 = Some 2 \<and> lai_strcmp names_example 0x10 0x20 = Some (-1)"
proof -
  have "cstring names_example 0x10 [95, 65]" "cstring names_example 0x20 [95, 66]"
    by (auto simp: cstring_def names_example_def load8_def less_Suc_eq)
  from lai_strcmp_order [OF this] show ?thesis by auto
qed

end
