(* ===== verification/LaiPrintf.thy ===== *)
theory LaiPrintf
  imports LaiLibc
begin

text \<open>
  \<open>core/vsnprintf.c\<close>: formatting for the interpreter's messages, and the three message functions of
  \<open>core/libc.c\<close> built on it.  The bytes written through \<open>buf\<close> are a function of the format, the
  length limit and the arguments; they are then stored one after the other.
\<close>

subsection \<open>Numbers\<close>

definition is_digit :: "char \<Rightarrow> bool" where
  "is_digit c \<longleftrightarrow> of_char c \<ge> (48 :: nat) \<and> of_char c \<le> (57 :: nat)"

definition digits_upper :: string where "digits_upper = ''0123456789ABCDEF''"
definition digits_lower :: string where "digits_lower = ''0123456789abcdef''"

text \<open>
  The \<open>do\<close> loop of \<open>num_fmt\<close>, which fills the buffer from its end: the digits already written, the
  rest of the number, and the number of further digits allowed (\<open>-1\<close> for no limit).
\<close>

function num_loop :: "string \<Rightarrow> nat \<Rightarrow> nat \<Rightarrow> int \<Rightarrow> string \<Rightarrow> string" where
  "num_loop digits base i len acc =
     (let acc = digits ! (i mod base) # acc;
          len = (if len > 0 then len - 1 else len);
          i' = i div base
      in if base < 2 then acc else if i' \<noteq> 0 \<and> (len = -1 \<or> len \<noteq> 0) then num_loop digits base i' len acc else acc)"
  by pat_completeness auto
termination by (relation "measure (\<lambda>(_, _, i, _, _). i)") (auto simp: Let_def div_greater_zero_iff intro!: div_less_dividend)

declare num_loop.simps [simp del]

text \<open>
  \<open>num_fmt\<close>: the sign test looks at the low 32 bits; negating the smallest \<open>int\<close> is undefined, and so
  is writing in front of the 50-byte buffer (no result).
\<close>

definition num_fmt :: "u64 \<Rightarrow> nat \<Rightarrow> nat \<Rightarrow> char \<Rightarrow> bool \<Rightarrow> bool \<Rightarrow> int \<Rightarrow> string option" where
  "num_fmt i base padding pad_with handle_signed upper len =
     (let si = sint (ucast i :: 32 word);
          neg = (si < 0 \<and> handle_signed);
          n = (if neg then nat (- si) else unat i);
          t = num_loop (if upper then digits_upper else digits_lower) base n len [];
          t = replicate (padding - length t) pad_with @ t;
          t = (if neg then CHR ''-'' # t else t)
      in if neg \<and> si = - (2 ^ 31) \<or> length t > 49 then None else Some t)"

subsection \<open>Formats\<close>

datatype lai_arg = LaiStr string | LaiInt "32 word" | LaiLong u64 | LaiPtr u64

text \<open>
  \<open>i = wide ? va_arg(arg, long int) : va_arg(arg, int)\<close>: an \<open>int\<close> is sign-extended.  Arguments are passed in slots of
  eight bytes: reading an \<open>int\<close> from a wider one takes its low half; the upper half of a narrow one is undefined.
\<close>

definition int_arg :: "bool \<Rightarrow> lai_arg list \<Rightarrow> (u64 \<times> lai_arg list) option" where
  "int_arg wide args = (case args of
     LaiInt w # as \<Rightarrow> if wide then None else Some (scast w, as)
   | LaiLong w # as \<Rightarrow> Some (if wide then w else scast (ucast w :: 32 word), as)
   | _ \<Rightarrow> None)"

text \<open>Flags, width and length modifiers between the percent sign and the conversion letter.\<close>

record conversion =
  cv_pad_with :: char
  cv_padding :: nat
  cv_wide :: bool

definition parse_conversion :: "string \<Rightarrow> conversion \<times> string" where
  "parse_conversion r =
     (let (p, r) = (case r of c # r' \<Rightarrow> if c = CHR ''0'' then (CHR ''0'', r') else (CHR '' '', r) | [] \<Rightarrow> (CHR '' '', r));
          width = foldl (\<lambda>n c. n * 10 + (of_char c - 48)) 0 (takeWhile is_digit r);
          r = dropWhile is_digit r
      in (\<lparr>cv_pad_with = p, cv_padding = width, cv_wide = (takeWhile (\<lambda>c. c = CHR ''l'') r \<noteq> [])\<rparr>,
          dropWhile (\<lambda>c. c = CHR ''l'') r))"

text \<open>What one conversion puts into the buffer, and the arguments left; an unknown letter puts nothing.\<close>

definition convert :: "conversion \<Rightarrow> char \<Rightarrow> lai_arg list \<Rightarrow> (string \<times> lai_arg list) option" where
  "convert cv f args =
     (let num = (\<lambda>base sgn upper len. do {
            (i, as) \<leftarrow> int_arg (cv_wide cv) args;
            t \<leftarrow> num_fmt i base (cv_padding cv) (cv_pad_with cv) sgn upper len;
            Some (t, as) });
          upper = (f = CHR ''X'' \<or> f = CHR ''P'')
      in if f = CHR ''c'' then (case args of LaiInt w # as \<Rightarrow> Some ([char_of (unat w)], as) | _ \<Rightarrow> None)
         else if f = CHR ''d'' then num 10 True False (-1)
         else if f = CHR ''u'' then num 10 False False (-1)
         else if f = CHR ''o'' then num 8 False False (-1)
         else if f = CHR ''X'' \<or> f = CHR ''x'' then num 16 False upper (if cv_wide cv then 16 else 8)
         else if f = CHR ''P'' \<or> f = CHR ''p''
         then (case args of LaiPtr w # as \<Rightarrow>
                 map_option (\<lambda>t. (t, as)) (num_fmt w 16 (cv_padding cv) (cv_pad_with cv) False upper 16) | _ \<Rightarrow> None)
         else if f = CHR ''s'' then (case args of LaiStr t # as \<Rightarrow> Some (t, as) | _ \<Rightarrow> None)
         else if f = CHR ''%'' then Some (''%'', args)
         else Some ([], args))"

lemma parse_conversion_shorter: "length (snd (parse_conversion r)) \<le> length r"
proof -
  have "length (dropWhile (\<lambda>c. c = CHR ''l'') (dropWhile is_digit x)) \<le> length x" for x
    by (meson le_trans length_dropWhile_le)
  from this [of r] this [of "tl r"] show ?thesis
    by (auto simp: parse_conversion_def Let_def split: list.splits)
qed

text \<open>
  The main loop; \<open>len\<close> is the space left.  A format that ends inside a conversion makes the loop step over
  the terminating zero (no result).  The three dots mark a full buffer.
\<close>

function lai_format :: "nat \<Rightarrow> string \<Rightarrow> lai_arg list \<Rightarrow> string option" where
  "lai_format len fmt args =
     (if len = 0 then Some ''...''
      else case fmt of [] \<Rightarrow> Some []
      | c # r \<Rightarrow>
          if c \<noteq> CHR ''%'' then map_option ((#) c) (lai_format len r args)
          else (case snd (parse_conversion r) of [] \<Rightarrow> None
            | f # r' \<Rightarrow> (case convert (fst (parse_conversion r)) f args of None \<Rightarrow> None
                | Some (t, as) \<Rightarrow> if length t > len then Some (take len t @ ''...'')
                    else map_option ((@) t) (lai_format (len - length t) r' as))))"
  by pat_completeness auto
termination
proof (relation "measure (\<lambda>(_, fmt, _). length fmt)")
  fix len fmt args c r f r' t as
  assume "fmt = c # r" and s: "snd (parse_conversion r) = f # r'"
  then show "((len - length t, r', as), len, fmt, args) \<in> measure (\<lambda>(_, fmt, _). length fmt)"
    using parse_conversion_shorter [of r] by simp
qed auto

declare lai_format.simps [simp del]

fun store_bytes :: "mem \<Rightarrow> addr \<Rightarrow> string \<Rightarrow> mem" where
  "store_bytes m a [] = m"
| "store_bytes m a (c # cs) = store_bytes (store8 m a (of_char c)) (a + 1) cs"

definition lai_vsnprintf :: "mem \<Rightarrow> addr \<Rightarrow> u64 \<Rightarrow> string \<Rightarrow> lai_arg list \<Rightarrow> mem option" where
  "lai_vsnprintf m buf len fmt args =
     map_option (\<lambda>out. store_bytes m buf (out @ [CHR 0x00])) (lai_format (unat len) fmt args)"

definition lai_snprintf :: "mem \<Rightarrow> addr \<Rightarrow> u64 \<Rightarrow> string \<Rightarrow> lai_arg list \<Rightarrow> mem option" where
  "lai_snprintf m buf bufsize fmt args = lai_vsnprintf m buf bufsize fmt args"

text \<open>
  The message functions format into 144 bytes of stack with a limit of 128; more bytes overrun it (no result).
  The text goes to the host's log.
\<close>

definition lai_message :: "string \<Rightarrow> lai_arg list \<Rightarrow> string option" where
  "lai_message fmt args = (case lai_format 128 fmt args of
     Some out \<Rightarrow> if length out + 1 \<le> 128 + 16 then Some out else None | None \<Rightarrow> None)"

definition lai_debug :: "(string \<Rightarrow> 's \<Rightarrow> 's) \<Rightarrow> string \<Rightarrow> lai_arg list \<Rightarrow> 's \<Rightarrow> 's option" where
  "lai_debug log fmt args s = map_option (\<lambda>t. log t s) (lai_message fmt args)"
definition lai_warn :: "(string \<Rightarrow> 's \<Rightarrow> 's) \<Rightarrow> string \<Rightarrow> lai_arg list \<Rightarrow> 's \<Rightarrow> 's option" where
  "lai_warn log fmt args s = map_option (\<lambda>t. log t s) (lai_message fmt args)"

text \<open>\<open>lai_panic\<close> hands the message to the host, which prints it and stops; the state is the one it stops in.\<close>

definition lai_panic :: "(string \<Rightarrow> 's \<Rightarrow> 's) \<Rightarrow> string \<Rightarrow> lai_arg list \<Rightarrow> 's \<Rightarrow> 's option" where
  "lai_panic host_panic fmt args s = map_option (\<lambda>t. host_panic t s) (lai_message fmt args)"

subsection \<open>Properties\<close>

lemma digit_lower: "d < 10 \<Longrightarrow> digits_lower ! d = char_of (48 + d)"
proof -
  have "\<forall>d\<in>set [0..<10]. digits_lower ! d = char_of (48 + d)" by code_simp
  then show "d < 10 \<Longrightarrow> digits_lower ! d = char_of (48 + d)" by simp
qed

text \<open>Without a limit the loop of \<open>num_fmt\<close> writes the decimal numeral.\<close>

lemma num_loop_decimal: "num_loop digits_lower 10 n (-1) acc = decimal n @ acc"
proof (induction n arbitrary: acc rule: less_induct)
  case (less n)
  show ?case
  proof (cases "n < 10")
    case True
    then show ?thesis by (simp add: num_loop.simps [of _ _ n] decimal.simps [of n] digit_lower)
  next
    case False
    then have "n div 10 < n" "n div 10 \<noteq> 0" by simp_all
    with less [of "n div 10"] False show ?thesis
      by (simp add: num_loop.simps [of _ _ n] decimal.simps [of n] digit_lower)
  qed
qed

lemma length_decimal: "n < 10 ^ k \<Longrightarrow> 0 < k \<Longrightarrow> length (decimal n) \<le> k"
proof (induction k arbitrary: n)
  case (Suc k)
  show ?case
  proof (cases "n < 10")
    case True
    then show ?thesis by (simp add: decimal.simps [of n])
  next
    case False
    then have "0 < k" using Suc.prems(1) by (cases k) auto
    moreover have "n div 10 < 10 ^ k" using Suc.prems(1) by (simp add: less_mult_imp_div_less mult.commute)
    ultimately show ?thesis using Suc.IH [of "n div 10"] False by (simp add: decimal.simps [of n])
  qed
qed simp

lemma num_fmt_unsigned: "num_fmt i 10 0 pad False False (-1) = Some (decimal (unat i))"
proof -
  have "unat i < 10 ^ 20" using unat_lt_2_64 [of i] by simp
  then have "length (decimal (unat i)) \<le> 20" by (rule length_decimal) simp
  then show ?thesis by (simp add: num_fmt_def Let_def num_loop_decimal)
qed

text \<open>Sign extension from 32 to 64 bits.\<close>

lemma uint_scast: "uint (scast (w :: 32 word) :: u64) = (if sint w < 0 then 18446744073709551616 + sint w else uint w)"
proof -
  have b: "- 2147483648 \<le> sint w" "sint w < 2147483648" using sint_greater_eq [of w] sint_less [of w] by simp_all
  have m: "uint (scast w :: u64) = sint w mod 18446744073709551616" by (simp only: scast_eq uint_word_of_int) simp
  show ?thesis
  proof (cases "sint w < 0")
    case True
    then show ?thesis
      using b mod_pos_pos_trivial [of "18446744073709551616 + sint w" 18446744073709551616] by (simp add: m)
  next
    case False
    then have "sint w = uint w" using b uint_sint [of w] take_bit_int_eq_self [of "sint w" 32] by simp
    moreover have "sint w mod 18446744073709551616 = sint w" using False b by (intro mod_pos_pos_trivial) linarith+
    ultimately show ?thesis using False m by simp
  qed
qed

lemma unat_scast: "unat (scast (w :: 32 word) :: u64) = (if sint w < 0 then nat (2 ^ 64 + sint w) else unat w)"
proof -
  have "unat (scast w :: u64) = nat (uint (scast w :: u64))" "unat w = nat (uint w)" by (simp_all only: unat_eq_nat_uint)
  moreover have "(2 :: int) ^ 64 = 18446744073709551616" by simp
  ultimately show ?thesis using uint_scast [of w] by presburger
qed

text \<open>\<open>%u\<close> prints an \<open>int\<close> argument after sign extension to 64 bits: non-negative values come out as their
  decimal numeral, the upper half of the unsigned range as a number above \<open>2 ^ 63\<close>; \<open>%lu\<close> prints every value right.\<close>

theorem lai_format_unsigned:
  assumes "20 < len"
  shows "lai_format len ''%lu'' [LaiLong v] = Some (decimal (unat v)) \<and>
    lai_format len ''%u'' [LaiInt w] = Some (decimal (if sint w < 0 then nat (2 ^ 64 + sint w) else unat w))"
proof -
  have le: "length (decimal (unat i)) \<le> 20" for i :: u64
    using length_decimal [of "unat i" 20] unat_lt_2_64 [of i] by simp
  have p: "parse_conversion ''lu'' = (\<lparr>cv_pad_with = CHR '' '', cv_padding = 0, cv_wide = True\<rparr>, ''u'')"
    "parse_conversion ''u'' = (\<lparr>cv_pad_with = CHR '' '', cv_padding = 0, cv_wide = False\<rparr>, ''u'')" by code_simp+
  have u: "lai_format len (CHR ''%'' # r) args = Some (decimal (unat i))"
    if "snd (parse_conversion r) = ''u''" "cv_padding (fst (parse_conversion r)) = 0"
      "int_arg (cv_wide (fst (parse_conversion r))) args = Some (i, [])" for r args i
    using that le [of i] assms by (simp add: lai_format.simps convert_def num_fmt_unsigned)
  show ?thesis using u [of "''lu''" "[LaiLong v]" v] u [of "''u''" "[LaiInt w]" "scast w"]
    by (simp only: p int_arg_def unat_scast) simp
qed

theorem lai_format_unsigned_witness:
  "lai_format 128 ''%u'' [LaiInt 7] = Some (decimal 7) \<and> lai_format 128 ''%u'' [LaiInt (- 1)] = Some (decimal 18446744073709551615)"
  using lai_format_unsigned [of 128 0 7] lai_format_unsigned [of 128 0 "- 1"] by simp

lemma lai_format_literal: "CHR ''%'' \<notin> set fmt \<Longrightarrow> 0 < len \<Longrightarrow> lai_format len fmt args = Some fmt"
  by (induction fmt) (auto simp: lai_format.simps)

text \<open>C23: characters of the format outside conversions are copied without regard to the length limit; a message of 144 plain
  characters overruns the buffers of \<open>lai_debug\<close> and \<open>lai_warn\<close>, whose limit is 128.\<close>

theorem lai_message_overrun:
  assumes "CHR ''%'' \<notin> set fmt"
  shows "lai_format 128 fmt args = Some fmt \<and> (lai_message fmt args = None \<longleftrightarrow> 144 \<le> length fmt)"
  using lai_format_literal [OF assms, of 128] by (auto simp: lai_message_def)

theorem lai_message_overrun_witness: "lai_message (replicate 144 CHR ''a'') [] = None \<and> lai_message (replicate 143 CHR ''a'') [] \<noteq> None"
  using lai_message_overrun [of "replicate 144 CHR ''a''" "[]"] lai_message_overrun [of "replicate 143 CHR ''a''" "[]"] by simp

end
