(* ===== verification/LaiResource.thy ===== *)
theory LaiResource
  imports LaiLibc
begin

text \<open>
  \<open>helpers/resource.c\<close>: the resource descriptors of ACPI devices, a sequence of small and large entries in a
  byte buffer.  The view is a cursor into the buffer; \<open>lai_resource_iterate\<close> moves it to the next entry and
  \<open>lai_resource_next_irq\<close> enumerates the interrupts of an entry.  Error codes are those of \<open>core/error.h\<close>;
  a failed assertion and a panic give no result.
\<close>

subsection \<open>Error codes\<close>

datatype lai_api_error =
    LAI_ERROR_NONE | LAI_ERROR_OUT_OF_MEMORY | LAI_ERROR_TYPE_MISMATCH | LAI_ERROR_NO_SUCH_NODE
  | LAI_ERROR_OUT_OF_BOUNDS | LAI_ERROR_EXECUTION_FAILURE | LAI_ERROR_ILLEGAL_ARGUMENTS
  | LAI_ERROR_UNEXPECTED_RESULT | LAI_ERROR_END_REACHED | LAI_ERROR_UNSUPPORTED

fun lai_api_error_to_string :: "lai_api_error \<Rightarrow> string" where
  "lai_api_error_to_string LAI_ERROR_NONE = ''No error''"
| "lai_api_error_to_string LAI_ERROR_OUT_OF_MEMORY = ''Out of memory''"
| "lai_api_error_to_string LAI_ERROR_TYPE_MISMATCH = ''Type mismatch''"
| "lai_api_error_to_string LAI_ERROR_NO_SUCH_NODE = ''No such node''"
| "lai_api_error_to_string LAI_ERROR_OUT_OF_BOUNDS = ''Out of bounds''"
| "lai_api_error_to_string LAI_ERROR_EXECUTION_FAILURE = ''Execution failure''"
| "lai_api_error_to_string LAI_ERROR_ILLEGAL_ARGUMENTS = ''Illegal arguments''"
| "lai_api_error_to_string LAI_ERROR_UNEXPECTED_RESULT = ''Unexpected results''"
| "lai_api_error_to_string LAI_ERROR_END_REACHED = ''End of iteration''"
| "lai_api_error_to_string LAI_ERROR_UNSUPPORTED = ''Unsupported''"

subsection \<open>Descriptors\<close>

definition ACPI_SMALL_IRQ :: u8 where "ACPI_SMALL_IRQ = 0x04"
definition ACPI_SMALL_DMA :: u8 where "ACPI_SMALL_DMA = 0x05"
definition ACPI_SMALL_IO :: u8 where "ACPI_SMALL_IO = 0x08"
definition ACPI_SMALL_FIXED_IO :: u8 where "ACPI_SMALL_FIXED_IO = 0x09"
definition ACPI_SMALL_FIXED_DMA :: u8 where "ACPI_SMALL_FIXED_DMA = 0x0A"
definition ACPI_SMALL_VENDOR :: u8 where "ACPI_SMALL_VENDOR = 0x0E"
definition ACPI_SMALL_END :: u8 where "ACPI_SMALL_END = 0x0F"
definition ACPI_LARGE_MEM24 :: u8 where "ACPI_LARGE_MEM24 = 0x81"
definition ACPI_LARGE_REGISTER :: u8 where "ACPI_LARGE_REGISTER = 0x82"
definition ACPI_LARGE_MEM32 :: u8 where "ACPI_LARGE_MEM32 = 0x85"
definition ACPI_LARGE_FIXED_MEM32 :: u8 where "ACPI_LARGE_FIXED_MEM32 = 0x86"
definition ACPI_LARGE_IRQ :: u8 where "ACPI_LARGE_IRQ = 0x89"
definition ACPI_SMALL_IRQ_EDGE_TRIGGERED :: u8 where "ACPI_SMALL_IRQ_EDGE_TRIGGERED = 0x01"
definition ACPI_SMALL_IRQ_ACTIVE_LOW :: u8 where "ACPI_SMALL_IRQ_ACTIVE_LOW = 0x08"
definition ACPI_EXTENDED_IRQ_EDGE_TRIGGERED :: u8 where "ACPI_EXTENDED_IRQ_EDGE_TRIGGERED = 0x02"
definition ACPI_EXTENDED_IRQ_ACTIVE_LOW :: u8 where "ACPI_EXTENDED_IRQ_ACTIVE_LOW = 0x04"
definition ACPI_RESOURCE_IRQ :: u8 where "ACPI_RESOURCE_IRQ = 3"

lemmas acpi_types = ACPI_SMALL_IRQ_def ACPI_SMALL_DMA_def ACPI_SMALL_IO_def ACPI_SMALL_FIXED_IO_def
  ACPI_SMALL_FIXED_DMA_def ACPI_SMALL_VENDOR_def ACPI_SMALL_END_def ACPI_LARGE_MEM24_def
  ACPI_LARGE_REGISTER_def ACPI_LARGE_MEM32_def ACPI_LARGE_FIXED_MEM32_def ACPI_LARGE_IRQ_def

record lai_resource_header_info =
  hi_type :: u8
  hi_size :: u64
  hi_skip_size :: u64

definition lai_get_header_info :: "mem \<Rightarrow> addr \<Rightarrow> lai_resource_header_info" where
  "lai_get_header_info m h =
     (let b0 = load8 m h
      in if b0 AND push_bit 7 1 = 0
         then let size = ucast (b0 AND 0x7) in \<lparr>hi_type = drop_bit 3 b0 AND 0xF, hi_size = size, hi_skip_size = size + 1\<rparr>
         else let size = ucast (load8 m (h + 1)) OR push_bit 8 (ucast (load8 m (h + 2)))
              in \<lparr>hi_type = b0, hi_size = size, hi_skip_size = size + 3\<rparr>)"

subsection \<open>The view\<close>

record lai_resource_view =
  rv_entry :: addr
  rv_skip_size :: u64
  rv_entry_idx :: u64
  rv_base :: u64
  rv_length :: u64
  rv_alignment :: u64
  rv_flags :: u8
  rv_gsi :: u32

definition lai_initialize_resource_view :: "addr \<Rightarrow> lai_resource_view" where
  "lai_initialize_resource_view crs = \<lparr>rv_entry = crs, rv_skip_size = 0, rv_entry_idx = 0, rv_base = 0, rv_length = 0,
     rv_alignment = 0, rv_flags = 0, rv_gsi = 0\<rparr>"

text \<open>Four bytes combined as \<open>int\<close>: the value is sign-extended where it becomes a 64-bit length.\<close>

definition entry_word :: "mem \<Rightarrow> addr \<Rightarrow> 32 word" where
  "entry_word m a = ucast (load8 m a) OR push_bit 8 (ucast (load8 m (a + 1))) OR push_bit 16 (ucast (load8 m (a + 2)))
     OR push_bit 24 (ucast (load8 m (a + 3)))"

definition lai_resource_iterate :: "mem \<Rightarrow> lai_resource_view \<Rightarrow> (lai_api_error \<times> lai_resource_view) option" where
  "lai_resource_iterate m it =
     (if rv_entry it = 0 then None
      else let entry = rv_entry it + rv_skip_size it;
               it = it\<lparr>rv_entry := entry\<rparr>;
               info = lai_get_header_info m entry;
               ty = hi_type info;
               skip = hi_skip_size info
           in Some (
             if ty = ACPI_SMALL_FIXED_IO then
               (LAI_ERROR_NONE, it\<lparr>rv_base := ucast (load8 m (entry + 1)) OR push_bit 8 (ucast (load8 m (entry + 2) AND 0x3)),
                  rv_length := ucast (load8 m (entry + 3)), rv_skip_size := skip\<rparr>)
             else if ty = ACPI_SMALL_IO then
               (LAI_ERROR_NONE, it\<lparr>rv_flags := load8 m (entry + 1),
                  rv_base := ucast (load8 m (entry + 2)) OR push_bit 8 (ucast (load8 m (entry + 3))),
                  rv_alignment := ucast (load8 m (entry + 6)), rv_length := ucast (load8 m (entry + 7)), rv_skip_size := skip\<rparr>)
             else if ty = ACPI_SMALL_IRQ then
               (if hi_size info = 2
                then (LAI_ERROR_NONE, it\<lparr>rv_entry_idx := 0, rv_flags := ACPI_SMALL_IRQ_EDGE_TRIGGERED, rv_skip_size := skip\<rparr>)
                else if hi_size info = 3
                then (LAI_ERROR_NONE, it\<lparr>rv_entry_idx := 0, rv_flags := load8 m (entry + 3), rv_skip_size := skip\<rparr>)
                else (LAI_ERROR_UNEXPECTED_RESULT, it\<lparr>rv_entry_idx := 0\<rparr>))
             else if ty = ACPI_SMALL_END then (LAI_ERROR_END_REACHED, it\<lparr>rv_skip_size := skip\<rparr>)
             else if ty = ACPI_LARGE_IRQ then
               (LAI_ERROR_NONE, it\<lparr>rv_entry_idx := 0, rv_flags := load8 m (entry + 3), rv_skip_size := skip\<rparr>)
             else if ty = ACPI_LARGE_FIXED_MEM32 then
               (LAI_ERROR_NONE, it\<lparr>rv_flags := load8 m (entry + 3), rv_base := ucast (entry_word m (entry + 4)),
                  rv_length := scast (entry_word m (entry + 8)), rv_skip_size := skip\<rparr>)
             else (LAI_ERROR_NONE, it\<lparr>rv_skip_size := skip\<rparr>)))"

datatype lai_resource_type =
    LAI_RESOURCE_NULL | LAI_RESOURCE_IRQ | LAI_RESOURCE_DMA | LAI_RESOURCE_IO | LAI_RESOURCE_MEM
  | LAI_RESOURCE_VENDOR | LAI_RESOURCE_REGISTER

definition lai_resource_get_type :: "mem \<Rightarrow> lai_resource_view \<Rightarrow> lai_resource_type option" where
  "lai_resource_get_type m it =
     (if rv_entry it = 0 then None
      else let ty = hi_type (lai_get_header_info m (rv_entry it))
           in Some (
             if ty = ACPI_SMALL_IRQ then LAI_RESOURCE_IRQ
             else if ty = ACPI_SMALL_DMA then LAI_RESOURCE_DMA
             else if ty = ACPI_SMALL_IO then LAI_RESOURCE_IO
             else if ty = ACPI_SMALL_FIXED_IO then LAI_RESOURCE_IO
             else if ty = ACPI_SMALL_FIXED_DMA then LAI_RESOURCE_DMA
             else if ty = ACPI_SMALL_VENDOR then LAI_RESOURCE_VENDOR
             else if ty = ACPI_SMALL_END then LAI_RESOURCE_NULL
             else if ty = ACPI_LARGE_MEM24 then LAI_RESOURCE_MEM
             else if ty = ACPI_LARGE_REGISTER then LAI_RESOURCE_REGISTER
             else if ty = ACPI_LARGE_MEM32 then LAI_RESOURCE_MEM
             else if ty = ACPI_LARGE_FIXED_MEM32 then LAI_RESOURCE_MEM
             else if ty = ACPI_LARGE_IRQ then LAI_RESOURCE_IRQ
             else LAI_RESOURCE_NULL))"

definition lai_resource_irq_is_level_triggered :: "mem \<Rightarrow> lai_resource_view \<Rightarrow> bool option" where
  "lai_resource_irq_is_level_triggered m it =
     (if rv_entry it = 0 then None
      else let info = lai_get_header_info m (rv_entry it); flags = load8 m (rv_entry it + 3)
           in if hi_type info = ACPI_SMALL_IRQ
              then Some (if hi_size info < 3 then False else flags AND ACPI_SMALL_IRQ_EDGE_TRIGGERED = 0)
              else if hi_type info = ACPI_LARGE_IRQ then Some (flags AND ACPI_EXTENDED_IRQ_EDGE_TRIGGERED = 0)
              else None)"

definition lai_resource_irq_is_active_low :: "mem \<Rightarrow> lai_resource_view \<Rightarrow> bool option" where
  "lai_resource_irq_is_active_low m it =
     (if rv_entry it = 0 then None
      else let info = lai_get_header_info m (rv_entry it); flags = load8 m (rv_entry it + 3)
           in if hi_type info = ACPI_SMALL_IRQ
              then Some (if hi_size info < 3 then False else flags AND ACPI_SMALL_IRQ_ACTIVE_LOW \<noteq> 0)
              else if hi_type info = ACPI_LARGE_IRQ then Some (flags AND ACPI_EXTENDED_IRQ_ACTIVE_LOW \<noteq> 0)
              else None)"

text \<open>
  The loop over the mask of a small entry: it stops behind the first set bit at or after \<open>entry_idx\<close>.
  The mask is kept in eight bits.
\<close>

function next_mask_bit :: "u8 \<Rightarrow> u64 \<Rightarrow> u64 option \<times> u64" where
  "next_mask_bit msk idx =
     (if idx \<le> 15
      then if bit msk (unat idx) then (Some idx, idx + 1) else next_mask_bit msk (idx + 1)
      else (None, idx))"
  by pat_completeness auto
termination
proof (relation "measure (\<lambda>(_, idx). 16 - unat idx)")
  fix msk :: u8 and idx :: u64
  assume "idx \<le> 15"
  then have "unat idx \<le> 15" by (simp add: word_le_nat_alt)
  moreover from this have "unat (idx + 1) = Suc (unat idx)" by (simp add: unat_word_ariths)
  ultimately show "((msk, idx + 1), msk, idx) \<in> measure (\<lambda>(_, idx). 16 - unat idx)" by simp
qed simp

declare next_mask_bit.simps [simp del]

definition irq_mask :: "mem \<Rightarrow> addr \<Rightarrow> u8" where
  "irq_mask m ent = ucast (ucast (load8 m (ent + 1)) OR push_bit 8 (ucast (load8 m (ent + 2))) :: 32 word)"

definition lai_resource_next_irq :: "mem \<Rightarrow> lai_resource_view \<Rightarrow> (lai_api_error \<times> lai_resource_view) option" where
  "lai_resource_next_irq m it =
     (if rv_entry it = 0 then None
      else let entry = rv_entry it; ty = hi_type (lai_get_header_info m entry)
           in Some (
             if ty = ACPI_SMALL_IRQ then
               (case next_mask_bit (irq_mask m entry) (rv_entry_idx it) of
                  (Some g, idx) \<Rightarrow> (LAI_ERROR_NONE, it\<lparr>rv_gsi := ucast g, rv_entry_idx := idx\<rparr>)
                | (None, idx) \<Rightarrow> (LAI_ERROR_END_REACHED, it\<lparr>rv_entry_idx := idx\<rparr>))
             else if ty = ACPI_LARGE_IRQ then
               (if rv_entry_idx it < ucast (load8 m (entry + 4))
                then let offset = ucast (4 * rv_entry_idx it + 5) :: u8
                     in (LAI_ERROR_NONE, it\<lparr>rv_gsi := entry_word m (entry + ucast offset), rv_entry_idx := rv_entry_idx it + 1\<rparr>)
                else (LAI_ERROR_END_REACHED, it))
             else (LAI_ERROR_ILLEGAL_ARGUMENTS, it)))"

subsection \<open>The deprecated reader\<close>

record acpi_resource =
  ar_type :: u8
  ar_base :: u64
  ar_irq_flags :: u8

text \<open>The bits of a small mask, with the flags of the entry; \<open>i\<close> counts up while bits are left.\<close>

definition small_irqs :: "u16 \<Rightarrow> u8 \<Rightarrow> acpi_resource list" where
  "small_irqs msk flags = map (\<lambda>i. \<lparr>ar_type = ACPI_RESOURCE_IRQ, ar_base = of_nat i, ar_irq_flags = flags\<rparr>) (filter (bit msk) [0..<16])"

text \<open>
  The loop of \<open>lai_read_resource\<close> over the buffer: the entries it has stored in \<open>dest\<close> when it ends, or an empty
  list when it gives up (the function then returns 0).  It may run past a buffer without an end tag.
\<close>

partial_function (option) read_resources :: "mem \<Rightarrow> addr \<Rightarrow> acpi_resource list \<Rightarrow> acpi_resource list option" where
  "read_resources m data dest =
     (let b0 = load8 m data
      in if b0 = 0x79 then Some dest
         else if b0 AND 0x80 = 0
         then let data_size = ucast (b0 AND 7) :: u64
              in if drop_bit 3 b0 = ACPI_SMALL_END then Some dest
                 else if drop_bit 3 b0 = ACPI_SMALL_IRQ
                 then let flags = (if data_size \<ge> 3 then load8 m (data + 3) else ACPI_SMALL_IRQ_EDGE_TRIGGERED)
                      in read_resources m (data + data_size + 1) (dest @ small_irqs (load16 m (data + 1)) flags)
                 else Some []
         else let data_size = ucast (load8 m (data + 1)) OR push_bit 8 (ucast (load8 m (data + 2))) :: u64
              in if b0 = ACPI_LARGE_IRQ
                 then read_resources m (data + data_size + 3)
                        (dest @ [\<lparr>ar_type = ACPI_RESOURCE_IRQ, ar_base = ucast (load32 m (data + 5)), ar_irq_flags = load8 m (data + 3)\<rparr>])
                 else Some [])"

subsection \<open>Enumerating the interrupts of an entry\<close>

text \<open>The interrupts a caller gets from up to \<open>n\<close> calls of \<open>lai_resource_next_irq\<close>.\<close>

fun irqs_of :: "nat \<Rightarrow> mem \<Rightarrow> lai_resource_view \<Rightarrow> u32 list" where
  "irqs_of 0 m it = []"
| "irqs_of (Suc n) m it = (case lai_resource_next_irq m it of
     Some (e, it') \<Rightarrow> if e = LAI_ERROR_NONE then rv_gsi it' # irqs_of n m it' else [] | None \<Rightarrow> [])"

lemma irq_mask_low: "irq_mask m e = load8 m (e + 1)"
  unfolding irq_mask_def by (rule bit_word_eqI) (auto simp: bit_simps)

lemma next_mask_bit_list:
  assumes "i \<le> 16"
  shows "next_mask_bit msk (of_nat i) = (case filter (bit msk) [i..<16] of
     [] \<Rightarrow> (None, 16) | k # _ \<Rightarrow> (Some (of_nat k), of_nat (Suc k)))"
  using assms
proof (induction "16 - i" arbitrary: i)
  case 0
  then have "i = 16" by simp
  then show ?case by (subst next_mask_bit.simps) simp
next
  case (Suc n)
  then have i: "i < 16" "n = 16 - Suc i" "Suc i \<le> 16" by simp_all
  have u: "unat (of_nat i :: u64) = i" using i(1) by (simp add: unat_of_nat_eq)
  then have le: "(of_nat i :: u64) \<le> 15" using i(1) by (simp add: word_le_nat_alt)
  have up: "[i..<16] = i # [Suc i..<16]" using i(1) by (rule upt_conv_Cons)
  show ?case
    using Suc.hyps(1) [OF i(2,3)] le u by (subst next_mask_bit.simps) (simp add: up add.commute)
qed

lemma filter_upt_tail:
  assumes "filter P [i..<j] = k # ks" shows "ks = filter P [Suc k..<j]" and "i \<le> k" and "k < j"
proof -
  have "k \<in> set (filter P [i..<j])" by (simp add: assms)
  then have k: "i \<le> k" "k < j" and Pk: "P k" by auto
  then have "[i..<j] = [i..<k] @ k # [Suc k..<j]"
    using upt_add_eq_append [of i k "j - k"] upt_conv_Cons [of k j] by simp
  then have "filter P [i..<k] @ k # filter P [Suc k..<j] = k # ks" using assms Pk by simp
  moreover have "k \<notin> set (filter P [i..<k])" by simp
  ultimately show "ks = filter P [Suc k..<j]" by (cases "filter P [i..<k]") auto
  show "i \<le> k" "k < j" by (fact k)+
qed

lemma irqs_of_small:
  assumes "rv_entry it \<noteq> 0" and "hi_type (lai_get_header_info m (rv_entry it)) = ACPI_SMALL_IRQ"
    and "rv_entry_idx it = of_nat i" and "i \<le> 16" and "16 - i < n"
  shows "irqs_of n m it = map of_nat (filter (bit (load8 m (rv_entry it + 1))) [i..<16])"
  using assms
proof (induction n arbitrary: i it)
  case (Suc n)
  let ?P = "bit (load8 m (rv_entry it + 1))"
  note nx = next_mask_bit_list [OF Suc.prems(4), of "load8 m (rv_entry it + 1)"]
  show ?case
  proof (cases "filter ?P [i..<16]")
    case Nil
    then show ?thesis using Suc.prems nx by (simp add: lai_resource_next_irq_def Let_def irq_mask_low)
  next
    case (Cons k ks)
    note t = filter_upt_tail [OF Cons]
    define it' where "it' = it\<lparr>rv_gsi := ucast (of_nat k :: u64), rv_entry_idx := of_nat (Suc k)\<rparr>"
    have "lai_resource_next_irq m it = Some (LAI_ERROR_NONE, it')"
      using Suc.prems nx Cons by (simp add: lai_resource_next_irq_def Let_def irq_mask_low it'_def)
    moreover have "irqs_of n m it' = map of_nat (filter ?P [Suc k..<16])"
      using Suc.IH [of it' "Suc k"] Suc.prems t(2,3) by (simp add: it'_def)
    moreover have "rv_gsi it' = of_nat k"
      using t(3) by (simp add: it'_def word_eq_iff_unsigned [where 'a = nat] unsigned_ucast_eq unat_of_nat take_bit_nat_eq_self)
    ultimately show ?thesis using Cons t(1) by simp
  qed
qed simp

lemma small_bits: "filter (bit (b :: u8)) [0..<16] = filter (bit b) [0..<8]"
proof -
  have "[0..<16] = [0..<8] @ [8..<16 :: nat]" by (simp add: upt_rec)
  moreover have "filter (bit b) [8..<16] = []" using bit_imp_le_length [of b] by (fastforce simp: filter_empty_conv)
  ultimately show ?thesis by (metis append_Nil2 filter_append)
qed

text \<open>on a small interrupt entry the calls of \<open>lai_resource_next_irq\<close> enumerate, in order, the interrupts of the first mask byte
  only: interrupts 8 to 15, in the second byte, are never returned, although the deprecated reader returns all sixteen.\<close>

theorem lai_resource_next_irq_small:
  assumes "rv_entry it \<noteq> 0" and "hi_type (lai_get_header_info m (rv_entry it)) = ACPI_SMALL_IRQ"
    and "rv_entry_idx it = 0" and "17 \<le> n"
  shows "irqs_of n m it = map of_nat (filter (bit (load8 m (rv_entry it + 1))) [0..<8]) \<and>
    map ar_base (small_irqs (load16 m (rv_entry it + 1)) f) = map of_nat (filter (bit (load16 m (rv_entry it + 1))) [0..<16])"
  using irqs_of_small [OF assms(1,2), of 0 n] assms(3,4) by (simp add: small_bits small_irqs_def comp_def)

theorem lai_resource_next_irq_small_witness:
  "irqs_of 17 ((\<lambda>_. 0)(0x100 := 0x22, 0x101 := 0x10, 0x102 := 0x08)) (lai_initialize_resource_view 0x100) = [4] \<and>
   map ar_base (small_irqs (load16 ((\<lambda>_. 0)(0x100 := 0x22, 0x101 := 0x10, 0x102 := 0x08)) 0x101) 1) = [4, 11]"
proof -
  let ?m = "(\<lambda>_. 0)(0x100 := 0x22, 0x101 := 0x10, 0x102 := 0x08) :: mem"
  have "hi_type (lai_get_header_info ?m 0x100) = ACPI_SMALL_IRQ" by code_simp
  moreover have "filter (bit (load8 ?m 0x101)) [0..<8] = [4]" "filter (bit (load16 ?m 0x101)) [0..<16] = [4, 11]" by code_simp+
  ultimately show ?thesis
    using lai_resource_next_irq_small [of "lai_initialize_resource_view 0x100" ?m 17 1]
    by (simp add: lai_initialize_resource_view_def)
qed

end
