(* ===== verification/HeapFrame.thy ===== *)
theory HeapFrame
  imports Heap Acpi
begin

text \<open>
  What memory management leaves alone: the page allocator, the page tables and the heap change only the memory,
  their own counters and the heap's descriptor.  Whatever state a client keeps beside them is the same after any of
  their calls.
\<close>

lemma MmRequestPage_more: "MmRequestPage s = Some (p, s') \<Longrightarrow> pmm.more s' = pmm.more s"
  by (auto simp: MmRequestPage_def MmLockPage_def SET_PAGE_BIT_def Let_def bind_eq_Some_conv)

lemma descend_more: "descend t i s = Some (p, s') \<Longrightarrow> pmm.more s' = pmm.more s"
  by (auto simp: descend_def Let_def bind_eq_Some_conv dest!: MmRequestPage_more split: if_splits)

lemma MmMapMemory_more: "MmMapMemory v p s = Some s' \<Longrightarrow> pmm.more s' = pmm.more s"
  by (auto simp: MmMapMemory_def Let_def bind_eq_Some_conv dest!: descend_more)

lemma expand_loop_more:
  assumes "expand_loop start sz offset s = Some s'"
  shows "pmm.more s' = pmm.more s"
proof (rule expand_loop.raw_induct [where P = "\<lambda>start sz offset s s'. pmm.more s' = pmm.more s", OF _ assms], goal_cases)
  case (1 loop start sz offset s s')
  show ?case using 1(2)
    by (auto simp: bind_eq_Some_conv dest!: 1(1) MmMapMemory_more MmRequestPage_more split: if_splits)
qed

lemma HeapExpand_more: "HeapExpand heap sz s = Some (heap', s') \<Longrightarrow> pmm.more s' = pmm.more s"
  by (auto simp: HeapExpand_def Let_def bind_eq_Some_conv dest!: expand_loop_more)

lemma alloc_grow_more: "alloc_grow sz heap s = Some (heap', s') \<Longrightarrow> pmm.more s' = pmm.more s"
  by (auto simp: alloc_grow_def Let_def bind_eq_Some_conv dest!: HeapExpand_more split: if_splits prod.splits)

lemma HeapAllocate_more:
  assumes "HeapAllocate sz al heap s = Some r"
  shows "pmm.more (snd (snd r)) = pmm.more s"
proof (rule HeapAllocate.raw_induct [where P = "\<lambda>sz al heap s r. pmm.more (snd (snd r)) = pmm.more s", OF _ assms], goal_cases)
  case (1 alloc sz al heap s r)
  show ?case using 1(2)
    by (auto simp: Let_def bind_eq_Some_conv dest!: 1(1) alloc_grow_more split: if_splits prod.splits)
qed

lemma kmalloc_more:
  assumes "kmalloc n s = Some (p, s')"
  shows "heap_state.more s' = heap_state.more s"
proof -
  obtain heap t where "HeapAllocate (ucast n) 0 (kHeap s) s = Some (p, heap, t)" "s' = t\<lparr>kHeap := heap\<rparr>"
    using assms by (auto simp: kmalloc_def bind_eq_Some_conv)
  with HeapAllocate_more [of "ucast n" 0 "kHeap s" s] show ?thesis by (cases s; cases t) auto
qed

lemma kfree_more: "kfree p s = Some s' \<Longrightarrow> heap_state.more s' = heap_state.more s"
  by (auto simp: kfree_def bind_eq_Some_conv)

lemma laihost_malloc_more: "laihost_malloc n s = Some (p, s') \<Longrightarrow> heap_state.more s' = heap_state.more s"
  by (auto simp: laihost_malloc_def dest!: kmalloc_more)

lemma laihost_free_more: "laihost_free p n s = Some s' \<Longrightarrow> heap_state.more s' = heap_state.more s"
  by (auto simp: laihost_free_def dest!: kfree_more)

lemma laihost_realloc_more: "laihost_realloc p n k s = Some (q, s') \<Longrightarrow> heap_state.more s' = heap_state.more s"
  by (auto simp: laihost_realloc_def Let_def bind_eq_Some_conv dest!: kmalloc_more kfree_more split: if_splits)

text \<open>With a hole that fits, an allocation returns a block that is not null.\<close>

lemma allocated_nonzero:
  assumes "heap_ok m h bs'" and "allocated bs bs' r n"
  shows "r \<noteq> 0"
proof -
  obtain u where u: "u \<in> set bs'" "r = b_pos u + 16" using assms(2) by (auto simp: allocated_def)
  have "unat (b_pos u) + 16 < 2 ^ 64" using laid_out_bounds [OF _ u(1)] assms(1) by (force simp: heap_ok_def)
  then have "unat r = unat (b_pos u) + 16" by (simp add: u(2) unat_word_ariths)
  then show ?thesis by auto
qed

lemma kmalloc_returns:
  assumes "heap_ok (mem s) (kHeap s) bs" and "b \<in> set bs" and "b_hole b" and "fits (ucast n) b"
  shows "\<exists>r s'. kmalloc n s = Some (r, s') \<and> r \<noteq> 0"
  using kheap.allocate_ok [OF assms] allocated_nonzero by blast

text \<open>
  A heap with room: one of its holes has at least the given size.  An allocation takes at most its size and 32 bytes of it.
\<close>

definition heap_room :: "'a heap_state_scheme \<Rightarrow> block list \<Rightarrow> nat \<Rightarrow> bool" where
  "heap_room s bs k \<longleftrightarrow> heap_ok (mem s) (kHeap s) bs \<and> (\<exists>b\<in>set bs. b_hole b \<and> k \<le> unat (b_size b))"

lemma split_hole_rest:
  assumes "unat n + 64 \<le> unat (b_size b)"
  shows "\<exists>c\<in>set (split_hole n b). b_hole c \<and> unat (b_size c) = unat (b_size b) - (unat n + 32)"
proof -
  have n: "unat (n + 32) = unat n + 32" using assms unat_lt_2_64 [of "b_size b"] by (subst unat_add_u64) auto
  then have d: "unat (b_size b - (n + 32)) = unat (b_size b) - (unat n + 32)" using assms by (subst unat_sub_u64) auto
  then have "\<not> b_size b - (n + 32) < 32" using assms by (simp add: word_less_nat_alt)
  then have fit: "alloc_fit n (b_size b) = (n, n + 32)"
    by (simp add: alloc_fit_def Let_def sizeof_HeapHeader_def sizeof_HeapFooter_def add.assoc)
  have "n + 32 \<noteq> b_size b" using n assms by auto
  then show ?thesis using fit d by (simp add: split_hole_def Let_def)
qed

lemma kmalloc_room:
  assumes room: "heap_room s bs k" and k: "unat n + 64 \<le> k"
  shows "\<exists>r s' bs'. kmalloc n s = Some (r, s') \<and> r \<noteq> 0 \<and> heap_room s' bs' (k - (unat n + 32)) \<and>
    heap_state.more s' = heap_state.more s \<and> (\<exists>u\<in>set bs'. \<not> b_hole u \<and> r = b_pos u + 16) \<and>
    (\<forall>c\<in>set bs. \<not> b_hole c \<longrightarrow> c \<in> set bs' \<and> r \<noteq> b_pos c + 16)"
proof -
  obtain b where ok: "heap_ok (mem s) (kHeap s) bs" and b: "b \<in> set bs" "b_hole b" "k \<le> unat (b_size b)"
    using room by (auto simp: heap_room_def)
  have un: "unat (ucast n :: u64) = unat n" by (simp add: unat_ucast_up)
  have fits: "fits (ucast n) b" using k b(3) un by simp
  from HeapAllocate_hole [OF ok b(1,2) fits] obtain xs a ys h' m' where a: "bs = xs @ a # ys" "b_hole a" "fits (ucast n) a"
    "HeapAllocate (ucast n) 0 (kHeap s) s = Some (b_pos a + 16, h', s\<lparr>mem := m'\<rparr>)"
    "heap_ok m' h' (xs @ split_hole (ucast n) a @ ys)" "changes_only (block_zone a \<union> index_zone (kHeap s)) (mem s) m'" .
  let ?bs = "xs @ split_hole (ucast n) a @ ys" and ?r = "b_pos a + 16"
  have lay: "laid_out (mem s) (kHeap s) (xs @ a # ys)" using ok a(1) by (simp add: heap_ok_def)
  have run: "kmalloc n s = Some (?r, s\<lparr>mem := m', kHeap := h'\<rparr>)" using a(4) by (simp add: kmalloc_def)
  have "\<exists>c\<in>set ?bs. b_hole c \<and> k - (unat n + 32) \<le> unat (b_size c)"
  proof (cases "b = a")
    case True
    then show ?thesis using split_hole_rest [of "ucast n" a] b(3) k un by (auto intro: bexI)
  next
    case False
    then have "b \<in> set ?bs" using b(1) a(1) by auto
    then show ?thesis using b(2,3) by (intro bexI [of _ b]) auto
  qed
  moreover have used: "c \<in> set ?bs \<and> ?r \<noteq> b_pos c + 16" if c: "c \<in> set bs" "\<not> b_hole c" for c
  proof -
    have "c \<noteq> a" using c a(2) by auto
    then have m: "c \<in> set (xs @ ys)" using c(1) a(1) by auto
    have "block_zone c \<inter> block_zone a = {}"
      using lay tiles_disjoint [OF _ m, of "unat (start_address (kHeap s))" a "unat (end_address (kHeap s))"] by (auto simp: laid_out_def)
    moreover have "block_zone c \<noteq> {}" "block_zone a \<noteq> {}"
      using laid_out_bounds(4) [OF lay, of c] laid_out_bounds(4) [OF lay, of a] m by auto
    ultimately have "b_pos c \<noteq> b_pos a" by auto
    then show ?thesis using m by auto
  qed
  moreover have "\<exists>u\<in>set ?bs. \<not> b_hole u \<and> ?r = b_pos u + 16" by (simp add: split_hole_def Let_def)
  moreover have "unat (b_pos a) + 16 < 2 ^ 64" using laid_out_bounds [OF lay, of a] by auto
  then have "unat ?r = unat (b_pos a) + 16" by (simp add: unat_word_ariths)
  then have "?r \<noteq> 0" by auto
  moreover have "heap_room (s\<lparr>mem := m', kHeap := h'\<rparr>) ?bs (k - (unat n + 32))" using calculation(1) a(5) by (simp add: heap_room_def)
  ultimately show ?thesis using run kmalloc_more [OF run] by blast
qed

end
