(* ===== verification/LaiHash.thy ===== *)
theory LaiHash
  imports LaiLibc
begin

text \<open>
  \<open>core/util-hash.h\<close>: the hash table that holds the children of a namespace node.  Elements sit in the first free
  slot of two parallel arrays; an array of buckets, probed linearly from the hash, holds their slot numbers
  (-1 when empty).  The three arrays are private blocks of the kernel heap: the table records their addresses, and
  their contents are kept beside them.  \<open>int\<close> counters are natural numbers; doubling a capacity of
  2^30 would overflow and has no result.  The sum of hash and distance wraps.
\<close>

subsection \<open>State and operations\<close>

record lai_hashtable =
  elem_capacity :: nat
  bucket_capacity :: nat
  num_elems :: int
  elem_ptr_tab :: addr
  elem_hash_tab :: addr
  bucket_tab :: addr
  ptr_entries :: "addr list"
  hash_entries :: "u32 list"
  bucket_entries :: "int list"

definition lai_hashtable_zero :: lai_hashtable where
  "lai_hashtable_zero = \<lparr>elem_capacity = 0, bucket_capacity = 0, num_elems = 0, elem_ptr_tab = 0, elem_hash_tab = 0,
     bucket_tab = 0, ptr_entries = [], hash_entries = [], bucket_entries = []\<rparr>"

text \<open>\<open>(h + i) & (m - 1)\<close>.\<close>

definition bucket_at :: "u32 \<Rightarrow> nat \<Rightarrow> nat \<Rightarrow> nat" where
  "bucket_at h i m = unat ((h + of_nat i) AND (of_nat m - 1))"

text \<open>The loop that looks for a free bucket, with its assertion.\<close>

function free_bucket :: "int list \<Rightarrow> nat \<Rightarrow> u32 \<Rightarrow> nat \<Rightarrow> nat option" where
  "free_bucket bs m h i =
     (if i < m then (if bs ! bucket_at h i m < 0 then Some (bucket_at h i m) else free_bucket bs m h (i + 1))
      else None)"
  by pat_completeness auto
termination by (relation "measure (\<lambda>(bs, m, h, i). m - i)") auto

declare free_bucket.simps [simp del]

text \<open>One step of the loop over the old elements, on the new arrays, and the loop.\<close>

definition rehash_one ::
    "lai_hashtable \<Rightarrow> nat \<Rightarrow> nat \<Rightarrow> addr list \<times> u32 list \<times> int list \<Rightarrow> (addr list \<times> u32 list \<times> int list) option" where
  "rehash_one ht m k t = (case t of (ps, hs, bs) \<Rightarrow>
     if ptr_entries ht ! k = 0 then Some (ps, hs, bs)
     else do {
       b \<leftarrow> free_bucket bs m (hash_entries ht ! k) 0;
       Some (ps[k := ptr_entries ht ! k], hs[k := hash_entries ht ! k], bs[b := int k]) })"

fun rehash ::
    "lai_hashtable \<Rightarrow> nat \<Rightarrow> nat list \<Rightarrow> addr list \<times> u32 list \<times> int list \<Rightarrow> (addr list \<times> u32 list \<times> int list) option" where
  "rehash ht m [] t = Some t"
| "rehash ht m (k # ks) t = do { t \<leftarrow> rehash_one ht m k t; rehash ht m ks t }"

definition free_tables :: "lai_hashtable \<Rightarrow> 'a heap_state_scheme \<Rightarrow> 'a heap_state_scheme option" where
  "free_tables ht s = do {
     s \<leftarrow> (if elem_capacity ht \<noteq> 0
           then do { s \<leftarrow> laihost_free (elem_ptr_tab ht) (of_nat (elem_capacity ht * 8)) s;
                     laihost_free (elem_hash_tab ht) (of_nat (elem_capacity ht * 4)) s }
           else Some s);
     if bucket_capacity ht \<noteq> 0 then laihost_free (bucket_tab ht) (of_nat (bucket_capacity ht * 4)) s else Some s }"

text \<open>The new array of hashes is not initialised: it starts with the bytes the block holds.\<close>

definition lai_hashtable_grow ::
    "lai_hashtable \<Rightarrow> nat \<Rightarrow> nat \<Rightarrow> 'a heap_state_scheme \<Rightarrow> (lai_hashtable \<times> 'a heap_state_scheme) option" where
  "lai_hashtable_grow ht n m s =
     (if n < elem_capacity ht \<or> m < bucket_capacity ht then None
      else do {
        (pp, s) \<leftarrow> laihost_malloc (of_nat (n * 8)) s;
        (ph, s) \<leftarrow> laihost_malloc (of_nat (n * 4)) s;
        (pb, s) \<leftarrow> laihost_malloc (of_nat (m * 4)) s;
        if pp = 0 \<or> ph = 0 \<or> pb = 0 then None
        else do {
          (ps, hs, bs) \<leftarrow> rehash ht m [0..<elem_capacity ht]
            (replicate n 0, map (\<lambda>i. load32 (mem s) (ph + of_nat (4 * i))) [0..<n], replicate m (-1));
          s \<leftarrow> free_tables ht s;
          Some (ht\<lparr>elem_ptr_tab := pp, elem_hash_tab := ph, bucket_tab := pb, ptr_entries := ps, hash_entries := hs,
                   bucket_entries := bs, elem_capacity := n, bucket_capacity := m\<rparr>, s) } })"

text \<open>The growth step, then the insertion into the arrays.\<close>

definition ensure_room ::
    "lai_hashtable \<Rightarrow> 'a heap_state_scheme \<Rightarrow> (lai_hashtable \<times> 'a heap_state_scheme) option" where
  "ensure_room ht s =
     (if elem_capacity ht = 0 \<or> bucket_capacity ht = 0 then lai_hashtable_grow ht 2 4 s
      else if int (elem_capacity ht) \<le> num_elems ht + 1
      then (if 2 ^ 30 \<le> elem_capacity ht \<or> 2 ^ 30 \<le> bucket_capacity ht then None
            else lai_hashtable_grow ht (2 * elem_capacity ht) (2 * bucket_capacity ht) s)
      else Some (ht, s))"

definition free_slot :: "lai_hashtable \<Rightarrow> nat option" where
  "free_slot ht = find (\<lambda>k. ptr_entries ht ! k = 0) [0..<elem_capacity ht]"

definition place_elem :: "lai_hashtable \<Rightarrow> u32 \<Rightarrow> addr \<Rightarrow> lai_hashtable option" where
  "place_elem ht h elem = do {
     k \<leftarrow> free_slot ht;
     b \<leftarrow> free_bucket (bucket_entries ht) (bucket_capacity ht) h 0;
     Some (ht\<lparr>ptr_entries := (ptr_entries ht)[k := elem], hash_entries := (hash_entries ht)[k := h],
              num_elems := num_elems ht + 1, bucket_entries := (bucket_entries ht)[b := int k]\<rparr>) }"

definition lai_hashtable_insert ::
    "lai_hashtable \<Rightarrow> u32 \<Rightarrow> addr \<Rightarrow> 'a heap_state_scheme \<Rightarrow> (lai_hashtable \<times> 'a heap_state_scheme) option" where
  "lai_hashtable_insert ht h elem s =
     (if elem = 0 then None
      else do { (ht, s) \<leftarrow> ensure_room ht s; ht \<leftarrow> place_elem ht h elem; Some (ht, s) })"

subsection \<open>Chains\<close>

text \<open>A chain is the probe distance \<open>i\<close>, initially -1; the answer 1 of \<open>lai_hashtable_chain_advance\<close> (the end) is \<open>False\<close>.\<close>

definition LAI_HASHTABLE_CHAIN_INITIALIZER :: int where "LAI_HASHTABLE_CHAIN_INITIALIZER = -1"

function advance_loop :: "lai_hashtable \<Rightarrow> u32 \<Rightarrow> int \<Rightarrow> (bool \<times> int) option" where
  "advance_loop ht h c =
     (if c + 1 < 0 then None
      else if int (bucket_capacity ht) \<le> c + 1 then (if c + 1 = int (bucket_capacity ht) then Some (False, c + 1) else None)
      else let k = bucket_entries ht ! bucket_at h (nat (c + 1)) (bucket_capacity ht)
           in if 0 \<le> k \<and> hash_entries ht ! nat k = h then Some (True, c + 1) else advance_loop ht h (c + 1))"
  by pat_completeness auto
termination by (relation "measure (\<lambda>(ht, h, c). nat (int (bucket_capacity ht) - c))") auto

declare advance_loop.simps [simp del]

definition lai_hashtable_chain_advance :: "lai_hashtable \<Rightarrow> u32 \<Rightarrow> int \<Rightarrow> (bool \<times> int) option" where
  "lai_hashtable_chain_advance ht h c = (if c < int (bucket_capacity ht) then advance_loop ht h c else None)"

definition lai_hashtable_chain_get :: "lai_hashtable \<Rightarrow> u32 \<Rightarrow> int \<Rightarrow> addr option" where
  "lai_hashtable_chain_get ht h c =
     (if 0 \<le> c \<and> c < int (bucket_capacity ht)
      then let k = bucket_entries ht ! bucket_at h (nat c) (bucket_capacity ht)
           in if 0 \<le> k \<and> ptr_entries ht ! nat k \<noteq> 0 then Some (ptr_entries ht ! nat k) else None
      else None)"

definition lai_hashtable_chain_remove :: "lai_hashtable \<Rightarrow> u32 \<Rightarrow> int \<Rightarrow> lai_hashtable option" where
  "lai_hashtable_chain_remove ht h c =
     (if 0 \<le> c \<and> c < int (bucket_capacity ht)
      then let b = bucket_at h (nat c) (bucket_capacity ht); k = bucket_entries ht ! b
           in if 0 \<le> k
              then Some (ht\<lparr>ptr_entries := (ptr_entries ht)[nat k := 0], bucket_entries := (bucket_entries ht)[b := -1],
                            num_elems := num_elems ht - 1\<rparr>)
              else None
      else None)"

subsection \<open>Buckets\<close>

lemma bucket_at_mod:
  assumes "j \<le> 31"
  shows "bucket_at h i (2 ^ j) = (unat h + i) mod 2 ^ j"
proof -
  have "(of_nat (2 ^ j) :: u32) - 1 = Bit_Operations.mask j" by (simp add: mask_eq_exp_minus_1)
  then have "bucket_at h i (2 ^ j) = unat (take_bit j (h + of_nat i))"
    by (simp add: bucket_at_def take_bit_eq_mask)
  also have "\<dots> = unat (h + of_nat i) mod 2 ^ j" by (simp only: unsigned_take_bit_eq) (simp add: take_bit_eq_mod)
  also have "\<dots> = ((unat h + i) mod 2 ^ 32) mod 2 ^ j"
    by (simp add: unat_word_ariths unat_of_nat mod_add_right_eq)
  also have "\<dots> = (unat h + i) mod 2 ^ j"
    using assms by (intro mod_mod_cancel le_imp_power_dvd) simp
  finally show ?thesis .
qed

lemma bucket_at_less: "j \<le> 31 \<Longrightarrow> bucket_at h i (2 ^ j) < 2 ^ j"
  by (simp add: bucket_at_mod)

lemma bucket_at_bij:
  assumes "j \<le> 31"
  shows "bij_betw (\<lambda>i. bucket_at h i (2 ^ j)) {..<2 ^ j} {..<2 ^ j}"
proof -
  have "inj_on (\<lambda>i. bucket_at h i (2 ^ j)) {..<2 ^ j}"
  proof (rule inj_onI)
    fix a b :: nat
    assume ab: "a \<in> {..<2 ^ j}" "b \<in> {..<2 ^ j}" "bucket_at h a (2 ^ j) = bucket_at h b (2 ^ j)"
    then have "(unat h + a) mod 2 ^ j = (unat h + b) mod 2 ^ j" using assms by (simp only: bucket_at_mod)
    then have "int ((unat h + a) mod 2 ^ j) = int ((unat h + b) mod 2 ^ j)" by (rule arg_cong)
    then have "(int (unat h) + int a) mod 2 ^ j = (int (unat h) + int b) mod 2 ^ j" by (simp only: of_nat_add of_nat_mod of_nat_numeral of_nat_power)
    then have "int a mod 2 ^ j = int b mod 2 ^ j" by (simp add: mod_eq_dvd_iff)
    moreover have "int a < int (2 ^ j)" "int b < int (2 ^ j)" using ab(1,2) by (simp_all only: of_nat_less_iff lessThan_iff)
    ultimately show "a = b" by simp
  qed
  moreover have "(\<lambda>i. bucket_at h i (2 ^ j)) ` {..<2 ^ j} \<subseteq> {..<2 ^ j}" using bucket_at_less [OF assms] by auto
  ultimately show ?thesis unfolding bij_betw_def using endo_inj_surj [OF finite_lessThan] by blast
qed

text \<open>The non-empty buckets hold each slot of \<open>S\<close> once.\<close>

definition bucket_ok :: "int list \<Rightarrow> nat \<Rightarrow> nat set \<Rightarrow> bool" where
  "bucket_ok bs m S \<longleftrightarrow> length bs = m \<and> bij_betw (\<lambda>b. nat (bs ! b)) {b. b < m \<and> 0 \<le> bs ! b} S"

lemma free_bucket_found:
  assumes "\<exists>i. i0 \<le> i \<and> i < m \<and> bs ! bucket_at h i m < 0"
  shows "\<exists>i<m. free_bucket bs m h i0 = Some (bucket_at h i m) \<and> bs ! bucket_at h i m < 0"
  using assms
proof (induction bs m h i0 rule: free_bucket.induct)
  case (1 bs m h i)
  show ?case
  proof (cases "bs ! bucket_at h i m < 0")
    case True
    then show ?thesis using "1.prems" by (auto simp: free_bucket.simps [of bs m h i])
  next
    case False
    then have "\<exists>i'. i + 1 \<le> i' \<and> i' < m \<and> bs ! bucket_at h i' m < 0"
      using "1.prems" by (metis Suc_eq_plus1 Suc_leI order_le_less)
    moreover from this have "i < m" by auto
    ultimately show ?thesis using False "1.IH" by (simp add: free_bucket.simps [of bs m h i])
  qed
qed

lemma bucket_ok_insert:
  assumes ok: "bucket_ok bs (2 ^ j) S" and j: "j \<le> 31" and k: "k \<notin> S" and card: "card S < 2 ^ j"
  shows "\<exists>b. free_bucket bs (2 ^ j) h 0 = Some b \<and> b < 2 ^ j \<and> bucket_ok (bs[b := int k]) (2 ^ j) (insert k S)"
proof -
  let ?U = "{b. b < 2 ^ j \<and> 0 \<le> bs ! b}"
  have bij: "bij_betw (\<lambda>b. nat (bs ! b)) ?U S" and len: "length bs = 2 ^ j" using ok by (auto simp: bucket_ok_def)
  have "card ?U < card {..<(2::nat) ^ j}" using bij_betw_same_card [OF bij] card by simp
  moreover have "finite ?U" by simp
  ultimately have "\<not> {..<2 ^ j} \<subseteq> ?U" using card_mono [of ?U "{..<2 ^ j}"] by linarith
  then obtain b where "b \<in> {..<2 ^ j}" "b \<notin> ?U" by blast
  then have "b < 2 ^ j" "bs ! b < 0" by simp_all
  moreover have "b \<in> (\<lambda>i. bucket_at h i (2 ^ j)) ` {..<2 ^ j}"
    using bij_betw_imp_surj_on [OF bucket_at_bij [OF j, of h]] \<open>b < 2 ^ j\<close> by simp
  ultimately have "\<exists>i. 0 \<le> i \<and> i < 2 ^ j \<and> bs ! bucket_at h i (2 ^ j) < 0" by auto
  from free_bucket_found [OF this] obtain b where b: "free_bucket bs (2 ^ j) h 0 = Some b" "b < 2 ^ j" "bs ! b < 0"
    using bucket_at_less [OF j, of h] by blast
  have U: "{c. c < 2 ^ j \<and> 0 \<le> bs[b := int k] ! c} = insert b ?U" "b \<notin> ?U"
    using b len by (auto simp: nth_list_update)
  have "bij_betw (\<lambda>c. nat (bs[b := int k] ! c)) ?U S"
    using bij U(2) by (subst bij_betw_cong [where g = "\<lambda>c. nat (bs ! c)"]) (metis nth_list_update_neq, assumption)
  with k U b len have "bij_betw (\<lambda>c. nat (bs[b := int k] ! c)) (insert b ?U) (insert k S)"
    using notIn_Un_bij_betw [of b ?U "\<lambda>c. nat (bs[b := int k] ! c)" S] by simp
  with b U(1) len show ?thesis by (auto simp: bucket_ok_def)
qed

subsection \<open>The table as a multiset of hashed elements\<close>

abbreviation used_slots :: "lai_hashtable \<Rightarrow> nat set" where
  "used_slots ht \<equiv> {k. k < elem_capacity ht \<and> ptr_entries ht ! k \<noteq> 0}"

definition ht_ok :: "lai_hashtable \<Rightarrow> bool" where
  "ht_ok ht \<longleftrightarrow> bucket_capacity ht = 2 * elem_capacity ht \<and>
     (elem_capacity ht = 0 \<or> (\<exists>j\<le>29. elem_capacity ht = 2 ^ j)) \<and>
     length (ptr_entries ht) = elem_capacity ht \<and> length (hash_entries ht) = elem_capacity ht \<and>
     num_elems ht = int (card (used_slots ht)) \<and>
     bucket_ok (bucket_entries ht) (bucket_capacity ht) (used_slots ht)"

definition ht_elems :: "lai_hashtable \<Rightarrow> (u32 \<times> addr) multiset" where
  "ht_elems ht = image_mset (\<lambda>k. (hash_entries ht ! k, ptr_entries ht ! k)) (mset_set (used_slots ht))"

lemma lai_hashtable_zero_ok: "ht_ok lai_hashtable_zero" "ht_elems lai_hashtable_zero = {#}"
  by (simp_all add: ht_ok_def ht_elems_def lai_hashtable_zero_def bucket_ok_def bij_betw_def)

lemma find_upt_Some: "find P [0..<n] = Some k \<Longrightarrow> k < n \<and> P k"
  by (auto simp: find_Some_iff)

lemma free_slot_found:
  assumes "card (used_slots ht) < elem_capacity ht"
  shows "\<exists>k. free_slot ht = Some k \<and> k < elem_capacity ht \<and> ptr_entries ht ! k = 0"
proof -
  have "\<not> {..<elem_capacity ht} \<subseteq> used_slots ht"
    using assms card_mono [of "used_slots ht" "{..<elem_capacity ht}"] by fastforce
  then have "free_slot ht \<noteq> None" by (auto simp: free_slot_def find_None_iff)
  then show ?thesis using find_upt_Some by (fastforce simp: free_slot_def)
qed

text \<open>Placing an element in a table with a free slot.\<close>

lemma place_elem_ok:
  assumes ok: "ht_ok ht" and room: "num_elems ht < int (elem_capacity ht)" and elem: "elem \<noteq> 0"
  shows "\<exists>ht'. place_elem ht h elem = Some ht' \<and> ht_ok ht' \<and> ht_elems ht' = add_mset (h, elem) (ht_elems ht) \<and>
           elem_capacity ht' = elem_capacity ht \<and> num_elems ht' = num_elems ht + 1"
proof -
  have card: "card (used_slots ht) < elem_capacity ht" using ok room by (simp add: ht_ok_def)
  then obtain k where k: "free_slot ht = Some k" "k < elem_capacity ht" "ptr_entries ht ! k = 0"
    using free_slot_found by blast
  obtain j where j: "elem_capacity ht = 2 ^ j" "j \<le> 29" using ok card by (auto simp: ht_ok_def)
  then have cap: "bucket_capacity ht = 2 ^ Suc j" using ok by (simp add: ht_ok_def)
  have "bucket_ok (bucket_entries ht) (2 ^ Suc j) (used_slots ht)" "Suc j \<le> 31" "card (used_slots ht) < 2 ^ Suc j" "k \<notin> used_slots ht"
    using ok cap card j k by (simp_all add: ht_ok_def)
  from bucket_ok_insert [OF this(1,2,4,3), of h] obtain b where
    b: "free_bucket (bucket_entries ht) (bucket_capacity ht) h 0 = Some b"
       "bucket_ok ((bucket_entries ht)[b := int k]) (bucket_capacity ht) (insert k (used_slots ht))"
    using cap by auto
  define ht' where "ht' = ht\<lparr>ptr_entries := (ptr_entries ht)[k := elem], hash_entries := (hash_entries ht)[k := h],
              num_elems := num_elems ht + 1, bucket_entries := (bucket_entries ht)[b := int k]\<rparr>"
  have slots: "used_slots ht' = insert k (used_slots ht)"
    using ok k elem by (auto simp: ht'_def ht_ok_def nth_list_update)
  have "finite (used_slots ht)" "k \<notin> used_slots ht" using k by simp_all
  then have "ht_elems ht' = add_mset (h, elem) (ht_elems ht)"
    using ok k unfolding ht_elems_def slots
    by (auto simp: ht'_def ht_ok_def nth_list_update intro!: image_mset_cong)
  moreover have "ht_ok ht'" using ok b(2) \<open>k \<notin> used_slots ht\<close> \<open>finite (used_slots ht)\<close>
    unfolding ht_ok_def slots by (simp add: ht'_def)
  moreover have "place_elem ht h elem = Some ht'" using k b by (simp add: place_elem_def ht'_def)
  ultimately show ?thesis by (auto simp: ht'_def)
qed

text \<open>
  Rehashing: after the slots below \<open>k\<close>, the new arrays hold their elements and each has a bucket.
\<close>

definition rehashed :: "lai_hashtable \<Rightarrow> nat \<Rightarrow> nat \<Rightarrow> nat \<Rightarrow> addr list \<times> u32 list \<times> int list \<Rightarrow> bool" where
  "rehashed ht n m k t = (case t of (ps, hs, bs) \<Rightarrow>
     length ps = n \<and> length hs = n \<and>
     (\<forall>i<n. ps ! i = (if i < k then ptr_entries ht ! i else 0)) \<and>
     (\<forall>i<k. ptr_entries ht ! i \<noteq> 0 \<longrightarrow> hs ! i = hash_entries ht ! i) \<and>
     bucket_ok bs m {i. i < k \<and> ptr_entries ht ! i \<noteq> 0})"

lemma rehash_one_step:
  assumes "rehashed ht n (2 ^ j) k t" and "k < n" and "n \<le> 2 ^ j" and "j \<le> 31"
  shows "\<exists>t'. rehash_one ht (2 ^ j) k t = Some t' \<and> rehashed ht n (2 ^ j) (Suc k) t'"
proof -
  obtain ps hs bs where t: "t = (ps, hs, bs)" by (cases t)
  let ?S = "{i. i < k \<and> ptr_entries ht ! i \<noteq> 0}"
  have ok: "bucket_ok bs (2 ^ j) ?S" and len: "length ps = n" "length hs = n" using assms(1) t by (auto simp: rehashed_def)
  show ?thesis
  proof (cases "ptr_entries ht ! k = 0")
    case True
    then have "{i. i < Suc k \<and> ptr_entries ht ! i \<noteq> 0} = ?S" by (auto simp: less_Suc_eq)
    with True assms(1) t show ?thesis by (auto simp: rehash_one_def rehashed_def less_Suc_eq)
  next
    case False
    have "card ?S \<le> card {..<k}" by (intro card_mono) auto
    then have "card ?S < 2 ^ j" using assms(2,3) by simp
    from bucket_ok_insert [OF ok assms(4) _ this, of k "hash_entries ht ! k"] obtain b where
      b: "free_bucket bs (2 ^ j) (hash_entries ht ! k) 0 = Some b" "bucket_ok (bs[b := int k]) (2 ^ j) (insert k ?S)" by auto
    have "{i. i < Suc k \<and> ptr_entries ht ! i \<noteq> 0} = insert k ?S" using False by (auto simp: less_Suc_eq)
    with False assms(1,2) t b len show ?thesis
      by (auto simp: rehash_one_def rehashed_def nth_list_update less_Suc_eq)
  qed
qed

lemma rehash_all:
  assumes "rehashed ht n (2 ^ j) k t" and "c \<le> n" and "n \<le> 2 ^ j" and "j \<le> 31" and "k \<le> c"
  shows "\<exists>t'. rehash ht (2 ^ j) [k..<c] t = Some t' \<and> rehashed ht n (2 ^ j) c t'"
  using assms
proof (induction "c - k" arbitrary: k t)
  case 0
  then show ?case by simp
next
  case (Suc x)
  then have "k < c" by simp
  then obtain t' where "rehash_one ht (2 ^ j) k t = Some t'" "rehashed ht n (2 ^ j) (Suc k) t'"
    using rehash_one_step [OF Suc.prems(1) _ Suc.prems(3,4)] Suc.prems(2) by fastforce
  with Suc.hyps(1) [of "Suc k" t'] Suc.hyps(2) Suc.prems \<open>k < c\<close> show ?case by (simp add: upt_conv_Cons)
qed

text \<open>The heap calls of \<open>lai_hashtable_grow\<close> alone: the three blocks and the state after freeing the old ones.\<close>

definition grow_blocks ::
    "lai_hashtable \<Rightarrow> nat \<Rightarrow> nat \<Rightarrow> 'a heap_state_scheme \<Rightarrow> 'a heap_state_scheme option" where
  "grow_blocks ht n m s = do {
     (pp, s) \<leftarrow> laihost_malloc (of_nat (n * 8)) s;
     (ph, s) \<leftarrow> laihost_malloc (of_nat (n * 4)) s;
     (pb, s) \<leftarrow> laihost_malloc (of_nat (m * 4)) s;
     if pp = 0 \<or> ph = 0 \<or> pb = 0 then None else free_tables ht s }"

lemma lai_hashtable_grow_ok:
  assumes ok: "ht_ok ht" and j: "j \<le> 29" and n: "elem_capacity ht \<le> 2 ^ j"
    and blocks: "grow_blocks ht (2 ^ j) (2 * 2 ^ j) s = Some s'"
  shows "\<exists>ht'. lai_hashtable_grow ht (2 ^ j) (2 * 2 ^ j) s = Some (ht', s') \<and> ht_ok ht' \<and> ht_elems ht' = ht_elems ht \<and>
           elem_capacity ht' = 2 ^ j \<and> num_elems ht' = num_elems ht"
proof -
  let ?n = "2 ^ j :: nat" and ?c = "elem_capacity ht"
  from blocks obtain pp s1 ph s2 pb s3 where b: "laihost_malloc (of_nat (?n * 8)) s = Some (pp, s1)"
    "laihost_malloc (of_nat (?n * 4)) s1 = Some (ph, s2)" "laihost_malloc (of_nat (2 * ?n * 4)) s2 = Some (pb, s3)"
    "pp \<noteq> 0" "ph \<noteq> 0" "pb \<noteq> 0" "free_tables ht s3 = Some s'"
    by (auto simp: grow_blocks_def bind_eq_Some_conv split: if_splits)
  let ?h0 = "map (\<lambda>i. load32 (mem s3) (ph + of_nat (4 * i))) [0..<?n]"
  have "rehashed ht ?n (2 ^ Suc j) 0 (replicate ?n 0, ?h0, replicate (2 ^ Suc j) (-1))"
    by (auto simp: rehashed_def bucket_ok_def bij_betw_def inj_on_def)
  moreover have "?n \<le> 2 ^ Suc j" "Suc j \<le> 31" using j by simp_all
  ultimately obtain t where t: "rehash ht (2 ^ Suc j) [0..<?c] (replicate ?n 0, ?h0, replicate (2 ^ Suc j) (-1)) = Some t"
    "rehashed ht ?n (2 ^ Suc j) ?c t"
    using rehash_all [OF _ n _ _ le0] by blast
  obtain ps hs bs where "t = (ps, hs, bs)" by (cases t)
  note r = t [unfolded this]
  define ht' where "ht' = ht\<lparr>elem_ptr_tab := pp, elem_hash_tab := ph, bucket_tab := pb, ptr_entries := ps, hash_entries := hs,
                   bucket_entries := bs, elem_capacity := ?n, bucket_capacity := 2 * ?n\<rparr>"
  have slots: "used_slots ht' = used_slots ht"
    using r(2) n by (auto simp: ht'_def rehashed_def split: if_splits)
  have "ht_elems ht' = ht_elems ht"
    using r(2) n unfolding ht_elems_def slots by (auto simp: ht'_def rehashed_def intro!: image_mset_cong)
  moreover have "ht_ok ht'"
    using ok r(2) j unfolding ht_ok_def slots by (auto simp: ht'_def rehashed_def)
  moreover have "lai_hashtable_grow ht ?n (2 * ?n) s = Some (ht', s')"
    using b r(1) n ok by (simp add: lai_hashtable_grow_def ht'_def ht_ok_def)
  ultimately show ?thesis by (auto simp: ht'_def)
qed

text \<open>The capacity after the insertion of one more element.\<close>

definition next_capacity :: "lai_hashtable \<Rightarrow> nat" where
  "next_capacity ht = (if elem_capacity ht = 0 then 2 else if int (elem_capacity ht) \<le> num_elems ht + 1 then 2 * elem_capacity ht
     else elem_capacity ht)"

lemma ensure_room_ok:
  assumes ok: "ht_ok ht" and cap: "elem_capacity ht < 2 ^ 29"
    and blocks: "if next_capacity ht = elem_capacity ht then s' = s
      else grow_blocks ht (next_capacity ht) (2 * next_capacity ht) s = Some s'"
  shows "\<exists>ht'. ensure_room ht s = Some (ht', s') \<and> ht_ok ht' \<and> ht_elems ht' = ht_elems ht \<and> num_elems ht' = num_elems ht \<and>
           num_elems ht' < int (elem_capacity ht')"
proof (cases "elem_capacity ht = 0")
  case True
  then have "num_elems ht = 0" "bucket_capacity ht = 0" "next_capacity ht = 2 ^ 1" using ok by (auto simp: ht_ok_def next_capacity_def)
  with lai_hashtable_grow_ok [OF ok, of 1 s s'] True blocks show ?thesis by (auto simp: ensure_room_def)
next
  case False
  then obtain j where j: "elem_capacity ht = 2 ^ j" using ok by (auto simp: ht_ok_def)
  have "j < 29" using cap power_strict_increasing_iff [of "2 :: nat" j 29] by (simp add: j)
  have "num_elems ht \<le> int (elem_capacity ht)"
    using ok card_mono [of "{..<elem_capacity ht}" "used_slots ht"] by (force simp: ht_ok_def)
  then have le: "num_elems ht < 2 * int (elem_capacity ht)" using False by linarith
  show ?thesis
  proof (cases "int (elem_capacity ht) \<le> num_elems ht + 1")
    case True
    then have "next_capacity ht = 2 ^ Suc j" "bucket_capacity ht = 2 ^ Suc j" using j ok False by (simp_all add: next_capacity_def ht_ok_def)
    moreover have "(2::nat) ^ Suc j < 2 ^ 30" using \<open>j < 29\<close> by (intro power_strict_increasing) simp_all
    ultimately show ?thesis
      using True False lai_hashtable_grow_ok [OF ok, of "Suc j" s s'] blocks j \<open>j < 29\<close> le by (auto simp: ensure_room_def)
  qed (use False assms in \<open>auto simp: ensure_room_def next_capacity_def ht_ok_def\<close>)
qed

subsection \<open>Walking a chain\<close>

definition slot_at :: "lai_hashtable \<Rightarrow> u32 \<Rightarrow> nat \<Rightarrow> int" where
  "slot_at ht h i = bucket_entries ht ! bucket_at h i (bucket_capacity ht)"

definition matches :: "lai_hashtable \<Rightarrow> u32 \<Rightarrow> nat \<Rightarrow> bool" where
  "matches ht h i \<longleftrightarrow> 0 \<le> slot_at ht h i \<and> hash_entries ht ! nat (slot_at ht h i) = h"

definition chain_rest :: "lai_hashtable \<Rightarrow> u32 \<Rightarrow> int \<Rightarrow> addr list" where
  "chain_rest ht h c = map (\<lambda>i. ptr_entries ht ! nat (slot_at ht h i)) (filter (matches ht h) [nat (c + 1)..<bucket_capacity ht])"

definition chain_live :: "lai_hashtable \<Rightarrow> int \<Rightarrow> bool" where
  "chain_live ht c \<longleftrightarrow> ht_ok ht \<and> -1 \<le> c \<and> c < int (bucket_capacity ht)"

text \<open>A used bucket leads to a used slot.\<close>

lemma ht_ok_capacity: "ht_ok ht \<Longrightarrow> i < bucket_capacity ht \<Longrightarrow> \<exists>j\<le>30. bucket_capacity ht = 2 ^ j"
proof -
  assume "ht_ok ht" "i < bucket_capacity ht"
  then obtain j where "j \<le> 29" "bucket_capacity ht = 2 ^ Suc j" by (auto simp: ht_ok_def)
  then show ?thesis by (intro exI [of _ "Suc j"]) simp
qed

lemma ht_ok_buckets: "ht_ok ht \<Longrightarrow> bucket_ok (bucket_entries ht) (bucket_capacity ht) (used_slots ht)"
  unfolding ht_ok_def by blast

lemma slot_at_used:
  assumes "ht_ok ht" and "i < bucket_capacity ht" and "0 \<le> slot_at ht h i"
  shows "nat (slot_at ht h i) \<in> used_slots ht"
proof -
  obtain j where j: "j \<le> 30" "bucket_capacity ht = 2 ^ j" using ht_ok_capacity assms by blast
  then have "bucket_at h i (bucket_capacity ht) < bucket_capacity ht" by (simp add: bucket_at_less)
  with assms show ?thesis
    by (auto simp: ht_ok_def bucket_ok_def slot_at_def bij_betw_def)
qed

lemma advance_loop_unfold:
  assumes "-1 \<le> c" and "c < int (bucket_capacity ht)"
  shows "advance_loop ht h c = (if c + 1 = int (bucket_capacity ht) then Some (False, c + 1)
     else if matches ht h (nat (c + 1)) then Some (True, c + 1) else advance_loop ht h (c + 1))"
  using assms by (subst advance_loop.simps) (auto simp: matches_def slot_at_def Let_def)

lemma advance_loop_spec:
  assumes "-1 \<le> c" and "c < int (bucket_capacity ht)"
  shows "advance_loop ht h c = (case filter (matches ht h) [nat (c + 1)..<bucket_capacity ht] of
     [] \<Rightarrow> Some (False, int (bucket_capacity ht)) | i # is \<Rightarrow> Some (True, int i))"
  using assms
proof (induction "nat (int (bucket_capacity ht) - c)" arbitrary: c)
  case (Suc x)
  show ?case
  proof (cases "c + 1 = int (bucket_capacity ht)")
    case True
    then show ?thesis using Suc.prems by (simp add: advance_loop_unfold)
  next
    case False
    then have u: "[nat (c + 1)..<bucket_capacity ht] = nat (c + 1) # [nat (c + 2)..<bucket_capacity ht]"
      using Suc.prems by (simp add: upt_conv_Cons) (simp add: Suc_nat_eq_nat_zadd1 algebra_simps)
    with False Suc.hyps(1) [of "c + 1"] Suc.hyps(2) Suc.prems show ?thesis
      by (simp add: advance_loop_unfold add.assoc)
  qed
qed simp

lemma filter_upt_Cons:
  assumes "filter P [a..<b] = i # is"
  shows "a \<le> i" "i < b" "P i" "filter P [Suc i..<b] = is"
proof -
  have "i \<in> set (filter P [a..<b])" using assms by simp
  then show i: "a \<le> i" "i < b" "P i" by auto
  have "filter P [a..<b] = filter P [a..<i] @ filter P [i..<b]" 
    using i upt_add_eq_append [of a i "b - i"] by simp
  moreover have "filter P [a..<i] = []"
  proof (rule ccontr)
    assume "filter P [a..<i] \<noteq> []"
    then have "hd (filter P [a..<b]) \<in> set (filter P [a..<i])" using calculation by (metis hd_append2 hd_in_set)
    then show False using assms by simp
  qed
  ultimately show "filter P [Suc i..<b] = is" using assms i by (simp add: upt_conv_Cons)
qed

text \<open>The contract of a chain: it runs through the rest of its elements and then ends.\<close>

locale element_chain =
  fixes live :: "'t \<Rightarrow> int \<Rightarrow> bool"
    and rest :: "'t \<Rightarrow> u32 \<Rightarrow> int \<Rightarrow> addr list"
    and advance :: "'t \<Rightarrow> u32 \<Rightarrow> int \<Rightarrow> (bool \<times> int) option"
    and get :: "'t \<Rightarrow> u32 \<Rightarrow> int \<Rightarrow> addr option"
  assumes at_end: "live t c \<Longrightarrow> rest t h c = [] \<Longrightarrow> \<exists>c'. advance t h c = Some (False, c')"
    and at_elem: "live t c \<Longrightarrow> rest t h c = e # es \<Longrightarrow>
      \<exists>c'. advance t h c = Some (True, c') \<and> live t c' \<and> get t h c' = Some e \<and> rest t h c' = es"
begin

text \<open>A search loop over the chain returns the first element that satisfies its test, or null.\<close>

lemma search_finds:
  assumes "live t c"
    and loop: "\<And>c. search c = do { (more, c) \<leftarrow> advance t h c;
          if more then do { e \<leftarrow> get t h c; if test e then Some e else search c } else Some 0 }"
  shows "search c = Some (case find test (rest t h c) of Some e \<Rightarrow> e | None \<Rightarrow> 0)"
  using assms(1)
proof (induction "rest t h c" arbitrary: c)
  case Nil
  then obtain c' where "advance t h c = Some (False, c')" using at_end [of t c h] by auto
  then show ?case by (subst loop) (simp add: Nil.hyps [symmetric])
next
  case (Cons e es)
  then obtain c' where c': "advance t h c = Some (True, c')" "live t c'" "get t h c' = Some e" "rest t h c' = es"
    using at_elem [of t c h e es] by auto
  with Cons.hyps(1) [of c'] have "search c' = Some (case find test es of Some e \<Rightarrow> e | None \<Rightarrow> 0)" by simp
  with c' show ?case by (subst loop) (simp add: Cons.hyps(2) [symmetric])
qed

text \<open>A loop that collects the elements returns the rest of the chain.\<close>

lemma walk_collects:
  assumes "live t c"
    and loop: "\<And>c. walk c = do { (more, c) \<leftarrow> advance t h c;
          if more then do { e \<leftarrow> get t h c; es \<leftarrow> walk c; Some (e # es) } else Some [] }"
  shows "walk c = Some (rest t h c)"
  using assms(1)
proof (induction "rest t h c" arbitrary: c)
  case Nil
  then obtain c' where "advance t h c = Some (False, c')" using at_end [of t c h] by auto
  then show ?case by (subst loop) (simp add: Nil.hyps [symmetric])
next
  case (Cons e es)
  then obtain c' where "advance t h c = Some (True, c')" "live t c'" "get t h c' = Some e" "rest t h c' = es"
    using at_elem [of t c h e es] by auto
  with Cons.hyps show ?case by (subst loop) (simp add: Cons.hyps(2) [symmetric])
qed

end

lemma chain_elem:
  assumes "chain_live ht c" and "chain_rest ht h c = e # es"
  shows "\<exists>c'. lai_hashtable_chain_advance ht h c = Some (True, c') \<and> chain_live ht c' \<and>
           lai_hashtable_chain_get ht h c' = Some e \<and> chain_rest ht h c' = es"
proof -
  let ?m = "bucket_capacity ht"
  from assms(2) obtain i "is" where i: "filter (matches ht h) [nat (c + 1)..<?m] = i # is"
    and e: "e = ptr_entries ht ! nat (slot_at ht h i)" "es = map (\<lambda>i. ptr_entries ht ! nat (slot_at ht h i)) is"
    by (auto simp: chain_rest_def)
  note f = filter_upt_Cons [OF i]
  have "nat (slot_at ht h i) \<in> used_slots ht" "0 \<le> slot_at ht h i"
    using slot_at_used [of ht i h] f assms(1) by (auto simp: chain_live_def matches_def)
  with f e have "lai_hashtable_chain_get ht h (int i) = Some e"
    by (simp add: lai_hashtable_chain_get_def slot_at_def)
  moreover have "lai_hashtable_chain_advance ht h c = Some (True, int i)"
    using assms(1) i by (simp add: lai_hashtable_chain_advance_def advance_loop_spec chain_live_def)
  moreover have "chain_rest ht h (int i) = es" using f(4) e by (simp add: chain_rest_def nat_add_distrib)
  ultimately show ?thesis using f(2) assms(1) by (auto simp: chain_live_def)
qed

interpretation chain: element_chain chain_live chain_rest lai_hashtable_chain_advance lai_hashtable_chain_get
proof
  fix t c h
  assume "chain_live t c" "chain_rest t h c = []"
  then show "\<exists>c'. lai_hashtable_chain_advance t h c = Some (False, c')"
    by (auto simp: lai_hashtable_chain_advance_def advance_loop_spec chain_live_def chain_rest_def)
qed (rule chain_elem)

lemma slot_at_bij:
  assumes ok: "ht_ok ht"
  shows "bij_betw (\<lambda>i. nat (slot_at ht h i)) {i. i < bucket_capacity ht \<and> 0 \<le> slot_at ht h i} (used_slots ht)"
proof (cases "bucket_capacity ht = 0")
  case True
  then show ?thesis using ok by (simp add: ht_ok_def bij_betw_def)
next
  case False
  let ?m = "bucket_capacity ht" and ?B = "{b. b < bucket_capacity ht \<and> 0 \<le> bucket_entries ht ! b}"
  obtain j where j: "j \<le> 31" "?m = 2 ^ j" using ht_ok_capacity [OF ok, of 0] False by fastforce
  have inj: "inj_on (\<lambda>i. bucket_at h i ?m) {..<?m}" and surj: "(\<lambda>i. bucket_at h i ?m) ` {..<?m} = {..<?m}"
    using bucket_at_bij [OF j(1), of h] by (simp_all add: bij_betw_def j(2))
  have "(\<lambda>i. bucket_at h i ?m) ` {i. i < ?m \<and> 0 \<le> slot_at ht h i} = ?B"
  proof (intro equalityI subsetI)
    fix b assume b: "b \<in> ?B"
    then have "b \<in> (\<lambda>i. bucket_at h i ?m) ` {..<?m}" by (simp only: surj) simp
    with b show "b \<in> (\<lambda>i. bucket_at h i ?m) ` {i. i < ?m \<and> 0 \<le> slot_at ht h i}" by (auto simp: slot_at_def)
  qed (use j in \<open>auto simp: slot_at_def bucket_at_less\<close>)
  moreover have "inj_on (\<lambda>i. bucket_at h i ?m) {i. i < ?m \<and> 0 \<le> slot_at ht h i}" using inj by (rule inj_on_subset) auto
  ultimately have "bij_betw (\<lambda>i. bucket_at h i ?m) {i. i < ?m \<and> 0 \<le> slot_at ht h i} ?B" by (simp add: bij_betw_def)
  moreover have "bij_betw (\<lambda>b. nat (bucket_entries ht ! b)) ?B (used_slots ht)"
    using ht_ok_buckets [OF ok] by (simp add: bucket_ok_def)
  ultimately show ?thesis using bij_betw_trans by (fastforce simp: slot_at_def comp_def)
qed

lemma mset_chain_rest:
  assumes ok: "ht_ok ht"
  shows "mset (chain_rest ht h (-1)) = image_mset snd (filter_mset (\<lambda>p. fst p = h) (ht_elems ht))"
proof -
  let ?g = "\<lambda>i. nat (slot_at ht h i)" and ?I = "{i. i < bucket_capacity ht \<and> matches ht h i}"
  let ?K = "{k \<in> used_slots ht. hash_entries ht ! k = h}"
  note bij = slot_at_bij [OF ok, of h]
  have "?g ` ?I = ?K"
    unfolding bij_betw_imp_surj_on [OF bij, symmetric] by (auto simp: matches_def)
  moreover have "inj_on ?g ?I" using bij_betw_imp_inj_on [OF bij] by (rule inj_on_subset) (auto simp: matches_def)
  ultimately have g: "image_mset ?g (mset_set ?I) = mset_set ?K" by (simp add: image_mset_mset_set)
  have I: "mset (filter (matches ht h) [0..<bucket_capacity ht]) = mset_set ?I" by (simp add: mset_set_set [symmetric])
  have "mset (chain_rest ht h (-1)) = image_mset (((!) (ptr_entries ht)) \<circ> ?g) (mset_set ?I)"
    unfolding I [symmetric] by (simp add: chain_rest_def comp_def)
  also have "\<dots> = image_mset ((!) (ptr_entries ht)) (mset_set ?K)" by (simp only: image_mset.compositionality [symmetric] g)
  finally show ?thesis by (simp add: ht_elems_def filter_mset_image_mset filter_mset_mset_set image_mset.compositionality comp_def)
qed

text \<open>Removing the element a chain stands at.\<close>

lemma bucket_ok_remove:
  assumes ok: "bucket_ok bs m S" and b: "b < m" and k: "0 \<le> bs ! b"
  shows "bucket_ok (bs[b := -1]) m (S - {nat (bs ! b)})"
proof -
  let ?U = "{b. b < m \<and> 0 \<le> bs ! b}"
  have bij: "bij_betw (\<lambda>b. nat (bs ! b)) ?U S" and len: "length bs = m" using ok by (auto simp: bucket_ok_def)
  have "b \<in> ?U" using b k by simp
  then have "bij_betw (\<lambda>c. nat (bs ! c)) (?U - {b}) (S - {nat (bs ! b)})"
    using bij by (metis (no_types, lifting) bij_betw_DiffI bij_betw_singletonI empty_subsetI insert_subset bij_betw_imp_surj_on imageI)
  moreover have "{c. c < m \<and> 0 \<le> bs[b := -1] ! c} = ?U - {b}" using b len by (auto simp: nth_list_update split: if_splits)
  ultimately show ?thesis using len
    by (simp add: bucket_ok_def cong: bij_betw_cong) (subst bij_betw_cong [where g = "\<lambda>c. nat (bs ! c)"], auto)
qed

lemma chain_remove_ok:
  assumes live: "chain_live ht c" "0 \<le> c" and m: "matches ht h (nat c)"
  shows "\<exists>ht' e. lai_hashtable_chain_get ht h c = Some e \<and> lai_hashtable_chain_remove ht h c = Some ht' \<and> ht_ok ht' \<and>
           ht_elems ht = add_mset (h, e) (ht_elems ht')"
proof -
  let ?k = "nat (slot_at ht h (nat c))" and ?b = "bucket_at h (nat c) (bucket_capacity ht)"
  have ok: "ht_ok ht" and c: "nat c < bucket_capacity ht" using live by (auto simp: chain_live_def)
  have k: "0 \<le> slot_at ht h (nat c)" "hash_entries ht ! ?k = h" using m by (auto simp: matches_def)
  have used: "?k \<in> used_slots ht" using slot_at_used [OF ok c k(1)] .
  obtain j where "j \<le> 30" "bucket_capacity ht = 2 ^ j" using ht_ok_capacity [OF ok c] by blast
  then have b: "?b < bucket_capacity ht" by (simp add: bucket_at_less)
  define ht' where "ht' = ht\<lparr>ptr_entries := (ptr_entries ht)[?k := 0], bucket_entries := (bucket_entries ht)[?b := -1],
                            num_elems := num_elems ht - 1\<rparr>"
  have slots: "used_slots ht' = used_slots ht - {?k}"
    using ok used by (auto simp: ht'_def ht_ok_def nth_list_update split: if_splits)
  have fin: "finite (used_slots ht)" by simp
  have "bucket_ok ((bucket_entries ht)[?b := -1]) (bucket_capacity ht) (used_slots ht - {?k})"
    using bucket_ok_remove [OF ht_ok_buckets [OF ok] b] k(1) by (simp add: slot_at_def)
  moreover have "card (used_slots ht) = Suc (card (used_slots ht - {?k}))" using card_Suc_Diff1 [OF fin used] by simp
  ultimately have "ht_ok ht'" using ok unfolding ht_ok_def slots by (simp add: ht'_def)
  moreover have "ht_elems ht = add_mset (h, ptr_entries ht ! ?k) (ht_elems ht')"
  proof -
    have "mset_set (used_slots ht) = add_mset ?k (mset_set (used_slots ht - {?k}))"
      using mset_set.remove [OF fin used] .
    moreover have "image_mset (\<lambda>i. (hash_entries ht' ! i, ptr_entries ht' ! i)) (mset_set (used_slots ht - {?k})) =
        image_mset (\<lambda>i. (hash_entries ht ! i, ptr_entries ht ! i)) (mset_set (used_slots ht - {?k}))"
      by (rule image_mset_cong) (simp add: ht'_def)
    ultimately show ?thesis using k(2) unfolding ht_elems_def slots by simp
  qed
  moreover have "lai_hashtable_chain_remove ht h c = Some ht'" "lai_hashtable_chain_get ht h c = Some (ptr_entries ht ! ?k)"
    using live c k used by (auto simp: lai_hashtable_chain_remove_def lai_hashtable_chain_get_def ht'_def slot_at_def Let_def)
  ultimately show ?thesis by blast
qed

subsection \<open>Properties\<close>

text \<open>The elements with a hash, as a client collects them with a chain.\<close>

partial_function (option) chain_walk :: "lai_hashtable \<Rightarrow> u32 \<Rightarrow> int \<Rightarrow> addr list option" where
  "chain_walk ht h c = do {
     (more, c) \<leftarrow> lai_hashtable_chain_advance ht h c;
     if more then do { e \<leftarrow> lai_hashtable_chain_get ht h c; es \<leftarrow> chain_walk ht h c; Some (e # es) } else Some [] }"

lemma chain_walk_rest: "ht_ok ht \<Longrightarrow> chain_walk ht h (-1) = Some (chain_rest ht h (-1))"
  by (rule chain.walk_collects [of ht "-1" "chain_walk ht h" h]) (simp add: chain_live_def, rule chain_walk.simps)

lemma lai_hashtable_insert_elems:
  assumes "ht_ok ht" and "elem \<noteq> 0" and "elem_capacity ht < 2 ^ 29"
    and "if next_capacity ht = elem_capacity ht then s' = s
      else grow_blocks ht (next_capacity ht) (2 * next_capacity ht) s = Some s'"
  shows "\<exists>ht'. lai_hashtable_insert ht h elem s = Some (ht', s') \<and> ht_ok ht' \<and> ht_elems ht' = add_mset (h, elem) (ht_elems ht)"
proof -
  obtain ht1 where ht1: "ensure_room ht s = Some (ht1, s')" "ht_ok ht1" "ht_elems ht1 = ht_elems ht"
      "num_elems ht1 < int (elem_capacity ht1)"
    using ensure_room_ok [OF assms(1,3,4)] by blast
  then obtain ht' where "place_elem ht1 h elem = Some ht'" "ht_ok ht'" "ht_elems ht' = add_mset (h, elem) (ht_elems ht)"
    using place_elem_ok [OF ht1(2,4) assms(2), of h] by auto
  with assms(2) ht1 show ?thesis by (simp add: lai_hashtable_insert_def)
qed

text \<open>C24: inserting an element into a consistent table, growing it when it is full, keeps it consistent, adds the element to
  the chain of its hash and leaves every other chain as it was.\<close>

theorem lai_hashtable_insert_chains:
  assumes "ht_ok ht" and "elem \<noteq> 0" and "elem_capacity ht < 2 ^ 29"
    and "if next_capacity ht = elem_capacity ht then s' = s
      else grow_blocks ht (next_capacity ht) (2 * next_capacity ht) s = Some s'"
  shows "\<exists>ht'. lai_hashtable_insert ht h elem s = Some (ht', s') \<and> ht_ok ht' \<and>
    (\<forall>h'. \<exists>es es'. chain_walk ht h' LAI_HASHTABLE_CHAIN_INITIALIZER = Some es \<and>
       chain_walk ht' h' LAI_HASHTABLE_CHAIN_INITIALIZER = Some es' \<and>
       mset es' = (if h' = h then {#elem#} else {#}) + mset es)"
proof -
  obtain ht' where ht': "lai_hashtable_insert ht h elem s = Some (ht', s')" "ht_ok ht'" "ht_elems ht' = add_mset (h, elem) (ht_elems ht)"
    using lai_hashtable_insert_elems [OF assms] by blast
  have "mset (chain_rest ht' h' (-1)) = (if h' = h then {#elem#} else {#}) + mset (chain_rest ht h' (-1))" for h'
    using ht' by (simp add: mset_chain_rest assms(1))
  then show ?thesis using ht' assms(1) by (auto simp: chain_walk_rest LAI_HASHTABLE_CHAIN_INITIALIZER_def)
qed

text \<open>A table with room for four elements that holds two of them, whose hashes collide.\<close>

definition ht_empty_example :: lai_hashtable where
  "ht_empty_example = \<lparr>elem_capacity = 4, bucket_capacity = 8, num_elems = 0, elem_ptr_tab = 0x1000, elem_hash_tab = 0x2000,
     bucket_tab = 0x3000, ptr_entries = replicate 4 0, hash_entries = replicate 4 0, bucket_entries = replicate 8 (-1)\<rparr>"

definition ht_example :: lai_hashtable where
  "ht_example = the (do { ht \<leftarrow> place_elem ht_empty_example 5 0x7000; place_elem ht 13 0x8000 })"

lemma ht_empty_example_slots: "used_slots ht_empty_example = {}"
  by (auto simp: ht_empty_example_def)

lemma ht_empty_example_ok: "ht_ok ht_empty_example"
proof -
  note slots = ht_empty_example_slots
  have "bucket_ok (bucket_entries ht_empty_example) (bucket_capacity ht_empty_example) {}"
    by (auto simp: bucket_ok_def ht_empty_example_def bij_betw_def inj_on_def)
  moreover have "\<exists>j\<le>29. (4 :: nat) = 2 ^ j" by (rule exI [of _ 2]) simp
  ultimately show ?thesis unfolding ht_ok_def slots by (simp add: ht_empty_example_def)
qed

lemma ht_example_ok: "ht_ok ht_example" "elem_capacity ht_example = 4" "num_elems ht_example = 2"
proof -
  obtain ht where ht: "place_elem ht_empty_example 5 0x7000 = Some ht" "ht_ok ht" "elem_capacity ht = 4" "num_elems ht = 1"
    using place_elem_ok [OF ht_empty_example_ok, of "0x7000" 5] by (auto simp: ht_empty_example_def)
  with place_elem_ok [OF ht(2), of "0x8000" 13] show "ht_ok ht_example" "elem_capacity ht_example = 4" "num_elems ht_example = 2"
    by (auto simp: ht_example_def)
qed

theorem lai_hashtable_insert_chains_witness:
  "\<exists>ht' es es'. lai_hashtable_insert ht_example 21 0x9000 heap_state_example = Some (ht', heap_state_example) \<and> ht_ok ht' \<and>
     chain_walk ht_example 21 (-1) = Some es \<and> chain_walk ht' 21 (-1) = Some es' \<and> mset es' = {#0x9000#} + mset es"
proof -
  have "(0x9000 :: addr) \<noteq> 0" "elem_capacity ht_example < 2 ^ 29"
    "if next_capacity ht_example = elem_capacity ht_example then heap_state_example = heap_state_example
     else grow_blocks ht_example (next_capacity ht_example) (2 * next_capacity ht_example) heap_state_example = Some heap_state_example"
    by (simp_all add: next_capacity_def ht_example_ok)
  from lai_hashtable_insert_chains [OF ht_example_ok(1) this, of 21] obtain ht' where
    ht': "lai_hashtable_insert ht_example 21 0x9000 heap_state_example = Some (ht', heap_state_example)" "ht_ok ht'"
    and w: "\<forall>h'. \<exists>es es'. chain_walk ht_example h' (-1) = Some es \<and> chain_walk ht' h' (-1) = Some es' \<and>
       mset es' = (if h' = 21 then {#0x9000#} else {#}) + mset es" unfolding LAI_HASHTABLE_CHAIN_INITIALIZER_def by blast
  from ht' w [rule_format, of 21] show ?thesis by auto
qed

text \<open>removing the element a chain was advanced to keeps the table consistent, takes that element out of the
  chain of its hash and leaves every other chain as it was.\<close>

theorem lai_hashtable_remove_chains:
  assumes "ht_ok ht" and "-1 \<le> c" and "lai_hashtable_chain_advance ht h c = Some (True, c')"
  shows "\<exists>ht' e. lai_hashtable_chain_get ht h c' = Some e \<and> lai_hashtable_chain_remove ht h c' = Some ht' \<and> ht_ok ht' \<and>
    (\<forall>h'. \<exists>es es'. chain_walk ht h' LAI_HASHTABLE_CHAIN_INITIALIZER = Some es \<and>
       chain_walk ht' h' LAI_HASHTABLE_CHAIN_INITIALIZER = Some es' \<and>
       mset es = (if h' = h then {#e#} else {#}) + mset es')"
proof -
  have c: "c < int (bucket_capacity ht)" using assms(3) by (simp add: lai_hashtable_chain_advance_def split: if_splits)
  with assms obtain i "is" where i: "filter (matches ht h) [nat (c + 1)..<bucket_capacity ht] = i # is" "c' = int i"
    by (auto simp: lai_hashtable_chain_advance_def advance_loop_spec split: list.splits)
  then have "chain_live ht c'" "0 \<le> c'" "matches ht h (nat c')"
    using filter_upt_Cons [OF i(1)] assms(1) by (auto simp: chain_live_def)
  from chain_remove_ok [OF this] obtain ht' e where r: "lai_hashtable_chain_get ht h c' = Some e"
    "lai_hashtable_chain_remove ht h c' = Some ht'" "ht_ok ht'" "ht_elems ht = add_mset (h, e) (ht_elems ht')" by blast
  then have "mset (chain_rest ht h' (-1)) = (if h' = h then {#e#} else {#}) + mset (chain_rest ht' h' (-1))" for h'
    by (simp add: mset_chain_rest assms(1))
  with r assms(1) show ?thesis by (auto simp: chain_walk_rest LAI_HASHTABLE_CHAIN_INITIALIZER_def)
qed

lemma ht_example_advance: "lai_hashtable_chain_advance ht_example 13 (-1) = Some (True, 1)"
  by code_simp

theorem lai_hashtable_remove_chains_witness:
  "\<exists>ht' e. lai_hashtable_chain_get ht_example 13 1 = Some e \<and> lai_hashtable_chain_remove ht_example 13 1 = Some ht' \<and> ht_ok ht'"
  using lai_hashtable_remove_chains [OF ht_example_ok(1) _ ht_example_advance] by blast

end
