(* ===== verification/LaiNames.thy ===== *)
theory LaiNames
  imports LaiLibc
begin

text \<open>
  AML names: \<open>lai_is_name\<close> (\<open>core/eval.c\<close>) and the name functions of \<open>core/ns.c\<close>.  A name in byte code is a root
  character or a number of parent prefixes, then no, one, two or counted segments of four characters.
  A failed assertion gives no result.
\<close>

subsection \<open>Operations\<close>

definition DUAL_PREFIX :: u8 where "DUAL_PREFIX = 0x2E"
definition MULTI_PREFIX :: u8 where "MULTI_PREFIX = 0x2F"
definition ROOT_CHAR :: u8 where "ROOT_CHAR = 0x5C"
definition PARENT_CHAR :: u8 where "PARENT_CHAR = 0x5E"

definition lai_is_name :: "u8 \<Rightarrow> bool" where
  "lai_is_name c \<longleftrightarrow> (0x30 \<le> c \<and> c \<le> 0x39) \<or> (0x41 \<le> c \<and> c \<le> 0x5A) \<or> c = 0x5F \<or> c = ROOT_CHAR \<or> c = PARENT_CHAR \<or>
     c = MULTI_PREFIX \<or> c = DUAL_PREFIX"

record lai_amlname =
  is_absolute :: bool
  height :: nat
  search_scopes :: bool
  nm_it :: addr
  nm_end :: addr

text \<open>The loop over parent prefixes; it counts in an \<open>int\<close>.\<close>

partial_function (option) skip_parents :: "mem \<Rightarrow> addr \<Rightarrow> nat \<Rightarrow> (addr \<times> nat) option" where
  "skip_parents m it n = (if load8 m it = PARENT_CHAR then skip_parents m (it + 1) (n + 1) else Some (it, n))"

text \<open>The prefix that determines the number of segments.\<close>

definition segment_count :: "mem \<Rightarrow> addr \<Rightarrow> (addr \<times> nat) option" where
  "segment_count m it =
     (if load8 m it = 0 then Some (it + 1, 0)
      else if load8 m it = DUAL_PREFIX then Some (it + 1, 2)
      else if load8 m it = MULTI_PREFIX
      then (if 2 < load8 m (it + 1) then Some (it + 2, unat (load8 m (it + 1))) else None)
      else if lai_is_name (load8 m it) then Some (it, 1) else None)"

definition lai_amlname_parse :: "mem \<Rightarrow> addr \<Rightarrow> (lai_amlname \<times> u64) option" where
  "lai_amlname_parse m data = do {
     let absolute = (load8 m data = ROOT_CHAR);
     (it, hgt) \<leftarrow> (if absolute then Some (data + 1, 0) else skip_parents m data 0);
     (it, num_segs) \<leftarrow> segment_count m it;
     let fin = it + 4 * of_nat num_segs;
     Some (\<lparr>is_absolute = absolute, height = hgt, search_scopes = (\<not> absolute \<and> hgt = 0 \<and> num_segs = 1),
            nm_it = it, nm_end = fin\<rparr>, fin - data) }"

definition lai_amlname_done :: "lai_amlname \<Rightarrow> bool" where
  "lai_amlname_done amln \<longleftrightarrow> nm_it amln = nm_end amln"

text \<open>The segment is returned; the code stores it through \<open>out\<close>.\<close>

definition lai_amlname_iterate :: "mem \<Rightarrow> lai_amlname \<Rightarrow> (u8 list \<times> lai_amlname) option" where
  "lai_amlname_iterate m amln =
     (if nm_it amln < nm_end amln
      then Some (map (\<lambda>i. load8 m (nm_it amln + of_nat i)) [0..<4], amln\<lparr>nm_it := nm_it amln + 4\<rparr>)
      else None)"

text \<open>The loop of \<open>lai_stringify_amlname\<close>: segments separated by dots.\<close>

partial_function (option) stringify_segments :: "mem \<Rightarrow> lai_amlname \<Rightarrow> u8 list option" where
  "stringify_segments m amln = do {
     (sg, amln) \<leftarrow> lai_amlname_iterate m amln;
     if lai_amlname_done amln then Some sg
     else do { r \<leftarrow> stringify_segments m amln; Some (sg @ 0x2E # r) } }"

definition stringify_chars :: "mem \<Rightarrow> lai_amlname \<Rightarrow> u8 list option" where
  "stringify_chars m amln = do {
     r \<leftarrow> (if lai_amlname_done amln then Some [] else stringify_segments m amln);
     Some ((if is_absolute amln then [0x5C] else []) @ replicate (height amln) 0x5E @ r @ [0]) }"

fun store_list :: "mem \<Rightarrow> addr \<Rightarrow> u8 list \<Rightarrow> mem" where
  "store_list m a [] = m"
| "store_list m a (b # bs) = store_list (store8 m a b) (a + 1) bs"

definition lai_stringify_amlname :: "lai_amlname \<Rightarrow> 'a heap_state_scheme \<Rightarrow> (addr \<times> 'a heap_state_scheme) option" where
  "lai_stringify_amlname amln s = do {
     let num_segs = unat (nm_end amln - nm_it amln) div 4;
     let max_length = 1 + height amln + num_segs * 5 + 1;
     (str, s) \<leftarrow> laihost_malloc (of_nat max_length) s;
     if str = 0 then None
     else do {
       cs \<leftarrow> stringify_chars (mem s) amln;
       let s = s\<lparr>mem := store_list (mem s) str cs\<rparr>;
       if max_length < length cs then None
       else if length cs \<noteq> max_length then laihost_realloc str (of_nat (length cs)) (of_nat max_length) s
       else Some (str, s) } }"

subsection \<open>Names and their encoding\<close>

text \<open>The encoding of a name in byte code, and its printed form.\<close>

definition encode_segments :: "u8 list list \<Rightarrow> u8 list" where
  "encode_segments segs = (case segs of [] \<Rightarrow> [0] | [sg] \<Rightarrow> sg | [sg, sg'] \<Rightarrow> DUAL_PREFIX # sg @ sg'
     | _ \<Rightarrow> MULTI_PREFIX # of_nat (length segs) # concat segs)"

definition encode_name :: "bool \<Rightarrow> nat \<Rightarrow> u8 list list \<Rightarrow> u8 list" where
  "encode_name ab hgt segs = (if ab then [ROOT_CHAR] else replicate hgt PARENT_CHAR) @ encode_segments segs"

fun dotted :: "u8 list list \<Rightarrow> u8 list" where
  "dotted [] = []"
| "dotted [sg] = sg"
| "dotted (sg # segs) = sg @ 0x2E # dotted segs"

definition name_text :: "bool \<Rightarrow> nat \<Rightarrow> u8 list list \<Rightarrow> u8 list" where
  "name_text ab hgt segs = (if ab then [ROOT_CHAR] else replicate hgt PARENT_CHAR) @ dotted segs @ [0]"

text \<open>A segment has four characters, the first a letter or an underscore.\<close>

definition valid_segment :: "u8 list \<Rightarrow> bool" where
  "valid_segment sg \<longleftrightarrow> length sg = 4 \<and> (0x41 \<le> hd sg \<and> hd sg \<le> 0x5A \<or> hd sg = 0x5F)"

definition bytes_at :: "mem \<Rightarrow> addr \<Rightarrow> u8 list \<Rightarrow> bool" where
  "bytes_at m a bs \<longleftrightarrow> (\<forall>i<length bs. load8 m (a + of_nat i) = bs ! i)"

lemma bytes_at_Nil [simp]: "bytes_at m a []"
  by (simp add: bytes_at_def)

lemma bytes_at_Cons: "bytes_at m a (b # bs) \<longleftrightarrow> load8 m a = b \<and> bytes_at m (a + 1) bs"
  by (auto simp: bytes_at_def nth_Cons All_less_Suc2 add.assoc split: nat.splits)

lemma bytes_at_append: "bytes_at m a (bs @ cs) \<longleftrightarrow> bytes_at m a bs \<and> bytes_at m (a + of_nat (length bs)) cs"
  by (induction bs arbitrary: a) (simp_all add: bytes_at_Cons add.assoc)

lemma bytes_at_map: "bytes_at m a bs \<Longrightarrow> map (\<lambda>i. load8 m (a + of_nat i)) [0..<length bs] = bs"
  by (rule nth_equalityI) (simp_all add: bytes_at_def)

lemma bytes_at_iff [code]: "bytes_at m a bs \<longleftrightarrow> map (\<lambda>i. load8 m (a + of_nat i)) [0..<length bs] = bs"
  unfolding bytes_at_def list_eq_iff_nth_eq by auto

text \<open>The client loop: segments until the name is done.\<close>

partial_function (option) name_segments :: "mem \<Rightarrow> lai_amlname \<Rightarrow> u8 list list option" where
  "name_segments m amln = (if lai_amlname_done amln then Some []
     else do { (sg, amln) \<leftarrow> lai_amlname_iterate m amln; r \<leftarrow> name_segments m amln; Some (sg # r) })"

text \<open>A cursor over the given segments.\<close>

definition cursor_ok :: "mem \<Rightarrow> lai_amlname \<Rightarrow> u8 list list \<Rightarrow> bool" where
  "cursor_ok m amln segs \<longleftrightarrow> nm_end amln = nm_it amln + of_nat (4 * length segs) \<and>
     unat (nm_it amln) + 4 * length segs < 2 ^ 64 \<and> (\<forall>sg\<in>set segs. length sg = 4) \<and> bytes_at m (nm_it amln) (concat segs)"

lemma cursor_done: "cursor_ok m amln segs \<Longrightarrow> lai_amlname_done amln \<longleftrightarrow> segs = []"
proof -
  assume "cursor_ok m amln segs"
  then have "nm_end amln = nm_it amln + of_nat (4 * length segs)" "4 * length segs < 2 ^ 64" by (simp_all add: cursor_ok_def)
  moreover from this(2) have "unat (of_nat (4 * length segs) :: u64) = 4 * length segs" by (intro unat_of_nat_eq) simp
  then have "(of_nat (4 * length segs) :: u64) = 0 \<longleftrightarrow> segs = []" by (simp only: unat_eq_0 [symmetric]) simp
  ultimately show ?thesis by (simp add: lai_amlname_done_def)
qed

lemma cursor_step:
  assumes "cursor_ok m amln (sg # segs)"
  shows "\<exists>amln'. lai_amlname_iterate m amln = Some (sg, amln') \<and> cursor_ok m amln' segs"
proof -
  note c = assms [unfolded cursor_ok_def]
  have len: "length sg = 4" "bytes_at m (nm_it amln) sg" "bytes_at m (nm_it amln + 4) (concat segs)"
    using c by (auto simp: bytes_at_append)
  have "unat (nm_end amln) = unat (nm_it amln) + 4 * length (sg # segs)"
    using c by (simp add: unat_plus_simple [THEN iffD1] unat_word_ariths unat_of_nat)
  then have "nm_it amln < nm_end amln" by (simp add: word_less_nat_alt)
  moreover have "unat (nm_it amln + 4) = unat (nm_it amln) + 4" using c by (simp add: unat_word_ariths)
  ultimately show ?thesis using c len bytes_at_map [OF len(2)]
    by (auto simp: lai_amlname_iterate_def cursor_ok_def algebra_simps)
qed

lemma name_segments_cursor: "cursor_ok m amln segs \<Longrightarrow> name_segments m amln = Some segs"
proof (induction segs arbitrary: amln)
  case Nil
  then show ?case by (subst name_segments.simps) (simp add: cursor_done)
next
  case (Cons sg segs)
  obtain amln' where "lai_amlname_iterate m amln = Some (sg, amln')" "cursor_ok m amln' segs" using cursor_step [OF Cons.prems] by blast
  then show ?case using Cons.IH cursor_done [OF Cons.prems] by (subst name_segments.simps) simp
qed

lemma stringify_segments_cursor: "cursor_ok m amln segs \<Longrightarrow> segs \<noteq> [] \<Longrightarrow> stringify_segments m amln = Some (dotted segs)"
proof (induction segs arbitrary: amln rule: dotted.induct)
  case (2 sg)
  obtain amln' where "lai_amlname_iterate m amln = Some (sg, amln')" "cursor_ok m amln' []" using cursor_step [OF "2.prems"(1)] by blast
  then show ?case by (subst stringify_segments.simps) (simp add: cursor_done)
next
  case (3 sg sg' segs)
  obtain amln' where "lai_amlname_iterate m amln = Some (sg, amln')" "cursor_ok m amln' (sg' # segs)"
    using cursor_step [OF "3.prems"(1)] by blast
  then show ?case using "3.IH" by (subst stringify_segments.simps) (simp add: cursor_done)
qed simp

lemma skip_parents_run:
  "bytes_at m a (replicate n PARENT_CHAR @ [b]) \<Longrightarrow> b \<noteq> PARENT_CHAR \<Longrightarrow> skip_parents m a k = Some (a + of_nat n, k + n)"
proof (induction n arbitrary: a k)
  case 0
  then show ?case by (subst skip_parents.simps) (simp add: bytes_at_Cons)
next
  case (Suc n)
  then show ?case by (subst skip_parents.simps) (simp add: bytes_at_Cons add.assoc)
qed

lemma concat_length: "\<forall>sg\<in>set segs. length sg = (4 :: nat) \<Longrightarrow> length (concat segs) = 4 * length segs"
  by (induction segs) simp_all

lemmas name_chars = DUAL_PREFIX_def MULTI_PREFIX_def ROOT_CHAR_def PARENT_CHAR_def

lemma valid_segment_lead:
  assumes "valid_segment sg"
  shows "hd sg \<noteq> 0" "hd sg \<noteq> ROOT_CHAR" "hd sg \<noteq> PARENT_CHAR" "hd sg \<noteq> DUAL_PREFIX" "hd sg \<noteq> MULTI_PREFIX" "lai_is_name (hd sg)"
  using assms by (auto simp: valid_segment_def lai_is_name_def name_chars)

lemma segment_count_encoded:
  assumes "bytes_at m a (encode_segments segs)" and "\<forall>sg\<in>set segs. valid_segment sg" and "length segs \<le> 255"
  shows "\<exists>p\<le>2. segment_count m a = Some (a + of_nat p, length segs) \<and> bytes_at m (a + of_nat p) (concat segs) \<and>
           length (encode_segments segs) = p + 4 * length segs"
proof -
  have len: "\<forall>sg\<in>set segs. length sg = 4" using assms(2) by (simp add: valid_segment_def)
  consider "segs = []" | sg where "segs = [sg]" | sg sg' where "segs = [sg, sg']" | "2 < length segs"
    by (cases segs; cases "tl segs"; cases "tl (tl segs)") auto
  then show ?thesis
  proof cases
    case 1
    then show ?thesis using assms(1) by (intro exI [of _ 1]) (simp add: encode_segments_def segment_count_def bytes_at_Cons bytes_at_def)
  next
    case (2 sg)
    then obtain c cs where "sg = c # cs" using len by (cases sg) auto
    with 2 assms len valid_segment_lead [of sg] show ?thesis
      by (intro exI [of _ 0]) (auto simp: encode_segments_def segment_count_def bytes_at_Cons)
  next
    case (3 sg sg')
    with assms len show ?thesis
      by (intro exI [of _ 1]) (auto simp: encode_segments_def segment_count_def bytes_at_Cons name_chars)
  next
    case 4
    then have enc: "encode_segments segs = MULTI_PREFIX # of_nat (length segs) # concat segs"
      by (auto simp: encode_segments_def split: list.splits)
    have u: "unat (of_nat (length segs) :: u8) = length segs" using assms(3) by (simp add: unat_of_nat)
    then have "(2 :: u8) < of_nat (length segs)" using 4 by (simp add: word_less_nat_alt)
    with assms(1) enc u concat_length [OF len] show ?thesis
      by (intro exI [of _ 2]) (auto simp: segment_count_def bytes_at_Cons name_chars add.assoc)
  qed
qed

subsection \<open>Properties\<close>


text \<open>The name \<open>\_SB_.PCI0._CRS\<close> at address 0x100.\<close>

definition name_example :: "u8 list list" where
  "name_example = [[0x5F, 0x53, 0x42, 0x5F], [0x50, 0x43, 0x49, 0x30], [0x5F, 0x43, 0x52, 0x53]]"


end
