(* ===== verification/LaiNs.thy ===== *)
theory LaiNs
  imports HeapFrame LaiHash LaiNames LaiResource
begin

text \<open>
  The namespace of \<open>core/ns.c\<close>: nodes linked to their parent, each with a hash table of its children, and an array of
  all nodes.  Nodes are blocks of the kernel heap; their fields are kept in a store indexed by address, the
  members of the union as separate fields (a node uses those of its type).  The array of nodes is a block whose
  contents are kept beside its address.  Trace output is left out; a failed assertion or a panic has no result.
\<close>

subsection \<open>State\<close>

definition LAI_NAMESPACE_ROOT :: u32 where "LAI_NAMESPACE_ROOT = 1"
definition LAI_NAMESPACE_NAME :: u32 where "LAI_NAMESPACE_NAME = 2"
definition LAI_NAMESPACE_ALIAS :: u32 where "LAI_NAMESPACE_ALIAS = 3"
definition LAI_NAMESPACE_FIELD :: u32 where "LAI_NAMESPACE_FIELD = 4"
definition LAI_NAMESPACE_METHOD :: u32 where "LAI_NAMESPACE_METHOD = 5"
definition LAI_NAMESPACE_DEVICE :: u32 where "LAI_NAMESPACE_DEVICE = 6"
definition LAI_NAMESPACE_INDEXFIELD :: u32 where "LAI_NAMESPACE_INDEXFIELD = 7"
definition LAI_NAMESPACE_MUTEX :: u32 where "LAI_NAMESPACE_MUTEX = 8"
definition LAI_NAMESPACE_PROCESSOR :: u32 where "LAI_NAMESPACE_PROCESSOR = 9"
definition LAI_NAMESPACE_BUFFER_FIELD :: u32 where "LAI_NAMESPACE_BUFFER_FIELD = 10"
definition LAI_NAMESPACE_THERMALZONE :: u32 where "LAI_NAMESPACE_THERMALZONE = 11"
definition LAI_NAMESPACE_EVENT :: u32 where "LAI_NAMESPACE_EVENT = 12"
definition LAI_NAMESPACE_POWERRESOURCE :: u32 where "LAI_NAMESPACE_POWERRESOURCE = 13"
definition LAI_NAMESPACE_BANKFIELD :: u32 where "LAI_NAMESPACE_BANKFIELD = 14"
definition LAI_NAMESPACE_OPREGION :: u32 where "LAI_NAMESPACE_OPREGION = 15"

lemmas namespace_types = LAI_NAMESPACE_ROOT_def LAI_NAMESPACE_NAME_def LAI_NAMESPACE_ALIAS_def LAI_NAMESPACE_FIELD_def
  LAI_NAMESPACE_METHOD_def LAI_NAMESPACE_DEVICE_def LAI_NAMESPACE_INDEXFIELD_def LAI_NAMESPACE_MUTEX_def
  LAI_NAMESPACE_PROCESSOR_def LAI_NAMESPACE_BUFFER_FIELD_def LAI_NAMESPACE_THERMALZONE_def LAI_NAMESPACE_EVENT_def
  LAI_NAMESPACE_POWERRESOURCE_def LAI_NAMESPACE_BANKFIELD_def LAI_NAMESPACE_OPREGION_def

text \<open>
  A value of the interpreter (\<open>lai_variable_t\<close>): one constructor per value of its type tag, with the members that are
  in use for it.  Strings, buffers and packages are pointers to counted heads; an index points into one of them.
\<close>

datatype lai_variable = VNone | VInteger u64 | VString addr | VBuffer addr | VPackage addr
  | VHandle addr | VLazyHandle addr addr | VArgRef addr nat | VLocalRef addr nat | VNodeRef addr
  | VStringIndex addr u64 | VBufferIndex addr u64 | VPackageIndex addr u64

text \<open>The members of the union that depends on the type of a node have fields of their own.\<close>

record lai_nsnode =
  nd_name :: "u8 list"
  nd_type :: u32
  nd_parent :: addr
  nd_amls :: addr
  nd_pointer :: addr
  nd_size :: u64
  nd_object :: lai_variable
  notify_override :: addr
  notify_userptr :: addr
  method_flags :: u8
  method_override :: addr
  al_target :: addr
  fld_region_node :: addr
  fld_offset :: u64
  fld_size :: u64
  fld_flags :: u8
  fld_bkf_bank_node :: addr
  fld_bkf_value :: u64
  fld_idxf_index_node :: addr
  fld_idxf_data_node :: addr
  bf_buffer :: addr
  bf_offset :: u64
  bf_size :: u64
  cpu_id :: u8
  pblk_addr :: u32
  pblk_len :: u8
  op_address_space :: u8
  op_base :: u64
  op_length :: u64
  op_override :: addr
  op_userptr :: addr
  sync_val :: u32
  children :: lai_hashtable

definition zero_nsnode :: lai_nsnode where
  "zero_nsnode = \<lparr>nd_name = [0, 0, 0, 0], nd_type = 0, nd_parent = 0, nd_amls = 0, nd_pointer = 0, nd_size = 0, nd_object = VNone,
     notify_override = 0, notify_userptr = 0, method_flags = 0, method_override = 0, al_target = 0, fld_region_node = 0,
     fld_offset = 0, fld_size = 0, fld_flags = 0, fld_bkf_bank_node = 0, fld_bkf_value = 0, fld_idxf_index_node = 0,
     fld_idxf_data_node = 0, bf_buffer = 0, bf_offset = 0, bf_size = 0, cpu_id = 0, pblk_addr = 0, pblk_len = 0,
     op_address_space = 0, op_base = 0, op_length = 0, op_override = 0, op_userptr = 0, sync_val = 0,
     children = lai_hashtable_zero\<rparr>"

definition sizeof_lai_nsnode :: u64 where "sizeof_lai_nsnode = 224"

record 'd lai_ns_state = "'d apic_state" +
  node_at :: "addr \<Rightarrow> lai_nsnode"
  root_node :: addr
  ns_array :: addr
  ns_entries :: "addr list"
  ns_capacity :: u64
  acpi_revision :: u32
  lai_fadt :: addr

definition ns_size :: "('d, 'a) lai_ns_state_scheme \<Rightarrow> u64" where "ns_size s = of_nat (length (ns_entries s))"

definition set_node :: "addr \<Rightarrow> (lai_nsnode \<Rightarrow> lai_nsnode) \<Rightarrow> ('d, 'a) lai_ns_state_scheme \<Rightarrow> ('d, 'a) lai_ns_state_scheme" where
  "set_node n f s = s\<lparr>node_at := (node_at s)(n := f (node_at s n))\<rparr>"

subsection \<open>Creating nodes\<close>

text \<open>The characters are signed; the sum is unsigned.\<close>

definition lai_hash_string :: "u8 list \<Rightarrow> u32" where
  "lai_hash_string cs = fold (\<lambda>c x. (push_bit 5 x + x) + scast c) cs 5381"

definition lai_create_nsnode :: "('d, 'a) lai_ns_state_scheme \<Rightarrow> (addr \<times> ('d, 'a) lai_ns_state_scheme) option" where
  "lai_create_nsnode s = do {
     (node, s) \<leftarrow> laihost_malloc sizeof_lai_nsnode s;
     if node = 0 then Some (0, s)
     else Some (node, set_node node (\<lambda>_. zero_nsnode) (s\<lparr>mem := snd (memset (mem s) node 0 sizeof_lai_nsnode)\<rparr>)) }"

definition lai_create_nsnode_or_die :: "('d, 'a) lai_ns_state_scheme \<Rightarrow> (addr \<times> ('d, 'a) lai_ns_state_scheme) option" where
  "lai_create_nsnode_or_die s = do { (node, s) \<leftarrow> lai_create_nsnode s; if node = 0 then None else Some (node, s) }"

subsection \<open>Paths as text\<close>

partial_function (option) path_depth :: "(addr \<Rightarrow> lai_nsnode) \<Rightarrow> addr \<Rightarrow> u64 \<Rightarrow> u64 option" where
  "path_depth nodes n k = (if nd_parent (nodes n) \<noteq> 0 then path_depth nodes (nd_parent (nodes n)) (k + 1) else Some k)"

text \<open>The string is built from right to left; the first dot becomes the root character.\<close>

partial_function (option) path_chars :: "(addr \<Rightarrow> lai_nsnode) \<Rightarrow> addr \<Rightarrow> u8 list \<Rightarrow> u8 list option" where
  "path_chars nodes n acc =
     (if nd_parent (nodes n) \<noteq> 0 then path_chars nodes (nd_parent (nodes n)) (0x2E # nd_name (nodes n) @ acc) else Some acc)"

definition lai_stringify_node_path :: "addr \<Rightarrow> ('d, 'a) lai_ns_state_scheme \<Rightarrow> (addr \<times> ('d, 'a) lai_ns_state_scheme) option" where
  "lai_stringify_node_path node s =
     (if nd_parent (node_at s node) = 0
      then (if nd_type (node_at s node) \<noteq> LAI_NAMESPACE_ROOT then None
            else do {
              (str, s) \<leftarrow> laihost_malloc 2 s;
              if str = 0 then None else Some (str, s\<lparr>mem := store_list (mem s) str [0x5C, 0]\<rparr>) })
      else do {
        num_segs \<leftarrow> path_depth (node_at s) node 0;
        (str, s) \<leftarrow> laihost_malloc (num_segs * 5 + 1) s;
        if str = 0 then None
        else do {
          cs \<leftarrow> path_chars (node_at s) node [];
          Some (str, s\<lparr>mem := store_list (mem s) str (0x5C # tl cs @ [0])\<rparr>) } })"

definition lai_cleanup_free_string :: "addr \<Rightarrow> ('d, 'a) lai_ns_state_scheme \<Rightarrow> ('d, 'a) lai_ns_state_scheme option" where
  "lai_cleanup_free_string v s =
     (if v \<noteq> 0 then do { n \<leftarrow> lai_strlen (mem s) v; laihost_free v (n + 1) s } else Some s)"

subsection \<open>Children\<close>

partial_function (option) find_child :: "(addr \<Rightarrow> lai_nsnode) \<Rightarrow> lai_hashtable \<Rightarrow> u32 \<Rightarrow> u8 list \<Rightarrow> int \<Rightarrow> addr option" where
  "find_child nodes ht h nm c = do {
     (more, c) \<leftarrow> lai_hashtable_chain_advance ht h c;
     if more
     then do { child \<leftarrow> lai_hashtable_chain_get ht h c;
               if nd_name (nodes child) = nm then Some child else find_child nodes ht h nm c }
     else Some 0 }"

definition lai_ns_get_child :: "('d, 'a) lai_ns_state_scheme \<Rightarrow> addr \<Rightarrow> u8 list \<Rightarrow> addr option" where
  "lai_ns_get_child s parent nm =
     find_child (node_at s) (children (node_at s parent)) (lai_hash_string nm) nm LAI_HASHTABLE_CHAIN_INITIALIZER"

definition lai_ns_get_root :: "('d, 'a) lai_ns_state_scheme \<Rightarrow> addr" where "lai_ns_get_root s = root_node s"
definition lai_ns_get_parent :: "('d, 'a) lai_ns_state_scheme \<Rightarrow> addr \<Rightarrow> addr" where
  "lai_ns_get_parent s node = nd_parent (node_at s node)"

subsection \<open>Installing and removing nodes\<close>

definition grow_ns_array :: "('d, 'a) lai_ns_state_scheme \<Rightarrow> ('d, 'a) lai_ns_state_scheme option" where
  "grow_ns_array s =
     (if ns_size s = ns_capacity s
      then let new_capacity = ns_capacity s * 2;
               new_capacity = (if new_capacity = 0 then 128 else new_capacity)
           in do {
             (new_array, s) \<leftarrow> laihost_realloc (ns_array s) (8 * new_capacity) (8 * ns_capacity s) s;
             if new_array = 0 then None else Some (s\<lparr>ns_array := new_array, ns_capacity := new_capacity\<rparr>) }
      else Some s)"

definition lai_install_nsnode ::
    "addr \<Rightarrow> ('d, 'a) lai_ns_state_scheme \<Rightarrow> (lai_api_error \<times> ('d, 'a) lai_ns_state_scheme) option" where
  "lai_install_nsnode node s = do {
     s \<leftarrow> grow_ns_array s;
     let s = s\<lparr>ns_entries := ns_entries s @ [node]\<rparr>;
     let parent = nd_parent (node_at s node);
     if parent = 0 then Some (LAI_ERROR_NONE, s)
     else do {
       let h = lai_hash_string (nd_name (node_at s node));
       dup \<leftarrow> find_child (node_at s) (children (node_at s parent)) h (nd_name (node_at s node)) LAI_HASHTABLE_CHAIN_INITIALIZER;
       if dup \<noteq> 0
       then do {
         (fullpath, s) \<leftarrow> lai_stringify_node_path node s;
         s \<leftarrow> lai_cleanup_free_string fullpath s;
         Some (LAI_ERROR_UNEXPECTED_RESULT, s) }
       else do {
         (ht, s) \<leftarrow> lai_hashtable_insert (children (node_at s parent)) h node s;
         Some (LAI_ERROR_NONE, set_node parent (\<lambda>p. p\<lparr>children := ht\<rparr>) s) } } }"

text \<open>The two loops of \<open>lai_uninstall_nsnode\<close>: find the node's place in the chain; make sure that it does not occur again.\<close>

partial_function (option) find_place :: "lai_hashtable \<Rightarrow> u32 \<Rightarrow> addr \<Rightarrow> int \<Rightarrow> int option" where
  "find_place ht h node c = do {
     (more, c) \<leftarrow> lai_hashtable_chain_advance ht h c;
     if \<not> more then None
     else do { child \<leftarrow> lai_hashtable_chain_get ht h c; if child \<noteq> node then find_place ht h node c else Some c } }"

partial_function (option) ensure_gone :: "lai_hashtable \<Rightarrow> u32 \<Rightarrow> addr \<Rightarrow> int \<Rightarrow> unit option" where
  "ensure_gone ht h node c = do {
     (more, c) \<leftarrow> lai_hashtable_chain_advance ht h c;
     if more then do { child \<leftarrow> lai_hashtable_chain_get ht h c; if child = node then None else ensure_gone ht h node c }
     else Some () }"

definition lai_uninstall_nsnode :: "addr \<Rightarrow> ('d, 'a) lai_ns_state_scheme \<Rightarrow> ('d, 'a) lai_ns_state_scheme option" where
  "lai_uninstall_nsnode node s = do {
     let s = s\<lparr>ns_entries := map (\<lambda>n. if n = node then 0 else n) (ns_entries s)\<rparr>;
     let parent = nd_parent (node_at s node);
     if parent = 0 then Some s
     else do {
       let h = lai_hash_string (nd_name (node_at s node));
       let ht = children (node_at s parent);
       c \<leftarrow> find_place ht h node LAI_HASHTABLE_CHAIN_INITIALIZER;
       ht \<leftarrow> lai_hashtable_chain_remove ht h c;
       _ \<leftarrow> ensure_gone ht h node c;
       Some (set_node parent (\<lambda>p. p\<lparr>children := ht\<rparr>) s) } }"

subsection \<open>Resolving names\<close>

partial_function (option) climb_to_root :: "(addr \<Rightarrow> lai_nsnode) \<Rightarrow> addr \<Rightarrow> addr option" where
  "climb_to_root nodes n =
     (if nd_parent (nodes n) \<noteq> 0 then climb_to_root nodes (nd_parent (nodes n))
      else if nd_type (nodes n) = LAI_NAMESPACE_ROOT then Some n else None)"

fun climb :: "(addr \<Rightarrow> lai_nsnode) \<Rightarrow> nat \<Rightarrow> addr \<Rightarrow> addr option" where
  "climb nodes 0 n = Some n"
| "climb nodes (Suc k) n =
     (if nd_parent (nodes n) = 0 then (if nd_type (nodes n) = LAI_NAMESPACE_ROOT then Some n else None)
      else climb nodes k (nd_parent (nodes n)))"

text \<open>An alias leads to its target, which must not be an alias.\<close>

definition follow_alias :: "(addr \<Rightarrow> lai_nsnode) \<Rightarrow> addr \<Rightarrow> addr option" where
  "follow_alias nodes n =
     (if nd_type (nodes n) = LAI_NAMESPACE_ALIAS
      then (if nd_type (nodes (al_target (nodes n))) \<noteq> LAI_NAMESPACE_ALIAS then Some (al_target (nodes n)) else None)
      else Some n)"

text \<open>The search through the scopes of all parents; 0 when it fails.\<close>

partial_function (option) search_scopes_loop :: "('d, 'a) lai_ns_state_scheme \<Rightarrow> u8 list \<Rightarrow> addr \<Rightarrow> addr option" where
  "search_scopes_loop s sg cur =
     (if cur = 0 then Some 0
      else do {
        node \<leftarrow> lai_ns_get_child s cur sg;
        if node = 0 then search_scopes_loop s sg (nd_parent (node_at s cur)) else follow_alias (node_at s) node })"

definition lai_resolve_search :: "('d, 'a) lai_ns_state_scheme \<Rightarrow> addr \<Rightarrow> u8 list \<Rightarrow> addr option" where
  "lai_resolve_search s ctx sg =
     (if ctx = 0 \<or> nd_type (node_at s ctx) = LAI_NAMESPACE_ALIAS then None else search_scopes_loop s sg ctx)"

text \<open>The descent of \<open>lai_do_resolve\<close>: aliases are not followed on the way.\<close>

partial_function (option) resolve_segments :: "('d, 'a) lai_ns_state_scheme \<Rightarrow> lai_amlname \<Rightarrow> addr \<Rightarrow> addr option" where
  "resolve_segments s amln cur =
     (if lai_amlname_done amln then follow_alias (node_at s) cur
      else do {
        (sg, amln) \<leftarrow> lai_amlname_iterate (mem s) amln;
        cur \<leftarrow> lai_ns_get_child s cur sg;
        if cur = 0 then Some 0 else resolve_segments s amln cur })"

definition lai_do_resolve :: "('d, 'a) lai_ns_state_scheme \<Rightarrow> addr \<Rightarrow> lai_amlname \<Rightarrow> addr option" where
  "lai_do_resolve s ctx amln =
     (if ctx = 0 \<or> nd_type (node_at s ctx) = LAI_NAMESPACE_ALIAS then None
      else if search_scopes amln
      then do {
        (sg, amln) \<leftarrow> lai_amlname_iterate (mem s) amln;
        if lai_amlname_done amln then search_scopes_loop s sg ctx else None }
      else do {
        cur \<leftarrow> (if is_absolute amln then climb_to_root (node_at s) ctx else Some ctx);
        cur \<leftarrow> climb (node_at s) (height amln) cur;
        if lai_amlname_done amln then Some cur else resolve_segments s amln cur })"

text \<open>A new name: all but the last segment are resolved, following aliases; the last is the name of the node.\<close>

partial_function (option) resolve_new_segments ::
    "('d, 'a) lai_ns_state_scheme \<Rightarrow> lai_amlname \<Rightarrow> addr \<Rightarrow> (u8 list \<times> addr) option" where
  "resolve_new_segments s amln parent = do {
     (sg, amln) \<leftarrow> lai_amlname_iterate (mem s) amln;
     if lai_amlname_done amln then Some (sg, parent)
     else do {
       parent \<leftarrow> lai_ns_get_child s parent sg;
       if parent = 0 then None
       else do { parent \<leftarrow> follow_alias (node_at s) parent; resolve_new_segments s amln parent } } }"

definition lai_do_resolve_new_node ::
    "addr \<Rightarrow> addr \<Rightarrow> lai_amlname \<Rightarrow> ('d, 'a) lai_ns_state_scheme \<Rightarrow> ('d, 'a) lai_ns_state_scheme option" where
  "lai_do_resolve_new_node node ctx amln s =
     (if ctx = 0 \<or> nd_type (node_at s ctx) = LAI_NAMESPACE_ALIAS then None
      else do {
        parent \<leftarrow> (if is_absolute amln then climb_to_root (node_at s) ctx else Some ctx);
        parent \<leftarrow> climb (node_at s) (height amln) parent;
        if lai_amlname_done amln then None
        else do {
          (sg, parent) \<leftarrow> resolve_new_segments s amln parent;
          Some (set_node node (\<lambda>n. n\<lparr>nd_name := sg, nd_parent := parent\<rparr>) s) } })"

definition lai_resolve_new_node ::
    "addr \<Rightarrow> addr \<Rightarrow> addr \<Rightarrow> ('d, 'a) lai_ns_state_scheme \<Rightarrow> (u64 \<times> ('d, 'a) lai_ns_state_scheme) option" where
  "lai_resolve_new_node node ctx data s = do {
     (amln, sz) \<leftarrow> lai_amlname_parse (mem s) data;
     s \<leftarrow> lai_do_resolve_new_node node ctx amln s;
     Some (sz, s) }"

text \<open>
  \<open>lai_resolve_path\<close> takes a C string, here its characters: a segment is up to four name characters, padded with
  underscores.  A segment without any name character is four underscores.
\<close>

definition path_segment :: "u8 list \<Rightarrow> u8 list \<times> u8 list" where
  "path_segment path = (let k = length (takeWhile lai_is_name (take 4 path))
     in (take k path @ replicate (4 - k) 0x5F, List.drop k path))"

lemma path_segment_shorter: "snd (path_segment path) = c # rest \<Longrightarrow> length rest < length path"
  using length_drop [of "length (takeWhile lai_is_name (take 4 path))" path] by (simp add: path_segment_def Let_def)

text \<open>Each round needs a dot before the next segment, so the loop ends with the string.\<close>

function resolve_path_loop :: "('d, 'a) lai_ns_state_scheme \<Rightarrow> u8 list \<Rightarrow> addr \<Rightarrow> addr option" where
  "resolve_path_loop s path cur = do {
     cur \<leftarrow> lai_ns_get_child s cur (fst (path_segment path));
     if cur = 0 then Some 0
     else do {
       cur \<leftarrow> follow_alias (node_at s) cur;
       case snd (path_segment path) of [] \<Rightarrow> Some cur
       | c # rest \<Rightarrow> if c = 0x2E then resolve_path_loop s rest cur else None } }"
  by pat_completeness auto
termination by (relation "measure (\<lambda>(s, path, cur). length path)") (auto dest: path_segment_shorter)

declare resolve_path_loop.simps [simp del]

definition lai_resolve_path :: "('d, 'a) lai_ns_state_scheme \<Rightarrow> addr \<Rightarrow> u8 list \<Rightarrow> addr option" where
  "lai_resolve_path s ctx path = do {
     let cur = (if ctx = 0 then root_node s else ctx);
     (cur, path) \<leftarrow> (case path of
         c # rest \<Rightarrow> if c = ROOT_CHAR then map_option (\<lambda>n. (n, rest)) (climb_to_root (node_at s) cur)
                      else let ups = takeWhile (\<lambda>c. c = PARENT_CHAR) path
                           in map_option (\<lambda>n. (n, List.drop (length ups) path)) (climb (node_at s) (length ups) cur)
       | [] \<Rightarrow> Some (cur, []));
     if path = [] then Some cur else resolve_path_loop s path cur }"

subsection \<open>Predefined nodes and tables\<close>

text \<open>A node of the root scope with a type, a name and, for methods, flags and the C function that implements it.\<close>

definition create_predefined ::
    "u32 \<Rightarrow> u8 list \<Rightarrow> u8 \<Rightarrow> addr \<Rightarrow> ('d, 'a) lai_ns_state_scheme \<Rightarrow> ('d, 'a) lai_ns_state_scheme option" where
  "create_predefined ty nm flags impl s = do {
     (node, s) \<leftarrow> lai_create_nsnode_or_die s;
     let s = set_node node (\<lambda>n. n\<lparr>nd_type := ty, nd_name := nm, nd_parent := root_node s, method_flags := flags,
                                   method_override := impl\<rparr>) s;
     (_, s) \<leftarrow> lai_install_nsnode node s;
     Some s }"

text \<open>The arguments are the addresses of \<open>lai_do_osi_method\<close>, \<open>lai_do_os_method\<close> and \<open>lai_do_rev_method\<close>.\<close>

definition lai_create_root ::
    "addr \<Rightarrow> addr \<Rightarrow> addr \<Rightarrow> ('d, 'a) lai_ns_state_scheme \<Rightarrow> (addr \<times> ('d, 'a) lai_ns_state_scheme) option" where
  "lai_create_root osi_fn os_fn rev_fn s = do {
     (root, s) \<leftarrow> lai_create_nsnode_or_die s;
     let s = set_node root (\<lambda>n. n\<lparr>nd_type := LAI_NAMESPACE_ROOT, nd_name := [0x5C, 0x5F, 0x5F, 0x5F], nd_parent := 0\<rparr>)
               (s\<lparr>root_node := root\<rparr>);
     s \<leftarrow> create_predefined LAI_NAMESPACE_DEVICE [0x5F, 0x53, 0x42, 0x5F] 0 0 s;
     s \<leftarrow> create_predefined LAI_NAMESPACE_DEVICE [0x5F, 0x53, 0x49, 0x5F] 0 0 s;
     s \<leftarrow> create_predefined LAI_NAMESPACE_DEVICE [0x5F, 0x47, 0x50, 0x45] 0 0 s;
     s \<leftarrow> create_predefined LAI_NAMESPACE_DEVICE [0x5F, 0x50, 0x52, 0x5F] 0 0 s;
     s \<leftarrow> create_predefined LAI_NAMESPACE_DEVICE [0x5F, 0x54, 0x5A, 0x5F] 0 0 s;
     s \<leftarrow> create_predefined LAI_NAMESPACE_METHOD [0x5F, 0x4F, 0x53, 0x49] 1 osi_fn s;
     s \<leftarrow> create_predefined LAI_NAMESPACE_METHOD [0x5F, 0x4F, 0x53, 0x5F] 0 os_fn s;
     s \<leftarrow> create_predefined LAI_NAMESPACE_METHOD [0x5F, 0x52, 0x45, 0x56] 0 rev_fn s;
     Some (root_node s, s) }"

text \<open>\<open>struct lai_aml_segment\<close> has the table at offset 0 and the index, an \<open>int\<close> widened to \<open>size_t\<close>, at 8.\<close>

definition lai_load_table :: "addr \<Rightarrow> u32 \<Rightarrow> ('d, 'a) lai_ns_state_scheme \<Rightarrow> (addr \<times> ('d, 'a) lai_ns_state_scheme) option" where
  "lai_load_table p index s = do {
     (amls, s) \<leftarrow> laihost_malloc 16 s;
     if amls = 0 then None
     else Some (amls, s\<lparr>mem := store64 (store64 (snd (memset (mem s) amls 0 16)) amls p) (amls + 8) (scast index)\<rparr>) }"

subsection \<open>Iteration and attributes\<close>

text \<open>The iterators return the next node that is not null (0 at the end) and the new position.\<close>

function ns_next :: "addr list \<Rightarrow> nat \<Rightarrow> addr \<times> nat" where
  "ns_next xs i = (if i < length xs then (if xs ! i \<noteq> 0 then (xs ! i, i + 1) else ns_next xs (i + 1)) else (0, i))"
  by pat_completeness auto
termination by (relation "measure (\<lambda>(xs, i). length xs - i)") auto

declare ns_next.simps [simp del]

definition lai_ns_iterate :: "('d, 'a) lai_ns_state_scheme \<Rightarrow> nat \<Rightarrow> addr \<times> nat" where
  "lai_ns_iterate s i = ns_next (ns_entries s) i"

definition lai_ns_child_iterate :: "('d, 'a) lai_ns_state_scheme \<Rightarrow> addr \<Rightarrow> nat \<Rightarrow> addr \<times> nat" where
  "lai_ns_child_iterate s parent i = ns_next (take (elem_capacity (children (node_at s parent))) (ptr_entries (children (node_at s parent)))) i"

definition lai_ns_override_notify ::
    "addr \<Rightarrow> addr \<Rightarrow> addr \<Rightarrow> ('d, 'a) lai_ns_state_scheme \<Rightarrow> (lai_api_error \<times> ('d, 'a) lai_ns_state_scheme) option" where
  "lai_ns_override_notify node override userptr s =
     (if node = 0 then None
      else Some (LAI_ERROR_NONE, set_node node (\<lambda>n. n\<lparr>notify_override := override, notify_userptr := userptr\<rparr>) s))"

definition lai_ns_override_opregion ::
    "addr \<Rightarrow> addr \<Rightarrow> addr \<Rightarrow> ('d, 'a) lai_ns_state_scheme \<Rightarrow> (lai_api_error \<times> ('d, 'a) lai_ns_state_scheme) option" where
  "lai_ns_override_opregion node override userptr s =
     (if node = 0 \<or> nd_type (node_at s node) \<noteq> LAI_NAMESPACE_OPREGION then None
      else Some (LAI_ERROR_NONE, set_node node (\<lambda>n. n\<lparr>op_override := override, op_userptr := userptr\<rparr>) s))"

datatype lai_node_type = LAI_NODETYPE_NULL | LAI_NODETYPE_ROOT | LAI_NODETYPE_EVALUATABLE | LAI_NODETYPE_DEVICE
  | LAI_NODETYPE_MUTEX | LAI_NODETYPE_PROCESSOR | LAI_NODETYPE_THERMALZONE | LAI_NODETYPE_EVENT
  | LAI_NODETYPE_POWERRESOURCE | LAI_NODETYPE_OPREGION

definition lai_ns_get_node_type :: "('d, 'a) lai_ns_state_scheme \<Rightarrow> addr \<Rightarrow> lai_node_type" where
  "lai_ns_get_node_type s node =
     (let ty = nd_type (node_at s node)
      in if node = 0 then LAI_NODETYPE_NULL
         else if ty = LAI_NAMESPACE_ROOT then LAI_NODETYPE_ROOT
         else if ty \<in> {LAI_NAMESPACE_NAME, LAI_NAMESPACE_ALIAS, LAI_NAMESPACE_FIELD, LAI_NAMESPACE_METHOD,
                        LAI_NAMESPACE_BUFFER_FIELD, LAI_NAMESPACE_BANKFIELD} then LAI_NODETYPE_EVALUATABLE
         else if ty = LAI_NAMESPACE_DEVICE then LAI_NODETYPE_DEVICE
         else if ty = LAI_NAMESPACE_MUTEX then LAI_NODETYPE_MUTEX
         else if ty = LAI_NAMESPACE_PROCESSOR then LAI_NODETYPE_PROCESSOR
         else if ty = LAI_NAMESPACE_THERMALZONE then LAI_NODETYPE_THERMALZONE
         else if ty = LAI_NAMESPACE_EVENT then LAI_NODETYPE_EVENT
         else if ty = LAI_NAMESPACE_POWERRESOURCE then LAI_NODETYPE_POWERRESOURCE
         else if ty = LAI_NAMESPACE_OPREGION then LAI_NODETYPE_OPREGION
         else LAI_NODETYPE_NULL)"

definition lai_set_acpi_revision :: "u32 \<Rightarrow> ('d, 'a) lai_ns_state_scheme \<Rightarrow> ('d, 'a) lai_ns_state_scheme" where
  "lai_set_acpi_revision revision s = s\<lparr>acpi_revision := (if revision = 0 then 1 else revision)\<rparr>"

definition lai_ns_get_opregion_address_space :: "('d, 'a) lai_ns_state_scheme \<Rightarrow> addr \<Rightarrow> u8 option" where
  "lai_ns_get_opregion_address_space s node =
     (if nd_type (node_at s node) = LAI_NAMESPACE_OPREGION then Some (op_address_space (node_at s node)) else None)"

subsection \<open>Lookup among the children of a node\<close>

definition kids :: "('d, 'a) lai_ns_state_scheme \<Rightarrow> addr \<Rightarrow> addr set" where
  "kids s p = snd ` set_mset (ht_elems (children (node_at s p)))"

text \<open>The table of a node is consistent, files each child under the hash of its name, and the names differ.\<close>

definition children_ok :: "('d, 'a) lai_ns_state_scheme \<Rightarrow> addr \<Rightarrow> bool" where
  "children_ok s p \<longleftrightarrow> ht_ok (children (node_at s p)) \<and>
     (\<forall>(h, e) \<in># ht_elems (children (node_at s p)). h = lai_hash_string (nd_name (node_at s e))) \<and>
     inj_on (\<lambda>e. nd_name (node_at s e)) (kids s p)"

lemma kids_nonzero: "0 \<notin> kids s p"
  by (auto simp: kids_def ht_elems_def)

lemma find_child_first:
  assumes "ht_ok ht"
  shows "find_child nodes ht h nm (-1) =
     Some (case find (\<lambda>e. nd_name (nodes e) = nm) (chain_rest ht h (-1)) of Some e \<Rightarrow> e | None \<Rightarrow> 0)"
proof -
  have "chain_live ht (-1)" using assms by (simp add: chain_live_def)
  then show ?thesis by (rule chain.search_finds) (rule find_child.simps)
qed

lemma set_chain_rest: "ht_ok ht \<Longrightarrow> set (chain_rest ht h (-1)) = {e. (h, e) \<in># ht_elems ht}"
proof -
  assume "ht_ok ht"
  then have "set_mset (mset (chain_rest ht h (-1))) = snd ` {p. p \<in># ht_elems ht \<and> fst p = h}"
    unfolding mset_chain_rest [OF \<open>ht_ok ht\<close>] by simp
  then show ?thesis by force
qed

lemma find_unique: "{x \<in> set xs. P x} = {e} \<Longrightarrow> find P xs = Some e"
proof (cases "find P xs")
  case (Some y)
  then have "y \<in> {x \<in> set xs. P x}" by (auto simp: find_Some_iff)
  with Some show "{x \<in> set xs. P x} = {e} \<Longrightarrow> find P xs = Some e" by simp
qed (auto simp: find_None_iff)

lemma chain_of_name:
  assumes "children_ok s p"
  shows "{e \<in> set (chain_rest (children (node_at s p)) (lai_hash_string nm) (-1)). nd_name (node_at s e) = nm} =
         {e \<in> kids s p. nd_name (node_at s e) = nm}"
  using assms set_chain_rest [of "children (node_at s p)" "lai_hash_string nm"]
  by (force simp: children_ok_def kids_def)

lemma get_child_kid:
  assumes ok: "children_ok s p" and e: "e \<in> kids s p"
  shows "lai_ns_get_child s p (nd_name (node_at s e)) = Some e"
proof -
  let ?nm = "nd_name (node_at s e)" and ?ht = "children (node_at s p)"
  let ?c = "chain_rest ?ht (lai_hash_string ?nm) (-1)"
  have "{x \<in> set ?c. nd_name (node_at s x) = ?nm} = {e}"
    unfolding chain_of_name [OF ok] using ok e by (auto simp: children_ok_def inj_on_def)
  then have "find (\<lambda>x. nd_name (node_at s x) = ?nm) ?c = Some e" by (rule find_unique)
  then show ?thesis using find_child_first ok by (simp add: lai_ns_get_child_def children_ok_def LAI_HASHTABLE_CHAIN_INITIALIZER_def)
qed

lemma get_child_missing:
  assumes ok: "children_ok s p"
  shows "lai_ns_get_child s p nm = Some 0 \<longleftrightarrow> (\<forall>e\<in>kids s p. nd_name (node_at s e) \<noteq> nm)"
proof
  assume "\<forall>e\<in>kids s p. nd_name (node_at s e) \<noteq> nm"
  then have "\<forall>e\<in>set (chain_rest (children (node_at s p)) (lai_hash_string nm) (-1)). nd_name (node_at s e) \<noteq> nm"
    using chain_of_name [OF ok, of nm] by blast
  then have "find (\<lambda>e. nd_name (node_at s e) = nm) (chain_rest (children (node_at s p)) (lai_hash_string nm) (-1)) = None"
    by (simp add: find_None_iff)
  then show "lai_ns_get_child s p nm = Some 0"
    using find_child_first ok by (simp add: lai_ns_get_child_def children_ok_def LAI_HASHTABLE_CHAIN_INITIALIZER_def)
next
  assume "lai_ns_get_child s p nm = Some 0"
  then show "\<forall>e\<in>kids s p. nd_name (node_at s e) \<noteq> nm" using get_child_kid [OF ok] kids_nonzero by fastforce
qed

lemma grow_blocks_more: "grow_blocks ht n m s = Some s' \<Longrightarrow> heap_state.more s' = heap_state.more s"
  by (auto simp: grow_blocks_def free_tables_def bind_eq_Some_conv dest!: laihost_malloc_more laihost_free_more split: if_splits)

lemma ns_frame:
  assumes "heap_state.more s' = heap_state.more s"
  shows "node_at s' = node_at s" "ns_entries s' = ns_entries s" "root_node s' = root_node s" "ns_capacity s' = ns_capacity s"
  using assms by (cases s; cases s'; simp)+

lemma children_ok_insert:
  assumes ok: "children_ok s p" and new: "\<forall>e\<in>kids s p. nd_name (node_at s e) \<noteq> nd_name (node_at s n)"
    and ht: "ht_ok ht" "ht_elems ht = add_mset (lai_hash_string (nd_name (node_at s n)), n) (ht_elems (children (node_at s p)))"
    and s': "node_at s' = (node_at s)(p := (node_at s p)\<lparr>children := ht\<rparr>)"
  shows "children_ok s' p" "kids s' p = insert n (kids s p)" "nd_name (node_at s' e) = nd_name (node_at s e)"
proof -
  show names: "nd_name (node_at s' e) = nd_name (node_at s e)" for e by (simp add: s')
  show kids: "kids s' p = insert n (kids s p)" by (simp add: kids_def s' ht(2))
  have "children (node_at s' p) = ht" by (simp add: s')
  moreover have "inj_on (\<lambda>e. nd_name (node_at s e)) (insert n (kids s p))"
    using ok new by (auto simp: children_ok_def inj_on_def)
  ultimately show "children_ok s' p" unfolding children_ok_def kids names
    using ok ht by (auto simp: children_ok_def)
qed

subsection \<open>Properties\<close>


text \<open>
  A path down the tree: each node is a child of the one before, linked back to it, carries the segment as its name
  and is no alias.
\<close>

inductive ns_path :: "('d, 'a) lai_ns_state_scheme \<Rightarrow> addr \<Rightarrow> u8 list list \<Rightarrow> addr \<Rightarrow> bool" for s where
  here: "ns_path s n [] n"
| down: "children_ok s n \<Longrightarrow> e \<in> kids s n \<Longrightarrow> nd_parent (node_at s e) = n \<Longrightarrow> n \<noteq> 0 \<Longrightarrow>
    nd_type (node_at s e) \<noteq> LAI_NAMESPACE_ALIAS \<Longrightarrow> ns_path s e segs m \<Longrightarrow> ns_path s n (nd_name (node_at s e) # segs) m"

lemma path_chars_path:
  "ns_path s n segs m \<Longrightarrow> path_chars (node_at s) m acc = path_chars (node_at s) n (concat (map ((#) 0x2E) segs) @ acc)"
proof (induction rule: ns_path.induct)
  case (down n e segs m)
  have "path_chars (node_at s) e xs = path_chars (node_at s) n (0x2E # nd_name (node_at s e) @ xs)" for xs
    using down.hyps(3,4) by (subst path_chars.simps) simp
  with down.IH show ?case by simp
qed simp

lemma path_depth_path: "ns_path s n segs m \<Longrightarrow> path_depth (node_at s) m k = path_depth (node_at s) n (k + of_nat (length segs))"
proof (induction rule: ns_path.induct)
  case (down n e segs m)
  have "path_depth (node_at s) e k = path_depth (node_at s) n (k + 1)" for k
    using down.hyps(3,4) by (subst path_depth.simps) simp
  with down.IH show ?case by (simp add: algebra_simps)
qed simp

lemma dotted_concat: "segs \<noteq> [] \<Longrightarrow> concat (map ((#) 0x2E) segs) = 0x2E # dotted segs"
  by (induction segs rule: dotted.induct) simp_all

lemma path_segment_full:
  assumes "4 \<le> length p" and "\<forall>c\<in>set (take 4 p). lai_is_name c"
  shows "path_segment p = (take 4 p, List.drop 4 p)"
proof -
  have t: "takeWhile lai_is_name (take 4 p) = take 4 p" using assms(2) by (simp add: takeWhile_eq_all_conv)
  show ?thesis using assms(1) by (simp add: path_segment_def Let_def t)
qed

lemma path_segment_name:
  assumes "length sg = 4" and "\<forall>c\<in>set sg. lai_is_name c"
  shows "path_segment (sg @ rest) = (sg, rest)"
  using path_segment_full [of "sg @ rest"] assms by simp

lemma resolve_path_path:
  "ns_path s n segs m \<Longrightarrow> segs \<noteq> [] \<Longrightarrow> \<forall>sg\<in>set segs. length sg = 4 \<and> (\<forall>c\<in>set sg. lai_is_name c) \<Longrightarrow>
     resolve_path_loop s (dotted segs) n = Some m"
proof (induction rule: ns_path.induct)
  case (down n e segs m)
  let ?nm = "nd_name (node_at s e)"
  have child: "lai_ns_get_child s n ?nm = Some e" "e \<noteq> 0" using get_child_kid [OF down.hyps(1,2)] down.hyps(2) kids_nonzero by auto
  have al: "follow_alias (node_at s) e = Some e" using down.hyps(5) by (simp add: follow_alias_def)
  show ?case
  proof (cases segs)
    case Nil
    with down.hyps(6) have "m = e" by (auto elim: ns_path.cases)
    with Nil child al path_segment_name [of ?nm "[]"] down.prems show ?thesis
      by (subst resolve_path_loop.simps) simp
  next
    case (Cons sg segs')
    then show ?thesis using child al path_segment_name [of ?nm "0x2E # dotted segs"] down.prems down.IH
      by (subst resolve_path_loop.simps) simp
  qed
qed simp

lemma load8_store8: "load8 (store8 m a b) x = (if x = a then b else load8 m x)"
  by (simp add: load8_def store8_def)

lemma of_nat_Suc_neq0: "Suc i < 2 ^ 64 \<Longrightarrow> (of_nat (Suc i) :: u64) \<noteq> 0"
proof -
  assume "Suc i < 2 ^ 64"
  then have "unat (of_nat (Suc i) :: u64) = Suc i" by (simp add: unat_of_nat del: of_nat_Suc)
  then show ?thesis by (metis nat.simps(3) unat_0)
qed

text \<open>Storing bytes changes only their addresses.\<close>

lemma store_list_frame: "\<forall>i<length bs. x \<noteq> a + of_nat i \<Longrightarrow> load8 (store_list m a bs) x = load8 m x"
proof (induction bs arbitrary: m a)
  case (Cons b bs)
  have "x \<noteq> a + 1 + of_nat i" if "i < length bs" for i
    using Cons.prems [rule_format, of "Suc i"] that by (simp add: add.assoc)
  moreover have "x \<noteq> a" using Cons.prems [rule_format, of 0] by simp
  ultimately show ?case using Cons.IH [of "a + 1" "store8 m a b"] by (simp add: load8_store8)
qed simp

lemma bytes_at_store_list: "length bs < 2 ^ 64 \<Longrightarrow> bytes_at (store_list m a bs) a bs"
proof (induction bs arbitrary: m a)
  case (Cons b bs)
  have "a \<noteq> a + 1 + of_nat i" if "i < length bs" for i
    using of_nat_Suc_neq0 [of i] that Cons.prems by (simp add: add.assoc)
  then have "load8 (store_list (store8 m a b) (a + 1) bs) a = b" by (simp add: store_list_frame load8_store8)
  then show ?case using Cons by (simp add: bytes_at_Cons)
qed simp

lemma cstring_store_list:
  assumes "0 \<notin> set cs" and "length cs + 1 < 2 ^ 64"
  shows "cstring (store_list m a (cs @ [0])) a cs"
proof -
  have "bytes_at (store_list m a (cs @ [0])) a (cs @ [0])" using bytes_at_store_list [of "cs @ [0]" m a] assms(2) by simp
  then have "bytes_at (store_list m a (cs @ [0])) a cs" "load8 (store_list m a (cs @ [0])) (a + of_nat (length cs)) = 0"
    by (simp_all add: bytes_at_append bytes_at_Cons)
  with assms show ?thesis by (simp add: cstring_def bytes_at_def)
qed

text \<open>
  An example: the root at 0x1000 with the child \<open>_SB_\<close> at 0x2000, which has the child \<open>PCI0\<close> at 0x3000; the node at
  0x4000 is to become \<open>PCI1\<close> beside it.
\<close>

definition one_child :: "u8 list \<Rightarrow> addr \<Rightarrow> lai_hashtable" where
  "one_child nm e = the (place_elem ht_empty_example (lai_hash_string nm) e)"

definition ns_example :: "(u32 \<times> (u8 \<Rightarrow> u32)) lai_ns_state" where
  "ns_example = apic_state.extend apic_example (lai_ns_state.fields
     (\<lambda>a. if a = 0x1000 then zero_nsnode\<lparr>nd_name := [0x5C, 0x5F, 0x5F, 0x5F], nd_type := LAI_NAMESPACE_ROOT,
              children := one_child [0x5F, 0x53, 0x42, 0x5F] 0x2000\<rparr>
          else if a = 0x2000 then zero_nsnode\<lparr>nd_name := [0x5F, 0x53, 0x42, 0x5F], nd_type := LAI_NAMESPACE_DEVICE, nd_parent := 0x1000,
              children := one_child [0x50, 0x43, 0x49, 0x30] 0x3000\<rparr>
          else if a = 0x3000 then zero_nsnode\<lparr>nd_name := [0x50, 0x43, 0x49, 0x30], nd_type := LAI_NAMESPACE_DEVICE, nd_parent := 0x2000\<rparr>
          else if a = 0x4000 then zero_nsnode\<lparr>nd_name := [0x50, 0x43, 0x49, 0x31], nd_type := LAI_NAMESPACE_DEVICE, nd_parent := 0x2000\<rparr>
          else zero_nsnode)
     0x1000 0x9000 [0x2000, 0x3000] 128 2 0)"

lemma one_child_ok:
  assumes "e \<noteq> 0"
  shows "ht_ok (one_child nm e)" "ht_elems (one_child nm e) = {#(lai_hash_string nm, e)#}" "elem_capacity (one_child nm e) = 4"
    "next_capacity (one_child nm e) = 4"
proof -
  have "ht_elems ht_empty_example = {#}"
    by (simp only: ht_elems_def ht_empty_example_slots) simp
  then obtain ht where "place_elem ht_empty_example (lai_hash_string nm) e = Some ht" "ht_ok ht"
    "ht_elems ht = {#(lai_hash_string nm, e)#}" "elem_capacity ht = 4" "num_elems ht = 1"
    using place_elem_ok [OF ht_empty_example_ok _ assms, of "lai_hash_string nm"] by (auto simp: ht_empty_example_def)
  then show "ht_ok (one_child nm e)" "ht_elems (one_child nm e) = {#(lai_hash_string nm, e)#}" "elem_capacity (one_child nm e) = 4"
    "next_capacity (one_child nm e) = 4"
    by (simp_all add: one_child_def next_capacity_def)
qed

lemma ns_example_fields:
  "root_node ns_example = 0x1000" "ns_entries ns_example = [0x2000, 0x3000]" "ns_capacity ns_example = 128"
  "mem ns_example = mem heap_state_example" "kHeap ns_example = kHeap heap_state_example"
  by (simp_all add: ns_example_def apic_state.defs lai_ns_state.defs apic_example_def sched_state.defs sched_example_def
      heap_state.defs heap_state_example_def vmm.defs)

lemma ns_example_nodes:
  "node_at ns_example 0x1000 = zero_nsnode\<lparr>nd_name := [0x5C, 0x5F, 0x5F, 0x5F], nd_type := LAI_NAMESPACE_ROOT,
     children := one_child [0x5F, 0x53, 0x42, 0x5F] 0x2000\<rparr>"
  "node_at ns_example 0x2000 = zero_nsnode\<lparr>nd_name := [0x5F, 0x53, 0x42, 0x5F], nd_type := LAI_NAMESPACE_DEVICE, nd_parent := 0x1000,
     children := one_child [0x50, 0x43, 0x49, 0x30] 0x3000\<rparr>"
  "node_at ns_example 0x3000 = zero_nsnode\<lparr>nd_name := [0x50, 0x43, 0x49, 0x30], nd_type := LAI_NAMESPACE_DEVICE, nd_parent := 0x2000\<rparr>"
  "node_at ns_example 0x4000 = zero_nsnode\<lparr>nd_name := [0x50, 0x43, 0x49, 0x31], nd_type := LAI_NAMESPACE_DEVICE, nd_parent := 0x2000\<rparr>"
  by (simp_all add: ns_example_def apic_state.defs lai_ns_state.defs apic_example_def sched_state.defs)

lemma ns_example_children:
  "children_ok ns_example 0x1000" "kids ns_example 0x1000 = {0x2000}"
  "children_ok ns_example 0x2000" "kids ns_example 0x2000 = {0x3000}"
  by (simp_all add: children_ok_def kids_def ns_example_nodes one_child_ok)


text \<open>C25: the printed path of a node leads back to it: the string written by \<open>lai_stringify_node_path\<close>, resolved with
  \<open>lai_resolve_path\<close> from the root, is the node, for names of four characters with no alias on the way.\<close>

theorem lai_stringify_resolve_roundtrip:
  assumes "ns_path s (root_node s) segs n" and "segs \<noteq> []" and "length segs < 2 ^ 32"
    and "\<forall>sg\<in>set segs. length sg = 4 \<and> (\<forall>c\<in>set sg. lai_is_name c \<and> c \<noteq> 0)"
    and "nd_parent (node_at s (root_node s)) = 0" and "nd_type (node_at s (root_node s)) = LAI_NAMESPACE_ROOT"
    and "laihost_malloc (of_nat (length segs) * 5 + 1) s = Some (str, s1)" and "str \<noteq> 0"
  shows "\<exists>s' cs. lai_stringify_node_path n s = Some (str, s') \<and> cstring (mem s') str cs \<and> lai_resolve_path s 0 cs = Some n"
proof -
  let ?r = "root_node s" and ?cs = "0x5C # dotted segs"
  have len: "length (dotted segs) < 5 * length segs"
    using assms(2,4) by (induction segs rule: dotted.induct) auto
  have nz: "0 \<notin> set ?cs" using assms(4) by (induction segs rule: dotted.induct) auto
  have parent: "nd_parent (node_at s n) \<noteq> 0"
  proof -
    have "ns_path s m segs n \<Longrightarrow> segs \<noteq> [] \<Longrightarrow> nd_parent (node_at s n) \<noteq> 0" for m segs
      by (induction rule: ns_path.induct) (auto elim: ns_path.cases)
    with assms(1,2) show ?thesis by blast
  qed
  have frame: "node_at s1 = node_at s" using ns_frame(1) laihost_malloc_more [OF assms(7)] by blast
  have depth: "path_depth (node_at s) n 0 = Some (of_nat (length segs))"
    using path_depth_path [OF assms(1), of 0] assms(5) by (simp add: path_depth.simps [of _ ?r])
  have chars: "path_chars (node_at s) n [] = Some (0x2E # dotted segs)"
    using path_chars_path [OF assms(1), of "[]"] assms(5) by (simp add: path_chars.simps [of _ ?r] dotted_concat [OF assms(2)])
  have "lai_stringify_node_path n s = Some (str, s1\<lparr>mem := store_list (mem s1) str (?cs @ [0])\<rparr>)"
    using parent depth chars frame assms(7,8) by (simp add: lai_stringify_node_path_def)
  moreover have "cstring (store_list (mem s1) str (?cs @ [0])) str ?cs"
    using len nz assms(3) by (intro cstring_store_list) simp_all
  moreover have "lai_resolve_path s 0 ?cs = Some n"
  proof -
    have "climb_to_root (node_at s) ?r = Some ?r" using assms(5,6) by (simp add: climb_to_root.simps)
    moreover have "dotted segs \<noteq> []" using assms(2,4) by (cases segs rule: dotted.cases) auto
    ultimately show ?thesis using resolve_path_path [OF assms(1,2)] assms(4) by (simp add: lai_resolve_path_def name_chars)
  qed
  ultimately show ?thesis by auto
qed

theorem lai_stringify_resolve_roundtrip_witness:
  "\<exists>str s' cs. lai_stringify_node_path 0x3000 ns_example = Some (str, s') \<and> cstring (mem s') str cs \<and>
     lai_resolve_path ns_example 0 cs = Some 0x3000"
proof -
  let ?s = ns_example and ?segs = "[[0x5F, 0x53, 0x42, 0x5F], [0x50, 0x43, 0x49, 0x30]] :: u8 list list"
  have "ns_path ?s 0x2000 [nd_name (node_at ?s 0x3000)] 0x3000"
    using ns_example_children ns_example_nodes by (intro ns_path.intros) (simp_all add: namespace_types)
  then have "ns_path ?s 0x1000 [nd_name (node_at ?s 0x2000), nd_name (node_at ?s 0x3000)] 0x3000"
    using ns_example_children ns_example_nodes by (intro ns_path.intros) (simp_all add: namespace_types)
  then have path: "ns_path ?s (root_node ?s) ?segs 0x3000" by (simp add: ns_example_nodes ns_example_fields)
  have hole: "hole_example \<in> set [hole_example]" "b_hole hole_example" "fits (ucast (11 :: u32)) hole_example" by simp_all
  obtain r s' where r: "kmalloc 11 ?s = Some (r, s')" "r \<noteq> 0"
    using kmalloc_returns [of ?s "[hole_example]", OF _ hole] heap_state_example_ok by (auto simp: ns_example_fields)
  have names: "\<forall>sg\<in>set ?segs. length sg = 4 \<and> (\<forall>c\<in>set sg. lai_is_name c \<and> c \<noteq> 0)" by (simp add: lai_is_name_def)
  show ?thesis
    using lai_stringify_resolve_roundtrip [OF path _ _ names, of r s'] r
    by (simp add: ns_example_nodes ns_example_fields namespace_types laihost_malloc_def zero_nsnode_def) blast
qed

text \<open>the dot counts as a name character (it is the prefix of a two-segment name), so a segment of fewer than four characters
  swallows the dot and the letters after it instead of being padded with underscores.\<close>

theorem lai_resolve_path_short_segment:
  assumes "length sg < 4" and "\<forall>c\<in>set sg. lai_is_name c" and "\<forall>c\<in>set rest. lai_is_name c" and "4 \<le> length sg + 1 + length rest"
  shows "path_segment (sg @ 0x2E # rest) = (take 4 (sg @ 0x2E # rest), List.drop 4 (sg @ 0x2E # rest))"
proof (rule path_segment_full)
  show "\<forall>c\<in>set (take 4 (sg @ 0x2E # rest)). lai_is_name c"
    using assms(2,3) by (auto dest!: in_set_takeD simp: lai_is_name_def name_chars)
qed (use assms(4) in simp)

theorem lai_resolve_path_short_segment_witness:
  "path_segment [0x5F, 0x53, 0x42, 0x2E, 0x50, 0x43, 0x49, 0x30] = ([0x5F, 0x53, 0x42, 0x2E], [0x50, 0x43, 0x49, 0x30])"
  using lai_resolve_path_short_segment [of "[0x5F, 0x53, 0x42]" "[0x50, 0x43, 0x49, 0x30]"] by (simp add: lai_is_name_def)

end
