(* ===== verification/LaiField.thy ===== *)
theory LaiField
  imports LaiNs
begin

text \<open>
  Operation regions and fields, \<open>core/opregion.c\<close>.  A field is a run of bits in a region that is accessed in units
  of 8 to 64 bits through memory-mapped registers, ports, configuration space or functions installed by a driver.
  Byte buffers are lists and an access past their end has no result; bit positions are natural numbers.  The
  evaluation of \<open>_SEG\<close>, \<open>_BBN\<close> and \<open>_ADR\<close> and the installed functions are arguments.
\<close>

subsection \<open>Bits in a byte buffer\<close>

function put_loop :: "u64 \<Rightarrow> nat \<Rightarrow> nat \<Rightarrow> nat \<Rightarrow> u8 list \<Rightarrow> u8 list option" where
  "put_loop value bit_offset num_bits progress buffer =
     (if progress < num_bits
      then let in_byte_offset = (bit_offset + progress) mod 8;
               access_size = min (num_bits - progress) (8 - in_byte_offset);
               i = (bit_offset + progress) div 8
           in if i < length buffer
              then put_loop value bit_offset num_bits (progress + access_size)
                     (buffer[i := buffer ! i OR ucast (push_bit in_byte_offset (take_bit access_size (drop_bit progress value)))])
              else None
      else Some buffer)"
  by pat_completeness auto
termination
  by (relation "measure (\<lambda>(value, bit_offset, num_bits, progress, buffer). num_bits - progress)") (auto simp: Let_def)

function get_loop :: "u8 list \<Rightarrow> nat \<Rightarrow> nat \<Rightarrow> nat \<Rightarrow> u64 \<Rightarrow> u64 option" where
  "get_loop buffer bit_offset num_bits progress value =
     (if progress < num_bits
      then let in_byte_offset = (bit_offset + progress) mod 8;
               access_size = min (num_bits - progress) (8 - in_byte_offset);
               i = (bit_offset + progress) div 8
           in if i < length buffer
              then get_loop buffer bit_offset num_bits (progress + access_size)
                     (value OR push_bit progress (ucast (take_bit access_size (drop_bit in_byte_offset (buffer ! i)))))
              else None
      else Some value)"
  by pat_completeness auto
termination
  by (relation "measure (\<lambda>(buffer, bit_offset, num_bits, progress, value). num_bits - progress)") (auto simp: Let_def)

declare put_loop.simps [simp del] get_loop.simps [simp del]

definition lai_buffer_put_at :: "u8 list \<Rightarrow> u64 \<Rightarrow> nat \<Rightarrow> nat \<Rightarrow> u8 list option" where
  "lai_buffer_put_at buffer value bit_offset num_bits = put_loop value bit_offset num_bits 0 buffer"

definition lai_buffer_get_at :: "u8 list \<Rightarrow> nat \<Rightarrow> nat \<Rightarrow> u64 option" where
  "lai_buffer_get_at buffer bit_offset num_bits = get_loop buffer bit_offset num_bits 0 0"

subsection \<open>Access width\<close>

definition FIELD_ANY_ACCESS :: u8 where "FIELD_ANY_ACCESS = 0"
definition FIELD_BYTE_ACCESS :: u8 where "FIELD_BYTE_ACCESS = 1"
definition FIELD_WORD_ACCESS :: u8 where "FIELD_WORD_ACCESS = 2"
definition FIELD_DWORD_ACCESS :: u8 where "FIELD_DWORD_ACCESS = 3"
definition FIELD_QWORD_ACCESS :: u8 where "FIELD_QWORD_ACCESS = 4"
definition FIELD_PRESERVE :: u8 where "FIELD_PRESERVE = 0"
definition FIELD_WRITE_ONES :: u8 where "FIELD_WRITE_ONES = 1"
definition FIELD_WRITE_ZEROES :: u8 where "FIELD_WRITE_ZEROES = 2"
definition ACPI_OPREGION_MEMORY :: u8 where "ACPI_OPREGION_MEMORY = 0"
definition ACPI_OPREGION_IO :: u8 where "ACPI_OPREGION_IO = 1"
definition ACPI_OPREGION_PCI :: u8 where "ACPI_OPREGION_PCI = 2"

lemmas field_flags = FIELD_ANY_ACCESS_def FIELD_BYTE_ACCESS_def FIELD_WORD_ACCESS_def FIELD_DWORD_ACCESS_def
  FIELD_QWORD_ACCESS_def FIELD_PRESERVE_def FIELD_WRITE_ONES_def FIELD_WRITE_ZEROES_def

text \<open>\<open>1 << (32 - __builtin_clz(n - 1))\<close>: the next power of two; beyond 2^30 the shift overflows an \<open>int\<close>.\<close>

fun bit_length :: "nat \<Rightarrow> nat" where
  "bit_length n = (if n = 0 then 0 else Suc (bit_length (n div 2)))"

declare bit_length.simps [simp del]

definition round_up_pow2 :: "nat \<Rightarrow> nat option" where
  "round_up_pow2 n = (if n \<le> 1 then Some 1 else if n \<le> 2 ^ 30 then Some (2 ^ bit_length (n - 1)) else None)"

definition lai_calculate_access_width :: "('d, 'a) lai_ns_state_scheme \<Rightarrow> addr \<Rightarrow> nat option" where
  "lai_calculate_access_width s field =
     (let f = node_at s field; flag = fld_flags f AND 0xF
      in if flag = FIELD_BYTE_ACCESS then Some 8
         else if flag = FIELD_WORD_ACCESS then Some 16
         else if flag = FIELD_DWORD_ACCESS then Some 32
         else if flag = FIELD_QWORD_ACCESS then Some 64
         else if flag = FIELD_ANY_ACCESS
         then do {
           n \<leftarrow> round_up_pow2 (unat (fld_size f));
           let mx = (if op_address_space (node_at s (fld_region_node f)) = ACPI_OPREGION_MEMORY then 64 else 32);
           Some (max 8 (min n mx)) }
         else None)"

subsection \<open>Single accesses\<close>

record 'd wide_bus = "'d bus" +
  mmio_read16 :: "addr \<Rightarrow> 'd \<Rightarrow> u16 \<times> 'd"
  mmio_read64 :: "addr \<Rightarrow> 'd \<Rightarrow> u64 \<times> 'd"
  mmio_write8 :: "addr \<Rightarrow> u8 \<Rightarrow> 'd \<Rightarrow> 'd"
  mmio_write16 :: "addr \<Rightarrow> u16 \<Rightarrow> 'd \<Rightarrow> 'd"

record 's region_env =
  call_read :: "addr \<Rightarrow> nat \<Rightarrow> u64 \<Rightarrow> addr \<Rightarrow> 's \<Rightarrow> (u64 \<times> 's) option"
  call_write :: "addr \<Rightarrow> nat \<Rightarrow> u64 \<Rightarrow> u64 \<Rightarrow> addr \<Rightarrow> 's \<Rightarrow> 's option"
  pci_params :: "addr \<Rightarrow> 's \<Rightarrow> ((u64 \<times> u64 \<times> u64) \<times> 's) option"

definition on_dev :: "('d \<Rightarrow> 'v::len word \<times> 'd) \<Rightarrow> ('d, 'a) lai_ns_state_scheme \<Rightarrow> (u64 \<times> ('d, 'a) lai_ns_state_scheme) option" where
  "on_dev f s = (let (v, d) = f (dev s) in Some (ucast v, s\<lparr>dev := d\<rparr>))"

definition to_dev :: "('d \<Rightarrow> 'd) \<Rightarrow> ('d, 'a) lai_ns_state_scheme \<Rightarrow> ('d, 'a) lai_ns_state_scheme option" where
  "to_dev f s = Some (s\<lparr>dev := f (dev s)\<rparr>)"

definition mmio_read :: "'d wide_bus \<Rightarrow> nat \<Rightarrow> addr \<Rightarrow> ('d, 'a) lai_ns_state_scheme \<Rightarrow> (u64 \<times> ('d, 'a) lai_ns_state_scheme) option" where
  "mmio_read io access_size a s =
     (if access_size = 8 then on_dev (mmio_read8 io a) s
      else if access_size = 16 then on_dev (mmio_read16 io a) s
      else if access_size = 32 then on_dev (mmio_read32 io a) s
      else if access_size = 64 then on_dev (mmio_read64 io a) s else None)"

definition mmio_write :: "'d wide_bus \<Rightarrow> nat \<Rightarrow> addr \<Rightarrow> u64 \<Rightarrow> ('d, 'a) lai_ns_state_scheme \<Rightarrow> ('d, 'a) lai_ns_state_scheme option" where
  "mmio_write io access_size a v s =
     (if access_size = 8 then to_dev (mmio_write8 io a (ucast v)) s
      else if access_size = 16 then to_dev (mmio_write16 io a (ucast v)) s
      else if access_size = 32 then to_dev (mmio_write32 io a (ucast v)) s
      else if access_size = 64 then to_dev (mmio_write64 io a v) s else None)"

definition port_read :: "'d bus \<Rightarrow> nat \<Rightarrow> u16 \<Rightarrow> ('d, 'a) lai_ns_state_scheme \<Rightarrow> (u64 \<times> ('d, 'a) lai_ns_state_scheme) option" where
  "port_read io access_size p s =
     (if access_size = 8 then on_dev (laihost_inb io p) s
      else if access_size = 16 then on_dev (laihost_inw io p) s
      else if access_size = 32 then on_dev (laihost_ind io p) s else None)"

definition port_write :: "'d bus \<Rightarrow> nat \<Rightarrow> u16 \<Rightarrow> u64 \<Rightarrow> ('d, 'a) lai_ns_state_scheme \<Rightarrow> ('d, 'a) lai_ns_state_scheme option" where
  "port_write io access_size p v s =
     (if access_size = 8 then to_dev (laihost_outb io p (ucast v)) s
      else if access_size = 16 then to_dev (laihost_outw io p (ucast v)) s
      else if access_size = 32 then to_dev (laihost_outd io p (ucast v)) s else None)"

definition config_read :: "'d bus \<Rightarrow> nat \<Rightarrow> u64 \<times> u64 \<times> u64 \<Rightarrow> u64 \<Rightarrow> ('d, 'a) lai_ns_state_scheme \<Rightarrow> (u64 \<times> ('d, 'a) lai_ns_state_scheme) option" where
  "config_read io access_size params a s = (case params of (sg, bbn, adr) \<Rightarrow>
     let dv = ucast (drop_bit 16 adr) :: u8; fun' = ucast (adr AND 0xFF) :: u8
     in if access_size = 8 then on_dev (laihost_pci_readb io (ucast sg) (ucast bbn) dv fun' (ucast a)) s
        else if access_size = 16 then on_dev (laihost_pci_readw io (ucast sg) (ucast bbn) dv fun' (ucast a)) s
        else if access_size = 32 then on_dev (laihost_pci_readd io (ucast sg) (ucast bbn) dv fun' (ucast a)) s else None)"

definition config_write :: "'d bus \<Rightarrow> nat \<Rightarrow> u64 \<times> u64 \<times> u64 \<Rightarrow> u64 \<Rightarrow> u64 \<Rightarrow> ('d, 'a) lai_ns_state_scheme \<Rightarrow> ('d, 'a) lai_ns_state_scheme option" where
  "config_write io access_size params a v s = (case params of (sg, bbn, adr) \<Rightarrow>
     let dv = ucast (drop_bit 16 adr) :: u8; fun' = ucast (adr AND 0xFF) :: u8
     in if access_size = 8 then to_dev (laihost_pci_writeb io (ucast sg) (ucast bbn) dv fun' (ucast a) (ucast v)) s
        else if access_size = 16 then to_dev (laihost_pci_writew io (ucast sg) (ucast bbn) dv fun' (ucast a) (ucast v)) s
        else if access_size = 32 then to_dev (laihost_pci_writed io (ucast sg) (ucast bbn) dv fun' (ucast a) (ucast v)) s else None)"

text \<open>Other address spaces read as zero and ignore writes.  The mapped address is the one \<open>laihost_map\<close> returns.\<close>

definition lai_perform_read :: "'d wide_bus \<Rightarrow> ('d, 'a) lai_ns_state_scheme region_env \<Rightarrow> addr \<Rightarrow> nat \<Rightarrow> u64 \<Rightarrow>
    ('d, 'a) lai_ns_state_scheme \<Rightarrow> (u64 \<times> ('d, 'a) lai_ns_state_scheme) option" where
  "lai_perform_read io env opregion access_size offset s =
     (let r = node_at s opregion; a = op_base r + offset
      in if op_override r \<noteq> 0
         then (if access_size \<in> {8, 16, 32, 64} then call_read env (op_override r) access_size a (op_userptr r) s else None)
         else if op_address_space r = ACPI_OPREGION_MEMORY
         then do { (mmio, s) \<leftarrow> laihost_map a (of_nat (access_size div 8)) s; mmio_read io access_size mmio s }
         else if op_address_space r = ACPI_OPREGION_IO then port_read (bus.truncate io) access_size (ucast a) s
         else if op_address_space r = ACPI_OPREGION_PCI
         then do { (params, s) \<leftarrow> pci_params env opregion s; config_read (bus.truncate io) access_size params a s }
         else Some (0, s))"

definition lai_perform_write :: "'d wide_bus \<Rightarrow> ('d, 'a) lai_ns_state_scheme region_env \<Rightarrow> addr \<Rightarrow> nat \<Rightarrow> u64 \<Rightarrow> u64 \<Rightarrow>
    ('d, 'a) lai_ns_state_scheme \<Rightarrow> ('d, 'a) lai_ns_state_scheme option" where
  "lai_perform_write io env opregion access_size offset value s =
     (let r = node_at s opregion; a = op_base r + offset
      in if op_override r \<noteq> 0
         then (if access_size \<in> {8, 16, 32, 64} then call_write env (op_override r) access_size a value (op_userptr r) s else None)
         else if op_address_space r = ACPI_OPREGION_MEMORY
         then do { (mmio, s) \<leftarrow> laihost_map a (of_nat (access_size div 8)) s; mmio_write io access_size mmio value s }
         else if op_address_space r = ACPI_OPREGION_IO then port_write (bus.truncate io) access_size (ucast a) value s
         else if op_address_space r = ACPI_OPREGION_PCI
         then do { (params, s) \<leftarrow> pci_params env opregion s; config_write (bus.truncate io) access_size params a value s }
         else Some s)"

subsection \<open>Fields\<close>

text \<open>
  The loops over the units of a field; \<open>rd\<close> and \<open>wr\<close> access one unit.  A unit that is used in all its 64 bits needs the
  mask \<open>(1 << 64) - 1\<close>, whose shift is undefined (no result).
\<close>

partial_function (option) read_loop ::
    "(u64 \<Rightarrow> 's \<Rightarrow> (u64 \<times> 's) option) \<Rightarrow> nat \<Rightarrow> nat \<Rightarrow> nat \<Rightarrow> nat \<Rightarrow> u64 \<Rightarrow> u8 list \<Rightarrow> 's \<Rightarrow> (u8 list \<times> 's) option" where
  "read_loop rd access_size fofs sz progress offset dest s =
     (if progress < sz
      then let bit_offset = (fofs + progress) mod access_size;
               access_bits = min (sz - progress) (access_size - bit_offset)
           in if access_bits = 64 then None
              else do {
                (value, s) \<leftarrow> rd offset s;
                dest \<leftarrow> lai_buffer_put_at dest (take_bit access_bits (drop_bit bit_offset value)) progress access_bits;
                read_loop rd access_size fofs sz (progress + access_bits) (offset + of_nat (access_size div 8)) dest s }
      else Some (dest, s))"

definition initial_value :: "(u64 \<Rightarrow> 's \<Rightarrow> (u64 \<times> 's) option) \<Rightarrow> u8 \<Rightarrow> u64 \<Rightarrow> 's \<Rightarrow> (u64 \<times> 's) option" where
  "initial_value rd write_flag offset s =
     (if write_flag = FIELD_PRESERVE then rd offset s
      else if write_flag = FIELD_WRITE_ONES then Some (0xFFFFFFFFFFFFFFFF, s)
      else if write_flag = FIELD_WRITE_ZEROES then Some (0, s) else None)"

partial_function (option) write_loop ::
    "(u64 \<Rightarrow> 's \<Rightarrow> (u64 \<times> 's) option) \<Rightarrow> (u64 \<Rightarrow> u64 \<Rightarrow> 's \<Rightarrow> 's option) \<Rightarrow> u8 \<Rightarrow> nat \<Rightarrow> nat \<Rightarrow> nat \<Rightarrow> nat \<Rightarrow> u64 \<Rightarrow> u8 list \<Rightarrow> 's \<Rightarrow> 's option" where
  "write_loop rd wr write_flag access_size fofs sz progress offset source s =
     (if progress < sz
      then let bit_offset = (fofs + progress) mod access_size;
               access_bits = min (sz - progress) (access_size - bit_offset);
               msk = push_bit bit_offset (Bit_Operations.mask access_bits)
           in if access_bits = 64 then None
              else do {
                (value, s) \<leftarrow> initial_value rd write_flag offset s;
                let value = value AND NOT msk;
                new_val \<leftarrow> lai_buffer_get_at source progress access_bits;
                let value = value OR (push_bit bit_offset new_val AND msk);
                s \<leftarrow> wr offset value s;
                write_loop rd wr write_flag access_size fofs sz (progress + access_bits) (offset + of_nat (access_size div 8)) source s }
      else Some s)"

text \<open>The value of an object, as far as fields use it: the contents of its integer, string or buffer.\<close>

datatype field_value = FInteger u64 | FString "u8 list" | FBuffer "u8 list"

definition le_bytes :: "u64 \<Rightarrow> u8 list" where
  "le_bytes v = map (\<lambda>i. ucast (drop_bit (8 * i) v)) [0..<8]"

definition le_value :: "u8 list \<Rightarrow> u64" where
  "le_value bs = fold (\<lambda>i v. v OR push_bit (8 * i) (ucast (bs ! i))) [0..<length bs] 0"

text \<open>
  Access to one unit of a field: through its region, or, for an index field, through the functions \<open>ixr\<close> and \<open>ixw\<close>.
\<close>

type_synonym ('d, 'a) unit_reader = "addr \<Rightarrow> nat \<Rightarrow> u64 \<Rightarrow> ('d, 'a) lai_ns_state_scheme \<Rightarrow> (u64 \<times> ('d, 'a) lai_ns_state_scheme) option"
type_synonym ('d, 'a) unit_writer = "addr \<Rightarrow> nat \<Rightarrow> u64 \<Rightarrow> u64 \<Rightarrow> ('d, 'a) lai_ns_state_scheme \<Rightarrow> ('d, 'a) lai_ns_state_scheme option"

definition unit_read :: "'d wide_bus \<Rightarrow> ('d, 'a) lai_ns_state_scheme region_env \<Rightarrow> ('d, 'a) unit_reader \<Rightarrow> ('d, 'a) unit_reader" where
  "unit_read io env ixr field access_size offset s =
     (let f = node_at s field
      in if nd_type f = LAI_NAMESPACE_FIELD \<or> nd_type f = LAI_NAMESPACE_BANKFIELD
         then lai_perform_read io env (fld_region_node f) access_size offset s
         else if nd_type f = LAI_NAMESPACE_INDEXFIELD then ixr field access_size offset s else None)"

definition unit_write :: "'d wide_bus \<Rightarrow> ('d, 'a) lai_ns_state_scheme region_env \<Rightarrow> ('d, 'a) unit_writer \<Rightarrow> ('d, 'a) unit_writer" where
  "unit_write io env ixw field access_size offset value s =
     (let f = node_at s field
      in if nd_type f = LAI_NAMESPACE_FIELD \<or> nd_type f = LAI_NAMESPACE_BANKFIELD
         then lai_perform_write io env (fld_region_node f) access_size offset value s
         else if nd_type f = LAI_NAMESPACE_INDEXFIELD then ixw field access_size offset value s else None)"

definition first_unit :: "nat \<Rightarrow> nat \<Rightarrow> u64" where
  "first_unit fofs access_size = of_nat (fofs div access_size * access_size div 8)"

definition read_field_with :: "'d wide_bus \<Rightarrow> ('d, 'a) lai_ns_state_scheme region_env \<Rightarrow> ('d, 'a) unit_reader \<Rightarrow> u8 list \<Rightarrow> addr \<Rightarrow>
    ('d, 'a) lai_ns_state_scheme \<Rightarrow> (u8 list \<times> ('d, 'a) lai_ns_state_scheme) option" where
  "read_field_with io env ixr dest field s = do {
     access_size \<leftarrow> lai_calculate_access_width s field;
     let fofs = unat (fld_offset (node_at s field));
     read_loop (unit_read io env ixr field access_size) access_size fofs (unat (fld_size (node_at s field))) 0
       (first_unit fofs access_size) dest s }"

definition write_field_with :: "'d wide_bus \<Rightarrow> ('d, 'a) lai_ns_state_scheme region_env \<Rightarrow> ('d, 'a) unit_reader \<Rightarrow> ('d, 'a) unit_writer \<Rightarrow>
    u8 list \<Rightarrow> addr \<Rightarrow> ('d, 'a) lai_ns_state_scheme \<Rightarrow> ('d, 'a) lai_ns_state_scheme option" where
  "write_field_with io env ixr ixw source field s = do {
     access_size \<leftarrow> lai_calculate_access_width s field;
     let fofs = unat (fld_offset (node_at s field));
     write_loop (unit_read io env ixr field access_size) (unit_write io env ixw field access_size)
       (drop_bit 5 (fld_flags (node_at s field)) AND 0xF) access_size fofs (unat (fld_size (node_at s field))) 0
       (first_unit fofs access_size) source s }"

definition load_field_with :: "'d wide_bus \<Rightarrow> ('d, 'a) lai_ns_state_scheme region_env \<Rightarrow> ('d, 'a) unit_reader \<Rightarrow> addr \<Rightarrow>
    ('d, 'a) lai_ns_state_scheme \<Rightarrow> (field_value \<times> ('d, 'a) lai_ns_state_scheme) option" where
  "load_field_with io env ixr field s = do {
     let n = (unat (fld_size (node_at s field)) + 7) div 8;
     (bs, s) \<leftarrow> read_field_with io env ixr (replicate n 0) field s;
     Some (if 8 < n then FBuffer bs else FInteger (le_value bs), s) }"

definition store_field_with :: "'d wide_bus \<Rightarrow> ('d, 'a) lai_ns_state_scheme region_env \<Rightarrow> ('d, 'a) unit_reader \<Rightarrow> ('d, 'a) unit_writer \<Rightarrow> addr \<Rightarrow>
    field_value \<Rightarrow> ('d, 'a) lai_ns_state_scheme \<Rightarrow> ('d, 'a) lai_ns_state_scheme option" where
  "store_field_with io env ixr ixw field v s =
     write_field_with io env ixr ixw (case v of FBuffer bs \<Rightarrow> bs | FString bs \<Rightarrow> bs | FInteger i \<Rightarrow> le_bytes i) field s"

text \<open>
  The recursion through index fields, whose index and data registers are fields again.  The first argument bounds
  its depth: a chain of index fields that leads back to itself never ends in the code.
\<close>

fun lai_perform_indexfield_read :: "nat \<Rightarrow> 'd wide_bus \<Rightarrow> ('d, 'a) lai_ns_state_scheme region_env \<Rightarrow> ('d, 'a) unit_reader"
  and lai_perform_indexfield_write :: "nat \<Rightarrow> 'd wide_bus \<Rightarrow> ('d, 'a) lai_ns_state_scheme region_env \<Rightarrow> ('d, 'a) unit_writer" where
  "lai_perform_indexfield_read 0 io env field access_size offset s = None"
| "lai_perform_indexfield_read (Suc n) io env field access_size offset s =
     (let ixr = (\<lambda>f a i t. lai_perform_indexfield_read n io env f a i t); ixw = (\<lambda>f a i v t. lai_perform_indexfield_write n io env f a i v t)
      in do {
        s \<leftarrow> store_field_with io env ixr ixw (fld_idxf_index_node (node_at s field)) (FInteger offset) s;
        (v, s) \<leftarrow> load_field_with io env ixr (fld_idxf_data_node (node_at s field)) s;
        case v of FInteger i \<Rightarrow> Some (i, s) | _ \<Rightarrow> None })"
| "lai_perform_indexfield_write 0 io env field access_size offset value s = None"
| "lai_perform_indexfield_write (Suc n) io env field access_size offset value s =
     (let ixr = (\<lambda>f a i t. lai_perform_indexfield_read n io env f a i t); ixw = (\<lambda>f a i v t. lai_perform_indexfield_write n io env f a i v t)
      in do {
        s \<leftarrow> store_field_with io env ixr ixw (fld_idxf_index_node (node_at s field)) (FInteger offset) s;
        store_field_with io env ixr ixw (fld_idxf_data_node (node_at s field)) (FInteger value) s })"

definition lai_read_field_internal :: "nat \<Rightarrow> 'd wide_bus \<Rightarrow> ('d, 'a) lai_ns_state_scheme region_env \<Rightarrow> u8 list \<Rightarrow> addr \<Rightarrow>
    ('d, 'a) lai_ns_state_scheme \<Rightarrow> (u8 list \<times> ('d, 'a) lai_ns_state_scheme) option" where
  "lai_read_field_internal n io env dest field s = read_field_with io env (lai_perform_indexfield_read n io env) dest field s"

definition lai_write_field_internal :: "nat \<Rightarrow> 'd wide_bus \<Rightarrow> ('d, 'a) lai_ns_state_scheme region_env \<Rightarrow> u8 list \<Rightarrow> addr \<Rightarrow>
    ('d, 'a) lai_ns_state_scheme \<Rightarrow> ('d, 'a) lai_ns_state_scheme option" where
  "lai_write_field_internal n io env source field s =
     write_field_with io env (lai_perform_indexfield_read n io env) (lai_perform_indexfield_write n io env) source field s"

definition lai_read_field :: "nat \<Rightarrow> 'd wide_bus \<Rightarrow> ('d, 'a) lai_ns_state_scheme region_env \<Rightarrow> addr \<Rightarrow>
    ('d, 'a) lai_ns_state_scheme \<Rightarrow> (field_value \<times> ('d, 'a) lai_ns_state_scheme) option" where
  "lai_read_field n io env field s = load_field_with io env (lai_perform_indexfield_read n io env) field s"

definition lai_write_field :: "nat \<Rightarrow> 'd wide_bus \<Rightarrow> ('d, 'a) lai_ns_state_scheme region_env \<Rightarrow> addr \<Rightarrow> field_value \<Rightarrow>
    ('d, 'a) lai_ns_state_scheme \<Rightarrow> ('d, 'a) lai_ns_state_scheme option" where
  "lai_write_field n io env field v s =
     store_field_with io env (lai_perform_indexfield_read n io env) (lai_perform_indexfield_write n io env) field v s"

definition lai_read_bankfield :: "nat \<Rightarrow> 'd wide_bus \<Rightarrow> ('d, 'a) lai_ns_state_scheme region_env \<Rightarrow> addr \<Rightarrow>
    ('d, 'a) lai_ns_state_scheme \<Rightarrow> (field_value \<times> ('d, 'a) lai_ns_state_scheme) option" where
  "lai_read_bankfield n io env field s = do {
     s \<leftarrow> lai_write_field n io env (fld_bkf_bank_node (node_at s field)) (FInteger (fld_bkf_value (node_at s field))) s;
     lai_read_field n io env field s }"

definition lai_write_bankfield :: "nat \<Rightarrow> 'd wide_bus \<Rightarrow> ('d, 'a) lai_ns_state_scheme region_env \<Rightarrow> addr \<Rightarrow> field_value \<Rightarrow>
    ('d, 'a) lai_ns_state_scheme \<Rightarrow> ('d, 'a) lai_ns_state_scheme option" where
  "lai_write_bankfield n io env field v s = do {
     s \<leftarrow> lai_write_field n io env (fld_bkf_bank_node (node_at s field)) (FInteger (fld_bkf_value (node_at s field))) s;
     lai_write_field n io env field v s }"

definition lai_read_opregion :: "nat \<Rightarrow> 'd wide_bus \<Rightarrow> ('d, 'a) lai_ns_state_scheme region_env \<Rightarrow> addr \<Rightarrow>
    ('d, 'a) lai_ns_state_scheme \<Rightarrow> (field_value \<times> ('d, 'a) lai_ns_state_scheme) option" where
  "lai_read_opregion n io env field s =
     (let ty = nd_type (node_at s field)
      in if ty = LAI_NAMESPACE_FIELD \<or> ty = LAI_NAMESPACE_INDEXFIELD then lai_read_field n io env field s
         else if ty = LAI_NAMESPACE_BANKFIELD then lai_read_bankfield n io env field s else None)"

definition lai_write_opregion :: "nat \<Rightarrow> 'd wide_bus \<Rightarrow> ('d, 'a) lai_ns_state_scheme region_env \<Rightarrow> addr \<Rightarrow> field_value \<Rightarrow>
    ('d, 'a) lai_ns_state_scheme \<Rightarrow> ('d, 'a) lai_ns_state_scheme option" where
  "lai_write_opregion n io env field v s =
     (let ty = nd_type (node_at s field)
      in if ty = LAI_NAMESPACE_FIELD \<or> ty = LAI_NAMESPACE_INDEXFIELD then lai_write_field n io env field v s
         else if ty = LAI_NAMESPACE_BANKFIELD then lai_write_bankfield n io env field v s else None)"

subsection \<open>The bits of a buffer\<close>

definition buf_bit :: "u8 list \<Rightarrow> nat \<Rightarrow> bool" where
  "buf_bit bs j = bit (bs ! (j div 8)) (j mod 8)"

lemma put_loop_step:
  assumes i: "i = (bo + p) div 8" "i < length bs" and a: "a = min (n - p) (8 - (bo + p) mod 8)" and j: "j < 8 * length bs"
  shows "buf_bit (bs[i := bs ! i OR ucast (push_bit ((bo + p) mod 8) (take_bit a (drop_bit p (v :: u64))))]) j =
    (buf_bit bs j \<or> (bo + p \<le> j \<and> j < bo + p + a \<and> bit v (j - bo)))"
proof (cases "j div 8 = i")
  case True
  let ?o = "(bo + p) mod 8" and ?k = "j mod 8"
  have eq: "bo + p = 8 * i + ?o" "j = 8 * i + ?k" using mult_div_mod_eq [of 8 j] True by (simp_all add: i(1))
  have "bit (ucast (push_bit ?o (take_bit a (drop_bit p v))) :: u8) ?k = (?o \<le> ?k \<and> ?k - ?o < a \<and> bit v (p + (?k - ?o)))"
    by (auto simp: bit_simps)
  moreover have "(?o \<le> ?k \<and> ?k - ?o < a \<and> bit v (p + (?k - ?o))) = (bo + p \<le> j \<and> j < bo + p + a \<and> bit v (j - bo))"
  proof (cases "bo + p \<le> j")
    case le: True
    then have "p + (?k - ?o) = j - bo" "?o \<le> ?k" "?k - ?o < a \<longleftrightarrow> j < bo + p + a" using eq by linarith+
    with le show ?thesis by simp
  qed (use eq in linarith)
  ultimately show ?thesis using True i(2) by (simp add: buf_bit_def bit_or_iff)
next
  case False
  have "a \<le> 8 - (bo + p) mod 8" using a by simp
  moreover have "8 * i \<le> bo + p" "bo + p + (8 - (bo + p) mod 8) = 8 * Suc i" unfolding i(1) by presburger+
  ultimately have "\<not> (bo + p \<le> j \<and> j < bo + p + a)" using False div_nat_eqI [of 8 i j] by linarith
  with False show ?thesis by (auto simp: buf_bit_def)
qed

lemma byte_of_bit:
  fixes x t :: nat
  assumes "t < 8 - x mod 8"
  shows "(x + t) div 8 = x div 8" "(x + t) mod 8 = x mod 8 + t"
proof -
  obtain q r where x: "x = 8 * q + r" "r < 8" using mult_div_mod_eq [of 8 x] by (metis mod_less_divisor zero_less_numeral)
  then have "r + t < 8" using assms by simp
  then show "(x + t) div 8 = x div 8" "(x + t) mod 8 = x mod 8 + t" using x by (simp_all add: add.assoc)
qed

lemma put_loop_ok:
  "bo + n \<le> 8 * length bs \<Longrightarrow> \<exists>bs'. put_loop v bo n p bs = Some bs' \<and> length bs' = length bs \<and>
     (\<forall>j<8 * length bs. buf_bit bs' j = (buf_bit bs j \<or> (bo + p \<le> j \<and> j < bo + n \<and> bit v (j - bo))))"
proof (induction v bo n p bs rule: put_loop.induct)
  case (1 v bo n p bs)
  show ?case
  proof (cases "p < n")
    case True
    define i where "i = (bo + p) div 8"
    define a where "a = min (n - p) (8 - (bo + p) mod 8)"
    define bs1 where "bs1 = bs[i := bs ! i OR ucast (push_bit ((bo + p) mod 8) (take_bit a (drop_bit p v)))]"
    have i: "i < length bs" using True "1.prems" unfolding i_def by linarith
    have "p + a \<le> n" "0 < a" using True by (simp_all add: a_def)
    have "put_loop v bo n p bs = put_loop v bo n (p + a) bs1"
      using True i by (subst put_loop.simps) (simp add: Let_def i_def a_def bs1_def)
    moreover obtain bs' where "put_loop v bo n (p + a) bs1 = Some bs'" "length bs' = length bs"
      "\<forall>j<8 * length bs. buf_bit bs' j = (buf_bit bs1 j \<or> (bo + (p + a) \<le> j \<and> j < bo + n \<and> bit v (j - bo)))"
      using "1.IH" [OF True refl a_def i_def i [unfolded i_def, folded i_def]] "1.prems" unfolding bs1_def by auto
    moreover have "buf_bit bs1 j = (buf_bit bs j \<or> (bo + p \<le> j \<and> j < bo + p + a \<and> bit v (j - bo)))" if "j < 8 * length bs" for j
      unfolding bs1_def using put_loop_step [OF i_def i a_def that] .
    ultimately show ?thesis using \<open>p + a \<le> n\<close> by (auto simp: add.assoc)
  qed (subst put_loop.simps; auto)
qed

lemma get_loop_ok:
  "bo + n \<le> 8 * length bs \<Longrightarrow> n \<le> 64 \<Longrightarrow> \<exists>v'. get_loop bs bo n p v = Some v' \<and>
     (\<forall>j<64. bit v' j = (bit v j \<or> (p \<le> j \<and> j < n \<and> buf_bit bs (bo + j))))"
proof (induction bs bo n p v rule: get_loop.induct)
  case (1 bs bo n p v)
  show ?case
  proof (cases "p < n")
    case True
    define i where "i = (bo + p) div 8"
    define a where "a = min (n - p) (8 - (bo + p) mod 8)"
    define v1 where "v1 = v OR push_bit p (ucast (take_bit a (drop_bit ((bo + p) mod 8) (bs ! i))))"
    have i: "i < length bs" using True "1.prems"(1) unfolding i_def by linarith
    have a: "p + a \<le> n" "0 < a" "a \<le> 8 - (bo + p) mod 8" using True by (simp_all add: a_def)
    have "get_loop bs bo n p v = get_loop bs bo n (p + a) v1"
      using True i by (subst get_loop.simps) (simp add: Let_def i_def a_def v1_def)
    moreover obtain v' where "get_loop bs bo n (p + a) v1 = Some v'"
      "\<forall>j<64. bit v' j = (bit v1 j \<or> (p + a \<le> j \<and> j < n \<and> buf_bit bs (bo + j)))"
      using "1.IH" [OF True refl a_def i_def i [unfolded i_def, folded i_def]] "1.prems" unfolding v1_def by auto
    moreover have "bit v1 j = (bit v j \<or> (p \<le> j \<and> j < p + a \<and> buf_bit bs (bo + j)))" if "j < 64" for j
    proof -
      have "bit v1 j = (bit v j \<or> (p \<le> j \<and> j < p + a \<and> bit (bs ! i) ((bo + p) mod 8 + (j - p))))"
        using that a(3) by (auto simp: v1_def bit_simps)
      moreover have "bit (bs ! i) ((bo + p) mod 8 + (j - p)) = buf_bit bs (bo + j)" if "p \<le> j" "j < p + a"
        using byte_of_bit [of "j - p" "bo + p"] that a(3) by (simp add: buf_bit_def i_def)
      ultimately show ?thesis by auto
    qed
    ultimately show ?thesis using a(1) by auto
  qed (subst get_loop.simps; auto)
qed

lemma lai_buffer_get_at_bits:
  assumes "bo + n \<le> 8 * length bs" and "n \<le> 64"
  shows "\<exists>v. lai_buffer_get_at bs bo n = Some v \<and> (\<forall>j<64. bit v j = (j < n \<and> buf_bit bs (bo + j)))"
  using get_loop_ok [OF assms, of 0 0] by (simp add: lai_buffer_get_at_def)

lemma lai_buffer_put_at_bits:
  assumes "bo + n \<le> 8 * length bs"
  shows "\<exists>bs'. lai_buffer_put_at bs v bo n = Some bs' \<and> length bs' = length bs \<and>
    (\<forall>j<8 * length bs. buf_bit bs' j = (buf_bit bs j \<or> (bo \<le> j \<and> j < bo + n \<and> bit v (j - bo))))"
  using put_loop_ok [OF assms, of v 0] by (simp add: lai_buffer_put_at_def)

subsection \<open>Regions that behave like memory\<close>

text \<open>
  The contract of a region of bits read and written in units of \<open>acc\<close> bits: a read returns the bits of its unit and
  changes none, a write replaces the bits of its unit.
\<close>

lemma merged_unit:
  fixes fofs p u b a acc :: nat
  assumes "fofs + p = u + b" and "b + a \<le> acc" and v: "\<And>i. i < acc \<Longrightarrow> bit v i = (if b \<le> i \<and> i < b + a then new (p + (i - b)) else old (u + i))"
  shows "(\<lambda>j. if u \<le> j \<and> j < u + acc then bit v (j - u) else old j) =
         (\<lambda>j. if fofs + p \<le> j \<and> j < fofs + p + a then new (j - fofs) else old j)"
proof
  fix j
  show "(if u \<le> j \<and> j < u + acc then bit v (j - u) else old j) =
      (if fofs + p \<le> j \<and> j < fofs + p + a then new (j - fofs) else old j)"
  proof (cases "u \<le> j \<and> j < u + acc")
    case True
    define i where "i = j - u"
    have j: "j = u + i" "i < acc" using True by (auto simp: i_def)
    then have "(fofs + p \<le> j \<and> j < fofs + p + a) = (b \<le> i \<and> i < b + a)" unfolding assms(1) by auto
    moreover have "p + (i - b) = j - fofs" if "b \<le> i" using that j assms(1) by linarith
    ultimately show ?thesis using v [OF j(2)] j by auto
  qed (use assms in auto)
qed

text \<open>The byte offset of the unit of \<open>acc\<close> bits that holds bit \<open>k\<close>.\<close>

definition unit_offset :: "nat \<Rightarrow> nat \<Rightarrow> u64" where
  "unit_offset acc k = of_nat (k div acc * acc div 8)"

locale bit_region =
  fixes inv :: "'s \<Rightarrow> bool" and reg :: "'s \<Rightarrow> nat \<Rightarrow> bool" and acc limit :: nat
    and rd :: "u64 \<Rightarrow> 's \<Rightarrow> (u64 \<times> 's) option" and wr :: "u64 \<Rightarrow> u64 \<Rightarrow> 's \<Rightarrow> 's option"
  assumes width: "8 dvd acc" "0 < acc" "acc < 64" "limit < 2 ^ 64"
    and read_unit: "inv s \<Longrightarrow> 8 * unat off + acc \<le> limit \<Longrightarrow>
      \<exists>v s'. rd off s = Some (v, s') \<and> inv s' \<and> reg s' = reg s \<and> (\<forall>i<acc. bit v i = reg s (8 * unat off + i))"
    and write_unit: "inv s \<Longrightarrow> 8 * unat off + acc \<le> limit \<Longrightarrow>
      \<exists>s'. wr off v s = Some s' \<and> inv s' \<and>
        reg s' = (\<lambda>j. if 8 * unat off \<le> j \<and> j < 8 * unat off + acc then bit v (j - 8 * unat off) else reg s j)"
begin

lemma unit_offset_bits:
  assumes "k + acc \<le> limit"
  shows "8 * unat (unit_offset acc k) = k div acc * acc"
proof -
  have "8 dvd k div acc * acc" using width(1) by simp
  moreover have "k div acc * acc \<le> k" by (simp add: mult.commute)
  moreover have "k div acc * acc div 8 < 2 ^ 64" using calculation(2) assms width(4) by linarith
  ultimately show ?thesis by (simp add: unit_offset_def unat_of_nat)
qed

lemma unit_offset_next:
  assumes "k mod acc + a = acc"
  shows "unit_offset acc k + of_nat (acc div 8) = unit_offset acc (k + a)"
proof -
  have "k + a = acc * (k div acc) + (k mod acc + a)" by simp
  then have "k + a = acc * Suc (k div acc)" by (simp only: assms) simp
  then have "(k + a) div acc = Suc (k div acc)" using width(2) by simp
  moreover have "(acc + k div acc * acc) div 8 = acc div 8 + k div acc * acc div 8" using width(1) by (simp add: div_add)
  ultimately show ?thesis by (simp add: unit_offset_def add.commute flip: of_nat_add)
qed

lemma write_loop_bits:
  assumes "inv s" and "sz \<le> 8 * length source" and "fofs + sz + acc \<le> limit" and "p < sz \<longrightarrow> off = unit_offset acc (fofs + p)"
  shows "\<exists>s'. write_loop rd wr FIELD_PRESERVE acc fofs sz p off source s = Some s' \<and> inv s' \<and>
    reg s' = (\<lambda>j. if fofs + p \<le> j \<and> j < fofs + sz then buf_bit source (j - fofs) else reg s j)"
  using assms
proof (induction "sz - p" arbitrary: p off s rule: less_induct)
  case less
  show ?case
  proof (cases "p < sz")
    case True
    let ?b = "(fofs + p) mod acc" and ?u = "(fofs + p) div acc * acc"
    define a where "a = min (sz - p) (acc - ?b)"
    have b: "?b < acc" "fofs + p = ?u + ?b" using width(2) by (simp_all add: mult.commute)
    have a: "0 < a" "p + a \<le> sz" "?b + a \<le> acc" "a < 64" using True b(1) width(3) by (auto simp: a_def)
    have off: "8 * unat off = ?u" using less.prems(3,4) True by (simp add: unit_offset_bits)
    have lim: "8 * unat off + acc \<le> limit" using off b(2) less.prems(3) True by linarith
    obtain v s1 where r: "rd off s = Some (v, s1)" "inv s1" "reg s1 = reg s" "\<forall>i<acc. bit v i = reg s (?u + i)"
      using read_unit [OF less.prems(1) lim] off by auto
    have "p + a \<le> 8 * length source" using a(2) less.prems(2) by simp
    from lai_buffer_get_at_bits [OF this less_imp_le [OF a(4)]] obtain nv where nv: "lai_buffer_get_at source p a = Some nv"
      "\<forall>j<64. bit nv j = (j < a \<and> buf_bit source (p + j))" by auto
    let ?msk = "push_bit ?b (Bit_Operations.mask a) :: u64"
    define v' where "v' = (v AND NOT ?msk) OR (push_bit ?b nv AND ?msk)"
    have v': "bit v' i = (if ?b \<le> i \<and> i < ?b + a then buf_bit source (p + (i - ?b)) else reg s (?u + i))" if "i < acc" for i
      using that nv(2) r(4) a(3) width(3) by (auto simp: v'_def bit_simps)
    obtain s2 where w: "wr off v' s1 = Some s2" "inv s2"
      "reg s2 = (\<lambda>j. if ?u \<le> j \<and> j < ?u + acc then bit v' (j - ?u) else reg s j)"
      using write_unit [OF r(2) lim, of v'] off r(3) by auto
    have reg2: "reg s2 = (\<lambda>j. if fofs + p \<le> j \<and> j < fofs + p + a then buf_bit source (j - fofs) else reg s j)"
      unfolding w(3) by (rule merged_unit [OF b(2) a(3)]) (simp add: v')
    have "write_loop rd wr FIELD_PRESERVE acc fofs sz p off source s =
        write_loop rd wr FIELD_PRESERVE acc fofs sz (p + a) (off + of_nat (acc div 8)) source s2"
      using True a(4) r(1) nv(1) w(1) by (subst write_loop.simps) (simp add: Let_def initial_value_def a_def [symmetric] v'_def)
    moreover have "p + a < sz \<longrightarrow> off + of_nat (acc div 8) = unit_offset acc (fofs + (p + a))"
      using less.prems(4) True unit_offset_next [of "fofs + p" a] b(1) by (auto simp: a_def add.assoc)
    moreover have "sz - (p + a) < sz - p" using True a(1) by simp
    ultimately obtain s' where "write_loop rd wr FIELD_PRESERVE acc fofs sz p off source s = Some s'" "inv s'"
      "reg s' = (\<lambda>j. if fofs + (p + a) \<le> j \<and> j < fofs + sz then buf_bit source (j - fofs) else reg s2 j)"
      using less.hyps [OF _ w(2) less.prems(2,3), of "p + a" "off + of_nat (acc div 8)"] by auto
    then show ?thesis using a(2) by (auto simp: reg2)
  qed (use less.prems in \<open>subst write_loop.simps, auto\<close>)
qed

lemma read_loop_bits:
  assumes "inv s" and "sz \<le> 8 * length dest" and "fofs + sz + acc \<le> limit" and "p < sz \<longrightarrow> off = unit_offset acc (fofs + p)"
  shows "\<exists>s' bs. read_loop rd acc fofs sz p off dest s = Some (bs, s') \<and> inv s' \<and> reg s' = reg s \<and> length bs = length dest \<and>
    (\<forall>j<8 * length dest. buf_bit bs j = (buf_bit dest j \<or> (p \<le> j \<and> j < sz \<and> reg s (fofs + j))))"
  using assms
proof (induction "sz - p" arbitrary: p off s dest rule: less_induct)
  case less
  show ?case
  proof (cases "p < sz")
    case True
    let ?b = "(fofs + p) mod acc" and ?u = "(fofs + p) div acc * acc"
    define a where "a = min (sz - p) (acc - ?b)"
    have b: "?b < acc" "fofs + p = ?u + ?b" using width(2) by (simp_all add: mult.commute)
    have a: "0 < a" "p + a \<le> sz" "?b + a \<le> acc" "a < 64" using True b(1) width(3) by (auto simp: a_def)
    have off: "8 * unat off = ?u" using less.prems(3,4) True by (simp add: unit_offset_bits)
    have lim: "8 * unat off + acc \<le> limit" using off b(2) less.prems(3) True by linarith
    obtain v s1 where r: "rd off s = Some (v, s1)" "inv s1" "reg s1 = reg s" "\<forall>i<acc. bit v i = reg s (?u + i)"
      using read_unit [OF less.prems(1) lim] off by auto
    let ?v = "take_bit a (drop_bit ?b v)"
    have v: "bit ?v i = (i < a \<and> reg s (fofs + p + i))" for i
    proof -
      have "bit v (?b + i) = reg s (fofs + p + i)" if "i < a"
      proof -
        have "?b + i < acc" using that a(3) by linarith
        moreover have "?u + (?b + i) = fofs + p + i" using b(2) by linarith
        ultimately show ?thesis using r(4) by (simp only:)
      qed
      then show ?thesis by (auto simp only: bit_take_bit_iff bit_drop_bit_eq o_apply)
    qed
    have "p + a \<le> 8 * length dest" using a(2) less.prems(2) by simp
    from lai_buffer_put_at_bits [OF this, of ?v] obtain d1 where d1: "lai_buffer_put_at dest ?v p a = Some d1" "length d1 = length dest"
      "\<forall>j<8 * length dest. buf_bit d1 j = (buf_bit dest j \<or> (p \<le> j \<and> j < p + a \<and> bit ?v (j - p)))" by auto
    have unfold: "read_loop rd acc fofs sz p off dest s =
        read_loop rd acc fofs sz (p + a) (off + of_nat (acc div 8)) d1 s1"
      using True a(4) r(1) d1(1) by (subst read_loop.simps) (simp add: Let_def a_def [symmetric])
    have next_unit: "p + a < sz \<longrightarrow> off + of_nat (acc div 8) = unit_offset acc (fofs + (p + a))"
      using less.prems(4) True unit_offset_next [of "fofs + p" a] b(1) by (auto simp: a_def add.assoc)
    have decr: "sz - (p + a) < sz - p" using True a(1) by simp
    have room: "sz \<le> 8 * length d1" using less.prems(2) d1(2) by simp
    obtain s' bs where ih: "read_loop rd acc fofs sz p off dest s = Some (bs, s')" "inv s'" "reg s' = reg s"
      "length bs = length dest"
      "\<forall>j<8 * length dest. buf_bit bs j = (buf_bit d1 j \<or> (p + a \<le> j \<and> j < sz \<and> reg s (fofs + j)))"
      using less.hyps [OF decr r(2) room less.prems(3) next_unit] unfolding d1(2) r(3) unfold by blast
    have "buf_bit bs j = (buf_bit dest j \<or> (p \<le> j \<and> j < sz \<and> reg s (fofs + j)))" if j: "j < 8 * length dest" for j
    proof (cases "p \<le> j")
      case le: True
      then have "bit ?v (j - p) = (j < p + a \<and> reg s (fofs + j))" using v [of "j - p"] by auto
      then show ?thesis using ih(5) d1(3) j le a(2) by auto
    qed (use ih(5) d1(3) j a(2) in simp)
    with ih show ?thesis by blast
  qed (use less.prems in \<open>subst read_loop.simps, auto\<close>)
qed

end

subsection \<open>Fields of port registers\<close>

text \<open>A device whose byte ports behave like memory: \<open>pm\<close> gives the register behind each port.\<close>

definition port_memory :: "'d wide_bus \<Rightarrow> ('d \<Rightarrow> u16 \<Rightarrow> u8) \<Rightarrow> bool" where
  "port_memory io pm = ((\<forall>p d. fst (in8 io p d) = pm d p \<and> pm (snd (in8 io p d)) = pm d) \<and>
     (\<forall>p v d. pm (out8 io p v d) = (pm d)(p := v)))"

text \<open>A field that is accessed by bytes in the port space and keeps the bits around it.\<close>

definition byte_port_field :: "addr \<Rightarrow> ('d, 'a) lai_ns_state_scheme \<Rightarrow> bool" where
  "byte_port_field f s = (let fl = node_at s f; r = node_at s (fld_region_node fl)
     in nd_type fl = LAI_NAMESPACE_FIELD \<and> fld_flags fl AND 0xF = FIELD_BYTE_ACCESS \<and>
        drop_bit 5 (fld_flags fl) AND 0xF = FIELD_PRESERVE \<and> op_override r = 0 \<and> op_address_space r = ACPI_OPREGION_IO)"

definition port_field :: "'d wide_bus \<Rightarrow> ('d \<Rightarrow> u16 \<Rightarrow> u8) \<Rightarrow> addr \<Rightarrow> (addr \<Rightarrow> lai_nsnode) \<Rightarrow> ('d, 'a) lai_ns_state_scheme \<Rightarrow> bool" where
  "port_field io pm f nodes s = (port_memory io pm \<and> byte_port_field f s \<and> node_at s = nodes)"

text \<open>Bit \<open>j\<close> of the region of a field, in the 64K byte ports.\<close>

definition region_bit :: "('d \<Rightarrow> u16 \<Rightarrow> u8) \<Rightarrow> addr \<Rightarrow> ('d, 'a) lai_ns_state_scheme \<Rightarrow> nat \<Rightarrow> bool" where
  "region_bit pm f s j = (j < 2 ^ 19 \<and>
     bit (pm (dev s) (ucast (op_base (node_at s (fld_region_node (node_at s f))) + of_nat (j div 8)))) (j mod 8))"

lemma unat_ucast_u16: "unat (ucast (a :: u64) :: u16) = unat a mod 2 ^ 16"
  by (simp add: unsigned_ucast_eq take_bit_eq_mod)

lemma ucast_add_u16: "(ucast (a + b :: u64) :: u16) = ucast a + ucast b"
  by (rule word_unat_eq_iff [THEN iffD2]) (simp add: unat_ucast_u16 unat_word_ariths mod_mod_cancel mod_add_eq)

lemma port_of_bit_inj:
  assumes "8 * unat (off :: u64) + 8 \<le> 2 ^ 19" and "j < 2 ^ 19" and "(ucast (base + of_nat (j div 8) :: u64) :: u16) = ucast (base + off)"
  shows "j div 8 = unat off"
proof -
  have "ucast (of_nat (j div 8) :: u64) = (ucast off :: u16)" using assms(3) by (simp add: ucast_add_u16)
  moreover have "unat (ucast (of_nat (j div 8) :: u64) :: u16) = j div 8" using assms(2) by (simp add: unat_ucast_u16 unat_of_nat)
  moreover have "unat (ucast off :: u16) = unat off" using assms(1) by (simp add: unat_ucast_u16)
  ultimately show ?thesis by simp
qed

lemma bit_of_byte:
  fixes k :: nat
  assumes "i < 8"
  shows "(8 * k + i) div 8 = k" "(8 * k + i) mod 8 = i"
  using assms by simp_all

lemma region_bit_unit:
  assumes "8 * unat off + 8 \<le> 2 ^ 19" and "i < 8"
  shows "region_bit pm f s (8 * unat off + i) =
    bit (pm (dev s) (ucast (op_base (node_at s (fld_region_node (node_at s f))) + off))) i"
  using assms by (simp add: region_bit_def bit_of_byte)

lemma port_unit_read:
  assumes "port_memory io pm" and "byte_port_field f s" and "8 * unat off + 8 \<le> 2 ^ 19"
  shows "\<exists>v s'. unit_read io env ixr f 8 off s = Some (v, s') \<and> port_field io pm f (node_at s) s' \<and>
    region_bit pm f s' = region_bit pm f s \<and> (\<forall>i<8. bit v i = region_bit pm f s (8 * unat off + i))"
proof -
  let ?p = "ucast (op_base (node_at s (fld_region_node (node_at s f))) + off) :: u16"
  let ?s = "s\<lparr>dev := snd (in8 io ?p (dev s))\<rparr>"
  have "unit_read io env ixr f 8 off s = Some (ucast (fst (in8 io ?p (dev s))), ?s)"
    using assms(2) by (simp add: unit_read_def byte_port_field_def lai_perform_read_def port_read_def on_dev_def
      laihost_inb_def bus.truncate_def Let_def ACPI_OPREGION_IO_def ACPI_OPREGION_MEMORY_def case_prod_beta)
  moreover have "region_bit pm f ?s = region_bit pm f s"
    using assms(1) by (simp add: port_memory_def region_bit_def fun_eq_iff)
  moreover have "bit (ucast (fst (in8 io ?p (dev s))) :: u64) i = region_bit pm f s (8 * unat off + i)" if "i < 8" for i
    using assms(1) that unfolding region_bit_unit [OF assms(3) that] by (simp add: port_memory_def bit_ucast_iff)
  moreover have "port_field io pm f (node_at s) ?s" using assms(1,2) by (simp add: port_field_def byte_port_field_def)
  ultimately show ?thesis by blast
qed

lemma port_unit_write:
  assumes "port_memory io pm" and "byte_port_field f s" and lim: "8 * unat off + 8 \<le> 2 ^ 19"
  shows "\<exists>s'. unit_write io env ixw f 8 off v s = Some s' \<and> port_field io pm f (node_at s) s' \<and>
    region_bit pm f s' = (\<lambda>j. if 8 * unat off \<le> j \<and> j < 8 * unat off + 8 then bit v (j - 8 * unat off) else region_bit pm f s j)"
proof -
  let ?b = "op_base (node_at s (fld_region_node (node_at s f)))"
  let ?p = "ucast (?b + off) :: u16"
  let ?s = "s\<lparr>dev := out8 io ?p (ucast v) (dev s)\<rparr>"
  have "unit_write io env ixw f 8 off v s = Some ?s"
    using assms(2) by (simp add: unit_write_def byte_port_field_def lai_perform_write_def port_write_def to_dev_def
      laihost_outb_def bus.truncate_def Let_def ACPI_OPREGION_IO_def ACPI_OPREGION_MEMORY_def)
  moreover have "region_bit pm f ?s = (\<lambda>j. if 8 * unat off \<le> j \<and> j < 8 * unat off + 8 then bit v (j - 8 * unat off) else region_bit pm f s j)"
  proof
    fix j
    have pm: "pm (out8 io ?p (ucast v) (dev s)) = (pm (dev s))(?p := ucast v)" using assms(1) by (simp add: port_memory_def)
    show "region_bit pm f ?s j = (if 8 * unat off \<le> j \<and> j < 8 * unat off + 8 then bit v (j - 8 * unat off) else region_bit pm f s j)"
    proof (cases "8 * unat off \<le> j \<and> j < 8 * unat off + 8")
      case True
      then obtain i where i: "j = 8 * unat off + i" "i < 8" by (metis add_less_cancel_left le_Suc_ex)
      have "region_bit pm f ?s j = bit (ucast v :: u8) i" unfolding i(1) region_bit_unit [OF lim i(2)] by (simp add: pm)
      then show ?thesis using True i by (simp add: bit_ucast_iff)
    next
      case False
      then have "j div 8 \<noteq> unat off" by (metis bit_of_byte(1) div_mod_decomp le_add1 mod_less_divisor mult.commute nat_add_left_cancel_less zero_less_numeral)
      then have "(ucast (?b + of_nat (j div 8)) :: u16) \<noteq> ?p" if "j < 2 ^ 19" using port_of_bit_inj [OF lim that] by blast
      then have "region_bit pm f ?s j = region_bit pm f s j" by (cases "j < 2 ^ 19") (simp_all add: region_bit_def pm)
      with False show ?thesis by auto
    qed
  qed
  moreover have "port_field io pm f (node_at s) ?s" using assms(1,2) by (simp add: port_field_def byte_port_field_def)
  ultimately show ?thesis by blast
qed

interpretation port_region: bit_region "port_field io pm f nodes" "region_bit pm f" 8 "2 ^ 19"
  "unit_read io env ixr f 8" "unit_write io env ixw f 8"
proof (unfold_locales, goal_cases)
  case (5 s off)
  then show ?case using port_unit_read [of io pm f s off env ixr] unfolding port_field_def by blast
next
  case (6 s off v)
  then show ?case using port_unit_write [of io pm f s off env ixw v] unfolding port_field_def by blast
qed simp_all

lemma buf_bit_le_bytes: "j < 64 \<Longrightarrow> buf_bit (le_bytes v) j = bit v j"
  by (simp add: buf_bit_def le_bytes_def bit_ucast_iff bit_drop_bit_eq less_mult_imp_div_less)

lemma bit_le_value_upto:
  assumes "n \<le> 8"
  shows "bit (fold (\<lambda>i v. v OR push_bit (8 * i) (ucast (bs ! i))) [0..<n] (0 :: u64)) j = (j < 8 * n \<and> buf_bit bs j)"
  using assms
proof (induction n)
  case (Suc n)
  have "bit (push_bit (8 * n) (ucast (bs ! n)) :: u64) j = (8 * n \<le> j \<and> j < 8 * Suc n \<and> buf_bit bs j)"
  proof (cases "8 * n \<le> j \<and> j < 8 * Suc n")
    case True
    then obtain i where "j = 8 * n + i" "i < 8" by (metis add_less_cancel_left le_Suc_ex mult_Suc_right add.commute)
    then show ?thesis using Suc.prems by (simp add: bit_push_bit_iff bit_ucast_iff buf_bit_def bit_of_byte)
  next
    case False
    then show ?thesis by (auto simp: bit_push_bit_iff bit_ucast_iff dest: bit_imp_le_length)
  qed
  then show ?case using Suc by (auto simp: bit_or_iff)
qed simp

lemma bit_le_value: "length bs \<le> 8 \<Longrightarrow> bit (le_value bs) j = (j < 8 * length bs \<and> buf_bit bs j)"
  unfolding le_value_def by (rule bit_le_value_upto)

lemma byte_access_width: "byte_port_field f s \<Longrightarrow> lai_calculate_access_width s f = Some 8"
  by (simp add: byte_port_field_def lai_calculate_access_width_def Let_def)

lemma first_unit_offset: "first_unit fofs acc = unit_offset acc (fofs + 0)"
  by (simp add: first_unit_def unit_offset_def)

lemma port_field_write:
  assumes s: "port_field io pm f nodes s" and fld: "fofs = unat (fld_offset (nodes f))" "sz = unat (fld_size (nodes f))"
    and sz: "sz \<le> 64" "fofs + sz + 8 \<le> 2 ^ 19"
  shows "\<exists>s'. lai_write_field n io env f (FInteger v) s = Some s' \<and> port_field io pm f nodes s' \<and>
    region_bit pm f s' = (\<lambda>j. if fofs \<le> j \<and> j < fofs + sz then bit v (j - fofs) else region_bit pm f s j)"
proof -
  have "node_at s = nodes" "lai_calculate_access_width s f = Some 8" "drop_bit 5 (fld_flags (nodes f)) AND 0xF = FIELD_PRESERVE"
    using s byte_access_width by (auto simp: port_field_def byte_port_field_def Let_def)
  moreover have "sz \<le> 8 * length (le_bytes v)" using sz(1) by (simp add: le_bytes_def)
  ultimately obtain s' where s': "lai_write_field n io env f (FInteger v) s = Some s'" "port_field io pm f nodes s'"
    "region_bit pm f s' = (\<lambda>j. if fofs + 0 \<le> j \<and> j < fofs + sz then buf_bit (le_bytes v) (j - fofs) else region_bit pm f s j)"
    using port_region.write_loop_bits [OF s, where sz = sz and source = "le_bytes v" and fofs = fofs and p = 0 and
      off = "first_unit fofs 8" and env = env and ixr = "lai_perform_indexfield_read n io env" and ixw = "lai_perform_indexfield_write n io env"] sz(2) fld
    by (auto simp: lai_write_field_def store_field_with_def write_field_with_def first_unit_offset Let_def)
  moreover have "buf_bit (le_bytes v) (j - fofs) = bit v (j - fofs)" if "fofs \<le> j" "j < fofs + sz" for j
    using that sz(1) by (intro buf_bit_le_bytes) linarith
  ultimately show ?thesis by (auto cong: if_cong)
qed

lemma port_field_read:
  assumes s: "port_field io pm f nodes s" and fld: "fofs = unat (fld_offset (nodes f))" "sz = unat (fld_size (nodes f))"
    and sz: "sz \<le> 64" "fofs + sz + 8 \<le> 2 ^ 19"
  shows "\<exists>v s'. lai_read_field n io env f s = Some (FInteger v, s') \<and> port_field io pm f nodes s' \<and>
    region_bit pm f s' = region_bit pm f s \<and> (\<forall>j. bit v j = (j < sz \<and> region_bit pm f s (fofs + j)))"
proof -
  let ?n = "(sz + 7) div 8"
  have n: "?n \<le> 8" "sz \<le> 8 * ?n" using sz(1) by auto
  have "node_at s = nodes" "lai_calculate_access_width s f = Some 8"
    using s byte_access_width by (auto simp: port_field_def)
  moreover obtain s' bs where bs: "read_loop (unit_read io env (lai_perform_indexfield_read n io env) f 8) 8 fofs sz 0 (first_unit fofs 8) (replicate ?n 0) s = Some (bs, s')"
    "port_field io pm f nodes s'" "region_bit pm f s' = region_bit pm f s" "length bs = ?n"
    "\<forall>j<8 * ?n. buf_bit bs j = (buf_bit (replicate ?n 0) j \<or> (0 \<le> j \<and> j < sz \<and> region_bit pm f s (fofs + j)))"
    using port_region.read_loop_bits [OF s, where sz = sz and dest = "replicate ?n 0" and fofs = fofs and p = 0 and
      off = "first_unit fofs 8" and env = env and ixr = "lai_perform_indexfield_read n io env"] sz(2) n(2)
    by (auto simp: first_unit_offset)
  ultimately have "lai_read_field n io env f s = Some (FInteger (le_value bs), s')"
    using n(1) fld by (simp add: lai_read_field_def load_field_with_def read_field_with_def Let_def)
  moreover have "bit (le_value bs) j = (j < sz \<and> region_bit pm f s (fofs + j))" for j
    using bs(4,5) n by (auto simp: bit_le_value buf_bit_def less_mult_imp_div_less)
  ultimately show ?thesis using bs(2,3) by blast
qed

text \<open>C26: Writing an integer to a field of byte-wide port registers and reading the field back gives the low bits of the
  integer that the field has room for, and the bits of the region outside the field keep their values, even those that
  share a register with it.\<close>

theorem lai_field_roundtrip:
  assumes "port_memory io pm" and "byte_port_field f s" and "fofs = unat (fld_offset (node_at s f))"
    and "sz = unat (fld_size (node_at s f))" and "sz \<le> 64" and "fofs + sz + 8 \<le> 2 ^ 19"
  shows "\<exists>s' s''. lai_write_field n io env f (FInteger v) s = Some s' \<and> lai_read_field n io env f s' = Some (FInteger (take_bit sz v), s'') \<and>
    (\<forall>j. \<not> (fofs \<le> j \<and> j < fofs + sz) \<longrightarrow> region_bit pm f s'' j = region_bit pm f s j)"
proof -
  have "port_field io pm f (node_at s) s" using assms(1,2) by (simp add: port_field_def)
  from port_field_write [OF this assms(3-6)] obtain s' where s': "lai_write_field n io env f (FInteger v) s = Some s'"
    "port_field io pm f (node_at s) s'"
    "region_bit pm f s' = (\<lambda>j. if fofs \<le> j \<and> j < fofs + sz then bit v (j - fofs) else region_bit pm f s j)" by blast
  from port_field_read [OF s'(2) assms(3-6)] obtain w s'' where w: "lai_read_field n io env f s' = Some (FInteger w, s'')"
    "region_bit pm f s'' = region_bit pm f s'" "\<forall>j. bit w j = (j < sz \<and> region_bit pm f s' (fofs + j))" by blast
  have "w = take_bit sz v" by (rule bit_word_eqI) (simp add: w(3) s'(3) bit_take_bit_iff)
  then show ?thesis using s' w by auto
qed

text \<open>
  An instance: the field of 11 bits at bit 3 of the region of ports from 0x70; it covers the upper bits of the first port
  and the lower six of the second.
\<close>

definition port_bus :: "(u16 \<Rightarrow> u8) wide_bus" where
  "port_bus = \<lparr>in8 = (\<lambda>p d. (d p, d)), in16 = (\<lambda>p d. (ucast (d p), d)), in32 = (\<lambda>p d. (ucast (d p), d)),
     out8 = (\<lambda>p v d. d(p := v)), out16 = (\<lambda>p v d. d(p := ucast v)), out32 = (\<lambda>p v d. d(p := ucast v)),
     mmio_read8 = (\<lambda>a d. (0, d)), mmio_read32 = (\<lambda>a d. (0, d)), mmio_write32 = (\<lambda>a v d. d), mmio_write64 = (\<lambda>a v d. d),
     mmio_read16 = (\<lambda>a d. (0, d)), mmio_read64 = (\<lambda>a d. (0, d)), mmio_write8 = (\<lambda>a v d. d), mmio_write16 = (\<lambda>a v d. d)\<rparr>"

definition no_env :: "'s region_env" where
  "no_env = \<lparr>call_read = (\<lambda>_ _ _ _ _. None), call_write = (\<lambda>_ _ _ _ _ _. None), pci_params = (\<lambda>_ _. None)\<rparr>"

definition field_example :: "(u16 \<Rightarrow> u8) lai_ns_state" where
  "field_example = apic_state.extend (sched_state.extend sched_example (apic_state.fields (\<lambda>_. 0xFF) (io_at apic_example) (kIoApics apic_example) 1 0xFEE00000))
     (lai_ns_state.fields
       (\<lambda>a. if a = 0x2000 then zero_nsnode\<lparr>nd_type := LAI_NAMESPACE_FIELD, fld_region_node := 0x3000, fld_offset := 3, fld_size := 11,
                fld_flags := FIELD_BYTE_ACCESS\<rparr>
            else if a = 0x3000 then zero_nsnode\<lparr>nd_type := LAI_NAMESPACE_OPREGION, op_address_space := ACPI_OPREGION_IO, op_base := 0x70\<rparr>
            else zero_nsnode) 0x1000 0x9000 [] 128 2 0)"

lemma port_bus_memory: "port_memory port_bus (\<lambda>d. d)"
  by (simp add: port_memory_def port_bus_def)

lemma field_example_nodes:
  "node_at field_example 0x2000 = zero_nsnode\<lparr>nd_type := LAI_NAMESPACE_FIELD, fld_region_node := 0x3000, fld_offset := 3, fld_size := 11,
     fld_flags := FIELD_BYTE_ACCESS\<rparr>"
  "node_at field_example 0x3000 = zero_nsnode\<lparr>nd_type := LAI_NAMESPACE_OPREGION, op_address_space := ACPI_OPREGION_IO, op_base := 0x70\<rparr>"
  by (simp_all add: field_example_def lai_ns_state.defs apic_state.defs sched_state.defs)

theorem lai_field_roundtrip_witness:
  "\<exists>s' s''. lai_write_field 0 port_bus no_env 0x2000 (FInteger 0x1234) field_example = Some s' \<and>
     lai_read_field 0 port_bus no_env 0x2000 s' = Some (FInteger 0x234, s'') \<and>
     (\<forall>j. \<not> (3 \<le> j \<and> j < 14) \<longrightarrow> region_bit (\<lambda>d. d) 0x2000 s'' j = region_bit (\<lambda>d. d) 0x2000 field_example j)"
  using lai_field_roundtrip [OF port_bus_memory, of "0x2000" field_example 3 11 0 no_env "0x1234"]
  by (simp add: byte_port_field_def field_example_nodes field_flags zero_nsnode_def)

end
