(* ===== verification/LaiObject.thy ===== *)
theory LaiObject
  imports LaiField
begin

text \<open>
  Objects of the interpreter: \<open>core/variable.c\<close>, the reference counts of \<open>core/internal-util.h\<close> and the creation,
  resizing and copying of \<open>core/object.c\<close>.  Strings, buffers and packages are heads with a reference count; the live
  heads form a store, and a pointer that is not in it has been freed.  The contents of a head are part of it, the
  blocks of head and contents come from the kernel heap.  A function that stores through a pointer to a variable
  takes the old value of that variable and returns the new one; an access past the end of a block has no result.
\<close>

subsection \<open>Heads\<close>

record lai_string_head =
  sh_rc :: int
  sh_capacity :: u64
  sh_content :: addr
  sh_chars :: "u8 list"

record lai_buffer_head =
  bh_rc :: int
  bh_size :: u64
  bh_content :: addr
  bh_bytes :: "u8 list"

record lai_pkg_head =
  ph_rc :: int
  ph_size :: u32
  ph_elems_ptr :: addr
  ph_elems :: "lai_variable list"

datatype lai_head = HString lai_string_head | HBuffer lai_buffer_head | HPkg lai_pkg_head

type_synonym heads = "addr \<rightharpoonup> lai_head"

definition sizeof_lai_string_head :: u64 where "sizeof_lai_string_head = 24"
definition sizeof_lai_buffer_head :: u64 where "sizeof_lai_buffer_head = 24"
definition sizeof_lai_pkg_head :: u64 where "sizeof_lai_pkg_head = 16"
definition sizeof_lai_variable :: u64 where "sizeof_lai_variable = 48"

record 'd lai_obj_state = "'d lai_ns_state" +
  head_at :: heads

definition string_head :: "heads \<Rightarrow> addr \<Rightarrow> lai_string_head option" where
  "string_head hs p = (case hs p of Some (HString h) \<Rightarrow> Some h | _ \<Rightarrow> None)"

definition buffer_head :: "heads \<Rightarrow> addr \<Rightarrow> lai_buffer_head option" where
  "buffer_head hs p = (case hs p of Some (HBuffer h) \<Rightarrow> Some h | _ \<Rightarrow> None)"

definition pkg_head :: "heads \<Rightarrow> addr \<Rightarrow> lai_pkg_head option" where
  "pkg_head hs p = (case hs p of Some (HPkg h) \<Rightarrow> Some h | _ \<Rightarrow> None)"

definition set_head :: "addr \<Rightarrow> lai_head \<Rightarrow> ('d, 'a) lai_obj_state_scheme \<Rightarrow> ('d, 'a) lai_obj_state_scheme" where
  "set_head p h s = s\<lparr>head_at := (head_at s)(p \<mapsto> h)\<rparr>"

subsection \<open>Reference counts\<close>

definition lai_rc_ref :: "int \<Rightarrow> int option" where
  "lai_rc_ref rc = (if 0 < rc then Some (rc + 1) else None)"

text \<open>Whether the last reference is gone, and the new count.\<close>

definition lai_rc_unref :: "int \<Rightarrow> (bool \<times> int) option" where
  "lai_rc_unref rc = (let nrefs = rc - 1 in if 0 \<le> nrefs then Some (nrefs = 0, nrefs) else None)"

fun head_rc :: "lai_head \<Rightarrow> int" where
  "head_rc (HString h) = sh_rc h"
| "head_rc (HBuffer h) = bh_rc h"
| "head_rc (HPkg h) = ph_rc h"

fun set_rc :: "int \<Rightarrow> lai_head \<Rightarrow> lai_head" where
  "set_rc n (HString h) = HString (h\<lparr>sh_rc := n\<rparr>)"
| "set_rc n (HBuffer h) = HBuffer (h\<lparr>bh_rc := n\<rparr>)"
| "set_rc n (HPkg h) = HPkg (h\<lparr>ph_rc := n\<rparr>)"

text \<open>The head a variable counts in, if it is of a counted type; it must be live and of the right kind.\<close>

fun counted :: "lai_variable \<Rightarrow> addr option" where
  "counted (VString p) = Some p"
| "counted (VStringIndex p _) = Some p"
| "counted (VBuffer p) = Some p"
| "counted (VBufferIndex p _) = Some p"
| "counted (VPackage p) = Some p"
| "counted (VPackageIndex p _) = Some p"
| "counted _ = None"

fun right_kind :: "lai_variable \<Rightarrow> lai_head \<Rightarrow> bool" where
  "right_kind (VString _) (HString _) = True"
| "right_kind (VStringIndex _ _) (HString _) = True"
| "right_kind (VBuffer _) (HBuffer _) = True"
| "right_kind (VBufferIndex _ _) (HBuffer _) = True"
| "right_kind (VPackage _) (HPkg _) = True"
| "right_kind (VPackageIndex _ _) (HPkg _) = True"
| "right_kind _ _ = False"

definition counted_head :: "heads \<Rightarrow> lai_variable \<Rightarrow> addr \<Rightarrow> lai_head option" where
  "counted_head hs v p = (case hs p of Some h \<Rightarrow> if right_kind v h then Some h else None | None \<Rightarrow> None)"

text \<open>The elements that go with a package and the blocks that go with a head.\<close>

fun head_elems :: "lai_head \<Rightarrow> lai_variable list" where
  "head_elems (HPkg h) = take (unat (ph_size h)) (ph_elems h)"
| "head_elems _ = []"

fun head_blocks :: "addr \<Rightarrow> lai_head \<Rightarrow> (addr \<times> u64) list" where
  "head_blocks p (HString h) = [(sh_content h, sh_capacity h), (p, sizeof_lai_string_head)]"
| "head_blocks p (HBuffer h) = [(bh_content h, bh_size h), (p, sizeof_lai_buffer_head)]"
| "head_blocks p (HPkg h) = [(ph_elems_ptr h, ucast (ph_size h) * sizeof_lai_variable), (p, sizeof_lai_pkg_head)]"

text \<open>
  \<open>lai_var_finalize\<close> of a list of variables, with \<open>laihost_free_package\<close>: the heads that remain and the blocks to be
  freed, in order.  The head itself goes last, after the elements of a package.
\<close>

partial_function (option) release :: "lai_variable list \<Rightarrow> heads \<Rightarrow> (heads \<times> (addr \<times> u64) list) option" where
  "release vs hs = (case vs of [] \<Rightarrow> Some (hs, [])
     | v # rest \<Rightarrow> (case counted v of None \<Rightarrow> release rest hs
         | Some p \<Rightarrow> do {
             h \<leftarrow> counted_head hs v p;
             (gone, n) \<leftarrow> lai_rc_unref (head_rc h);
             if \<not> gone then release rest (hs(p \<mapsto> set_rc n h))
             else do {
               (hs, fs) \<leftarrow> release (head_elems h) (hs(p \<mapsto> set_rc n h));
               (hs, fs') \<leftarrow> release rest (hs(p := None));
               Some (hs, fs @ head_blocks p h @ fs') } }))"

fun free_all :: "(addr \<times> u64) list \<Rightarrow> 'a heap_state_scheme \<Rightarrow> 'a heap_state_scheme option" where
  "free_all [] s = Some s"
| "free_all ((p, n) # bs) s = do { s \<leftarrow> laihost_free p n s; free_all bs s }"

definition finalize_list :: "lai_variable list \<Rightarrow> ('d, 'a) lai_obj_state_scheme \<Rightarrow> ('d, 'a) lai_obj_state_scheme option" where
  "finalize_list vs s = do { (hs, fs) \<leftarrow> release vs (head_at s); free_all fs (s\<lparr>head_at := hs\<rparr>) }"

text \<open>The variable itself becomes empty.\<close>

definition lai_var_finalize :: "lai_variable \<Rightarrow> ('d, 'a) lai_obj_state_scheme \<Rightarrow> (lai_variable \<times> ('d, 'a) lai_obj_state_scheme) option" where
  "lai_var_finalize v s = do { s \<leftarrow> finalize_list [v] s; Some (VNone, s) }"

definition lai_swap_object :: "lai_variable \<Rightarrow> lai_variable \<Rightarrow> lai_variable \<times> lai_variable" where
  "lai_swap_object first' second = (second, first')"

text \<open>The new values of destination and source.\<close>

definition lai_var_move :: "lai_variable \<Rightarrow> lai_variable \<Rightarrow> ('d, 'a) lai_obj_state_scheme \<Rightarrow>
    (lai_variable \<times> lai_variable \<times> ('d, 'a) lai_obj_state_scheme) option" where
  "lai_var_move destination source s = do {
     let temp = VNone;
     let (temp, source) = lai_swap_object temp source;
     let (temp, destination) = lai_swap_object temp destination;
     (_, s) \<leftarrow> lai_var_finalize temp s;
     Some (destination, source, s) }"

definition add_ref :: "lai_variable \<Rightarrow> heads \<Rightarrow> heads option" where
  "add_ref v hs = (case counted v of None \<Rightarrow> Some hs
     | Some p \<Rightarrow> do { h \<leftarrow> counted_head hs v p; n \<leftarrow> lai_rc_ref (head_rc h); Some (hs(p \<mapsto> set_rc n h)) })"

definition lai_var_assign :: "lai_variable \<Rightarrow> lai_variable \<Rightarrow> ('d, 'a) lai_obj_state_scheme \<Rightarrow>
    (lai_variable \<times> ('d, 'a) lai_obj_state_scheme) option" where
  "lai_var_assign dest src s = do {
     hs \<leftarrow> add_ref src (head_at s);
     (dest, _, s) \<leftarrow> lai_var_move dest src (s\<lparr>head_at := hs\<rparr>);
     Some (dest, s) }"

subsection \<open>Creation\<close>

type_synonym ('d, 'a) creation = "(lai_api_error \<times> lai_variable \<times> ('d, 'a) lai_obj_state_scheme) option"

definition lai_create_string :: "u64 \<Rightarrow> ('d, 'a) lai_obj_state_scheme \<Rightarrow> ('d, 'a) creation" where
  "lai_create_string n s = do {
     (p, s) \<leftarrow> laihost_malloc sizeof_lai_string_head s;
     if p = 0 then Some (LAI_ERROR_OUT_OF_MEMORY, VString 0, s)
     else do {
       (c, s) \<leftarrow> laihost_malloc (n + 1) s;
       if c = 0 then do { s \<leftarrow> laihost_free p sizeof_lai_string_head s; Some (LAI_ERROR_OUT_OF_MEMORY, VString p, s) }
       else Some (LAI_ERROR_NONE, VString p,
         set_head p (HString \<lparr>sh_rc = 1, sh_capacity = n + 1, sh_content = c, sh_chars = replicate (unat (n + 1)) 0\<rparr>) s) } }"

definition lai_create_buffer :: "u64 \<Rightarrow> ('d, 'a) lai_obj_state_scheme \<Rightarrow> ('d, 'a) creation" where
  "lai_create_buffer n s = do {
     (p, s) \<leftarrow> laihost_malloc sizeof_lai_buffer_head s;
     if p = 0 then Some (LAI_ERROR_OUT_OF_MEMORY, VBuffer 0, s)
     else do {
       (c, s) \<leftarrow> laihost_malloc n s;
       if c = 0 then do { s \<leftarrow> laihost_free p sizeof_lai_buffer_head s; Some (LAI_ERROR_OUT_OF_MEMORY, VBuffer p, s) }
       else Some (LAI_ERROR_NONE, VBuffer p,
         set_head p (HBuffer \<lparr>bh_rc = 1, bh_size = n, bh_content = c, bh_bytes = replicate (unat n) 0\<rparr>) s) } }"

text \<open>The size of a package is kept in 32 bits.\<close>

definition lai_create_pkg :: "u64 \<Rightarrow> ('d, 'a) lai_obj_state_scheme \<Rightarrow> ('d, 'a) creation" where
  "lai_create_pkg n s = do {
     (p, s) \<leftarrow> laihost_malloc sizeof_lai_pkg_head s;
     if p = 0 then Some (LAI_ERROR_OUT_OF_MEMORY, VPackage 0, s)
     else do {
       (c, s) \<leftarrow> laihost_malloc (n * sizeof_lai_variable) s;
       if c = 0 then do { s \<leftarrow> laihost_free p sizeof_lai_pkg_head s; Some (LAI_ERROR_OUT_OF_MEMORY, VPackage p, s) }
       else Some (LAI_ERROR_NONE, VPackage p,
         set_head p (HPkg \<lparr>ph_rc = 1, ph_size = ucast n, ph_elems_ptr = c, ph_elems = replicate (unat n) VNone\<rparr>) s) } }"

text \<open>A copy into a block at an offset, and the length of the C string in a block.\<close>

definition put_bytes :: "'b list \<Rightarrow> nat \<Rightarrow> 'b list \<Rightarrow> 'b list option" where
  "put_bytes dst off src =
     (if off + length src \<le> length dst then Some (take off dst @ src @ List.drop (off + length src) dst) else None)"

definition text_length :: "u8 list \<Rightarrow> nat option" where
  "text_length cs = (if 0 \<in> set cs then Some (length (takeWhile (\<lambda>c. c \<noteq> 0) cs)) else None)"

definition lai_exec_string_access :: "heads \<Rightarrow> lai_variable \<Rightarrow> u8 list option" where
  "lai_exec_string_access hs v = (case v of VString p \<Rightarrow> map_option sh_chars (string_head hs p) | _ \<Rightarrow> None)"

definition lai_exec_string_length :: "heads \<Rightarrow> lai_variable \<Rightarrow> nat option" where
  "lai_exec_string_length hs v = do { cs \<leftarrow> lai_exec_string_access hs v; text_length cs }"

definition lai_exec_buffer_size :: "heads \<Rightarrow> lai_variable \<Rightarrow> nat option" where
  "lai_exec_buffer_size hs v = (case v of VBuffer p \<Rightarrow> map_option (\<lambda>h. unat (bh_size h)) (buffer_head hs p) | _ \<Rightarrow> None)"

definition lai_exec_buffer_access :: "heads \<Rightarrow> lai_variable \<Rightarrow> u8 list option" where
  "lai_exec_buffer_access hs v = (case v of VBuffer p \<Rightarrow> map_option bh_bytes (buffer_head hs p) | _ \<Rightarrow> None)"

definition lai_exec_pkg_size :: "heads \<Rightarrow> lai_variable \<Rightarrow> nat option" where
  "lai_exec_pkg_size hs v = (case v of VPackage p \<Rightarrow> map_option (\<lambda>h. unat (ph_size h)) (pkg_head hs p)
     | VPackageIndex p _ \<Rightarrow> map_option (\<lambda>h. unat (ph_size h)) (pkg_head hs p) | _ \<Rightarrow> None)"

text \<open>Writes to the contents of a string or buffer.\<close>

definition write_string :: "lai_variable \<Rightarrow> nat \<Rightarrow> u8 list \<Rightarrow> ('d, 'a) lai_obj_state_scheme \<Rightarrow> ('d, 'a) lai_obj_state_scheme option" where
  "write_string v off bs s = (case v of
     VString p \<Rightarrow> do { h \<leftarrow> string_head (head_at s) p; cs \<leftarrow> put_bytes (sh_chars h) off bs; Some (set_head p (HString (h\<lparr>sh_chars := cs\<rparr>)) s) }
   | _ \<Rightarrow> None)"

definition write_buffer :: "lai_variable \<Rightarrow> nat \<Rightarrow> u8 list \<Rightarrow> ('d, 'a) lai_obj_state_scheme \<Rightarrow> ('d, 'a) lai_obj_state_scheme option" where
  "write_buffer v off bs s = (case v of
     VBuffer p \<Rightarrow> do { h \<leftarrow> buffer_head (head_at s) p; cs \<leftarrow> put_bytes (bh_bytes h) off bs; Some (set_head p (HBuffer (h\<lparr>bh_bytes := cs\<rparr>)) s) }
   | _ \<Rightarrow> None)"

definition lai_create_c_string :: "u8 list \<Rightarrow> ('d, 'a) lai_obj_state_scheme \<Rightarrow> ('d, 'a) creation" where
  "lai_create_c_string cs s = do {
     (e, v, s) \<leftarrow> lai_create_string (of_nat (length cs)) s;
     if e \<noteq> LAI_ERROR_NONE then Some (e, v, s)
     else do { s \<leftarrow> write_string v 0 cs s; Some (LAI_ERROR_NONE, v, s) } }"

text \<open>
  \<open>lai_exec_pkg_var_load\<close> and \<open>lai_exec_pkg_var_store\<close>.  The element takes its new value before the old one is finalised.
\<close>

definition lai_exec_pkg_var_load :: "lai_variable \<Rightarrow> addr \<Rightarrow> nat \<Rightarrow> ('d, 'a) lai_obj_state_scheme \<Rightarrow>
    (lai_variable \<times> ('d, 'a) lai_obj_state_scheme) option" where
  "lai_exec_pkg_var_load out p i s = do {
     h \<leftarrow> pkg_head (head_at s) p;
     if i < length (ph_elems h) then lai_var_assign out (ph_elems h ! i) s else None }"

definition lai_exec_pkg_var_store :: "lai_variable \<Rightarrow> addr \<Rightarrow> nat \<Rightarrow> ('d, 'a) lai_obj_state_scheme \<Rightarrow> ('d, 'a) lai_obj_state_scheme option" where
  "lai_exec_pkg_var_store v p i s = do {
     hs \<leftarrow> add_ref v (head_at s);
     h \<leftarrow> pkg_head hs p;
     if i < length (ph_elems h)
     then finalize_list [ph_elems h ! i] (s\<lparr>head_at := hs(p \<mapsto> HPkg (h\<lparr>ph_elems := (ph_elems h)[i := v]\<rparr>))\<rparr>)
     else None }"

definition lai_exec_pkg_load :: "lai_variable \<Rightarrow> lai_variable \<Rightarrow> nat \<Rightarrow> ('d, 'a) lai_obj_state_scheme \<Rightarrow>
    (lai_variable \<times> ('d, 'a) lai_obj_state_scheme) option" where
  "lai_exec_pkg_load out pkg i s = (case pkg of VPackage p \<Rightarrow> lai_exec_pkg_var_load out p i s | _ \<Rightarrow> None)"

definition lai_exec_pkg_store :: "lai_variable \<Rightarrow> lai_variable \<Rightarrow> nat \<Rightarrow> ('d, 'a) lai_obj_state_scheme \<Rightarrow> ('d, 'a) lai_obj_state_scheme option" where
  "lai_exec_pkg_store v pkg i s = (case pkg of VPackage p \<Rightarrow> lai_exec_pkg_var_store v p i s | _ \<Rightarrow> None)"

subsection \<open>Resizing\<close>

text \<open>A new block has the bytes the heap left in it.\<close>

definition raw_bytes :: "mem \<Rightarrow> addr \<Rightarrow> nat \<Rightarrow> u8 list" where
  "raw_bytes m a n = map (\<lambda>i. load8 m (a + of_nat i)) [0..<n]"

definition lai_obj_resize_string :: "lai_variable \<Rightarrow> u64 \<Rightarrow> ('d, 'a) lai_obj_state_scheme \<Rightarrow>
    (lai_api_error \<times> ('d, 'a) lai_obj_state_scheme) option" where
  "lai_obj_resize_string v n s = (case v of
     VString p \<Rightarrow> do {
       h \<leftarrow> string_head (head_at s) p;
       k \<leftarrow> text_length (sh_chars h);
       if k < unat n
       then do {
         (c, s) \<leftarrow> laihost_malloc (n + 1) s;
         if c = 0 then Some (LAI_ERROR_OUT_OF_MEMORY, s)
         else do {
           cs \<leftarrow> put_bytes (raw_bytes (mem s) c (unat (n + 1))) 0 (take k (sh_chars h) @ [0]);
           s \<leftarrow> laihost_free (sh_content h) (sh_capacity h) s;
           Some (LAI_ERROR_NONE, set_head p (HString (h\<lparr>sh_content := c, sh_capacity := n + 1, sh_chars := cs\<rparr>)) s) } }
       else Some (LAI_ERROR_NONE, s) }
   | _ \<Rightarrow> Some (LAI_ERROR_TYPE_MISMATCH, s))"

definition lai_obj_resize_buffer :: "lai_variable \<Rightarrow> u64 \<Rightarrow> ('d, 'a) lai_obj_state_scheme \<Rightarrow>
    (lai_api_error \<times> ('d, 'a) lai_obj_state_scheme) option" where
  "lai_obj_resize_buffer v n s = (case v of
     VBuffer p \<Rightarrow> do {
       h \<leftarrow> buffer_head (head_at s) p;
       if bh_size h < n
       then do {
         (c, s) \<leftarrow> laihost_malloc n s;
         if c = 0 then Some (LAI_ERROR_OUT_OF_MEMORY, s)
         else do {
           bs \<leftarrow> put_bytes (replicate (unat n) 0) 0 (take (unat (bh_size h)) (bh_bytes h));
           s \<leftarrow> laihost_free (bh_content h) (bh_size h) s;
           Some (LAI_ERROR_NONE, set_head p (HBuffer (h\<lparr>bh_content := c, bh_bytes := bs, bh_size := n\<rparr>)) s) } }
       else Some (LAI_ERROR_NONE, set_head p (HBuffer (h\<lparr>bh_size := n\<rparr>)) s) }
   | _ \<Rightarrow> Some (LAI_ERROR_TYPE_MISMATCH, s))"

text \<open>
  Shrinking finalises the elements above the new size, which stay empty in the block.  The moves of a growing package
  leave the old elements empty.
\<close>

definition lai_obj_resize_pkg :: "lai_variable \<Rightarrow> u64 \<Rightarrow> ('d, 'a) lai_obj_state_scheme \<Rightarrow>
    (lai_api_error \<times> ('d, 'a) lai_obj_state_scheme) option" where
  "lai_obj_resize_pkg v n s = (case v of
     VPackage p \<Rightarrow> do {
       h \<leftarrow> pkg_head (head_at s) p;
       let sz = unat (ph_size h);
       if n \<le> ucast (ph_size h)
       then do {
         s \<leftarrow> finalize_list (List.drop (unat n) (take sz (ph_elems h)))
                (set_head p (HPkg (h\<lparr>ph_elems := take (unat n) (ph_elems h) @ replicate (sz - unat n) VNone @ List.drop sz (ph_elems h)\<rparr>)) s);
         h \<leftarrow> pkg_head (head_at s) p;
         Some (LAI_ERROR_NONE, set_head p (HPkg (h\<lparr>ph_size := ucast n\<rparr>)) s) }
       else do {
         (c, s) \<leftarrow> laihost_malloc (n * sizeof_lai_variable) s;
         if c = 0 then Some (LAI_ERROR_OUT_OF_MEMORY, s)
         else do {
           es \<leftarrow> put_bytes (replicate (unat n) VNone) 0 (take sz (ph_elems h));
           s \<leftarrow> laihost_free (ph_elems_ptr h) (ucast (ph_size h) * sizeof_lai_variable) s;
           Some (LAI_ERROR_NONE, set_head p (HPkg (h\<lparr>ph_elems_ptr := c, ph_elems := es, ph_size := ucast n\<rparr>)) s) } } }
   | _ \<Rightarrow> Some (LAI_ERROR_TYPE_MISMATCH, s))"

subsection \<open>Copies\<close>

definition lai_clone_buffer :: "lai_variable \<Rightarrow> ('d, 'a) lai_obj_state_scheme \<Rightarrow> (lai_variable \<times> ('d, 'a) lai_obj_state_scheme) option" where
  "lai_clone_buffer src s = do {
     n \<leftarrow> lai_exec_buffer_size (head_at s) src;
     (e, v, s) \<leftarrow> lai_create_buffer (of_nat n) s;
     if e \<noteq> LAI_ERROR_NONE then None
     else do { bs \<leftarrow> lai_exec_buffer_access (head_at s) src; s \<leftarrow> write_buffer v 0 (take n bs) s; Some (v, s) } }"

definition lai_clone_string :: "lai_variable \<Rightarrow> ('d, 'a) lai_obj_state_scheme \<Rightarrow> (lai_variable \<times> ('d, 'a) lai_obj_state_scheme) option" where
  "lai_clone_string src s = do {
     n \<leftarrow> lai_exec_string_length (head_at s) src;
     (e, v, s) \<leftarrow> lai_create_string (of_nat n) s;
     if e \<noteq> LAI_ERROR_NONE then None
     else do { cs \<leftarrow> lai_exec_string_access (head_at s) src; s \<leftarrow> write_string v 0 (take n cs) s; Some (v, s) } }"

text \<open>
  \<open>lai_clone_package\<close> creates the package before the copies of its elements; they take their places at the end, which
  nobody can observe.  A package that contains itself is copied forever.
\<close>

partial_function (option) clone_list :: "lai_variable list \<Rightarrow> ('d, 'a) lai_obj_state_scheme \<Rightarrow>
    (lai_variable list \<times> ('d, 'a) lai_obj_state_scheme) option" where
  "clone_list vs s = (case vs of [] \<Rightarrow> Some ([], s)
     | v # rest \<Rightarrow> do {
         (w, s) \<leftarrow> (case v of
             VString _ \<Rightarrow> lai_clone_string v s
           | VBuffer _ \<Rightarrow> lai_clone_buffer v s
           | VPackage p \<Rightarrow> do {
               h \<leftarrow> pkg_head (head_at s) p;
               (e, w, s) \<leftarrow> lai_create_pkg (ucast (ph_size h)) s;
               if e \<noteq> LAI_ERROR_NONE then None
               else do {
                 (es, s) \<leftarrow> clone_list (head_elems (HPkg h)) s;
                 case w of VPackage q \<Rightarrow> do { h' \<leftarrow> pkg_head (head_at s) q; Some (w, set_head q (HPkg (h'\<lparr>ph_elems := es\<rparr>)) s) } | _ \<Rightarrow> None } }
           | _ \<Rightarrow> do { hs \<leftarrow> add_ref v (head_at s); Some (v, s\<lparr>head_at := hs\<rparr>) });
         (ws, s) \<leftarrow> clone_list rest s;
         Some (w # ws, s) })"

definition lai_clone_package :: "lai_variable \<Rightarrow> ('d, 'a) lai_obj_state_scheme \<Rightarrow> (lai_variable \<times> ('d, 'a) lai_obj_state_scheme) option" where
  "lai_clone_package src s = (case src of VPackage _ \<Rightarrow> do { (ws, s) \<leftarrow> clone_list [src] s; Some (hd ws, s) } | _ \<Rightarrow> None)"

definition lai_obj_clone :: "lai_variable \<Rightarrow> lai_variable \<Rightarrow> ('d, 'a) lai_obj_state_scheme \<Rightarrow> (lai_variable \<times> ('d, 'a) lai_obj_state_scheme) option" where
  "lai_obj_clone dest source s =
     (let swapped = (\<lambda>temp s. do { let (dest, temp) = lai_swap_object dest temp; (_, s) \<leftarrow> lai_var_finalize temp s; Some (dest, s) })
      in case source of
        VString _ \<Rightarrow> do { (temp, s) \<leftarrow> lai_clone_string source s; swapped temp s }
      | VBuffer _ \<Rightarrow> do { (temp, s) \<leftarrow> lai_clone_buffer source s; swapped temp s }
      | VPackage _ \<Rightarrow> do { (temp, s) \<leftarrow> lai_clone_package source s; swapped temp s }
      | _ \<Rightarrow> lai_var_assign dest source s)"

end
