(* ===== verification/LaiRefs.thy ===== *)
theory LaiRefs
  imports LaiObject
begin

text \<open>
  Reference counting is exact: when every count is the number of variables that refer to the head, from outside or
  from the elements of live packages, then assigning, moving and finalising variables keeps it so, no assertion
  fails, and exactly the blocks of the heads that nobody refers to any more are freed.
\<close>

subsection \<open>Counting references\<close>

definition refs :: "addr \<Rightarrow> lai_variable multiset \<Rightarrow> nat" where
  "refs p M = size {#v \<in># M. counted v = Some p#}"

definition live :: "heads \<Rightarrow> addr set" where
  "live hs = {p. \<exists>h. hs p = Some h \<and> head_rc h \<noteq> 0}"

text \<open>The variables in the elements of live packages.\<close>

definition inner :: "heads \<Rightarrow> lai_variable multiset" where
  "inner hs = (\<Sum>p\<in>live hs. mset (head_elems (the (hs p))))"

definition typed :: "heads \<Rightarrow> lai_variable \<Rightarrow> bool" where
  "typed hs v \<longleftrightarrow> (\<forall>p. counted v = Some p \<longrightarrow> (\<exists>h. hs p = Some h \<and> head_rc h \<noteq> 0 \<and> right_kind v h))"

definition rc_ok :: "lai_variable multiset \<Rightarrow> heads \<Rightarrow> bool" where
  "rc_ok M hs \<longleftrightarrow> finite (dom hs) \<and> (\<forall>v\<in>#M + inner hs. typed hs v) \<and>
     (\<forall>p h. hs p = Some h \<longrightarrow> head_rc h = int (refs p (M + inner hs)))"

lemma refs_simps [simp]:
  "refs p {#} = 0" "refs p (M + N) = refs p M + refs p N" "refs p (add_mset v M) = (if counted v = Some p then 1 else 0) + refs p M"
  by (simp_all add: refs_def)

lemma set_rc_simps [simp]:
  "head_rc (set_rc n h) = n" "head_elems (set_rc n h) = head_elems h" "head_blocks p (set_rc n h) = head_blocks p h"
  "right_kind v (set_rc n h) = right_kind v h" "set_rc n (set_rc m h) = set_rc n h" "set_rc (head_rc h) h = h"
  by (cases h; cases v; simp)+

lemma finite_live: "finite (dom hs) \<Longrightarrow> finite (live hs)"
  by (rule finite_subset [of _ "dom hs"]) (auto simp: live_def)

lemma inner_set_rc:
  assumes "hs p = Some h" and "head_rc h \<noteq> 0" and "n \<noteq> 0"
  shows "inner (hs(p \<mapsto> set_rc n h)) = inner hs"
proof -
  have "live (hs(p \<mapsto> set_rc n h)) = live hs" using assms by (auto simp: live_def)
  then show ?thesis using assms(1) unfolding inner_def by (auto intro!: sum.cong)
qed

lemma inner_dead:
  assumes "finite (dom hs)" and "hs p = Some h" and "head_rc h \<noteq> 0"
  shows "inner hs = mset (head_elems h) + inner (hs(p \<mapsto> set_rc 0 h))"
proof -
  have "live (hs(p \<mapsto> set_rc 0 h)) = live hs - {p}" by (auto simp: live_def)
  moreover have "p \<in> live hs" using assms by (simp add: live_def)
  ultimately show ?thesis
    using sum.remove [of "live hs" p "\<lambda>q. mset (head_elems (the (hs q)))"] finite_live [OF assms(1)] assms(2)
    unfolding inner_def by (auto intro!: sum.cong)
qed

lemma inner_remove:
  assumes "hs p = Some h" and "head_rc h = 0"
  shows "inner (hs(p := None)) = inner hs"
proof -
  have "live (hs(p := None)) = live hs" using assms by (auto simp: live_def)
  moreover have "p \<notin> live hs" using assms by (simp add: live_def)
  ultimately show ?thesis unfolding inner_def by (auto intro!: sum.cong)
qed

lemma typed_pos: "typed hs v \<Longrightarrow> counted v = Some p \<Longrightarrow> \<exists>h. hs p = Some h \<and> head_rc h \<noteq> 0 \<and> right_kind v h"
  by (simp add: typed_def)

lemma no_refs_untyped: "refs p M = 0 \<Longrightarrow> v \<in># M \<Longrightarrow> counted v \<noteq> Some p"
  by (auto simp: refs_def multiset_eq_iff) (metis not_in_iff)

subsection \<open>Dropping references\<close>

lemma rc_ok_head:
  assumes "rc_ok (add_mset v M) hs" and "counted v = Some p"
  obtains h where "hs p = Some h" "right_kind v h" "head_rc h = 1 + int (refs p (M + inner hs))" "counted_head hs v p = Some h"
  using assms typed_pos [of hs v p] by (fastforce simp: rc_ok_def counted_head_def)

lemma rc_ok_uncounted: "rc_ok (add_mset v M) hs \<Longrightarrow> counted v = None \<Longrightarrow> rc_ok M hs"
  by (simp add: rc_ok_def)

lemma typed_set_rc: "hs p = Some h \<Longrightarrow> n \<noteq> 0 \<Longrightarrow> typed hs v \<Longrightarrow> typed (hs(p \<mapsto> set_rc n h)) v"
  by (auto simp: typed_def)

lemma rc_ok_unref:
  assumes ok: "rc_ok (add_mset v M) hs" and v: "counted v = Some p" "hs p = Some h" and n: "head_rc h = n + 1" "n \<noteq> 0"
  shows "rc_ok M (hs(p \<mapsto> set_rc n h))"
proof -
  have "head_rc h \<noteq> 0" using ok v by (auto simp: rc_ok_def)
  then have inner: "inner (hs(p \<mapsto> set_rc n h)) = inner hs" using inner_set_rc v(2) n(2) by blast
  have "typed (hs(p \<mapsto> set_rc n h)) w" if "typed hs w" for w using typed_set_rc v(2) n(2) that by blast
  then show ?thesis using ok v n unfolding rc_ok_def inner by (auto simp: dom_def)
qed

lemma rc_ok_last:
  assumes ok: "rc_ok (add_mset v M) hs" and v: "counted v = Some p" "hs p = Some h" and n: "head_rc h = 1"
  shows "rc_ok (mset (head_elems h) + M) (hs(p \<mapsto> set_rc 0 h))"
proof -
  let ?hs = "hs(p \<mapsto> set_rc 0 h)"
  have fin: "finite (dom hs)" using ok by (simp add: rc_ok_def)
  have inner: "inner hs = mset (head_elems h) + inner ?hs" using n by (intro inner_dead [OF fin v(2)]) simp
  have rc: "head_rc h' = int (refs q (add_mset v M + inner hs))" if "hs q = Some h'" for q h' using ok that by (simp add: rc_ok_def)
  have none: "refs p (M + inner hs) = 0" using rc [OF v(2)] v(1) n by simp
  have "typed ?hs w" if w: "w \<in># mset (head_elems h) + M + inner ?hs" for w
  proof -
    have "w \<in># M + inner hs" using w by (auto simp: inner)
    then have "counted w \<noteq> Some p" "typed hs w" using no_refs_untyped [OF none] ok by (auto simp: rc_ok_def)
    then show ?thesis by (auto simp: typed_def)
  qed
  moreover have "head_rc h' = int (refs q (mset (head_elems h) + M + inner ?hs))" if "?hs q = Some h'" for q h'
    using rc [of q h'] that none v(1) by (cases "q = p") (auto simp: inner)
  ultimately show ?thesis using fin by (simp add: rc_ok_def dom_def insert_Collect)
qed

lemma rc_ok_remove:
  assumes ok: "rc_ok M hs" and p: "hs p = Some h" "head_rc h = 0"
  shows "rc_ok M (hs(p := None))"
proof -
  have inner: "inner (hs(p := None)) = inner hs" using inner_remove p by blast
  have "refs p (M + inner hs) = 0" using ok p by (auto simp: rc_ok_def)
  then have "typed (hs(p := None)) v" if "v \<in># M + inner hs" for v
    using ok that no_refs_untyped [of p _ v] unfolding rc_ok_def by (fastforce simp: typed_def)
  then show ?thesis using ok unfolding rc_ok_def inner by (auto simp: dom_def)
qed

subsection \<open>Finalising\<close>

text \<open>The heads that remain are the old ones up to their counts, the dying ones are untouched.\<close>

definition remains :: "heads \<Rightarrow> heads \<Rightarrow> bool" where
  "remains hs hs' \<longleftrightarrow> (\<forall>p h'. hs' p = Some h' \<longrightarrow> (\<exists>h. hs p = Some h \<and> h' = set_rc (head_rc h') h \<and> (head_rc h' = 0 \<longrightarrow> head_rc h = 0))) \<and>
     (\<forall>p h. hs p = Some h \<longrightarrow> head_rc h = 0 \<longrightarrow> hs' p = Some h)"

definition gone_blocks :: "heads \<Rightarrow> heads \<Rightarrow> (addr \<times> u64) multiset" where
  "gone_blocks hs hs' = (\<Sum>p\<in>dom hs - dom hs'. mset (head_blocks p (the (hs p))))"

lemma remains_refl: "remains hs hs"
  by (simp add: remains_def)

lemma remains_trans: "remains hs hs' \<Longrightarrow> remains hs' hs'' \<Longrightarrow> remains hs hs''"
  unfolding remains_def by (metis set_rc_simps(5))

lemma remains_dom: "remains hs hs' \<Longrightarrow> dom hs' \<subseteq> dom hs"
  unfolding remains_def by blast

lemma remains_set_rc: "hs p = Some h \<Longrightarrow> head_rc h \<noteq> 0 \<Longrightarrow> n \<noteq> 0 \<Longrightarrow> remains hs (hs(p \<mapsto> set_rc n h))"
  by (auto simp: remains_def)

lemma gone_blocks_trans:
  assumes "finite (dom hs)" and "remains hs hs'" and "remains hs' hs''"
  shows "gone_blocks hs hs'' = gone_blocks hs hs' + gone_blocks hs' hs''"
proof -
  have "dom hs - dom hs'' = (dom hs - dom hs') \<union> (dom hs' - dom hs'')"
    using remains_dom [OF assms(2)] remains_dom [OF assms(3)] by blast
  moreover have "finite (dom hs')" using finite_subset [OF remains_dom [OF assms(2)] assms(1)] .
  moreover have "head_blocks p (the (hs p)) = head_blocks p (the (hs' p))" if "p \<in> dom hs'" for p
    using assms(2) that unfolding remains_def by (metis domD option.sel set_rc_simps(3))
  moreover have "(dom hs - dom hs') \<inter> (dom hs' - dom hs'') = {}" by blast
  ultimately show ?thesis using assms(1) by (simp add: gone_blocks_def sum.union_disjoint)
qed

text \<open>A head whose last reference is dropped: its elements are released while it is dying, then it is removed.\<close>

lemma last_reference:
  assumes fin: "finite (dom hs)" and p: "hs p = Some h" "head_rc h \<noteq> 0"
    and r: "remains (hs(p \<mapsto> set_rc 0 h)) hs1" "mset fs = gone_blocks (hs(p \<mapsto> set_rc 0 h)) hs1"
  shows "hs1 p = Some (set_rc 0 h)" "remains hs (hs1(p := None))"
    "gone_blocks hs (hs1(p := None)) = mset (fs @ head_blocks p h)"
proof -
  show hs1: "hs1 p = Some (set_rc 0 h)" using r(1) by (auto simp: remains_def)
  show "remains hs (hs1(p := None))" using r(1) p unfolding remains_def by (auto split: if_splits) metis
  have "dom hs - dom (hs1(p := None)) = insert p (dom (hs(p \<mapsto> set_rc 0 h)) - dom hs1)" using hs1 p(1) by auto
  moreover have "p \<notin> dom (hs(p \<mapsto> set_rc 0 h)) - dom hs1" using hs1 by auto
  moreover have "(\<Sum>q\<in>dom (hs(p \<mapsto> set_rc 0 h)) - dom hs1. mset (head_blocks q (the (hs q)))) = mset fs"
    unfolding r(2) gone_blocks_def by (rule sum.cong) (use p(1) in auto)
  ultimately show "gone_blocks hs (hs1(p := None)) = mset (fs @ head_blocks p h)"
    using fin p(1) by (simp add: gone_blocks_def)
qed

definition released :: "lai_variable list \<Rightarrow> lai_variable multiset \<Rightarrow> heads \<Rightarrow> bool" where
  "released vs M hs \<longleftrightarrow> (\<exists>hs' fs. release vs hs = Some (hs', fs) \<and> rc_ok M hs' \<and> remains hs hs' \<and> mset fs = gone_blocks hs hs')"

lemma released_last:
  assumes ok: "rc_ok (add_mset v (mset vs + M)) hs" and v: "counted v = Some p" "hs p = Some h" "counted_head hs v p = Some h" "head_rc h = 1"
    and rest: "\<And>hs'. card (live hs') \<le> card (live hs) \<Longrightarrow> rc_ok (mset vs + M) hs' \<Longrightarrow> released vs M hs'"
    and nested: "\<And>ws N hs'. card (live hs') < card (live hs) \<Longrightarrow> rc_ok (mset ws + N) hs' \<Longrightarrow> released ws N hs'"
  shows "released (v # vs) M hs"
proof -
  let ?hs = "hs(p \<mapsto> set_rc 0 h)"
  have fin: "finite (dom hs)" using ok by (simp add: rc_ok_def)
  have live: "live ?hs = live hs - {p}" "p \<in> live hs" using v by (auto simp: live_def)
  have card: "card (live ?hs) < card (live hs)" unfolding live(1) using live(2) finite_live [OF fin] by (rule card_Diff1_less_iff [THEN iffD2, OF conjI, rotated])
  have "rc_ok (mset (head_elems h) + (mset vs + M)) ?hs" by (rule rc_ok_last [OF ok v(1,2,4)])
  from nested [OF card this] obtain hs1 fs1 where r1: "release (head_elems h) ?hs = Some (hs1, fs1)" "rc_ok (mset vs + M) hs1"
    "remains ?hs hs1" "mset fs1 = gone_blocks ?hs hs1" unfolding released_def by blast
  have p1: "hs1 p = Some (set_rc 0 h)" "remains hs (hs1(p := None))" "gone_blocks hs (hs1(p := None)) = mset (fs1 @ head_blocks p h)"
    using last_reference [OF fin v(2) _ r1(3,4)] v(4) by auto
  have ok2: "rc_ok (mset vs + M) (hs1(p := None))" using rc_ok_remove [OF r1(2) p1(1)] by simp
  have "live (hs1(p := None)) \<subseteq> live hs" using p1(2) unfolding remains_def live_def by (auto split: if_splits) (metis)
  then have "card (live (hs1(p := None))) \<le> card (live hs)" using finite_live [OF fin] by (intro card_mono)
  from rest [OF this ok2] obtain hs2 fs2 where r2: "release vs (hs1(p := None)) = Some (hs2, fs2)" "rc_ok M hs2"
    "remains (hs1(p := None)) hs2" "mset fs2 = gone_blocks (hs1(p := None)) hs2" unfolding released_def by blast
  have "release (v # vs) hs = Some (hs2, fs1 @ head_blocks p h @ fs2)"
    using v r1(1) r2(1) by (subst release.simps) (simp add: lai_rc_unref_def Let_def)
  moreover have "mset (fs1 @ head_blocks p h @ fs2) = gone_blocks hs hs2"
    using gone_blocks_trans [OF fin p1(2) r2(3)] p1(3) r2(4) by simp
  ultimately show ?thesis using r2(2) remains_trans [OF p1(2) r2(3)] unfolding released_def by blast
qed

lemma released_Cons:
  assumes ok: "rc_ok (add_mset v (mset vs + M)) hs"
    and rest: "\<And>hs'. card (live hs') \<le> card (live hs) \<Longrightarrow> rc_ok (mset vs + M) hs' \<Longrightarrow> released vs M hs'"
    and nested: "\<And>ws N hs'. card (live hs') < card (live hs) \<Longrightarrow> rc_ok (mset ws + N) hs' \<Longrightarrow> released ws N hs'"
  shows "released (v # vs) M hs"
proof (cases "counted v")
  case None
  then show ?thesis using rest [of hs] rc_ok_uncounted [OF ok] unfolding released_def by (subst release.simps) simp
next
  case (Some p)
  then obtain h where h: "hs p = Some h" "head_rc h = 1 + int (refs p (mset vs + M + inner hs))" "counted_head hs v p = Some h"
    using rc_ok_head [OF ok] by blast
  show ?thesis
  proof (cases "head_rc h = 1")
    case True
    then show ?thesis using released_last [OF ok Some h(1,3) _ rest nested] by blast
  next
    case False
    let ?hs = "hs(p \<mapsto> set_rc (head_rc h - 1) h)"
    have "rc_ok (mset vs + M) ?hs" using False h by (intro rc_ok_unref [OF ok Some]) auto
    moreover have "live ?hs = live hs" using h False by (auto simp: live_def)
    ultimately obtain hs' fs where r: "release vs ?hs = Some (hs', fs)" "rc_ok M hs'" "remains ?hs hs'" "mset fs = gone_blocks ?hs hs'"
      using rest [of ?hs] unfolding released_def by auto
    have rem: "remains hs ?hs" using remains_set_rc [of hs p h "head_rc h - 1"] h(1,2) False by auto
    have "dom ?hs = dom hs" using h(1) by auto
    then have "gone_blocks hs ?hs = {#}" by (simp add: gone_blocks_def)
    then have "mset fs = gone_blocks hs hs'" using gone_blocks_trans [OF _ rem r(3)] r(4) ok by (simp add: rc_ok_def)
    moreover have "release (v # vs) hs = Some (hs', fs)"
      using Some h False r(1) by (subst release.simps) (simp add: lai_rc_unref_def Let_def)
    ultimately show ?thesis using r(2) remains_trans [OF rem r(3)] unfolding released_def by blast
  qed
qed

lemma release_ok: "rc_ok (mset vs + M) hs \<Longrightarrow> released vs M hs"
proof (induction "card (live hs)" arbitrary: vs M hs rule: less_induct)
  case (less hs)
  have "card (live hs') \<le> card (live hs) \<Longrightarrow> rc_ok (mset vs + M) hs' \<Longrightarrow> released vs M hs'" for hs'
  proof (induction vs arbitrary: hs')
    case Nil
    then show ?case unfolding released_def by (subst release.simps) (simp add: remains_refl gone_blocks_def)
  next
    case (Cons v vs)
    have "rc_ok (add_mset v (mset vs + M)) hs'" using Cons.prems(2) by simp
    then show ?case
    proof (rule released_Cons)
      show "released vs M hs''" if "card (live hs'') \<le> card (live hs')" "rc_ok (mset vs + M) hs''" for hs''
        using Cons.IH that Cons.prems(1) by simp
      show "released ws N hs''" if "card (live hs'') < card (live hs')" "rc_ok (mset ws + N) hs''" for ws N hs''
        using less.hyps that Cons.prems(1) by simp
    qed
  qed
  with less.prems show ?case by simp
qed

subsection \<open>Assignment\<close>

definition all_live :: "heads \<Rightarrow> bool" where
  "all_live hs \<longleftrightarrow> (\<forall>p h. hs p = Some h \<longrightarrow> head_rc h \<noteq> 0)"

lemma remains_all_live: "remains hs hs' \<Longrightarrow> all_live hs \<Longrightarrow> all_live hs'"
  unfolding remains_def all_live_def by blast

lemma rc_ok_typed: "rc_ok M hs \<Longrightarrow> v \<in># M + inner hs \<Longrightarrow> typed hs v"
  by (auto simp: rc_ok_def)

lemma rc_ok_ref:
  assumes ok: "rc_ok M hs" and v: "v \<in># M + inner hs" "counted v = Some p" "hs p = Some h"
  shows "rc_ok (add_mset v M) (hs(p \<mapsto> set_rc (head_rc h + 1) h))" "0 < head_rc h" "right_kind v h"
proof -
  have h: "head_rc h \<noteq> 0" "right_kind v h" using typed_pos [OF rc_ok_typed [OF ok v(1)] v(2)] v(3) by auto
  moreover have "head_rc h = int (refs p (M + inner hs))" using ok v(3) by (simp add: rc_ok_def)
  ultimately show "0 < head_rc h" "right_kind v h" by auto
  then have n: "head_rc h + 1 \<noteq> 0" by simp
  have inner: "inner (hs(p \<mapsto> set_rc (head_rc h + 1) h)) = inner hs" using inner_set_rc v(3) h(1) n by blast
  have "typed (hs(p \<mapsto> set_rc (head_rc h + 1) h)) w" if "typed hs w" for w using typed_set_rc v(3) n that by blast
  then show "rc_ok (add_mset v M) (hs(p \<mapsto> set_rc (head_rc h + 1) h))"
    using ok v(1,2,3) unfolding rc_ok_def inner by (auto simp: dom_def)
qed

lemma add_ref_ok:
  assumes ok: "rc_ok M hs" and v: "v \<in># M + inner hs"
  shows "\<exists>hs'. add_ref v hs = Some hs' \<and> rc_ok (add_mset v M) hs' \<and> remains hs hs' \<and> dom hs' = dom hs \<and>
    (\<forall>p h. hs p = Some h \<longrightarrow> (\<exists>n. hs' p = Some (set_rc n h)))"
proof (cases "counted v")
  case None
  then have "rc_ok (add_mset v M) hs" using ok v by (auto simp: rc_ok_def)
  moreover have "\<exists>n. hs p = Some (set_rc n h)" if "hs p = Some h" for p h using that set_rc_simps(6) [of h] by metis
  ultimately show ?thesis using None by (simp add: add_ref_def remains_refl)
next
  case (Some p)
  then obtain h where h: "hs p = Some h" using typed_pos [OF rc_ok_typed [OF ok v]] by auto
  let ?hs = "hs(p \<mapsto> set_rc (head_rc h + 1) h)"
  have r: "rc_ok (add_mset v M) ?hs" "0 < head_rc h" "right_kind v h" using rc_ok_ref [OF ok v Some h] by auto
  then have "add_ref v hs = Some ?hs" using Some h by (simp add: add_ref_def counted_head_def lai_rc_ref_def)
  moreover have "remains hs ?hs" using remains_set_rc [of hs p h "head_rc h + 1"] h r(2) by auto
  moreover have "\<exists>n. ?hs q = Some (set_rc n g)" if "hs q = Some g" for q g
    using that h set_rc_simps(6) [of g] by (cases "q = p") (auto intro: exI [of _ "head_rc g"])
  ultimately show ?thesis using r(1) h by (intro exI [of _ ?hs]) auto
qed

lemma gone_blocks_same_dom: "dom hs1 = dom hs \<Longrightarrow> remains hs hs1 \<Longrightarrow> finite (dom hs) \<Longrightarrow> remains hs1 hs' \<Longrightarrow> gone_blocks hs hs' = gone_blocks hs1 hs'"
  using gone_blocks_trans [of hs hs1 hs'] by (simp add: gone_blocks_def)


lemma mset_exchange: "i < length xs \<Longrightarrow> add_mset (xs ! i) (mset (xs[i := v])) = add_mset v (mset xs)"
  by (simp add: mset_update add_mset_commute [of "xs ! i" v])

text \<open>An element of a live package changes places with a variable outside.\<close>

lemma inner_exchange:
  assumes fin: "finite (dom hs)" and p: "hs p = Some (HPkg h)" "ph_rc h \<noteq> 0" and i: "i < length (ph_elems h)" "i < unat (ph_size h)"
  shows "add_mset (ph_elems h ! i) (inner (hs(p \<mapsto> HPkg (h\<lparr>ph_elems := (ph_elems h)[i := v]\<rparr>)))) = add_mset v (inner hs)"
proof -
  let ?h = "HPkg (h\<lparr>ph_elems := (ph_elems h)[i := v]\<rparr>)"
  have live: "live (hs(p \<mapsto> ?h)) = live hs" "p \<in> live hs" using p by (auto simp: live_def)
  have split: "inner hs = mset (head_elems (HPkg h)) + (\<Sum>q\<in>live hs - {p}. mset (head_elems (the (hs q))))"
    using sum.remove [OF finite_live [OF fin] live(2), of "\<lambda>q. mset (head_elems (the (hs q)))"] p(1) by (simp add: inner_def)
  have "inner (hs(p \<mapsto> ?h)) = mset (head_elems ?h) + (\<Sum>q\<in>live hs - {p}. mset (head_elems (the ((hs(p \<mapsto> ?h)) q))))"
    using sum.remove [OF finite_live [OF fin] live(2), of "\<lambda>q. mset (head_elems (the ((hs(p \<mapsto> ?h)) q)))"] by (simp add: inner_def live(1))
  moreover have "(\<Sum>q\<in>live hs - {p}. mset (head_elems (the ((hs(p \<mapsto> ?h)) q)))) = (\<Sum>q\<in>live hs - {p}. mset (head_elems (the (hs q))))"
    by (rule sum.cong) auto
  moreover have "add_mset (ph_elems h ! i) (mset (head_elems ?h)) = add_mset v (mset (head_elems (HPkg h)))"
    using mset_exchange [of i "take (unat (ph_size h)) (ph_elems h)" v] i by (simp add: take_update_swap)
  ultimately show ?thesis unfolding split by (simp only:) (metis union_mset_add_mset_left)
qed

lemma rc_ok_exchange:
  assumes ok: "rc_ok (add_mset v M) hs" and p: "hs p = Some (HPkg h)" "ph_rc h \<noteq> 0" and i: "i < length (ph_elems h)" "i < unat (ph_size h)"
  shows "rc_ok (add_mset (ph_elems h ! i) M) (hs(p \<mapsto> HPkg (h\<lparr>ph_elems := (ph_elems h)[i := v]\<rparr>)))"
proof -
  let ?hs = "hs(p \<mapsto> HPkg (h\<lparr>ph_elems := (ph_elems h)[i := v]\<rparr>))"
  have "finite (dom hs)" using ok by (simp add: rc_ok_def)
  then have all: "add_mset (ph_elems h ! i) M + inner ?hs = add_mset v M + inner hs"
    using inner_exchange [of hs p h i v] p i by simp
  have "typed ?hs w" if ty: "typed hs w" for w
  proof (unfold typed_def, intro allI impI)
    fix q assume "counted w = Some q"
    then obtain g where "hs q = Some g" "head_rc g \<noteq> 0" "right_kind w g" using typed_pos [OF ty] by blast
    with p show "\<exists>g. ?hs q = Some g \<and> head_rc g \<noteq> 0 \<and> right_kind w g" by (cases "q = p"; cases w; auto)
  qed
  moreover have "head_rc g = int (refs q (add_mset v M + inner hs))" if "?hs q = Some g" for q g
  proof -
    have "\<exists>g'. hs q = Some g' \<and> head_rc g' = head_rc g" using that p(1) by (cases "q = p") auto
    then show ?thesis using ok by (auto simp: rc_ok_def)
  qed
  ultimately show ?thesis using ok unfolding rc_ok_def all by (auto simp: dom_def)
qed

text \<open>Storing a variable into an element of a package keeps every reference count exact, also when the package contains
  itself or is only kept alive by the element that is overwritten.\<close>

theorem lai_exec_pkg_store_counts:
  assumes "rc_ok (add_mset v R) (head_at s)" and "all_live (head_at s)"
    and "pkg_head (head_at s) p = Some h" and "i < length (ph_elems h)" and "i < unat (ph_size h)"
  shows "\<exists>hs' fs. lai_exec_pkg_store v (VPackage p) i s = free_all fs (s\<lparr>head_at := hs'\<rparr>) \<and>
    rc_ok (add_mset v R) hs' \<and> all_live hs' \<and> (hs' p \<noteq> None \<longrightarrow> (\<exists>h'. pkg_head hs' p = Some h' \<and> ph_elems h' = (ph_elems h)[i := v]))"
proof -
  obtain hs1 where hs1: "add_ref v (head_at s) = Some hs1" "rc_ok (add_mset v (add_mset v R)) hs1" "remains (head_at s) hs1"
    "\<forall>p h. head_at s p = Some h \<longrightarrow> (\<exists>n. hs1 p = Some (set_rc n h))" using add_ref_ok [OF assms(1), of v] by auto
  have p: "head_at s p = Some (HPkg h)" using assms(3) by (auto simp: pkg_head_def split: option.splits lai_head.splits)
  then obtain n where n: "hs1 p = Some (HPkg (h\<lparr>ph_rc := n\<rparr>))" using hs1(4) by fastforce
  have live1: "all_live hs1" using remains_all_live [OF hs1(3) assms(2)] .
  have "n \<noteq> 0" using live1 [unfolded all_live_def, rule_format, OF n] by simp
  let ?h = "h\<lparr>ph_rc := n, ph_elems := (ph_elems h)[i := v]\<rparr>" and ?w = "ph_elems h ! i"
  have "all_live (hs1(p \<mapsto> HPkg ?h))" using live1 \<open>n \<noteq> 0\<close> by (auto simp: all_live_def)
  let ?hs2 = "hs1(p \<mapsto> HPkg ?h)"
  have "rc_ok (mset [?w] + add_mset v R) ?hs2"
    using rc_ok_exchange [OF hs1(2) n, of i] assms(4,5) \<open>n \<noteq> 0\<close> by (simp add: add_mset_commute [of v])
  from release_ok [OF this] obtain hs' fs where r: "release [?w] ?hs2 = Some (hs', fs)" "rc_ok (add_mset v R) hs'" "remains ?hs2 hs'"
    unfolding released_def by blast
  have "all_live hs'" by (rule remains_all_live [OF r(3)]) fact
  moreover have "lai_exec_pkg_store v (VPackage p) i s = free_all fs (s\<lparr>head_at := hs'\<rparr>)"
    using hs1(1) n assms(4) r(1) by (simp add: lai_exec_pkg_store_def lai_exec_pkg_var_store_def pkg_head_def finalize_list_def)
  moreover have "\<exists>h'. pkg_head hs' p = Some h' \<and> ph_elems h' = (ph_elems h)[i := v]" if hp: "hs' p \<noteq> None"
  proof -
    obtain g where g: "hs' p = Some g" using hp by auto
    then obtain f where "?hs2 p = Some f" "g = set_rc (head_rc g) f" using r(3) unfolding remains_def by blast
    then have "g = set_rc (head_rc g) (HPkg ?h)" by simp
    then have "g = HPkg (?h\<lparr>ph_rc := head_rc g\<rparr>)" by (simp only: set_rc.simps)
    then obtain k where "g = HPkg (?h\<lparr>ph_rc := k\<rparr>)" by blast
    with g show ?thesis by (simp add: pkg_head_def)
  qed
  ultimately show ?thesis using r(2) by blast
qed

subsection \<open>Creation\<close>

text \<open>Room for new objects: a hole of the heap, and every live head is a used block.\<close>

definition obj_room :: "('d, 'a) lai_obj_state_scheme \<Rightarrow> block list \<Rightarrow> nat \<Rightarrow> bool" where
  "obj_room s bs k \<longleftrightarrow> heap_room s bs k \<and> (\<forall>p\<in>dom (head_at s). \<exists>u\<in>set bs. \<not> b_hole u \<and> p = b_pos u + 16)"

lemma obj_frame: "heap_state.more s' = heap_state.more s \<Longrightarrow> head_at s' = head_at s \<and> node_at s' = node_at s" for s s' :: "('d, 'a) lai_obj_state_scheme"
  by (cases s; cases s') (simp add: heap_state.defs)

lemma obj_malloc:
  assumes "obj_room s bs k" and "unat n + 64 \<le> k"
  shows "\<exists>r s' bs'. laihost_malloc n s = Some (r, s') \<and> r \<noteq> 0 \<and> obj_room s' bs' (k - (unat n + 32)) \<and> head_at s' = head_at s \<and>
    node_at s' = node_at s \<and> head_at s r = None \<and> (\<exists>u\<in>set bs'. \<not> b_hole u \<and> r = b_pos u + 16) \<and> (\<forall>c\<in>set bs. \<not> b_hole c \<longrightarrow> c \<in> set bs')"
proof -
  let ?n = "ucast n :: u32"
  have le: "unat ?n \<le> unat n" by (simp add: unsigned_ucast_eq take_bit_eq_mod)
  then have "unat ?n + 64 \<le> k" using assms(2) by simp
  with assms(1) obtain r s' bs' where r: "kmalloc ?n s = Some (r, s')" "r \<noteq> 0" "heap_room s' bs' (k - (unat ?n + 32))"
    "heap_state.more s' = heap_state.more s" "\<exists>u\<in>set bs'. \<not> b_hole u \<and> r = b_pos u + 16"
    "\<forall>c\<in>set bs. \<not> b_hole c \<longrightarrow> c \<in> set bs' \<and> r \<noteq> b_pos c + 16" using kmalloc_room [of s bs k ?n] by (auto simp: obj_room_def)
  have "heap_room s' bs' (k - (unat n + 32))" using r(3) le unfolding heap_room_def by (meson diff_le_mono2 add_le_mono1 le_trans)
  moreover have "head_at s' = head_at s" "node_at s' = node_at s" using obj_frame [OF r(4)] by simp_all
  moreover have "head_at s r = None" using assms(1) r(6) unfolding obj_room_def by (metis domIff)
  ultimately show ?thesis using r assms(1) unfolding obj_room_def laihost_malloc_def by (metis (no_types, lifting))
qed

lemma obj_room_head:
  assumes "obj_room s bs k" and "u \<in> set bs" "\<not> b_hole u" "r = b_pos u + 16"
  shows "obj_room (set_head r h s) bs k"
  using assms by (auto simp: obj_room_def heap_room_def set_head_def)

text \<open>Two allocations, the head and its contents.\<close>

lemma obj_malloc_twice:
  assumes "obj_room s bs k" and "unat n + unat m + 96 \<le> k"
  shows "\<exists>p c s1 s' bs'. laihost_malloc n s = Some (p, s1) \<and> p \<noteq> 0 \<and> laihost_malloc m s1 = Some (c, s') \<and> c \<noteq> 0 \<and> head_at s p = None \<and>
    head_at s' = head_at s \<and> node_at s' = node_at s \<and> (\<forall>h. obj_room (set_head p h s') bs' (k - (unat n + unat m + 64)))"
proof -
  have "unat n + 64 \<le> k" using assms(2) by simp
  from obj_malloc [OF assms(1) this] obtain p s1 bs1 u where p: "laihost_malloc n s = Some (p, s1)" "p \<noteq> 0"
    "obj_room s1 bs1 (k - (unat n + 32))" "head_at s1 = head_at s" "node_at s1 = node_at s" "head_at s p = None"
    "u \<in> set bs1" "\<not> b_hole u" "p = b_pos u + 16" by blast
  have "unat m + 64 \<le> k - (unat n + 32)" using assms(2) by simp
  from obj_malloc [OF p(3) this] obtain c s' bs' where c: "laihost_malloc m s1 = Some (c, s')" "c \<noteq> 0"
    "obj_room s' bs' (k - (unat n + 32) - (unat m + 32))" "head_at s' = head_at s1" "node_at s' = node_at s1"
    "\<forall>c\<in>set bs1. \<not> b_hole c \<longrightarrow> c \<in> set bs'" by blast
  have "k - (unat n + 32) - (unat m + 32) = k - (unat n + unat m + 64)" by simp
  then have "obj_room (set_head p h s') bs' (k - (unat n + unat m + 64))" for h
    using obj_room_head [OF c(3), of u p h] c(6) p(7,8,9) by simp
  then show ?thesis using p(1,2,4,5,6) c(1,2,4,5) by metis
qed

lemma create_string_ok:
  assumes "obj_room s bs k" and "unat (n + 1) + 120 \<le> k"
  shows "\<exists>p c s' bs'. lai_create_string n s = Some (LAI_ERROR_NONE, VString p, s') \<and> head_at s p = None \<and> node_at s' = node_at s \<and>
    head_at s' = (head_at s)(p \<mapsto> HString \<lparr>sh_rc = 1, sh_capacity = n + 1, sh_content = c, sh_chars = replicate (unat (n + 1)) 0\<rparr>) \<and> obj_room s' bs' (k - (unat (n + 1) + 88))"
proof -
  have "unat sizeof_lai_string_head + unat (n + 1) + 96 \<le> k" using assms(2) by (simp add: sizeof_lai_string_head_def)
  from obj_malloc_twice [OF assms(1) this] obtain p c s1 s' bs' where m: "laihost_malloc sizeof_lai_string_head s = Some (p, s1)" "p \<noteq> 0"
    "laihost_malloc (n + 1) s1 = Some (c, s')" "c \<noteq> 0" "head_at s p = None" "head_at s' = head_at s" "node_at s' = node_at s"
    "\<forall>h. obj_room (set_head p h s') bs' (k - (unat sizeof_lai_string_head + unat (n + 1) + 64))" by blast
  let ?s = "set_head p (HString \<lparr>sh_rc = 1, sh_capacity = n + 1, sh_content = c, sh_chars = replicate (unat (n + 1)) 0\<rparr>) s'"
  have "lai_create_string n s = Some (LAI_ERROR_NONE, VString p, ?s)" using m(1-4) by (simp add: lai_create_string_def)
  moreover have "obj_room ?s bs' (k - (unat (n + 1) + 88))"
    using m(8) [rule_format, of "HString \<lparr>sh_rc = 1, sh_capacity = n + 1, sh_content = c, sh_chars = replicate (unat (n + 1)) 0\<rparr>"] by (simp add: sizeof_lai_string_head_def add.commute [of _ "unat (n + 1)"])
  moreover have "head_at ?s = (head_at s)(p \<mapsto> HString \<lparr>sh_rc = 1, sh_capacity = n + 1, sh_content = c, sh_chars = replicate (unat (n + 1)) 0\<rparr>)" "node_at ?s = node_at s" using m(6,7) by (simp_all add: set_head_def)
  ultimately show ?thesis using m(5) by blast
qed

lemma create_buffer_ok:
  assumes "obj_room s bs k" and "unat (n) + 120 \<le> k"
  shows "\<exists>p c s' bs'. lai_create_buffer n s = Some (LAI_ERROR_NONE, VBuffer p, s') \<and> head_at s p = None \<and> node_at s' = node_at s \<and>
    head_at s' = (head_at s)(p \<mapsto> HBuffer \<lparr>bh_rc = 1, bh_size = n, bh_content = c, bh_bytes = replicate (unat n) 0\<rparr>) \<and> obj_room s' bs' (k - (unat (n) + 88))"
proof -
  have "unat sizeof_lai_buffer_head + unat (n) + 96 \<le> k" using assms(2) by (simp add: sizeof_lai_buffer_head_def)
  from obj_malloc_twice [OF assms(1) this] obtain p c s1 s' bs' where m: "laihost_malloc sizeof_lai_buffer_head s = Some (p, s1)" "p \<noteq> 0"
    "laihost_malloc (n) s1 = Some (c, s')" "c \<noteq> 0" "head_at s p = None" "head_at s' = head_at s" "node_at s' = node_at s"
    "\<forall>h. obj_room (set_head p h s') bs' (k - (unat sizeof_lai_buffer_head + unat (n) + 64))" by blast
  let ?s = "set_head p (HBuffer \<lparr>bh_rc = 1, bh_size = n, bh_content = c, bh_bytes = replicate (unat n) 0\<rparr>) s'"
  have "lai_create_buffer n s = Some (LAI_ERROR_NONE, VBuffer p, ?s)" using m(1-4) by (simp add: lai_create_buffer_def)
  moreover have "obj_room ?s bs' (k - (unat (n) + 88))"
    using m(8) [rule_format, of "HBuffer \<lparr>bh_rc = 1, bh_size = n, bh_content = c, bh_bytes = replicate (unat n) 0\<rparr>"] by (simp add: sizeof_lai_buffer_head_def add.commute [of _ "unat (n)"])
  moreover have "head_at ?s = (head_at s)(p \<mapsto> HBuffer \<lparr>bh_rc = 1, bh_size = n, bh_content = c, bh_bytes = replicate (unat n) 0\<rparr>)" "node_at ?s = node_at s" using m(6,7) by (simp_all add: set_head_def)
  ultimately show ?thesis using m(5) by blast
qed

lemma create_pkg_ok:
  assumes "obj_room s bs k" and "unat (n * sizeof_lai_variable) + 112 \<le> k"
  shows "\<exists>p c s' bs'. lai_create_pkg n s = Some (LAI_ERROR_NONE, VPackage p, s') \<and> head_at s p = None \<and> node_at s' = node_at s \<and>
    head_at s' = (head_at s)(p \<mapsto> HPkg \<lparr>ph_rc = 1, ph_size = ucast n, ph_elems_ptr = c, ph_elems = replicate (unat n) VNone\<rparr>) \<and> obj_room s' bs' (k - (unat (n * sizeof_lai_variable) + 80))"
proof -
  have "unat sizeof_lai_pkg_head + unat (n * sizeof_lai_variable) + 96 \<le> k" using assms(2) by (simp add: sizeof_lai_pkg_head_def)
  from obj_malloc_twice [OF assms(1) this] obtain p c s1 s' bs' where m: "laihost_malloc sizeof_lai_pkg_head s = Some (p, s1)" "p \<noteq> 0"
    "laihost_malloc (n * sizeof_lai_variable) s1 = Some (c, s')" "c \<noteq> 0" "head_at s p = None" "head_at s' = head_at s" "node_at s' = node_at s"
    "\<forall>h. obj_room (set_head p h s') bs' (k - (unat sizeof_lai_pkg_head + unat (n * sizeof_lai_variable) + 64))" by blast
  let ?s = "set_head p (HPkg \<lparr>ph_rc = 1, ph_size = ucast n, ph_elems_ptr = c, ph_elems = replicate (unat n) VNone\<rparr>) s'"
  have "lai_create_pkg n s = Some (LAI_ERROR_NONE, VPackage p, ?s)" using m(1-4) by (simp add: lai_create_pkg_def)
  moreover have "obj_room ?s bs' (k - (unat (n * sizeof_lai_variable) + 80))"
    using m(8) [rule_format, of "HPkg \<lparr>ph_rc = 1, ph_size = ucast n, ph_elems_ptr = c, ph_elems = replicate (unat n) VNone\<rparr>"] by (simp add: sizeof_lai_pkg_head_def add.commute [of _ "unat (n * sizeof_lai_variable)"])
  moreover have "head_at ?s = (head_at s)(p \<mapsto> HPkg \<lparr>ph_rc = 1, ph_size = ucast n, ph_elems_ptr = c, ph_elems = replicate (unat n) VNone\<rparr>)" "node_at ?s = node_at s" using m(6,7) by (simp_all add: set_head_def)
  ultimately show ?thesis using m(5) by blast
qed

text \<open>A head that nobody referred to before is counted by the one variable that gets it.\<close>

lemma rc_ok_new:
  assumes ok: "rc_ok M hs" and p: "hs p = None" and h: "head_rc h = 1" "right_kind v h" "counted v = Some p"
    and e: "\<forall>w\<in>set (head_elems h). counted w = None"
  shows "rc_ok (add_mset v M) (hs(p \<mapsto> h))"
proof -
  let ?hs = "hs(p \<mapsto> h)"
  have fin: "finite (dom hs)" using ok by (simp add: rc_ok_def)
  have "live ?hs = insert p (live hs)" "p \<notin> live hs" using p h(1) by (auto simp: live_def)
  moreover have "(\<Sum>q\<in>live hs. mset (head_elems (the (?hs q)))) = inner hs" unfolding inner_def by (rule sum.cong) (use calculation(2) in auto)
  ultimately have inner: "inner ?hs = mset (head_elems h) + inner hs" using finite_live [OF fin] by (simp add: inner_def)
  have none: "refs q (mset (head_elems h)) = 0" for q using e by (auto simp: refs_def multiset_eq_iff filter_mset_eq_conv)
  have "refs p (M + inner hs) = 0"
  proof (rule ccontr)
    assume "refs p (M + inner hs) \<noteq> 0"
    then obtain w where "w \<in># M + inner hs" "counted w = Some p" unfolding refs_def by (metis (mono_tags, lifting) filter_mset_False filter_mset_cong size_empty)
    then show False using typed_pos [OF rc_ok_typed [OF ok]] p by fastforce
  qed
  then have "head_rc g = int (refs q (add_mset v M + inner ?hs))" if "?hs q = Some g" for q g
    unfolding inner using ok that h none by (cases "q = p") (auto simp: rc_ok_def)
  moreover have "typed ?hs w" if "w \<in># add_mset v M + inner ?hs" for w
    using that rc_ok_typed [OF ok, of w] e h p by (auto simp: typed_def inner)
  ultimately show ?thesis using fin by (simp add: rc_ok_def)
qed

text \<open>With room in the heap a new string, buffer or package is created without error; its head is a block no live object
  uses, its one reference is the new variable, and all counts stay exact.\<close>

theorem lai_create_counts:
  assumes "obj_room s bs k" and "unat n * 48 + 121 \<le> k" and "rc_ok R (head_at s)"
  shows "(\<exists>p s'. lai_create_string n s = Some (LAI_ERROR_NONE, VString p, s') \<and> head_at s p = None \<and> rc_ok (add_mset (VString p) R) (head_at s')) \<and>
    (\<exists>p s'. lai_create_buffer n s = Some (LAI_ERROR_NONE, VBuffer p, s') \<and> head_at s p = None \<and> rc_ok (add_mset (VBuffer p) R) (head_at s')) \<and>
    (\<exists>p s'. lai_create_pkg n s = Some (LAI_ERROR_NONE, VPackage p, s') \<and> head_at s p = None \<and> rc_ok (add_mset (VPackage p) R) (head_at s'))"
proof (intro conjI)
  have le: "unat (n + 1) \<le> unat n + 1" "unat (n * 48) \<le> unat n * 48" by (simp_all add: unat_word_ariths)
  have "unat (n + 1) + 120 \<le> k" using assms(2) le(1) by linarith
  from create_string_ok [OF assms(1) this]
  show "\<exists>p s'. lai_create_string n s = Some (LAI_ERROR_NONE, VString p, s') \<and> head_at s p = None \<and> rc_ok (add_mset (VString p) R) (head_at s')"
    using rc_ok_new [OF assms(3)] by fastforce
  have "unat n + 120 \<le> k" using assms(2) by linarith
  from create_buffer_ok [OF assms(1) this]
  show "\<exists>p s'. lai_create_buffer n s = Some (LAI_ERROR_NONE, VBuffer p, s') \<and> head_at s p = None \<and> rc_ok (add_mset (VBuffer p) R) (head_at s')"
    using rc_ok_new [OF assms(3)] by fastforce
  have "unat (n * sizeof_lai_variable) + 112 \<le> k" using assms(2) le(2) unfolding sizeof_lai_variable_def by linarith
  from create_pkg_ok [OF assms(1) this]
  show "\<exists>p s'. lai_create_pkg n s = Some (LAI_ERROR_NONE, VPackage p, s') \<and> head_at s p = None \<and> rc_ok (add_mset (VPackage p) R) (head_at s')"
    using rc_ok_new [OF assms(3)] by fastforce
qed

text \<open>An instance: a package at 0x200 whose one element is the string at 0x100, which another variable refers to as well.\<close>

definition heads_example :: heads where
  "heads_example = [0x100 \<mapsto> HString \<lparr>sh_rc = 2, sh_capacity = 2, sh_content = 0x180, sh_chars = [65, 0]\<rparr>,
     0x200 \<mapsto> HPkg \<lparr>ph_rc = 1, ph_size = 1, ph_elems_ptr = 0x280, ph_elems = [VString 0x100]\<rparr>]"

definition obj_example :: "(u32 \<times> (u8 \<Rightarrow> u32)) lai_obj_state" where
  "obj_example = lai_ns_state.extend ns_example (lai_obj_state.fields heads_example)"

lemma obj_example_heads [simp]: "head_at obj_example = heads_example"
  by (simp add: obj_example_def lai_obj_state.defs lai_ns_state.defs)

lemma heads_example_ok: "rc_ok {#VString 0x100, VPackage 0x200#} heads_example" "all_live heads_example"
proof -
  have dom: "live heads_example = {0x100, 0x200}" "dom heads_example = {0x100, 0x200}"
    by (auto simp: live_def heads_example_def split: if_splits)
  then have "inner heads_example = {#VString 0x100#}" by (simp add: inner_def heads_example_def)
  then show "rc_ok {#VString 0x100, VPackage 0x200#} heads_example"
    by (auto simp: rc_ok_def dom typed_def heads_example_def split: if_splits)
  show "all_live heads_example" by (auto simp: all_live_def heads_example_def split: if_splits)
qed

text \<open>A state without objects, whose heap is one hole.\<close>

definition empty_example :: "(u32 \<times> (u8 \<Rightarrow> u32)) lai_obj_state" where
  "empty_example = obj_example\<lparr>head_at := Map.empty\<rparr>"

lemma empty_example_ok: "obj_room empty_example [hole_example] 0x1000" "rc_ok {#} (head_at empty_example)"
proof -
  have "mem empty_example = mem heap_state_example" "kHeap empty_example = kHeap heap_state_example"
    by (simp_all add: empty_example_def obj_example_def lai_obj_state.defs lai_ns_state.defs ns_example_fields)
  then show "obj_room empty_example [hole_example] 0x1000"
    using heap_state_example_ok by (simp add: obj_room_def heap_room_def empty_example_def)
  show "rc_ok {#} (head_at empty_example)" by (simp add: rc_ok_def empty_example_def inner_def live_def)
qed

theorem lai_create_counts_witness:
  "\<exists>p s'. lai_create_string 5 empty_example = Some (LAI_ERROR_NONE, VString p, s') \<and> head_at empty_example p = None \<and> rc_ok {#VString p#} (head_at s')"
  using lai_create_counts [OF empty_example_ok(1) _ empty_example_ok(2), of 5] by simp


theorem lai_exec_pkg_store_counts_witness:
  "\<exists>hs' fs. lai_exec_pkg_store (VPackage 0x200) (VPackage 0x200) 0 obj_example = free_all fs (obj_example\<lparr>head_at := hs'\<rparr>) \<and>
     rc_ok {#VPackage 0x200, VString 0x100#} hs' \<and> all_live hs' \<and>
     (hs' 0x200 \<noteq> None \<longrightarrow> (\<exists>h'. pkg_head hs' 0x200 = Some h' \<and> ph_elems h' = [VPackage 0x200]))"
  using lai_exec_pkg_store_counts [of "VPackage 0x200" "{#VString 0x100#}" obj_example "0x200"
      "\<lparr>ph_rc = 1, ph_size = 1, ph_elems_ptr = 0x280, ph_elems = [VString 0x100]\<rparr>" 0] heads_example_ok
  by (simp add: pkg_head_def heads_example_def add_mset_commute)

end
