(* ===== verification/LaiConvert.thy ===== *)
theory LaiConvert
  imports LaiRefs LaiPrintf
begin

text \<open>
  Types and conversions of objects, the rest of \<open>core/object.c\<close>.  Warnings are not modelled; a failed assertion and a
  panic give no result.  An output variable is overwritten without being finalised where the code does so.
\<close>

subsection \<open>Types\<close>

datatype lai_object_type = LAI_TYPE_NONE | LAI_TYPE_INTEGER | LAI_TYPE_STRING | LAI_TYPE_BUFFER | LAI_TYPE_PACKAGE | LAI_TYPE_DEVICE

definition lai_object_type_of_objref :: "lai_variable \<Rightarrow> lai_object_type option" where
  "lai_object_type_of_objref v = (case v of VInteger _ \<Rightarrow> Some LAI_TYPE_INTEGER | VString _ \<Rightarrow> Some LAI_TYPE_STRING
     | VBuffer _ \<Rightarrow> Some LAI_TYPE_BUFFER | VPackage _ \<Rightarrow> Some LAI_TYPE_PACKAGE | _ \<Rightarrow> None)"

definition lai_object_type_of_node :: "('d, 'a) lai_ns_state_scheme \<Rightarrow> addr \<Rightarrow> lai_object_type option" where
  "lai_object_type_of_node s n = (if nd_type (node_at s n) = LAI_NAMESPACE_DEVICE then Some LAI_TYPE_DEVICE else None)"

text \<open>The node a lazy handle names; an undefined reference is a panic.\<close>

definition resolve_lazy :: "('d, 'a) lai_ns_state_scheme \<Rightarrow> addr \<Rightarrow> addr \<Rightarrow> addr option" where
  "resolve_lazy s ctx aml = do {
     (amln, _) \<leftarrow> lai_amlname_parse (mem s) aml;
     n \<leftarrow> lai_do_resolve s ctx amln;
     if n = 0 then None else Some n }"

definition lai_obj_get_type :: "('d, 'a) lai_ns_state_scheme \<Rightarrow> lai_variable \<Rightarrow> lai_object_type option" where
  "lai_obj_get_type s v = (case v of
     VHandle n \<Rightarrow> lai_object_type_of_node s n
   | VLazyHandle ctx aml \<Rightarrow> do { n \<leftarrow> resolve_lazy s ctx aml; lai_object_type_of_node s n }
   | VNone \<Rightarrow> Some LAI_TYPE_NONE
   | _ \<Rightarrow> lai_object_type_of_objref v)"

definition lai_obj_get_integer :: "lai_variable \<Rightarrow> lai_api_error + u64" where
  "lai_obj_get_integer v = (case v of VInteger i \<Rightarrow> Inr i | _ \<Rightarrow> Inl LAI_ERROR_TYPE_MISMATCH)"

definition lai_obj_get_pkg :: "lai_variable \<Rightarrow> nat \<Rightarrow> lai_variable \<Rightarrow> ('d, 'a) lai_obj_state_scheme \<Rightarrow> ('d, 'a) creation" where
  "lai_obj_get_pkg v i out s = (case v of
     VPackage _ \<Rightarrow> do {
       n \<leftarrow> lai_exec_pkg_size (head_at s) v;
       if n \<le> i then Some (LAI_ERROR_OUT_OF_BOUNDS, out, s)
       else do { (out, s) \<leftarrow> lai_exec_pkg_load out v i s; Some (LAI_ERROR_NONE, out, s) } }
   | _ \<Rightarrow> Some (LAI_ERROR_TYPE_MISMATCH, out, s))"

definition lai_obj_get_handle :: "('d, 'a) lai_ns_state_scheme \<Rightarrow> lai_variable \<Rightarrow> (lai_api_error + addr) option" where
  "lai_obj_get_handle s v = (case v of
     VHandle n \<Rightarrow> Some (Inr n)
   | VLazyHandle ctx aml \<Rightarrow> map_option Inr (resolve_lazy s ctx aml)
   | _ \<Rightarrow> Some (Inl LAI_ERROR_TYPE_MISMATCH))"

definition lai_objecttype_obj :: "lai_variable \<Rightarrow> nat" where
  "lai_objecttype_obj v = (case v of VInteger _ \<Rightarrow> 1 | VStringIndex _ _ \<Rightarrow> 2 | VString _ \<Rightarrow> 2 | VBufferIndex _ _ \<Rightarrow> 3 | VBuffer _ \<Rightarrow> 3
     | VPackageIndex _ _ \<Rightarrow> 4 | VPackage _ \<Rightarrow> 4 | _ \<Rightarrow> 0)"

definition lai_objecttype_ns :: "lai_nsnode \<Rightarrow> nat" where
  "lai_objecttype_ns n =
     (if nd_type n = LAI_NAMESPACE_NAME then lai_objecttype_obj (nd_object n)
      else if nd_type n \<in> {LAI_NAMESPACE_FIELD, LAI_NAMESPACE_BANKFIELD, LAI_NAMESPACE_INDEXFIELD} then 5
      else if nd_type n = LAI_NAMESPACE_DEVICE then 6
      else if nd_type n = LAI_NAMESPACE_EVENT then 7
      else if nd_type n = LAI_NAMESPACE_METHOD then 8
      else if nd_type n = LAI_NAMESPACE_MUTEX then 9
      else if nd_type n = LAI_NAMESPACE_OPREGION then 10
      else if nd_type n = LAI_NAMESPACE_POWERRESOURCE then 11
      else if nd_type n = LAI_NAMESPACE_PROCESSOR then 12
      else if nd_type n = LAI_NAMESPACE_THERMALZONE then 13
      else if nd_type n = LAI_NAMESPACE_BUFFER_FIELD then 14
      else 0)"

subsection \<open>Buffers\<close>

definition lai_obj_to_buffer :: "lai_variable \<Rightarrow> lai_variable \<Rightarrow> ('d, 'a) lai_obj_state_scheme \<Rightarrow> ('d, 'a) creation" where
  "lai_obj_to_buffer out v s = (case v of
     VInteger i \<Rightarrow> do {
       (e, out, s) \<leftarrow> lai_create_buffer 8 s;
       if e \<noteq> LAI_ERROR_NONE then Some (LAI_ERROR_OUT_OF_MEMORY, out, s)
       else do { s \<leftarrow> write_buffer out 0 (le_bytes i) s; Some (LAI_ERROR_NONE, out, s) } }
   | VBuffer _ \<Rightarrow> do { (out, s) \<leftarrow> lai_obj_clone out v s; Some (LAI_ERROR_NONE, out, s) }
   | VString _ \<Rightarrow> do {
       n \<leftarrow> lai_exec_string_length (head_at s) v;
       (e, out, s) \<leftarrow> lai_create_buffer (if n = 0 then 0 else of_nat n + 1) s;
       if e \<noteq> LAI_ERROR_NONE then Some (LAI_ERROR_OUT_OF_MEMORY, out, s)
       else if n = 0 then Some (LAI_ERROR_NONE, out, s)
       else do {
         cs \<leftarrow> lai_exec_string_access (head_at s) v;
         s \<leftarrow> write_buffer out 0 (take n cs) s;
         Some (LAI_ERROR_NONE, out, s) } }
   | _ \<Rightarrow> Some (LAI_ERROR_ILLEGAL_ARGUMENTS, out, s))"

text \<open>The target is cleared before the source is read, so a buffer mutated with itself is lost.\<close>

definition mutate_bytes :: "lai_variable \<Rightarrow> nat \<Rightarrow> (heads \<Rightarrow> u8 list option) \<Rightarrow> ('d, 'a) lai_obj_state_scheme \<Rightarrow>
    (lai_api_error \<times> ('d, 'a) lai_obj_state_scheme) option" where
  "mutate_bytes target copy_size src s = do {
     n \<leftarrow> lai_exec_buffer_size (head_at s) target;
     let k = min copy_size n;
     s \<leftarrow> write_buffer target 0 (replicate n 0) s;
     bs \<leftarrow> src (head_at s);
     s \<leftarrow> write_buffer target 0 (take k bs) s;
     Some (LAI_ERROR_NONE, s) }"

definition lai_mutate_buffer :: "lai_variable \<Rightarrow> lai_variable \<Rightarrow> ('d, 'a) lai_obj_state_scheme \<Rightarrow>
    (lai_api_error \<times> ('d, 'a) lai_obj_state_scheme) option" where
  "lai_mutate_buffer target v s = (case v of
     VBuffer _ \<Rightarrow> do { k \<leftarrow> lai_exec_buffer_size (head_at s) v; mutate_bytes target k (\<lambda>hs. lai_exec_buffer_access hs v) s }
   | VInteger i \<Rightarrow> mutate_bytes target 8 (\<lambda>_. Some (le_bytes i)) s
   | VString _ \<Rightarrow> do { k \<leftarrow> lai_exec_string_length (head_at s) v; mutate_bytes target (k + 1) (\<lambda>hs. lai_exec_string_access hs v) s }
   | _ \<Rightarrow> Some (LAI_ERROR_ILLEGAL_ARGUMENTS, s))"

subsection \<open>Strings\<close>

definition lai_obj_to_string :: "lai_variable \<Rightarrow> lai_variable \<Rightarrow> u64 \<Rightarrow> ('d, 'a) lai_obj_state_scheme \<Rightarrow> ('d, 'a) creation" where
  "lai_obj_to_string out v sz s = (case v of
     VBuffer _ \<Rightarrow> do {
       n \<leftarrow> lai_exec_buffer_size (head_at s) v;
       bs \<leftarrow> lai_exec_buffer_access (head_at s) v;
       let k = length (takeWhile (\<lambda>b. b \<noteq> 0) (take n bs));
       if k = 0 then do { (_, out, s) \<leftarrow> lai_create_string 0 s; Some (LAI_ERROR_NONE, out, s) }
       else do {
         let m = (if sz = 0xFFFFFFFFFFFFFFFF then k else min (unat sz) k);
         (_, out, s) \<leftarrow> lai_create_string (if sz = 0xFFFFFFFFFFFFFFFF then of_nat k + 1 else of_nat m) s;
         s \<leftarrow> write_string out 0 (take m bs) s;
         Some (LAI_ERROR_NONE, out, s) } }
   | _ \<Rightarrow> Some (LAI_ERROR_ILLEGAL_ARGUMENTS, out, s))"

text \<open>Formatted text, as bytes with the terminating zero.\<close>

definition format_bytes :: "nat \<Rightarrow> string \<Rightarrow> lai_arg list \<Rightarrow> u8 list option" where
  "format_bytes n fmt args = map_option (\<lambda>t. map of_char t @ [0]) (lai_format n fmt args)"

text \<open>The first two characters of a byte formatted on its own.\<close>

definition two_chars :: "string \<Rightarrow> u8 \<Rightarrow> u8 list option" where
  "two_chars fmt b = do { t \<leftarrow> format_bytes 5 fmt [LaiInt (ucast b)]; Some (take 2 t) }"

fun list_bytes :: "string \<Rightarrow> u8 list \<Rightarrow> u8 list \<Rightarrow> u8 list option" where
  "list_bytes fmt prefix [] = Some []"
| "list_bytes fmt prefix (b # bs) = do {
     t \<leftarrow> two_chars fmt b;
     r \<leftarrow> list_bytes fmt prefix bs;
     Some (prefix @ t @ [0x2C] @ r) }"

text \<open>
  The list is written with a comma after each byte, and the last comma becomes the terminating zero; for an empty
  buffer that write is in front of the string (no result).
\<close>

definition create_byte_list :: "string \<Rightarrow> u8 list \<Rightarrow> nat \<Rightarrow> lai_variable \<Rightarrow> ('d, 'a) lai_obj_state_scheme \<Rightarrow> ('d, 'a) creation" where
  "create_byte_list fmt prefix width v s = do {
     n \<leftarrow> lai_exec_buffer_size (head_at s) v;
     bs \<leftarrow> lai_exec_buffer_access (head_at s) v;
     (_, out, s) \<leftarrow> lai_create_string (of_nat (n * width)) s;
     t \<leftarrow> list_bytes fmt prefix (take n bs);
     if t = [] then None
     else do { s \<leftarrow> write_string out 0 (butlast t @ [0]) s; Some (LAI_ERROR_NONE, out, s) } }"

definition lai_obj_to_decimal_string :: "lai_variable \<Rightarrow> lai_variable \<Rightarrow> ('d, 'a) lai_obj_state_scheme \<Rightarrow> ('d, 'a) creation" where
  "lai_obj_to_decimal_string out v s = (case v of
     VInteger i \<Rightarrow> do {
       (_, out, s) \<leftarrow> lai_create_string 20 s;
       t \<leftarrow> format_bytes 21 ''%llu'' [LaiLong i];
       s \<leftarrow> write_string out 0 t s;
       Some (LAI_ERROR_NONE, out, s) }
   | VBuffer _ \<Rightarrow> create_byte_list ''%02d'' [] 3 v s
   | VString _ \<Rightarrow> do { (out, s) \<leftarrow> lai_obj_clone out v s; Some (LAI_ERROR_NONE, out, s) }
   | _ \<Rightarrow> Some (LAI_ERROR_ILLEGAL_ARGUMENTS, out, s))"

definition lai_obj_to_hex_string :: "lai_variable \<Rightarrow> lai_variable \<Rightarrow> ('d, 'a) lai_obj_state_scheme \<Rightarrow> ('d, 'a) creation" where
  "lai_obj_to_hex_string out v s = (case v of
     VInteger i \<Rightarrow> do {
       (_, out, s) \<leftarrow> lai_create_string 16 s;
       t \<leftarrow> format_bytes 17 ''%X'' [LaiLong i];
       s \<leftarrow> write_string out 0 t s;
       Some (LAI_ERROR_NONE, out, s) }
   | VBuffer _ \<Rightarrow> create_byte_list ''%02X'' [0x30, 0x78] 5 v s
   | VString _ \<Rightarrow> do { (out, s) \<leftarrow> lai_obj_clone out v s; Some (LAI_ERROR_NONE, out, s) }
   | _ \<Rightarrow> Some (LAI_ERROR_ILLEGAL_ARGUMENTS, out, s))"

text \<open>The bytes of a buffer, separated by blanks.\<close>

fun spaced_bytes :: "bool \<Rightarrow> u8 list \<Rightarrow> u8 list option" where
  "spaced_bytes first' [] = Some []"
| "spaced_bytes first' (b # bs) = do {
     t \<leftarrow> (if first' then format_bytes 5 ''0x%02X'' [LaiInt (ucast b)] else format_bytes 6 '' 0x%02X'' [LaiInt (ucast b)]);
     r \<leftarrow> spaced_bytes False bs;
     Some (butlast t @ r) }"

definition lai_mutate_string :: "lai_variable \<Rightarrow> lai_variable \<Rightarrow> ('d, 'a) lai_obj_state_scheme \<Rightarrow>
    (lai_api_error \<times> ('d, 'a) lai_obj_state_scheme) option" where
  "lai_mutate_string target v s = (case v of
     VString _ \<Rightarrow> do {
       n \<leftarrow> lai_exec_string_length (head_at s) v;
       (e, s) \<leftarrow> lai_obj_resize_string target (of_nat n) s;
       if e \<noteq> LAI_ERROR_NONE then None
       else do {
         cs \<leftarrow> lai_exec_string_access (head_at s) v;
         s \<leftarrow> write_string target 0 (take n cs @ [0]) s;
         Some (LAI_ERROR_NONE, s) } }
   | VInteger i \<Rightarrow> do {
       (e, s) \<leftarrow> lai_obj_resize_string target 17 s;
       if e \<noteq> LAI_ERROR_NONE then None
       else do {
         t \<leftarrow> format_bytes 17 ''%016lX'' [LaiLong i];
         s \<leftarrow> write_string target 0 t s;
         Some (LAI_ERROR_NONE, s) } }
   | VBuffer _ \<Rightarrow> do {
       n \<leftarrow> lai_exec_buffer_size (head_at s) v;
       bs \<leftarrow> lai_exec_buffer_access (head_at s) v;
       (e, s) \<leftarrow> lai_obj_resize_string target (of_nat (5 * n + 1)) s;
       if e \<noteq> LAI_ERROR_NONE then None
       else do {
         t \<leftarrow> spaced_bytes True (take n bs);
         s \<leftarrow> write_string target 0 (t @ [0]) s;
         Some (LAI_ERROR_NONE, s) } }
   | _ \<Rightarrow> Some (LAI_ERROR_ILLEGAL_ARGUMENTS, s))"

subsection \<open>Integers\<close>

definition hex_digit :: "u8 \<Rightarrow> u64 option" where
  "hex_digit c = (if 0x30 \<le> c \<and> c \<le> 0x39 then Some (ucast c - 0x30)
     else if 0x61 \<le> c \<and> c \<le> 0x66 then Some (ucast c - 0x61 + 10)
     else if 0x41 \<le> c \<and> c \<le> 0x46 then Some (ucast c - 0x41 + 10) else None)"

fun parse_hex :: "u8 list \<Rightarrow> u64 \<Rightarrow> u64 option" where
  "parse_hex [] i = Some i"
| "parse_hex (c # cs) i = do { v \<leftarrow> hex_digit c; parse_hex cs (i * 16 + v) }"

fun parse_decimal :: "u8 list \<Rightarrow> u64 \<Rightarrow> u64 option" where
  "parse_decimal [] i = Some i"
| "parse_decimal (c # cs) i = (if c < 0x30 \<or> 0x39 < c then None else parse_decimal cs (i * 10 + (ucast c - 0x30)))"

definition parse_integer :: "u8 list \<Rightarrow> u64 option" where
  "parse_integer cs =
     (if 2 \<le> length cs \<and> cs ! 0 = 0x30 \<and> (cs ! 1 = 0x78 \<or> cs ! 1 = 0x58) then parse_hex (List.drop 2 cs) 0 else parse_decimal cs 0)"

definition lai_obj_to_integer :: "lai_variable \<Rightarrow> lai_variable \<Rightarrow> ('d, 'a) lai_obj_state_scheme \<Rightarrow> ('d, 'a) creation" where
  "lai_obj_to_integer out v s = (case v of
     VBuffer _ \<Rightarrow> do {
       n \<leftarrow> lai_exec_buffer_size (head_at s) v;
       bs \<leftarrow> lai_exec_buffer_access (head_at s) v;
       if n < 8 then Some (LAI_ERROR_ILLEGAL_ARGUMENTS, out, s)
       else if length bs < 8 then None
       else Some (LAI_ERROR_NONE, VInteger (le_value (take 8 bs)), s) }
   | VString _ \<Rightarrow> do {
       n \<leftarrow> lai_exec_string_length (head_at s) v;
       cs \<leftarrow> lai_exec_string_access (head_at s) v;
       case parse_integer (take n cs) of
         None \<Rightarrow> Some (LAI_ERROR_ILLEGAL_ARGUMENTS, out, s)
       | Some i \<Rightarrow> Some (LAI_ERROR_NONE, VInteger i, s) }
   | VInteger _ \<Rightarrow> do { (out, s) \<leftarrow> lai_obj_clone out v s; Some (LAI_ERROR_NONE, out, s) }
   | _ \<Rightarrow> Some (LAI_ERROR_ILLEGAL_ARGUMENTS, out, s))"

text \<open>
  \<open>lai_mutate_integer\<close> reads up to 16 hexadecimal digits and stops at the first other character; the string has to end
  within its block.
\<close>

fun hex_prefix :: "nat \<Rightarrow> u8 list \<Rightarrow> u64 \<Rightarrow> u64 option" where
  "hex_prefix 0 cs i = Some i"
| "hex_prefix (Suc k) [] i = None"
| "hex_prefix (Suc k) (c # cs) i = (case hex_digit c of Some v \<Rightarrow> hex_prefix k cs (push_bit 4 i OR v) | None \<Rightarrow> Some i)"

definition lai_mutate_integer :: "lai_variable \<Rightarrow> lai_variable \<Rightarrow> ('d, 'a) lai_obj_state_scheme \<Rightarrow> ('d, 'a) creation" where
  "lai_mutate_integer target v s = (case v of
     VInteger _ \<Rightarrow> do { (target, s) \<leftarrow> lai_var_assign target v s; Some (LAI_ERROR_NONE, target, s) }
   | VString _ \<Rightarrow> (case target of
       VInteger _ \<Rightarrow> do {
         cs \<leftarrow> lai_exec_string_access (head_at s) v;
         i \<leftarrow> hex_prefix 16 cs 0;
         Some (LAI_ERROR_NONE, VInteger i, s) }
     | _ \<Rightarrow> None)
   | VBuffer _ \<Rightarrow> (case target of
       VInteger _ \<Rightarrow> do {
         n \<leftarrow> lai_exec_buffer_size (head_at s) v;
         bs \<leftarrow> lai_exec_buffer_access (head_at s) v;
         if length bs < min n 8 then None
         else Some (LAI_ERROR_NONE, VInteger (le_value (take (min n 8) bs)), s) }
     | _ \<Rightarrow> None)
   | _ \<Rightarrow> Some (LAI_ERROR_ILLEGAL_ARGUMENTS, target, s))"

subsection \<open>Descriptions of nodes\<close>

definition type_text :: "u32 \<Rightarrow> (u64 \<times> string) option" where
  "type_text ty =
     (if ty = LAI_NAMESPACE_FIELD then Some (14, ''[Field Object]'')
      else if ty = LAI_NAMESPACE_DEVICE then Some (15, ''[Device Object]'')
      else if ty = LAI_NAMESPACE_EVENT then Some (14, ''[Event Object]'')
      else if ty = LAI_NAMESPACE_MUTEX then Some (14, ''[Mutex Object]'')
      else if ty = LAI_NAMESPACE_OPREGION then Some (15, ''[Region Object]'')
      else if ty = LAI_NAMESPACE_POWERRESOURCE then Some (14, ''[Power Object]'')
      else if ty = LAI_NAMESPACE_PROCESSOR then Some (18, ''[Processor Object]'')
      else if ty = LAI_NAMESPACE_THERMALZONE then Some (14, ''[Thermal Zone]'')
      else None)"

text \<open>The text is written before the result of the creation is looked at.\<close>

definition lai_obj_to_type_string :: "lai_variable \<Rightarrow> addr \<Rightarrow> ('d, 'a) lai_obj_state_scheme \<Rightarrow> ('d, 'a) creation" where
  "lai_obj_to_type_string target node s = (case type_text (nd_type (node_at s node)) of
     None \<Rightarrow> Some (LAI_ERROR_ILLEGAL_ARGUMENTS, target, s)
   | Some (n, t) \<Rightarrow> do {
       (e, target, s) \<leftarrow> lai_create_string n s;
       s \<leftarrow> write_string target 0 (map of_char t @ [0]) s;
       Some (if e \<noteq> LAI_ERROR_NONE then LAI_ERROR_OUT_OF_MEMORY else LAI_ERROR_NONE, target, s) })"

subsection \<open>Comparison\<close>

definition MATCH_MTR :: u32 where "MATCH_MTR = 0"
definition MATCH_MEQ :: u32 where "MATCH_MEQ = 1"
definition MATCH_MLE :: u32 where "MATCH_MLE = 2"
definition MATCH_MLT :: u32 where "MATCH_MLT = 3"
definition MATCH_MGE :: u32 where "MATCH_MGE = 4"
definition MATCH_MGT :: u32 where "MATCH_MGT = 5"

definition match_integers :: "u32 \<Rightarrow> u64 \<Rightarrow> u64 \<Rightarrow> bool option" where
  "match_integers op a b =
     (if op = MATCH_MTR then Some True
      else if op = MATCH_MEQ then Some (a = b)
      else if op = MATCH_MLE then Some (a \<le> b)
      else if op = MATCH_MLT then Some (a < b)
      else if op = MATCH_MGE then Some (a \<ge> b)
      else if op = MATCH_MGT then Some (a > b)
      else None)"

text \<open>\<open>memcmp\<close> of the common length of two blocks.\<close>

fun compare_bytes :: "u8 list \<Rightarrow> u8 list \<Rightarrow> int" where
  "compare_bytes (a # as) (b # bs) = (if a \<noteq> b then uint a - uint b else compare_bytes as bs)"
| "compare_bytes _ _ = 0"

definition match_bytes :: "u32 \<Rightarrow> u8 list \<Rightarrow> u8 list \<Rightarrow> bool option" where
  "match_bytes op as bs =
     (let cmp = compare_bytes as bs;
          greater = (if cmp = 0 then length as > length bs else cmp > 0);
          less = (if cmp = 0 then length as < length bs else cmp < 0)
      in if op = MATCH_MTR then Some True
         else if op = MATCH_MEQ then Some (cmp = 0 \<and> length as = length bs)
         else if op = MATCH_MLE then Some (\<not> greater)
         else if op = MATCH_MLT then Some less
         else if op = MATCH_MGE then Some (\<not> less)
         else if op = MATCH_MGT then Some greater
         else None)"

text \<open>The first \<open>n\<close> bytes of a block, which has to have that many.\<close>

definition get_bytes :: "nat \<Rightarrow> u8 list \<Rightarrow> u8 list option" where
  "get_bytes n bs = (if n \<le> length bs then Some (take n bs) else None)"

definition buffer_data :: "heads \<Rightarrow> lai_variable \<Rightarrow> u8 list option" where
  "buffer_data hs v = do { n \<leftarrow> lai_exec_buffer_size hs v; bs \<leftarrow> lai_exec_buffer_access hs v; get_bytes n bs }"

definition string_data :: "heads \<Rightarrow> lai_variable \<Rightarrow> u8 list option" where
  "string_data hs v = do { n \<leftarrow> lai_exec_string_length hs v; cs \<leftarrow> lai_exec_string_access hs v; get_bytes n cs }"

text \<open>The converted object is finalised at every return.\<close>

definition finish_match :: "lai_variable \<Rightarrow> lai_api_error + bool \<Rightarrow> ('d, 'a) lai_obj_state_scheme \<Rightarrow>
    ((lai_api_error + bool) \<times> ('d, 'a) lai_obj_state_scheme) option" where
  "finish_match cmp r s = do { (_, s) \<leftarrow> lai_var_finalize cmp s; Some (r, s) }"

definition lai_obj_exec_match_op :: "u32 \<Rightarrow> lai_variable \<Rightarrow> lai_variable \<Rightarrow> ('d, 'a) lai_obj_state_scheme \<Rightarrow>
    ((lai_api_error + bool) \<times> ('d, 'a) lai_obj_state_scheme) option" where
  "lai_obj_exec_match_op op v obj s =
     (let result = (\<lambda>r. case r of Some b \<Rightarrow> Inr b | None \<Rightarrow> Inl LAI_ERROR_UNEXPECTED_RESULT)
      in case v of
        VInteger i \<Rightarrow> do {
          (e, cmp, s) \<leftarrow> lai_obj_to_integer VNone obj s;
          if e \<noteq> LAI_ERROR_NONE then finish_match cmp (Inl e) s
          else (case cmp of VInteger j \<Rightarrow> finish_match cmp (result (match_integers op i j)) s | _ \<Rightarrow> None) }
      | VBuffer _ \<Rightarrow> do {
          (e, cmp, s) \<leftarrow> lai_obj_to_buffer VNone obj s;
          if e \<noteq> LAI_ERROR_NONE then finish_match cmp (Inl e) s
          else do {
            as \<leftarrow> buffer_data (head_at s) v;
            bs \<leftarrow> buffer_data (head_at s) cmp;
            finish_match cmp (result (match_bytes op as bs)) s } }
      | VString _ \<Rightarrow> do {
          (e, cmp, s) \<leftarrow> lai_obj_to_hex_string VNone obj s;
          if e \<noteq> LAI_ERROR_NONE then finish_match cmp (Inl e) s
          else do {
            as \<leftarrow> string_data (head_at s) v;
            bs \<leftarrow> string_data (head_at s) cmp;
            finish_match cmp (result (match_bytes op as bs)) s } }
      | _ \<Rightarrow> Some (Inl LAI_ERROR_UNEXPECTED_RESULT, s))"

subsection \<open>Numerals\<close>

lemma upper_digit: "k < 16 \<Longrightarrow> hex_digit (of_char (digits_upper ! k)) = Some (of_nat k)"
proof -
  have "\<forall>k\<in>set [0..<16]. hex_digit (of_char (digits_upper ! k)) = Some (of_nat k)" by code_simp
  then show "k < 16 \<Longrightarrow> hex_digit (of_char (digits_upper ! k)) = Some (of_nat k)" by simp
qed

text \<open>The last \<open>l\<close> hexadecimal digits of a number.\<close>

fun hex_digits_of :: "nat \<Rightarrow> nat \<Rightarrow> string" where
  "hex_digits_of 0 n = []"
| "hex_digits_of (Suc l) n = hex_digits_of l (n div 16) @ [digits_upper ! (n mod 16)]"

lemma length_hex_digits_of [simp]: "length (hex_digits_of l n) = l"
  by (induction l arbitrary: n) simp_all

lemma hex_digits_of_0: "hex_digits_of l 0 = replicate l (digits_upper ! 0)"
  by (induction l) (simp_all add: replicate_append_same)

lemma num_loop_hex:
  "0 < l \<Longrightarrow> n < 16 ^ l \<Longrightarrow> \<exists>ds. num_loop digits_upper 16 n (int l) acc = ds @ acc \<and> length ds \<le> l \<and>
     replicate (l - length ds) (digits_upper ! 0) @ ds = hex_digits_of l n"
proof (induction l arbitrary: n acc)
  case (Suc l)
  let ?d = "digits_upper ! (n mod 16)"
  show ?case
  proof (cases "n div 16 = 0")
    case True
    then have "num_loop digits_upper 16 n (int (Suc l)) acc = [?d] @ acc" by (subst num_loop.simps) (simp add: Let_def)
    then show ?thesis using True by (intro exI [of _ "[?d]"]) (simp add: hex_digits_of_0)
  next
    case False
    have "n div 16 < 16 ^ l" using Suc.prems(2) by (simp add: less_mult_imp_div_less mult.commute)
    moreover from this have "0 < l" using False by (cases l) auto
    ultimately obtain ds where ds: "num_loop digits_upper 16 (n div 16) (int l) (?d # acc) = ds @ ?d # acc" "length ds \<le> l"
      "replicate (l - length ds) (digits_upper ! 0) @ ds = hex_digits_of l (n div 16)" using Suc.IH [of "n div 16" "?d # acc"] by blast
    have "num_loop digits_upper 16 n (int (Suc l)) acc = (ds @ [?d]) @ acc"
      using False ds(1) \<open>0 < l\<close> by (subst num_loop.simps) (simp add: Let_def)
    then show ?thesis using ds(2,3) by (intro exI [of _ "ds @ [?d]"]) simp
  qed
qed simp

lemma num_fmt_hex: "num_fmt i 16 16 (CHR ''0'') False True 16 = Some (hex_digits_of 16 (unat i))"
proof -
  have "unat i < 16 ^ 16" using unat_lt_2_64 [of i] by simp
  from num_loop_hex [OF _ this, of "[]"] obtain ds where "num_loop digits_upper 16 (unat i) 16 [] = ds" "length ds \<le> 16"
    "replicate (16 - length ds) (CHR ''0'') @ ds = hex_digits_of 16 (unat i)" by (auto simp: digits_upper_def)
  then show ?thesis by (simp add: num_fmt_def Let_def)
qed

lemma format_hex: "format_bytes 17 ''%016lX'' [LaiLong i] = Some (map of_char (hex_digits_of 16 (unat i)) @ [0])"
proof -
  have "parse_conversion ''016lX'' = (\<lparr>cv_pad_with = CHR ''0'', cv_padding = 16, cv_wide = True\<rparr>, ''X'')" by code_simp
  then show ?thesis
    by (simp add: format_bytes_def lai_format.simps convert_def int_arg_def num_fmt_hex Let_def)
qed

lemma shift_in_digit: "k < 16 \<Longrightarrow> push_bit 4 i OR of_nat k = 16 * i + (of_nat k :: u64)"
proof -
  assume k: "k < 16"
  have "(of_nat k :: u64) = take_bit 4 (of_nat k)" using k by (simp add: take_bit_of_nat take_bit_nat_eq_self)
  then have "\<not> bit (push_bit 4 i) n \<or> \<not> bit (of_nat k :: u64) n" for n by (metis bit_push_bit_iff bit_take_bit_iff leD)
  then show ?thesis by (simp add: disjunctive_add [symmetric] push_bit_eq_mult mult.commute)
qed

lemma hex_prefix_append:
  "list_all (\<lambda>c. hex_digit c \<noteq> None) cs \<Longrightarrow>
     hex_prefix (length cs + k) (cs @ rest) i = hex_prefix k rest (foldl (\<lambda>i c. push_bit 4 i OR the (hex_digit c)) i cs)"
  by (induction cs arbitrary: i) auto

lemma hex_prefix_digits:
  "n < 16 ^ l \<Longrightarrow> hex_prefix (l + k) (map of_char (hex_digits_of l n) @ rest) i = hex_prefix k rest (16 ^ l * i + of_nat n)"
proof (induction l arbitrary: n rest k)
  case (Suc l)
  have "n div 16 < 16 ^ l" using Suc.prems by (simp add: less_mult_imp_div_less mult.commute)
  then have "hex_prefix (Suc l + k) (map of_char (hex_digits_of (Suc l) n) @ rest) i =
      hex_prefix (Suc k) (of_char (digits_upper ! (n mod 16)) # rest) (16 ^ l * i + of_nat (n div 16))"
    using Suc.IH [of "n div 16" "Suc k" "of_char (digits_upper ! (n mod 16)) # rest"] by simp
  also have "\<dots> = hex_prefix k rest (16 * (16 ^ l * i + of_nat (n div 16)) + of_nat (n mod 16))"
    by (simp add: upper_digit shift_in_digit)
  also have "16 * (16 ^ l * i + of_nat (n div 16)) + of_nat (n mod 16) = 16 ^ Suc l * i + (16 * of_nat (n div 16) + of_nat (n mod 16))"
    by (simp add: algebra_simps)
  also have "16 * of_nat (n div 16) + of_nat (n mod 16) = (of_nat n :: u64)"
    by (metis mult_div_mod_eq of_nat_add of_nat_mult of_nat_numeral)
  finally show ?case .
qed simp

text \<open>An integer stored into a string object and the string stored back into an integer object give the integer again.\<close>

theorem lai_mutate_string_integer:
  assumes "lai_obj_resize_string (VString p) 17 s = Some (LAI_ERROR_NONE, s1)"
    and "string_head (head_at s1) p = Some h" and "17 \<le> length (sh_chars h)"
  shows "\<exists>s'. lai_mutate_string (VString p) (VInteger i) s = Some (LAI_ERROR_NONE, s') \<and>
    lai_mutate_integer (VInteger j) (VString p) s' = Some (LAI_ERROR_NONE, VInteger i, s')"
proof -
  let ?t = "map of_char (hex_digits_of 16 (unat i)) @ [0] :: u8 list"
  let ?cs = "?t @ List.drop 17 (sh_chars h)"
  let ?s = "set_head p (HString (h\<lparr>sh_chars := ?cs\<rparr>)) s1"
  have "put_bytes (sh_chars h) 0 ?t = Some ?cs" using assms(3) by (simp add: put_bytes_def)
  then have "lai_mutate_string (VString p) (VInteger i) s = Some (LAI_ERROR_NONE, ?s)"
    using assms(1,2) by (simp add: lai_mutate_string_def format_hex write_string_def)
  moreover have "hex_prefix (16 + 0) (map of_char (hex_digits_of 16 (unat i)) @ [0] @ List.drop 17 (sh_chars h)) 0 = Some i"
    using unat_lt_2_64 [of i] by (subst hex_prefix_digits) simp_all
  moreover have "lai_exec_string_access (head_at ?s) (VString p) = Some ?cs"
    by (simp add: lai_exec_string_access_def string_head_def set_head_def)
  ultimately show ?thesis by (simp add: lai_mutate_integer_def)
qed

lemma created_string:
  "lai_create_string n s = Some (LAI_ERROR_NONE, v, s') \<Longrightarrow>
     \<exists>p c. v = VString p \<and> head_at s' p = Some (HString \<lparr>sh_rc = 1, sh_capacity = n + 1, sh_content = c, sh_chars = replicate (unat (n + 1)) 0\<rparr>)"
  by (auto simp: lai_create_string_def set_head_def bind_eq_Some_conv split: if_splits prod.splits)

lemma created_buffer:
  "lai_create_buffer n s = Some (LAI_ERROR_NONE, v, s') \<Longrightarrow>
     \<exists>p c. v = VBuffer p \<and> head_at s' p = Some (HBuffer \<lparr>bh_rc = 1, bh_size = n, bh_content = c, bh_bytes = replicate (unat n) 0\<rparr>)"
  by (auto simp: lai_create_buffer_def set_head_def bind_eq_Some_conv split: if_splits prod.splits)

lemma decimal_digit: "d < 10 \<Longrightarrow> (of_char (char_of (48 + d)) :: u8) = of_nat (48 + d)"
proof -
  have "\<forall>d\<in>set [0..<10]. (of_char (char_of (48 + d)) :: u8) = of_nat (48 + d)" by code_simp
  then show "d < 10 \<Longrightarrow> (of_char (char_of (48 + d)) :: u8) = of_nat (48 + d)" by simp
qed

lemma decimal_chars: "c \<in> set (decimal n) \<Longrightarrow> \<exists>d<10. (of_char c :: u8) = of_nat (48 + d)"
proof (induction n rule: decimal.induct)
  case (1 n)
  show ?case
  proof (cases "n < 10")
    case True
    then show ?thesis using "1.prems" decimal_digit [of n] by (auto simp: decimal.simps [of n])
  next
    case False
    then consider "c \<in> set (decimal (n div 10))" | "c = char_of (48 + n mod 10)" using "1.prems" by (auto simp: decimal.simps [of n])
    then show ?thesis
    proof cases
      case 2
      then show ?thesis using decimal_digit [of "n mod 10"] by (intro exI [of _ "n mod 10"]) simp
    qed (use 1 False in simp)
  qed
qed

lemma parse_decimal_append:
  "parse_decimal (cs @ ds) i = (case parse_decimal cs i of Some j \<Rightarrow> parse_decimal ds j | None \<Rightarrow> None)"
  by (induction cs arbitrary: i) auto

lemma parse_digit: "d < 10 \<Longrightarrow> parse_decimal [of_nat (48 + d)] i = Some (i * 10 + of_nat d)"
proof -
  have "\<forall>d\<in>set [0..<10]. \<not> (of_nat (48 + d) < (0x30 :: u8) \<or> 0x39 < (of_nat (48 + d) :: u8)) \<and> ucast (of_nat (48 + d) :: u8) - 0x30 = (of_nat d :: u64)"
    by code_simp
  then show "d < 10 \<Longrightarrow> parse_decimal [of_nat (48 + d)] i = Some (i * 10 + of_nat d)" by simp
qed

lemma parse_decimal_decimal: "parse_decimal (map of_char (decimal n)) 0 = Some (of_nat n)"
proof (induction n rule: decimal.induct)
  case (1 n)
  show ?case
  proof (cases "n < 10")
    case True
    then show ?thesis using parse_digit [of n 0] decimal_digit [of n] by (simp add: decimal.simps [of n])
  next
    case False
    have "of_nat (n div 10) * 10 + of_nat (n mod 10) = (of_nat n :: u64)"
      by (metis div_mod_decomp of_nat_add of_nat_mult of_nat_numeral)
    then show ?thesis using False 1 parse_digit [of "n mod 10"] decimal_digit [of "n mod 10"]
      by (simp add: decimal.simps [of n] parse_decimal_append)
  qed
qed

lemma parse_integer_decimal: "parse_integer (map of_char (decimal n)) = Some (of_nat n)"
proof -
  have "(of_char (decimal n ! 1) :: u8) \<noteq> 0x78 \<and> (of_char (decimal n ! 1) :: u8) \<noteq> 0x58" if two: "2 \<le> length (decimal n)"
  proof -
    have "\<forall>d\<in>set [0..<10]. (of_nat (48 + d) :: u8) \<noteq> 0x78 \<and> (of_nat (48 + d) :: u8) \<noteq> 0x58" by code_simp
    moreover obtain d where "d < 10" "(of_char (decimal n ! 1) :: u8) = of_nat (48 + d)"
      using decimal_chars [of "decimal n ! 1" n] two nth_mem [of 1 "decimal n"] by auto
    ultimately show ?thesis by simp
  qed
  then show ?thesis by (auto simp: parse_integer_def parse_decimal_decimal)
qed

lemma text_length_terminated: "0 \<notin> set cs \<Longrightarrow> text_length (cs @ 0 # rest) = Some (length cs)"
  by (induction cs) (auto simp: text_length_def)

lemma format_decimal: "format_bytes 21 ''%llu'' [LaiLong i] = Some (map of_char (decimal (unat i)) @ [0])"
proof -
  have "parse_conversion ''llu'' = (\<lparr>cv_pad_with = CHR '' '', cv_padding = 0, cv_wide = True\<rparr>, ''u'')" by code_simp
  moreover have "length (decimal (unat i)) \<le> 20" using length_decimal [of "unat i" 20] unat_lt_2_64 [of i] by simp
  ultimately show ?thesis
    by (simp add: format_bytes_def lai_format.simps convert_def int_arg_def num_fmt_unsigned Let_def)
qed

text \<open>With room in the heap, the decimal string made of an integer converts back to the integer.\<close>

theorem lai_obj_decimal_roundtrip:
  assumes "obj_room s bs k" and "141 \<le> k"
  shows "\<exists>v s'. lai_obj_to_decimal_string out (VInteger i) s = Some (LAI_ERROR_NONE, v, s') \<and>
    lai_obj_to_integer out' v s' = Some (LAI_ERROR_NONE, VInteger i, s')"
proof -
  obtain v p c s1 where create: "lai_create_string 20 s = Some (LAI_ERROR_NONE, v, s1)" and p: "v = VString p"
    "head_at s1 p = Some (HString \<lparr>sh_rc = 1, sh_capacity = 21, sh_content = c, sh_chars = replicate 21 0\<rparr>)"
    using create_string_ok [OF assms(1), of 20] assms(2) by auto
  let ?d = "map of_char (decimal (unat i)) :: u8 list"
  let ?cs = "?d @ 0 # List.drop (Suc (length ?d)) (replicate 21 0)"
  have len: "length ?d \<le> 20" using length_decimal [of "unat i" 20] unat_lt_2_64 [of i] by simp
  have "0 \<notin> set ?d"
  proof
    assume "0 \<in> set ?d"
    then obtain d where "d < 10" "(0 :: u8) = of_nat (48 + d)" using decimal_chars by (metis in_set_conv_nth length_map nth_map)
    moreover have "\<forall>d\<in>set [0..<10]. (0 :: u8) \<noteq> of_nat (48 + d)" by code_simp
    ultimately show False by simp
  qed
  then have len_cs: "text_length ?cs = Some (length ?d)" by (rule text_length_terminated)
  define s2 where "s2 = set_head p (HString \<lparr>sh_rc = 1, sh_capacity = 21, sh_content = c, sh_chars = ?cs\<rparr>) s1"
  have "put_bytes (replicate 21 0) 0 (?d @ [0]) = Some ?cs" using len by (simp add: put_bytes_def)
  then have "write_string v 0 (?d @ [0]) s1 = Some s2" by (simp add: write_string_def p string_head_def s2_def)
  then have "lai_obj_to_decimal_string out (VInteger i) s = Some (LAI_ERROR_NONE, v, s2)"
    using create by (simp add: lai_obj_to_decimal_string_def format_decimal)
  moreover have "lai_exec_string_access (head_at s2) v = Some ?cs"
    by (simp add: lai_exec_string_access_def p string_head_def s2_def set_head_def)
  ultimately show ?thesis
    using len_cs by (simp add: lai_obj_to_integer_def lai_exec_string_length_def p(1) parse_integer_decimal)
qed

subsection \<open>Comparison\<close>

text \<open>The relation an operator of \<open>Match\<close> stands for, on any linear order.\<close>

definition match_relation :: "u32 \<Rightarrow> ('b::linorder \<Rightarrow> 'b \<Rightarrow> bool) option" where
  "match_relation op =
     (if op = MATCH_MTR then Some (\<lambda>_ _. True) else if op = MATCH_MEQ then Some (=) else if op = MATCH_MLE then Some (\<le>)
      else if op = MATCH_MLT then Some (<) else if op = MATCH_MGE then Some (\<ge>) else if op = MATCH_MGT then Some (>) else None)"

lemma compare_bytes_lex:
  "((if compare_bytes as bs = 0 then length as < length bs else compare_bytes as bs < 0) \<longleftrightarrow> as < bs) \<and>
   ((if compare_bytes as bs = 0 then length bs < length as else 0 < compare_bytes as bs) \<longleftrightarrow> bs < as) \<and>
   (compare_bytes as bs = 0 \<and> length as = length bs \<longleftrightarrow> as = bs)"
proof (induction as arbitrary: bs)
  case Nil
  show ?case by (cases bs) auto
next
  case (Cons a as cs)
  show ?case
  proof (cases cs)
    case (Cons b bs)
    show ?thesis
    proof (cases "a = b")
      case False
      then have "uint a \<noteq> uint b" by (simp add: word_uint_eq_iff)
      with False Cons show ?thesis by (auto simp: word_less_def)
    qed (use Cons.IH [of bs] Cons in auto)
  qed simp
qed

text \<open>The comparison of two objects by an operator of \<open>Match\<close> is the relation of the operator on integers, and on the
  bytes of buffers and strings the same relation in lexicographic order; other operators are errors.\<close>

theorem lai_match_order:
  "match_integers op i j = map_option (\<lambda>r. r i j) (match_relation op) \<and> match_bytes op as bs = map_option (\<lambda>r. r as bs) (match_relation op)"
proof
  show "match_integers op i j = map_option (\<lambda>r. r i j) (match_relation op)" by (simp add: match_integers_def match_relation_def)
  let ?c = "compare_bytes as bs"
  have lt: "(if ?c = 0 then length as < length bs else ?c < 0) = (as < bs)"
    and gt: "(if ?c = 0 then length bs < length as else 0 < ?c) = (bs < as)"
    and eq: "(?c = 0 \<and> length as = length bs) = (as = bs)" using compare_bytes_lex [of as bs] by blast+
  show "match_bytes op as bs = map_option (\<lambda>r. r as bs) (match_relation op)"
    unfolding match_bytes_def Let_def lt gt eq match_relation_def by (simp add: not_less)
qed

subsection \<open>Types\<close>

lemma cloned_string: "lai_clone_string v s = Some (w, s') \<Longrightarrow> \<exists>p. w = VString p"
  by (auto simp: lai_clone_string_def bind_eq_Some_conv split: if_splits prod.splits dest!: created_string)

lemma cloned_buffer: "lai_clone_buffer v s = Some (w, s') \<Longrightarrow> \<exists>p. w = VBuffer p"
  by (auto simp: lai_clone_buffer_def bind_eq_Some_conv split: if_splits prod.splits dest!: created_buffer)

lemma obj_clone_kind:
  "lai_obj_clone d (VString p) s = Some (w, s') \<Longrightarrow> \<exists>q. w = VString q"
  "lai_obj_clone d (VBuffer p) s = Some (w, s') \<Longrightarrow> \<exists>q. w = VBuffer q"
  "lai_obj_clone d (VInteger i) s = Some (w, s') \<Longrightarrow> w = VInteger i"
  by (auto simp: lai_obj_clone_def lai_swap_object_def lai_var_assign_def lai_var_move_def bind_eq_Some_conv
    split: prod.splits dest!: cloned_string cloned_buffer)

lemma create_kind:
  "lai_create_string n s = Some (e, w, s') \<Longrightarrow> \<exists>p. w = VString p" "lai_create_buffer n s = Some (e, w, s') \<Longrightarrow> \<exists>p. w = VBuffer p"
  by (auto simp: lai_create_string_def lai_create_buffer_def bind_eq_Some_conv split: if_splits prod.splits)

lemmas conversion_splits = if_splits prod.splits lai_variable.splits option.splits

lemma to_buffer_kind: "lai_obj_to_buffer out v s = Some (LAI_ERROR_NONE, w, s') \<Longrightarrow> \<exists>p. w = VBuffer p"
  by (auto simp: lai_obj_to_buffer_def bind_eq_Some_conv split: conversion_splits dest!: create_kind obj_clone_kind)

lemma to_string_kind: "lai_obj_to_string out v n s = Some (LAI_ERROR_NONE, w, s') \<Longrightarrow> \<exists>p. w = VString p"
  by (auto simp: lai_obj_to_string_def bind_eq_Some_conv Let_def split: conversion_splits dest!: create_kind)

lemma byte_list_kind: "create_byte_list fmt pre k v s = Some (e, w, s') \<Longrightarrow> \<exists>p. w = VString p"
  by (auto simp: create_byte_list_def bind_eq_Some_conv split: conversion_splits dest!: create_kind)

lemma to_decimal_kind: "lai_obj_to_decimal_string out v s = Some (LAI_ERROR_NONE, w, s') \<Longrightarrow> \<exists>p. w = VString p"
  by (auto simp: lai_obj_to_decimal_string_def bind_eq_Some_conv split: conversion_splits dest!: create_kind obj_clone_kind byte_list_kind)

lemma to_hex_kind: "lai_obj_to_hex_string out v s = Some (LAI_ERROR_NONE, w, s') \<Longrightarrow> \<exists>p. w = VString p"
  by (auto simp: lai_obj_to_hex_string_def bind_eq_Some_conv split: conversion_splits dest!: create_kind obj_clone_kind byte_list_kind)

lemma to_integer_kind: "lai_obj_to_integer out v s = Some (LAI_ERROR_NONE, w, s') \<Longrightarrow> \<exists>i. w = VInteger i"
  by (auto simp: lai_obj_to_integer_def bind_eq_Some_conv split: conversion_splits dest!: obj_clone_kind)


subsection \<open>Instances\<close>

definition text_example :: "u8 list" where
  "text_example = replicate 20 0x41 @ [0]"

definition convert_example :: "(u32 \<times> (u8 \<Rightarrow> u32)) lai_obj_state" where
  "convert_example = set_head 0x100 (HString \<lparr>sh_rc = 1, sh_capacity = 21, sh_content = 0x180, sh_chars = text_example\<rparr>) obj_example"

lemma convert_example_string:
  "string_head (head_at convert_example) 0x100 = Some \<lparr>sh_rc = 1, sh_capacity = 21, sh_content = 0x180, sh_chars = text_example\<rparr>"
  by (simp add: convert_example_def set_head_def string_head_def)

lemma convert_example_resize: "lai_obj_resize_string (VString 0x100) 17 convert_example = Some (LAI_ERROR_NONE, convert_example)"
proof -
  have "text_length text_example = Some 20" unfolding text_example_def by (subst text_length_terminated) simp_all
  then show ?thesis by (simp add: lai_obj_resize_string_def convert_example_string)
qed

theorem lai_mutate_string_integer_witness:
  "\<exists>s'. lai_mutate_string (VString 0x100) (VInteger 0x1F) convert_example = Some (LAI_ERROR_NONE, s') \<and>
     lai_mutate_integer (VInteger 0) (VString 0x100) s' = Some (LAI_ERROR_NONE, VInteger 0x1F, s')"
  using lai_mutate_string_integer [OF convert_example_resize convert_example_string, of "0x1F" 0] by (simp add: text_example_def)

lemma convert_integer: "lai_obj_to_integer VNone (VInteger i) s = Some (LAI_ERROR_NONE, VInteger i, s)"
  by (simp add: lai_obj_to_integer_def lai_obj_clone_def lai_var_assign_def add_ref_def lai_var_move_def lai_swap_object_def
    lai_var_finalize_def finalize_list_def release.simps)

theorem lai_obj_decimal_roundtrip_witness:
  "\<exists>v s'. lai_obj_to_decimal_string VNone (VInteger 1234) empty_example = Some (LAI_ERROR_NONE, v, s') \<and>
     lai_obj_to_integer VNone v s' = Some (LAI_ERROR_NONE, VInteger 1234, s')"
  using lai_obj_decimal_roundtrip [OF empty_example_ok(1), of VNone 1234 VNone] by simp


end
