(* ===== verification/LaiEval.thy ===== *)
theory LaiEval
  imports LaiConvert
begin

text \<open>
  The byte swaps and the identifiers of \<open>core/eval.c\<close>, and the methods an operating system answers itself
  (\<open>core/os_methods.c\<close>): \<open>_OSI\<close>, \<open>_OS_\<close> and \<open>_REV\<close>.  A C string that is passed in is the list of its bytes without the
  terminator.  Log output is left out.
\<close>

subsection \<open>Byte order\<close>

definition bswap16 :: "u16 \<Rightarrow> u16" where
  "bswap16 word' = (drop_bit 8 word' AND 0xFF) OR (push_bit 8 word' AND 0xFF00)"

definition bswap32 :: "u32 \<Rightarrow> u32" where
  "bswap32 dword = (drop_bit 24 dword AND 0xFF) OR (push_bit 8 dword AND 0xFF0000) OR (drop_bit 8 dword AND 0xFF00) OR
     (push_bit 24 dword AND 0xFF000000)"

definition bswap64 :: "u64 \<Rightarrow> u64" where
  "bswap64 qword =
     drop_bit 56 (qword AND push_bit 56 0xFF) OR drop_bit 40 (qword AND push_bit 48 0xFF) OR
     drop_bit 24 (qword AND push_bit 40 0xFF) OR drop_bit 8 (qword AND push_bit 32 0xFF) OR
     push_bit 8 (qword AND push_bit 24 0xFF) OR push_bit 24 (qword AND push_bit 16 0xFF) OR
     push_bit 40 (qword AND push_bit 8 0xFF) OR push_bit 56 (qword AND push_bit 0 0xFF)"

subsection \<open>Identifiers\<close>

text \<open>Characters are signed.\<close>

definition char_to_hex :: "u8 \<Rightarrow> u8" where
  "char_to_hex character =
     (if sint character \<le> 0x39 then character - 0x30
      else if 0x41 \<le> sint character \<and> sint character \<le> 0x46 then character - 0x41 + 10
      else if 0x61 \<le> sint character \<and> sint character \<le> 0x66 then character - 0x61 + 10
      else 0)"

definition lai_eisaid :: "lai_variable \<Rightarrow> u8 list \<Rightarrow> ('d, 'a) lai_obj_state_scheme \<Rightarrow> (lai_variable \<times> ('d, 'a) lai_obj_state_scheme) option" where
  "lai_eisaid obj id' s =
     (if length id' \<noteq> 7
      then do {
        (e, obj, s) \<leftarrow> lai_create_string (of_nat (length id')) s;
        if e \<noteq> LAI_ERROR_NONE then None
        else do { s \<leftarrow> write_string obj 0 id' s; Some (obj, s) } }
      else
        let out = push_bit 26 (scast (id' ! 0) - 0x40) OR push_bit 21 (scast (id' ! 1) - 0x40) OR
              push_bit 16 (scast (id' ! 2) - 0x40) OR push_bit 12 (ucast (char_to_hex (id' ! 3))) OR
              push_bit 8 (ucast (char_to_hex (id' ! 4))) OR push_bit 4 (ucast (char_to_hex (id' ! 5))) OR
              ucast (char_to_hex (id' ! 6)) :: u32
        in Some (VInteger (ucast (bswap32 out)), s))"

subsection \<open>Methods answered by the operating system\<close>

definition lai_emulated_os :: string where "lai_emulated_os = ''Microsoft Windows NT''"

definition lai_implemented_version :: u64 where "lai_implemented_version = 2"

definition supported_osi_strings :: "string list" where
  "supported_osi_strings = [''Windows 2000'', ''Windows 2001'', ''Windows 2001 SP1'', ''Windows 2001.1'', ''Windows 2006'',
     ''Windows 2006.1'', ''Windows 2006 SP1'', ''Windows 2006 SP2'', ''Windows 2009'', ''Windows 2012'', ''Windows 2013'',
     ''Windows 2015'']"

text \<open>The comparison with \<open>lai_strcmp\<close> is equality of the two C strings.\<close>

definition string_of_object :: "heads \<Rightarrow> lai_variable \<Rightarrow> u8 list option" where
  "string_of_object hs v = do { cs \<leftarrow> lai_exec_string_access hs v; n \<leftarrow> text_length cs; Some (take n cs) }"

definition lai_do_osi_method :: "lai_variable list \<Rightarrow> ('d, 'a) lai_obj_state_scheme \<Rightarrow>
    (lai_variable \<times> ('d, 'a) lai_obj_state_scheme) option" where
  "lai_do_osi_method args s = do {
     query \<leftarrow> string_of_object (head_at s) (args ! 0);
     let osi_return = (if \<exists>t \<in> set supported_osi_strings. query = map of_char t then 0xFFFFFFFF else 0 :: u32);
     Some (VInteger (ucast osi_return), s) }"

definition lai_do_os_method :: "lai_variable list \<Rightarrow> ('d, 'a) lai_obj_state_scheme \<Rightarrow>
    (lai_variable \<times> ('d, 'a) lai_obj_state_scheme) option" where
  "lai_do_os_method args s = do {
     (e, v, s) \<leftarrow> lai_create_c_string (map of_char lai_emulated_os) s;
     if e \<noteq> LAI_ERROR_NONE then None else Some (v, s) }"

definition lai_do_rev_method :: "lai_variable list \<Rightarrow> ('d, 'a) lai_obj_state_scheme \<Rightarrow>
    (lai_variable \<times> ('d, 'a) lai_obj_state_scheme) option" where
  "lai_do_rev_method args s = Some (VInteger lai_implemented_version, s)"

subsection \<open>Byte swaps reverse the bytes\<close>

lemma bit_bswap32:
  assumes "i < 32"
  shows "bit (bswap32 x) i = bit x (8 * (3 - i div 8) + i mod 8)"
proof -
  have "i \<in> set [0..<32]" using assms by simp
  moreover have "\<forall>i \<in> set [0..<32]. bit (bswap32 x) i = bit x (8 * (3 - i div 8) + i mod 8)"
    by (simp add: bswap32_def bit_simps upt_rec) (simp add: eval_nat_numeral)
  ultimately show ?thesis by blast
qed

lemma bit_bswap64:
  assumes "i < 64"
  shows "bit (bswap64 x) i = bit x (8 * (7 - i div 8) + i mod 8)"
proof -
  have "i \<in> set [0..<64]" using assms by simp
  moreover have "\<forall>i \<in> set [0..<64]. bit (bswap64 x) i = bit x (8 * (7 - i div 8) + i mod 8)"
    by (simp add: bswap64_def bit_simps upt_rec) (simp add: eval_nat_numeral)
  ultimately show ?thesis by blast
qed

lemma bit_bswap16:
  assumes "i < 16"
  shows "bit (bswap16 x) i = bit x (8 * (1 - i div 8) + i mod 8)"
proof -
  have "i \<in> set [0..<16]" using assms by simp
  moreover have "\<forall>i \<in> set [0..<16]. bit (bswap16 x) i = bit x (8 * (1 - i div 8) + i mod 8)"
    by (simp add: bswap16_def bit_simps upt_rec) (simp add: eval_nat_numeral)
  ultimately show ?thesis by blast
qed

lemma mirror_byte:
  assumes "i < 8 * (k + 1)" and "j = 8 * (k - i div 8) + i mod 8"
  shows "j < 8 * (k + 1) \<and> 8 * (k - j div 8) + j mod 8 = (i :: nat)"
proof -
  have "i div 8 \<le> k" using assms(1) by presburger
  moreover have "j div 8 = k - i div 8" "j mod 8 = i mod 8" using assms(2) by simp_all
  ultimately show ?thesis using assms(2) by simp
qed

lemma bswap32_involution: "bswap32 (bswap32 x) = x"
proof (rule bit_word_eqI)
  fix i assume "i < LENGTH(32)"
  then have "i < 32" by simp
  with mirror_byte [of i 3 "8 * (3 - i div 8) + i mod 8"] show "bit (bswap32 (bswap32 x)) i = bit x i"
    by (simp add: bit_bswap32)
qed

lemma bswap64_involution: "bswap64 (bswap64 x) = x"
proof (rule bit_word_eqI)
  fix i assume "i < LENGTH(64)"
  then have "i < 64" by simp
  with mirror_byte [of i 7 "8 * (7 - i div 8) + i mod 8"] show "bit (bswap64 (bswap64 x)) i = bit x i"
    by (simp add: bit_bswap64)
qed

lemma bswap16_involution: "bswap16 (bswap16 x) = x"
proof (rule bit_word_eqI)
  fix i assume "i < LENGTH(16)"
  then have "i < 16" by simp
  with mirror_byte [of i 1 "8 * (1 - i div 8) + i mod 8"] show "bit (bswap16 (bswap16 x)) i = bit x i"
    by (simp add: bit_bswap16)
qed

subsection \<open>Compressed identifiers\<close>

text \<open>The text of a compressed identifier: three letters of five bits and four hexadecimal digits, highest first.\<close>

definition hex_char :: "u32 \<Rightarrow> u8" where
  "hex_char d = (if d < 10 then 0x30 + ucast d else 0x37 + ucast d)"

definition eisa_text :: "u32 \<Rightarrow> u8 list" where
  "eisa_text w = map (\<lambda>k. 0x40 + ucast (take_bit 5 (drop_bit k w))) [26, 21, 16] @ map (\<lambda>k. hex_char (take_bit 4 (drop_bit k w))) [12, 8, 4, 0]"

definition upper_letter :: "u8 \<Rightarrow> bool" where "upper_letter c \<longleftrightarrow> 0x41 \<le> c \<and> c \<le> 0x5A"

definition upper_hex :: "u8 \<Rightarrow> bool" where "upper_hex c \<longleftrightarrow> 0x30 \<le> c \<and> c \<le> 0x39 \<or> 0x41 \<le> c \<and> c \<le> 0x46"

lemma field_hit: "k + n \<le> 32 \<Longrightarrow> take_bit n (drop_bit k (push_bit k (take_bit n x))) = take_bit n (x :: u32)"
  by (rule bit_word_eqI) (auto simp: bit_simps)

lemma field_above: "k + n \<le> j \<Longrightarrow> take_bit n (drop_bit k (push_bit j x)) = (0 :: u32)"
  by (rule bit_word_eqI) (auto simp: bit_simps)

lemma field_below: "j + l \<le> k \<Longrightarrow> drop_bit k (push_bit j (take_bit l x)) = (0 :: u32)"
  by (rule bit_word_eqI) (auto simp: bit_simps)

lemma field_below_0: "l \<le> k \<Longrightarrow> drop_bit k (take_bit l x) = (0 :: u32)"
  by (rule bit_word_eqI) (auto simp: bit_simps)

lemma field_above_0: "n \<le> j \<Longrightarrow> take_bit n (push_bit j x) = (0 :: u32)"
  by (rule bit_word_eqI) (auto simp: bit_simps)

lemmas eisa_fields = field_hit field_above field_below field_below_0 field_above_0

lemma all_bytes: "(\<forall>n \<in> set [0..<256]. P (word_of_nat n :: u8)) \<Longrightarrow> P c"
proof -
  assume "\<forall>n \<in> set [0..<256]. P (word_of_nat n :: u8)"
  moreover have "unat c < 256" using unsigned_less [of c] by simp
  ultimately show "P c" by force
qed

lemma letter_code:
  assumes "upper_letter c"
  shows "scast c - 0x40 = take_bit 5 (scast c - 0x40 :: u32)" "0x40 + ucast (take_bit 5 (scast c - 0x40 :: u32)) = c"
proof -
  have "upper_letter c \<longrightarrow> scast c - 0x40 = take_bit 5 (scast c - 0x40 :: u32) \<and> 0x40 + ucast (take_bit 5 (scast c - 0x40 :: u32)) = c"
    by (rule all_bytes [of _ c]) code_simp
  then show "scast c - 0x40 = take_bit 5 (scast c - 0x40 :: u32)" "0x40 + ucast (take_bit 5 (scast c - 0x40 :: u32)) = c" using assms by blast+
qed

lemma digit_code:
  assumes "upper_hex c"
  shows "ucast (char_to_hex c) = take_bit 4 (ucast (char_to_hex c) :: u32)" "hex_char (take_bit 4 (ucast (char_to_hex c))) = c"
proof -
  have "upper_hex c \<longrightarrow> ucast (char_to_hex c) = take_bit 4 (ucast (char_to_hex c) :: u32) \<and> hex_char (take_bit 4 (ucast (char_to_hex c))) = c"
    by (rule all_bytes [of _ c]) code_simp
  then show "ucast (char_to_hex c) = take_bit 4 (ucast (char_to_hex c) :: u32)" "hex_char (take_bit 4 (ucast (char_to_hex c))) = c" using assms by blast+
qed

text \<open>An identifier of three capital letters and four hexadecimal digits is compressed to an integer whose bytes, put
  back in order, have the letters and digits as their fields; so it can be read back.\<close>

theorem lai_eisaid_roundtrip:
  assumes "upper_letter a" "upper_letter b" "upper_letter c" "upper_hex d" "upper_hex e" "upper_hex f" "upper_hex g"
  shows "\<exists>w. lai_eisaid obj [a, b, c, d, e, f, g] s = Some (VInteger (ucast w), s) \<and> eisa_text (bswap32 w) = [a, b, c, d, e, f, g]"
proof -
  note codes = letter_code(1) [OF assms(1)] letter_code(1) [OF assms(2)] letter_code(1) [OF assms(3)]
    digit_code(1) [OF assms(4)] digit_code(1) [OF assms(5)] digit_code(1) [OF assms(6)] digit_code(1) [OF assms(7)]
  let ?l = "\<lambda>c. scast c - 0x40 :: u32" and ?d = "\<lambda>c. ucast (char_to_hex c) :: u32"
  let ?w = "push_bit 26 (?l a) OR push_bit 21 (?l b) OR push_bit 16 (?l c) OR push_bit 12 (?d d) OR push_bit 8 (?d e) OR push_bit 4 (?d f) OR ?d g"
  have w: "?w = push_bit 26 (take_bit 5 (?l a)) OR push_bit 21 (take_bit 5 (?l b)) OR push_bit 16 (take_bit 5 (?l c)) OR
    push_bit 12 (take_bit 4 (?d d)) OR push_bit 8 (take_bit 4 (?d e)) OR push_bit 4 (take_bit 4 (?d f)) OR take_bit 4 (?d g)"
    using codes by simp
  have "lai_eisaid obj [a, b, c, d, e, f, g] s = Some (VInteger (ucast (bswap32 ?w)), s)" by (simp add: lai_eisaid_def)
  moreover have "eisa_text ?w = [a, b, c, d, e, f, g]"
    unfolding w eisa_text_def by (simp add: eisa_fields letter_code(2) digit_code(2) assms)
  ultimately show ?thesis by (metis bswap32_involution)
qed

theorem lai_eisaid_roundtrip_witness:
  "\<exists>w. lai_eisaid VNone [0x50, 0x4E, 0x50, 0x30, 0x41, 0x30, 0x33] convert_example = Some (VInteger (ucast w), convert_example) \<and>
    eisa_text (bswap32 w) = [0x50, 0x4E, 0x50, 0x30, 0x41, 0x30, 0x33]"
  by (rule lai_eisaid_roundtrip) (simp_all add: upper_letter_def upper_hex_def)

end
