(* ===== verification/LaiList.thy ===== *)
theory LaiList
  imports DList
begin

text \<open>
  The lists of the interpreter, \<open>core/util-list.h\<close>: circular lists through a hook that is not an element.  The hook
  and the items are addresses in one store of links; the represented sequence is again the interface
  \<open>linked_sequence\<close>.
\<close>

subsection \<open>Operations\<close>

definition lai_list_init :: "addr \<Rightarrow> links \<Rightarrow> links" where
  "lai_list_init hook l = set_prv hook hook (set_nxt hook hook l)"

definition lai_list_link :: "addr \<Rightarrow> addr \<Rightarrow> links \<Rightarrow> links" where
  "lai_list_link hook it l =
     (let tl' = le_prev (l hook);
          l = set_nxt it hook l;
          l = set_prv it tl' l;
          l = set_nxt tl' it l
      in set_prv hook it l)"

definition lai_list_unlink :: "addr \<Rightarrow> links \<Rightarrow> links" where
  "lai_list_unlink it l =
     (let pv = le_prev (l it); nx = le_next (l it);
          l = set_prv it 0 l;
          l = set_nxt it 0 l;
          l = set_nxt pv nx l
      in set_prv nx pv l)"

definition lai_list_first :: "addr \<Rightarrow> links \<Rightarrow> addr" where
  "lai_list_first hook l = (let nx = le_next (l hook) in if nx = hook then 0 else nx)"

definition lai_list_next :: "addr \<Rightarrow> addr \<Rightarrow> links \<Rightarrow> addr" where
  "lai_list_next hook it l = (let nx = le_next (l it) in if nx = hook then 0 else nx)"

text \<open>The items a loop from \<open>lai_list_first\<close> over \<open>lai_list_next\<close> visits.\<close>

partial_function (option) items_from :: "addr \<Rightarrow> links \<Rightarrow> addr \<Rightarrow> addr list option" where
  "items_from hook l it =
     (if it = 0 then Some [] else do { r \<leftarrow> items_from hook l (lai_list_next hook it l); Some (it # r) })"

definition lai_list_items :: "addr \<Rightarrow> links \<Rightarrow> addr list option" where
  "lai_list_items hook l = items_from hook l (lai_list_first hook l)"

subsection \<open>The represented sequence\<close>

definition ring :: "addr \<Rightarrow> links \<Rightarrow> addr list \<Rightarrow> bool" where
  "ring hook l xs \<longleftrightarrow> distinct (hook # xs) \<and> 0 \<notin> set (hook # xs) \<and> seg l (last (hook # xs)) (hook # xs) hook"

lemma ring_init: "hook \<noteq> 0 \<Longrightarrow> ring hook (lai_list_init hook l) []"
  by (simp add: ring_def lai_list_init_def)

lemma ring_link:
  assumes "ring hook l xs" and "x \<notin> set xs" and "x \<noteq> hook" and "x \<noteq> 0"
  shows "ring hook (lai_list_link hook x l) (xs @ [x])"
proof (cases xs rule: rev_cases)
  case Nil
  with assms show ?thesis by (auto simp: ring_def lai_list_link_def Let_def)
next
  case (snoc ys y)
  then have "le_prev (l hook) = y" using assms(1) by (simp add: ring_def)
  with assms snoc show ?thesis
    by (cases ys) (auto simp: ring_def lai_list_link_def Let_def seg_append seg_frame hd_append)
qed

lemma ring_unlink:
  assumes "ring hook l (xs @ x # ys)"
  shows "ring hook (lai_list_unlink x l) (xs @ ys)"
proof (cases xs rule: rev_cases)
  case Nil
  with assms show ?thesis
    by (cases ys) (auto simp: ring_def lai_list_unlink_def Let_def seg_frame)
next
  case (snoc us w)
  with assms show ?thesis
    by (cases ys; cases us) (auto simp: ring_def lai_list_unlink_def Let_def seg_append seg_frame hd_append)
qed

lemma items_from_seg:
  "seg l p xs hook \<Longrightarrow> hook \<notin> set xs \<Longrightarrow> 0 \<notin> set xs \<Longrightarrow> items_from hook l (if xs = [] then 0 else hd xs) = Some xs"
proof (induction xs arbitrary: p)
  case Nil
  then show ?case by (simp add: items_from.simps)
next
  case (Cons x xs)
  then have "lai_list_next hook x l = (if xs = [] then 0 else hd xs)" by (auto simp: lai_list_next_def Let_def)
  with Cons show ?case by (subst items_from.simps) auto
qed

lemma ring_items:
  assumes "ring hook l xs"
  shows "lai_list_items hook l = Some xs"
proof -
  have "lai_list_first hook l = (if xs = [] then 0 else hd xs)"
    using assms by (auto simp: ring_def lai_list_first_def Let_def) (metis hd_in_set)
  then show ?thesis using assms items_from_seg [of l hook xs hook] by (simp add: lai_list_items_def ring_def)
qed

interpretation lai_ring: linked_sequence "ring hook" "lai_list_link hook" lai_list_unlink "lai_list_items hook" "\<lambda>x. x \<noteq> hook \<and> x \<noteq> 0"
proof unfold_locales
  show "ring hook s xs \<Longrightarrow> distinct xs" for s xs by (simp add: ring_def)
qed (simp_all add: ring_link ring_unlink ring_items)

subsection \<open>Properties\<close>

text \<open>The nodes linked to a fresh list are visited in the order they were linked, and unlinking any of them leaves
  the others in that order.\<close>

theorem lai_list_link_unlink:
  assumes "distinct (hook # xs)" and "0 \<notin> set (hook # xs)" and "x \<in> set xs"
  shows "lai_list_items hook (lai_list_unlink x (fold (lai_list_link hook) xs (lai_list_init hook l))) = Some (remove1 x xs)"
proof -
  have "ring hook (lai_list_init hook l) []" using assms(2) by (simp add: ring_init)
  then have "ring hook (fold (lai_list_link hook) xs (lai_list_init hook l)) xs"
    using lai_ring.rep_fold_add [of hook "lai_list_init hook l" "[]" xs] assms(1,2) by (simp add: list_all_iff) metis
  then show ?thesis using assms(3) by (rule lai_ring.elements_remove)
qed

theorem lai_list_link_unlink_witness:
  "lai_list_items 0x8 (lai_list_unlink 0x20 (fold (lai_list_link 0x8) [0x10, 0x20, 0x30] (lai_list_init 0x8 (\<lambda>_. \<lparr>le_next = 0, le_prev = 0\<rparr>)))) =
     Some [0x10, 0x30]"
  using lai_list_link_unlink [of "0x8" "[0x10, 0x20, 0x30]" "0x20"] by simp

end
