(* ===== verification/LaiState.thy ===== *)
theory LaiState
  imports LaiConvert LaiList
begin

text \<open>
  The state of the interpreter (\<open>lai_state_t\<close> of \<open>core/internal-exec.h\<close>): four stacks, for contexts, code blocks,
  execution items and operands.  Each is an array that starts in the state itself (base 0 here) and moves to the
  kernel heap when it is full (the inline functions of \<open>core/exec_impl.h\<close>).  The entries in use are a list, the oldest
  first; the stack pointer is its length, or one less.  Invocations are heap blocks kept in a store, as variables
  may refer to their arguments and locals.  A failed assertion, or an access outside an array, has no result.
\<close>

subsection \<open>Items\<close>

record lai_invocation =
  inv_arg :: "lai_variable list"
  inv_local :: "lai_variable list"

record lai_ctxitem =
  cx_amls :: addr
  cx_code :: addr
  cx_handle :: addr
  cx_invocation :: addr

record lai_blkitem =
  bk_pc :: int
  bk_limit :: int

text \<open>One constructor per tag of an operand; a new operand is all zeros.\<close>

datatype lai_operand = OpEmpty | OpObject lai_variable | OpNull | OpUnresolved addr addr | OpResolved addr
  | OpArg nat | OpLocal nat | OpDebug

text \<open>One constructor per kind of an item, with the members of the union in use for it; the operand frame comes first.\<close>

datatype lai_stackitem = SPopulate | SMethod bool | SLoop nat bool int | SCond nat bool bool int int | SBuffer nat bool
  | SPackage nat nat nat bool | SNode nat u32 "nat list" | SOp nat u32 "nat list" bool | SInvoke nat nat bool
  | SReturn nat | SBankField nat | SVarPackage nat nat nat bool

definition sizeof_lai_ctxitem :: nat where "sizeof_lai_ctxitem = 32"
definition sizeof_lai_blkitem :: nat where "sizeof_lai_blkitem = 8"
definition sizeof_lai_stackitem :: nat where "sizeof_lai_stackitem = 24"
definition sizeof_lai_operand :: nat where "sizeof_lai_operand = 56"
definition sizeof_lai_invocation :: u64 where "sizeof_lai_invocation = 736"

text \<open>The hook of the list of a method's nodes, and a node's place in that list.\<close>

definition per_method_list :: "addr \<Rightarrow> addr" where "per_method_list inv' = inv' + 720"

definition per_method_item :: "addr \<Rightarrow> addr" where "per_method_item node = node + 168"

subsection \<open>Stacks\<close>

record 'i item_stack =
  st_base :: addr
  st_capacity :: nat
  st_items :: "'i list"

record lai_state =
  ctxstack :: "lai_ctxitem item_stack"
  blkstack :: "lai_blkitem item_stack"
  stack :: "lai_stackitem item_stack"
  opstack :: "lai_operand item_stack"

record 'd lai_exec_state = "'d lai_obj_state" +
  inv_at :: "addr \<rightharpoonup> lai_invocation"
  list_links :: links

definition LAI_SMALL_CTXSTACK_SIZE :: nat where "LAI_SMALL_CTXSTACK_SIZE = 8"
definition LAI_SMALL_BLKSTACK_SIZE :: nat where "LAI_SMALL_BLKSTACK_SIZE = 8"
definition LAI_SMALL_STACK_SIZE :: nat where "LAI_SMALL_STACK_SIZE = 16"
definition LAI_SMALL_OPSTACK_SIZE :: nat where "LAI_SMALL_OPSTACK_SIZE = 16"

text \<open>
  Making room for one more item: the array doubles when it is full.  The items are copied, so the list stays; the
  result is whether the allocation failed.
\<close>

definition reserve_items :: "nat \<Rightarrow> 'i item_stack \<Rightarrow> 'a heap_state_scheme \<Rightarrow> (bool \<times> 'i item_stack \<times> 'a heap_state_scheme) option" where
  "reserve_items sz k s =
     (if length (st_items k) = st_capacity k
      then do {
        let new_capacity = 2 * st_capacity k;
        (new_stack, s) \<leftarrow> laihost_malloc (of_nat (new_capacity * sz)) s;
        if new_stack = 0 then Some (True, k, s)
        else do {
          s \<leftarrow> (if st_base k \<noteq> 0 then laihost_free (st_base k) (of_nat (st_capacity k * sz)) s else Some s);
          Some (False, k\<lparr>st_base := new_stack, st_capacity := new_capacity\<rparr>, s) } }
      else Some (False, k, s))"

definition push_item :: "'i \<Rightarrow> 'i item_stack \<Rightarrow> 'i item_stack option" where
  "push_item x k = (if length (st_items k) < st_capacity k then Some (k\<lparr>st_items := st_items k @ [x]\<rparr>) else None)"

definition peek_item :: "nat \<Rightarrow> 'i item_stack \<Rightarrow> 'i option" where
  "peek_item n k = (if n < length (st_items k) then Some (st_items k ! (length (st_items k) - 1 - n)) else None)"

definition pop_item :: "'i item_stack \<Rightarrow> 'i item_stack option" where
  "pop_item k = (if st_items k = [] then None else Some (k\<lparr>st_items := butlast (st_items k)\<rparr>))"

text \<open>An update of the item on top, as through the pointer that a push or a peek returns.\<close>

definition update_top :: "('i \<Rightarrow> 'i) \<Rightarrow> 'i item_stack \<Rightarrow> 'i item_stack" where
  "update_top f k = k\<lparr>st_items := (st_items k)[length (st_items k) - 1 := f (st_items k ! (length (st_items k) - 1))]\<rparr>"

subsection \<open>The context stack\<close>

definition lai_exec_reserve_ctxstack :: "lai_state \<Rightarrow> ('d, 'a) lai_exec_state_scheme \<Rightarrow> (bool \<times> lai_state \<times> ('d, 'a) lai_exec_state_scheme) option" where
  "lai_exec_reserve_ctxstack st s = do {
     (e, k, s) \<leftarrow> reserve_items sizeof_lai_ctxitem (ctxstack st) s;
     Some (e, st\<lparr>ctxstack := k\<rparr>, s) }"

definition lai_exec_push_ctxstack :: "lai_ctxitem \<Rightarrow> lai_state \<Rightarrow> lai_state option" where
  "lai_exec_push_ctxstack x st = do { k \<leftarrow> push_item x (ctxstack st); Some (st\<lparr>ctxstack := k\<rparr>) }"

definition lai_exec_peek_ctxstack_back :: "lai_state \<Rightarrow> lai_ctxitem option" where
  "lai_exec_peek_ctxstack_back st = peek_item 0 (ctxstack st)"

definition lai_exec_pop_ctxstack_back :: "lai_state \<Rightarrow> ('d, 'a) lai_exec_state_scheme \<Rightarrow> (lai_state \<times> ('d, 'a) lai_exec_state_scheme) option" where
  "lai_exec_pop_ctxstack_back st s = do {
     ctxitem \<leftarrow> peek_item 0 (ctxstack st);
     let p = cx_invocation ctxitem;
     s \<leftarrow> (if p = 0 then Some s
          else do {
            i \<leftarrow> inv_at s p;
            s \<leftarrow> finalize_list (inv_arg i @ inv_local i) s;
            s \<leftarrow> laihost_free p sizeof_lai_invocation s;
            Some (s\<lparr>inv_at := (inv_at s)(p := None)\<rparr>) });
     k \<leftarrow> pop_item (ctxstack st);
     Some (st\<lparr>ctxstack := k\<rparr>, s) }"

subsection \<open>The block stack\<close>

definition lai_exec_reserve_blkstack :: "lai_state \<Rightarrow> ('d, 'a) lai_exec_state_scheme \<Rightarrow> (bool \<times> lai_state \<times> ('d, 'a) lai_exec_state_scheme) option" where
  "lai_exec_reserve_blkstack st s = do {
     (e, k, s) \<leftarrow> reserve_items sizeof_lai_blkitem (blkstack st) s;
     Some (e, st\<lparr>blkstack := k\<rparr>, s) }"

definition lai_exec_push_blkstack :: "lai_blkitem \<Rightarrow> lai_state \<Rightarrow> lai_state option" where
  "lai_exec_push_blkstack x st = do { k \<leftarrow> push_item x (blkstack st); Some (st\<lparr>blkstack := k\<rparr>) }"

definition lai_exec_peek_blkstack_back :: "lai_state \<Rightarrow> lai_blkitem option" where
  "lai_exec_peek_blkstack_back st = peek_item 0 (blkstack st)"

definition lai_exec_pop_blkstack_back :: "lai_state \<Rightarrow> lai_state option" where
  "lai_exec_pop_blkstack_back st = do { k \<leftarrow> pop_item (blkstack st); Some (st\<lparr>blkstack := k\<rparr>) }"

subsection \<open>The execution stack\<close>

definition lai_exec_reserve_stack :: "lai_state \<Rightarrow> ('d, 'a) lai_exec_state_scheme \<Rightarrow> (bool \<times> lai_state \<times> ('d, 'a) lai_exec_state_scheme) option" where
  "lai_exec_reserve_stack st s = do {
     (e, k, s) \<leftarrow> reserve_items sizeof_lai_stackitem (stack st) s;
     Some (e, st\<lparr>stack := k\<rparr>, s) }"

definition lai_exec_push_stack :: "lai_stackitem \<Rightarrow> lai_state \<Rightarrow> lai_state option" where
  "lai_exec_push_stack x st = do { k \<leftarrow> push_item x (stack st); Some (st\<lparr>stack := k\<rparr>) }"

definition lai_exec_peek_stack :: "lai_state \<Rightarrow> nat \<Rightarrow> lai_stackitem option" where
  "lai_exec_peek_stack st n = peek_item n (stack st)"

definition lai_exec_peek_stack_back :: "lai_state \<Rightarrow> lai_stackitem option" where
  "lai_exec_peek_stack_back st = lai_exec_peek_stack st 0"

definition lai_exec_pop_stack_back :: "lai_state \<Rightarrow> lai_state option" where
  "lai_exec_pop_stack_back st = do { k \<leftarrow> pop_item (stack st); Some (st\<lparr>stack := k\<rparr>) }"

subsection \<open>The operand stack\<close>

definition lai_exec_reserve_opstack :: "lai_state \<Rightarrow> ('d, 'a) lai_exec_state_scheme \<Rightarrow> (bool \<times> lai_state \<times> ('d, 'a) lai_exec_state_scheme) option" where
  "lai_exec_reserve_opstack st s = do {
     (e, k, s) \<leftarrow> reserve_items sizeof_lai_operand (opstack st) s;
     Some (e, st\<lparr>opstack := k\<rparr>, s) }"

text \<open>The room is for one item, however often it is asked for.\<close>

fun lai_exec_reserve_opstack_n :: "nat \<Rightarrow> lai_state \<Rightarrow> ('d, 'a) lai_exec_state_scheme \<Rightarrow> (bool \<times> lai_state \<times> ('d, 'a) lai_exec_state_scheme) option" where
  "lai_exec_reserve_opstack_n 0 st s = Some (False, st, s)"
| "lai_exec_reserve_opstack_n (Suc n) st s = do {
     (e, st, s) \<leftarrow> lai_exec_reserve_opstack st s;
     if e then Some (e, st, s) else lai_exec_reserve_opstack_n n st s }"

definition lai_exec_push_opstack :: "lai_operand \<Rightarrow> lai_state \<Rightarrow> lai_state option" where
  "lai_exec_push_opstack x st = do { k \<leftarrow> push_item x (opstack st); Some (st\<lparr>opstack := k\<rparr>) }"

definition opstack_ptr :: "lai_state \<Rightarrow> nat" where
  "opstack_ptr st = length (st_items (opstack st))"

definition lai_exec_get_opstack :: "lai_state \<Rightarrow> nat \<Rightarrow> lai_operand option" where
  "lai_exec_get_opstack st n = (if n < opstack_ptr st then Some (st_items (opstack st) ! n) else None)"

definition set_operand :: "nat \<Rightarrow> lai_operand \<Rightarrow> lai_state \<Rightarrow> lai_state" where
  "set_operand n x st = st\<lparr>opstack := (opstack st)\<lparr>st_items := (st_items (opstack st))[n := x]\<rparr>\<rparr>"

fun operand_objects :: "lai_operand list \<Rightarrow> lai_variable list" where
  "operand_objects [] = []"
| "operand_objects (OpObject v # xs) = v # operand_objects xs"
| "operand_objects (_ # xs) = operand_objects xs"

definition lai_exec_pop_opstack :: "lai_state \<Rightarrow> nat \<Rightarrow> ('d, 'a) lai_exec_state_scheme \<Rightarrow> (lai_state \<times> ('d, 'a) lai_exec_state_scheme) option" where
  "lai_exec_pop_opstack st n s =
     (if n \<le> opstack_ptr st
      then do {
        let m = opstack_ptr st - n;
        s \<leftarrow> finalize_list (operand_objects (rev (List.drop m (st_items (opstack st))))) s;
        Some (st\<lparr>opstack := (opstack st)\<lparr>st_items := take m (st_items (opstack st))\<rparr>\<rparr>, s) }
      else None)"

definition lai_exec_pop_opstack_back :: "lai_state \<Rightarrow> ('d, 'a) lai_exec_state_scheme \<Rightarrow> (lai_state \<times> ('d, 'a) lai_exec_state_scheme) option" where
  "lai_exec_pop_opstack_back st s = lai_exec_pop_opstack st 1 s"

subsection \<open>Initialisation and finalisation\<close>

definition lai_init_state :: lai_state where
  "lai_init_state =
     \<lparr>ctxstack = \<lparr>st_base = 0, st_capacity = LAI_SMALL_CTXSTACK_SIZE, st_items = []\<rparr>,
      blkstack = \<lparr>st_base = 0, st_capacity = LAI_SMALL_BLKSTACK_SIZE, st_items = []\<rparr>,
      stack = \<lparr>st_base = 0, st_capacity = LAI_SMALL_STACK_SIZE, st_items = []\<rparr>,
      opstack = \<lparr>st_base = 0, st_capacity = LAI_SMALL_OPSTACK_SIZE, st_items = []\<rparr>\<rparr>"

fun pop_contexts :: "nat \<Rightarrow> lai_state \<Rightarrow> ('d, 'a) lai_exec_state_scheme \<Rightarrow> (lai_state \<times> ('d, 'a) lai_exec_state_scheme) option" where
  "pop_contexts 0 st s = Some (st, s)"
| "pop_contexts (Suc n) st s = do { (st, s) \<leftarrow> lai_exec_pop_ctxstack_back st s; pop_contexts n st s }"

definition free_items :: "nat \<Rightarrow> 'i item_stack \<Rightarrow> 'a heap_state_scheme \<Rightarrow> 'a heap_state_scheme option" where
  "free_items sz k s = (if st_base k \<noteq> 0 then laihost_free (st_base k) (of_nat (st_capacity k * sz)) s else Some s)"

definition lai_finalize_state :: "lai_state \<Rightarrow> ('d, 'a) lai_exec_state_scheme \<Rightarrow> ('d, 'a) lai_exec_state_scheme option" where
  "lai_finalize_state st s = do {
     (st, s) \<leftarrow> pop_contexts (length (st_items (ctxstack st))) st s;
     let st = st\<lparr>blkstack := (blkstack st)\<lparr>st_items := []\<rparr>, stack := (stack st)\<lparr>st_items := []\<rparr>\<rparr>;
     (st, s) \<leftarrow> lai_exec_pop_opstack st (opstack_ptr st) s;
     s \<leftarrow> free_items sizeof_lai_ctxitem (ctxstack st) s;
     s \<leftarrow> free_items sizeof_lai_blkitem (blkstack st) s;
     s \<leftarrow> free_items sizeof_lai_stackitem (stack st) s;
     free_items sizeof_lai_operand (opstack st) s }"

end
