(* ===== verification/LaiSync.thy ===== *)
theory LaiSync
  imports Prelude
begin

text \<open>
  The synchronisation words of \<open>core/exec_impl.h\<close>: mutexes and events in one 32-bit word that threads change by atomic
  operations.  The body of each loop is a function of the local copy \<open>v\<close> and the shared word, one atomic operation
  each; a failed compare-and-exchange updates \<open>v\<close>.  From them come the functions as one thread runs them, where the
  host's \<open>laihost_sync_wait\<close> (a function the kernel does not provide, so possibly absent) says what the word is after
  the wait, and the interleavings of any number of threads.  A failed assertion or a missing host function has no result.
\<close>

subsection \<open>Mutexes\<close>

definition LAI_MUTEX_BITS :: u32 where "LAI_MUTEX_BITS = 3"
definition LAI_MUTEX_LOCKED :: u32 where "LAI_MUTEX_LOCKED = 1"
definition LAI_MUTEX_CONTENDED :: u32 where "LAI_MUTEX_CONTENDED = 2"

datatype sync_outcome = Finished | Retry u32 | Block u32

text \<open>A compare-and-exchange of the word: success and the new word, or the word that was found.\<close>

definition compare_exchange :: "u32 \<Rightarrow> u32 \<Rightarrow> u32 \<Rightarrow> u32 + u32" where
  "compare_exchange val v new = (if val = v then Inr new else Inl val)"

definition lock_body :: "u32 \<Rightarrow> u32 \<Rightarrow> (sync_outcome \<times> u32) option" where
  "lock_body v val =
     (if v AND NOT LAI_MUTEX_BITS \<noteq> 0 then None
      else if v AND LAI_MUTEX_LOCKED = 0
      then (case compare_exchange val v LAI_MUTEX_LOCKED of Inr val \<Rightarrow> Some (Finished, val) | Inl v \<Rightarrow> Some (Retry v, val))
      else if v AND LAI_MUTEX_CONTENDED = 0
      then (case compare_exchange val v (LAI_MUTEX_LOCKED OR LAI_MUTEX_CONTENDED) of Inr val \<Rightarrow> Some (Block v, val)
            | Inl v \<Rightarrow> Some (Retry v, val))
      else Some (Block v, val))"

type_synonym sync_wait = "u32 \<Rightarrow> u64 \<Rightarrow> u32 \<Rightarrow> bool \<times> u32"

text \<open>A loop over such a body.  The result says whether the deadline passed.\<close>

partial_function (option) sync_loop :: "(u32 \<Rightarrow> u32 \<Rightarrow> (sync_outcome \<times> u32) option) \<Rightarrow> sync_wait option \<Rightarrow> u64 \<Rightarrow> u32 \<Rightarrow> u32 \<Rightarrow> (bool \<times> u32) option" where
  "sync_loop body host deadline v val = do {
     (r, val) \<leftarrow> body v val;
     (case r of
        Finished \<Rightarrow> Some (False, val)
      | Retry v \<Rightarrow> sync_loop body host deadline v val
      | Block v \<Rightarrow> (case host of None \<Rightarrow> None
          | Some laihost_sync_wait \<Rightarrow>
              (let (expired, val) = laihost_sync_wait (LAI_MUTEX_LOCKED OR LAI_MUTEX_CONTENDED) deadline val
               in if expired then Some (True, val) else sync_loop body host deadline v val))) }"

definition lai_mutex_lock :: "sync_wait option \<Rightarrow> u64 \<Rightarrow> u32 \<Rightarrow> (bool \<times> u32) option" where
  "lai_mutex_lock host deadline val = sync_loop lock_body host deadline val val"

text \<open>The new word, and whether a waiter is to be woken.\<close>

definition unlock_body :: "u32 \<Rightarrow> (u32 \<times> bool) option" where
  "unlock_body v =
     (if v AND NOT LAI_MUTEX_BITS \<noteq> 0 then None
      else if v AND LAI_MUTEX_LOCKED = 0 then None
      else Some (0, v AND LAI_MUTEX_CONTENDED \<noteq> 0))"

definition lai_mutex_unlock :: "(u32 \<Rightarrow> u32) option \<Rightarrow> u32 \<Rightarrow> u32 option" where
  "lai_mutex_unlock host val = do {
     (val, contended) \<leftarrow> unlock_body val;
     if contended then (case host of None \<Rightarrow> None | Some laihost_sync_wake \<Rightarrow> Some (laihost_sync_wake val))
     else Some val }"

subsection \<open>Events\<close>

definition LAI_EVENT_COUNT :: u32 where "LAI_EVENT_COUNT = 0x7FFFFFFF"
definition LAI_EVENT_WAITERS :: u32 where "LAI_EVENT_WAITERS = 0x80000000"

definition wait_body :: "u32 \<Rightarrow> u32 \<Rightarrow> (sync_outcome \<times> u32) option" where
  "wait_body v val =
     (if v AND LAI_EVENT_COUNT \<noteq> 0
      then if v AND LAI_EVENT_WAITERS \<noteq> 0 then None
           else (case compare_exchange val v (v - 1) of Inr val \<Rightarrow> Some (Finished, val) | Inl v \<Rightarrow> Some (Retry v, val))
      else if v AND LAI_EVENT_WAITERS = 0
      then (case compare_exchange val v LAI_EVENT_WAITERS of Inr val \<Rightarrow> Some (Block v, val) | Inl v \<Rightarrow> Some (Retry v, val))
      else Some (Block v, val))"

definition lai_event_wait :: "sync_wait option \<Rightarrow> u64 \<Rightarrow> u32 \<Rightarrow> (bool \<times> u32) option" where
  "lai_event_wait host deadline val = sync_loop wait_body host deadline val val"

text \<open>One round of signalling: the outcome, the new word, and whether a waiter is to be woken.\<close>

definition signal_body :: "u32 \<Rightarrow> u32 \<Rightarrow> (sync_outcome \<times> u32 \<times> bool) option" where
  "signal_body v val =
     (if v AND LAI_EVENT_WAITERS = 0
      then if (v + 1) AND NOT LAI_EVENT_COUNT \<noteq> 0 then None
           else (case compare_exchange val v (v + 1) of Inr val \<Rightarrow> Some (Finished, val, False) | Inl v \<Rightarrow> Some (Retry v, val, False))
      else if v AND LAI_EVENT_COUNT \<noteq> 0 then None
      else (case compare_exchange val v 1 of Inr val \<Rightarrow> Some (Finished, val, True) | Inl v \<Rightarrow> Some (Retry v, val, False)))"

definition reset_body :: "u32 \<Rightarrow> u32 \<Rightarrow> (sync_outcome \<times> u32) option" where
  "reset_body v val =
     (if v AND LAI_EVENT_WAITERS = 0
      then if v AND LAI_EVENT_COUNT \<noteq> 0
           then (case compare_exchange val v 0 of Inr val \<Rightarrow> Some (Finished, val) | Inl v \<Rightarrow> Some (Retry v, val))
           else Some (Finished, val)
      else if v AND LAI_EVENT_COUNT \<noteq> 0 then None
      else Some (Finished, val))"

text \<open>With no other thread the first round of signalling and resetting succeeds.\<close>

definition lai_event_signal :: "(u32 \<Rightarrow> u32) option \<Rightarrow> u32 \<Rightarrow> u32 option" where
  "lai_event_signal host val = do {
     (_, val, wake) \<leftarrow> signal_body val val;
     if wake then (case host of None \<Rightarrow> None | Some laihost_sync_wake \<Rightarrow> Some (laihost_sync_wake val)) else Some val }"

definition lai_event_reset :: "u32 \<Rightarrow> u32 option" where
  "lai_event_reset val = do { (_, val) \<leftarrow> reset_body val val; Some val }"

subsection \<open>Interleavings\<close>

text \<open>
  A thread is a place in its program with its local copy of the word.  A thread that blocks may be woken at any
  time or time out; both leave the word alone.
\<close>

datatype place = Outside | Trying u32 | Blocked u32 | Inside | Signalling u32 | Resetting u32

fun place_of :: "place \<Rightarrow> (u32 \<Rightarrow> place) \<Rightarrow> sync_outcome \<Rightarrow> place" where
  "place_of fin again Finished = fin"
| "place_of fin again (Retry v) = again v"
| "place_of fin again (Block v) = Blocked v"

inductive mutex_thread :: "place \<Rightarrow> u32 \<Rightarrow> place \<Rightarrow> u32 \<Rightarrow> bool" where
  enter: "mutex_thread Outside val (Trying val) val"
| attempt: "lock_body v val = Some (r, val') \<Longrightarrow> mutex_thread (Trying v) val (place_of Inside Trying r) val'"
| woken: "mutex_thread (Blocked v) val (Trying v) val"
| timeout: "mutex_thread (Blocked v) val Outside val"
| leave: "unlock_body val = Some (val', wake) \<Longrightarrow> mutex_thread Inside val Outside val'"

text \<open>For events the word comes with the number of signals given and of waits satisfied.\<close>

inductive event_thread :: "place \<Rightarrow> u32 \<times> nat \<times> nat \<Rightarrow> place \<Rightarrow> u32 \<times> nat \<times> nat \<Rightarrow> bool" where
  ev_wait: "event_thread Outside (val, n, k) (Trying val) (val, n, k)"
| ev_attempt: "wait_body v val = Some (r, val') \<Longrightarrow>
    event_thread (Trying v) (val, n, k) (place_of Outside Trying r) (val', n, if r = Finished then Suc k else k)"
| ev_woken: "event_thread (Blocked v) (val, n, k) (Trying v) (val, n, k)"
| ev_timeout: "event_thread (Blocked v) (val, n, k) Outside (val, n, k)"
| ev_signal: "event_thread Outside (val, n, k) (Signalling val) (val, n, k)"
| ev_signalled: "signal_body v val = Some (r, val', wake) \<Longrightarrow>
    event_thread (Signalling v) (val, n, k) (place_of Outside Signalling r) (val', if r = Finished then Suc n else n, k)"
| ev_reset: "event_thread Outside (val, n, k) (Resetting val) (val, n, k)"
| ev_resetting: "reset_body v val = Some (r, val') \<Longrightarrow> event_thread (Resetting v) (val, n, k) (place_of Outside Resetting r) (val', n, k)"

inductive interleave :: "('p \<Rightarrow> 'w \<Rightarrow> 'p \<Rightarrow> 'w \<Rightarrow> bool) \<Rightarrow> (nat \<Rightarrow> 'p) \<times> 'w \<Rightarrow> (nat \<Rightarrow> 'p) \<times> 'w \<Rightarrow> bool" for thread where
  one: "thread (ps t) w p w' \<Longrightarrow> interleave thread (ps, w) (ps(t := p), w')"

inductive_cases mutex_thread_cases: "mutex_thread p val p' val'"
inductive_cases event_thread_cases: "event_thread p w p' w'"

lemma interleave_invariant:
  assumes "(interleave thread)\<^sup>*\<^sup>* (ps0, w0) (ps, w)" and "ok ps0 w0"
    and "\<And>ps t w p w'. ok ps w \<Longrightarrow> thread (ps t) w p w' \<Longrightarrow> ok (ps(t := p)) w'"
  shows "ok ps w"
  using assms(1,2)
  by (induction "(ps, w)" arbitrary: ps w rule: rtranclp_induct) (auto elim!: interleave.cases intro: assms(3))

subsection \<open>Mutual exclusion\<close>

lemma lock_body_simps [simp]:
  "lock_body 0 val = Some (if val = 0 then (Finished, 1) else (Retry val, val))"
  "lock_body 1 val = Some (if val = 1 then (Block 1, 3) else (Retry val, val))"
  "lock_body 3 val = Some (Block 3, val)"
  by (simp_all add: lock_body_def compare_exchange_def LAI_MUTEX_BITS_def LAI_MUTEX_LOCKED_def LAI_MUTEX_CONTENDED_def)

lemma unlock_body_simps [simp]: "unlock_body 0 = None" "unlock_body 1 = Some (0, False)" "unlock_body 3 = Some (0, True)"
  by (simp_all add: unlock_body_def LAI_MUTEX_BITS_def LAI_MUTEX_LOCKED_def LAI_MUTEX_CONTENDED_def)

definition mutex_word :: "u32 \<Rightarrow> bool" where "mutex_word v \<longleftrightarrow> v = 0 \<or> v = 1 \<or> v = 3"

fun mutex_place :: "place \<Rightarrow> bool" where
  "mutex_place (Trying v) = mutex_word v"
| "mutex_place (Blocked v) = mutex_word v"
| "mutex_place (Signalling v) = False"
| "mutex_place (Resetting v) = False"
| "mutex_place _ = True"

definition mutex_ok :: "(nat \<Rightarrow> place) \<Rightarrow> u32 \<Rightarrow> bool" where
  "mutex_ok ps val \<longleftrightarrow> mutex_word val \<and> (\<forall>t. mutex_place (ps t)) \<and> (\<forall>t u. ps t = Inside \<longrightarrow> ps u = Inside \<longrightarrow> t = u) \<and>
     (val = 0 \<longleftrightarrow> (\<forall>t. ps t \<noteq> Inside))"

lemma mutex_ok_elsewhere:
  assumes "mutex_ok ps val" and "ps t \<noteq> Inside" "p \<noteq> Inside" "mutex_place p" and "mutex_word val'" "val' = 0 \<longleftrightarrow> val = 0"
  shows "mutex_ok (ps(t := p)) val'"
  using assms unfolding mutex_ok_def by (metis fun_upd_apply)

lemma mutex_step:
  assumes ok: "mutex_ok ps val" and "mutex_thread (ps t) val p val'"
  shows "mutex_ok (ps(t := p)) val'"
proof -
  have val: "mutex_word val" using ok by (simp add: mutex_ok_def)
  from assms(2) show ?thesis
  proof (cases rule: mutex_thread.cases)
    case (attempt v r)
    have "v = 0 \<or> v = 1 \<or> v = 3" using ok attempt by (metis mutex_ok_def mutex_place.simps(1) mutex_word_def)
    then show ?thesis
    proof (elim disjE)
      assume "v = 0"
      then show ?thesis using ok attempt val by (auto simp: mutex_ok_def mutex_word_def split: if_splits)
    qed (use attempt val in \<open>auto intro!: mutex_ok_elsewhere [OF ok] simp: mutex_word_def split: if_splits\<close>)
  next
    case (woken v)
    then have "mutex_word v" using ok by (metis mutex_ok_def mutex_place.simps(2))
    then show ?thesis using woken val by (simp add: mutex_ok_elsewhere [OF ok])
  next
    case (leave wake)
    then have "val = 1 \<or> val = 3" using ok by (auto simp: mutex_ok_def mutex_word_def)
    then show ?thesis using ok leave by (elim disjE) (auto simp: mutex_ok_def mutex_word_def)
  qed (use val in \<open>simp_all add: mutex_ok_elsewhere [OF ok]\<close>)
qed

text \<open>C33: In every interleaving of threads that lock and unlock a mutex that was free at first, at most one thread is
  inside, and the assertions of the code hold: neither locking nor unlocking ends in a panic.\<close>

theorem mutex_exclusion:
  assumes "(interleave mutex_thread)\<^sup>*\<^sup>* (\<lambda>_. Outside, 0) (ps, val)"
  shows "(ps t = Inside \<longrightarrow> ps u = Inside \<longrightarrow> t = u) \<and> (ps t = Trying v \<longrightarrow> lock_body v val \<noteq> None) \<and>
    (ps t = Inside \<longrightarrow> unlock_body val \<noteq> None)"
proof -
  have "mutex_ok (\<lambda>_. Outside) 0" by (simp add: mutex_ok_def mutex_word_def)
  then have ok: "mutex_ok ps val" by (rule interleave_invariant [OF assms]) (rule mutex_step)
  have "ps t = Trying v \<Longrightarrow> v = 0 \<or> v = 1 \<or> v = 3" using ok by (metis mutex_ok_def mutex_place.simps(1) mutex_word_def)
  then show ?thesis using ok by (auto simp: mutex_ok_def mutex_word_def)
qed

definition two_threads :: "nat \<Rightarrow> place" where
  "two_threads = (\<lambda>_. Outside)(1 := Inside, 2 := Blocked 1)"

lemma two_threads_reachable: "(interleave mutex_thread)\<^sup>*\<^sup>* (\<lambda>_. Outside, 0) (two_threads, 3)"
proof -
  let ?a = "\<lambda>_ :: nat. Outside"
  have s: "mutex_thread (Trying 0) 0 Inside 1" using attempt [of 0 0 Finished 1] by simp
  have b: "mutex_thread (Trying 1) 1 (Blocked 1) 3" using attempt [of 1 1 "Block 1" 3] by simp
  have "(interleave mutex_thread)\<^sup>*\<^sup>* (?a, 0) (?a, 0)" by simp
  also have "interleave mutex_thread (?a, 0) (?a(1 := Trying 0), 0)" using one [of mutex_thread ?a 1 0 "Trying 0" 0] enter [of 0] by simp
  also have "interleave mutex_thread (?a(1 := Trying 0), 0) (?a(1 := Inside), 1)"
    using one [of mutex_thread "?a(1 := Trying 0)" 1 0 Inside 1] s by simp
  also have "interleave mutex_thread (?a(1 := Inside), 1) (?a(1 := Inside, 2 := Trying 1), 1)"
    using one [of mutex_thread "?a(1 := Inside)" 2 1 "Trying 1" 1] enter [of 1] by simp
  also have "interleave mutex_thread (?a(1 := Inside, 2 := Trying 1), 1) (two_threads, 3)"
    using one [of mutex_thread "?a(1 := Inside, 2 := Trying 1)" 2 1 "Blocked 1" 3] b by (simp add: two_threads_def)
  finally show ?thesis .
qed

theorem mutex_exclusion_witness:
  "two_threads 1 = Inside \<and> two_threads 2 \<noteq> Inside \<and> unlock_body 3 \<noteq> None"
  using mutex_exclusion [OF two_threads_reachable, of 1 2 0] by (auto simp: two_threads_def)

subsection \<open>A contended mutex\<close>

text \<open>The local copy of the word is not read again after a wait, so once it has been seen contended it stays so.\<close>

lemma contended_lock_expires:
  assumes "sync_loop lock_body host deadline 3 val = Some r"
  shows "fst r"
proof -
  have "lock_body = lock_body \<longrightarrow> (3 :: u32) = 3 \<longrightarrow> fst r"
    by (rule sync_loop.raw_induct [where P = "\<lambda>body host deadline v val r. body = lock_body \<longrightarrow> v = 3 \<longrightarrow> fst r", OF _ assms])
      (auto split: option.splits prod.splits if_splits, blast)
  then show ?thesis by simp
qed

text \<open>C34: A free mutex is locked at once and unlocking frees it again, but locking a contended mutex never succeeds: whatever
  the word is after each wait, the call returns only when the deadline passes.\<close>

theorem contended_lock_never_succeeds:
  "lai_mutex_lock host deadline 0 = Some (False, 1) \<and> lai_mutex_unlock wake 1 = Some 0 \<and>
   lai_mutex_lock host deadline 3 \<noteq> Some (False, val)"
proof (intro conjI notI)
  show "lai_mutex_lock host deadline 0 = Some (False, 1)" by (simp add: lai_mutex_lock_def sync_loop.simps)
  show "lai_mutex_unlock wake 1 = Some 0" by (simp add: lai_mutex_unlock_def)
  assume "lai_mutex_lock host deadline 3 = Some (False, val)"
  then show False unfolding lai_mutex_lock_def using contended_lock_expires by fastforce
qed

subsection \<open>Counting\<close>

definition event_count :: "u32 \<Rightarrow> nat" where "event_count v = unat (v AND LAI_EVENT_COUNT)"

definition event_word :: "u32 \<Rightarrow> bool" where "event_word v \<longleftrightarrow> v = LAI_EVENT_WAITERS \<or> v < LAI_EVENT_WAITERS"

lemma waiters_nonzero [simp]: "LAI_EVENT_WAITERS \<noteq> 0" "0 < LAI_EVENT_WAITERS"
  by (simp_all add: LAI_EVENT_WAITERS_def)

lemma waiters_word: "LAI_EVENT_WAITERS AND LAI_EVENT_COUNT = 0" "LAI_EVENT_WAITERS AND LAI_EVENT_WAITERS \<noteq> 0"
  by (simp_all add: LAI_EVENT_WAITERS_def LAI_EVENT_COUNT_def)

lemma count_word:
  assumes "v < LAI_EVENT_WAITERS"
  shows "v AND LAI_EVENT_COUNT = v" "v AND LAI_EVENT_WAITERS = 0"
proof -
  have "unat v < 2 ^ 31" using assms by (simp add: LAI_EVENT_WAITERS_def word_less_nat_alt)
  then have v: "v = take_bit 31 v" by (simp add: take_bit_small)
  have "LAI_EVENT_COUNT = mask 31" by (simp add: LAI_EVENT_COUNT_def mask_eq_exp_minus_1)
  then show "v AND LAI_EVENT_COUNT = v" by (metis v take_bit_eq_mask)
  have "LAI_EVENT_WAITERS = push_bit 31 1" by (simp add: LAI_EVENT_WAITERS_def)
  then have "v AND LAI_EVENT_WAITERS = take_bit 31 v AND push_bit 31 1" using v by (metis push_bit_of_1)
  also have "\<dots> = 0" by (rule bit_word_eqI) (auto simp: bit_simps simp del: push_bit_of_1 push_bit_numeral)
  finally show "v AND LAI_EVENT_WAITERS = 0" .
qed

lemma count_word_bound:
  assumes "v AND NOT LAI_EVENT_COUNT = 0"
  shows "v < LAI_EVENT_WAITERS"
proof -
  have "LAI_EVENT_COUNT = mask 31" by (simp add: LAI_EVENT_COUNT_def mask_eq_exp_minus_1)
  then have "v = take_bit 31 v" using assms
    by (metis bit.conj_disj_distrib bit.conj_one_right bit.disj_cancel_right bit.disj_zero_right take_bit_eq_mask)
  then have "unat v < 2 ^ 31" by (metis unsigned_take_bit_eq take_bit_nat_less_exp)
  then show ?thesis by (simp add: LAI_EVENT_WAITERS_def word_less_nat_alt)
qed

lemma event_count_simps [simp]:
  "event_count LAI_EVENT_WAITERS = 0" "event_count 0 = 0" "event_count 1 = 1"
  "v < LAI_EVENT_WAITERS \<Longrightarrow> event_count v = unat v"
  by (simp_all add: event_count_def waiters_word count_word) (simp add: LAI_EVENT_COUNT_def)

lemma wait_body_count:
  assumes "event_word v"
  shows "wait_body v val =
    (if v = LAI_EVENT_WAITERS then Some (Block v, val) else if val \<noteq> v then Some (Retry val, val)
     else if v = 0 then Some (Block 0, LAI_EVENT_WAITERS) else Some (Finished, v - 1))"
proof (cases "v = LAI_EVENT_WAITERS")
  case True
  then show ?thesis by (simp add: wait_body_def waiters_word)
next
  case False
  then have "v < LAI_EVENT_WAITERS" using assms by (simp add: event_word_def)
  with False show ?thesis by (simp add: wait_body_def count_word compare_exchange_def)
qed

lemma signal_body_count:
  assumes "event_word v" "signal_body v val = Some (r, val', wake)"
  shows "if val \<noteq> v then r = Retry val \<and> val' = val else r = Finished \<and> event_word val' \<and> event_count val' = Suc (event_count val)"
proof (cases "v = LAI_EVENT_WAITERS")
  case True
  have "event_word 1" by (simp add: event_word_def LAI_EVENT_WAITERS_def)
  then show ?thesis using True assms(2) by (auto simp: signal_body_def waiters_word compare_exchange_def split: if_splits)
next
  case False
  then have v: "v < LAI_EVENT_WAITERS" using assms(1) by (simp add: event_word_def)
  then have "v + 1 < LAI_EVENT_WAITERS" using assms(2) count_word_bound
    by (auto simp: signal_body_def count_word split: if_splits)
  moreover have "unat (v + 1) = Suc (unat v)" using v by (simp add: unat_word_ariths word_less_nat_alt LAI_EVENT_WAITERS_def)
  ultimately show ?thesis using v assms(2)
    by (auto simp: signal_body_def count_word compare_exchange_def event_word_def split: if_splits)
qed

lemma reset_body_count:
  assumes "event_word v" "reset_body v val = Some (r, val')"
  shows "(r = Finished \<or> r = Retry val) \<and> (val' = val \<or> val' = 0)"
  using assms by (auto simp: reset_body_def compare_exchange_def split: if_splits)

fun event_place :: "place \<Rightarrow> bool" where
  "event_place (Trying v) = event_word v"
| "event_place (Blocked v) = event_word v"
| "event_place (Signalling v) = event_word v"
| "event_place (Resetting v) = event_word v"
| "event_place _ = True"

definition event_ok :: "(nat \<Rightarrow> place) \<Rightarrow> u32 \<times> nat \<times> nat \<Rightarrow> bool" where
  "event_ok ps w \<longleftrightarrow> (\<forall>t. event_place (ps t)) \<and> (case w of (val, n, k) \<Rightarrow> event_word val \<and> k + event_count val \<le> n)"

lemma event_thread_ok:
  assumes "event_thread p (val, n, k) p' (val', n', k')" and "event_place p" "event_word val" "k + event_count val \<le> n"
  shows "event_place p' \<and> event_word val' \<and> k' + event_count val' \<le> n'"
  using assms(1)
proof (cases rule: event_thread.cases)
  case (ev_attempt v r)
  have "event_word (v - 1)" "event_count v = Suc (event_count (v - 1))" if "v < LAI_EVENT_WAITERS" "v \<noteq> 0"
  proof -
    have "unat (v - 1) = unat v - 1" "0 < unat v" using that(2) by (simp_all add: unat_minus_one unat_gt_0)
    then have "v - 1 < LAI_EVENT_WAITERS" using that(1) by (simp add: word_less_nat_alt)
    then show "event_word (v - 1)" "event_count v = Suc (event_count (v - 1))"
      using that \<open>unat (v - 1) = unat v - 1\<close> \<open>0 < unat v\<close> by (simp_all add: event_word_def)
  qed
  then show ?thesis using ev_attempt assms(2-4) by (auto simp: wait_body_count event_word_def split: if_splits)
next
  case (ev_signalled v r wake)
  then show ?thesis using signal_body_count [of v val r val' wake] assms(2-4) by (auto split: if_splits)
next
  case (ev_resetting v r)
  then show ?thesis using reset_body_count [of v val r val'] assms(2-4) by (auto simp: event_word_def)
qed (use assms(2-4) in auto)

text \<open>In every interleaving of threads that wait for, signal and reset an event, the waits that were satisfied and the
  signals still counted in the word together do not exceed the signals given, and waiting never ends in a panic.\<close>

theorem event_waits_signalled:
  assumes "(interleave event_thread)\<^sup>*\<^sup>* (\<lambda>_. Outside, (0, 0, 0)) (ps, (val, n, k))"
  shows "k + event_count val \<le> n \<and> (ps t = Trying v \<longrightarrow> wait_body v val \<noteq> None)"
proof -
  have "event_ok (\<lambda>_. Outside) (0, 0, 0)" by (simp add: event_ok_def event_word_def LAI_EVENT_WAITERS_def)
  then have ok: "event_ok ps (val, n, k)"
  proof (rule interleave_invariant [OF assms])
    fix ps t w p w' assume "event_ok ps w" "event_thread (ps t) w p w'"
    then show "event_ok (ps(t := p)) w'" by (cases w; cases w') (auto simp: event_ok_def dest: event_thread_ok)
  qed
  have "ps t = Trying v \<Longrightarrow> event_word v" using ok by (metis event_ok_def event_place.simps(1))
  then show ?thesis using ok by (simp add: event_ok_def wait_body_count)
qed

lemma signalled_once: "(interleave event_thread)\<^sup>*\<^sup>* (\<lambda>_. Outside, (0, 0, 0)) ((\<lambda>_. Outside)(1 := Trying 1), (1, 1, 0))"
proof -
  let ?a = "\<lambda>_ :: nat. Outside"
  have s: "event_thread (Signalling 0) (0, 0, 0) Outside (1, 1, 0)" using ev_signalled [of 0 0 Finished 1 False 0 0]
    by (simp add: signal_body_def compare_exchange_def LAI_EVENT_COUNT_def)
  have "(interleave event_thread)\<^sup>*\<^sup>* (?a, (0, 0, 0)) (?a, (0, 0, 0))" by simp
  also have "interleave event_thread (?a, (0, 0, 0)) (?a(2 := Signalling 0), (0, 0, 0))"
    using one [of event_thread ?a 2 "(0, 0, 0)" "Signalling 0" "(0, 0, 0)"] ev_signal [of 0 0 0] by simp
  also have "interleave event_thread (?a(2 := Signalling 0), (0, 0, 0)) (?a, (1, 1, 0))"
    using one [of event_thread "?a(2 := Signalling 0)" 2 "(0, 0, 0)" Outside "(1, 1, 0)"] s by (simp add: fun_upd_idem)
  also have "interleave event_thread (?a, (1, 1, 0)) (?a(1 := Trying 1), (1, 1, 0))"
    using one [of event_thread ?a 1 "(1, 1, 0)" "Trying 1" "(1, 1, 0)"] ev_wait [of 1 1 0] by simp
  finally show ?thesis .
qed

theorem event_waits_signalled_witness:
  "event_count 1 \<le> 1 \<and> wait_body 1 1 \<noteq> None"
  using event_waits_signalled [OF signalled_once, of 1 1] by simp

end
