(* ===== verification/LaiOperand.thy ===== *)
theory LaiOperand
  imports LaiState LaiSync
begin

text \<open>
  Loads and stores of operands, \<open>core/exec-operand.c\<close>: references, named objects, fields of buffers, arguments and
  locals of the running method.  What the host provides is a parameter: the devices behind operation regions, a
  timer, waiting and waking, and the functions a driver may install on a node.  A store to a variable in an
  invocation, a node or a package writes the new value before the old one is finalised.  A panic has no result.
\<close>

subsection \<open>The host\<close>

record ('d, 's) exec_env =
  xe_depth :: nat
  xe_io :: "'d wide_bus"
  xe_region :: "'s region_env"
  xe_timer :: "('s \<Rightarrow> u64 \<times> 's) option"
  xe_wait :: "sync_wait option"
  xe_wake :: "(u32 \<Rightarrow> u32) option"
  xe_amldebug :: "(lai_variable \<Rightarrow> 's \<Rightarrow> 's) option"
  xe_global_notify :: "(addr \<Rightarrow> u32 \<Rightarrow> 's \<Rightarrow> 's) option"
  xe_notify :: "addr \<Rightarrow> addr \<Rightarrow> u32 \<Rightarrow> addr \<Rightarrow> 's \<Rightarrow> (lai_api_error \<times> 's) option"
  xe_override :: "addr \<Rightarrow> lai_variable list \<Rightarrow> 's \<Rightarrow> (lai_api_error \<times> lai_variable \<times> 's) option"

type_synonym ('d, 'a) env = "('d, ('d, 'a) lai_exec_state_scheme) exec_env"

text \<open>
  The member \<open>integer\<close> of a variable.  For the types that do not use it the code reads what an earlier value left
  there; such a read has no result.
\<close>

fun var_integer :: "lai_variable \<Rightarrow> u64 option" where
  "var_integer VNone = Some 0"
| "var_integer (VInteger i) = Some i"
| "var_integer (VStringIndex p i) = Some i"
| "var_integer (VBufferIndex p i) = Some i"
| "var_integer (VPackageIndex p i) = Some i"
| "var_integer _ = None"

subsection \<open>Fields of buffers\<close>

function write_bits :: "u64 \<Rightarrow> nat \<Rightarrow> nat \<Rightarrow> nat \<Rightarrow> u8 list \<Rightarrow> u8 list option" where
  "write_bits val off sz n data =
     (if n < sz
      then let b = (off + n) mod 8;
               m = min (sz - n) (8 - b);
               msk = mask m :: u8;
               i = (off + n) div 8
           in if 64 \<le> n \<or> length data \<le> i then None
              else write_bits val off sz (n + m)
                     (data[i := (data ! i AND NOT (push_bit b msk)) OR push_bit b (ucast (drop_bit n val) AND msk)])
      else Some data)"
  by pat_completeness auto
termination
  by (relation "measure (\<lambda>(val, off, sz, n, data). sz - n)") (auto simp: Let_def)

function read_bits :: "u8 list \<Rightarrow> nat \<Rightarrow> nat \<Rightarrow> nat \<Rightarrow> u64 \<Rightarrow> u64 option" where
  "read_bits data off sz n val =
     (if n < sz
      then let b = (off + n) mod 8;
               m = min (sz - n) (8 - b);
               msk = mask m :: u8;
               i = (off + n) div 8
           in if 64 \<le> n \<or> length data \<le> i then None
              else read_bits data off sz (n + m) (val OR push_bit n (ucast (data ! i AND msk)))
      else Some val)"
  by pat_completeness auto
termination
  by (relation "measure (\<lambda>(data, off, sz, n, val). sz - n)") (auto simp: Let_def)

declare write_bits.simps [simp del] read_bits.simps [simp del]

definition lai_write_buffer :: "addr \<Rightarrow> lai_variable \<Rightarrow> ('d, 'a) lai_obj_state_scheme \<Rightarrow> ('d, 'a) lai_obj_state_scheme option" where
  "lai_write_buffer handle source s = do {
     val \<leftarrow> var_integer source;
     let nd = node_at s handle;
     h \<leftarrow> buffer_head (head_at s) (bf_buffer nd);
     data \<leftarrow> write_bits val (unat (bf_offset nd)) (unat (bf_size nd)) 0 (bh_bytes h);
     Some (set_head (bf_buffer nd) (HBuffer (h\<lparr>bh_bytes := data\<rparr>)) s) }"

definition lai_read_buffer :: "addr \<Rightarrow> ('d, 'a) lai_obj_state_scheme \<Rightarrow> lai_variable option" where
  "lai_read_buffer handle s = do {
     let nd = node_at s handle;
     h \<leftarrow> buffer_head (head_at s) (bf_buffer nd);
     i \<leftarrow> read_bits (bh_bytes h) (unat (bf_offset nd)) (unat (bf_size nd)) 0 0;
     Some (VInteger i) }"

subsection \<open>Fields of operation regions as objects\<close>

definition read_field_object :: "('d, 'a) env \<Rightarrow> addr \<Rightarrow> ('d, 'a) lai_exec_state_scheme \<Rightarrow>
    (lai_variable \<times> ('d, 'a) lai_exec_state_scheme) option" where
  "read_field_object env field s = (let bytes = (unat (fld_size (node_at s field)) + 7) div 8
     in if 8 < bytes
        then do {
          (e, v, s) \<leftarrow> lai_create_buffer (of_nat bytes) s;
          if e \<noteq> LAI_ERROR_NONE then None
          else do {
            (bs, s) \<leftarrow> lai_read_field_internal (xe_depth env) (xe_io env) (xe_region env) (replicate bytes 0) field s;
            s \<leftarrow> write_buffer v 0 bs s;
            Some (v, s) } }
        else do {
          (v, s) \<leftarrow> lai_read_field (xe_depth env) (xe_io env) (xe_region env) field s;
          case v of FInteger i \<Rightarrow> Some (VInteger i, s) | _ \<Rightarrow> None })"

definition read_opregion_object :: "('d, 'a) env \<Rightarrow> lai_variable \<Rightarrow> addr \<Rightarrow> ('d, 'a) lai_exec_state_scheme \<Rightarrow>
    (lai_variable \<times> ('d, 'a) lai_exec_state_scheme) option" where
  "read_opregion_object env dest field s = do {
     s \<leftarrow> (if nd_type (node_at s field) = LAI_NAMESPACE_BANKFIELD
          then lai_write_field (xe_depth env) (xe_io env) (xe_region env) (fld_bkf_bank_node (node_at s field))
                 (FInteger (fld_bkf_value (node_at s field))) s
          else Some s);
     (v, s) \<leftarrow> read_field_object env field s;
     (dest, _, s) \<leftarrow> lai_var_move dest v s;
     Some (dest, s) }"

definition field_value_of :: "heads \<Rightarrow> lai_variable \<Rightarrow> field_value option" where
  "field_value_of hs v = (case v of
     VInteger i \<Rightarrow> Some (FInteger i)
   | VBuffer _ \<Rightarrow> map_option FBuffer (lai_exec_buffer_access hs v)
   | VString _ \<Rightarrow> map_option FString (lai_exec_string_access hs v)
   | _ \<Rightarrow> None)"

definition write_opregion_object :: "('d, 'a) env \<Rightarrow> addr \<Rightarrow> lai_variable \<Rightarrow> ('d, 'a) lai_exec_state_scheme \<Rightarrow>
    ('d, 'a) lai_exec_state_scheme option" where
  "write_opregion_object env field v s = do {
     fv \<leftarrow> field_value_of (head_at s) v;
     lai_write_opregion (xe_depth env) (xe_io env) (xe_region env) field fv s }"

subsection \<open>Named objects\<close>

definition is_field :: "u32 \<Rightarrow> bool" where
  "is_field ty \<longleftrightarrow> ty = LAI_NAMESPACE_FIELD \<or> ty = LAI_NAMESPACE_INDEXFIELD \<or> ty = LAI_NAMESPACE_BANKFIELD"

definition is_handle :: "u32 \<Rightarrow> bool" where
  "is_handle ty \<longleftrightarrow> ty = LAI_NAMESPACE_EVENT \<or> ty = LAI_NAMESPACE_MUTEX \<or> ty = LAI_NAMESPACE_OPREGION \<or> ty = LAI_NAMESPACE_THERMALZONE \<or>
     ty = LAI_NAMESPACE_PROCESSOR \<or> ty = LAI_NAMESPACE_POWERRESOURCE \<or> ty = LAI_NAMESPACE_DEVICE"

definition lai_exec_access :: "('d, 'a) env \<Rightarrow> lai_variable \<Rightarrow> addr \<Rightarrow> ('d, 'a) lai_exec_state_scheme \<Rightarrow>
    (lai_variable \<times> ('d, 'a) lai_exec_state_scheme) option" where
  "lai_exec_access env obj src s =
     (let ty = nd_type (node_at s src)
      in if ty = LAI_NAMESPACE_NAME then lai_var_assign obj (nd_object (node_at s src)) s
         else if is_field ty then read_opregion_object env obj src s
         else if ty = LAI_NAMESPACE_BUFFER_FIELD then do { v \<leftarrow> lai_read_buffer src s; Some (v, s) }
         else if is_handle ty then Some (VHandle src, s)
         else None)"

definition assign_node :: "addr \<Rightarrow> lai_variable \<Rightarrow> ('d, 'a) lai_obj_state_scheme \<Rightarrow> ('d, 'a) lai_obj_state_scheme option" where
  "assign_node n v s = do {
     hs \<leftarrow> add_ref v (head_at s);
     finalize_list [nd_object (node_at s n)] (set_node n (\<lambda>d. d\<lparr>nd_object := v\<rparr>) (s\<lparr>head_at := hs\<rparr>)) }"

definition lai_store_ns :: "('d, 'a) env \<Rightarrow> addr \<Rightarrow> lai_variable \<Rightarrow> ('d, 'a) lai_exec_state_scheme \<Rightarrow> ('d, 'a) lai_exec_state_scheme option" where
  "lai_store_ns env target v s =
     (let ty = nd_type (node_at s target)
      in if ty = LAI_NAMESPACE_NAME then assign_node target v s
         else if is_field ty then write_opregion_object env target v s
         else if ty = LAI_NAMESPACE_BUFFER_FIELD then lai_write_buffer target v s
         else None)"

text \<open>The elements of one package stored into another; the loaded copy of each element is not finalised.\<close>

fun copy_elements :: "nat list \<Rightarrow> lai_variable \<Rightarrow> lai_variable \<Rightarrow> ('d, 'a) lai_obj_state_scheme \<Rightarrow> ('d, 'a) lai_obj_state_scheme option" where
  "copy_elements [] obj target s = Some s"
| "copy_elements (i # is) obj target s = do {
     (temp, s) \<leftarrow> lai_exec_pkg_load VNone obj i s;
     s \<leftarrow> lai_exec_pkg_store temp target i s;
     copy_elements is obj target s }"

definition mutate_object :: "addr \<Rightarrow> lai_variable \<Rightarrow> ('d, 'a) lai_exec_state_scheme \<Rightarrow> ('d, 'a) lai_exec_state_scheme option" where
  "mutate_object target v s = (let obj = nd_object (node_at s target) in case obj of
     VInteger _ \<Rightarrow> do {
       (e, obj, s) \<leftarrow> lai_mutate_integer obj v s;
       if e \<noteq> LAI_ERROR_NONE then None else Some (set_node target (\<lambda>d. d\<lparr>nd_object := obj\<rparr>) s) }
   | VString _ \<Rightarrow> do { (e, s) \<leftarrow> lai_mutate_string obj v s; if e \<noteq> LAI_ERROR_NONE then None else Some s }
   | VBuffer _ \<Rightarrow> do { (e, s) \<leftarrow> lai_mutate_buffer obj v s; if e \<noteq> LAI_ERROR_NONE then None else Some s }
   | VPackage _ \<Rightarrow> (case v of
       VPackage _ \<Rightarrow> do {
         n \<leftarrow> lai_exec_pkg_size (head_at s) v;
         (e, s) \<leftarrow> lai_obj_resize_pkg obj (of_nat n) s;
         if e \<noteq> LAI_ERROR_NONE then None else copy_elements [0..<n] v obj s }
     | _ \<Rightarrow> None)
   | _ \<Rightarrow> assign_node target v s)"

definition lai_exec_mutate_ns :: "('d, 'a) env \<Rightarrow> addr \<Rightarrow> lai_variable \<Rightarrow> ('d, 'a) lai_exec_state_scheme \<Rightarrow> ('d, 'a) lai_exec_state_scheme option" where
  "lai_exec_mutate_ns env target v s =
     (let ty = nd_type (node_at s target)
      in if ty = LAI_NAMESPACE_NAME then mutate_object target v s
         else if is_field ty then write_opregion_object env target v s
         else if ty = LAI_NAMESPACE_BUFFER_FIELD then lai_write_buffer target v s
         else None)"

subsection \<open>References\<close>

definition inv_var :: "(addr \<rightharpoonup> lai_invocation) \<Rightarrow> addr \<Rightarrow> bool \<Rightarrow> nat \<Rightarrow> lai_variable option" where
  "inv_var invs p is_arg i = do {
     v \<leftarrow> invs p;
     let vs = (if is_arg then inv_arg v else inv_local v);
     if i < length vs then Some (vs ! i) else None }"

definition set_inv_var :: "addr \<Rightarrow> bool \<Rightarrow> nat \<Rightarrow> lai_variable \<Rightarrow> (addr \<rightharpoonup> lai_invocation) \<Rightarrow> addr \<rightharpoonup> lai_invocation" where
  "set_inv_var p is_arg i x invs = (case invs p of None \<Rightarrow> invs
     | Some v \<Rightarrow> invs(p \<mapsto> (if is_arg then v\<lparr>inv_arg := (inv_arg v)[i := x]\<rparr> else v\<lparr>inv_local := (inv_local v)[i := x]\<rparr>)))"

definition assign_inv :: "addr \<Rightarrow> bool \<Rightarrow> nat \<Rightarrow> lai_variable \<Rightarrow> ('d, 'a) lai_exec_state_scheme \<Rightarrow> ('d, 'a) lai_exec_state_scheme option" where
  "assign_inv p is_arg i v s = do {
     old \<leftarrow> inv_var (inv_at s) p is_arg i;
     hs \<leftarrow> add_ref v (head_at s);
     finalize_list [old] (s\<lparr>head_at := hs, inv_at := set_inv_var p is_arg i v (inv_at s)\<rparr>) }"

definition lai_exec_ref_load :: "('d, 'a) env \<Rightarrow> lai_variable \<Rightarrow> lai_variable \<Rightarrow> ('d, 'a) lai_exec_state_scheme \<Rightarrow>
    (lai_variable \<times> ('d, 'a) lai_exec_state_scheme) option" where
  "lai_exec_ref_load env obj ref s = (case ref of
     VArgRef p i \<Rightarrow> do { v \<leftarrow> inv_var (inv_at s) p True i; lai_var_assign obj v s }
   | VLocalRef p i \<Rightarrow> do { v \<leftarrow> inv_var (inv_at s) p False i; lai_var_assign obj v s }
   | VNodeRef n \<Rightarrow> lai_exec_access env obj n s
   | _ \<Rightarrow> None)"

definition lai_exec_ref_store :: "('d, 'a) env \<Rightarrow> lai_variable \<Rightarrow> lai_variable \<Rightarrow> ('d, 'a) lai_exec_state_scheme \<Rightarrow>
    ('d, 'a) lai_exec_state_scheme option" where
  "lai_exec_ref_store env ref v s = (case ref of
     VArgRef p i \<Rightarrow> assign_inv p True i v s
   | VLocalRef p i \<Rightarrow> assign_inv p False i v s
   | VNodeRef n \<Rightarrow> lai_store_ns env n v s
   | _ \<Rightarrow> None)"

subsection \<open>Operands\<close>

definition current_invocation :: "lai_state \<Rightarrow> addr option" where
  "current_invocation st = do {
     ctxitem \<leftarrow> lai_exec_peek_ctxstack_back st;
     if cx_invocation ctxitem = 0 then None else Some (cx_invocation ctxitem) }"

definition lai_operand_load :: "('d, 'a) env \<Rightarrow> lai_state \<Rightarrow> lai_operand \<Rightarrow> lai_variable \<Rightarrow> ('d, 'a) lai_exec_state_scheme \<Rightarrow>
    (lai_variable \<times> ('d, 'a) lai_exec_state_scheme) option" where
  "lai_operand_load env st src obj s = (case src of
     OpArg i \<Rightarrow> do { p \<leftarrow> current_invocation st; v \<leftarrow> inv_var (inv_at s) p True i; lai_var_assign obj v s }
   | OpLocal i \<Rightarrow> do { p \<leftarrow> current_invocation st; v \<leftarrow> inv_var (inv_at s) p False i; lai_var_assign obj v s }
   | OpResolved n \<Rightarrow> lai_exec_access env obj n s
   | _ \<Rightarrow> None)"

text \<open>Stores through an index: one byte of a string or buffer, or an element of a package.\<close>

definition store_index :: "lai_variable \<Rightarrow> lai_variable \<Rightarrow> ('d, 'a) lai_exec_state_scheme \<Rightarrow> ('d, 'a) lai_exec_state_scheme option" where
  "store_index dest v s = (case dest of
     VStringIndex p i \<Rightarrow> do { x \<leftarrow> var_integer v; write_string (VString p) (unat i) [ucast x] s }
   | VBufferIndex p i \<Rightarrow> do { x \<leftarrow> var_integer v; write_buffer (VBuffer p) (unat i) [ucast x] s }
   | VPackageIndex p i \<Rightarrow> do {
       (copy, s) \<leftarrow> lai_var_assign VNone v s;
       s \<leftarrow> lai_exec_pkg_var_store copy p (unat i) s;
       (_, s) \<leftarrow> lai_var_finalize copy s;
       Some s }
   | _ \<Rightarrow> None)"

text \<open>Stores to an argument that holds a reference go to its target.\<close>

definition store_arg :: "('d, 'a) env \<Rightarrow> addr \<Rightarrow> nat \<Rightarrow> lai_variable \<Rightarrow> ('d, 'a) lai_exec_state_scheme \<Rightarrow> ('d, 'a) lai_exec_state_scheme option" where
  "store_arg env p i v s = do {
     arg_var \<leftarrow> inv_var (inv_at s) p True i;
     case arg_var of
       VArgRef _ _ \<Rightarrow> lai_exec_ref_store env arg_var v s
     | VLocalRef _ _ \<Rightarrow> lai_exec_ref_store env arg_var v s
     | VNodeRef _ \<Rightarrow> lai_exec_ref_store env arg_var v s
     | _ \<Rightarrow> assign_inv p True i v s }"

definition store_debug :: "('d, 'a) env \<Rightarrow> lai_variable \<Rightarrow> ('d, 'a) lai_exec_state_scheme \<Rightarrow> ('d, 'a) lai_exec_state_scheme" where
  "store_debug env v s = (case xe_amldebug env of Some laihost_handle_amldebug \<Rightarrow> laihost_handle_amldebug v s | None \<Rightarrow> s)"

definition lai_operand_mutate :: "('d, 'a) env \<Rightarrow> lai_state \<Rightarrow> lai_operand \<Rightarrow> lai_variable \<Rightarrow> ('d, 'a) lai_exec_state_scheme \<Rightarrow>
    ('d, 'a) lai_exec_state_scheme option" where
  "lai_operand_mutate env st dest v s = (case dest of
     OpObject d \<Rightarrow> store_index d v s
   | OpNull \<Rightarrow> Some s
   | OpResolved n \<Rightarrow> lai_exec_mutate_ns env n v s
   | OpArg i \<Rightarrow> do { p \<leftarrow> current_invocation st; store_arg env p i v s }
   | OpLocal i \<Rightarrow> do { p \<leftarrow> current_invocation st; assign_inv p False i v s }
   | OpDebug \<Rightarrow> Some (store_debug env v s)
   | _ \<Rightarrow> None)"

definition lai_operand_emplace :: "('d, 'a) env \<Rightarrow> lai_state \<Rightarrow> lai_operand \<Rightarrow> lai_variable \<Rightarrow> ('d, 'a) lai_exec_state_scheme \<Rightarrow>
    ('d, 'a) lai_exec_state_scheme option" where
  "lai_operand_emplace env st dest v s = (case dest of
     OpObject d \<Rightarrow> store_index d v s
   | OpNull \<Rightarrow> Some s
   | OpResolved n \<Rightarrow> lai_store_ns env n v s
   | OpArg i \<Rightarrow> do { p \<leftarrow> current_invocation st; store_arg env p i v s }
   | OpLocal i \<Rightarrow> do { p \<leftarrow> current_invocation st; assign_inv p False i v s }
   | OpDebug \<Rightarrow> Some (store_debug env v s)
   | _ \<Rightarrow> None)"

definition lai_exec_get_objectref :: "lai_operand \<Rightarrow> lai_variable \<Rightarrow> ('d, 'a) lai_exec_state_scheme \<Rightarrow>
    (lai_variable \<times> ('d, 'a) lai_exec_state_scheme) option" where
  "lai_exec_get_objectref src obj s = (case src of OpObject v \<Rightarrow> lai_var_assign obj v s | _ \<Rightarrow> None)"

definition lai_exec_get_integer :: "lai_operand \<Rightarrow> lai_variable \<Rightarrow> ('d, 'a) lai_exec_state_scheme \<Rightarrow>
    (lai_variable \<times> ('d, 'a) lai_exec_state_scheme) option" where
  "lai_exec_get_integer src obj s = (case src of
     OpObject v \<Rightarrow> do {
       (temp, s) \<leftarrow> lai_var_assign VNone v s;
       case temp of
         VInteger _ \<Rightarrow> do { (obj, _, s) \<leftarrow> lai_var_move obj temp s; Some (obj, s) }
       | _ \<Rightarrow> None }
   | _ \<Rightarrow> None)"

text \<open>The integer of an operand.\<close>

definition get_integer :: "lai_operand \<Rightarrow> ('d, 'a) lai_exec_state_scheme \<Rightarrow> (u64 \<times> ('d, 'a) lai_exec_state_scheme) option" where
  "get_integer src s = do {
     (v, s) \<leftarrow> lai_exec_get_integer src VNone s;
     case v of VInteger i \<Rightarrow> Some (i, s) | _ \<Rightarrow> None }"

end
