(* ===== verification/LaiBufferField.thy ===== *)
theory LaiBufferField
  imports LaiOperand
begin

text \<open>
  Fields of buffers (\<open>lai_write_buffer\<close> and \<open>lai_read_buffer\<close> of \<open>core/exec-operand.c\<close>): a store changes exactly the bits of
  the field; a load gives them back when the field starts at a byte boundary, and not otherwise.
\<close>

lemma replaced_bit:
  fixes x :: u8 and val :: u64
  assumes "k < 8"
  shows "bit ((x AND NOT (push_bit b (mask m))) OR push_bit b (ucast (drop_bit n val) AND mask m)) k =
    (if b \<le> k \<and> k - b < m then bit val (n + (k - b)) else bit x k)"
proof (cases "b \<le> k \<and> k - b < m")
  case True
  then show ?thesis using assms by (auto simp: bit_simps)
next
  case False
  then show ?thesis using assms by (auto simp: bit_simps)
qed

lemma write_bits_step:
  assumes i: "i = (off + n) div 8" "i < length data" and m: "m = min (sz - n) (8 - (off + n) mod 8)" and j: "j < 8 * length data"
  shows "buf_bit (data[i := (data ! i AND NOT (push_bit ((off + n) mod 8) (mask m))) OR push_bit ((off + n) mod 8) (ucast (drop_bit n val) AND mask m)]) j =
    (if off + n \<le> j \<and> j < off + n + m then bit (val :: u64) (j - off) else buf_bit data j)"
proof (cases "j div 8 = i")
  case True
  let ?b = "(off + n) mod 8" and ?k = "j mod 8"
  have eq: "off + n = 8 * i + ?b" "j = 8 * i + ?k" using mult_div_mod_eq [of 8 j] True by (simp_all add: i(1))
  have "(?b \<le> ?k \<and> ?k - ?b < m) = (off + n \<le> j \<and> j < off + n + m)" using eq by linarith
  moreover have "n + (?k - ?b) = j - off" if "off + n \<le> j" using that eq by linarith
  moreover have "buf_bit (data[i := y]) j = bit y ?k" for y using True i(2) by (simp add: buf_bit_def)
  ultimately show ?thesis using True replaced_bit [of ?k "data ! i" ?b m n val] by (simp add: buf_bit_def)
next
  case False
  have "m \<le> 8 - (off + n) mod 8" using m by simp
  moreover have "8 * i \<le> off + n" "off + n + (8 - (off + n) mod 8) = 8 * Suc i" unfolding i(1) by presburger+
  ultimately have "\<not> (off + n \<le> j \<and> j < off + n + m)" using False div_nat_eqI [of 8 i j] by linarith
  with False show ?thesis by (auto simp: buf_bit_def)
qed

lemma write_bits_ok:
  "off + sz \<le> 8 * length data \<Longrightarrow> sz \<le> 64 \<Longrightarrow> \<exists>data'. write_bits val off sz n data = Some data' \<and> length data' = length data \<and>
     (\<forall>j<8 * length data. buf_bit data' j = (if off + n \<le> j \<and> j < off + sz then bit val (j - off) else buf_bit data j))"
proof (induction val off sz n data rule: write_bits.induct)
  case (1 val off sz n data)
  show ?case
  proof (cases "n < sz")
    case True
    define i where "i = (off + n) div 8"
    define m where "m = min (sz - n) (8 - (off + n) mod 8)"
    let ?d = "data[i := (data ! i AND NOT (push_bit ((off + n) mod 8) (mask m))) OR push_bit ((off + n) mod 8) (ucast (drop_bit n val) AND mask m)]"
    have i: "i < length data" using 1(2) True unfolding i_def by linarith
    have n: "\<not> (64 \<le> n \<or> length data \<le> i)" using 1(3) True i by simp
    have run: "write_bits val off sz n data = write_bits val off sz (n + m) ?d"
      using True n by (subst write_bits.simps) (simp add: Let_def i_def m_def)
    have len: "length ?d = length data" by simp
    have "\<exists>data'. write_bits val off sz (n + m) ?d = Some data' \<and> length data' = length ?d \<and>
      (\<forall>j<8 * length ?d. buf_bit data' j = (if off + (n + m) \<le> j \<and> j < off + sz then bit val (j - off) else buf_bit ?d j))"
      by (rule 1(1) [OF True refl refl refl refl, folded i_def m_def]) (use n 1(2,3) in simp_all)
    then obtain data' where d: "write_bits val off sz (n + m) ?d = Some data'" "length data' = length data"
      "\<forall>j<8 * length data. buf_bit data' j = (if off + (n + m) \<le> j \<and> j < off + sz then bit val (j - off) else buf_bit ?d j)" using len by auto
    have "n + m \<le> sz" using True by (simp add: m_def)
    then have "\<forall>j<8 * length data. buf_bit data' j = (if off + n \<le> j \<and> j < off + sz then bit val (j - off) else buf_bit data j)"
      using d(3) write_bits_step [OF i_def i m_def] by (simp add: add.assoc)
    then show ?thesis using run d(1,2) by simp
  qed (auto simp: write_bits.simps)
qed

lemma read_bits_ok:
  "off + sz \<le> 8 * length data \<Longrightarrow> sz \<le> 64 \<Longrightarrow> off mod 8 = 0 \<Longrightarrow> n mod 8 = 0 \<or> sz \<le> n \<Longrightarrow> \<exists>r. read_bits data off sz n val = Some r \<and>
     (\<forall>k. bit r k = (bit val k \<or> n \<le> k \<and> k < sz \<and> buf_bit data (off + k)))"
proof (induction data off sz n val rule: read_bits.induct)
  case (1 data off sz n val)
  show ?case
  proof (cases "n < sz")
    case True
    define m where "m = min (sz - n) 8"
    define i where "i = (off + n) div 8"
    have n8: "n mod 8 = 0" using True 1(5) by simp
    then have b: "(off + n) mod 8 = 0" using 1(4) by presburger
    have i: "\<not> (64 \<le> n \<or> length data \<le> i)" using 1(2,3) True unfolding i_def by linarith
    let ?v = "val OR push_bit n (ucast (data ! i AND mask m))"
    have run: "read_bits data off sz n val = read_bits data off sz (n + m) ?v"
      using True i b by (subst read_bits.simps) (simp add: Let_def i_def m_def)
    have next': "(n + m) mod 8 = 0 \<or> sz \<le> n + m" using n8 by (auto simp: m_def min_def)
    have "\<exists>r. read_bits data off sz (n + m) ?v = Some r \<and> (\<forall>k. bit r k = (bit ?v k \<or> n + m \<le> k \<and> k < sz \<and> buf_bit data (off + k)))"
      using 1(1) [OF True refl refl refl refl] i b 1(2-4) next' by (simp add: i_def m_def)
    then obtain r where r: "read_bits data off sz (n + m) ?v = Some r"
      "\<forall>k. bit r k = (bit ?v k \<or> n + m \<le> k \<and> k < sz \<and> buf_bit data (off + k))" by blast
    have v: "bit ?v k = (bit val k \<or> n \<le> k \<and> k < n + m \<and> buf_bit data (off + k))" for k
    proof (cases "n \<le> k \<and> k < n + m")
      case k: True
      then have "k - n < 8" "k - n < 8 - (off + n) mod 8" using b by (auto simp: m_def)
      from byte_of_bit [OF this(2)] have "(off + k) div 8 = i" "(off + k) mod 8 = k - n" using k b by (simp_all add: i_def)
      moreover have "k < 64" using k True 1(3) unfolding m_def by linarith
      ultimately show ?thesis using k by (auto simp: buf_bit_def bit_simps)
    qed (auto simp: bit_simps)
    have "n + m \<le> sz" using True by (simp add: m_def)
    then have "bit r k = (bit val k \<or> n \<le> k \<and> k < sz \<and> buf_bit data (off + k))" for k unfolding r(2) [rule_format] v by auto
    then show ?thesis using run r(1) by simp
  qed (auto simp: read_bits.simps)
qed

definition bits_field :: "('d, 'a) lai_obj_state_scheme \<Rightarrow> addr \<Rightarrow> lai_buffer_head \<Rightarrow> bool" where
  "bits_field s n h \<longleftrightarrow> buffer_head (head_at s) (bf_buffer (node_at s n)) = Some h \<and> unat (bf_size (node_at s n)) \<le> 64 \<and>
     unat (bf_offset (node_at s n)) + unat (bf_size (node_at s n)) \<le> 8 * length (bh_bytes h)"

text \<open>C35: A store to a field of a buffer succeeds, sets the bits of the field to the low bits of the integer and leaves every
  other bit of the buffer alone; when the field starts at a byte boundary, a load gives the integer back, truncated to
  the field.\<close>

theorem buffer_field_roundtrip:
  assumes "bits_field s n h"
  shows "\<exists>data. lai_write_buffer n (VInteger v) s = Some (set_head (bf_buffer (node_at s n)) (HBuffer (h\<lparr>bh_bytes := data\<rparr>)) s) \<and>
    length data = length (bh_bytes h) \<and>
    (\<forall>j<8 * length data. buf_bit data j = (if unat (bf_offset (node_at s n)) \<le> j \<and> j < unat (bf_offset (node_at s n)) + unat (bf_size (node_at s n))
       then bit v (j - unat (bf_offset (node_at s n))) else buf_bit (bh_bytes h) j)) \<and>
    (unat (bf_offset (node_at s n)) mod 8 = 0 \<longrightarrow>
       lai_read_buffer n (set_head (bf_buffer (node_at s n)) (HBuffer (h\<lparr>bh_bytes := data\<rparr>)) s) = Some (VInteger (take_bit (unat (bf_size (node_at s n))) v)))"
proof -
  let ?o = "unat (bf_offset (node_at s n))" and ?z = "unat (bf_size (node_at s n))" and ?b = "bf_buffer (node_at s n)"
  have h: "buffer_head (head_at s) ?b = Some h" and z: "?z \<le> 64" and fits: "?o + ?z \<le> 8 * length (bh_bytes h)"
    using assms by (simp_all add: bits_field_def)
  from write_bits_ok [OF fits z, of v 0] obtain data where d: "write_bits v ?o ?z 0 (bh_bytes h) = Some data"
    "length data = length (bh_bytes h)"
    "\<forall>j<8 * length data. buf_bit data j = (if ?o \<le> j \<and> j < ?o + ?z then bit v (j - ?o) else buf_bit (bh_bytes h) j)" by auto
  let ?s = "set_head ?b (HBuffer (h\<lparr>bh_bytes := data\<rparr>)) s"
  have "lai_read_buffer n ?s = Some (VInteger (take_bit ?z v))" if o: "?o mod 8 = 0"
  proof -
    obtain r where r: "read_bits data ?o ?z 0 0 = Some r" "\<forall>k. bit r k = (k < ?z \<and> buf_bit data (?o + k))"
      using read_bits_ok [of ?o ?z data 0 0] fits z o d(2) by auto
    have "r = take_bit ?z v" by (rule bit_word_eqI) (use r(2) d fits in \<open>auto simp: bit_simps\<close>)
    then show ?thesis using r(1) by (simp add: lai_read_buffer_def set_head_def buffer_head_def)
  qed
  then show ?thesis using h d by (intro exI [of _ data]) (simp add: lai_write_buffer_def)
qed

definition bits_example :: "nat \<Rightarrow> (u32 \<times> (u8 \<Rightarrow> u32)) lai_obj_state" where
  "bits_example k = set_node 0x5000 (\<lambda>d. d\<lparr>bf_buffer := 0x6000, bf_offset := of_nat k, bf_size := 12\<rparr>)
     (convert_example\<lparr>head_at := [0x6000 \<mapsto> HBuffer \<lparr>bh_rc = 1, bh_size = 4, bh_content = 0x7000, bh_bytes = [0xFF, 0xFF, 0xFF, 0xFF]\<rparr>]\<rparr>)"

lemma bits_example_field:
  "k < 16 \<Longrightarrow> bits_field (bits_example k) 0x5000 \<lparr>bh_rc = 1, bh_size = 4, bh_content = 0x7000, bh_bytes = [0xFF, 0xFF, 0xFF, 0xFF]\<rparr>"
  by (simp add: bits_field_def bits_example_def set_node_def buffer_head_def unat_of_nat_eq)

theorem buffer_field_roundtrip_witness:
  "\<exists>data. lai_write_buffer 0x5000 (VInteger 0x123) (bits_example 8) =
      Some (set_head 0x6000 (HBuffer \<lparr>bh_rc = 1, bh_size = 4, bh_content = 0x7000, bh_bytes = data\<rparr>) (bits_example 8)) \<and>
    lai_read_buffer 0x5000 (set_head 0x6000 (HBuffer \<lparr>bh_rc = 1, bh_size = 4, bh_content = 0x7000, bh_bytes = data\<rparr>) (bits_example 8)) =
      Some (VInteger 0x123)"
  using buffer_field_roundtrip [of "bits_example 8" "0x5000" _ "0x123"] bits_example_field [of 8]
  by (fastforce simp: bits_example_def set_node_def)

text \<open>A load from a field that does not start at a byte boundary reads from the start of the byte instead: after
  twelve bits 0x123 are stored at bit 4, a load gives another integer.\<close>

theorem buffer_field_unaligned:
  "map_option (lai_read_buffer 0x5000) (lai_write_buffer 0x5000 (VInteger 0x123) (bits_example 4)) = Some (Some (VInteger 0x12F))"
proof -
  have w: "write_bits 0x123 4 12 0 [0xFF, 0xFF, 0xFF, 0xFF] = Some [0x3F, 0x12, 0xFF, 0xFF]" by code_simp
  have r: "read_bits [0x3F, 0x12, 0xFF, 0xFF] 4 12 0 0 = Some 0x12F" by code_simp
  show ?thesis using w r
    by (simp add: lai_write_buffer_def lai_read_buffer_def bits_example_def set_node_def set_head_def buffer_head_def)
qed

end
