(* ===== verification/LaiOpcodes.thy ===== *)
theory LaiOpcodes
  imports Prelude
begin

text \<open>
  The opcodes of the ACPI machine language, \<open>core/aml_opcodes.h\<close>.  An opcode after the prefix \<open>EXTOP_PREFIX\<close> is
  combined with it by \<open>extop\<close>.
\<close>

definition ZERO_OP :: u32 where "ZERO_OP = 0x00"
definition ONE_OP :: u32 where "ONE_OP = 0x01"
definition ALIAS_OP :: u32 where "ALIAS_OP = 0x06"
definition NAME_OP :: u32 where "NAME_OP = 0x08"
definition BYTEPREFIX :: u32 where "BYTEPREFIX = 0x0A"
definition WORDPREFIX :: u32 where "WORDPREFIX = 0x0B"
definition DWORDPREFIX :: u32 where "DWORDPREFIX = 0x0C"
definition STRINGPREFIX :: u32 where "STRINGPREFIX = 0x0D"
definition QWORDPREFIX :: u32 where "QWORDPREFIX = 0x0E"
definition SCOPE_OP :: u32 where "SCOPE_OP = 0x10"
definition BUFFER_OP :: u32 where "BUFFER_OP = 0x11"
definition PACKAGE_OP :: u32 where "PACKAGE_OP = 0x12"
definition VARPACKAGE_OP :: u32 where "VARPACKAGE_OP = 0x13"
definition METHOD_OP :: u32 where "METHOD_OP = 0x14"
definition EXTERNAL_OP :: u32 where "EXTERNAL_OP = 0x15"
definition EXTOP_PREFIX :: u32 where "EXTOP_PREFIX = 0x5B"
definition LOCAL0_OP :: u32 where "LOCAL0_OP = 0x60"
definition LOCAL1_OP :: u32 where "LOCAL1_OP = 0x61"
definition LOCAL2_OP :: u32 where "LOCAL2_OP = 0x62"
definition LOCAL3_OP :: u32 where "LOCAL3_OP = 0x63"
definition LOCAL4_OP :: u32 where "LOCAL4_OP = 0x64"
definition LOCAL5_OP :: u32 where "LOCAL5_OP = 0x65"
definition LOCAL6_OP :: u32 where "LOCAL6_OP = 0x66"
definition LOCAL7_OP :: u32 where "LOCAL7_OP = 0x67"
definition ARG0_OP :: u32 where "ARG0_OP = 0x68"
definition ARG1_OP :: u32 where "ARG1_OP = 0x69"
definition ARG2_OP :: u32 where "ARG2_OP = 0x6A"
definition ARG3_OP :: u32 where "ARG3_OP = 0x6B"
definition ARG4_OP :: u32 where "ARG4_OP = 0x6C"
definition ARG5_OP :: u32 where "ARG5_OP = 0x6D"
definition ARG6_OP :: u32 where "ARG6_OP = 0x6E"
definition STORE_OP :: u32 where "STORE_OP = 0x70"
definition REFOF_OP :: u32 where "REFOF_OP = 0x71"
definition ADD_OP :: u32 where "ADD_OP = 0x72"
definition CONCAT_OP :: u32 where "CONCAT_OP = 0x73"
definition SUBTRACT_OP :: u32 where "SUBTRACT_OP = 0x74"
definition INCREMENT_OP :: u32 where "INCREMENT_OP = 0x75"
definition DECREMENT_OP :: u32 where "DECREMENT_OP = 0x76"
definition MULTIPLY_OP :: u32 where "MULTIPLY_OP = 0x77"
definition DIVIDE_OP :: u32 where "DIVIDE_OP = 0x78"
definition SHL_OP :: u32 where "SHL_OP = 0x79"
definition SHR_OP :: u32 where "SHR_OP = 0x7A"
definition AND_OP :: u32 where "AND_OP = 0x7B"
definition OR_OP :: u32 where "OR_OP = 0x7D"
definition XOR_OP :: u32 where "XOR_OP = 0x7F"
definition NAND_OP :: u32 where "NAND_OP = 0x7C"
definition NOR_OP :: u32 where "NOR_OP = 0x7E"
definition NOT_OP :: u32 where "NOT_OP = 0x80"
definition FINDSETLEFTBIT_OP :: u32 where "FINDSETLEFTBIT_OP = 0x81"
definition FINDSETRIGHTBIT_OP :: u32 where "FINDSETRIGHTBIT_OP = 0x82"
definition DEREF_OP :: u32 where "DEREF_OP = 0x83"
definition CONCATRES_OP :: u32 where "CONCATRES_OP = 0x84"
definition MOD_OP :: u32 where "MOD_OP = 0x85"
definition NOTIFY_OP :: u32 where "NOTIFY_OP = 0x86"
definition SIZEOF_OP :: u32 where "SIZEOF_OP = 0x87"
definition INDEX_OP :: u32 where "INDEX_OP = 0x88"
definition MATCH_OP :: u32 where "MATCH_OP = 0x89"
definition DWORDFIELD_OP :: u32 where "DWORDFIELD_OP = 0x8A"
definition WORDFIELD_OP :: u32 where "WORDFIELD_OP = 0x8B"
definition BYTEFIELD_OP :: u32 where "BYTEFIELD_OP = 0x8C"
definition BITFIELD_OP :: u32 where "BITFIELD_OP = 0x8D"
definition OBJECTTYPE_OP :: u32 where "OBJECTTYPE_OP = 0x8E"
definition QWORDFIELD_OP :: u32 where "QWORDFIELD_OP = 0x8F"
definition LAND_OP :: u32 where "LAND_OP = 0x90"
definition LOR_OP :: u32 where "LOR_OP = 0x91"
definition LNOT_OP :: u32 where "LNOT_OP = 0x92"
definition LEQUAL_OP :: u32 where "LEQUAL_OP = 0x93"
definition LGREATER_OP :: u32 where "LGREATER_OP = 0x94"
definition LLESS_OP :: u32 where "LLESS_OP = 0x95"
definition TOBUFFER_OP :: u32 where "TOBUFFER_OP = 0x96"
definition TODECIMALSTRING_OP :: u32 where "TODECIMALSTRING_OP = 0x97"
definition TOHEXSTRING_OP :: u32 where "TOHEXSTRING_OP = 0x98"
definition TOINTEGER_OP :: u32 where "TOINTEGER_OP = 0x99"
definition TOSTRING_OP :: u32 where "TOSTRING_OP = 0x9C"
definition MID_OP :: u32 where "MID_OP = 0x9E"
definition COPYOBJECT_OP :: u32 where "COPYOBJECT_OP = 0x9D"
definition CONTINUE_OP :: u32 where "CONTINUE_OP = 0x9F"
definition IF_OP :: u32 where "IF_OP = 0xA0"
definition ELSE_OP :: u32 where "ELSE_OP = 0xA1"
definition WHILE_OP :: u32 where "WHILE_OP = 0xA2"
definition NOP_OP :: u32 where "NOP_OP = 0xA3"
definition RETURN_OP :: u32 where "RETURN_OP = 0xA4"
definition BREAK_OP :: u32 where "BREAK_OP = 0xA5"
definition BREAKPOINT_OP :: u32 where "BREAKPOINT_OP = 0xCC"
definition ONES_OP :: u32 where "ONES_OP = 0xFF"
definition MUTEX :: u32 where "MUTEX = 0x01"
definition EVENT :: u32 where "EVENT = 0x02"
definition CONDREF_OP :: u32 where "CONDREF_OP = 0x12"
definition ARBFIELD_OP :: u32 where "ARBFIELD_OP = 0x13"
definition STALL_OP :: u32 where "STALL_OP = 0x21"
definition SLEEP_OP :: u32 where "SLEEP_OP = 0x22"
definition ACQUIRE_OP :: u32 where "ACQUIRE_OP = 0x23"
definition RELEASE_OP :: u32 where "RELEASE_OP = 0x27"
definition SIGNAL_OP :: u32 where "SIGNAL_OP = 0x24"
definition WAIT_OP :: u32 where "WAIT_OP = 0x25"
definition RESET_OP :: u32 where "RESET_OP = 0x26"
definition FROM_BCD_OP :: u32 where "FROM_BCD_OP = 0x28"
definition TO_BCD_OP :: u32 where "TO_BCD_OP = 0x29"
definition REVISION_OP :: u32 where "REVISION_OP = 0x30"
definition DEBUG_OP :: u32 where "DEBUG_OP = 0x31"
definition FATAL_OP :: u32 where "FATAL_OP = 0x32"
definition TIMER_OP :: u32 where "TIMER_OP = 0x33"
definition OPREGION :: u32 where "OPREGION = 0x80"
definition FIELD :: u32 where "FIELD = 0x81"
definition DEVICE :: u32 where "DEVICE = 0x82"
definition PROCESSOR :: u32 where "PROCESSOR = 0x83"
definition POWER_RES :: u32 where "POWER_RES = 0x84"
definition THERMALZONE :: u32 where "THERMALZONE = 0x85"
definition INDEXFIELD :: u32 where "INDEXFIELD = 0x86"
definition BANKFIELD :: u32 where "BANKFIELD = 0x87"

definition METHOD_ARGC_MASK :: u8 where "METHOD_ARGC_MASK = 7"

definition extop :: "u32 \<Rightarrow> u32" where "extop c = push_bit 8 EXTOP_PREFIX OR c"

lemmas aml_opcodes =
  ZERO_OP_def ONE_OP_def ALIAS_OP_def NAME_OP_def BYTEPREFIX_def WORDPREFIX_def DWORDPREFIX_def STRINGPREFIX_def
  QWORDPREFIX_def SCOPE_OP_def BUFFER_OP_def PACKAGE_OP_def VARPACKAGE_OP_def METHOD_OP_def EXTERNAL_OP_def
  EXTOP_PREFIX_def LOCAL0_OP_def LOCAL1_OP_def LOCAL2_OP_def LOCAL3_OP_def LOCAL4_OP_def LOCAL5_OP_def LOCAL6_OP_def
  LOCAL7_OP_def ARG0_OP_def ARG1_OP_def ARG2_OP_def ARG3_OP_def ARG4_OP_def ARG5_OP_def ARG6_OP_def STORE_OP_def
  REFOF_OP_def ADD_OP_def CONCAT_OP_def SUBTRACT_OP_def INCREMENT_OP_def DECREMENT_OP_def MULTIPLY_OP_def
  DIVIDE_OP_def SHL_OP_def SHR_OP_def AND_OP_def OR_OP_def XOR_OP_def NAND_OP_def NOR_OP_def NOT_OP_def
  FINDSETLEFTBIT_OP_def FINDSETRIGHTBIT_OP_def DEREF_OP_def CONCATRES_OP_def MOD_OP_def NOTIFY_OP_def SIZEOF_OP_def
  INDEX_OP_def MATCH_OP_def DWORDFIELD_OP_def WORDFIELD_OP_def BYTEFIELD_OP_def BITFIELD_OP_def OBJECTTYPE_OP_def QWORDFIELD_OP_def
  LAND_OP_def LOR_OP_def LNOT_OP_def LEQUAL_OP_def LGREATER_OP_def LLESS_OP_def TOBUFFER_OP_def TODECIMALSTRING_OP_def
  TOHEXSTRING_OP_def TOINTEGER_OP_def TOSTRING_OP_def MID_OP_def COPYOBJECT_OP_def CONTINUE_OP_def IF_OP_def
  ELSE_OP_def WHILE_OP_def NOP_OP_def RETURN_OP_def BREAK_OP_def BREAKPOINT_OP_def ONES_OP_def MUTEX_def EVENT_def
  CONDREF_OP_def ARBFIELD_OP_def STALL_OP_def SLEEP_OP_def ACQUIRE_OP_def RELEASE_OP_def SIGNAL_OP_def WAIT_OP_def
  RESET_OP_def FROM_BCD_OP_def TO_BCD_OP_def REVISION_OP_def DEBUG_OP_def FATAL_OP_def TIMER_OP_def OPREGION_def
  FIELD_def DEVICE_def PROCESSOR_def POWER_RES_def THERMALZONE_def INDEXFIELD_def BANKFIELD_def extop_def

end
