(* ===== verification/LaiReduce.thy ===== *)
theory LaiReduce
  imports LaiOperand LaiOpcodes
begin

text \<open>
  The reduction of operators, \<open>lai_exec_reduce_op\<close> and \<open>lai_exec_reduce_node\<close> of \<open>core/exec.c\<close>: each operator takes its
  operands from the operand stack, computes a result and stores it to its target operands.  One definition per
  group of operators; the dispatch follows the code.  Variables the code declares with \<open>LAI_CLEANUP_VAR\<close> are finalised
  where their scope ends, in reverse order; others are not.  A panic, a division by zero and a shift by the width or
  more have no result.
\<close>

type_synonym ('d, 'a) reduction = "(lai_api_error \<times> lai_variable \<times> ('d, 'a) lai_exec_state_scheme) option"

definition operand_at :: "lai_operand list \<Rightarrow> nat \<Rightarrow> lai_operand option" where
  "operand_at ops i = (if i < length ops then Some (ops ! i) else None)"

definition get_object :: "lai_operand list \<Rightarrow> nat \<Rightarrow> ('d, 'a) lai_exec_state_scheme \<Rightarrow> (lai_variable \<times> ('d, 'a) lai_exec_state_scheme) option" where
  "get_object ops i s = do { x \<leftarrow> operand_at ops i; lai_exec_get_objectref x VNone s }"

definition get_int :: "lai_operand list \<Rightarrow> nat \<Rightarrow> ('d, 'a) lai_exec_state_scheme \<Rightarrow> (u64 \<times> ('d, 'a) lai_exec_state_scheme) option" where
  "get_int ops i s = do { x \<leftarrow> operand_at ops i; get_integer x s }"

definition mutate_op :: "('d, 'a) env \<Rightarrow> lai_state \<Rightarrow> lai_operand list \<Rightarrow> nat \<Rightarrow> lai_variable \<Rightarrow> ('d, 'a) lai_exec_state_scheme \<Rightarrow>
    ('d, 'a) lai_exec_state_scheme option" where
  "mutate_op env st ops i v s = do { x \<leftarrow> operand_at ops i; lai_operand_mutate env st x v s }"

definition emplace_op :: "('d, 'a) env \<Rightarrow> lai_state \<Rightarrow> lai_operand list \<Rightarrow> nat \<Rightarrow> lai_variable \<Rightarrow> ('d, 'a) lai_exec_state_scheme \<Rightarrow>
    ('d, 'a) lai_exec_state_scheme option" where
  "emplace_op env st ops i v s = do { x \<leftarrow> operand_at ops i; lai_operand_emplace env st x v s }"

subsection \<open>Stores\<close>

definition reduce_store :: "('d, 'a) env \<Rightarrow> u32 \<Rightarrow> lai_state \<Rightarrow> lai_operand list \<Rightarrow> ('d, 'a) lai_exec_state_scheme \<Rightarrow> ('d, 'a) reduction" where
  "reduce_store env opcode st ops s = do {
     (objectref, s) \<leftarrow> get_object ops 0 s;
     (result, s) \<leftarrow> lai_obj_clone VNone objectref s;
     (out, s) \<leftarrow> lai_obj_clone VNone result s;
     s \<leftarrow> (if opcode = STORE_OP then mutate_op env st ops 1 result s else emplace_op env st ops 1 result s);
     (_, s) \<leftarrow> lai_var_finalize objectref s;
     (_, s) \<leftarrow> lai_var_finalize out s;
     Some (LAI_ERROR_NONE, result, s) }"

subsection \<open>Integers\<close>

definition binary_result :: "u32 \<Rightarrow> u64 \<Rightarrow> u64 \<Rightarrow> u64 option" where
  "binary_result opcode lhs rhs =
     (if opcode = ADD_OP then Some (lhs + rhs)
      else if opcode = SUBTRACT_OP then Some (lhs - rhs)
      else if opcode = MOD_OP then (if rhs = 0 then None else Some (lhs mod rhs))
      else if opcode = MULTIPLY_OP then Some (lhs * rhs)
      else if opcode = AND_OP then Some (lhs AND rhs)
      else if opcode = OR_OP then Some (lhs OR rhs)
      else if opcode = XOR_OP then Some (lhs XOR rhs)
      else if opcode = NAND_OP then Some (NOT (lhs AND rhs))
      else if opcode = NOR_OP then Some (NOT (lhs OR rhs))
      else if opcode = SHL_OP then (if 64 \<le> rhs then None else Some (push_bit (unat rhs) lhs))
      else if opcode = SHR_OP then (if 64 \<le> rhs then None else Some (drop_bit (unat rhs) lhs))
      else None)"

definition binary_opcodes :: "u32 list" where
  "binary_opcodes = [ADD_OP, SUBTRACT_OP, MOD_OP, MULTIPLY_OP, AND_OP, OR_OP, XOR_OP, NAND_OP, NOR_OP, SHL_OP, SHR_OP]"

definition reduce_binary :: "('d, 'a) env \<Rightarrow> u32 \<Rightarrow> lai_state \<Rightarrow> lai_operand list \<Rightarrow> ('d, 'a) lai_exec_state_scheme \<Rightarrow> ('d, 'a) reduction" where
  "reduce_binary env opcode st ops s = do {
     (lhs, s) \<leftarrow> get_int ops 0 s;
     (rhs, s) \<leftarrow> get_int ops 1 s;
     r \<leftarrow> binary_result opcode lhs rhs;
     s \<leftarrow> mutate_op env st ops 2 (VInteger r) s;
     Some (LAI_ERROR_NONE, VInteger r, s) }"

text \<open>The result of a division is not set, only its two targets are.\<close>

definition reduce_divide :: "('d, 'a) env \<Rightarrow> lai_state \<Rightarrow> lai_operand list \<Rightarrow> ('d, 'a) lai_exec_state_scheme \<Rightarrow> ('d, 'a) reduction" where
  "reduce_divide env st ops s = do {
     (lhs, s) \<leftarrow> get_int ops 0 s;
     (rhs, s) \<leftarrow> get_int ops 1 s;
     if rhs = 0 then None
     else do {
       s \<leftarrow> mutate_op env st ops 2 (VInteger (lhs mod rhs)) s;
       s \<leftarrow> mutate_op env st ops 3 (VInteger (lhs div rhs)) s;
       Some (LAI_ERROR_NONE, VNone, s) } }"

function msb_loop :: "u64 \<Rightarrow> nat \<Rightarrow> nat" where
  "msb_loop x msb = (if x \<noteq> 0 then msb_loop (drop_bit 1 x) (msb + 1) else msb)"
  by pat_completeness auto
termination
proof (relation "measure (\<lambda>(x, msb). unat x)")
  fix x :: u64 and msb :: nat assume "x \<noteq> 0"
  then have "0 < unat x" by (simp add: unat_gt_0)
  then show "((drop_bit 1 x, msb + 1), x, msb) \<in> measure (\<lambda>(x, msb). unat x)"
    by (simp add: drop_bit_eq_div unat_div)
qed simp

partial_function (option) lsb_loop :: "u64 \<Rightarrow> nat \<Rightarrow> nat option" where
  "lsb_loop x lsb = (if x \<noteq> 0 then lsb_loop (push_bit 1 x) (lsb + 1) else Some lsb)"

declare msb_loop.simps [simp del]

definition reduce_unary :: "('d, 'a) env \<Rightarrow> u32 \<Rightarrow> lai_state \<Rightarrow> lai_operand list \<Rightarrow> ('d, 'a) lai_exec_state_scheme \<Rightarrow> ('d, 'a) reduction" where
  "reduce_unary env opcode st ops s = do {
     (i, s) \<leftarrow> get_int ops 0 s;
     r \<leftarrow> (if opcode = NOT_OP then Some (NOT i)
          else if opcode = FINDSETLEFTBIT_OP then Some (of_nat (msb_loop i 0))
          else do { lsb \<leftarrow> lsb_loop i 0; Some (if lsb = 0 then 0 else of_nat (65 - lsb)) });
     s \<leftarrow> mutate_op env st ops 1 (VInteger r) s;
     Some (LAI_ERROR_NONE, VInteger r, s) }"

definition reduce_step :: "('d, 'a) env \<Rightarrow> u32 \<Rightarrow> lai_state \<Rightarrow> lai_operand list \<Rightarrow> ('d, 'a) lai_exec_state_scheme \<Rightarrow> ('d, 'a) reduction" where
  "reduce_step env opcode st ops s = do {
     x \<leftarrow> operand_at ops 0;
     (v, s) \<leftarrow> lai_operand_load env st x VNone s;
     case v of
       VInteger i \<Rightarrow> do {
         let r = VInteger (if opcode = INCREMENT_OP then i + 1 else i - 1);
         s \<leftarrow> lai_operand_mutate env st x r s;
         Some (LAI_ERROR_NONE, r, s) }
     | _ \<Rightarrow> None }"

definition truth :: "bool \<Rightarrow> u64" where "truth b = (if b then 1 else 0)"

definition ones :: "bool \<Rightarrow> u64" where "ones b = (if b then NOT 0 else 0)"

definition reduce_logical :: "u32 \<Rightarrow> lai_operand list \<Rightarrow> ('d, 'a) lai_exec_state_scheme \<Rightarrow> ('d, 'a) reduction" where
  "reduce_logical opcode ops s = do {
     (lhs, s) \<leftarrow> get_int ops 0 s;
     if opcode = LNOT_OP then Some (LAI_ERROR_NONE, VInteger (truth (lhs = 0)), s)
     else do {
       (rhs, s) \<leftarrow> get_int ops 1 s;
       Some (LAI_ERROR_NONE, VInteger (truth (if opcode = LAND_OP then lhs \<noteq> 0 \<and> rhs \<noteq> 0 else lhs \<noteq> 0 \<or> rhs \<noteq> 0)), s) } }"

definition compare_operator :: "u32 \<Rightarrow> u32" where
  "compare_operator opcode = (if opcode = LEQUAL_OP then MATCH_MEQ else if opcode = LLESS_OP then MATCH_MLT else MATCH_MGT)"

definition reduce_compare :: "u32 \<Rightarrow> lai_operand list \<Rightarrow> ('d, 'a) lai_exec_state_scheme \<Rightarrow> ('d, 'a) reduction" where
  "reduce_compare opcode ops s = do {
     (lhs, s) \<leftarrow> get_object ops 0 s;
     (rhs, s) \<leftarrow> get_object ops 1 s;
     (res, s) \<leftarrow> lai_obj_exec_match_op (compare_operator opcode) lhs rhs s;
     s \<leftarrow> finalize_list [rhs, lhs] s;
     case res of
       Inl _ \<Rightarrow> Some (LAI_ERROR_ILLEGAL_ARGUMENTS, VNone, s)
     | Inr b \<Rightarrow> Some (LAI_ERROR_NONE, VInteger (ones b), s) }"

subsection \<open>Binary coded decimals\<close>

definition from_bcd :: "u64 \<Rightarrow> u64" where
  "from_bcd val = fold (\<lambda>i r. r + take_bit 4 (drop_bit (4 * i) val) * 10 ^ i) [0..<16] 0"

fun to_bcd :: "nat \<Rightarrow> u64 \<Rightarrow> u64 \<Rightarrow> u64" where
  "to_bcd 0 val r = r"
| "to_bcd (Suc n) val r =
     (let r = push_bit 4 r OR (val mod 10); val = val div 10 in if val = 0 then r else to_bcd n val r)"

definition reduce_bcd :: "('d, 'a) env \<Rightarrow> u32 \<Rightarrow> lai_state \<Rightarrow> lai_operand list \<Rightarrow> ('d, 'a) lai_exec_state_scheme \<Rightarrow> ('d, 'a) reduction" where
  "reduce_bcd env opcode st ops s = do {
     (operand, s) \<leftarrow> get_object ops 0 s;
     i \<leftarrow> var_integer operand;
     let r = VInteger (if opcode = extop FROM_BCD_OP then from_bcd i else to_bcd 20 i 0);
     s \<leftarrow> emplace_op env st ops 1 r s;
     s \<leftarrow> finalize_list [operand] s;
     Some (LAI_ERROR_NONE, r, s) }"

subsection \<open>Strings, buffers and packages\<close>

definition reduce_index :: "('d, 'a) env \<Rightarrow> lai_state \<Rightarrow> lai_operand list \<Rightarrow> ('d, 'a) lai_exec_state_scheme \<Rightarrow> ('d, 'a) reduction" where
  "reduce_index env st ops s = do {
     (obj, s) \<leftarrow> get_object ops 0 s;
     (n, s) \<leftarrow> get_int ops 1 s;
     result \<leftarrow> (case obj of
         VString p \<Rightarrow> do { k \<leftarrow> lai_exec_string_length (head_at s) obj; if k \<le> unat n then None else Some (VStringIndex p n) }
       | VBuffer p \<Rightarrow> do { k \<leftarrow> lai_exec_buffer_size (head_at s) obj; if k \<le> unat n then None else Some (VBufferIndex p n) }
       | VPackage p \<Rightarrow> do { k \<leftarrow> lai_exec_pkg_size (head_at s) obj; if k \<le> unat n then None else Some (VPackageIndex p n) }
       | _ \<Rightarrow> None);
     hs \<leftarrow> add_ref result (head_at s);
     (_, s) \<leftarrow> lai_var_finalize obj (s\<lparr>head_at := hs\<rparr>);
     s \<leftarrow> mutate_op env st ops 2 result s;
     Some (LAI_ERROR_NONE, result, s) }"

text \<open>The search of \<open>Match\<close> from an index upwards: the first element for which both comparisons hold.\<close>

fun match_loop :: "nat list \<Rightarrow> lai_variable \<Rightarrow> u32 \<Rightarrow> lai_variable \<Rightarrow> u32 \<Rightarrow> lai_variable \<Rightarrow> ('d, 'a) lai_exec_state_scheme \<Rightarrow>
    ((lai_api_error + u64) \<times> ('d, 'a) lai_exec_state_scheme) option" where
  "match_loop [] package op1 object1 op2 object2 s = Some (Inr (NOT 0), s)"
| "match_loop (i # is) package op1 object1 op2 object2 s = do {
     (obj, s) \<leftarrow> lai_exec_pkg_load VNone package i s;
     (a, s) \<leftarrow> lai_obj_exec_match_op op1 obj object1 s;
     case a of
       Inl _ \<Rightarrow> do { s \<leftarrow> finalize_list [obj] s; Some (Inl LAI_ERROR_ILLEGAL_ARGUMENTS, s) }
     | Inr a \<Rightarrow> do {
         (b, s) \<leftarrow> lai_obj_exec_match_op op2 obj object2 s;
         s \<leftarrow> finalize_list [obj] s;
         case b of
           Inl _ \<Rightarrow> Some (Inl LAI_ERROR_ILLEGAL_ARGUMENTS, s)
         | Inr b \<Rightarrow> if a \<and> b then Some (Inr (of_nat i), s) else match_loop is package op1 object1 op2 object2 s } }"

definition reduce_match :: "lai_operand list \<Rightarrow> ('d, 'a) lai_exec_state_scheme \<Rightarrow> ('d, 'a) reduction" where
  "reduce_match ops s = do {
     (package, s) \<leftarrow> get_object ops 0 s;
     case package of
       VPackage _ \<Rightarrow> do {
         (op1, s) \<leftarrow> get_int ops 1 s;
         (object1, s) \<leftarrow> get_object ops 2 s;
         (op2, s) \<leftarrow> get_int ops 3 s;
         (object2, s) \<leftarrow> get_object ops 4 s;
         (start_index, s) \<leftarrow> get_int ops 5 s;
         package_size \<leftarrow> lai_exec_pkg_size (head_at s) package;
         (r, s) \<leftarrow> match_loop [unat start_index..<package_size] package (ucast op1) object1 (ucast op2) object2 s;
         s \<leftarrow> finalize_list [object2, object1, package] s;
         case r of Inl e \<Rightarrow> Some (e, VNone, s) | Inr i \<Rightarrow> Some (LAI_ERROR_NONE, VInteger i, s) }
     | _ \<Rightarrow> do { s \<leftarrow> finalize_list [package] s; Some (LAI_ERROR_UNEXPECTED_RESULT, VNone, s) } }"

text \<open>Concatenation of resource templates: the end tags of both are dropped and a new one with a checksum is added.\<close>

definition concat_templates :: "u8 list \<Rightarrow> u8 list \<Rightarrow> u8 list" where
  "concat_templates b1 b2 =
     (let body = take (length b1 - 2) b1 @ take (length b2 - 2) b2 @ [0x79] in body @ [- sum_list body])"

definition reduce_concat_res :: "('d, 'a) env \<Rightarrow> lai_state \<Rightarrow> lai_operand list \<Rightarrow> ('d, 'a) lai_exec_state_scheme \<Rightarrow> ('d, 'a) reduction" where
  "reduce_concat_res env st ops s = do {
     (buf1, s) \<leftarrow> get_object ops 0 s;
     (buf2, s) \<leftarrow> get_object ops 1 s;
     b1 \<leftarrow> buffer_data (head_at s) buf1;
     b2 \<leftarrow> buffer_data (head_at s) buf2;
     if length b1 = 1 \<or> length b2 = 1
     then do { s \<leftarrow> finalize_list [buf2, buf1] s; Some (LAI_ERROR_UNEXPECTED_RESULT, VNone, s) }
     else do {
       (e, result, s) \<leftarrow> lai_create_buffer (of_nat (length (concat_templates b1 b2))) s;
       if e \<noteq> LAI_ERROR_NONE then None
       else do {
         s \<leftarrow> write_buffer result 0 (concat_templates b1 b2) s;
         s \<leftarrow> emplace_op env st ops 2 result s;
         s \<leftarrow> finalize_list [buf2, buf1] s;
         Some (LAI_ERROR_NONE, result, s) } } }"

definition reduce_deref :: "('d, 'a) env \<Rightarrow> lai_operand list \<Rightarrow> ('d, 'a) lai_exec_state_scheme \<Rightarrow> ('d, 'a) reduction" where
  "reduce_deref env ops s = do {
     (ref, s) \<leftarrow> get_object ops 0 s;
     let deref = do {
       (temp, s) \<leftarrow> lai_exec_ref_load env VNone ref s;
       (result, s) \<leftarrow> lai_obj_clone VNone temp s;
       s \<leftarrow> finalize_list [temp] s;
       Some (LAI_ERROR_NONE, result, s) };
     case ref of
       VArgRef _ _ \<Rightarrow> deref
     | VLocalRef _ _ \<Rightarrow> deref
     | VNodeRef _ \<Rightarrow> deref
     | VStringIndex p i \<Rightarrow> do {
         h \<leftarrow> string_head (head_at s) p;
         if unat i < length (sh_chars h) then Some (LAI_ERROR_NONE, VInteger (scast (sh_chars h ! unat i)), s) else None }
     | VBufferIndex p i \<Rightarrow> do {
         h \<leftarrow> buffer_head (head_at s) p;
         if unat i < length (bh_bytes h) then Some (LAI_ERROR_NONE, VInteger (ucast (bh_bytes h ! unat i)), s) else None }
     | VPackageIndex p i \<Rightarrow> do {
         (result, s) \<leftarrow> lai_exec_pkg_var_load VNone p (unat i) s;
         Some (LAI_ERROR_NONE, result, s) }
     | _ \<Rightarrow> None }"

definition reduce_sizeof :: "lai_operand list \<Rightarrow> ('d, 'a) lai_exec_state_scheme \<Rightarrow> ('d, 'a) reduction" where
  "reduce_sizeof ops s = do {
     (obj, s) \<leftarrow> get_object ops 0 s;
     n \<leftarrow> (case obj of
         VString _ \<Rightarrow> lai_exec_string_length (head_at s) obj
       | VBuffer _ \<Rightarrow> lai_exec_buffer_size (head_at s) obj
       | VPackage _ \<Rightarrow> lai_exec_pkg_size (head_at s) obj
       | _ \<Rightarrow> None);
     Some (LAI_ERROR_NONE, VInteger (of_nat n), s) }"

definition reduce_convert :: "('d, 'a) env \<Rightarrow> u32 \<Rightarrow> lai_state \<Rightarrow> lai_operand list \<Rightarrow> ('d, 'a) lai_exec_state_scheme \<Rightarrow> ('d, 'a) reduction" where
  "reduce_convert env opcode st ops s = do {
     (operand, s) \<leftarrow> get_object ops 0 s;
     (error, result, s) \<leftarrow> (if opcode = TOBUFFER_OP then lai_obj_to_buffer VNone operand s
       else if opcode = TODECIMALSTRING_OP then lai_obj_to_decimal_string VNone operand s
       else if opcode = TOHEXSTRING_OP then lai_obj_to_hex_string VNone operand s
       else lai_obj_to_integer VNone operand s);
     if error \<noteq> LAI_ERROR_NONE then None
     else do {
       s \<leftarrow> emplace_op env st ops 1 result s;
       s \<leftarrow> finalize_list [operand] s;
       Some (LAI_ERROR_NONE, result, s) } }"

definition reduce_tostring :: "('d, 'a) env \<Rightarrow> lai_state \<Rightarrow> lai_operand list \<Rightarrow> ('d, 'a) lai_exec_state_scheme \<Rightarrow> ('d, 'a) reduction" where
  "reduce_tostring env st ops s = do {
     (operand, s) \<leftarrow> get_object ops 0 s;
     (sz, s) \<leftarrow> get_int ops 1 s;
     (error, result, s) \<leftarrow> lai_obj_to_string VNone operand sz s;
     if error \<noteq> LAI_ERROR_NONE then None
     else do {
       s \<leftarrow> emplace_op env st ops 2 result s;
       s \<leftarrow> finalize_list [operand] s;
       Some (LAI_ERROR_NONE, result, s) } }"

text \<open>The part of a string or buffer that \<open>Mid\<close> takes: the sum of index and length wraps around.\<close>

definition mid_length :: "u64 \<Rightarrow> u64 \<Rightarrow> u64 \<Rightarrow> u64" where
  "mid_length strl n sz = (if strl \<le> n then 0 else if strl < n + sz then strl - n else sz)"

definition reduce_mid :: "('d, 'a) env \<Rightarrow> lai_state \<Rightarrow> lai_operand list \<Rightarrow> ('d, 'a) lai_exec_state_scheme \<Rightarrow> ('d, 'a) reduction" where
  "reduce_mid env st ops s = do {
     (obj, s) \<leftarrow> get_object ops 0 s;
     (n, s) \<leftarrow> get_int ops 1 s;
     (len, s) \<leftarrow> get_int ops 2 s;
     strl \<leftarrow> (case obj of VString _ \<Rightarrow> lai_exec_string_length (head_at s) obj | VBuffer _ \<Rightarrow> lai_exec_buffer_size (head_at s) obj | _ \<Rightarrow> Some 0);
     let sz = mid_length (of_nat strl) n len;
     (error, result, s) \<leftarrow> (case obj of
         VString _ \<Rightarrow> lai_create_string (sz + 1) s | VBuffer _ \<Rightarrow> lai_create_buffer sz s | _ \<Rightarrow> Some (LAI_ERROR_NONE, VNone, s));
     if error \<noteq> LAI_ERROR_NONE then do { s \<leftarrow> finalize_list [obj] s; Some (error, VNone, s) }
     else do {
       s \<leftarrow> (case obj of
           VString _ \<Rightarrow> do { cs \<leftarrow> lai_exec_string_access (head_at s) obj;
             if sz = 0 then Some s else do { bs \<leftarrow> get_bytes (unat sz) (List.drop (unat n) cs); write_string result 0 bs s } }
         | VBuffer _ \<Rightarrow> do { cs \<leftarrow> lai_exec_buffer_access (head_at s) obj;
             if sz = 0 then Some s else do { bs \<leftarrow> get_bytes (unat sz) (List.drop (unat n) cs); write_buffer result 0 bs s } }
         | _ \<Rightarrow> Some s);
       s \<leftarrow> mutate_op env st ops 3 result s;
       s \<leftarrow> finalize_list [obj] s;
       Some (LAI_ERROR_NONE, result, s) } }"

subsection \<open>Concatenation\<close>

text \<open>An object that is not an integer, a string or a buffer stands for the name of its type.\<close>

definition concat_operand :: "lai_variable \<Rightarrow> ('d, 'a) lai_exec_state_scheme \<Rightarrow> ('d, 'a) reduction" where
  "concat_operand v s = (case v of
     VHandle n \<Rightarrow> lai_obj_to_type_string VNone n s
   | VNone \<Rightarrow> lai_create_c_string (map of_char ''[Uninitialized Object]'') s
   | VPackage _ \<Rightarrow> lai_create_c_string (map of_char ''[Package Object]'') s
   | VInteger _ \<Rightarrow> do { (w, s) \<leftarrow> lai_obj_clone VNone v s; Some (LAI_ERROR_NONE, w, s) }
   | VString _ \<Rightarrow> do { (w, s) \<leftarrow> lai_obj_clone VNone v s; Some (LAI_ERROR_NONE, w, s) }
   | VBuffer _ \<Rightarrow> do { (w, s) \<leftarrow> lai_obj_clone VNone v s; Some (LAI_ERROR_NONE, w, s) }
   | _ \<Rightarrow> Some (LAI_ERROR_NONE, VNone, s))"

text \<open>The second operand of a device or the like is first given an empty string that is then overwritten.\<close>

definition concat_second :: "lai_variable \<Rightarrow> ('d, 'a) lai_exec_state_scheme \<Rightarrow> ('d, 'a) reduction" where
  "concat_second v s = (case v of
     VHandle n \<Rightarrow> do {
       (error, temp, s) \<leftarrow> lai_create_string 0 s;
       if error \<noteq> LAI_ERROR_NONE then Some (error, temp, s) else lai_obj_to_type_string temp n s }
   | _ \<Rightarrow> concat_operand v s)"

text \<open>The second operand converted to the type of the first.\<close>

definition concat_as_buffer :: "lai_variable \<Rightarrow> ('d, 'a) lai_exec_state_scheme \<Rightarrow> ('d, 'a) reduction" where
  "concat_as_buffer temp s = (case temp of
     VBuffer _ \<Rightarrow> do { (w, s) \<leftarrow> lai_obj_clone VNone temp s; Some (LAI_ERROR_NONE, w, s) }
   | VString _ \<Rightarrow> do {
       n \<leftarrow> lai_exec_string_length (head_at s) temp;
       (error, w, s) \<leftarrow> lai_create_buffer (of_nat n + 1) s;
       if error \<noteq> LAI_ERROR_NONE then Some (error, w, s)
       else do { (error, s) \<leftarrow> lai_mutate_buffer w temp s; Some (error, w, s) } }
   | VInteger _ \<Rightarrow> do {
       (error, w, s) \<leftarrow> lai_create_buffer 8 s;
       if error \<noteq> LAI_ERROR_NONE then Some (error, w, s)
       else do { (error, s) \<leftarrow> lai_mutate_buffer w temp s; Some (error, w, s) } }
   | _ \<Rightarrow> Some (LAI_ERROR_NONE, VNone, s))"

definition concat_as_string :: "lai_variable \<Rightarrow> ('d, 'a) lai_exec_state_scheme \<Rightarrow> ('d, 'a) reduction" where
  "concat_as_string temp s = (case temp of
     VString _ \<Rightarrow> do { (w, s) \<leftarrow> lai_obj_clone VNone temp s; Some (LAI_ERROR_NONE, w, s) }
   | VInteger _ \<Rightarrow> do {
       (error, w, s) \<leftarrow> lai_create_string 0 s;
       if error \<noteq> LAI_ERROR_NONE then Some (error, w, s)
       else do { (error, s) \<leftarrow> lai_mutate_string w temp s; if error \<noteq> LAI_ERROR_NONE then None else Some (error, w, s) } }
   | VBuffer _ \<Rightarrow> do {
       (error, w, s) \<leftarrow> lai_create_string 0 s;
       if error \<noteq> LAI_ERROR_NONE then Some (error, w, s)
       else do { (error, s) \<leftarrow> lai_mutate_string w temp s; Some (error, w, s) } }
   | _ \<Rightarrow> Some (LAI_ERROR_NONE, VNone, s))"

text \<open>The join of two operands of one type.  The second buffer is copied with the size of the first.\<close>

definition join_buffers :: "lai_variable \<Rightarrow> lai_variable \<Rightarrow> ('d, 'a) lai_exec_state_scheme \<Rightarrow> ('d, 'a) reduction" where
  "join_buffers v w s = do {
     b0size \<leftarrow> lai_exec_buffer_size (head_at s) v;
     b1size \<leftarrow> lai_exec_buffer_size (head_at s) w;
     (error, result, s) \<leftarrow> lai_create_buffer (of_nat b0size + of_nat b1size) s;
     if error \<noteq> LAI_ERROR_NONE then Some (error, result, s)
     else do {
       buffer0 \<leftarrow> lai_exec_buffer_access (head_at s) v;
       buffer1 \<leftarrow> lai_exec_buffer_access (head_at s) w;
       bs0 \<leftarrow> get_bytes b0size buffer0;
       s \<leftarrow> write_buffer result 0 bs0 s;
       bs1 \<leftarrow> get_bytes b0size buffer1;
       s \<leftarrow> write_buffer result b0size bs1 s;
       Some (LAI_ERROR_NONE, result, s) } }"

definition join_strings :: "lai_variable \<Rightarrow> lai_variable \<Rightarrow> ('d, 'a) lai_exec_state_scheme \<Rightarrow> ('d, 'a) reduction" where
  "join_strings v w s = do {
     cs0 \<leftarrow> string_data (head_at s) v;
     cs1 \<leftarrow> string_data (head_at s) w;
     (error, result, s) \<leftarrow> lai_create_string (of_nat (length cs0) + of_nat (length cs1) + 1) s;
     if error \<noteq> LAI_ERROR_NONE then Some (error, result, s)
     else do {
       s \<leftarrow> write_string result 0 cs0 s;
       s \<leftarrow> write_string result (length cs0) cs1 s;
       s \<leftarrow> write_string result (length cs0 + length cs1 + 1) [0] s;
       Some (LAI_ERROR_NONE, result, s) } }"

definition join_integers :: "u64 \<Rightarrow> u64 \<Rightarrow> ('d, 'a) lai_exec_state_scheme \<Rightarrow> ('d, 'a) reduction" where
  "join_integers i j s = do {
     (error, result, s) \<leftarrow> lai_create_buffer 16 s;
     if error \<noteq> LAI_ERROR_NONE then Some (error, result, s)
     else do { s \<leftarrow> write_buffer result 0 (le_bytes i @ le_bytes j) s; Some (LAI_ERROR_NONE, result, s) } }"

text \<open>The second operand as converted, and the result.\<close>

definition concat_join :: "lai_variable \<Rightarrow> lai_variable \<Rightarrow> ('d, 'a) lai_exec_state_scheme \<Rightarrow>
    (lai_api_error \<times> lai_variable \<times> lai_variable \<times> ('d, 'a) lai_exec_state_scheme) option" where
  "concat_join conv0 temp s = (case conv0 of
     VInteger i \<Rightarrow> do {
       (error, w, s) \<leftarrow> lai_mutate_integer (VInteger 0) temp s;
       if error \<noteq> LAI_ERROR_NONE then Some (error, w, VNone, s)
       else (case w of VInteger j \<Rightarrow> do { (error, r, s) \<leftarrow> join_integers i j s; Some (error, w, r, s) } | _ \<Rightarrow> None) }
   | VBuffer _ \<Rightarrow> do {
       (error, w, s) \<leftarrow> concat_as_buffer temp s;
       if error \<noteq> LAI_ERROR_NONE then Some (error, w, VNone, s)
       else do { (error, r, s) \<leftarrow> join_buffers conv0 w s; Some (error, w, r, s) } }
   | VString _ \<Rightarrow> do {
       (error, w, s) \<leftarrow> concat_as_string temp s;
       if error \<noteq> LAI_ERROR_NONE then Some (error, w, VNone, s)
       else do { (error, r, s) \<leftarrow> join_strings conv0 w s; Some (error, w, r, s) } }
   | _ \<Rightarrow> Some (LAI_ERROR_NONE, VNone, VNone, s))"

definition reduce_concat :: "('d, 'a) env \<Rightarrow> lai_state \<Rightarrow> lai_operand list \<Rightarrow> ('d, 'a) lai_exec_state_scheme \<Rightarrow> ('d, 'a) reduction" where
  "reduce_concat env st ops s = do {
     (operand0, s) \<leftarrow> get_object ops 0 s;
     (operand1, s) \<leftarrow> get_object ops 1 s;
     (error, conv0, s) \<leftarrow> concat_operand operand0 s;
     if error \<noteq> LAI_ERROR_NONE then do { s \<leftarrow> finalize_list [conv0, operand1, operand0] s; Some (error, VNone, s) }
     else do {
       (error, temp, s) \<leftarrow> concat_second operand1 s;
       if error \<noteq> LAI_ERROR_NONE then do { s \<leftarrow> finalize_list [temp, conv0, operand1, operand0] s; Some (error, VNone, s) }
       else do {
         (error, conv1, result, s) \<leftarrow> concat_join conv0 temp s;
         if error \<noteq> LAI_ERROR_NONE then do { s \<leftarrow> finalize_list [conv1, temp, conv0, operand1, operand0] s; Some (error, VNone, s) }
         else do {
           s \<leftarrow> emplace_op env st ops 2 result s;
           s \<leftarrow> finalize_list [conv1, temp, conv0, operand1, operand0] s;
           Some (LAI_ERROR_NONE, result, s) } } } }"

subsection \<open>References and types\<close>

definition reduce_refof :: "lai_state \<Rightarrow> lai_operand list \<Rightarrow> ('d, 'a) lai_exec_state_scheme \<Rightarrow> ('d, 'a) reduction" where
  "reduce_refof st ops s = do {
     x \<leftarrow> operand_at ops 0;
     ref \<leftarrow> (case x of
         OpArg i \<Rightarrow> do { p \<leftarrow> current_invocation st; Some (VArgRef p i) }
       | OpLocal i \<Rightarrow> do { p \<leftarrow> current_invocation st; Some (VLocalRef p i) }
       | OpResolved n \<Rightarrow> Some (VNodeRef n)
       | _ \<Rightarrow> None);
     (result, _, s) \<leftarrow> lai_var_move VNone ref s;
     Some (LAI_ERROR_NONE, result, s) }"

definition reduce_condref :: "('d, 'a) env \<Rightarrow> lai_state \<Rightarrow> lai_operand list \<Rightarrow> ('d, 'a) lai_exec_state_scheme \<Rightarrow> ('d, 'a) reduction" where
  "reduce_condref env st ops s = do {
     x \<leftarrow> operand_at ops 0;
     case x of
       OpResolved n \<Rightarrow>
         if n \<noteq> 0 then do { s \<leftarrow> mutate_op env st ops 1 (VHandle n) s; Some (LAI_ERROR_NONE, VInteger 1, s) }
         else Some (LAI_ERROR_NONE, VInteger 0, s)
     | _ \<Rightarrow> None }"

definition node_object_type :: "(addr \<Rightarrow> lai_nsnode) \<Rightarrow> addr \<Rightarrow> nat" where
  "node_object_type nodes n =
     (if nd_type (nodes n) = LAI_NAMESPACE_ALIAS then lai_objecttype_ns (nodes (al_target (nodes n)))
      else case (nd_type (nodes n) = LAI_NAMESPACE_NAME, nd_object (nodes n)) of
        (True, VNodeRef m) \<Rightarrow> lai_objecttype_ns (nodes m)
      | _ \<Rightarrow> lai_objecttype_ns (nodes n))"

definition reduce_objecttype :: "('d, 'a) env \<Rightarrow> lai_state \<Rightarrow> lai_operand list \<Rightarrow> ('d, 'a) lai_exec_state_scheme \<Rightarrow> ('d, 'a) reduction" where
  "reduce_objecttype env st ops s = do {
     x \<leftarrow> operand_at ops 0;
     let result = (\<lambda>n. VInteger (of_nat n));
     let variable = do {
       (v, s) \<leftarrow> lai_operand_load env st x VNone s;
       s \<leftarrow> finalize_list [v] s;
       Some (LAI_ERROR_NONE, result (lai_objecttype_obj v), s) };
     case x of
       OpResolved n \<Rightarrow> Some (LAI_ERROR_NONE, result (node_object_type (node_at s) n), s)
     | OpObject (VHandle n) \<Rightarrow> Some (LAI_ERROR_NONE, result (node_object_type (node_at s) n), s)
     | OpObject (VNodeRef n) \<Rightarrow> Some (LAI_ERROR_NONE, result (node_object_type (node_at s) n), s)
     | OpObject _ \<Rightarrow> None
     | OpArg _ \<Rightarrow> variable
     | OpLocal _ \<Rightarrow> variable
     | OpDebug \<Rightarrow> Some (LAI_ERROR_NONE, result 16, s)
     | _ \<Rightarrow> Some (LAI_ERROR_NONE, result 0, s) }"

subsection \<open>Notification and time\<close>

definition resolved_node :: "lai_operand list \<Rightarrow> addr option" where
  "resolved_node ops = do { x \<leftarrow> operand_at ops 0; case x of OpResolved n \<Rightarrow> Some n | _ \<Rightarrow> None }"

definition reduce_notify :: "('d, 'a) env \<Rightarrow> lai_operand list \<Rightarrow> ('d, 'a) lai_exec_state_scheme \<Rightarrow> ('d, 'a) reduction" where
  "reduce_notify env ops s = do {
     node \<leftarrow> resolved_node ops;
     (code, s) \<leftarrow> get_int ops 1 s;
     let nd = node_at s node;
     if nd_type nd \<notin> {LAI_NAMESPACE_DEVICE, LAI_NAMESPACE_PROCESSOR, LAI_NAMESPACE_THERMALZONE} then None
     else do {
       let s = (case xe_global_notify env of Some f \<Rightarrow> f node (ucast code) s | None \<Rightarrow> s);
       let nd = node_at s node;
       if notify_override nd \<noteq> 0
       then do {
         (e, s) \<leftarrow> xe_notify env (notify_override nd) node (ucast code) (notify_userptr nd) s;
         if e \<noteq> LAI_ERROR_NONE then None else Some (LAI_ERROR_NONE, VNone, s) }
       else do {
         (path, s) \<leftarrow> lai_stringify_node_path node s;
         s \<leftarrow> lai_cleanup_free_string path s;
         Some (LAI_ERROR_NONE, VNone, s) } } }"

text \<open>Stalling polls the timer until the time has passed.\<close>

partial_function (option) stall_loop :: "('s \<Rightarrow> u64 \<times> 's) \<Rightarrow> u64 \<Rightarrow> u64 \<Rightarrow> 's \<Rightarrow> 's option" where
  "stall_loop timer start_time ticks s =
     (let (now, s) = timer s in if now - start_time \<le> ticks then stall_loop timer start_time ticks s else Some s)"

definition reduce_stall :: "('d, 'a) env \<Rightarrow> lai_operand list \<Rightarrow> ('d, 'a) lai_exec_state_scheme \<Rightarrow> ('d, 'a) reduction" where
  "reduce_stall env ops s = (case xe_timer env of
     None \<Rightarrow> None
   | Some laihost_timer \<Rightarrow> do {
       (time, s) \<leftarrow> get_int ops 0 s;
       let time = (if time = 0 then 1 else time);
       s \<leftarrow> (if 100 < time then Some (laihost_sleep (time * 1000) s)
            else let (start_time, s) = laihost_timer s in stall_loop laihost_timer start_time (time * 10) s);
       Some (LAI_ERROR_NONE, VNone, s) })"

definition reduce_sleep :: "lai_operand list \<Rightarrow> ('d, 'a) lai_exec_state_scheme \<Rightarrow> ('d, 'a) reduction" where
  "reduce_sleep ops s = do {
     (time, s) \<leftarrow> get_int ops 0 s;
     Some (LAI_ERROR_NONE, VNone, laihost_sleep (if time = 0 then 1 else time) s) }"

subsection \<open>Synchronisation\<close>

definition sync_node :: "u32 \<Rightarrow> lai_operand list \<Rightarrow> ('d, 'a) lai_exec_state_scheme \<Rightarrow> addr option" where
  "sync_node ty ops s = do { node \<leftarrow> resolved_node ops; if nd_type (node_at s node) = ty then Some node else None }"

definition set_sync :: "addr \<Rightarrow> u32 \<Rightarrow> ('d, 'a) lai_exec_state_scheme \<Rightarrow> ('d, 'a) lai_exec_state_scheme" where
  "set_sync node val s = set_node node (\<lambda>d. d\<lparr>sync_val := val\<rparr>) s"

text \<open>Acquiring a mutex and waiting for an event give 1 when the deadline passes.\<close>

definition reduce_wait :: "('d, 'a) env \<Rightarrow> u32 \<Rightarrow> lai_operand list \<Rightarrow> ('d, 'a) lai_exec_state_scheme \<Rightarrow> ('d, 'a) reduction" where
  "reduce_wait env opcode ops s = do {
     _ \<leftarrow> resolved_node ops;
     (timeout, s) \<leftarrow> get_int ops 1 s;
     node \<leftarrow> sync_node (if opcode = extop ACQUIRE_OP then LAI_NAMESPACE_MUTEX else LAI_NAMESPACE_EVENT) ops s;
     let val = sync_val (node_at s node);
     (expired, val) \<leftarrow> (if opcode = extop ACQUIRE_OP then lai_mutex_lock (xe_wait env) timeout val
       else lai_event_wait (xe_wait env) timeout val);
     Some (LAI_ERROR_NONE, VInteger (truth expired), set_sync node val s) }"

definition reduce_signal :: "('d, 'a) env \<Rightarrow> u32 \<Rightarrow> lai_operand list \<Rightarrow> ('d, 'a) lai_exec_state_scheme \<Rightarrow> ('d, 'a) reduction" where
  "reduce_signal env opcode ops s = do {
     node \<leftarrow> sync_node (if opcode = extop RELEASE_OP then LAI_NAMESPACE_MUTEX else LAI_NAMESPACE_EVENT) ops s;
     let val = sync_val (node_at s node);
     val \<leftarrow> (if opcode = extop RELEASE_OP then lai_mutex_unlock (xe_wake env) val
       else if opcode = extop SIGNAL_OP then lai_event_signal (xe_wake env) val
       else lai_event_reset val);
     Some (LAI_ERROR_NONE, VNone, set_sync node val s) }"

subsection \<open>All operators\<close>

text \<open>The result is moved to the caller's variable, which is empty.  \<open>Fatal\<close> panics.\<close>

definition lai_exec_reduce_op :: "('d, 'a) env \<Rightarrow> u32 \<Rightarrow> lai_state \<Rightarrow> lai_operand list \<Rightarrow> ('d, 'a) lai_exec_state_scheme \<Rightarrow> ('d, 'a) reduction" where
  "lai_exec_reduce_op env opcode st ops s =
     (if opcode = STORE_OP \<or> opcode = COPYOBJECT_OP then reduce_store env opcode st ops s
      else if opcode \<in> {NOT_OP, FINDSETLEFTBIT_OP, FINDSETRIGHTBIT_OP} then reduce_unary env opcode st ops s
      else if opcode = CONCAT_OP then reduce_concat env st ops s
      else if opcode \<in> set binary_opcodes then reduce_binary env opcode st ops s
      else if opcode = DIVIDE_OP then reduce_divide env st ops s
      else if opcode = INCREMENT_OP \<or> opcode = DECREMENT_OP then reduce_step env opcode st ops s
      else if opcode \<in> {LNOT_OP, LAND_OP, LOR_OP} then reduce_logical opcode ops s
      else if opcode \<in> {LEQUAL_OP, LLESS_OP, LGREATER_OP} then reduce_compare opcode ops s
      else if opcode = INDEX_OP then reduce_index env st ops s
      else if opcode = MATCH_OP then reduce_match ops s
      else if opcode = CONCATRES_OP then reduce_concat_res env st ops s
      else if opcode = DEREF_OP then reduce_deref env ops s
      else if opcode = SIZEOF_OP then reduce_sizeof ops s
      else if opcode = REFOF_OP then reduce_refof st ops s
      else if opcode \<in> {TOBUFFER_OP, TODECIMALSTRING_OP, TOHEXSTRING_OP, TOINTEGER_OP} then reduce_convert env opcode st ops s
      else if opcode = TOSTRING_OP then reduce_tostring env st ops s
      else if opcode = MID_OP then reduce_mid env st ops s
      else if opcode = NOTIFY_OP then reduce_notify env ops s
      else if opcode = extop CONDREF_OP then reduce_condref env st ops s
      else if opcode = extop STALL_OP then reduce_stall env ops s
      else if opcode = extop SLEEP_OP then reduce_sleep ops s
      else if opcode = extop FATAL_OP then None
      else if opcode \<in> {extop ACQUIRE_OP, extop WAIT_OP} then reduce_wait env opcode ops s
      else if opcode \<in> {extop RELEASE_OP, extop SIGNAL_OP, extop RESET_OP} then reduce_signal env opcode ops s
      else if opcode \<in> {extop FROM_BCD_OP, extop TO_BCD_OP} then reduce_bcd env opcode st ops s
      else if opcode = OBJECTTYPE_OP then reduce_objecttype env st ops s
      else Some (LAI_ERROR_UNSUPPORTED, VNone, s))"

subsection \<open>Nodes\<close>

type_synonym ('d, 'a) outcome = "(lai_api_error \<times> ('d, 'a) lai_exec_state_scheme) option"

definition link_to_method :: "addr \<Rightarrow> addr \<Rightarrow> ('d, 'a) lai_exec_state_scheme \<Rightarrow> ('d, 'a) lai_exec_state_scheme" where
  "link_to_method inv' node s =
     (if inv' = 0 then s else s\<lparr>list_links := lai_list_link (per_method_list inv') (per_method_item node) (list_links s)\<rparr>)"

text \<open>A new node is installed and, inside a method, linked to the nodes of the method.\<close>

definition install_node :: "lai_state \<Rightarrow> addr \<Rightarrow> ('d, 'a) lai_exec_state_scheme \<Rightarrow> ('d, 'a) outcome" where
  "install_node st node s = do {
     (err, s) \<leftarrow> lai_install_nsnode node s;
     if err \<noteq> LAI_ERROR_NONE then Some (err, s)
     else do {
       ctxitem \<leftarrow> lai_exec_peek_ctxstack_back st;
       Some (LAI_ERROR_NONE, link_to_method (cx_invocation ctxitem) node s) } }"

definition unresolved_at :: "lai_operand list \<Rightarrow> nat \<Rightarrow> (addr \<times> addr) option" where
  "unresolved_at ops i = do { x \<leftarrow> operand_at ops i; case x of OpUnresolved c a \<Rightarrow> Some (c, a) | _ \<Rightarrow> None }"

text \<open>A new node with the members that are set at once, its name resolved from a context.\<close>

definition new_node :: "(lai_nsnode \<Rightarrow> lai_nsnode) \<Rightarrow> addr \<Rightarrow> lai_amlname \<Rightarrow> ('d, 'a) lai_exec_state_scheme \<Rightarrow> (addr \<times> ('d, 'a) lai_exec_state_scheme) option" where
  "new_node f ctx amln s = do {
     (node, s) \<leftarrow> lai_create_nsnode_or_die s;
     s \<leftarrow> lai_do_resolve_new_node node ctx amln (set_node node f s);
     Some (node, s) }"

definition named_node :: "u32 \<Rightarrow> addr \<Rightarrow> addr \<Rightarrow> ('d, 'a) lai_exec_state_scheme \<Rightarrow> (addr \<times> ('d, 'a) lai_exec_state_scheme) option" where
  "named_node ty ctx aml s = do {
     (amln, _) \<leftarrow> lai_amlname_parse (mem s) aml;
     new_node (\<lambda>d. d\<lparr>nd_type := ty\<rparr>) ctx amln s }"

definition reduce_name :: "lai_state \<Rightarrow> lai_operand list \<Rightarrow> addr \<Rightarrow> ('d, 'a) lai_exec_state_scheme \<Rightarrow> ('d, 'a) outcome" where
  "reduce_name st ops ctx_handle s = do {
     (obj, s) \<leftarrow> get_object ops 1 s;
     (_, aml) \<leftarrow> unresolved_at ops 0;
     (node, s) \<leftarrow> named_node LAI_NAMESPACE_NAME ctx_handle aml s;
     (new, _, s) \<leftarrow> lai_var_move (nd_object (node_at s node)) obj s;
     install_node st node (set_node node (\<lambda>d. d\<lparr>nd_object := new\<rparr>) s) }"

definition field_bits :: "u32 \<Rightarrow> u64" where
  "field_bits opcode = (if opcode = BITFIELD_OP then 1 else if opcode = BYTEFIELD_OP then 8 else if opcode = WORDFIELD_OP then 16
     else if opcode = DWORDFIELD_OP then 32 else 64)"

text \<open>A field of a buffer; only an object that is a buffer has the pointer the field needs.\<close>

definition buffer_field_node :: "('d, 'a) env \<Rightarrow> lai_state \<Rightarrow> lai_operand list \<Rightarrow> nat \<Rightarrow> u64 \<Rightarrow> u64 \<Rightarrow> ('d, 'a) lai_exec_state_scheme \<Rightarrow> ('d, 'a) outcome" where
  "buffer_field_node env st ops i off sz s = do {
     (ctx, aml) \<leftarrow> unresolved_at ops i;
     (node, s) \<leftarrow> named_node LAI_NAMESPACE_BUFFER_FIELD ctx aml s;
     x \<leftarrow> operand_at ops 0;
     (buf, s) \<leftarrow> lai_operand_load env st x VNone s;
     case buf of
       VBuffer p \<Rightarrow> do {
         hs \<leftarrow> add_ref (VBuffer p) (head_at s);
         let s = set_node node (\<lambda>d. d\<lparr>bf_buffer := p, bf_size := sz, bf_offset := off\<rparr>) (s\<lparr>head_at := hs\<rparr>);
         (err, s) \<leftarrow> install_node st node s;
         s \<leftarrow> finalize_list [buf] s;
         Some (err, s) }
     | _ \<Rightarrow> None }"

definition reduce_buffer_field :: "('d, 'a) env \<Rightarrow> u32 \<Rightarrow> lai_state \<Rightarrow> lai_operand list \<Rightarrow> ('d, 'a) lai_exec_state_scheme \<Rightarrow> ('d, 'a) outcome" where
  "reduce_buffer_field env opcode st ops s = do {
     (off, s) \<leftarrow> get_int ops 1 s;
     buffer_field_node env st ops 2 (if opcode = BITFIELD_OP then off else off * 8) (field_bits opcode) s }"

definition reduce_arbfield :: "('d, 'a) env \<Rightarrow> lai_state \<Rightarrow> lai_operand list \<Rightarrow> ('d, 'a) lai_exec_state_scheme \<Rightarrow> ('d, 'a) outcome" where
  "reduce_arbfield env st ops s = do {
     (off, s) \<leftarrow> get_int ops 1 s;
     (sz, s) \<leftarrow> get_int ops 2 s;
     buffer_field_node env st ops 3 off sz s }"

definition reduce_opregion :: "lai_state \<Rightarrow> lai_operand list \<Rightarrow> addr \<Rightarrow> ('d, 'a) lai_exec_state_scheme \<Rightarrow> ('d, 'a) outcome" where
  "reduce_opregion st ops ctx_handle s = do {
     (base, s) \<leftarrow> get_int ops 2 s;
     (sz, s) \<leftarrow> get_int ops 3 s;
     (_, aml) \<leftarrow> unresolved_at ops 0;
     x \<leftarrow> operand_at ops 1;
     case x of
       OpObject (VInteger space) \<Rightarrow> do {
         (node, s) \<leftarrow> named_node LAI_NAMESPACE_OPREGION ctx_handle aml s;
         install_node st node
           (set_node node (\<lambda>d. d\<lparr>op_address_space := ucast space, op_base := base, op_length := sz\<rparr>) s) }
     | _ \<Rightarrow> None }"

definition lai_exec_reduce_node :: "('d, 'a) env \<Rightarrow> u32 \<Rightarrow> lai_state \<Rightarrow> lai_operand list \<Rightarrow> addr \<Rightarrow> ('d, 'a) lai_exec_state_scheme \<Rightarrow> ('d, 'a) outcome" where
  "lai_exec_reduce_node env opcode st ops ctx_handle s =
     (if opcode = NAME_OP then reduce_name st ops ctx_handle s
      else if opcode \<in> {BITFIELD_OP, BYTEFIELD_OP, WORDFIELD_OP, DWORDFIELD_OP, QWORDFIELD_OP} then reduce_buffer_field env opcode st ops s
      else if opcode = extop ARBFIELD_OP then reduce_arbfield env st ops s
      else if opcode = extop OPREGION then reduce_opregion st ops ctx_handle s
      else None)"

end
