(* ===== verification/LaiParse.thy ===== *)
theory LaiParse
  imports LaiReduce
begin

text \<open>
  The parser of byte code, \<open>lai_exec_parse\<close> of \<open>core/exec.c\<close>: it reads one opcode of the current block and either
  completes it or pushes an item for the rest of its work.  One definition per group of opcodes.  Positions are C
  integers; a size that is assigned to one is converted.  Trace output is off.  The results are the error code, the
  interpreter state and the rest of the state; a panic has no result.
\<close>

subsection \<open>Modes\<close>

definition LAI_DATA_MODE :: nat where "LAI_DATA_MODE = 1"
definition LAI_OBJECT_MODE :: nat where "LAI_OBJECT_MODE = 2"
definition LAI_EXEC_MODE :: nat where "LAI_EXEC_MODE = 3"
definition LAI_UNRESOLVED_MODE :: nat where "LAI_UNRESOLVED_MODE = 4"
definition LAI_REFERENCE_MODE :: nat where "LAI_REFERENCE_MODE = 5"
definition LAI_OPTIONAL_REFERENCE_MODE :: nat where "LAI_OPTIONAL_REFERENCE_MODE = 6"
definition LAI_IMMEDIATE_BYTE_MODE :: nat where "LAI_IMMEDIATE_BYTE_MODE = 7"
definition LAI_IMMEDIATE_WORD_MODE :: nat where "LAI_IMMEDIATE_WORD_MODE = 8"
definition LAI_IMMEDIATE_DWORD_MODE :: nat where "LAI_IMMEDIATE_DWORD_MODE = 9"

lemmas parse_modes = LAI_DATA_MODE_def LAI_OBJECT_MODE_def LAI_EXEC_MODE_def LAI_UNRESOLVED_MODE_def LAI_REFERENCE_MODE_def
  LAI_OPTIONAL_REFERENCE_MODE_def LAI_IMMEDIATE_BYTE_MODE_def LAI_IMMEDIATE_WORD_MODE_def LAI_IMMEDIATE_DWORD_MODE_def

text \<open>The flags of \<open>lai_mode_flags\<close>: a result is wanted, names are resolved, unknown names allowed, methods invoked.\<close>

definition LAI_MF_RESULT :: "nat \<Rightarrow> bool" where "LAI_MF_RESULT mode \<longleftrightarrow> mode \<noteq> LAI_EXEC_MODE"

definition LAI_MF_RESOLVE :: "nat \<Rightarrow> bool" where
  "LAI_MF_RESOLVE mode \<longleftrightarrow> mode \<in> {LAI_EXEC_MODE, LAI_OBJECT_MODE, LAI_REFERENCE_MODE, LAI_OPTIONAL_REFERENCE_MODE}"

definition LAI_MF_NULLABLE :: "nat \<Rightarrow> bool" where "LAI_MF_NULLABLE mode \<longleftrightarrow> mode = LAI_OPTIONAL_REFERENCE_MODE"

definition LAI_MF_INVOKE :: "nat \<Rightarrow> bool" where "LAI_MF_INVOKE mode \<longleftrightarrow> mode \<in> {LAI_EXEC_MODE, LAI_OBJECT_MODE}"

subsection \<open>Reading numbers and names\<close>

definition code_byte :: "mem \<Rightarrow> addr \<Rightarrow> int \<Rightarrow> u8" where
  "code_byte m code pc = load8 m (code + of_int pc)"

definition int_of_size :: "u64 \<Rightarrow> int" where "int_of_size n = sint (ucast n :: u32)"

text \<open>No result is the return value 1, a number that reaches past the limit.\<close>

definition lai_parse_varint :: "mem \<Rightarrow> addr \<Rightarrow> int \<Rightarrow> int \<Rightarrow> (u64 \<times> int) option" where
  "lai_parse_varint m code pc limit =
     (let b = (\<lambda>i. ucast (code_byte m code (pc + i)) :: u64)
      in if limit < pc + 1 then None
         else let sz = drop_bit 6 (code_byte m code pc)
           in if sz = 0 then Some (ucast (code_byte m code pc AND 0x3F), pc + 1)
              else if sz = 1
              then if limit < pc + 2 then None else Some ((b 0 AND 0x0F) OR push_bit 4 (b 1), pc + 2)
              else if sz = 2
              then if limit < pc + 3 then None else Some ((b 0 AND 0x0F) OR push_bit 4 (b 1) OR push_bit 12 (b 2), pc + 3)
              else if limit < pc + 4 then None
              else Some ((b 0 AND 0x0F) OR push_bit 4 (b 1) OR push_bit 12 (b 2) OR push_bit 20 (b 3), pc + 4))"

definition lai_parse_name :: "mem \<Rightarrow> addr \<Rightarrow> int \<Rightarrow> (lai_amlname \<times> int) option" where
  "lai_parse_name m code pc = do {
     (amln, n) \<leftarrow> lai_amlname_parse m (code + of_int pc);
     Some (amln, int_of_size (of_int pc + n)) }"

definition lai_parse_u8 :: "mem \<Rightarrow> addr \<Rightarrow> int \<Rightarrow> int \<Rightarrow> (u8 \<times> int) option" where
  "lai_parse_u8 m code pc limit = (if limit < pc + 1 then None else Some (code_byte m code pc, pc + 1))"

definition lai_parse_u16 :: "mem \<Rightarrow> addr \<Rightarrow> int \<Rightarrow> int \<Rightarrow> (u16 \<times> int) option" where
  "lai_parse_u16 m code pc limit =
     (if limit < pc + 2 then None
      else Some (ucast (code_byte m code pc) OR push_bit 8 (ucast (code_byte m code (pc + 1))), pc + 2))"

definition lai_parse_u32 :: "mem \<Rightarrow> addr \<Rightarrow> int \<Rightarrow> int \<Rightarrow> (u32 \<times> int) option" where
  "lai_parse_u32 m code pc limit =
     (let b = (\<lambda>i. ucast (code_byte m code (pc + i)) :: u32)
      in if limit < pc + 4 then None
         else Some (b 0 OR push_bit 8 (b 1) OR push_bit 16 (b 2) OR push_bit 24 (b 3), pc + 4))"

definition lai_parse_u64 :: "mem \<Rightarrow> addr \<Rightarrow> int \<Rightarrow> int \<Rightarrow> (u64 \<times> int) option" where
  "lai_parse_u64 m code pc limit =
     (let b = (\<lambda>i. ucast (code_byte m code (pc + i)) :: u64)
      in if limit < pc + 8 then None
         else Some (b 0 OR push_bit 8 (b 1) OR push_bit 16 (b 2) OR push_bit 24 (b 3) OR push_bit 32 (b 4) OR push_bit 40 (b 5) OR
           push_bit 48 (b 6) OR push_bit 56 (b 7), pc + 8))"

subsection \<open>Steps of the parser\<close>

type_synonym ('d, 'a) execution = "(lai_api_error \<times> lai_state \<times> ('d, 'a) lai_exec_state_scheme) option"

type_synonym ('d, 'a) reserver = "lai_state \<Rightarrow> ('d, 'a) lai_exec_state_scheme \<Rightarrow> (bool \<times> lai_state \<times> ('d, 'a) lai_exec_state_scheme) option"

text \<open>A list of reservations, the first that fails ends the step.\<close>

fun reserving :: "('d, 'a) reserver list \<Rightarrow> (lai_state \<Rightarrow> ('d, 'a) lai_exec_state_scheme \<Rightarrow> ('d, 'a) execution) \<Rightarrow>
    lai_state \<Rightarrow> ('d, 'a) lai_exec_state_scheme \<Rightarrow> ('d, 'a) execution" where
  "reserving [] k st s = k st s"
| "reserving (r # rs) k st s = do {
     (e, st, s) \<leftarrow> r st s;
     if e then Some (LAI_ERROR_OUT_OF_MEMORY, st, s) else reserving rs k st s }"

definition lai_exec_commit_pc :: "lai_state \<Rightarrow> int \<Rightarrow> lai_state option" where
  "lai_exec_commit_pc st pc =
     (if st_items (blkstack st) = [] then None else Some (st\<lparr>blkstack := update_top (\<lambda>b. b\<lparr>bk_pc := pc\<rparr>) (blkstack st)\<rparr>))"

definition exec_failure :: "lai_state \<Rightarrow> ('d, 'a) lai_exec_state_scheme \<Rightarrow> ('d, 'a) execution" where
  "exec_failure st s = Some (LAI_ERROR_EXECUTION_FAILURE, st, s)"

definition exec_done :: "lai_state \<Rightarrow> ('d, 'a) lai_exec_state_scheme \<Rightarrow> ('d, 'a) execution" where
  "exec_done st s = Some (LAI_ERROR_NONE, st, s)"

text \<open>An integer that was read is pushed as an operand.\<close>

definition push_integer :: "int \<Rightarrow> u64 \<Rightarrow> lai_state \<Rightarrow> ('d, 'a) lai_exec_state_scheme \<Rightarrow> ('d, 'a) execution" where
  "push_integer pc i = reserving [lai_exec_reserve_opstack] (\<lambda>st s. do {
     st \<leftarrow> lai_exec_commit_pc st pc;
     st \<leftarrow> lai_exec_push_opstack (OpObject (VInteger i)) st;
     exec_done st s })"

definition parse_immediate :: "nat \<Rightarrow> addr \<Rightarrow> int \<Rightarrow> int \<Rightarrow> lai_state \<Rightarrow> ('d, 'a) lai_exec_state_scheme \<Rightarrow> ('d, 'a) execution" where
  "parse_immediate mode code pc limit st s =
     (if mode = LAI_IMMEDIATE_BYTE_MODE
      then (case lai_parse_u8 (mem s) code pc limit of None \<Rightarrow> exec_failure st s | Some (i, pc) \<Rightarrow> push_integer pc (ucast i) st s)
      else if mode = LAI_IMMEDIATE_WORD_MODE
      then (case lai_parse_u16 (mem s) code pc limit of None \<Rightarrow> exec_failure st s | Some (i, pc) \<Rightarrow> push_integer pc (ucast i) st s)
      else (case lai_parse_u32 (mem s) code pc limit of None \<Rightarrow> exec_failure st s | Some (i, pc) \<Rightarrow> push_integer pc (ucast i) st s))"

subsection \<open>Names\<close>

definition push_if :: "bool \<Rightarrow> lai_operand \<Rightarrow> lai_state \<Rightarrow> lai_state option" where
  "push_if want x st = (if want then lai_exec_push_opstack x st else Some st)"

text \<open>A name that resolves to a node: a method is invoked, other nodes are loaded or left as they are.\<close>

definition parse_resolved :: "('d, 'a) env \<Rightarrow> nat \<Rightarrow> addr \<Rightarrow> lai_state \<Rightarrow> ('d, 'a) lai_exec_state_scheme \<Rightarrow> ('d, 'a) execution" where
  "parse_resolved env mode handle st s =
     (let want = LAI_MF_RESULT mode; nd = node_at s handle
      in if nd_type nd = LAI_NAMESPACE_METHOD \<and> LAI_MF_INVOKE mode
         then do {
           st \<leftarrow> lai_exec_push_stack (SInvoke (opstack_ptr st) (unat (method_flags nd AND METHOD_ARGC_MASK)) want) st;
           st \<leftarrow> lai_exec_push_opstack (OpResolved handle) st;
           exec_done st s }
         else if LAI_MF_INVOKE mode
         then do {
           (result, s) \<leftarrow> lai_exec_access env VNone handle s;
           if want
           then do {
             (obj, _, s) \<leftarrow> lai_var_move VNone result s;
             st \<leftarrow> lai_exec_push_opstack (OpObject obj) st;
             exec_done st s }
           else do { s \<leftarrow> finalize_list [result] s; exec_done st s } }
         else do { st \<leftarrow> push_if want (OpResolved handle) st; exec_done st s })"

definition parse_name_operand :: "('d, 'a) env \<Rightarrow> nat \<Rightarrow> addr \<Rightarrow> addr \<Rightarrow> int \<Rightarrow> lai_state \<Rightarrow> ('d, 'a) lai_exec_state_scheme \<Rightarrow> ('d, 'a) execution" where
  "parse_name_operand env mode code ctx_handle opcode_pc st s = do {
     (amln, pc) \<leftarrow> lai_parse_name (mem s) code opcode_pc;
     let want = LAI_MF_RESULT mode;
     let aml = code + of_int opcode_pc;
     reserving [lai_exec_reserve_opstack, lai_exec_reserve_stack] (\<lambda>st s. do {
       st \<leftarrow> lai_exec_commit_pc st pc;
       if mode = LAI_DATA_MODE
       then do { st \<leftarrow> push_if want (OpObject (VLazyHandle ctx_handle aml)) st; exec_done st s }
       else if \<not> LAI_MF_RESOLVE mode
       then do { st \<leftarrow> push_if want (OpUnresolved ctx_handle aml) st; exec_done st s }
       else do {
         handle \<leftarrow> lai_do_resolve s ctx_handle amln;
         if handle = 0
         then if LAI_MF_NULLABLE mode then do { st \<leftarrow> push_if want (OpResolved 0) st; exec_done st s }
              else Some (LAI_ERROR_UNEXPECTED_RESULT, st, s)
         else parse_resolved env mode handle st s } }) st s }"

subsection \<open>Constants\<close>

definition LAI_REVISION :: u64 where "LAI_REVISION = 0x20200712"

definition is_value_mode :: "nat \<Rightarrow> bool" where "is_value_mode mode \<longleftrightarrow> mode = LAI_DATA_MODE \<or> mode = LAI_OBJECT_MODE"

definition is_target_mode :: "nat \<Rightarrow> bool" where
  "is_target_mode mode \<longleftrightarrow> mode = LAI_REFERENCE_MODE \<or> mode = LAI_OPTIONAL_REFERENCE_MODE"

text \<open>The zero opcode is a null target where a target is expected.\<close>

definition parse_constant :: "('d, 'a) env \<Rightarrow> u32 \<Rightarrow> nat \<Rightarrow> int \<Rightarrow> lai_state \<Rightarrow> ('d, 'a) lai_exec_state_scheme \<Rightarrow> ('d, 'a) execution" where
  "parse_constant env opcode mode pc = reserving [lai_exec_reserve_opstack] (\<lambda>st s. do {
     st \<leftarrow> lai_exec_commit_pc st pc;
     if is_value_mode mode
     then do {
       (i, s) \<leftarrow> (if opcode = ZERO_OP then Some (0, s)
         else if opcode = ONE_OP then Some (1, s)
         else if opcode = ONES_OP then Some (NOT 0, s)
         else if opcode = extop REVISION_OP then Some (LAI_REVISION, s)
         else (case xe_timer env of None \<Rightarrow> None | Some laihost_timer \<Rightarrow> Some (laihost_timer s)));
       st \<leftarrow> lai_exec_push_opstack (OpObject (VInteger i)) st;
       exec_done st s }
     else if opcode = ZERO_OP \<and> is_target_mode mode
     then do { st \<leftarrow> lai_exec_push_opstack OpNull st; exec_done st s }
     else if mode = LAI_EXEC_MODE then exec_done st s else None })"

definition read_prefixed :: "mem \<Rightarrow> u32 \<Rightarrow> addr \<Rightarrow> int \<Rightarrow> int \<Rightarrow> (u64 \<times> int) option" where
  "read_prefixed m opcode code pc limit =
     (if opcode = BYTEPREFIX then map_option (\<lambda>(i, pc). (ucast i, pc)) (lai_parse_u8 m code pc limit)
      else if opcode = WORDPREFIX then map_option (\<lambda>(i, pc). (ucast i, pc)) (lai_parse_u16 m code pc limit)
      else if opcode = DWORDPREFIX then map_option (\<lambda>(i, pc). (ucast i, pc)) (lai_parse_u32 m code pc limit)
      else lai_parse_u64 m code pc limit)"

definition parse_prefixed :: "u32 \<Rightarrow> nat \<Rightarrow> addr \<Rightarrow> int \<Rightarrow> int \<Rightarrow> lai_state \<Rightarrow> ('d, 'a) lai_exec_state_scheme \<Rightarrow> ('d, 'a) execution" where
  "parse_prefixed opcode mode code pc limit st s =
     (case read_prefixed (mem s) opcode code pc limit of None \<Rightarrow> exec_failure st s
      | Some (val, pc) \<Rightarrow> reserving [lai_exec_reserve_opstack] (\<lambda>st s. do {
          st \<leftarrow> lai_exec_commit_pc st pc;
          if is_value_mode mode then do { st \<leftarrow> lai_exec_push_opstack (OpObject (VInteger val)) st; exec_done st s }
          else if mode = LAI_EXEC_MODE then exec_done st s else None }) st s)"

text \<open>The length of a string in the code; it has to end before the limit.\<close>

function code_strlen :: "mem \<Rightarrow> addr \<Rightarrow> int \<Rightarrow> int \<Rightarrow> nat \<Rightarrow> nat option" where
  "code_strlen m code pc limit n =
     (if pc + int n < limit then if code_byte m code (pc + int n) \<noteq> 0 then code_strlen m code pc limit (n + 1) else Some n
      else None)"
  by pat_completeness auto
termination by (relation "measure (\<lambda>(m, code, pc, limit, n). nat (limit - pc - int n))") auto

declare code_strlen.simps [simp del]

definition code_bytes :: "mem \<Rightarrow> addr \<Rightarrow> int \<Rightarrow> nat \<Rightarrow> u8 list" where
  "code_bytes m code pc n = map (\<lambda>i. code_byte m code (pc + int i)) [0..<n]"

definition parse_string :: "nat \<Rightarrow> addr \<Rightarrow> int \<Rightarrow> int \<Rightarrow> lai_state \<Rightarrow> ('d, 'a) lai_exec_state_scheme \<Rightarrow> ('d, 'a) execution" where
  "parse_string mode code data_pc limit st s = do {
     n \<leftarrow> code_strlen (mem s) code data_pc limit 0;
     reserving [lai_exec_reserve_opstack] (\<lambda>st s. do {
       st \<leftarrow> lai_exec_commit_pc st (data_pc + int n + 1);
       if is_value_mode mode
       then do {
         (e, v, s) \<leftarrow> lai_create_string (of_nat n) s;
         if e \<noteq> LAI_ERROR_NONE then None
         else do {
           s \<leftarrow> write_string v 0 (code_bytes (mem s) code data_pc n) s;
           st \<leftarrow> lai_exec_push_opstack (OpObject v) st;
           exec_done st s } }
       else if mode = LAI_EXEC_MODE then exec_done st s else None }) st s }"

subsection \<open>Blocks\<close>

text \<open>The end of a package that starts at an opcode of one or two bytes.\<close>

definition block_end :: "int \<Rightarrow> int \<Rightarrow> u64 \<Rightarrow> int" where
  "block_end opcode_pc k sz = int_of_size (of_int opcode_pc + of_int k + sz)"

definition push_block :: "int \<Rightarrow> int \<Rightarrow> lai_state \<Rightarrow> lai_state option" where
  "push_block pc limit st = lai_exec_push_blkstack \<lparr>bk_pc = pc, bk_limit = limit\<rparr> st"

definition parse_buffer :: "nat \<Rightarrow> addr \<Rightarrow> int \<Rightarrow> int \<Rightarrow> int \<Rightarrow> lai_state \<Rightarrow> ('d, 'a) lai_exec_state_scheme \<Rightarrow> ('d, 'a) execution" where
  "parse_buffer mode code opcode_pc pc limit st s =
     (case lai_parse_varint (mem s) code pc limit of None \<Rightarrow> exec_failure st s
      | Some (sz, data_pc) \<Rightarrow>
          reserving [lai_exec_reserve_blkstack, lai_exec_reserve_stack] (\<lambda>st s. do {
            st \<leftarrow> lai_exec_commit_pc st (block_end opcode_pc 1 sz);
            st \<leftarrow> push_block data_pc (block_end opcode_pc 1 sz) st;
            st \<leftarrow> lai_exec_push_stack (SBuffer (opstack_ptr st) (LAI_MF_RESULT mode)) st;
            exec_done st s }) st s)"

definition parse_package :: "u32 \<Rightarrow> nat \<Rightarrow> addr \<Rightarrow> int \<Rightarrow> int \<Rightarrow> int \<Rightarrow> lai_state \<Rightarrow> ('d, 'a) lai_exec_state_scheme \<Rightarrow> ('d, 'a) execution" where
  "parse_package opcode mode code opcode_pc pc limit st s =
     (case lai_parse_varint (mem s) code pc limit of None \<Rightarrow> exec_failure st s
      | Some (sz, data_pc) \<Rightarrow>
          reserving [lai_exec_reserve_opstack, lai_exec_reserve_blkstack, lai_exec_reserve_stack] (\<lambda>st s. do {
            st \<leftarrow> lai_exec_commit_pc st (block_end opcode_pc 1 sz);
            st \<leftarrow> push_block data_pc (block_end opcode_pc 1 sz) st;
            st \<leftarrow> lai_exec_push_stack
                   ((if opcode = PACKAGE_OP then SPackage else SVarPackage) (opstack_ptr st) 0 0 (LAI_MF_RESULT mode)) st;
            st \<leftarrow> lai_exec_push_opstack (OpObject VNone) st;
            exec_done st s }) st s)"

subsection \<open>Control flow\<close>

definition parse_return :: "int \<Rightarrow> lai_state \<Rightarrow> ('d, 'a) lai_exec_state_scheme \<Rightarrow> ('d, 'a) execution" where
  "parse_return pc = reserving [lai_exec_reserve_stack] (\<lambda>st s. do {
     st \<leftarrow> lai_exec_commit_pc st pc;
     st \<leftarrow> lai_exec_push_stack (SReturn (opstack_ptr st)) st;
     exec_done st s })"

definition parse_while :: "addr \<Rightarrow> int \<Rightarrow> int \<Rightarrow> int \<Rightarrow> lai_state \<Rightarrow> ('d, 'a) lai_exec_state_scheme \<Rightarrow> ('d, 'a) execution" where
  "parse_while code opcode_pc pc limit st s =
     (case lai_parse_varint (mem s) code pc limit of None \<Rightarrow> exec_failure st s
      | Some (sz, body_pc) \<Rightarrow>
          reserving [lai_exec_reserve_blkstack, lai_exec_reserve_stack] (\<lambda>st s. do {
            st \<leftarrow> lai_exec_commit_pc st (block_end opcode_pc 1 sz);
            st \<leftarrow> push_block body_pc (block_end opcode_pc 1 sz) st;
            st \<leftarrow> lai_exec_push_stack (SLoop (opstack_ptr st) False body_pc) st;
            exec_done st s }) st s)"

fun is_nested :: "lai_stackitem \<Rightarrow> bool" where
  "is_nested (SCond _ _ _ _ _) = True"
| "is_nested (SLoop _ _ _) = True"
| "is_nested _ = False"

fun is_loop :: "lai_stackitem \<Rightarrow> bool" where
  "is_loop (SLoop _ _ _) = True"
| "is_loop _ = False"

text \<open>The number of loops and conditions above the first item of a kind, from the top of the stack.\<close>

fun find_item :: "(lai_stackitem \<Rightarrow> bool) \<Rightarrow> lai_stackitem list \<Rightarrow> (nat \<times> lai_stackitem) option" where
  "find_item P [] = None"
| "find_item P (x # xs) =
     (if P x then Some (0, x) else if is_nested x then map_option (\<lambda>(m, y). (Suc m, y)) (find_item P xs) else None)"

text \<open>Loops and conditions are popped together with their blocks.\<close>

fun pop_nested :: "nat \<Rightarrow> lai_state \<Rightarrow> lai_state option" where
  "pop_nested 0 st = Some st"
| "pop_nested (Suc m) st = do {
     x \<leftarrow> lai_exec_peek_stack_back st;
     if is_nested x
     then do { st \<leftarrow> lai_exec_pop_blkstack_back st; st \<leftarrow> lai_exec_pop_stack_back st; pop_nested m st }
     else None }"

text \<open>\<open>Continue\<close> computes the start of the loop but does not commit it.\<close>

definition parse_continue :: "lai_state \<Rightarrow> ('d, 'a) lai_exec_state_scheme \<Rightarrow> ('d, 'a) execution" where
  "parse_continue st s = do {
     (m, _) \<leftarrow> find_item is_loop (rev (st_items (stack st)));
     st \<leftarrow> pop_nested m st;
     exec_done st s }"

definition parse_break :: "lai_state \<Rightarrow> ('d, 'a) lai_exec_state_scheme \<Rightarrow> ('d, 'a) execution" where
  "parse_break st s = do {
     (m, _) \<leftarrow> find_item is_loop (rev (st_items (stack st)));
     st \<leftarrow> pop_nested m st;
     st \<leftarrow> lai_exec_pop_blkstack_back st;
     st \<leftarrow> lai_exec_pop_stack_back st;
     exec_done st s }"

definition push_cond :: "int \<Rightarrow> int \<Rightarrow> int \<Rightarrow> bool \<Rightarrow> int \<Rightarrow> int \<Rightarrow> lai_state \<Rightarrow> ('d, 'a) lai_exec_state_scheme \<Rightarrow> ('d, 'a) execution" where
  "push_cond pc if_pc if_limit has_else else_pc else_limit =
     reserving [lai_exec_reserve_blkstack, lai_exec_reserve_stack] (\<lambda>st s. do {
       st \<leftarrow> lai_exec_commit_pc st pc;
       st \<leftarrow> push_block if_pc if_limit st;
       st \<leftarrow> lai_exec_push_stack (SCond (opstack_ptr st) False has_else else_pc else_limit) st;
       exec_done st s })"

definition parse_if :: "addr \<Rightarrow> int \<Rightarrow> int \<Rightarrow> int \<Rightarrow> lai_state \<Rightarrow> ('d, 'a) lai_exec_state_scheme \<Rightarrow> ('d, 'a) execution" where
  "parse_if code opcode_pc pc limit st s =
     (case lai_parse_varint (mem s) code pc limit of None \<Rightarrow> exec_failure st s
      | Some (if_size, if_pc) \<Rightarrow>
          (let pc = block_end opcode_pc 1 if_size
           in if pc < limit \<and> ucast (code_byte (mem s) code pc) = ELSE_OP
              then (case lai_parse_varint (mem s) code (pc + 1) limit of None \<Rightarrow> exec_failure st s
                | Some (else_size, else_pc) \<Rightarrow>
                    let else_limit = block_end opcode_pc 2 (if_size + else_size)
                    in push_cond else_limit if_pc pc True else_pc else_limit st s)
              else push_cond pc if_pc pc False 0 (block_end opcode_pc 2 if_size) st s))"

subsection \<open>Scopes\<close>

definition push_scope :: "addr \<Rightarrow> addr \<Rightarrow> addr \<Rightarrow> int \<Rightarrow> int \<Rightarrow> lai_state \<Rightarrow> ('d, 'a) lai_exec_state_scheme \<Rightarrow> ('d, 'a) execution" where
  "push_scope amls code handle nested_pc limit st s = do {
     st \<leftarrow> lai_exec_push_ctxstack \<lparr>cx_amls = amls, cx_code = code, cx_handle = handle, cx_invocation = 0\<rparr> st;
     st \<leftarrow> push_block nested_pc limit st;
     st \<leftarrow> lai_exec_push_stack SPopulate st;
     exec_done st s }"

definition scope_stacks :: "('d, 'a) reserver list" where
  "scope_stacks = [lai_exec_reserve_ctxstack, lai_exec_reserve_blkstack, lai_exec_reserve_stack]"

definition parse_scope :: "lai_ctxitem \<Rightarrow> int \<Rightarrow> int \<Rightarrow> int \<Rightarrow> lai_state \<Rightarrow> ('d, 'a) lai_exec_state_scheme \<Rightarrow> ('d, 'a) execution" where
  "parse_scope cx opcode_pc pc limit st s =
     (case lai_parse_varint (mem s) (cx_code cx) pc limit of None \<Rightarrow> exec_failure st s
      | Some (sz, pc) \<Rightarrow> do {
          (amln, nested_pc) \<leftarrow> lai_parse_name (mem s) (cx_code cx) pc;
          reserving scope_stacks (\<lambda>st s. do {
            st \<leftarrow> lai_exec_commit_pc st (block_end opcode_pc 1 sz);
            handle \<leftarrow> lai_do_resolve s (cx_handle cx) amln;
            if handle = 0 then Some (LAI_ERROR_UNEXPECTED_RESULT, st, s)
            else push_scope (cx_amls cx) (cx_code cx) handle nested_pc (block_end opcode_pc 1 sz) st s }) st s })"

text \<open>Devices, processors, power resources and thermal zones: a new node whose contents are parsed in its scope.\<close>

definition scope_type :: "u32 \<Rightarrow> u32" where
  "scope_type opcode = (if opcode = extop DEVICE then LAI_NAMESPACE_DEVICE else if opcode = extop PROCESSOR then LAI_NAMESPACE_PROCESSOR
     else if opcode = extop POWER_RES then LAI_NAMESPACE_POWERRESOURCE else LAI_NAMESPACE_THERMALZONE)"

text \<open>The members of the node that follow its name, and where its contents start.\<close>

definition scope_members :: "mem \<Rightarrow> u32 \<Rightarrow> addr \<Rightarrow> int \<Rightarrow> int \<Rightarrow> ((lai_nsnode \<Rightarrow> lai_nsnode) \<times> int) option" where
  "scope_members m opcode code pc limit =
     (if opcode = extop PROCESSOR
      then do {
        (cpu, pc) \<leftarrow> lai_parse_u8 m code pc limit;
        (blk, pc) \<leftarrow> lai_parse_u32 m code pc limit;
        (len, pc) \<leftarrow> lai_parse_u8 m code pc limit;
        Some (\<lambda>d. d\<lparr>cpu_id := cpu, pblk_addr := blk, pblk_len := len\<rparr>, pc) }
      else if opcode = extop POWER_RES then Some (id, pc + 3)
      else Some (id, pc))"

definition parse_scope_node :: "u32 \<Rightarrow> lai_ctxitem \<Rightarrow> int \<Rightarrow> int \<Rightarrow> int \<Rightarrow> lai_state \<Rightarrow> ('d, 'a) lai_exec_state_scheme \<Rightarrow> ('d, 'a) execution" where
  "parse_scope_node opcode cx opcode_pc pc limit st s =
     (case lai_parse_varint (mem s) (cx_code cx) pc limit of None \<Rightarrow> exec_failure st s
      | Some (sz, pc) \<Rightarrow> do {
          (amln, pc) \<leftarrow> lai_parse_name (mem s) (cx_code cx) pc;
          case scope_members (mem s) opcode (cx_code cx) pc limit of None \<Rightarrow> exec_failure st s
          | Some (f, nested_pc) \<Rightarrow> reserving scope_stacks (\<lambda>st s. do {
              st \<leftarrow> lai_exec_commit_pc st (block_end opcode_pc 2 sz);
              (node, s) \<leftarrow> new_node (\<lambda>d. f (d\<lparr>nd_type := scope_type opcode\<rparr>)) (cx_handle cx) amln s;
              (err, s) \<leftarrow> lai_install_nsnode node s;
              if err \<noteq> LAI_ERROR_NONE then Some (err, st, s)
              else push_scope (cx_amls cx) (cx_code cx) node nested_pc (block_end opcode_pc 2 sz) st
                (link_to_method (cx_invocation cx) node s) }) st s })"

subsection \<open>Leaves of the namespace\<close>

definition install_leaf :: "addr \<Rightarrow> addr \<Rightarrow> lai_state \<Rightarrow> ('d, 'a) lai_exec_state_scheme \<Rightarrow> ('d, 'a) execution" where
  "install_leaf inv' node st s = do {
     (err, s) \<leftarrow> lai_install_nsnode node s;
     if err \<noteq> LAI_ERROR_NONE then Some (err, st, s) else exec_done st (link_to_method inv' node s) }"

definition parse_method :: "lai_ctxitem \<Rightarrow> int \<Rightarrow> int \<Rightarrow> int \<Rightarrow> lai_state \<Rightarrow> ('d, 'a) lai_exec_state_scheme \<Rightarrow> ('d, 'a) execution" where
  "parse_method cx opcode_pc pc limit st s =
     (case lai_parse_varint (mem s) (cx_code cx) pc limit of None \<Rightarrow> exec_failure st s
      | Some (sz, pc) \<Rightarrow> do {
          (amln, pc) \<leftarrow> lai_parse_name (mem s) (cx_code cx) pc;
          case lai_parse_u8 (mem s) (cx_code cx) pc limit of None \<Rightarrow> exec_failure st s
          | Some (flags, nested_pc) \<Rightarrow> do {
              let pc = block_end opcode_pc 1 sz;
              st \<leftarrow> lai_exec_commit_pc st pc;
              (node, s) \<leftarrow> new_node (\<lambda>d. d\<lparr>nd_type := LAI_NAMESPACE_METHOD, method_flags := flags, nd_amls := cx_amls cx,
                  nd_pointer := cx_code cx + of_int nested_pc, nd_size := of_int (pc - nested_pc)\<rparr>) (cx_handle cx) amln s;
              install_leaf (cx_invocation cx) node st s } })"

definition parse_external :: "addr \<Rightarrow> int \<Rightarrow> int \<Rightarrow> lai_state \<Rightarrow> ('d, 'a) lai_exec_state_scheme \<Rightarrow> ('d, 'a) execution" where
  "parse_external code pc limit st s = do {
     (amln, pc) \<leftarrow> lai_parse_name (mem s) code pc;
     case do { (_, pc) \<leftarrow> lai_parse_u8 (mem s) code pc limit; lai_parse_u8 (mem s) code pc limit } of
       None \<Rightarrow> exec_failure st s
     | Some (_, pc) \<Rightarrow> do { st \<leftarrow> lai_exec_commit_pc st pc; exec_done st s } }"

definition parse_alias :: "lai_ctxitem \<Rightarrow> int \<Rightarrow> lai_state \<Rightarrow> ('d, 'a) lai_exec_state_scheme \<Rightarrow> ('d, 'a) execution" where
  "parse_alias cx pc st s = do {
     (target_amln, pc) \<leftarrow> lai_parse_name (mem s) (cx_code cx) pc;
     (dest_amln, pc) \<leftarrow> lai_parse_name (mem s) (cx_code cx) pc;
     st \<leftarrow> lai_exec_commit_pc st pc;
     (node, s) \<leftarrow> lai_create_nsnode_or_die s;
     let s = set_node node (\<lambda>d. d\<lparr>nd_type := LAI_NAMESPACE_ALIAS\<rparr>) s;
     target \<leftarrow> lai_do_resolve s (cx_handle cx) target_amln;
     if target = 0 then None
     else do {
       s \<leftarrow> lai_do_resolve_new_node node (cx_handle cx) dest_amln (set_node node (\<lambda>d. d\<lparr>al_target := target\<rparr>) s);
       install_leaf (cx_invocation cx) node st s } }"

text \<open>Mutexes and events; the flags after the name of a mutex are stepped over.\<close>

definition parse_sync :: "u32 \<Rightarrow> lai_ctxitem \<Rightarrow> int \<Rightarrow> lai_state \<Rightarrow> ('d, 'a) lai_exec_state_scheme \<Rightarrow> ('d, 'a) execution" where
  "parse_sync opcode cx pc st s = do {
     (amln, pc) \<leftarrow> lai_parse_name (mem s) (cx_code cx) pc;
     st \<leftarrow> lai_exec_commit_pc st (if opcode = extop MUTEX then pc + 1 else pc);
     (node, s) \<leftarrow> new_node (\<lambda>d. d\<lparr>nd_type := (if opcode = extop MUTEX then LAI_NAMESPACE_MUTEX else LAI_NAMESPACE_EVENT)\<rparr>) (cx_handle cx) amln s;
     install_leaf (cx_invocation cx) node st s }"

text \<open>Nodes whose operands are evaluated first: the modes of the operands, which end with a zero.\<close>

definition node_modes :: "u32 \<Rightarrow> nat list option" where
  "node_modes opcode =
     (if opcode = NAME_OP then Some [LAI_UNRESOLVED_MODE, LAI_OBJECT_MODE, 0]
      else if opcode \<in> {BITFIELD_OP, BYTEFIELD_OP, WORDFIELD_OP, DWORDFIELD_OP, QWORDFIELD_OP}
      then Some [LAI_REFERENCE_MODE, LAI_OBJECT_MODE, LAI_UNRESOLVED_MODE, 0]
      else if opcode = extop ARBFIELD_OP
      then Some [LAI_REFERENCE_MODE, LAI_OBJECT_MODE, LAI_OBJECT_MODE, LAI_UNRESOLVED_MODE, 0]
      else if opcode = extop OPREGION
      then Some [LAI_UNRESOLVED_MODE, LAI_IMMEDIATE_BYTE_MODE, LAI_OBJECT_MODE, LAI_OBJECT_MODE, 0]
      else None)"

definition parse_node :: "u32 \<Rightarrow> nat list \<Rightarrow> int \<Rightarrow> lai_state \<Rightarrow> ('d, 'a) lai_exec_state_scheme \<Rightarrow> ('d, 'a) execution" where
  "parse_node opcode modes pc = reserving [lai_exec_reserve_stack] (\<lambda>st s. do {
     st \<leftarrow> lai_exec_commit_pc st pc;
     st \<leftarrow> lai_exec_push_stack (SNode (opstack_ptr st) opcode modes) st;
     exec_done st s })"

subsection \<open>Field lists\<close>

text \<open>
  The entries up to the end of a field list: reserved bits, a change of the access type, and named fields, for which
  a node is installed.  A connection is skipped in a \<open>Field\<close> and a panic elsewhere.  The result is the error and the
  position reached; \<open>f\<close> sets the members of the node that the kind of the field determines.
\<close>

definition field_node :: "(lai_nsnode \<Rightarrow> lai_nsnode) \<Rightarrow> u8 \<Rightarrow> u64 \<Rightarrow> u64 \<Rightarrow> lai_nsnode \<Rightarrow> lai_nsnode" where
  "field_node f access_type skip_bits curr_off d = f (d\<lparr>fld_flags := access_type, fld_size := skip_bits, fld_offset := curr_off\<rparr>)"

definition install_field :: "(lai_nsnode \<Rightarrow> lai_nsnode) \<Rightarrow> lai_ctxitem \<Rightarrow> lai_amlname \<Rightarrow> ('d, 'a) lai_exec_state_scheme \<Rightarrow>
    (lai_api_error \<times> ('d, 'a) lai_exec_state_scheme) option" where
  "install_field f cx amln s = do {
     (node, s) \<leftarrow> new_node f (cx_handle cx) amln s;
     (err, s) \<leftarrow> lai_install_nsnode node s;
     Some (err, if err = LAI_ERROR_NONE then link_to_method (cx_invocation cx) node s else s) }"

partial_function (option) field_list :: "(lai_nsnode \<Rightarrow> lai_nsnode) \<Rightarrow> bool \<Rightarrow> lai_ctxitem \<Rightarrow> int \<Rightarrow> int \<Rightarrow> u8 \<Rightarrow> u64 \<Rightarrow> int \<Rightarrow>
    ('d, 'a) lai_exec_state_scheme \<Rightarrow> (lai_api_error \<times> int \<times> ('d, 'a) lai_exec_state_scheme) option" where
  "field_list f connect cx end_pc limit access_type curr_off pc s =
     (if end_pc \<le> pc then Some (LAI_ERROR_NONE, pc, s)
      else let b = code_byte (mem s) (cx_code cx) pc
        in if b = 0
           then (case lai_parse_varint (mem s) (cx_code cx) (pc + 1) limit of
               None \<Rightarrow> Some (LAI_ERROR_EXECUTION_FAILURE, pc, s)
             | Some (skip_bits, pc) \<Rightarrow> field_list f connect cx end_pc limit access_type (curr_off + skip_bits) pc s)
           else if b = 1
           then field_list f connect cx end_pc limit (code_byte (mem s) (cx_code cx) (pc + 1)) curr_off (pc + 3) s
           else if b = 2
           then (if connect then field_list f connect cx end_pc limit access_type curr_off (pc + 1) s else None)
           else (case lai_parse_name (mem s) (cx_code cx) pc of None \<Rightarrow> None
             | Some (amln, pc) \<Rightarrow> (case lai_parse_varint (mem s) (cx_code cx) pc limit of
                   None \<Rightarrow> Some (LAI_ERROR_EXECUTION_FAILURE, pc, s)
                 | Some (skip_bits, pc) \<Rightarrow>
                     (case install_field (field_node f access_type skip_bits curr_off) cx amln s of None \<Rightarrow> None
                      | Some (err, s) \<Rightarrow>
                          (if err \<noteq> LAI_ERROR_NONE then Some (err, pc, s)
                           else field_list f connect cx end_pc limit access_type (curr_off + skip_bits) pc s)))))"

text \<open>The access type of the list precedes its entries.\<close>

definition parse_field_list :: "(lai_nsnode \<Rightarrow> lai_nsnode) \<Rightarrow> bool \<Rightarrow> lai_ctxitem \<Rightarrow> int \<Rightarrow> int \<Rightarrow> int \<Rightarrow>
    ('d, 'a) lai_exec_state_scheme \<Rightarrow> (lai_api_error \<times> int \<times> ('d, 'a) lai_exec_state_scheme) option" where
  "parse_field_list f connect cx end_pc limit pc s =
     field_list f connect cx end_pc limit (code_byte (mem s) (cx_code cx) pc) 0 (pc + 1) s"

definition commit_fields :: "lai_state \<Rightarrow> lai_api_error \<times> int \<times> ('d, 'a) lai_exec_state_scheme \<Rightarrow> ('d, 'a) execution" where
  "commit_fields st = (\<lambda>(err, pc, s).
     if err \<noteq> LAI_ERROR_NONE then Some (err, st, s)
     else do { st \<leftarrow> lai_exec_commit_pc st pc; exec_done st s })"

definition parse_field :: "lai_ctxitem \<Rightarrow> int \<Rightarrow> int \<Rightarrow> int \<Rightarrow> lai_state \<Rightarrow> ('d, 'a) lai_exec_state_scheme \<Rightarrow> ('d, 'a) execution" where
  "parse_field cx opcode_pc pc limit st s =
     (case lai_parse_varint (mem s) (cx_code cx) pc limit of None \<Rightarrow> exec_failure st s
      | Some (pkgsize, pc) \<Rightarrow> do {
          (region_amln, pc) \<leftarrow> lai_parse_name (mem s) (cx_code cx) pc;
          region_node \<leftarrow> lai_do_resolve s (cx_handle cx) region_amln;
          if region_node = 0 then None
          else do {
            r \<leftarrow> parse_field_list (\<lambda>d. d\<lparr>nd_type := LAI_NAMESPACE_FIELD, fld_region_node := region_node\<rparr>) True cx
                   (block_end opcode_pc 2 pkgsize) limit pc s;
            commit_fields st r } })"

definition parse_indexfield :: "lai_ctxitem \<Rightarrow> int \<Rightarrow> int \<Rightarrow> int \<Rightarrow> lai_state \<Rightarrow> ('d, 'a) lai_exec_state_scheme \<Rightarrow> ('d, 'a) execution" where
  "parse_indexfield cx opcode_pc pc limit st s =
     (case lai_parse_varint (mem s) (cx_code cx) pc limit of None \<Rightarrow> exec_failure st s
      | Some (pkgsize, pc) \<Rightarrow> do {
          (index_amln, pc) \<leftarrow> lai_parse_name (mem s) (cx_code cx) pc;
          (data_amln, pc) \<leftarrow> lai_parse_name (mem s) (cx_code cx) pc;
          index_node \<leftarrow> lai_do_resolve s (cx_handle cx) index_amln;
          data_node \<leftarrow> lai_do_resolve s (cx_handle cx) data_amln;
          if index_node = 0 \<or> data_node = 0 then None
          else do {
            r \<leftarrow> parse_field_list (\<lambda>d. d\<lparr>nd_type := LAI_NAMESPACE_INDEXFIELD, fld_idxf_index_node := index_node,
                     fld_idxf_data_node := data_node\<rparr>) False cx (block_end opcode_pc 2 pkgsize) limit pc s;
            commit_fields st r } })"

text \<open>The bank value of a bank field is an operand, so its list is read later.\<close>

definition parse_bankfield :: "lai_ctxitem \<Rightarrow> int \<Rightarrow> int \<Rightarrow> int \<Rightarrow> lai_state \<Rightarrow> ('d, 'a) lai_exec_state_scheme \<Rightarrow> ('d, 'a) execution" where
  "parse_bankfield cx opcode_pc pc limit st s =
     (case lai_parse_varint (mem s) (cx_code cx) pc limit of None \<Rightarrow> exec_failure st s
      | Some (pkgsize, pc) \<Rightarrow> do {
          (region_amln, pc) \<leftarrow> lai_parse_name (mem s) (cx_code cx) pc;
          (bank_amln, start_pc) \<leftarrow> lai_parse_name (mem s) (cx_code cx) pc;
          let pc = block_end opcode_pc 2 pkgsize;
          region_node \<leftarrow> lai_do_resolve s (cx_handle cx) region_amln;
          bank_node \<leftarrow> lai_do_resolve s (cx_handle cx) bank_amln;
          if region_node = 0 \<or> bank_node = 0 then None
          else reserving [lai_exec_reserve_blkstack, lai_exec_reserve_stack, lai_exec_reserve_opstack_n 2] (\<lambda>st s. do {
            st \<leftarrow> lai_exec_commit_pc st pc;
            st \<leftarrow> push_block start_pc pc st;
            st \<leftarrow> lai_exec_push_stack (SBankField (opstack_ptr st)) st;
            st \<leftarrow> lai_exec_push_opstack (OpResolved region_node) st;
            st \<leftarrow> lai_exec_push_opstack (OpResolved bank_node) st;
            exec_done st s }) st s })"

subsection \<open>Arguments, locals and the debug object\<close>

definition parse_var :: "bool \<Rightarrow> nat \<Rightarrow> nat \<Rightarrow> lai_ctxitem \<Rightarrow> int \<Rightarrow> lai_state \<Rightarrow> ('d, 'a) lai_exec_state_scheme \<Rightarrow> ('d, 'a) execution" where
  "parse_var is_arg i mode cx pc = reserving [lai_exec_reserve_opstack] (\<lambda>st s. do {
     st \<leftarrow> lai_exec_commit_pc st pc;
     if is_target_mode mode
     then do { st \<leftarrow> lai_exec_push_opstack (if is_arg then OpArg i else OpLocal i) st; exec_done st s }
     else if mode = LAI_OBJECT_MODE \<and> cx_invocation cx \<noteq> 0
     then do {
       v \<leftarrow> inv_var (inv_at s) (cx_invocation cx) is_arg i;
       (obj, s) \<leftarrow> lai_var_assign VNone v s;
       st \<leftarrow> lai_exec_push_opstack (OpObject obj) st;
       exec_done st s }
     else None })"

definition parse_debug :: "nat \<Rightarrow> int \<Rightarrow> lai_state \<Rightarrow> ('d, 'a) lai_exec_state_scheme \<Rightarrow> ('d, 'a) execution" where
  "parse_debug mode pc = reserving [lai_exec_reserve_opstack] (\<lambda>st s. do {
     st \<leftarrow> lai_exec_commit_pc st pc;
     if is_target_mode mode
     then do { st \<leftarrow> lai_exec_push_opstack OpDebug st; exec_done st s }
     else None })"

subsection \<open>Operators\<close>

text \<open>The modes of the operands, one definition per group of cases of the switch.\<close>

definition convert_modes :: "u32 \<Rightarrow> nat list option" where
  "convert_modes opcode =
     (if opcode \<in> {TOBUFFER_OP, TODECIMALSTRING_OP, TOHEXSTRING_OP, TOINTEGER_OP} then Some [LAI_OBJECT_MODE, LAI_REFERENCE_MODE, 0]
      else if opcode = TOSTRING_OP then Some [LAI_OBJECT_MODE, LAI_OBJECT_MODE, LAI_REFERENCE_MODE, 0]
      else if opcode = MID_OP then Some [LAI_OBJECT_MODE, LAI_OBJECT_MODE, LAI_OBJECT_MODE, LAI_REFERENCE_MODE, 0]
      else if opcode = extop FATAL_OP then Some [LAI_IMMEDIATE_BYTE_MODE, LAI_IMMEDIATE_DWORD_MODE, LAI_OBJECT_MODE, 0]
      else None)"

definition integer_modes :: "u32 \<Rightarrow> nat list option" where
  "integer_modes opcode =
     (if opcode \<in> {STORE_OP, COPYOBJECT_OP, NOT_OP, FINDSETLEFTBIT_OP, FINDSETRIGHTBIT_OP} then Some [LAI_OBJECT_MODE, LAI_REFERENCE_MODE, 0]
      else if opcode \<in> {CONCAT_OP, ADD_OP, SUBTRACT_OP, MOD_OP, MULTIPLY_OP, AND_OP, OR_OP, XOR_OP, SHR_OP, SHL_OP, NAND_OP, NOR_OP}
      then Some [LAI_OBJECT_MODE, LAI_OBJECT_MODE, LAI_REFERENCE_MODE, 0]
      else if opcode = DIVIDE_OP then Some [LAI_OBJECT_MODE, LAI_OBJECT_MODE, LAI_REFERENCE_MODE, LAI_REFERENCE_MODE, 0]
      else if opcode \<in> {INCREMENT_OP, DECREMENT_OP} then Some [LAI_REFERENCE_MODE, 0]
      else None)"

definition logical_modes :: "u32 \<Rightarrow> nat list option" where
  "logical_modes opcode =
     (if opcode = LNOT_OP then Some [LAI_OBJECT_MODE, 0]
      else if opcode \<in> {LAND_OP, LOR_OP, LEQUAL_OP, LLESS_OP, LGREATER_OP} then Some [LAI_OBJECT_MODE, LAI_OBJECT_MODE, 0]
      else if opcode = INDEX_OP then Some [LAI_OBJECT_MODE, LAI_OBJECT_MODE, LAI_REFERENCE_MODE, 0]
      else if opcode = MATCH_OP
      then Some [LAI_OBJECT_MODE, LAI_IMMEDIATE_BYTE_MODE, LAI_OBJECT_MODE, LAI_IMMEDIATE_BYTE_MODE, LAI_OBJECT_MODE, LAI_OBJECT_MODE, 0]
      else if opcode = CONCATRES_OP then Some [LAI_OBJECT_MODE, LAI_OBJECT_MODE, LAI_REFERENCE_MODE, 0]
      else if opcode = OBJECTTYPE_OP then Some [LAI_REFERENCE_MODE, 0]
      else if opcode \<in> {DEREF_OP, SIZEOF_OP} then Some [LAI_OBJECT_MODE, 0]
      else if opcode = REFOF_OP then Some [LAI_REFERENCE_MODE, 0]
      else None)"

definition extended_modes :: "u32 \<Rightarrow> nat list option" where
  "extended_modes opcode =
     (if opcode = NOTIFY_OP then Some [LAI_REFERENCE_MODE, LAI_OBJECT_MODE, 0]
      else if opcode = extop CONDREF_OP then Some [LAI_OPTIONAL_REFERENCE_MODE, LAI_REFERENCE_MODE, 0]
      else if opcode \<in> {extop STALL_OP, extop SLEEP_OP} then Some [LAI_OBJECT_MODE, 0]
      else if opcode = extop ACQUIRE_OP then Some [LAI_REFERENCE_MODE, LAI_IMMEDIATE_WORD_MODE, 0]
      else if opcode \<in> {extop RELEASE_OP, extop SIGNAL_OP, extop RESET_OP} then Some [LAI_REFERENCE_MODE, 0]
      else if opcode = extop WAIT_OP then Some [LAI_REFERENCE_MODE, LAI_OBJECT_MODE, 0]
      else if opcode \<in> {extop FROM_BCD_OP, extop TO_BCD_OP} then Some [LAI_OBJECT_MODE, LAI_REFERENCE_MODE, 0]
      else None)"

fun first_some :: "('a \<Rightarrow> 'b option) list \<Rightarrow> 'a \<Rightarrow> 'b option" where
  "first_some [] x = None"
| "first_some (f # fs) x = (case f x of None \<Rightarrow> first_some fs x | r \<Rightarrow> r)"

definition op_modes :: "u32 \<Rightarrow> nat list option" where
  "op_modes = first_some [convert_modes, integer_modes, logical_modes, extended_modes]"

lemmas op_mode_defs = op_modes_def convert_modes_def integer_modes_def logical_modes_def extended_modes_def

definition parse_op :: "u32 \<Rightarrow> nat list \<Rightarrow> nat \<Rightarrow> int \<Rightarrow> lai_state \<Rightarrow> ('d, 'a) lai_exec_state_scheme \<Rightarrow> ('d, 'a) execution" where
  "parse_op opcode modes mode pc = reserving [lai_exec_reserve_stack] (\<lambda>st s. do {
     st \<leftarrow> lai_exec_commit_pc st pc;
     st \<leftarrow> lai_exec_push_stack (SOp (opstack_ptr st) opcode modes (LAI_MF_RESULT mode)) st;
     exec_done st s })"

subsection \<open>The parser\<close>

text \<open>An opcode of one byte, or the prefix and a second byte, which has to be inside the block.\<close>

definition read_opcode :: "mem \<Rightarrow> addr \<Rightarrow> int \<Rightarrow> int \<Rightarrow> (u32 \<times> int) option" where
  "read_opcode m code pc limit =
     (if ucast (code_byte m code pc) = EXTOP_PREFIX
      then if pc + 1 = limit then None else Some (extop (ucast (code_byte m code (pc + 1))), pc + 2)
      else Some (ucast (code_byte m code pc), pc + 1))"

definition parse_commit :: "int \<Rightarrow> lai_state \<Rightarrow> ('d, 'a) lai_exec_state_scheme \<Rightarrow> ('d, 'a) execution" where
  "parse_commit pc st s = do { st \<leftarrow> lai_exec_commit_pc st pc; exec_done st s }"

text \<open>Opcodes of statements: control flow and the objects of the namespace.\<close>

definition parse_statement :: "u32 \<Rightarrow> lai_ctxitem \<Rightarrow> int \<Rightarrow> int \<Rightarrow> int \<Rightarrow> lai_state \<Rightarrow> ('d, 'a) lai_exec_state_scheme \<Rightarrow> ('d, 'a) execution" where
  "parse_statement opcode cx opcode_pc pc limit st s =
     (if opcode = RETURN_OP then parse_return pc st s
      else if opcode = WHILE_OP then parse_while (cx_code cx) opcode_pc pc limit st s
      else if opcode = CONTINUE_OP then parse_continue st s
      else if opcode = BREAK_OP then parse_break st s
      else if opcode = IF_OP then parse_if (cx_code cx) opcode_pc pc limit st s
      else if opcode = SCOPE_OP then parse_scope cx opcode_pc pc limit st s
      else if opcode \<in> {extop DEVICE, extop PROCESSOR, extop POWER_RES, extop THERMALZONE}
      then parse_scope_node opcode cx opcode_pc pc limit st s
      else if opcode = METHOD_OP then parse_method cx opcode_pc pc limit st s
      else if opcode = EXTERNAL_OP then parse_external (cx_code cx) pc limit st s
      else if opcode = ALIAS_OP then parse_alias cx pc st s
      else if opcode \<in> {extop MUTEX, extop EVENT} then parse_sync opcode cx pc st s
      else if opcode = extop FIELD then parse_field cx opcode_pc pc limit st s
      else if opcode = extop INDEXFIELD then parse_indexfield cx opcode_pc pc limit st s
      else if opcode = extop BANKFIELD then parse_bankfield cx opcode_pc pc limit st s
      else None)"

definition parse_opcode :: "('d, 'a) env \<Rightarrow> u32 \<Rightarrow> nat \<Rightarrow> lai_ctxitem \<Rightarrow> int \<Rightarrow> int \<Rightarrow> int \<Rightarrow> lai_state \<Rightarrow> ('d, 'a) lai_exec_state_scheme \<Rightarrow> ('d, 'a) execution" where
  "parse_opcode env opcode mode cx opcode_pc pc limit st s =
     (if opcode \<in> {NOP_OP, BREAKPOINT_OP} then parse_commit pc st s
      else if opcode \<in> {ZERO_OP, ONE_OP, ONES_OP, extop REVISION_OP, extop TIMER_OP} then parse_constant env opcode mode pc st s
      else if opcode \<in> {BYTEPREFIX, WORDPREFIX, DWORDPREFIX, QWORDPREFIX} then parse_prefixed opcode mode (cx_code cx) pc limit st s
      else if opcode = STRINGPREFIX then parse_string mode (cx_code cx) pc limit st s
      else if opcode = BUFFER_OP then parse_buffer mode (cx_code cx) opcode_pc pc limit st s
      else if opcode \<in> {PACKAGE_OP, VARPACKAGE_OP} then parse_package opcode mode (cx_code cx) opcode_pc pc limit st s
      else if ARG0_OP \<le> opcode \<and> opcode \<le> ARG6_OP then parse_var True (unat (opcode - ARG0_OP)) mode cx pc st s
      else if LOCAL0_OP \<le> opcode \<and> opcode \<le> LOCAL7_OP then parse_var False (unat (opcode - LOCAL0_OP)) mode cx pc st s
      else if opcode = extop DEBUG_OP then parse_debug mode pc st s
      else case op_modes opcode of Some modes \<Rightarrow> parse_op opcode modes mode pc st s
      | None \<Rightarrow> (case node_modes opcode of Some modes \<Rightarrow> parse_node opcode modes pc st s
          | None \<Rightarrow> parse_statement opcode cx opcode_pc pc limit st s))"

definition is_immediate_mode :: "nat \<Rightarrow> bool" where
  "is_immediate_mode mode \<longleftrightarrow> mode \<in> {LAI_IMMEDIATE_BYTE_MODE, LAI_IMMEDIATE_WORD_MODE, LAI_IMMEDIATE_DWORD_MODE}"

definition lai_exec_parse :: "('d, 'a) env \<Rightarrow> nat \<Rightarrow> lai_state \<Rightarrow> ('d, 'a) lai_exec_state_scheme \<Rightarrow> ('d, 'a) execution" where
  "lai_exec_parse env mode st s = do {
     cx \<leftarrow> lai_exec_peek_ctxstack_back st;
     block \<leftarrow> lai_exec_peek_blkstack_back st;
     let pc = bk_pc block;
     let limit = bk_limit block;
     if limit \<le> pc then None
     else if is_immediate_mode mode then parse_immediate mode (cx_code cx) pc limit st s
     else if lai_is_name (code_byte (mem s) (cx_code cx) pc) then parse_name_operand env mode (cx_code cx) (cx_handle cx) pc st s
     else do {
       (opcode, next_pc) \<leftarrow> read_opcode (mem s) (cx_code cx) pc limit;
       parse_opcode env opcode mode cx pc next_pc limit st s } }"

end
