(* ===== verification/LaiExec.thy ===== *)
theory LaiExec
  imports LaiParse
begin

text \<open>
  The main loop of the interpreter (\<open>core/exec.c\<close>): \<open>lai_exec_process\<close> handles the item on top of the execution stack,
  one definition per kind of item; \<open>lai_exec_run\<close> repeats it until the stack is empty.  The entry points evaluate a
  node or populate the namespace from a table.
\<close>

subsection \<open>Scopes and methods\<close>

text \<open>The number of operands since an item was pushed.\<close>

definition operand_count :: "lai_state \<Rightarrow> nat \<Rightarrow> int" where
  "operand_count st frame = int (opstack_ptr st) - int frame"

text \<open>The block and the item on top are done.\<close>

definition pop_block_item :: "lai_state \<Rightarrow> lai_state option" where
  "pop_block_item st = do { st \<leftarrow> lai_exec_pop_blkstack_back st; lai_exec_pop_stack_back st }"

text \<open>The block, the context and the item on top are done.\<close>

definition pop_context_item :: "lai_state \<Rightarrow> ('d, 'a) lai_exec_state_scheme \<Rightarrow> ('d, 'a) execution" where
  "pop_context_item st s = do {
     st \<leftarrow> lai_exec_pop_blkstack_back st;
     (st, s) \<leftarrow> lai_exec_pop_ctxstack_back st s;
     st \<leftarrow> lai_exec_pop_stack_back st;
     exec_done st s }"

definition process_populate :: "('d, 'a) env \<Rightarrow> lai_blkitem \<Rightarrow> lai_state \<Rightarrow> ('d, 'a) lai_exec_state_scheme \<Rightarrow> ('d, 'a) execution" where
  "process_populate env block st s =
     (if bk_pc block = bk_limit block then pop_context_item st s else lai_exec_parse env LAI_EXEC_MODE st s)"

text \<open>The nodes that a method created are removed from the namespace; a buffer field gives up its buffer.\<close>

definition drop_method_node :: "addr \<Rightarrow> ('d, 'a) lai_exec_state_scheme \<Rightarrow> ('d, 'a) lai_exec_state_scheme option" where
  "drop_method_node node s = do {
     s \<leftarrow> (if nd_type (node_at s node) = LAI_NAMESPACE_BUFFER_FIELD then finalize_list [VBuffer (bf_buffer (node_at s node))] s else Some s);
     s \<leftarrow> lai_uninstall_nsnode node s;
     Some (s\<lparr>list_links := lai_list_unlink (per_method_item node) (list_links s)\<rparr>) }"

partial_function (option) method_cleanup :: "addr \<Rightarrow> ('d, 'a) lai_exec_state_scheme \<Rightarrow> ('d, 'a) lai_exec_state_scheme option" where
  "method_cleanup p s =
     (let pmi = lai_list_first (per_method_list p) (list_links s)
      in if pmi = 0 then Some s
         else case drop_method_node (pmi - per_method_item 0) s of None \<Rightarrow> None | Some s \<Rightarrow> method_cleanup p s)"

text \<open>The end of a method returns 0 where a result is wanted; operands that are left there are an error.\<close>

definition process_method :: "('d, 'a) env \<Rightarrow> lai_ctxitem \<Rightarrow> lai_blkitem \<Rightarrow> bool \<Rightarrow> lai_state \<Rightarrow> ('d, 'a) lai_exec_state_scheme \<Rightarrow> ('d, 'a) execution" where
  "process_method env cx block want st s =
     (if bk_pc block = bk_limit block
      then reserving [lai_exec_reserve_opstack] (\<lambda>st s.
        if opstack_ptr st \<noteq> 0 \<or> cx_invocation cx = 0 then None
        else do {
          st \<leftarrow> push_if want (OpObject (VInteger 0)) st;
          s \<leftarrow> method_cleanup (cx_invocation cx) s;
          pop_context_item st s }) st s
      else lai_exec_parse env LAI_EXEC_MODE st s)"

subsection \<open>Buffers and packages\<close>

text \<open>The buffer is as large as its size operand; the rest of the block initialises its start.\<close>

definition finish_buffer :: "lai_ctxitem \<Rightarrow> lai_blkitem \<Rightarrow> nat \<Rightarrow> bool \<Rightarrow> lai_state \<Rightarrow> ('d, 'a) lai_exec_state_scheme \<Rightarrow> ('d, 'a) execution" where
  "finish_buffer cx block frame want st s = do {
     operand \<leftarrow> lai_exec_get_opstack st frame;
     (sz, s) \<leftarrow> lai_exec_get_objectref operand VNone s;
     (st, s) \<leftarrow> lai_exec_pop_opstack_back st s;
     n \<leftarrow> var_integer sz;
     (e, result, s) \<leftarrow> lai_create_buffer n s;
     bsize \<leftarrow> lai_exec_buffer_size (head_at s) result;
     let initial_size = bk_limit block - bk_pc block;
     if e \<noteq> LAI_ERROR_NONE \<or> initial_size < 0 \<or> int_of_size (of_nat bsize) < initial_size then None
     else do {
       s \<leftarrow> write_buffer result 0 (code_bytes (mem s) (cx_code cx) (bk_pc block) (nat initial_size)) s;
       (st, s) \<leftarrow> (if want
         then do {
           (obj, _, s) \<leftarrow> lai_var_move VNone result s;
           st \<leftarrow> lai_exec_push_opstack (OpObject obj) st;
           Some (st, s) }
         else do { s \<leftarrow> finalize_list [result] s; Some (st, s) });
       st \<leftarrow> pop_block_item st;
       s \<leftarrow> finalize_list [sz] s;
       exec_done st s } }"

definition process_buffer :: "('d, 'a) env \<Rightarrow> lai_ctxitem \<Rightarrow> lai_blkitem \<Rightarrow> nat \<Rightarrow> bool \<Rightarrow> lai_state \<Rightarrow> ('d, 'a) lai_exec_state_scheme \<Rightarrow> ('d, 'a) execution" where
  "process_buffer env cx block frame want st s =
     (let k = operand_count st frame
      in if 1 < k then None
         else if k = 1 then finish_buffer cx block frame want st s
         else lai_exec_parse env LAI_OBJECT_MODE st s)"

text \<open>
  The number of elements is read first.  The pointer to the package's item that is used afterwards is still valid if
  the stack did not move; if it moved out of the state itself, the old array is written, if it moved from the heap,
  freed memory.
\<close>

definition set_item :: "nat \<Rightarrow> lai_stackitem \<Rightarrow> lai_state \<Rightarrow> lai_state" where
  "set_item i x st = st\<lparr>stack := (stack st)\<lparr>st_items := (st_items (stack st))[i := x]\<rparr>\<rparr>"

definition write_item_late :: "addr \<Rightarrow> nat \<Rightarrow> lai_stackitem \<Rightarrow> lai_state \<Rightarrow> lai_state option" where
  "write_item_late base i x st =
     (if st_base (stack st) = base then Some (set_item i x st) else if base = 0 then Some st else None)"

definition package_size_phase :: "('d, 'a) env \<Rightarrow> nat \<Rightarrow> lai_stackitem \<Rightarrow> lai_state \<Rightarrow> ('d, 'a) lai_exec_state_scheme \<Rightarrow> ('d, 'a) execution" where
  "package_size_phase env mode item' st s = do {
     (error, st', s) \<leftarrow> lai_exec_parse env mode st s;
     st' \<leftarrow> write_item_late (st_base (stack st)) (length (st_items (stack st)) - 1) item' st';
     Some (error, st', s) }"

definition package_create_phase :: "nat \<Rightarrow> lai_stackitem \<Rightarrow> lai_state \<Rightarrow> ('d, 'a) lai_exec_state_scheme \<Rightarrow> ('d, 'a) execution" where
  "package_create_phase frame item' st s = do {
     operand \<leftarrow> lai_exec_get_opstack st (frame + 1);
     (n, s) \<leftarrow> get_integer operand s;
     (st, s) \<leftarrow> lai_exec_pop_opstack_back st s;
     (e, pkg, s) \<leftarrow> lai_create_pkg n s;
     if e \<noteq> LAI_ERROR_NONE then None
     else exec_done (set_item (length (st_items (stack st)) - 1) item' (set_operand frame (OpObject pkg) st)) s }"

text \<open>An element that was read is stored; the result is the index of the next one.\<close>

definition package_store :: "nat \<Rightarrow> nat \<Rightarrow> lai_state \<Rightarrow> ('d, 'a) lai_exec_state_scheme \<Rightarrow> (nat \<times> lai_state \<times> ('d, 'a) lai_exec_state_scheme) option" where
  "package_store frame i st s =
     (if opstack_ptr st = frame + 2
      then do {
        package \<leftarrow> lai_exec_get_opstack st frame;
        initializer \<leftarrow> lai_exec_get_opstack st (frame + 1);
        case (package, initializer) of
          (OpObject pkg, OpObject v) \<Rightarrow> do {
            n \<leftarrow> lai_exec_pkg_size (head_at s) pkg;
            if int_of_size (of_nat n) \<le> int i then None
            else do {
              s \<leftarrow> lai_exec_pkg_store v pkg i s;
              (st, s) \<leftarrow> lai_exec_pop_opstack_back st s;
              Some (i + 1, st, s) } }
        | _ \<Rightarrow> None }
      else Some (i, st, s))"

definition process_package :: "('d, 'a) env \<Rightarrow> (nat \<Rightarrow> nat \<Rightarrow> lai_stackitem) \<Rightarrow> nat \<Rightarrow> lai_blkitem \<Rightarrow> nat \<Rightarrow> nat \<Rightarrow> nat \<Rightarrow> bool \<Rightarrow>
    lai_state \<Rightarrow> ('d, 'a) lai_exec_state_scheme \<Rightarrow> ('d, 'a) execution" where
  "process_package env mk size_mode block frame i phase want st s =
     (if opstack_ptr st \<le> frame then None
      else if phase = 0 then package_size_phase env size_mode (mk i 1) st s
      else if phase = 1 then package_create_phase frame (mk i 2) st s
      else do {
        (i, st, s) \<leftarrow> package_store frame i st s;
        let st = set_item (length (st_items (stack st)) - 1) (mk i phase) st;
        if opstack_ptr st \<noteq> frame + 1 then None
        else if bk_pc block = bk_limit block
        then do {
          (st, s) \<leftarrow> (if want then Some (st, s) else lai_exec_pop_opstack_back st s);
          st \<leftarrow> pop_block_item st;
          exec_done st s }
        else lai_exec_parse env LAI_DATA_MODE st s })"

subsection \<open>Operators and nodes\<close>

text \<open>The mode of the next operand; 0 when all are there.\<close>

definition next_mode :: "nat list \<Rightarrow> lai_state \<Rightarrow> nat \<Rightarrow> nat option" where
  "next_mode modes st frame =
     (if frame \<le> opstack_ptr st \<and> opstack_ptr st - frame < length modes then Some (modes ! (opstack_ptr st - frame)) else None)"

definition frame_operands :: "lai_state \<Rightarrow> nat \<Rightarrow> lai_operand list" where
  "frame_operands st frame = List.drop frame (st_items (opstack st))"

text \<open>An error of a node that cannot be installed is ignored.\<close>

definition process_node :: "('d, 'a) env \<Rightarrow> lai_ctxitem \<Rightarrow> nat \<Rightarrow> u32 \<Rightarrow> nat list \<Rightarrow> lai_state \<Rightarrow> ('d, 'a) lai_exec_state_scheme \<Rightarrow> ('d, 'a) execution" where
  "process_node env cx frame opcode modes st s = do {
     mode \<leftarrow> next_mode modes st frame;
     if mode \<noteq> 0 then lai_exec_parse env mode st s
     else do {
       (_, s) \<leftarrow> lai_exec_reduce_node env opcode st (frame_operands st frame) (cx_handle cx) s;
       (st, s) \<leftarrow> lai_exec_pop_opstack st (opstack_ptr st - frame) s;
       st \<leftarrow> lai_exec_pop_stack_back st;
       exec_done st s } }"

definition finish_op :: "('d, 'a) env \<Rightarrow> nat \<Rightarrow> u32 \<Rightarrow> bool \<Rightarrow> lai_state \<Rightarrow> ('d, 'a) lai_exec_state_scheme \<Rightarrow> ('d, 'a) execution" where
  "finish_op env frame opcode want st s = do {
     (error, result, s) \<leftarrow> lai_exec_reduce_op env opcode st (frame_operands st frame) s;
     if error \<noteq> LAI_ERROR_NONE then Some (error, st, s)
     else do {
       (st, s) \<leftarrow> lai_exec_pop_opstack st (opstack_ptr st - frame) s;
       (st, s) \<leftarrow> (if want
         then do {
           (obj, _, s) \<leftarrow> lai_var_move VNone result s;
           st \<leftarrow> lai_exec_push_opstack (OpObject obj) st;
           Some (st, s) }
         else do { s \<leftarrow> finalize_list [result] s; Some (st, s) });
       st \<leftarrow> lai_exec_pop_stack_back st;
       exec_done st s } }"

definition process_op :: "('d, 'a) env \<Rightarrow> nat \<Rightarrow> u32 \<Rightarrow> nat list \<Rightarrow> bool \<Rightarrow> lai_state \<Rightarrow> ('d, 'a) lai_exec_state_scheme \<Rightarrow> ('d, 'a) execution" where
  "process_op env frame opcode modes want st s = do {
     mode \<leftarrow> next_mode modes st frame;
     if mode \<noteq> 0 then lai_exec_parse env mode st s
     else reserving [lai_exec_reserve_opstack] (finish_op env frame opcode want) st s }"

subsection \<open>Invocations\<close>

text \<open>A new invocation: all arguments and locals empty, no nodes.\<close>

definition new_invocation :: "lai_variable list \<Rightarrow> ('d, 'a) lai_exec_state_scheme \<Rightarrow> (addr \<times> ('d, 'a) lai_exec_state_scheme) option" where
  "new_invocation args s = do {
     (p, s) \<leftarrow> laihost_malloc sizeof_lai_invocation s;
     if p = 0 then None
     else Some (p, s\<lparr>inv_at := (inv_at s)(p \<mapsto> \<lparr>inv_arg = args @ replicate (7 - length args) VNone, inv_local = replicate 8 VNone\<rparr>),
            list_links := lai_list_init (per_method_list p) (list_links s)\<rparr>) }"

text \<open>The items that start an AML method.\<close>

definition push_method :: "lai_nsnode \<Rightarrow> addr \<Rightarrow> addr \<Rightarrow> bool \<Rightarrow> lai_state \<Rightarrow> lai_state option" where
  "push_method nd handle p want st = do {
     st \<leftarrow> lai_exec_push_ctxstack \<lparr>cx_amls = nd_amls nd, cx_code = nd_pointer nd, cx_handle = handle, cx_invocation = p\<rparr> st;
     st \<leftarrow> push_block 0 (int_of_size (nd_size nd)) st;
     lai_exec_push_stack (SMethod want) st }"

text \<open>The arguments of a call: a reference to each operand after the first.\<close>

fun get_args :: "nat \<Rightarrow> nat \<Rightarrow> lai_state \<Rightarrow> ('d, 'a) lai_exec_state_scheme \<Rightarrow> (lai_variable list \<times> ('d, 'a) lai_exec_state_scheme) option" where
  "get_args i 0 st s = Some ([], s)"
| "get_args i (Suc n) st s = do {
     operand \<leftarrow> lai_exec_get_opstack st i;
     (v, s) \<leftarrow> lai_exec_get_objectref operand VNone s;
     (vs, s) \<leftarrow> get_args (i + 1) n st s;
     Some (v # vs, s) }"

definition invoke_override :: "('d, 'a) env \<Rightarrow> addr \<Rightarrow> lai_variable list \<Rightarrow> bool \<Rightarrow> lai_state \<Rightarrow> ('d, 'a) lai_exec_state_scheme \<Rightarrow> ('d, 'a) execution" where
  "invoke_override env override args want st s = do {
     (e, method_result, s) \<leftarrow> xe_override env override args s;
     if e \<noteq> LAI_ERROR_NONE then do { s \<leftarrow> finalize_list [method_result] s; exec_failure st s }
     else if want
     then do {
       (obj, _, s) \<leftarrow> lai_var_move VNone method_result s;
       st \<leftarrow> lai_exec_push_opstack (OpObject obj) st;
       exec_done st s }
     else do { s \<leftarrow> finalize_list [method_result] s; exec_done st s } }"

definition invoke_method :: "('d, 'a) env \<Rightarrow> nat \<Rightarrow> nat \<Rightarrow> bool \<Rightarrow> lai_state \<Rightarrow> ('d, 'a) lai_exec_state_scheme \<Rightarrow> ('d, 'a) execution" where
  "invoke_method env frame argc want st s = do {
     opstack_method \<leftarrow> lai_exec_get_opstack st frame;
     case opstack_method of
       OpResolved handle \<Rightarrow> do {
         let nd = node_at s handle;
         (args, s) \<leftarrow> get_args (frame + 1) argc st s;
         (st, s) \<leftarrow> lai_exec_pop_opstack st (argc + 1) s;
         st \<leftarrow> lai_exec_pop_stack_back st;
         if nd_type nd \<noteq> LAI_NAMESPACE_METHOD then None
         else if method_override nd \<noteq> 0
         then invoke_override env (method_override nd) (args @ replicate (7 - argc) VNone) want st s
         else if nd_amls nd = 0 then None
         else do {
           (p, s) \<leftarrow> new_invocation args s;
           st \<leftarrow> push_method nd handle p want st;
           exec_done st s } }
     | _ \<Rightarrow> None }"

definition process_invoke :: "('d, 'a) env \<Rightarrow> nat \<Rightarrow> nat \<Rightarrow> bool \<Rightarrow> lai_state \<Rightarrow> ('d, 'a) lai_exec_state_scheme \<Rightarrow> ('d, 'a) execution" where
  "process_invoke env frame argc want st s =
     (let k = operand_count st frame
      in if int argc + 1 < k then None
         else if k = int argc + 1
         then reserving [lai_exec_reserve_ctxstack, lai_exec_reserve_blkstack] (invoke_method env frame argc want) st s
         else lai_exec_parse env LAI_OBJECT_MODE st s)"

subsection \<open>Control flow\<close>

fun is_method :: "lai_stackitem \<Rightarrow> bool" where
  "is_method (SMethod _) = True"
| "is_method _ = False"

text \<open>A return leaves the loops and conditions of its method; it takes a copy of the value.\<close>

definition finish_return :: "lai_ctxitem \<Rightarrow> nat \<Rightarrow> lai_state \<Rightarrow> ('d, 'a) lai_exec_state_scheme \<Rightarrow> ('d, 'a) execution" where
  "finish_return cx frame st s = do {
     operand \<leftarrow> lai_exec_get_opstack st frame;
     (result, s) \<leftarrow> lai_exec_get_objectref operand VNone s;
     (st, s) \<leftarrow> lai_exec_pop_opstack_back st s;
     (m, method_item) \<leftarrow> find_item is_method (tl (rev (st_items (stack st))));
     (st, s) \<leftarrow> (if method_item = SMethod True
       then do {
         (v, s) \<leftarrow> lai_obj_clone VNone result s;
         st \<leftarrow> lai_exec_push_opstack (OpObject v) st;
         Some (st, s) }
       else Some (st, s));
     s \<leftarrow> (if cx_invocation cx = 0 then None else method_cleanup (cx_invocation cx) s);
     st \<leftarrow> lai_exec_pop_stack_back st;
     st \<leftarrow> pop_nested m st;
     (st, s) \<leftarrow> lai_exec_pop_ctxstack_back st s;
     st \<leftarrow> pop_block_item st;
     s \<leftarrow> finalize_list [result] s;
     exec_done st s }"

definition process_return :: "('d, 'a) env \<Rightarrow> lai_ctxitem \<Rightarrow> nat \<Rightarrow> lai_state \<Rightarrow> ('d, 'a) lai_exec_state_scheme \<Rightarrow> ('d, 'a) execution" where
  "process_return env cx frame st s =
     (let k = operand_count st frame
      in if 1 < k then None
         else if k = 1 then finish_return cx frame st s
         else lai_exec_parse env LAI_OBJECT_MODE st s)"

text \<open>The integer operand of a loop or condition; it is popped.\<close>

definition take_predicate :: "nat \<Rightarrow> lai_state \<Rightarrow> ('d, 'a) lai_exec_state_scheme \<Rightarrow> (u64 \<times> lai_state \<times> ('d, 'a) lai_exec_state_scheme) option" where
  "take_predicate frame st s = do {
     operand \<leftarrow> lai_exec_get_opstack st frame;
     (p, s) \<leftarrow> get_integer operand s;
     (st, s) \<leftarrow> lai_exec_pop_opstack_back st s;
     Some (p, st, s) }"

definition set_top_item :: "lai_stackitem \<Rightarrow> lai_state \<Rightarrow> lai_state" where
  "set_top_item x st = set_item (length (st_items (stack st)) - 1) x st"

definition set_top_block :: "(lai_blkitem \<Rightarrow> lai_blkitem) \<Rightarrow> lai_state \<Rightarrow> lai_state" where
  "set_top_block f st = st\<lparr>blkstack := update_top f (blkstack st)\<rparr>"

definition process_loop :: "('d, 'a) env \<Rightarrow> lai_blkitem \<Rightarrow> nat \<Rightarrow> bool \<Rightarrow> int \<Rightarrow> lai_state \<Rightarrow> ('d, 'a) lai_exec_state_scheme \<Rightarrow> ('d, 'a) execution" where
  "process_loop env block frame iterating pred st s =
     (if \<not> iterating
      then let k = operand_count st frame
        in if 1 < k then None
           else if k = 1
           then do {
             (p, st, s) \<leftarrow> take_predicate frame st s;
             st \<leftarrow> (if p \<noteq> 0 then Some (set_top_item (SLoop frame True pred) st) else pop_block_item st);
             exec_done st s }
           else lai_exec_parse env LAI_OBJECT_MODE st s
      else if bk_pc block = bk_limit block
      then exec_done (set_top_block (\<lambda>b. b\<lparr>bk_pc := pred\<rparr>) (set_top_item (SLoop frame False pred) st)) s
      else lai_exec_parse env LAI_EXEC_MODE st s)"

text \<open>The branch that follows a false predicate.\<close>

definition else_branch :: "nat \<Rightarrow> bool \<Rightarrow> int \<Rightarrow> int \<Rightarrow> lai_state \<Rightarrow> lai_state option" where
  "else_branch frame has_else else_pc else_limit st =
     (if has_else
      then Some (set_top_block (\<lambda>b. b\<lparr>bk_pc := else_pc, bk_limit := else_limit\<rparr>) (set_top_item (SCond frame True has_else else_pc else_limit) st))
      else pop_block_item st)"

definition process_cond :: "('d, 'a) env \<Rightarrow> lai_blkitem \<Rightarrow> nat \<Rightarrow> bool \<Rightarrow> bool \<Rightarrow> int \<Rightarrow> int \<Rightarrow> lai_state \<Rightarrow> ('d, 'a) lai_exec_state_scheme \<Rightarrow> ('d, 'a) execution" where
  "process_cond env block frame in_branch has_else else_pc else_limit st s =
     (if \<not> in_branch
      then let k = operand_count st frame
        in if 1 < k then None
           else if k = 1
           then do {
             (p, st, s) \<leftarrow> take_predicate frame st s;
             st \<leftarrow> (if p \<noteq> 0 then Some (set_top_item (SCond frame True has_else else_pc else_limit) st)
                   else else_branch frame has_else else_pc else_limit st);
             exec_done st s }
           else lai_exec_parse env LAI_OBJECT_MODE st s
      else if bk_pc block = bk_limit block then do { st \<leftarrow> pop_block_item st; exec_done st s }
      else lai_exec_parse env LAI_EXEC_MODE st s)"

subsection \<open>Bank fields\<close>

fun operand_handle :: "lai_operand \<Rightarrow> addr option" where
  "operand_handle (OpResolved h) = Some h"
| "operand_handle _ = None"

definition finish_bankfield :: "lai_ctxitem \<Rightarrow> lai_blkitem \<Rightarrow> nat \<Rightarrow> lai_state \<Rightarrow> ('d, 'a) lai_exec_state_scheme \<Rightarrow> ('d, 'a) execution" where
  "finish_bankfield cx block frame st s = do {
     region_node \<leftarrow> Option.bind (lai_exec_get_opstack st frame) operand_handle;
     bank_node \<leftarrow> Option.bind (lai_exec_get_opstack st (frame + 1)) operand_handle;
     operand \<leftarrow> lai_exec_get_opstack st (frame + 2);
     (bank_value, s) \<leftarrow> get_integer operand s;
     (st, s) \<leftarrow> lai_exec_pop_opstack st 3 s;
     (err, _, s) \<leftarrow> parse_field_list (\<lambda>d. d\<lparr>nd_type := LAI_NAMESPACE_BANKFIELD, fld_region_node := region_node,
         fld_bkf_bank_node := bank_node, fld_bkf_value := bank_value\<rparr>) False cx (bk_limit block) (bk_limit block) (bk_pc block) s;
     if err \<noteq> LAI_ERROR_NONE then Some (err, st, s)
     else do { st \<leftarrow> pop_block_item st; exec_done st s } }"

definition process_bankfield :: "('d, 'a) env \<Rightarrow> lai_ctxitem \<Rightarrow> lai_blkitem \<Rightarrow> nat \<Rightarrow> lai_state \<Rightarrow> ('d, 'a) lai_exec_state_scheme \<Rightarrow> ('d, 'a) execution" where
  "process_bankfield env cx block frame st s =
     (let k = operand_count st frame
      in if 3 < k then None
         else if k = 3 then finish_bankfield cx block frame st s
         else lai_exec_parse env LAI_OBJECT_MODE st s)"

subsection \<open>The main loop\<close>

definition process_item :: "('d, 'a) env \<Rightarrow> lai_stackitem \<Rightarrow> lai_ctxitem \<Rightarrow> lai_blkitem \<Rightarrow> lai_state \<Rightarrow> ('d, 'a) lai_exec_state_scheme \<Rightarrow> ('d, 'a) execution" where
  "process_item env item cx block st s = (case item of
     SPopulate \<Rightarrow> process_populate env block st s
   | SMethod want \<Rightarrow> process_method env cx block want st s
   | SBuffer frame want \<Rightarrow> process_buffer env cx block frame want st s
   | SPackage frame i phase want \<Rightarrow>
       process_package env (\<lambda>i phase. SPackage frame i phase want) LAI_IMMEDIATE_BYTE_MODE block frame i phase want st s
   | SVarPackage frame i phase want \<Rightarrow>
       process_package env (\<lambda>i phase. SVarPackage frame i phase want) LAI_OBJECT_MODE block frame i phase want st s
   | SNode frame opcode modes \<Rightarrow> process_node env cx frame opcode modes st s
   | SOp frame opcode modes want \<Rightarrow> process_op env frame opcode modes want st s
   | SInvoke frame argc want \<Rightarrow> process_invoke env frame argc want st s
   | SReturn frame \<Rightarrow> process_return env cx frame st s
   | SLoop frame iterating pred \<Rightarrow> process_loop env block frame iterating pred st s
   | SCond frame in_branch has_else else_pc else_limit \<Rightarrow> process_cond env block frame in_branch has_else else_pc else_limit st s
   | SBankField frame \<Rightarrow> process_bankfield env cx block frame st s)"

definition lai_exec_process :: "('d, 'a) env \<Rightarrow> lai_state \<Rightarrow> ('d, 'a) lai_exec_state_scheme \<Rightarrow> ('d, 'a) execution" where
  "lai_exec_process env st s = do {
     item \<leftarrow> lai_exec_peek_stack_back st;
     cx \<leftarrow> lai_exec_peek_ctxstack_back st;
     block \<leftarrow> lai_exec_peek_blkstack_back st;
     if bk_limit block < bk_pc block then None else process_item env item cx block st s }"

partial_function (option) lai_exec_run :: "('d, 'a) env \<Rightarrow> lai_state \<Rightarrow> ('d, 'a) lai_exec_state_scheme \<Rightarrow> ('d, 'a) execution" where
  "lai_exec_run env st s =
     (if st_items (stack st) = [] then exec_done st s
      else case lai_exec_process env st s of None \<Rightarrow> None
        | Some (e, st, s) \<Rightarrow> if e \<noteq> LAI_ERROR_NONE then Some (e, st, s) else lai_exec_run env st s)"

subsection \<open>Entry points\<close>

definition sizeof_acpi_header :: u64 where "sizeof_acpi_header = 36"

text \<open>The length of a table is at offset 4 of its header; the first member of a segment points to the table.\<close>

definition lai_populate :: "('d, 'a) env \<Rightarrow> addr \<Rightarrow> addr \<Rightarrow> lai_state \<Rightarrow> ('d, 'a) lai_exec_state_scheme \<Rightarrow> ('d, 'a) execution" where
  "lai_populate env parent amls = reserving scope_stacks (\<lambda>st s. do {
     let table = load64 (mem s) amls;
     let n = ucast (load32 (mem s) (table + 4)) - sizeof_acpi_header;
     (_, st, s) \<leftarrow> push_scope amls (table + sizeof_acpi_header) parent 0 (int_of_size n) st s;
     (status, st, s) \<leftarrow> lai_exec_run env st s;
     if status \<noteq> LAI_ERROR_NONE then Some (status, st, s)
     else if st_items (ctxstack st) = [] \<and> st_items (stack st) = [] \<and> opstack_ptr st = 0 then exec_done st s
     else None })"

text \<open>Each argument gets a new reference.\<close>

definition assign_args :: "lai_variable list \<Rightarrow> ('d, 'a) lai_exec_state_scheme \<Rightarrow> ('d, 'a) lai_exec_state_scheme option" where
  "assign_args args s = do { hs \<leftarrow> foldl (\<lambda>h v. Option.bind h (add_ref v)) (Some (head_at s)) args; Some (s\<lparr>head_at := hs\<rparr>) }"

text \<open>A null result pointer is \<open>None\<close>; the value that is not moved there is finalised.\<close>

definition give_result :: "lai_api_error \<Rightarrow> lai_variable option \<Rightarrow> lai_variable \<Rightarrow> lai_state \<Rightarrow> ('d, 'a) lai_exec_state_scheme \<Rightarrow>
    (lai_api_error \<times> lai_variable option \<times> lai_state \<times> ('d, 'a) lai_exec_state_scheme) option" where
  "give_result e result method_result st s = (case result of
     Some v \<Rightarrow> if e = LAI_ERROR_NONE
       then do { (v, _, s) \<leftarrow> lai_var_move v method_result s; Some (e, Some v, st, s) }
       else do { s \<leftarrow> finalize_list [method_result] s; Some (e, result, st, s) }
   | None \<Rightarrow> do { s \<leftarrow> finalize_list [method_result] s; Some (e, result, st, s) })"

text \<open>The single operand that a method leaves is copied; after an error the state is set up anew.\<close>

definition method_value :: "lai_api_error \<Rightarrow> lai_state \<Rightarrow> ('d, 'a) lai_exec_state_scheme \<Rightarrow> (lai_variable \<times> lai_state \<times> ('d, 'a) lai_exec_state_scheme) option" where
  "method_value e st s =
     (if e = LAI_ERROR_NONE
      then if st_items (ctxstack st) = [] \<and> st_items (stack st) = [] \<and> opstack_ptr st = 1
        then do {
          opstack_top \<leftarrow> lai_exec_get_opstack st 0;
          (objectref, s) \<leftarrow> lai_exec_get_objectref opstack_top VNone s;
          (v, s) \<leftarrow> lai_obj_clone VNone objectref s;
          s \<leftarrow> finalize_list [objectref] s;
          (st, s) \<leftarrow> lai_exec_pop_opstack st 1 s;
          Some (v, st, s) }
        else None
      else do { s \<leftarrow> lai_finalize_state st s; Some (VNone, lai_init_state, s) })"

definition run_method :: "('d, 'a) env \<Rightarrow> addr \<Rightarrow> lai_variable list \<Rightarrow> lai_state \<Rightarrow> ('d, 'a) lai_exec_state_scheme \<Rightarrow>
    (lai_api_error \<times> lai_variable \<times> lai_state \<times> ('d, 'a) lai_exec_state_scheme) option" where
  "run_method env handle args st s =
     (let nd = node_at s handle
      in if method_override nd \<noteq> 0
         then do { (e, v, s) \<leftarrow> xe_override env (method_override nd) args s; Some (e, v, st, s) }
         else if nd_amls nd = 0 \<or> 7 < length args then None
         else do {
           (p, s) \<leftarrow> new_invocation args s;
           s \<leftarrow> assign_args args s;
           st \<leftarrow> push_method nd handle p True st;
           (e, st, s) \<leftarrow> lai_exec_run env st s;
           (v, st, s) \<leftarrow> method_value e st s;
           Some (e, v, st, s) })"

definition lai_eval_args :: "('d, 'a) env \<Rightarrow> lai_variable option \<Rightarrow> addr \<Rightarrow> lai_variable list \<Rightarrow> lai_state \<Rightarrow> ('d, 'a) lai_exec_state_scheme \<Rightarrow>
    (lai_api_error \<times> lai_variable option \<times> lai_state \<times> ('d, 'a) lai_exec_state_scheme) option" where
  "lai_eval_args env result handle args st s =
     (let ty = nd_type (node_at s handle)
      in if handle = 0 \<or> ty = LAI_NAMESPACE_ALIAS then None
         else if ty = LAI_NAMESPACE_NAME
         then if args \<noteq> [] then Some (LAI_ERROR_TYPE_MISMATCH, result, st, s)
           else (case result of None \<Rightarrow> Some (LAI_ERROR_NONE, result, st, s)
             | Some v \<Rightarrow> do { (v, s) \<leftarrow> lai_obj_clone v (nd_object (node_at s handle)) s; Some (LAI_ERROR_NONE, Some v, st, s) })
         else if ty = LAI_NAMESPACE_METHOD
         then do {
           (e, st, s) \<leftarrow> reserving scope_stacks exec_done st s;
           if e \<noteq> LAI_ERROR_NONE then Some (e, result, st, s)
           else do {
             (e, v, st, s) \<leftarrow> run_method env handle args st s;
             give_result e result v st s } }
         else Some (LAI_ERROR_TYPE_MISMATCH, result, st, s))"

text \<open>The variable arguments up to the null pointer; the count is checked before each pointer is read.\<close>

definition lai_eval_vargs :: "('d, 'a) env \<Rightarrow> lai_variable option \<Rightarrow> addr \<Rightarrow> lai_variable list \<Rightarrow> lai_state \<Rightarrow> ('d, 'a) lai_exec_state_scheme \<Rightarrow>
    (lai_api_error \<times> lai_variable option \<times> lai_state \<times> ('d, 'a) lai_exec_state_scheme) option" where
  "lai_eval_vargs env result handle vl st s =
     (if 7 \<le> length vl then None else do { s \<leftarrow> assign_args vl s; lai_eval_args env result handle vl st s })"

definition lai_eval_largs :: "('d, 'a) env \<Rightarrow> lai_variable option \<Rightarrow> addr \<Rightarrow> lai_variable list \<Rightarrow> lai_state \<Rightarrow> ('d, 'a) lai_exec_state_scheme \<Rightarrow>
    (lai_api_error \<times> lai_variable option \<times> lai_state \<times> ('d, 'a) lai_exec_state_scheme) option" where
  "lai_eval_largs env result handle vl st s = lai_eval_vargs env result handle vl st s"

definition lai_eval :: "('d, 'a) env \<Rightarrow> lai_variable option \<Rightarrow> addr \<Rightarrow> lai_state \<Rightarrow> ('d, 'a) lai_exec_state_scheme \<Rightarrow>
    (lai_api_error \<times> lai_variable option \<times> lai_state \<times> ('d, 'a) lai_exec_state_scheme) option" where
  "lai_eval env result handle st s = lai_eval_args env result handle [] st s"

end
