(* ===== verification/LaiMachine.thy ===== *)
theory LaiMachine
  imports LaiExec
begin

text \<open>
  Facts about runs of the interpreter: variables without a reference count, stacks that have room, the step relation
  of \<open>lai_exec_run\<close> and states that differ from a given one only in the position in the code, the execution items
  and the operands.
\<close>

subsection \<open>Variables without a count\<close>

lemma release_uncounted: "list_all (\<lambda>v. counted v = None) vs \<Longrightarrow> release vs hs = Some (hs, [])"
  by (induction vs) (auto simp: release.simps)

lemma finalize_uncounted: "list_all (\<lambda>v. counted v = None) vs \<Longrightarrow> finalize_list vs s = Some s"
  by (simp add: finalize_list_def release_uncounted)

lemma counted_plain [simp]: "counted VNone = None" "counted (VInteger i) = None"
  by simp_all

lemma move_plain [simp]: "counted d = None \<Longrightarrow> lai_var_move d v s = Some (v, VNone, s)"
  by (simp add: lai_var_move_def lai_swap_object_def lai_var_finalize_def finalize_uncounted)

lemma assign_plain [simp]: "counted d = None \<Longrightarrow> counted v = None \<Longrightarrow> lai_var_assign d v s = Some (v, s)"
  by (simp add: lai_var_assign_def add_ref_def)

lemma get_objectref_integer [simp]: "lai_exec_get_objectref (OpObject (VInteger i)) VNone s = Some (VInteger i, s)"
  by (simp add: lai_exec_get_objectref_def)

lemma get_integer_integer [simp]: "get_integer (OpObject (VInteger i)) s = Some (i, s)"
  by (simp add: get_integer_def lai_exec_get_integer_def)

subsection \<open>States that differ in position, items and operands\<close>

definition machine :: "lai_state \<Rightarrow> int \<Rightarrow> lai_stackitem list \<Rightarrow> lai_operand list \<Rightarrow> lai_state" where
  "machine st pc items ops =
     st\<lparr>blkstack := update_top (\<lambda>b. b\<lparr>bk_pc := pc\<rparr>) (blkstack st), stack := (stack st)\<lparr>st_items := items\<rparr>,
       opstack := (opstack st)\<lparr>st_items := ops\<rparr>\<rparr>"

text \<open>The context and the block in which code is run.\<close>

definition in_code :: "lai_state \<Rightarrow> lai_ctxitem \<Rightarrow> int \<Rightarrow> bool" where
  "in_code st cx limit \<longleftrightarrow> lai_exec_peek_ctxstack_back st = Some cx \<and>
     st_items (blkstack st) \<noteq> [] \<and> bk_limit (last (st_items (blkstack st))) = limit"

lemma machine_fields [simp]:
  "st_items (stack (machine st pc items ops)) = items"
  "st_items (opstack (machine st pc items ops)) = ops"
  "st_capacity (stack (machine st pc items ops)) = st_capacity (stack st)"
  "st_capacity (opstack (machine st pc items ops)) = st_capacity (opstack st)"
  "st_base (stack (machine st pc items ops)) = st_base (stack st)"
  "ctxstack (machine st pc items ops) = ctxstack st"
  "opstack_ptr (machine st pc items ops) = length ops"
  "lai_exec_peek_ctxstack_back (machine st pc items ops) = lai_exec_peek_ctxstack_back st"
  by (simp_all add: machine_def opstack_ptr_def lai_exec_peek_ctxstack_back_def)

lemma update_top_twice [simp]:
  "st_items k \<noteq> [] \<Longrightarrow> update_top f (update_top g k) = update_top (\<lambda>x. f (g x)) k"
  by (simp add: update_top_def)

lemma update_top_nonempty [simp]: "st_items (update_top f k) = [] \<longleftrightarrow> st_items k = []"
  by (simp add: update_top_def)

lemma machine_twice [simp]:
  "in_code st cx limit \<Longrightarrow> machine (machine st pc items ops) pc' items' ops' = machine st pc' items' ops'"
  by (simp add: machine_def in_code_def)

lemma peek_back: "peek_item 0 k = (if st_items k = [] then None else Some (last (st_items k)))"
  by (auto simp: peek_item_def last_conv_nth)

lemma machine_block [simp]:
  "in_code st cx limit \<Longrightarrow> lai_exec_peek_blkstack_back (machine st pc items ops) = Some \<lparr>bk_pc = pc, bk_limit = limit\<rparr>"
  by (auto simp: machine_def in_code_def lai_exec_peek_blkstack_back_def peek_item_def update_top_def last_conv_nth)

lemma machine_peek [simp]:
  "lai_exec_peek_stack_back (machine st pc (items @ [x]) ops) = Some x"
  by (simp add: lai_exec_peek_stack_back_def lai_exec_peek_stack_def peek_back)

lemma machine_commit [simp]:
  "in_code st cx limit \<Longrightarrow> lai_exec_commit_pc (machine st pc items ops) pc' = Some (machine st pc' items ops)"
  by (simp add: lai_exec_commit_pc_def machine_def in_code_def)

lemma reserve_room: "length (st_items k) < st_capacity k \<Longrightarrow> reserve_items sz k s = Some (False, k, s)"
  by (simp add: reserve_items_def)

lemma machine_reserve [simp]:
  "length items < st_capacity (stack st) \<Longrightarrow>
     lai_exec_reserve_stack (machine st pc items ops) s = Some (False, machine st pc items ops, s)"
  "length ops < st_capacity (opstack st) \<Longrightarrow>
     lai_exec_reserve_opstack (machine st pc items ops) s = Some (False, machine st pc items ops, s)"
  by (simp_all add: lai_exec_reserve_stack_def lai_exec_reserve_opstack_def reserve_room)

lemma machine_push [simp]:
  "length items < st_capacity (stack st) \<Longrightarrow>
     lai_exec_push_stack x (machine st pc items ops) = Some (machine st pc (items @ [x]) ops)"
  "length ops < st_capacity (opstack st) \<Longrightarrow>
     lai_exec_push_opstack y (machine st pc items ops) = Some (machine st pc items (ops @ [y]))"
  by (simp_all add: lai_exec_push_stack_def lai_exec_push_opstack_def push_item_def) (simp_all add: machine_def)

lemma machine_pop_stack [simp]:
  "lai_exec_pop_stack_back (machine st pc (items @ [x]) ops) = Some (machine st pc items ops)"
  by (simp add: lai_exec_pop_stack_back_def pop_item_def) (simp add: machine_def)

lemma operand_objects_uncounted:
  "list_all (\<lambda>x. case x of OpObject v \<Rightarrow> counted v = None | _ \<Rightarrow> True) ops \<Longrightarrow>
     list_all (\<lambda>v. counted v = None) (operand_objects ops)"
  by (induction ops rule: operand_objects.induct) auto

lemma machine_pop_opstack:
  assumes "list_all (\<lambda>x. case x of OpObject v \<Rightarrow> counted v = None | _ \<Rightarrow> True) new"
  shows "lai_exec_pop_opstack (machine st pc items (ops @ new)) (length new) s = Some (machine st pc items ops, s)"
proof -
  have "finalize_list (operand_objects (rev new)) s = Some s"
    using assms by (intro finalize_uncounted operand_objects_uncounted) (simp add: list_all_iff)
  then show ?thesis by (simp add: lai_exec_pop_opstack_def) (simp add: machine_def)
qed

subsection \<open>Steps\<close>

text \<open>One round of \<open>lai_exec_run\<close> that does not fail.\<close>

inductive exec_step :: "('d, 'a) env \<Rightarrow> lai_state \<times> ('d, 'a) lai_exec_state_scheme \<Rightarrow> lai_state \<times> ('d, 'a) lai_exec_state_scheme \<Rightarrow> bool"
  for env where
  step: "st_items (stack st) \<noteq> [] \<Longrightarrow> lai_exec_process env st s = Some (LAI_ERROR_NONE, st', s') \<Longrightarrow> exec_step env (st, s) (st', s')"

lemma run_step: "exec_step env (st, s) (st', s') \<Longrightarrow> lai_exec_run env st s = lai_exec_run env st' s'"
  by (cases rule: exec_step.cases) (auto simp: lai_exec_run.simps [of env st s])

lemma run_steps: "(exec_step env)\<^sup>*\<^sup>* (st, s) (st', s') \<Longrightarrow> lai_exec_run env st s = lai_exec_run env st' s'"
  by (induction rule: rtranclp_induct2) (auto dest: run_step)

text \<open>An operand that is parsed and whose items are then run to their end.\<close>

definition yields :: "('d, 'a) env \<Rightarrow> nat \<Rightarrow> lai_state \<times> ('d, 'a) lai_exec_state_scheme \<Rightarrow> lai_state \<times> ('d, 'a) lai_exec_state_scheme \<Rightarrow> bool" where
  "yields env mode c c' \<longleftrightarrow>
     (\<exists>st s. lai_exec_parse env mode (fst c) (snd c) = Some (LAI_ERROR_NONE, st, s) \<and> (exec_step env)\<^sup>*\<^sup>* (st, s) c')"

lemma yieldsI:
  "lai_exec_parse env mode st s = Some (LAI_ERROR_NONE, st1, s1) \<Longrightarrow> (exec_step env)\<^sup>*\<^sup>* (st1, s1) c' \<Longrightarrow> yields env mode (st, s) c'"
  by (auto simp: yields_def)

text \<open>An operator asks for its next operand.\<close>

lemma op_operand:
  assumes "in_code st cx limit" "pc < limit" "mode \<noteq> 0" "k < length modes" "modes ! k = mode" "length new = k"
    and y: "yields env mode (machine st pc (items @ [SOp (length ops) opcode modes want]) (ops @ new), s) c'"
  shows "(exec_step env)\<^sup>*\<^sup>* (machine st pc (items @ [SOp (length ops) opcode modes want]) (ops @ new), s) c'"
proof -
  let ?m = "machine st pc (items @ [SOp (length ops) opcode modes want]) (ops @ new)"
  have cx: "lai_exec_peek_ctxstack_back st = Some cx" using assms(1) by (simp add: in_code_def)
  obtain st1 s1 where p: "lai_exec_parse env mode ?m s = Some (LAI_ERROR_NONE, st1, s1)" and r: "(exec_step env)\<^sup>*\<^sup>* (st1, s1) c'"
    using y by (auto simp: yields_def)
  have "exec_step env (?m, s) (st1, s1)"
    using assms(1-6) cx p
    by (intro exec_step.intros) (auto simp: lai_exec_process_def process_item_def process_op_def next_mode_def)
  then show ?thesis using r by (rule converse_rtranclp_into_rtranclp)
qed

text \<open>An operator whose operands are all there is replaced by its result.\<close>

lemma op_finish:
  assumes "in_code st cx limit" "pc \<le> limit" "modes ! length new = 0" "length new < length modes"
    and room: "length ops + length new < st_capacity (opstack st)"
    and plain: "list_all (\<lambda>x. case x of OpObject v \<Rightarrow> counted v = None | _ \<Rightarrow> True) new"
    and reduce: "lai_exec_reduce_op env opcode (machine st pc (items @ [SOp (length ops) opcode modes True]) (ops @ new)) new s
        = Some (LAI_ERROR_NONE, VInteger i, s)"
  shows "exec_step env (machine st pc (items @ [SOp (length ops) opcode modes True]) (ops @ new), s)
           (machine st pc items (ops @ [OpObject (VInteger i)]), s)"
proof -
  have cx: "lai_exec_peek_ctxstack_back st = Some cx" using assms(1) by (simp add: in_code_def)
  show ?thesis
    using assms cx
    by (intro exec_step.intros)
      (auto simp: lai_exec_process_def process_item_def process_op_def next_mode_def finish_op_def frame_operands_def exec_done_def
        machine_pop_opstack [OF plain])
qed

end
