(* ===== verification/LaiExpr.thy ===== *)
theory LaiExpr
  imports LaiMachine
begin

text \<open>
  Integer expressions: their byte code, their value, and that the interpreter computes it.  The expressions are built
  from all forms of integer constants and the arithmetic, logical and comparison operators, without targets.
\<close>

datatype aml_expr = EConstant u32 | EByte u8 | EWord u16 | EDword u32 | EQword u64
  | EUnary u32 aml_expr | EBinary u32 aml_expr aml_expr

text \<open>The value of the constants without operand, and of the operators.\<close>

definition constant_value :: "u32 \<Rightarrow> u64 option" where
  "constant_value opcode = (if opcode = ZERO_OP then Some 0 else if opcode = ONE_OP then Some 1
     else if opcode = ONES_OP then Some (NOT 0) else if opcode = extop REVISION_OP then Some LAI_REVISION else None)"

definition unary_value :: "u32 \<Rightarrow> u64 \<Rightarrow> u64 option" where
  "unary_value opcode v = (if opcode = NOT_OP then Some (NOT v) else if opcode = LNOT_OP then Some (if v = 0 then 1 else 0) else None)"

definition binary_value :: "u32 \<Rightarrow> u64 \<Rightarrow> u64 \<Rightarrow> u64 option" where
  "binary_value opcode v w =
     (if opcode = ADD_OP then Some (v + w) else if opcode = SUBTRACT_OP then Some (v - w) else if opcode = MULTIPLY_OP then Some (v * w)
      else if opcode = MOD_OP \<and> w \<noteq> 0 then Some (v mod w)
      else if opcode = AND_OP then Some (v AND w) else if opcode = OR_OP then Some (v OR w) else if opcode = XOR_OP then Some (v XOR w)
      else if opcode = NAND_OP then Some (NOT (v AND w)) else if opcode = NOR_OP then Some (NOT (v OR w))
      else if opcode = SHL_OP \<and> w < 64 then Some (push_bit (unat w) v) else if opcode = SHR_OP \<and> w < 64 then Some (drop_bit (unat w) v)
      else if opcode = LAND_OP then Some (if v \<noteq> 0 \<and> w \<noteq> 0 then 1 else 0) else if opcode = LOR_OP then Some (if v \<noteq> 0 \<or> w \<noteq> 0 then 1 else 0)
      else if opcode = LEQUAL_OP then Some (if v = w then NOT 0 else 0)
      else if opcode = LLESS_OP then Some (if v < w then NOT 0 else 0)
      else if opcode = LGREATER_OP then Some (if w < v then NOT 0 else 0)
      else None)"

primrec expr_value :: "aml_expr \<Rightarrow> u64 option" where
  "expr_value (EConstant opcode) = constant_value opcode"
| "expr_value (EByte b) = Some (ucast b)"
| "expr_value (EWord b) = Some (ucast b)"
| "expr_value (EDword b) = Some (ucast b)"
| "expr_value (EQword b) = Some b"
| "expr_value (EUnary opcode e) = do { v \<leftarrow> expr_value e; unary_value opcode v }"
| "expr_value (EBinary opcode e f) = do { v \<leftarrow> expr_value e; w \<leftarrow> expr_value f; binary_value opcode v w }"

text \<open>The operators with a target get the null target.\<close>

definition null_target :: "u32 \<Rightarrow> u8 list" where
  "null_target opcode = (if opcode \<in> {LNOT_OP, LAND_OP, LOR_OP, LEQUAL_OP, LLESS_OP, LGREATER_OP} then [] else [0])"

primrec expr_code :: "aml_expr \<Rightarrow> u8 list" where
  "expr_code (EConstant opcode) = (if opcode = extop REVISION_OP then [0x5B, 0x30] else [ucast opcode])"
| "expr_code (EByte b) = [0x0A, b]"
| "expr_code (EWord b) = [0x0B, ucast b, ucast (drop_bit 8 b)]"
| "expr_code (EDword b) = 0x0C # map (\<lambda>i. ucast (drop_bit (8 * i) b)) [0..<4]"
| "expr_code (EQword b) = 0x0E # map (\<lambda>i. ucast (drop_bit (8 * i) b)) [0..<8]"
| "expr_code (EUnary opcode e) = ucast opcode # expr_code e @ null_target opcode"
| "expr_code (EBinary opcode e f) = ucast opcode # expr_code e @ expr_code f @ null_target opcode"

text \<open>The room that is needed on the execution stack and on the operand stack.\<close>

primrec items_needed :: "aml_expr \<Rightarrow> nat" where
  "items_needed (EConstant opcode) = 0"
| "items_needed (EByte b) = 0"
| "items_needed (EWord b) = 0"
| "items_needed (EDword b) = 0"
| "items_needed (EQword b) = 0"
| "items_needed (EUnary opcode e) = 1 + items_needed e"
| "items_needed (EBinary opcode e f) = 1 + max (items_needed e) (items_needed f)"

primrec operands_needed :: "aml_expr \<Rightarrow> nat" where
  "operands_needed (EConstant opcode) = 1"
| "operands_needed (EByte b) = 1"
| "operands_needed (EWord b) = 1"
| "operands_needed (EDword b) = 1"
| "operands_needed (EQword b) = 1"
| "operands_needed (EUnary opcode e) = max (operands_needed e) 3"
| "operands_needed (EBinary opcode e f) = max (max (operands_needed e) (1 + operands_needed f)) 4"

text \<open>Bytes that stand at a position of the code.\<close>

definition code_at :: "mem \<Rightarrow> addr \<Rightarrow> int \<Rightarrow> u8 list \<Rightarrow> bool" where
  "code_at m code pc bs \<longleftrightarrow> code_bytes m code pc (length bs) = bs"

lemma code_bytes_append: "code_bytes m code pc (a + b) = code_bytes m code pc a @ code_bytes m code (pc + int a) b"
  by (auto simp: code_bytes_def upt_add_eq_append [of 0 a b, simplified] map_add_upt [symmetric] algebra_simps comp_def
      simp flip: map_map intro!: nth_equalityI)

lemma code_at_append: "code_at m code pc (as @ bs) \<longleftrightarrow> code_at m code pc as \<and> code_at m code (pc + int (length as)) bs"
  unfolding code_at_def length_append code_bytes_append by (rule append_eq_append_conv) (simp add: code_bytes_def)

lemma code_at_Cons: "code_at m code pc (b # bs) \<longleftrightarrow> code_byte m code pc = b \<and> code_at m code (pc + 1) bs"
  using code_at_append [of m code pc "[b]" bs] by (simp add: code_at_def code_bytes_def)

lemma code_at_Nil [simp]: "code_at m code pc []"
  by (simp add: code_at_def code_bytes_def)

subsection \<open>Constants\<close>

lemma not_name:
  "\<not> lai_is_name 0" "\<not> lai_is_name 1" "\<not> lai_is_name 0x0A" "\<not> lai_is_name 0x0B" "\<not> lai_is_name 0x0C" "\<not> lai_is_name 0x0E"
  "\<not> lai_is_name 0x5B" "\<not> lai_is_name 0xFF"
  by code_simp+

text \<open>An opcode at the current position is read and dispatched.\<close>

lemma parse_byte:
  assumes "in_code st cx limit" "pc < limit" "\<not> is_immediate_mode mode"
    and "code_byte (mem s) (cx_code cx) pc = b" "\<not> lai_is_name b" "b \<noteq> 0x5B"
  shows "lai_exec_parse env mode (machine st pc items ops) s
           = parse_opcode env (ucast b) mode cx pc (pc + 1) limit (machine st pc items ops) s"
proof -
  have "lai_exec_peek_ctxstack_back st = Some cx" using assms(1) by (simp add: in_code_def)
  moreover have "take_bit 32 (uint b) = uint b"
    using uint_lt2p [of b] by (simp add: take_bit_int_eq_self)
  then have "(ucast b :: u32) \<noteq> EXTOP_PREFIX"
    using assms(6) by (auto simp: EXTOP_PREFIX_def word_uint_eq_iff unsigned_ucast_eq)
  ultimately show ?thesis using assms by (simp add: lai_exec_parse_def read_opcode_def)
qed

lemma parse_extended:
  assumes "in_code st cx limit" "pc + 1 < limit" "\<not> is_immediate_mode mode"
    and "code_byte (mem s) (cx_code cx) pc = 0x5B" "code_byte (mem s) (cx_code cx) (pc + 1) = b"
  shows "lai_exec_parse env mode (machine st pc items ops) s
           = parse_opcode env (extop (ucast b)) mode cx pc (pc + 2) limit (machine st pc items ops) s"
proof -
  have "lai_exec_peek_ctxstack_back st = Some cx" using assms(1) by (simp add: in_code_def)
  then show ?thesis using assms not_name(7) by (simp add: lai_exec_parse_def read_opcode_def EXTOP_PREFIX_def)
qed

text \<open>An operand that is complete with its opcode.\<close>

lemma yields_constant:
  "lai_exec_parse env mode c1 s = Some (LAI_ERROR_NONE, c2, s) \<Longrightarrow> yields env mode (c1, s) (c2, s)"
  by (auto intro: yieldsI)

lemma constant_parse:
  assumes "in_code st cx limit" "length ops < st_capacity (opstack st)" "constant_value opcode = Some v"
  shows "parse_opcode env opcode LAI_OBJECT_MODE cx pc pc' limit (machine st pc items ops) s
           = Some (LAI_ERROR_NONE, machine st pc' items (ops @ [OpObject (VInteger v)]), s)"
  using assms
  by (auto simp: parse_opcode_def parse_constant_def constant_value_def is_value_mode_def exec_done_def aml_opcodes split: if_splits)

lemma null_target_parse:
  assumes "in_code st cx limit" "length ops < st_capacity (opstack st)"
  shows "parse_opcode env 0 LAI_REFERENCE_MODE cx pc pc' limit (machine st pc items ops) s
           = Some (LAI_ERROR_NONE, machine st pc' items (ops @ [OpNull]), s)"
  using assms
  by (simp add: parse_opcode_def parse_constant_def is_value_mode_def is_target_mode_def exec_done_def parse_modes aml_opcodes)

lemma prefixed_parse:
  assumes "in_code st cx limit" "length ops < st_capacity (opstack st)"
    and "opcode \<in> {BYTEPREFIX, WORDPREFIX, DWORDPREFIX, QWORDPREFIX}" "read_prefixed (mem s) opcode (cx_code cx) pc' limit = Some (v, pc'')"
  shows "parse_opcode env opcode LAI_OBJECT_MODE cx pc pc' limit (machine st pc items ops) s
           = Some (LAI_ERROR_NONE, machine st pc'' items (ops @ [OpObject (VInteger v)]), s)"
proof -
  have "parse_opcode env opcode LAI_OBJECT_MODE cx pc pc' limit (machine st pc items ops) s
      = parse_prefixed opcode LAI_OBJECT_MODE (cx_code cx) pc' limit (machine st pc items ops) s"
    using assms(3) by (auto simp: parse_opcode_def aml_opcodes)
  then show ?thesis using assms by (simp add: parse_prefixed_def is_value_mode_def exec_done_def)
qed

text \<open>The bytes of a number, put together again.\<close>

lemma word_bytes:
  fixes w :: u16
  shows "ucast (ucast w :: u8) OR push_bit 8 (ucast (ucast (drop_bit 8 w) :: u8)) = w"
  by (rule bit_word_eqI) (auto simp: bit_simps)

lemma join_bits:
  fixes w :: "'a::len word"
  shows "take_bit a w OR push_bit a (take_bit b (drop_bit a w)) = take_bit (a + b) w"
  by (rule bit_word_eqI) (auto simp: bit_simps)

lemma byte_of_word:
  fixes w :: "'a::len word"
  assumes "8 \<le> LENGTH('a)"
  shows "ucast (ucast w :: u8) = take_bit 8 w"
  using assms by (intro bit_word_eqI) (auto simp: bit_simps)

lemma dword_bytes:
  fixes w :: u32
  defines "b \<equiv> \<lambda>i. ucast (ucast (drop_bit (8 * i) w) :: u8) :: u32"
  shows "b 0 OR push_bit 8 (b 1) OR push_bit 16 (b 2) OR push_bit 24 (b 3) = w"
proof -
  have "((b 0 OR push_bit 8 (b 1)) OR push_bit 16 (b 2)) OR push_bit 24 (b 3) = w"
    unfolding b_def using join_bits [of 8 w 8] join_bits [of 16 w 8] join_bits [of 24 w 8]
    by (simp add: byte_of_word take_bit_word_eq_self)
  then show ?thesis by (simp only: or.assoc)
qed

lemma qword_bytes:
  fixes w :: u64
  defines "b \<equiv> \<lambda>i. ucast (ucast (drop_bit (8 * i) w) :: u8) :: u64"
  shows "b 0 OR push_bit 8 (b 1) OR push_bit 16 (b 2) OR push_bit 24 (b 3) OR push_bit 32 (b 4) OR push_bit 40 (b 5) OR
     push_bit 48 (b 6) OR push_bit 56 (b 7) = w"
proof -
  have "((((((b 0 OR push_bit 8 (b 1)) OR push_bit 16 (b 2)) OR push_bit 24 (b 3)) OR push_bit 32 (b 4)) OR push_bit 40 (b 5)) OR
     push_bit 48 (b 6)) OR push_bit 56 (b 7) = w"
    unfolding b_def using join_bits [of 8 w 8] join_bits [of 16 w 8] join_bits [of 24 w 8] join_bits [of 32 w 8]
      join_bits [of 40 w 8] join_bits [of 48 w 8] join_bits [of 56 w 8]
    by (simp add: byte_of_word take_bit_word_eq_self)
  then show ?thesis by (simp only: or.assoc)
qed

lemma prefixed_numbers:
  "code_at m code pc [b] \<Longrightarrow> pc + 1 \<le> limit \<Longrightarrow> read_prefixed m BYTEPREFIX code pc limit = Some (ucast b, pc + 1)"
  "code_at m code pc [ucast w, ucast (drop_bit 8 w)] \<Longrightarrow> pc + 2 \<le> limit \<Longrightarrow>
     read_prefixed m WORDPREFIX code pc limit = Some (ucast w, pc + 2)"
  "code_at m code pc (map (\<lambda>i. ucast (drop_bit (8 * i) d)) [0..<4]) \<Longrightarrow> pc + 4 \<le> limit \<Longrightarrow>
     read_prefixed m DWORDPREFIX code pc limit = Some (ucast d, pc + 4)"
  "code_at m code pc (map (\<lambda>i. ucast (drop_bit (8 * i) q)) [0..<8]) \<Longrightarrow> pc + 8 \<le> limit \<Longrightarrow>
     read_prefixed m QWORDPREFIX code pc limit = Some (q, pc + 8)"
  for w :: u16 and d :: u32 and q :: u64
  using word_bytes [of w] dword_bytes [of d] qword_bytes [of q]
  by (simp_all add: read_prefixed_def lai_parse_u8_def lai_parse_u16_def lai_parse_u32_def lai_parse_u64_def aml_opcodes
      code_at_Cons upt_rec [of _ 4] upt_rec [of _ 8] add.assoc)

lemma number_yields:
  assumes "in_code st cx limit" "length ops < st_capacity (opstack st)" "code_byte (mem s) (cx_code cx) pc = ucast opcode"
    and "opcode \<in> {BYTEPREFIX, WORDPREFIX, DWORDPREFIX, QWORDPREFIX}" "pc < limit"
    and "read_prefixed (mem s) opcode (cx_code cx) (pc + 1) limit = Some (v, pc')"
  shows "yields env LAI_OBJECT_MODE (machine st pc items ops, s) (machine st pc' items (ops @ [OpObject (VInteger v)]), s)"
proof (rule yields_constant)
  have b: "\<not> lai_is_name (ucast opcode)" "(ucast opcode :: u8) \<noteq> 0x5B" "ucast (ucast opcode :: u8) = opcode"
    using assms(4) not_name by (auto simp: aml_opcodes)
  have "\<not> is_immediate_mode LAI_OBJECT_MODE" by (simp add: is_immediate_mode_def parse_modes)
  from parse_byte [OF assms(1,5) this assms(3) b(1,2), of env items ops] prefixed_parse [OF assms(1,2,4,6)]
  show "lai_exec_parse env LAI_OBJECT_MODE (machine st pc items ops) s
      = Some (LAI_ERROR_NONE, machine st pc' items (ops @ [OpObject (VInteger v)]), s)"
    by (simp only: b(3))
qed

lemma constant_yields:
  assumes "in_code st cx limit" "length ops < st_capacity (opstack st)" "constant_value opcode = Some v"
    and "code_at (mem s) (cx_code cx) pc (expr_code (EConstant opcode))" "pc + int (length (expr_code (EConstant opcode))) \<le> limit"
  shows "yields env LAI_OBJECT_MODE (machine st pc items ops, s)
     (machine st (pc + int (length (expr_code (EConstant opcode)))) items (ops @ [OpObject (VInteger v)]), s)"
proof (rule yields_constant)
  have m: "\<not> is_immediate_mode LAI_OBJECT_MODE" by (simp add: is_immediate_mode_def parse_modes)
  consider "opcode = extop REVISION_OP" | "opcode \<in> {ZERO_OP, ONE_OP, ONES_OP}" "opcode \<noteq> extop REVISION_OP"
    using assms(3) by (auto simp: constant_value_def split: if_splits)
  then show "lai_exec_parse env LAI_OBJECT_MODE (machine st pc items ops) s
      = Some (LAI_ERROR_NONE, machine st (pc + int (length (expr_code (EConstant opcode)))) items (ops @ [OpObject (VInteger v)]), s)"
  proof cases
    case 1
    then show ?thesis
      using parse_extended [OF assms(1) _ m, of pc s "0x30" env items ops] assms(4,5) constant_parse [OF assms(1-3)]
      by (simp add: code_at_Cons REVISION_OP_def)
  next
    case 2
    have b: "\<not> lai_is_name (ucast opcode)" "(ucast opcode :: u8) \<noteq> 0x5B" "ucast (ucast opcode :: u8) = opcode"
      using 2(1) not_name by (auto simp: aml_opcodes)
    show ?thesis
      using parse_byte [OF assms(1) _ m _ b(1,2), of pc s env items ops] assms(4,5) constant_parse [OF assms(1-3)] 2(2) b(3)
      by (simp add: code_at_Cons)
  qed
qed

subsection \<open>Operators\<close>

definition unary_operators :: "u32 set" where "unary_operators = {NOT_OP, LNOT_OP}"

definition binary_operators :: "u32 set" where
  "binary_operators = set binary_opcodes \<union> {LAND_OP, LOR_OP, LEQUAL_OP, LLESS_OP, LGREATER_OP}"

definition target_modes :: "u32 \<Rightarrow> nat list" where
  "target_modes opcode = (if null_target opcode = [] then [0] else [LAI_REFERENCE_MODE, 0])"

definition null_operand :: "u32 \<Rightarrow> lai_operand list" where
  "null_operand opcode = (if null_target opcode = [] then [] else [OpNull])"

lemma unary_valueD: "unary_value opcode v = Some r \<Longrightarrow> opcode \<in> unary_operators"
  by (auto simp: unary_value_def unary_operators_def split: if_splits)

lemma binary_valueD: "binary_value opcode v w = Some r \<Longrightarrow> opcode \<in> binary_operators"
  by (auto simp: binary_value_def binary_operators_def binary_opcodes_def split: if_splits)

lemma operator_byte:
  assumes "opcode \<in> unary_operators \<union> binary_operators"
  shows "\<not> lai_is_name (ucast opcode)" "(ucast opcode :: u8) \<noteq> 0x5B" "ucast (ucast opcode :: u8) = opcode"
  using assms unfolding unary_operators_def binary_operators_def binary_opcodes_def
  by (auto simp: aml_opcodes lai_is_name_def ROOT_CHAR_def PARENT_CHAR_def DUAL_PREFIX_def MULTI_PREFIX_def)

lemma operator_modes:
  "opcode \<in> unary_operators \<Longrightarrow> op_modes opcode = Some (LAI_OBJECT_MODE # target_modes opcode)"
  "opcode \<in> binary_operators \<Longrightarrow> op_modes opcode = Some (LAI_OBJECT_MODE # LAI_OBJECT_MODE # target_modes opcode)"
  unfolding unary_operators_def binary_operators_def binary_opcodes_def
  by (auto simp: aml_opcodes op_mode_defs target_modes_def null_target_def)

text \<open>None of the opcodes that \<open>parse_opcode\<close> tries before the operators.\<close>

definition after_operands :: "u32 \<Rightarrow> bool" where
  "after_operands opcode \<longleftrightarrow> opcode \<notin> {NOP_OP, BREAKPOINT_OP} \<and>
     opcode \<notin> {ZERO_OP, ONE_OP, ONES_OP, extop REVISION_OP, extop TIMER_OP} \<and>
     opcode \<notin> {BYTEPREFIX, WORDPREFIX, DWORDPREFIX, QWORDPREFIX} \<and> opcode \<noteq> STRINGPREFIX \<and> opcode \<noteq> BUFFER_OP \<and>
     opcode \<notin> {PACKAGE_OP, VARPACKAGE_OP} \<and> \<not> (ARG0_OP \<le> opcode \<and> opcode \<le> ARG6_OP) \<and>
     \<not> (LOCAL0_OP \<le> opcode \<and> opcode \<le> LOCAL7_OP) \<and> opcode \<noteq> extop DEBUG_OP"

lemma operators_after:
  "list_all after_operands ([NOT_OP, LNOT_OP, LAND_OP, LOR_OP, LEQUAL_OP, LLESS_OP, LGREATER_OP] @ binary_opcodes)"
  by code_simp

lemma operator_parse:
  assumes "opcode \<in> unary_operators \<union> binary_operators" "op_modes opcode = Some modes"
  shows "parse_opcode env opcode mode cx pc pc' limit st s = parse_op opcode modes mode pc' st s"
proof -
  have "after_operands opcode"
    using assms(1) operators_after unfolding unary_operators_def binary_operators_def list_all_iff by auto
  then show ?thesis using assms(2) unfolding parse_opcode_def after_operands_def by auto
qed

lemma object_mode: "\<not> is_immediate_mode LAI_OBJECT_MODE" "\<not> is_immediate_mode LAI_REFERENCE_MODE" "LAI_OBJECT_MODE \<noteq> 0" "LAI_REFERENCE_MODE \<noteq> 0"
  "LAI_MF_RESULT LAI_OBJECT_MODE"
  by (simp_all add: is_immediate_mode_def LAI_MF_RESULT_def parse_modes)

text \<open>An operator starts by an item for it.\<close>

lemma operator_yields:
  assumes "in_code st cx limit" "pc < limit" "code_byte (mem s) (cx_code cx) pc = ucast opcode"
    and "opcode \<in> unary_operators \<union> binary_operators" "op_modes opcode = Some modes" "length items < st_capacity (stack st)"
    and "(exec_step env)\<^sup>*\<^sup>* (machine st (pc + 1) (items @ [SOp (length ops) opcode modes True]) ops, s) c'"
  shows "yields env LAI_OBJECT_MODE (machine st pc items ops, s) c'"
proof (rule yieldsI)
  show "lai_exec_parse env LAI_OBJECT_MODE (machine st pc items ops) s
      = Some (LAI_ERROR_NONE, machine st (pc + 1) (items @ [SOp (length ops) opcode modes True]) ops, s)"
    using assms(1,6) by (simp add: parse_byte [OF assms(1,2) object_mode(1) assms(3) operator_byte(1,2) [OF assms(4)]]
        operator_parse [OF assms(4,5)] operator_byte(3) [OF assms(4)] parse_op_def exec_done_def object_mode)
qed fact

text \<open>It ends with the null target, if it has one, and its result.\<close>

lemma operator_end:
  assumes "in_code st cx limit" "code_at (mem s) (cx_code cx) pc (null_target opcode)" "pc + int (length (null_target opcode)) \<le> limit"
    and modes: "modes = ms @ target_modes opcode" "length new = length ms"
    and plain: "list_all (\<lambda>x. case x of OpObject v \<Rightarrow> counted v = None | _ \<Rightarrow> True) new"
    and room: "length ops + length new + 1 < st_capacity (opstack st)"
    and reduce: "\<And>st'. lai_exec_reduce_op env opcode st' (new @ null_operand opcode) s = Some (LAI_ERROR_NONE, VInteger i, s)"
  shows "(exec_step env)\<^sup>*\<^sup>* (machine st pc (items @ [SOp (length ops) opcode modes True]) (ops @ new), s)
           (machine st (pc + int (length (null_target opcode))) items (ops @ [OpObject (VInteger i)]), s)"
proof (cases "null_target opcode = []")
  case True
  then show ?thesis
    using assms op_finish [OF assms(1) _ _ _ _ plain, of pc modes ops env opcode items s i]
    by (auto simp: target_modes_def null_operand_def)
next
  case False
  then have t: "null_target opcode = [0]" by (simp add: null_target_def split: if_splits)
  let ?items = "items @ [SOp (length ops) opcode modes True]"
  have code: "pc < limit" "code_byte (mem s) (cx_code cx) pc = 0" using assms(2,3) t by (auto simp: code_at_Cons)
  have "lai_exec_parse env LAI_REFERENCE_MODE (machine st pc ?items (ops @ new)) s
      = Some (LAI_ERROR_NONE, machine st (pc + 1) ?items (ops @ (new @ [OpNull])), s)"
    using room by (simp add: parse_byte [OF assms(1) code(1) object_mode(2) code(2) not_name(1)] null_target_parse [OF assms(1)])
  then have "yields env LAI_REFERENCE_MODE (machine st pc ?items (ops @ new), s) (machine st (pc + 1) ?items (ops @ (new @ [OpNull])), s)"
    by (rule yields_constant)
  then have "(exec_step env)\<^sup>*\<^sup>* (machine st pc ?items (ops @ new), s) (machine st (pc + 1) ?items (ops @ (new @ [OpNull])), s)"
    using modes t by (intro op_operand [OF assms(1) code(1) object_mode(4)]) (auto simp: target_modes_def nth_append)
  moreover have "exec_step env (machine st (pc + 1) ?items (ops @ (new @ [OpNull])), s)
      (machine st (pc + 1) items (ops @ [OpObject (VInteger i)]), s)"
    using modes t room plain reduce code(1)
    by (intro op_finish [OF assms(1)]) (auto simp: target_modes_def nth_append null_operand_def)
  ultimately show ?thesis using t by simp
qed

lemma unary_reduce:
  "unary_value opcode v = Some r \<Longrightarrow>
     lai_exec_reduce_op env opcode st ([OpObject (VInteger v)] @ null_operand opcode) s = Some (LAI_ERROR_NONE, VInteger r, s)"
  by (auto simp: unary_value_def null_operand_def null_target_def lai_exec_reduce_op_def reduce_unary_def reduce_logical_def truth_def
      get_int_def mutate_op_def operand_at_def lai_operand_mutate_def aml_opcodes binary_opcodes_def split: if_splits)

lemma compare_reduce:
  "opcode \<in> {LEQUAL_OP, LLESS_OP, LGREATER_OP} \<Longrightarrow> reduce_compare opcode [OpObject (VInteger v), OpObject (VInteger w)] s
     = Some (LAI_ERROR_NONE, VInteger (ones (if opcode = LEQUAL_OP then v = w else if opcode = LLESS_OP then v < w else w < v)), s)"
  by (auto simp: reduce_compare_def get_object_def operand_at_def lai_obj_exec_match_op_def lai_obj_to_integer_def lai_obj_clone_def
      finish_match_def lai_var_finalize_def finalize_uncounted match_integers_def compare_operator_def aml_opcodes
      MATCH_MTR_def MATCH_MEQ_def MATCH_MLE_def MATCH_MLT_def MATCH_MGE_def MATCH_MGT_def)

lemma arithmetic_reduce:
  assumes "opcode \<in> set binary_opcodes" "binary_value opcode v w = Some r"
  shows "lai_exec_reduce_op env opcode st [OpObject (VInteger v), OpObject (VInteger w), OpNull] s = Some (LAI_ERROR_NONE, VInteger r, s)"
proof -
  have "binary_result opcode v w = Some r"
    using assms unfolding binary_opcodes_def
    by (auto simp: binary_value_def binary_result_def aml_opcodes not_less split: if_splits)
  then have "reduce_binary env opcode st [OpObject (VInteger v), OpObject (VInteger w), OpNull] s = Some (LAI_ERROR_NONE, VInteger r, s)"
    by (simp add: reduce_binary_def get_int_def mutate_op_def operand_at_def lai_operand_mutate_def)
  moreover have "opcode \<notin> {STORE_OP, COPYOBJECT_OP, NOT_OP, FINDSETLEFTBIT_OP, FINDSETRIGHTBIT_OP, CONCAT_OP}"
    using assms(1) unfolding binary_opcodes_def by (auto simp: aml_opcodes)
  ultimately show ?thesis using assms(1) by (auto simp: lai_exec_reduce_op_def)
qed

lemma binary_reduce:
  assumes "binary_value opcode v w = Some r"
  shows "lai_exec_reduce_op env opcode st ([OpObject (VInteger v), OpObject (VInteger w)] @ null_operand opcode) s
      = Some (LAI_ERROR_NONE, VInteger r, s)"
proof -
  consider "opcode \<in> set binary_opcodes" | "opcode \<in> {LEQUAL_OP, LLESS_OP, LGREATER_OP}" | "opcode \<in> {LAND_OP, LOR_OP}"
    using binary_valueD [OF assms] by (auto simp: binary_operators_def)
  then show ?thesis
  proof cases
    case 1
    then have "null_operand opcode = [OpNull]"
      unfolding binary_opcodes_def by (auto simp: null_operand_def null_target_def aml_opcodes)
    then show ?thesis using arithmetic_reduce [OF 1 assms] by simp
  next
    case 2
    then have "null_operand opcode = []" by (auto simp: null_operand_def null_target_def)
    then show ?thesis using 2 assms compare_reduce [OF 2, of v w s]
      by (auto simp: lai_exec_reduce_op_def binary_value_def binary_opcodes_def ones_def aml_opcodes)
  next
    case 3
    then have "null_operand opcode = []" by (auto simp: null_operand_def null_target_def)
    then show ?thesis using 3 assms
      by (auto simp: lai_exec_reduce_op_def binary_value_def binary_opcodes_def reduce_logical_def get_int_def operand_at_def truth_def
          aml_opcodes)
  qed
qed

subsection \<open>Expressions\<close>

text \<open>An expression whose code stands at a position, with room on both stacks.\<close>

definition ready :: "lai_state \<Rightarrow> lai_ctxitem \<Rightarrow> int \<Rightarrow> mem \<Rightarrow> aml_expr \<Rightarrow> int \<Rightarrow> nat \<Rightarrow> nat \<Rightarrow> bool" where
  "ready st cx limit m e pc i k \<longleftrightarrow> in_code st cx limit \<and> code_at m (cx_code cx) pc (expr_code e) \<and>
     pc + int (length (expr_code e)) \<le> limit \<and>
     i + items_needed e \<le> st_capacity (stack st) \<and> k + operands_needed e \<le> st_capacity (opstack st)"

definition computes :: "('d, 'a) env \<Rightarrow> lai_state \<Rightarrow> lai_ctxitem \<Rightarrow> int \<Rightarrow> ('d, 'a) lai_exec_state_scheme \<Rightarrow> aml_expr \<Rightarrow> bool" where
  "computes env st cx limit s e \<longleftrightarrow>
     (\<forall>pc items ops v. ready st cx limit (mem s) e pc (length items) (length ops) \<longrightarrow> expr_value e = Some v \<longrightarrow>
        yields env LAI_OBJECT_MODE (machine st pc items ops, s)
          (machine st (pc + int (length (expr_code e))) items (ops @ [OpObject (VInteger v)]), s))"

lemma computesD:
  "computes env st cx limit s e \<Longrightarrow> ready st cx limit (mem s) e pc (length items) (length ops) \<Longrightarrow> expr_value e = Some v \<Longrightarrow>
     yields env LAI_OBJECT_MODE (machine st pc items ops, s)
       (machine st (pc + int (length (expr_code e))) items (ops @ [OpObject (VInteger v)]), s)"
  by (auto simp: computes_def)

lemma code_nonempty: "0 < length (expr_code e)"
  by (cases e) auto

lemma prefixed_computes:
  assumes "opcode \<in> {BYTEPREFIX, WORDPREFIX, DWORDPREFIX, QWORDPREFIX}" "expr_code e = ucast opcode # bs" "expr_value e = Some v"
    and "operands_needed e = 1"
    and "\<And>pc. code_at (mem s) (cx_code cx) pc bs \<Longrightarrow> pc + int (length bs) \<le> limit \<Longrightarrow>
           read_prefixed (mem s) opcode (cx_code cx) pc limit = Some (v, pc + int (length bs))"
  shows "computes env st cx limit s e"
  unfolding computes_def
proof (intro allI impI)
  fix pc w and items :: "lai_stackitem list" and ops :: "lai_operand list"
  assume r: "ready st cx limit (mem s) e pc (length items) (length ops)" and "expr_value e = Some w"
  then have "v = w" using assms(3) by simp
  moreover have "read_prefixed (mem s) opcode (cx_code cx) (pc + 1) limit = Some (v, pc + 1 + int (length bs))"
    using r assms by (intro assms(5)) (auto simp: ready_def code_at_Cons)
  ultimately show "yields env LAI_OBJECT_MODE (machine st pc items ops, s)
      (machine st (pc + int (length (expr_code e))) items (ops @ [OpObject (VInteger w)]), s)"
    using r assms number_yields [of st cx limit ops s pc opcode v "pc + 1 + int (length bs)" env items]
    by (auto simp: ready_def code_at_Cons algebra_simps)
qed

lemma prefix_bytes:
  "(ucast BYTEPREFIX :: u8) = 0x0A" "(ucast WORDPREFIX :: u8) = 0x0B" "(ucast DWORDPREFIX :: u8) = 0x0C" "(ucast QWORDPREFIX :: u8) = 0x0E"
  by (simp_all add: aml_opcodes)

lemma number_computes:
  "computes env st cx limit s (EByte b)" "computes env st cx limit s (EWord w)"
  "computes env st cx limit s (EDword d)" "computes env st cx limit s (EQword q)"
  using prefixed_computes [of BYTEPREFIX "EByte b" "[b]" "ucast b" s cx limit env st] prefixed_computes [of WORDPREFIX "EWord w" "[ucast w, ucast (drop_bit 8 w)]" "ucast w" s cx limit env st]
    prefixed_computes [of DWORDPREFIX "EDword d" "map (\<lambda>i. ucast (drop_bit (8 * i) d)) [0..<4]" "ucast d" s cx limit env st]
    prefixed_computes [of QWORDPREFIX "EQword q" "map (\<lambda>i. ucast (drop_bit (8 * i) q)) [0..<8]" q s cx limit env st]
  by (simp_all add: prefixed_numbers prefix_bytes)

text \<open>The operand of an operator that is on top.\<close>

lemma operand_steps:
  assumes "computes env st cx limit s e" "expr_value e = Some v"
    and "ready st cx limit (mem s) e pc (Suc (length items)) (length ops + length new)"
    and "length new < length modes" "modes ! length new = LAI_OBJECT_MODE"
  shows "(exec_step env)\<^sup>*\<^sup>* (machine st pc (items @ [SOp (length ops) opcode modes True]) (ops @ new), s)
     (machine st (pc + int (length (expr_code e))) (items @ [SOp (length ops) opcode modes True]) (ops @ (new @ [OpObject (VInteger v)])), s)"
proof (rule op_operand [where k = "length new"])
  show "in_code st cx limit" using assms(3) by (simp add: ready_def)
  show "pc < limit" using assms(3) code_nonempty [of e] by (simp add: ready_def del: length_greater_0_conv)
  show "yields env LAI_OBJECT_MODE (machine st pc (items @ [SOp (length ops) opcode modes True]) (ops @ new), s)
     (machine st (pc + int (length (expr_code e))) (items @ [SOp (length ops) opcode modes True]) (ops @ (new @ [OpObject (VInteger v)])), s)"
    using computesD [OF assms(1) _ assms(2), of pc "items @ [SOp (length ops) opcode modes True]" "ops @ new"] assms(3) by simp
qed (use assms object_mode in auto)

lemma unary_computes:
  assumes "computes env st cx limit s e"
  shows "computes env st cx limit s (EUnary opcode e)"
  unfolding computes_def
proof (intro allI impI)
  fix pc r and items :: "lai_stackitem list" and ops :: "lai_operand list"
  assume r: "ready st cx limit (mem s) (EUnary opcode e) pc (length items) (length ops)" and "expr_value (EUnary opcode e) = Some r"
  then obtain v where v: "expr_value e = Some v" and u: "unary_value opcode v = Some r" by (auto split: Option.bind_splits)
  note m = operator_modes(1) [OF unary_valueD [OF u]]
  let ?t = "null_target opcode" and ?pc = "pc + 1 + int (length (expr_code e))"
  let ?item = "SOp (length ops) opcode (LAI_OBJECT_MODE # target_modes opcode) True"
  have code: "in_code st cx limit" "code_byte (mem s) (cx_code cx) pc = ucast opcode" "code_at (mem s) (cx_code cx) ?pc ?t"
    "?pc + int (length ?t) \<le> limit" "length items < st_capacity (stack st)" "length ops + 2 < st_capacity (opstack st)"
    using r by (auto simp: ready_def code_at_Cons code_at_append)
  have "ready st cx limit (mem s) e (pc + 1) (Suc (length items)) (length ops)"
    using r by (auto simp: ready_def code_at_Cons code_at_append)
  then have "(exec_step env)\<^sup>*\<^sup>* (machine st (pc + 1) (items @ [?item]) (ops @ []), s) (machine st ?pc (items @ [?item]) (ops @ [OpObject (VInteger v)]), s)"
    using operand_steps [OF assms v, of "pc + 1" items ops "[]"] by simp
  also have "(exec_step env)\<^sup>*\<^sup>* \<dots> (machine st (?pc + int (length ?t)) items (ops @ [OpObject (VInteger r)]), s)"
    using code unary_reduce [OF u] by (intro operator_end [where ms = "[LAI_OBJECT_MODE]"]) auto
  finally show "yields env LAI_OBJECT_MODE (machine st pc items ops, s)
      (machine st (pc + int (length (expr_code (EUnary opcode e)))) items (ops @ [OpObject (VInteger r)]), s)"
    using code unary_valueD [OF u] by (intro operator_yields [OF code(1) _ code(2) _ m code(5)]) (auto simp: algebra_simps)
qed

lemma binary_computes:
  assumes "computes env st cx limit s e" "computes env st cx limit s f"
  shows "computes env st cx limit s (EBinary opcode e f)"
  unfolding computes_def
proof (intro allI impI)
  fix pc r and items :: "lai_stackitem list" and ops :: "lai_operand list"
  assume r: "ready st cx limit (mem s) (EBinary opcode e f) pc (length items) (length ops)" and "expr_value (EBinary opcode e f) = Some r"
  then obtain v w where v: "expr_value e = Some v" and w: "expr_value f = Some w" and u: "binary_value opcode v w = Some r"
    by (auto split: Option.bind_splits)
  note m = operator_modes(2) [OF binary_valueD [OF u]]
  let ?t = "null_target opcode" and ?pc1 = "pc + 1 + int (length (expr_code e))" and ?new = "[OpObject (VInteger v), OpObject (VInteger w)]"
  let ?pc2 = "?pc1 + int (length (expr_code f))"
  let ?item = "SOp (length ops) opcode (LAI_OBJECT_MODE # LAI_OBJECT_MODE # target_modes opcode) True"
  have code: "in_code st cx limit" "code_byte (mem s) (cx_code cx) pc = ucast opcode" "code_at (mem s) (cx_code cx) ?pc2 ?t"
    "?pc2 + int (length ?t) \<le> limit" "length items < st_capacity (stack st)" "length ops + 3 < st_capacity (opstack st)"
    using r by (auto simp: ready_def code_at_Cons code_at_append)
  have "ready st cx limit (mem s) e (pc + 1) (Suc (length items)) (length ops)"
      "ready st cx limit (mem s) f ?pc1 (Suc (length items)) (length ops + 1)"
    using r by (auto simp: ready_def code_at_Cons code_at_append)
  then have first: "(exec_step env)\<^sup>*\<^sup>* (machine st (pc + 1) (items @ [?item]) (ops @ []), s) (machine st ?pc1 (items @ [?item]) (ops @ [OpObject (VInteger v)]), s)"
      and second: "(exec_step env)\<^sup>*\<^sup>* (machine st ?pc1 (items @ [?item]) (ops @ [OpObject (VInteger v)]), s) (machine st ?pc2 (items @ [?item]) (ops @ ?new), s)"
    using operand_steps [OF assms(1) v, of "pc + 1" items ops "[]"]
      operand_steps [OF assms(2) w, of ?pc1 items ops "[OpObject (VInteger v)]"] by simp_all
  note first also note second
  also have "(exec_step env)\<^sup>*\<^sup>* (machine st ?pc2 (items @ [?item]) (ops @ ?new), s)
      (machine st (?pc2 + int (length ?t)) items (ops @ [OpObject (VInteger r)]), s)"
    using code binary_reduce [OF u] by (intro operator_end [where ms = "[LAI_OBJECT_MODE, LAI_OBJECT_MODE]"]) auto
  finally show "yields env LAI_OBJECT_MODE (machine st pc items ops, s)
      (machine st (pc + int (length (expr_code (EBinary opcode e f)))) items (ops @ [OpObject (VInteger r)]), s)"
    using code binary_valueD [OF u] by (intro operator_yields [OF code(1) _ code(2) _ m code(5)]) (auto simp: algebra_simps)
qed

lemma expr_computes: "computes env st cx limit s e"
proof (induction e)
  case (EConstant opcode)
  show ?case unfolding computes_def
    by (intro allI impI constant_yields) (auto simp: ready_def)
qed (intro number_computes unary_computes binary_computes; assumption)+

text \<open>C2: The byte code of an integer expression is evaluated right: where an operand is wanted, parsing the code and running the items
  that this pushes leaves the value of the expression as one new operand, the position behind the code, and all else as it was.\<close>

theorem lai_exec_expression:
  assumes "ready st cx limit (mem s) e pc (length items) (length ops)" and "expr_value e = Some v"
  shows "\<exists>st1 s1. lai_exec_parse env LAI_OBJECT_MODE (machine st pc items ops) s = Some (LAI_ERROR_NONE, st1, s1) \<and>
    (exec_step env)\<^sup>*\<^sup>* (st1, s1) (machine st (pc + int (length (expr_code e))) items (ops @ [OpObject (VInteger v)]), s)"
  using computesD [OF expr_computes assms] by (auto simp: yields_def)

text \<open>An instance: the sum of 5 and 1 at the start of a block of five bytes.\<close>

definition sum_example :: aml_expr where
  "sum_example = EBinary ADD_OP (EByte 5) (EConstant ONE_OP)"

definition exec_example :: "u8 list \<Rightarrow> (u32 \<times> (u8 \<Rightarrow> u32)) lai_exec_state" where
  "exec_example bs = (lai_obj_state.extend obj_example (lai_exec_state.fields Map.empty (\<lambda>_. \<lparr>le_next = 0, le_prev = 0\<rparr>)))
     \<lparr>mem := \<lambda>a. if unat a < length bs then bs ! unat a else 0\<rparr>"

lemma mem_exec_example [simp]: "mem (exec_example bs) a = (if unat a < length bs then bs ! unat a else 0)"
  by (simp add: exec_example_def)

lemma code_at_example: "length bs < 2 ^ 31 \<Longrightarrow> code_at (mem (exec_example bs)) 0 0 bs"
  by (auto simp: code_at_def code_bytes_def code_byte_def load8_def unat_of_nat take_bit_nat_eq_self intro!: nth_equalityI)

definition code_state :: "u8 list \<Rightarrow> lai_state" where
  "code_state bs = lai_init_state
     \<lparr>ctxstack := (ctxstack lai_init_state)\<lparr>st_items := [\<lparr>cx_amls = 0, cx_code = 0, cx_handle = 0, cx_invocation = 0\<rparr>]\<rparr>,
      blkstack := (blkstack lai_init_state)\<lparr>st_items := [\<lparr>bk_pc = 0, bk_limit = int (length bs)\<rparr>]\<rparr>\<rparr>"

lemma code_state_in_code: "in_code (code_state bs) \<lparr>cx_amls = 0, cx_code = 0, cx_handle = 0, cx_invocation = 0\<rparr> (int (length bs))"
  by (simp add: in_code_def code_state_def lai_exec_peek_ctxstack_back_def peek_item_def)

lemma code_state_capacity [simp]: "st_capacity (stack (code_state bs)) = 16" "st_capacity (opstack (code_state bs)) = 16"
  by (simp_all add: code_state_def lai_init_state_def LAI_SMALL_STACK_SIZE_def LAI_SMALL_OPSTACK_SIZE_def)

theorem lai_exec_expression_witness:
  "\<forall>env. \<exists>st1 s1. lai_exec_parse env LAI_OBJECT_MODE (machine (code_state [0x72, 0x0A, 5, 1, 0]) 0 [SPopulate] []) (exec_example [0x72, 0x0A, 5, 1, 0])
       = Some (LAI_ERROR_NONE, st1, s1) \<and>
     (exec_step env)\<^sup>*\<^sup>* (st1, s1) (machine (code_state [0x72, 0x0A, 5, 1, 0]) 5 [SPopulate] [OpObject (VInteger 6)], exec_example [0x72, 0x0A, 5, 1, 0])"
proof
  fix env
  let ?bs = "[0x72, 0x0A, 5, 1, 0] :: u8 list"
  have c: "expr_code sum_example = ?bs" by (simp add: sum_example_def null_target_def aml_opcodes)
  have v: "expr_value sum_example = Some 6" by (simp add: sum_example_def constant_value_def binary_value_def aml_opcodes)
  have "ready (code_state ?bs) \<lparr>cx_amls = 0, cx_code = 0, cx_handle = 0, cx_invocation = 0\<rparr> (int (length ?bs)) (mem (exec_example ?bs)) sum_example 0
      (length [SPopulate]) (length ([] :: lai_operand list))"
    unfolding ready_def c using code_state_in_code [of ?bs] code_at_example [of ?bs] by (simp add: sum_example_def)
  from lai_exec_expression [OF this v, of env]
  show "\<exists>st1 s1. lai_exec_parse env LAI_OBJECT_MODE (machine (code_state ?bs) 0 [SPopulate] []) (exec_example ?bs) = Some (LAI_ERROR_NONE, st1, s1) \<and>
     (exec_step env)\<^sup>*\<^sup>* (st1, s1) (machine (code_state ?bs) 5 [SPopulate] [OpObject (VInteger 6)], exec_example ?bs)"
    by (simp add: c)
qed

end
