(* ===== verification/LaiControl.thy ===== *)
theory LaiControl
  imports LaiExpr
begin

text \<open>
  Control flow of the interpreter: an \<open>If\<close> runs the branch that its predicate chooses, a \<open>While\<close> leaves when its
  predicate is zero, and \<open>Continue\<close> does not get on.
\<close>

subsection \<open>Sizes of packages\<close>

text \<open>The encoding of a size: below 64 in one byte, else the low four bits with the number of further bytes in the first.\<close>

definition varint_code :: "u64 \<Rightarrow> u8 list" where
  "varint_code w =
     (if w < 64 then [ucast w]
      else let low = (\<lambda>c. c OR ucast (take_bit 4 w)); b = (\<lambda>i. ucast (drop_bit i w))
        in if w < 0x1000 then [low 0x40, b 4]
           else if w < 0x100000 then [low 0x80, b 4, b 12]
           else [low 0xC0, b 4, b 12, b 20])"

lemma nibble_cases: "take_bit 4 w \<in> set (map of_nat [0..<16])" for w :: u64
proof -
  have "unat (take_bit 4 w) < 16" by (simp add: take_bit_eq_mod unat_mod)
  then have "take_bit 4 w = of_nat (unat (take_bit 4 w)) \<and> unat (take_bit 4 w) \<in> set [0..<16]" by simp
  then show ?thesis by (metis image_eqI list.set_map)
qed

lemma first_byte:
  fixes w :: u64
  shows "drop_bit 6 (0xC0 OR ucast (take_bit 4 w) :: u8) = 3 \<and> ucast (0xC0 OR ucast (take_bit 4 w) :: u8) AND 0x0F = take_bit 4 w"
    "drop_bit 6 (0x80 OR ucast (take_bit 4 w) :: u8) = 2 \<and> ucast (0x80 OR ucast (take_bit 4 w) :: u8) AND 0x0F = take_bit 4 w"
    "drop_bit 6 (0x40 OR ucast (take_bit 4 w) :: u8) = 1 \<and> ucast (0x40 OR ucast (take_bit 4 w) :: u8) AND 0x0F = take_bit 4 w"
proof -
  have "list_all (\<lambda>x :: u64. (drop_bit 6 (0xC0 OR ucast x :: u8) = 3 \<and> ucast (0xC0 OR ucast x :: u8) AND 0x0F = x) \<and>
    (drop_bit 6 (0x80 OR ucast x :: u8) = 2 \<and> ucast (0x80 OR ucast x :: u8) AND 0x0F = x) \<and>
    (drop_bit 6 (0x40 OR ucast x :: u8) = 1 \<and> ucast (0x40 OR ucast x :: u8) AND 0x0F = x)) (map of_nat [0..<16])"
    by code_simp
  with nibble_cases [of w]
  show "drop_bit 6 (0xC0 OR ucast (take_bit 4 w) :: u8) = 3 \<and> ucast (0xC0 OR ucast (take_bit 4 w) :: u8) AND 0x0F = take_bit 4 w"
    "drop_bit 6 (0x80 OR ucast (take_bit 4 w) :: u8) = 2 \<and> ucast (0x80 OR ucast (take_bit 4 w) :: u8) AND 0x0F = take_bit 4 w"
    "drop_bit 6 (0x40 OR ucast (take_bit 4 w) :: u8) = 1 \<and> ucast (0x40 OR ucast (take_bit 4 w) :: u8) AND 0x0F = take_bit 4 w"
    unfolding list_all_iff by blast+
qed

lemma small_byte: "w < 64 \<Longrightarrow> drop_bit 6 (ucast w :: u8) = 0 \<and> ucast (ucast w AND 0x3F :: u8) = w" for w :: u64
proof -
  assume "w < 64"
  then have "unat w < 64" by (simp add: word_less_nat_alt)
  then have "w = of_nat (unat w) \<and> unat w \<in> set [0..<64]" by simp
  then have "w \<in> set (map of_nat [0..<64])" by (metis image_eqI list.set_map)
  moreover have "list_all (\<lambda>w :: u64. drop_bit 6 (ucast w :: u8) = 0 \<and> ucast (ucast w AND 0x3F :: u8) = w) (map of_nat [0..<64])" by code_simp
  ultimately show ?thesis unfolding list_all_iff by blast
qed

lemma varint_bytes:
  fixes w :: u64
  defines "b \<equiv> \<lambda>i. ucast (ucast (drop_bit i w) :: u8) :: u64"
  shows "w < 0x1000 \<Longrightarrow> take_bit 4 w OR push_bit 4 (b 4) = w"
    "w < 0x100000 \<Longrightarrow> take_bit 4 w OR push_bit 4 (b 4) OR push_bit 12 (b 12) = w"
    "w < 0x10000000 \<Longrightarrow> take_bit 4 w OR push_bit 4 (b 4) OR push_bit 12 (b 12) OR push_bit 20 (b 20) = w"
proof -
  have j: "take_bit 4 w OR push_bit 4 (b 4) = take_bit 12 w" "take_bit 12 w OR push_bit 12 (b 12) = take_bit 20 w"
      "take_bit 20 w OR push_bit 20 (b 20) = take_bit 28 w"
    using join_bits [of 4 w 8] join_bits [of 12 w 8] join_bits [of 20 w 8] by (simp_all add: b_def byte_of_word)
  have t: "w < 0x1000 \<Longrightarrow> take_bit 12 w = w" "w < 0x100000 \<Longrightarrow> take_bit 20 w = w" "w < 0x10000000 \<Longrightarrow> take_bit 28 w = w"
    by (rule take_bit_small, simp add: word_less_nat_alt)+
  show "w < 0x1000 \<Longrightarrow> take_bit 4 w OR push_bit 4 (b 4) = w"
    "w < 0x100000 \<Longrightarrow> take_bit 4 w OR push_bit 4 (b 4) OR push_bit 12 (b 12) = w"
    "w < 0x10000000 \<Longrightarrow> take_bit 4 w OR push_bit 4 (b 4) OR push_bit 12 (b 12) OR push_bit 20 (b 20) = w"
    using j t by (simp_all flip: or.assoc)
qed

lemma varint_parse:
  assumes "w < 0x10000000" and "code_at m code pc (varint_code w)" and "pc + int (length (varint_code w)) \<le> limit"
  shows "lai_parse_varint m code pc limit = Some (w, pc + int (length (varint_code w)))"
  using assms small_byte [of w] first_byte [of w] varint_bytes [of w]
  by (auto simp: varint_code_def lai_parse_varint_def Let_def code_at_Cons add.assoc split: if_splits)

text \<open>C32: A package size below 2 to the 28, encoded in one to four bytes, is read back, and the position is behind its bytes.\<close>

theorem lai_parse_varint_roundtrip:
  assumes "w < 0x10000000" and "code_at m code pc (varint_code w)" and "pc + int (length (varint_code w)) \<le> limit"
  shows "lai_parse_varint m code pc limit = Some (w, pc + int (length (varint_code w)))"
  by (rule varint_parse [OF assms])

subsection \<open>Blocks\<close>

text \<open>A block inside the current one, which goes on at a position.\<close>

definition nested :: "lai_state \<Rightarrow> int \<Rightarrow> int \<Rightarrow> lai_state" where
  "nested st pc limit =
     (let k = update_top (\<lambda>b. b\<lparr>bk_pc := pc\<rparr>) (blkstack st) in st\<lparr>blkstack := k\<lparr>st_items := st_items k @ [\<lparr>bk_pc = 0, bk_limit = limit\<rparr>]\<rparr>\<rparr>)"

lemma update_top_snoc: "update_top f (k\<lparr>st_items := xs @ [x]\<rparr>) = k\<lparr>st_items := xs @ [f x]\<rparr>"
  by (simp add: update_top_def)

lemma update_top_size [simp]: "length (st_items (update_top f k)) = length (st_items k)" "st_capacity (update_top f k) = st_capacity k"
  by (simp_all add: update_top_def)

lemma nested_fields [simp]:
  "stack (nested st pc limit) = stack st" "opstack (nested st pc limit) = opstack st" "ctxstack (nested st pc limit) = ctxstack st"
  by (simp_all add: nested_def Let_def)

lemma nested_in_code: "in_code st cx limit \<Longrightarrow> in_code (nested st pc limit') cx limit'"
  by (simp add: in_code_def nested_def Let_def lai_exec_peek_ctxstack_back_def)

lemma machine_push_block [simp]:
  "length (st_items (blkstack st)) < st_capacity (blkstack st) \<Longrightarrow>
     push_block pc' limit' (machine st pc items ops) = Some (machine (nested st pc limit') pc' items ops)"
  by (cases st) (simp add: push_block_def lai_exec_push_blkstack_def push_item_def machine_def nested_def Let_def update_top_snoc)

lemma machine_reserve_block [simp]:
  "length (st_items (blkstack st)) < st_capacity (blkstack st) \<Longrightarrow>
     lai_exec_reserve_blkstack (machine st pc items ops) s = Some (False, machine st pc items ops, s)"
  by (simp add: lai_exec_reserve_blkstack_def machine_def reserve_room)

lemma machine_set_item [simp]: "set_top_item y (machine st pc (items @ [x]) ops) = machine st pc (items @ [y]) ops"
  by (simp add: set_top_item_def set_item_def) (simp add: machine_def)

lemma nested_set_block:
  "set_top_block (\<lambda>b. b\<lparr>bk_pc := pc', bk_limit := limit'\<rparr>) (machine (nested st end_pc limit) pc items ops)
     = machine (nested st end_pc limit') pc' items ops"
  by (simp add: set_top_block_def machine_def nested_def Let_def update_top_snoc)

lemma nested_pop_item:
  "in_code st cx limit \<Longrightarrow> pop_block_item (machine (nested st end_pc limit') pc (items @ [x]) ops) = Some (machine st end_pc items ops)"
  by (simp add: pop_block_item_def lai_exec_pop_blkstack_back_def lai_exec_pop_stack_back_def pop_item_def machine_def nested_def Let_def
      update_top_snoc)

lemma block_end_exact:
  assumes "0 \<le> pc" "0 \<le> k" "pc + k + int (unat sz) < 2 ^ 31"
  shows "block_end pc k sz = pc + k + int (unat sz)"
proof -
  define n where "n = nat (pc + k) + unat sz"
  have pk: "int (nat (pc + k)) = pc + k" using assms(1,2) by simp
  then have "int n = pc + k + int (unat sz)" by (simp only: n_def of_nat_add)
  moreover from this have n: "n < 2 ^ 31" using assms(3) by (simp only: flip: of_nat_less_iff [where 'a = int]) simp
  have "of_int pc + of_int k + sz = (of_nat n :: u64)" using assms(1,2) by (simp add: n_def of_nat_nat)
  moreover have "sint (ucast (of_nat n :: u64) :: u32) = int n"
  proof -
    have "uint (ucast (of_nat n :: u64) :: u32) = int n" using n by (simp add: unsigned_ucast_eq unsigned_of_nat take_bit_int_eq_self take_bit_nat_eq_self)
    then show ?thesis using n by (simp add: sint_uint signed_take_bit_int_eq_self)
  qed
  ultimately show ?thesis using assms by (simp add: block_end_def int_of_size_def)
qed

subsection \<open>Conditions\<close>

text \<open>The byte code of an \<open>If\<close> with an \<open>Else\<close>; the two sizes count their own bytes.\<close>

definition if_code :: "u64 \<Rightarrow> aml_expr \<Rightarrow> u8 list \<Rightarrow> u64 \<Rightarrow> u8 list \<Rightarrow> u8 list" where
  "if_code w e body w' els = 0xA0 # varint_code w @ expr_code e @ body @ 0xA1 # varint_code w' @ els"

definition if_sizes :: "u64 \<Rightarrow> aml_expr \<Rightarrow> u8 list \<Rightarrow> u64 \<Rightarrow> u8 list \<Rightarrow> bool" where
  "if_sizes w e body w' els \<longleftrightarrow> w < 0x10000000 \<and> w' < 0x10000000 \<and>
     unat w = length (varint_code w @ expr_code e @ body) \<and> unat w' = length (varint_code w' @ els)"

lemma if_dispatch: "parse_opcode env IF_OP LAI_EXEC_MODE cx pc pc' limit st s = parse_if (cx_code cx) pc pc' limit st s"
  by (simp add: parse_opcode_def parse_statement_def op_mode_defs node_modes_def aml_opcodes)

lemma if_parse:
  assumes code: "in_code st cx limit" "0 \<le> pc" "limit < 2 ^ 31" "code_at (mem s) (cx_code cx) pc (if_code w e body w' els)"
      "pc + int (length (if_code w e body w' els)) \<le> limit" "if_sizes w e body w' els"
    and room: "length items < st_capacity (stack st)" "length (st_items (blkstack st)) < st_capacity (blkstack st)"
  defines "if_pc \<equiv> pc + 1 + int (length (varint_code w))" and "if_end \<equiv> pc + 1 + int (unat w)"
    and "else_pc \<equiv> pc + 2 + int (unat w) + int (length (varint_code w'))" and "end_pc \<equiv> pc + 2 + int (unat w) + int (unat w')"
  shows "lai_exec_parse env LAI_EXEC_MODE (machine st pc items ops) s = Some (LAI_ERROR_NONE,
    machine (nested st end_pc if_end) if_pc (items @ [SCond (length ops) False True else_pc end_pc]) ops, s)"
proof -
  have sz: "unat w = length (varint_code w) + length (expr_code e) + length body" "unat w' = length (varint_code w') + length els"
      "w < 0x10000000" "w' < 0x10000000" using code(6) by (simp_all add: if_sizes_def)
  have len: "pc + 2 + int (unat w) + int (unat w') \<le> limit" using code(5) sz by (simp add: if_code_def)
  have "unat (w + w') = unat w + unat w'" using sz(3,4) by (intro unat_add_u64) (simp add: word_less_nat_alt)
  then have sum: "int (unat (w + w')) = int (unat w) + int (unat w')" by (simp only: of_nat_add)
  then have "pc + 1 + int (unat w) < 2 ^ 31" "pc + 2 + int (unat (w + w')) < 2 ^ 31" using len code(3) by linarith+
  then have ends: "block_end pc 1 w = if_end" "block_end pc 2 (w + w') = end_pc"
    using block_end_exact [of pc 1 w] block_end_exact [of pc 2 "w + w'"] code(2) sum unfolding if_end_def end_pc_def by linarith+
  have at: "code_byte (mem s) (cx_code cx) pc = 0xA0" "code_at (mem s) (cx_code cx) (pc + 1) (varint_code w)"
      "code_byte (mem s) (cx_code cx) if_end = 0xA1" "code_at (mem s) (cx_code cx) (if_end + 1) (varint_code w')"
    using code(4) sz by (simp_all add: if_code_def code_at_Cons code_at_append if_end_def algebra_simps)
  have v: "lai_parse_varint (mem s) (cx_code cx) (pc + 1) limit = Some (w, if_pc)"
      "lai_parse_varint (mem s) (cx_code cx) (if_end + 1) limit = Some (w', else_pc)"
    using varint_parse [OF sz(3) at(2), of limit] varint_parse [OF sz(4) at(4), of limit] len sz
    by (simp_all add: if_pc_def else_pc_def if_end_def algebra_simps)
  have "lai_exec_parse env LAI_EXEC_MODE (machine st pc items ops) s = parse_if (cx_code cx) pc (pc + 1) limit (machine st pc items ops) s"
    using parse_byte [OF code(1) _ _ at(1), of LAI_EXEC_MODE env items ops] len if_dispatch
    by (simp add: is_immediate_mode_def parse_modes IF_OP_def lai_is_name_def ROOT_CHAR_def PARENT_CHAR_def DUAL_PREFIX_def MULTI_PREFIX_def)
  moreover have "if_end < limit" using len unfolding if_end_def by linarith
  ultimately show ?thesis
    using v at(3) room code(1) by (simp add: parse_if_def ends Let_def push_cond_def exec_done_def ELSE_OP_def)
qed

text \<open>The predicate of a condition is evaluated, and then the branch is chosen.\<close>

lemma cond_predicate:
  assumes "ready st cx limit (mem s) e pc (Suc (length items)) (length ops)" "expr_value e = Some v"
  shows "(exec_step env)\<^sup>*\<^sup>* (machine st pc (items @ [SCond (length ops) False has_else else_pc else_limit]) ops, s)
    (machine st (pc + int (length (expr_code e))) (items @ [SCond (length ops) False has_else else_pc else_limit]) (ops @ [OpObject (VInteger v)]), s)"
proof -
  let ?items = "items @ [SCond (length ops) False has_else else_pc else_limit]"
  let ?c' = "(machine st (pc + int (length (expr_code e))) ?items (ops @ [OpObject (VInteger v)]), s)"
  have "pc < limit" "in_code st cx limit" using assms(1) code_nonempty [of e] by (simp_all add: ready_def del: length_greater_0_conv)
  have "yields env LAI_OBJECT_MODE (machine st pc ?items ops, s) ?c'"
    using computesD [OF expr_computes _ assms(2), of st cx limit s pc ?items ops env] assms(1) by simp
  then obtain st1 s1 where p: "lai_exec_parse env LAI_OBJECT_MODE (machine st pc ?items ops) s = Some (LAI_ERROR_NONE, st1, s1)"
      and r: "(exec_step env)\<^sup>*\<^sup>* (st1, s1) ?c'" by (auto simp: yields_def)
  have "lai_exec_peek_ctxstack_back st = Some cx" using \<open>in_code st cx limit\<close> by (simp add: in_code_def)
  then have "exec_step env (machine st pc ?items ops, s) (st1, s1)"
    using p \<open>pc < limit\<close> \<open>in_code st cx limit\<close>
    by (intro exec_step.intros) (auto simp: lai_exec_process_def process_item_def process_cond_def operand_count_def)
  then show ?thesis using r by (rule converse_rtranclp_into_rtranclp)
qed

lemma cond_branch:
  assumes "in_code st cx limit" "pc \<le> if_end"
  shows "exec_step env (machine (nested st end_pc if_end) pc (items @ [SCond (length ops) False True else_pc else_end]) (ops @ [OpObject (VInteger v)]), s)
    (if v \<noteq> 0 then machine (nested st end_pc if_end) pc (items @ [SCond (length ops) True True else_pc else_end]) ops
     else machine (nested st end_pc else_end) else_pc (items @ [SCond (length ops) True True else_pc else_end]) ops, s)"
proof -
  have n: "in_code (nested st end_pc if_end) cx if_end" using assms(1) by (rule nested_in_code)
  then have cx: "lai_exec_peek_ctxstack_back (nested st end_pc if_end) = Some cx" by (simp add: in_code_def)
  have pop: "lai_exec_pop_opstack_back (machine st' pc xs (ops @ [OpObject (VInteger v)])) s = Some (machine st' pc xs ops, s)" for st' xs
    using machine_pop_opstack [of "[OpObject (VInteger v)]" st' pc xs ops s] by (simp add: lai_exec_pop_opstack_back_def)
  show ?thesis
    using n cx assms(2)
    by (intro exec_step.intros)
      (auto simp: lai_exec_process_def process_item_def process_cond_def operand_count_def take_predicate_def lai_exec_get_opstack_def pop
        exec_done_def else_branch_def nested_set_block)
qed

text \<open>C3: An \<open>If\<close> with an \<open>Else\<close>, met where a statement is expected: its predicate is evaluated, and if it is not zero the interpreter is
  at the start of the first branch, in a block that ends with that branch, else at the start of the second branch, in a
  block that ends with the statement; the block around goes on behind the statement.\<close>

theorem lai_exec_if_else:
  assumes "in_code st cx limit" "0 \<le> pc" "limit < 2 ^ 31" "code_at (mem s) (cx_code cx) pc (if_code w e body w' els)"
      "pc + int (length (if_code w e body w' els)) \<le> limit" "if_sizes w e body w' els"
    and "Suc (length items) + items_needed e \<le> st_capacity (stack st)" "length ops + operands_needed e \<le> st_capacity (opstack st)"
      "length (st_items (blkstack st)) < st_capacity (blkstack st)"
    and "expr_value e = Some v"
  defines "then_pc \<equiv> pc + 1 + int (length (varint_code w @ expr_code e))" and "then_end \<equiv> pc + 1 + int (unat w)"
    and "else_pc \<equiv> pc + 2 + int (unat w) + int (length (varint_code w'))" and "end_pc \<equiv> pc + 2 + int (unat w) + int (unat w')"
  shows "\<exists>st1 s1. lai_exec_parse env LAI_EXEC_MODE (machine st pc items ops) s = Some (LAI_ERROR_NONE, st1, s1) \<and>
    (exec_step env)\<^sup>*\<^sup>* (st1, s1)
      (machine (nested st end_pc (if v \<noteq> 0 then then_end else end_pc)) (if v \<noteq> 0 then then_pc else else_pc)
         (items @ [SCond (length ops) True True else_pc end_pc]) ops, s)"
proof -
  let ?st = "nested st end_pc then_end" and ?item = "SCond (length ops) False True else_pc end_pc" and ?if_pc = "pc + 1 + int (length (varint_code w))"
  have le: "then_pc \<le> then_end" using assms(6) by (simp add: if_sizes_def then_pc_def then_end_def)
  have "code_at (mem s) (cx_code cx) ?if_pc (expr_code e)" using assms(4) by (simp add: if_code_def code_at_Cons code_at_append)
  then have "ready ?st cx then_end (mem s) e ?if_pc (Suc (length items)) (length ops)"
    using nested_in_code [OF assms(1), of end_pc then_end] assms(7,8) le by (simp add: ready_def then_pc_def algebra_simps)
  from cond_predicate [OF this assms(10), of env True else_pc end_pc]
  have "(exec_step env)\<^sup>*\<^sup>* (machine ?st ?if_pc (items @ [?item]) ops, s) (machine ?st then_pc (items @ [?item]) (ops @ [OpObject (VInteger v)]), s)"
    by (simp add: then_pc_def algebra_simps)
  also have "exec_step env (machine ?st then_pc (items @ [?item]) (ops @ [OpObject (VInteger v)]), s)
      (machine (nested st end_pc (if v \<noteq> 0 then then_end else end_pc)) (if v \<noteq> 0 then then_pc else else_pc)
         (items @ [SCond (length ops) True True else_pc end_pc]) ops, s)"
    using cond_branch [OF assms(1) le, of env end_pc items ops else_pc end_pc v s] by (simp split: if_splits)
  finally show ?thesis
    using if_parse [OF assms(1-6) _ assms(9), of items env ops] assms(7) unfolding then_end_def else_pc_def end_pc_def by auto
qed

subsection \<open>Loops\<close>

text \<open>A round that changes nothing is repeated for ever.\<close>

lemma idle_diverges:
  assumes "exec_step env (st, s) (st, s)"
  shows "lai_exec_run env st s = None"
proof (rule ccontr)
  assume "lai_exec_run env st s \<noteq> None"
  then obtain r where r: "lai_exec_run env st s = Some r" by auto
  have step: "st_items (stack st) \<noteq> []" "lai_exec_process env st s = Some (LAI_ERROR_NONE, st, s)"
    using assms by (auto elim: exec_step.cases)
  have "env = env \<and> st = st \<and> s = s \<longrightarrow> False"
    by (rule lai_exec_run.raw_induct [where P = "\<lambda>env' st' s' _. env' = env \<and> st' = st \<and> s' = s \<longrightarrow> False", OF _ r])
      (insert step, auto, blast)
  then show False by simp
qed

text \<open>C31: A \<open>Continue\<close> that stands directly in the body of a loop is never left: the interpreter finds the loop but moves neither the
  position nor the state of the loop, so the same opcode is read again and the run does not return.\<close>

theorem lai_exec_continue_diverges:
  assumes "in_code st cx limit" "pc < limit" "code_byte (mem s) (cx_code cx) pc = 0x9F"
  shows "lai_exec_run env (machine st pc (items @ [SLoop frame True pred]) ops) s = None"
proof (rule idle_diverges)
  let ?m = "machine st pc (items @ [SLoop frame True pred]) ops"
  have cx: "lai_exec_peek_ctxstack_back st = Some cx" using assms(1) by (simp add: in_code_def)
  have "parse_opcode env 0x9F LAI_EXEC_MODE cx pc (pc + 1) limit ?m s = Some (LAI_ERROR_NONE, ?m, s)"
    by (simp add: parse_opcode_def parse_statement_def op_mode_defs node_modes_def aml_opcodes parse_continue_def exec_done_def)
  then have "lai_exec_parse env LAI_EXEC_MODE ?m s = Some (LAI_ERROR_NONE, ?m, s)"
    using parse_byte [OF assms(1,2) _ assms(3), of LAI_EXEC_MODE env "items @ [SLoop frame True pred]" ops]
    by (simp add: is_immediate_mode_def parse_modes lai_is_name_def ROOT_CHAR_def PARENT_CHAR_def DUAL_PREFIX_def MULTI_PREFIX_def)
  then show "exec_step env (?m, s) (?m, s)"
    using assms cx by (intro exec_step.intros) (auto simp: lai_exec_process_def process_item_def process_loop_def)
qed

subsection \<open>Instances\<close>

text \<open>\<open>If (One) {Noop} Else {Noop}\<close>, and a loop whose body is \<open>Continue\<close>.\<close>

definition if_example :: "u8 list" where
  "if_example = [0xA0, 3, 1, 0xA3, 0xA1, 2, 0xA3]"

definition example_ctx :: lai_ctxitem where
  "example_ctx = \<lparr>cx_amls = 0, cx_code = 0, cx_handle = 0, cx_invocation = 0\<rparr>"

lemma code_state_ctx: "in_code (code_state bs) example_ctx (int (length bs))"
  using code_state_in_code by (simp add: example_ctx_def)

theorem lai_parse_varint_roundtrip_witness:
  "lai_parse_varint (mem (exec_example [0x45, 0x12])) 0 0 2 = Some (0x125, 2)"
  using lai_parse_varint_roundtrip [of "0x125" "mem (exec_example [0x45, 0x12])" 0 0 2] code_at_example [of "[0x45, 0x12]"]
  by (simp add: varint_code_def)

theorem lai_exec_if_else_witness:
  "\<forall>env. \<exists>st1 s1. lai_exec_parse env LAI_EXEC_MODE (machine (code_state if_example) 0 [SPopulate] []) (exec_example if_example) = Some (LAI_ERROR_NONE, st1, s1) \<and>
    (exec_step env)\<^sup>*\<^sup>* (st1, s1) (machine (nested (code_state if_example) 7 4) 3 [SPopulate, SCond 0 True True 6 7] [], exec_example if_example)"
proof
  fix env
  have c: "if_code 3 (EConstant ONE_OP) [0xA3] 2 [0xA3] = if_example"
    by (simp add: if_code_def varint_code_def if_example_def aml_opcodes)
  have v: "expr_value (EConstant ONE_OP) = Some 1" by (simp add: constant_value_def aml_opcodes)
  have b: "length (st_items (blkstack (code_state if_example))) < st_capacity (blkstack (code_state if_example))"
    by (simp add: code_state_def lai_init_state_def LAI_SMALL_BLKSTACK_SIZE_def)
  have "code_at (mem (exec_example if_example)) (cx_code example_ctx) 0 if_example"
    using code_at_example [of if_example] by (simp add: if_example_def example_ctx_def)
  then show "\<exists>st1 s1. lai_exec_parse env LAI_EXEC_MODE (machine (code_state if_example) 0 [SPopulate] []) (exec_example if_example) = Some (LAI_ERROR_NONE, st1, s1) \<and>
      (exec_step env)\<^sup>*\<^sup>* (st1, s1) (machine (nested (code_state if_example) 7 4) 3 [SPopulate, SCond 0 True True 6 7] [], exec_example if_example)"
    using lai_exec_if_else [OF code_state_ctx [of if_example], of 0 "exec_example if_example" 3 "EConstant ONE_OP" "[0xA3]" 2 "[0xA3]" "[SPopulate]" "[]" 1 env] v b
    by (simp add: c) (simp add: if_example_def if_sizes_def varint_code_def aml_opcodes)
qed

theorem lai_exec_continue_diverges_witness:
  "\<forall>env. lai_exec_run env (machine (code_state [0x9F]) 0 [SPopulate, SLoop 0 True 0] []) (exec_example [0x9F]) = None"
  using lai_exec_continue_diverges [OF code_state_ctx [of "[0x9F]"], of 0 "exec_example [0x9F]" _ "[SPopulate]" 0 0 "[]"]
  by (simp add: code_byte_def load8_def example_ctx_def)

end
