(* ===== verification/LaiBios.thy ===== *)
theory LaiBios
  imports LaiNs LaiResource
begin

text \<open>
  \<open>helpers/pc-bios.c\<close>: the search for the root system description pointer in the memory of a PC BIOS, on the
  \<open>laihost_map\<close> of this kernel, which maps whole pages and returns the start of the first one.
\<close>

subsection \<open>The search\<close>

record lai_rsdp_info =
  acpi_version :: u32
  rsdp_address :: u64
  rsdt_address :: u64
  xsdt_address :: u64

definition sizeof_acpi_rsdp :: nat where "sizeof_acpi_rsdp = 20"
definition sizeof_acpi_xsdp :: nat where "sizeof_acpi_xsdp = 33"

definition lai_bios_calc_checksum :: "mem \<Rightarrow> addr \<Rightarrow> nat \<Rightarrow> u8" where
  "lai_bios_calc_checksum m p n = fold (\<lambda>i acc. acc + load8 m (p + of_nat i)) [0..<n] 0"

definition rsdp_signature :: "u8 list" where "rsdp_signature = map of_char ''RSD PTR ''"

definition has_signature :: "mem \<Rightarrow> addr \<Rightarrow> bool" where
  "has_signature m p \<longleftrightarrow> map (\<lambda>i. load8 m (p + of_nat i)) [0..<8] = rsdp_signature"

definition rsdp_revision :: "mem \<Rightarrow> addr \<Rightarrow> u8" where "rsdp_revision m p = load8 m (p + 15)"

text \<open>The loop over the candidates; the address of a candidate is noted before its extended checksum is tested.\<close>

partial_function (option) detect_loop :: "mem \<Rightarrow> addr \<Rightarrow> addr \<Rightarrow> u64 \<Rightarrow> u64 \<Rightarrow> lai_rsdp_info \<Rightarrow> (lai_api_error \<times> lai_rsdp_info) option" where
  "detect_loop m base window len off info =
     (if off < len
      then let p = window + off
           in if \<not> has_signature m p \<or> lai_bios_calc_checksum m p sizeof_acpi_rsdp \<noteq> 0
              then detect_loop m base window len (off + 16) info
              else let info = info\<lparr>rsdp_address := base + off\<rparr>
                in if rsdp_revision m p = 0
                   then Some (LAI_ERROR_NONE, info\<lparr>acpi_version := 1, rsdt_address := ucast (load32 m (p + 16)), xsdt_address := 0\<rparr>)
                   else if lai_bios_calc_checksum m p sizeof_acpi_xsdp \<noteq> 0
                   then detect_loop m base window len (off + 16) info
                   else Some (LAI_ERROR_NONE, info\<lparr>acpi_version := 2, rsdt_address := 0, xsdt_address := load64 m (p + 24)\<rparr>)
      else Some (LAI_ERROR_END_REACHED, info))"

definition lai_bios_detect_rsdp_within :: "u64 \<Rightarrow> u64 \<Rightarrow> lai_rsdp_info \<Rightarrow> 'a vmm_scheme \<Rightarrow>
    (lai_api_error \<times> lai_rsdp_info \<times> 'a vmm_scheme) option" where
  "lai_bios_detect_rsdp_within base len info s = do {
     (window, s) \<leftarrow> laihost_map base len s;
     (e, info) \<leftarrow> detect_loop (mem s) base window len 0 info;
     Some (e, info, laihost_unmap window len s) }"

definition lai_bios_detect_rsdp :: "lai_rsdp_info \<Rightarrow> 'a vmm_scheme \<Rightarrow> (lai_api_error \<times> lai_rsdp_info \<times> 'a vmm_scheme) option" where
  "lai_bios_detect_rsdp info s = do {
     (bda_window, s) \<leftarrow> laihost_map 0x40E 2 s;
     let bda_data = load16 (mem s) bda_window;
     let s = laihost_unmap bda_window 2 s;
     let ebda_base = (push_bit 4 (ucast bda_data) :: u64);
     (e, info, s) \<leftarrow> lai_bios_detect_rsdp_within ebda_base 0x400 info s;
     if e = LAI_ERROR_NONE then Some (LAI_ERROR_NONE, info, s)
     else if e \<noteq> LAI_ERROR_END_REACHED then None
     else do {
       (e, info, s) \<leftarrow> lai_bios_detect_rsdp_within 0xE0000 0x20000 info s;
       if e = LAI_ERROR_NONE then Some (LAI_ERROR_NONE, info, s)
       else if e \<noteq> LAI_ERROR_END_REACHED then None
       else Some (LAI_ERROR_END_REACHED, info, s) } }"

subsection \<open>The first valid candidate\<close>

definition valid_rsdp :: "mem \<Rightarrow> addr \<Rightarrow> bool" where
  "valid_rsdp m p \<longleftrightarrow> has_signature m p \<and> lai_bios_calc_checksum m p sizeof_acpi_rsdp = 0 \<and>
     (rsdp_revision m p = 0 \<or> lai_bios_calc_checksum m p sizeof_acpi_xsdp = 0)"

text \<open>What is reported of the valid pointer at an address of the window.\<close>

definition reports :: "mem \<Rightarrow> addr \<Rightarrow> u64 \<Rightarrow> lai_rsdp_info \<Rightarrow> bool" where
  "reports m p a info \<longleftrightarrow> rsdp_address info = a \<and>
     (if rsdp_revision m p = 0 then acpi_version info = 1 \<and> rsdt_address info = ucast (load32 m (p + 16)) \<and> xsdt_address info = 0
      else acpi_version info = 2 \<and> rsdt_address info = 0 \<and> xsdt_address info = load64 m (p + 24))"

definition candidates :: "nat \<Rightarrow> nat \<Rightarrow> nat list" where
  "candidates i len = map (\<lambda>k. 16 * k) [i..<(len + 15) div 16]"

lemma candidates_step:
  "16 * i < len \<Longrightarrow> candidates i len = 16 * i # candidates (Suc i) len"
  "\<not> 16 * i < len \<Longrightarrow> candidates i len = []"
  by (simp_all add: candidates_def upt_rec)

lemma detect_loop_first:
  assumes "unat len \<le> 2 ^ 64 - 16" "16 * i \<le> unat len + 15"
  shows "\<exists>e info'. detect_loop m base window len (of_nat (16 * i)) info = Some (e, info') \<and>
    (case find (\<lambda>k. valid_rsdp m (window + of_nat k)) (candidates i (unat len)) of
       None \<Rightarrow> e = LAI_ERROR_END_REACHED
     | Some k \<Rightarrow> e = LAI_ERROR_NONE \<and> reports m (window + of_nat k) (base + of_nat k) info')"
  using assms(2)
proof (induction "unat len + 16 - 16 * i" arbitrary: i info rule: less_induct)
  case less
  let ?off = "of_nat (16 * i) :: u64" and ?p = "window + of_nat (16 * i)"
  have off: "unat ?off = 16 * i" using less.prems assms(1)
    by (subst unat_of_nat_eq) simp_all
  have suc: "?off + 16 = of_nat (16 * Suc i)" by simp
  show ?case
  proof (cases "16 * i < unat len")
    case False
    then have "\<not> ?off < len" using off by (simp add: word_less_nat_alt)
    then show ?thesis using False by (subst detect_loop.simps) (simp add: candidates_step)
  next
    case True
    then have lt: "?off < len" using off by (simp add: word_less_nat_alt)
    have IH: "\<exists>e info'. detect_loop m base window len (of_nat (16 * Suc i)) info = Some (e, info') \<and>
        (case find (\<lambda>k. valid_rsdp m (window + of_nat k)) (candidates (Suc i) (unat len)) of
           None \<Rightarrow> e = LAI_ERROR_END_REACHED
         | Some k \<Rightarrow> e = LAI_ERROR_NONE \<and> reports m (window + of_nat k) (base + of_nat k) info')" for info
      using True less.prems by (intro less.hyps) auto
    show ?thesis
    proof (cases "valid_rsdp m ?p")
      case valid: True
      then show ?thesis
        using lt True by (subst detect_loop.simps) (auto simp: candidates_step valid_rsdp_def reports_def Let_def)
    next
      case False
      then have "\<exists>info'. detect_loop m base window len ?off info = detect_loop m base window len (?off + 16) info'"
        using lt by (subst detect_loop.simps) (auto simp: valid_rsdp_def Let_def)
      then obtain info1 where "detect_loop m base window len ?off info = detect_loop m base window len (of_nat (16 * Suc i)) info1"
        unfolding suc by blast
      moreover have "find (\<lambda>k. valid_rsdp m (window + of_nat k)) (candidates i (unat len)) =
          find (\<lambda>k. valid_rsdp m (window + of_nat k)) (candidates (Suc i) (unat len))"
        using False by (simp add: candidates_step(1) [OF True])
      ultimately show ?thesis using IH [of info1] by simp
    qed
  qed
qed




text \<open>
  The window starts at a page boundary, not at the address that was asked for: the word of the BIOS data area is read at
  address 0 instead of \<open>0x40E\<close>, and what is found in the window of an area that starts inside a page is reported with the
  offset of that area added.
\<close>

theorem laihost_map_window: "laihost_map base cnt s = Some (window, s1) \<Longrightarrow> window = base AND NOT 0xFFF"
  by (auto simp: laihost_map_def Let_def bind_eq_Some_conv)

text \<open>A memory with the page tables for the first two megabytes in place and a pointer of version 1 at \<open>0x5020\<close>.\<close>

definition rsdp_bytes :: "u8 list" where
  "rsdp_bytes = rsdp_signature @ [0x42] @ map of_char ''BOCHS '' @ [0] @ [0x00, 0x00, 0x10, 0x00]"

definition bios_example :: vmm where
  "bios_example = \<lparr>mem = store_list (store_list (store_list (store_list (\<lambda>_. 0) 0x1000 [3, 0x20]) 0x2000 [3, 0x30]) 0x3000 [3, 0x40]) 0x5020 rsdp_bytes,
     kMemory = kMemory pmm_example, last_requested = 0, kPML4 = 0x1000\<rparr>"


declare request_scan.simps [code] map_pages.simps [code] detect_loop.simps [code]

definition bios_mapped :: "addr \<times> vmm" where
  "bios_mapped = (case laihost_map 0x5000 0x40 bios_example of Some r \<Rightarrow> r | None \<Rightarrow> (0, bios_example))"


end
