(* ===== verification/LaiDevices.thy ===== *)
theory LaiDevices
  imports LaiMachine LaiResource LaiEval
begin

text \<open>
  What the interpreter does with the devices of the namespace: the test for an identifier and the creation of the namespace
  (\<open>core/ns.c\<close>), the place of an operation region in configuration space (\<open>core/opregion.c\<close>), the search for buses and
  devices and the interrupt routing of \<open>helpers/pci.c\<close>, and \<open>lai_read_resource\<close> of \<open>helpers/resource.c\<close>.  All of them
  evaluate objects of the namespace with \<open>lai_eval\<close>; a variable or a state with a cleanup attribute is finalised
  wherever its scope is left.  Log output is left out.
\<close>

subsection \<open>Evaluation into an empty variable\<close>

definition path_of :: "string \<Rightarrow> u8 list" where "path_of cs = map of_char cs"

definition eval_new :: "('d, 'a) env \<Rightarrow> addr \<Rightarrow> lai_state \<Rightarrow> ('d, 'a) lai_exec_state_scheme \<Rightarrow>
    (lai_api_error \<times> lai_variable \<times> lai_state \<times> ('d, 'a) lai_exec_state_scheme) option" where
  "eval_new env handle st s = do {
     (e, r, st, s) \<leftarrow> lai_eval env (Some VNone) handle st s;
     Some (e, case r of Some v \<Rightarrow> v | None \<Rightarrow> VNone, st, s) }"

subsection \<open>Identifiers of devices\<close>

text \<open>The first result is whether the C function returns 1, that is, the device does not have the identifier.\<close>

definition same_id :: "heads \<Rightarrow> lai_variable \<Rightarrow> lai_variable \<Rightarrow> bool option" where
  "same_id hs a b = (case (a, b) of
     (VInteger i, VInteger j) \<Rightarrow> Some (i = j)
   | (VString _, VString _) \<Rightarrow> do { x \<leftarrow> string_of_object hs a; y \<leftarrow> string_of_object hs b; Some (x = y) }
   | _ \<Rightarrow> Some False)"

definition device_hid :: "('d, 'a) env \<Rightarrow> addr \<Rightarrow> lai_state \<Rightarrow> ('d, 'a) lai_exec_state_scheme \<Rightarrow>
    (lai_variable \<times> lai_state \<times> ('d, 'a) lai_exec_state_scheme) option" where
  "device_hid env dv st s = do {
     hid_handle \<leftarrow> lai_resolve_path s dv (path_of ''_HID'');
     if hid_handle = 0 then Some (VNone, st, s)
     else do {
       (e, v, st, s) \<leftarrow> eval_new env hid_handle st s;
       if e = LAI_ERROR_NONE \<and> v = VNone then None else Some (v, st, s) } }"

definition lai_check_device_pnp_id :: "('d, 'a) env \<Rightarrow> addr \<Rightarrow> lai_variable \<Rightarrow> lai_state \<Rightarrow> ('d, 'a) lai_exec_state_scheme \<Rightarrow>
    (bool \<times> lai_state \<times> ('d, 'a) lai_exec_state_scheme) option" where
  "lai_check_device_pnp_id env dv pnp_id st s = do {
     (ident, st, s) \<leftarrow> device_hid env dv st s;
     (failed, ident, st, s) \<leftarrow> (if ident \<noteq> VNone then Some (False, ident, st, s)
       else do {
         cid_handle \<leftarrow> lai_resolve_path s dv (path_of ''_CID'');
         if cid_handle = 0 then Some (False, ident, st, s)
         else do {
           (e, v, st, s) \<leftarrow> eval_new env cid_handle st s;
           if e \<noteq> LAI_ERROR_NONE then Some (True, v, st, s)
           else if v = VNone then None else Some (False, v, st, s) } });
     if failed then Some (True, st, s)
     else do {
       same \<leftarrow> same_id (head_at s) ident pnp_id;
       s \<leftarrow> finalize_list [ident] s;
       Some (\<not> same, st, s) } }"

subsection \<open>Operation regions in configuration space\<close>

definition ACPI_PCI_ROOT_BUS_PNP_ID :: string where "ACPI_PCI_ROOT_BUS_PNP_ID = ''PNP0A03''"
definition ACPI_PCIE_ROOT_BUS_PNP_ID :: string where "ACPI_PCIE_ROOT_BUS_PNP_ID = ''PNP0A08''"

text \<open>The second test is only made when the first returned 0.\<close>

partial_function (option) climb_to_root_bus :: "('d, 'a) env \<Rightarrow> lai_variable \<Rightarrow> lai_variable \<Rightarrow> addr \<Rightarrow> lai_state \<Rightarrow>
    ('d, 'a) lai_exec_state_scheme \<Rightarrow> (addr \<times> lai_state \<times> ('d, 'a) lai_exec_state_scheme) option" where
  "climb_to_root_bus env pci_id pcie_id node st s =
     (if node = 0 then Some (0, st, s)
      else do {
        (differs, st, s) \<leftarrow> lai_check_device_pnp_id env node pci_id st s;
        (found, st, s) \<leftarrow> (if differs then Some (True, st, s) else lai_check_device_pnp_id env node pcie_id st s);
        if found then Some (node, st, s) else climb_to_root_bus env pci_id pcie_id (lai_ns_get_parent s node) st s })"

definition lai_find_parent_root_of :: "('d, 'a) env \<Rightarrow> addr \<Rightarrow> lai_state \<Rightarrow> ('d, 'a) lai_exec_state_scheme \<Rightarrow>
    (addr \<times> lai_state \<times> ('d, 'a) lai_exec_state_scheme) option" where
  "lai_find_parent_root_of env node st s = do {
     (pci_id, s) \<leftarrow> lai_eisaid VNone (path_of ACPI_PCI_ROOT_BUS_PNP_ID) s;
     (pcie_id, s) \<leftarrow> lai_eisaid VNone (path_of ACPI_PCIE_ROOT_BUS_PNP_ID) s;
     (found, st, s) \<leftarrow> climb_to_root_bus env pci_id pcie_id node st s;
     s \<leftarrow> finalize_list [pcie_id, pci_id] s;
     Some (found, st, s) }"

text \<open>A number that is looked up from a scope outwards; without such an object the default 0 of the callers stands.\<close>

definition scope_number :: "('d, 'a) env \<Rightarrow> addr \<Rightarrow> string \<Rightarrow> lai_state \<Rightarrow> ('d, 'a) lai_exec_state_scheme \<Rightarrow>
    (u64 \<times> lai_variable \<times> lai_state \<times> ('d, 'a) lai_exec_state_scheme) option" where
  "scope_number env scope nm st s = do {
     handle \<leftarrow> lai_resolve_search s scope (path_of nm);
     if handle = 0 then Some (0, VNone, st, s)
     else do {
       (e, v, st, s) \<leftarrow> eval_new env handle st s;
       if e \<noteq> LAI_ERROR_NONE then None
       else do { i \<leftarrow> var_integer v; Some (i, v, st, s) } } }"

definition lai_get_pci_params :: "('d, 'a) env \<Rightarrow> addr \<Rightarrow> ('d, 'a) lai_exec_state_scheme \<Rightarrow>
    ((u64 \<times> u64 \<times> u64) \<times> ('d, 'a) lai_exec_state_scheme) option" where
  "lai_get_pci_params env opregion s = do {
     let st = lai_init_state;
     let dv = lai_ns_get_parent s opregion;
     let b = lai_ns_get_parent s dv;
     if dv = 0 \<or> b = 0 then None
     else do {
       (root_bus, st, s) \<leftarrow> lai_find_parent_root_of env b st s;
       if root_bus = 0 then None
       else do {
         (sg, v1, st, s) \<leftarrow> scope_number env root_bus ''_SEG'' st s;
         (bbn, v2, st, s) \<leftarrow> scope_number env root_bus ''_BBN'' st s;
         (adr, v3, st, s) \<leftarrow> scope_number env opregion ''_ADR'' st s;
         s \<leftarrow> lai_finalize_state st s;
         s \<leftarrow> finalize_list [v3, v1, v2] s;
         Some ((sg, bbn, adr), s) } } }"

text \<open>
  The evaluation may itself access a region in configuration space.  The host of the interpreter with at most \<open>n\<close> such
  accesses inside one another: in the innermost the parameters have no result.
\<close>

fun nested_env :: "nat \<Rightarrow> ('d, 'a) env \<Rightarrow> ('d, 'a) env" where
  "nested_env 0 env = env\<lparr>xe_region := (xe_region env)\<lparr>pci_params := (\<lambda>_ _. None)\<rparr>\<rparr>"
| "nested_env (Suc n) env = env\<lparr>xe_region := (xe_region env)\<lparr>pci_params := lai_get_pci_params (nested_env n env)\<rparr>\<rparr>"

subsection \<open>Buses and devices\<close>

text \<open>An address object that is not an integer leaves the C variable without a value (no result).\<close>

partial_function (option) find_device_loop :: "('d, 'a) env \<Rightarrow> addr \<Rightarrow> u64 \<Rightarrow> nat \<Rightarrow> lai_state \<Rightarrow> ('d, 'a) lai_exec_state_scheme \<Rightarrow>
    (addr \<times> lai_state \<times> ('d, 'a) lai_exec_state_scheme) option" where
  "find_device_loop env b device_adr i st s =
     (case lai_ns_child_iterate s b i of (node, i) \<Rightarrow>
      if node = 0 then Some (0, st, s)
      else do {
        adr_handle \<leftarrow> lai_resolve_path s node (path_of ''_ADR'');
        if adr_handle = 0 then find_device_loop env b device_adr i st s
        else do {
          (e, v, st, s) \<leftarrow> eval_new env adr_handle st s;
          if e \<noteq> LAI_ERROR_NONE then do { s \<leftarrow> finalize_list [v] s; find_device_loop env b device_adr i st s }
          else (case lai_obj_get_integer v of Inl _ \<Rightarrow> None
            | Inr adr_result \<Rightarrow> do {
                s \<leftarrow> finalize_list [v] s;
                if adr_result = device_adr then Some (node, st, s) else find_device_loop env b device_adr i st s }) } })"

definition lai_pci_find_device :: "('d, 'a) env \<Rightarrow> addr \<Rightarrow> u8 \<Rightarrow> u8 \<Rightarrow> lai_state \<Rightarrow> ('d, 'a) lai_exec_state_scheme \<Rightarrow>
    (addr \<times> lai_state \<times> ('d, 'a) lai_exec_state_scheme) option" where
  "lai_pci_find_device env b sl func st s =
     (if b = 0 then None else find_device_loop env b (push_bit 16 (ucast sl) OR ucast func) 0 st s)"

text \<open>The number an object below a bus evaluates to: \<open>None\<close> when the evaluation fails, 0 without an object or an integer.\<close>

definition bus_number :: "('d, 'a) env \<Rightarrow> addr \<Rightarrow> string \<Rightarrow> lai_state \<Rightarrow> ('d, 'a) lai_exec_state_scheme \<Rightarrow>
    (u64 option \<times> lai_variable \<times> lai_state \<times> ('d, 'a) lai_exec_state_scheme) option" where
  "bus_number env node nm st s = do {
     handle \<leftarrow> lai_resolve_path s node (path_of nm);
     if handle = 0 then Some (Some 0, VNone, st, s)
     else do {
       (e, v, st, s) \<leftarrow> eval_new env handle st s;
       if e \<noteq> LAI_ERROR_NONE then Some (None, v, st, s)
       else Some (Some (case lai_obj_get_integer v of Inl _ \<Rightarrow> 0 | Inr i \<Rightarrow> i), v, st, s) } }"

text \<open>Whether a node is the bus that is looked for.\<close>

definition is_bus :: "('d, 'a) env \<Rightarrow> lai_variable \<Rightarrow> lai_variable \<Rightarrow> u16 \<Rightarrow> u8 \<Rightarrow> addr \<Rightarrow> lai_state \<Rightarrow> ('d, 'a) lai_exec_state_scheme \<Rightarrow>
    (bool \<times> lai_state \<times> ('d, 'a) lai_exec_state_scheme) option" where
  "is_bus env pci_id pcie_id sg b node st s = do {
     (differs, st, s) \<leftarrow> lai_check_device_pnp_id env node pci_id st s;
     (differs, st, s) \<leftarrow> (if differs then lai_check_device_pnp_id env node pcie_id st s else Some (False, st, s));
     if differs then Some (False, st, s)
     else do {
       (bbn, v1, st, s) \<leftarrow> bus_number env node ''_BBN'' st s;
       if bbn = None then do { s \<leftarrow> finalize_list [v1] s; Some (False, st, s) }
       else do {
         (sn, v2, st, s) \<leftarrow> bus_number env node ''_SEG'' st s;
         s \<leftarrow> finalize_list [v2, v1] s;
         Some (sn = Some (ucast sg) \<and> bbn = Some (ucast b), st, s) } } }"

partial_function (option) find_bus_loop :: "('d, 'a) env \<Rightarrow> lai_variable \<Rightarrow> lai_variable \<Rightarrow> u16 \<Rightarrow> u8 \<Rightarrow> addr \<Rightarrow> nat \<Rightarrow> lai_state \<Rightarrow>
    ('d, 'a) lai_exec_state_scheme \<Rightarrow> (addr \<times> lai_state \<times> ('d, 'a) lai_exec_state_scheme) option" where
  "find_bus_loop env pci_id pcie_id sg b sb i st s =
     (case lai_ns_child_iterate s sb i of (node, i) \<Rightarrow>
      if node = 0 then Some (0, st, s)
      else do {
        (found, st, s) \<leftarrow> is_bus env pci_id pcie_id sg b node st s;
        if found then Some (node, st, s) else find_bus_loop env pci_id pcie_id sg b sb i st s })"

definition lai_pci_find_bus :: "('d, 'a) env \<Rightarrow> u16 \<Rightarrow> u8 \<Rightarrow> lai_state \<Rightarrow> ('d, 'a) lai_exec_state_scheme \<Rightarrow>
    (addr \<times> lai_state \<times> ('d, 'a) lai_exec_state_scheme) option" where
  "lai_pci_find_bus env sg b st s = do {
     (pci_id, s) \<leftarrow> lai_eisaid VNone (path_of ACPI_PCI_ROOT_BUS_PNP_ID) s;
     (pcie_id, s) \<leftarrow> lai_eisaid VNone (path_of ACPI_PCIE_ROOT_BUS_PNP_ID) s;
     sb \<leftarrow> lai_resolve_path s 0 (path_of [CHR 0x5C, CHR ''_'', CHR ''S'', CHR ''B'', CHR ''_'']);
     if sb = 0 then None
     else do {
       (node, st, s) \<leftarrow> find_bus_loop env pci_id pcie_id sg b sb 0 st s;
       s \<leftarrow> finalize_list [pcie_id, pci_id] s;
       Some (node, st, s) } }"

subsection \<open>The interrupt routing table\<close>

record lai_prt_iterator =
  it_i :: nat
  it_prt :: lai_variable
  it_slot :: int
  it_function :: int
  it_pin :: u8
  it_link :: addr
  it_resource_idx :: u64
  it_gsi :: u32
  it_level_triggered :: bool
  it_active_low :: bool

definition lai_initialize_prt_iterator :: "lai_variable \<Rightarrow> lai_prt_iterator" where
  "lai_initialize_prt_iterator prt = \<lparr>it_i = 0, it_prt = prt, it_slot = 0, it_function = 0, it_pin = 0, it_link = 0,
     it_resource_idx = 0, it_gsi = 0, it_level_triggered = False, it_active_low = False\<rparr>"

text \<open>The memory in which the content of a buffer object is found, and its address.\<close>

definition buffer_view :: "lai_variable \<Rightarrow> ('d, 'a) lai_obj_state_scheme \<Rightarrow> (addr \<times> mem) option" where
  "buffer_view v s = (case v of
     VBuffer p \<Rightarrow> map_option (\<lambda>h. (bh_content h, store_list (mem s) (bh_content h) (bh_bytes h))) (buffer_head (head_at s) p)
   | _ \<Rightarrow> None)"

text \<open>The interrupt at an index of the resources of a link device; the inner option is whether it is found.\<close>

partial_function (option) link_irq_loop :: "mem \<Rightarrow> u64 \<Rightarrow> u32 \<Rightarrow> lai_resource_view \<Rightarrow> (u32 \<times> bool \<times> bool) option option" where
  "link_irq_loop m res_index cur view = do {
     (e, view) \<leftarrow> lai_resource_iterate m view;
     if e \<noteq> LAI_ERROR_NONE then Some None
     else if ucast cur = res_index then do {
       ty \<leftarrow> lai_resource_get_type m view;
       if ty \<noteq> LAI_RESOURCE_IRQ then Some None
       else do {
         (e, view) \<leftarrow> lai_resource_next_irq m view;
         if e \<noteq> LAI_ERROR_NONE then Some None
         else do {
           level \<leftarrow> lai_resource_irq_is_level_triggered m view;
           low \<leftarrow> lai_resource_irq_is_active_low m view;
           Some (Some (rv_gsi view, level, low)) } } }
     else link_irq_loop m res_index (cur + 1) view }"

definition link_irq :: "('d, 'a) env \<Rightarrow> addr \<Rightarrow> u64 \<Rightarrow> ('d, 'a) lai_exec_state_scheme \<Rightarrow>
    ((lai_api_error + u32 \<times> bool \<times> bool) \<times> ('d, 'a) lai_exec_state_scheme) option" where
  "link_irq env link_handle res_index s = do {
     crs_handle \<leftarrow> lai_resolve_path s link_handle (path_of ''_CRS'');
     if crs_handle = 0 then do { s \<leftarrow> lai_finalize_state lai_init_state s; Some (Inl LAI_ERROR_UNEXPECTED_RESULT, s) }
     else do {
       (status, crs_buffer, st, s) \<leftarrow> eval_new env crs_handle lai_init_state s;
       r \<leftarrow> (if status \<noteq> LAI_ERROR_NONE then Some (Inl LAI_ERROR_EXECUTION_FAILURE)
         else do {
           (content, m) \<leftarrow> buffer_view crs_buffer s;
           irq \<leftarrow> link_irq_loop m res_index 0 (lai_initialize_resource_view content);
           Some (case irq of None \<Rightarrow> Inl LAI_ERROR_UNEXPECTED_RESULT | Some x \<Rightarrow> Inr x) });
       s \<leftarrow> finalize_list [crs_buffer] s;
       s \<leftarrow> lai_finalize_state st s;
       Some (r, s) } }"

text \<open>The members of an entry, as many as are there.\<close>

fun load_members :: "lai_variable \<Rightarrow> nat list \<Rightarrow> ('d, 'a) lai_exec_state_scheme \<Rightarrow>
    (bool \<times> lai_variable list \<times> ('d, 'a) lai_exec_state_scheme) option" where
  "load_members v [] s = Some (True, [], s)"
| "load_members v (i # is') s = do {
     (e, x, s) \<leftarrow> lai_obj_get_pkg v i VNone s;
     if e \<noteq> LAI_ERROR_NONE then Some (False, [], s)
     else do { (ok, xs, s) \<leftarrow> load_members v is' s; Some (ok, x # xs, s) } }"

definition prt_source :: "('d, 'a) env \<Rightarrow> lai_prt_iterator \<Rightarrow> lai_variable \<Rightarrow> lai_variable \<Rightarrow> ('d, 'a) lai_exec_state_scheme \<Rightarrow>
    (lai_api_error \<times> lai_prt_iterator \<times> ('d, 'a) lai_exec_state_scheme) option" where
  "prt_source env iter ty index s = do {
     tag \<leftarrow> lai_obj_get_type s ty;
     if tag = LAI_TYPE_INTEGER
     then (case lai_obj_get_integer index of Inl _ \<Rightarrow> Some (LAI_ERROR_UNEXPECTED_RESULT, iter, s)
       | Inr gsi \<Rightarrow> Some (LAI_ERROR_NONE, iter\<lparr>it_link := 0, it_resource_idx := 0, it_level_triggered := True, it_active_low := True,
           it_gsi := ucast gsi\<rparr>, s))
     else if tag = LAI_TYPE_DEVICE
     then do {
       h \<leftarrow> lai_obj_get_handle s ty;
       (case (h, lai_obj_get_integer index) of
          (Inr link_handle, Inr res_index) \<Rightarrow> do {
            (r, s) \<leftarrow> link_irq env link_handle res_index s;
            Some (case r of Inl e \<Rightarrow> (e, iter, s)
              | Inr (gsi, level, low) \<Rightarrow> (LAI_ERROR_NONE, iter\<lparr>it_link := link_handle, it_resource_idx := res_index, it_gsi := gsi,
                  it_level_triggered := level, it_active_low := low\<rparr>, s)) }
        | _ \<Rightarrow> Some (LAI_ERROR_UNEXPECTED_RESULT, iter, s)) }
     else Some (LAI_ERROR_TYPE_MISMATCH, iter, s) }"

definition prt_address :: "u64 \<Rightarrow> lai_prt_iterator \<Rightarrow> lai_prt_iterator" where
  "prt_address a iter = iter\<lparr>it_slot := uint (drop_bit 16 a AND 0xFFFF),
     it_function := (if a AND 0xFFFF = 0xFFFF then -1 else uint (a AND 0xFFFF))\<rparr>"

definition prt_members :: "('d, 'a) env \<Rightarrow> lai_prt_iterator \<Rightarrow> lai_variable list \<Rightarrow> ('d, 'a) lai_exec_state_scheme \<Rightarrow>
    (lai_api_error \<times> lai_prt_iterator \<times> ('d, 'a) lai_exec_state_scheme) option" where
  "prt_members env iter vs s = (case lai_obj_get_integer (vs ! 0) of
     Inl _ \<Rightarrow> Some (LAI_ERROR_UNEXPECTED_RESULT, iter, s)
   | Inr a \<Rightarrow> (let iter = prt_address a iter
       in case lai_obj_get_integer (vs ! 1) of
         Inl _ \<Rightarrow> Some (LAI_ERROR_UNEXPECTED_RESULT, iter, s)
       | Inr pin \<Rightarrow> prt_source env (iter\<lparr>it_pin := ucast pin\<rparr>) (vs ! 2) (vs ! 3) s))"

definition lai_pci_parse_prt :: "('d, 'a) env \<Rightarrow> lai_prt_iterator \<Rightarrow> ('d, 'a) lai_exec_state_scheme \<Rightarrow>
    (lai_api_error \<times> lai_prt_iterator \<times> ('d, 'a) lai_exec_state_scheme) option" where
  "lai_pci_parse_prt env iter s = do {
     (e, prt_entry, s) \<leftarrow> lai_obj_get_pkg (it_prt iter) (it_i iter) VNone s;
     if e \<noteq> LAI_ERROR_NONE then Some (LAI_ERROR_UNEXPECTED_RESULT, iter, s)
     else do {
       let iter = iter\<lparr>it_i := it_i iter + 1\<rparr>;
       (ok, vs, s) \<leftarrow> load_members prt_entry [0, 1, 2, 3] s;
       (e, iter, s) \<leftarrow> (if ok then prt_members env iter vs s else Some (LAI_ERROR_UNEXPECTED_RESULT, iter, s));
       s \<leftarrow> finalize_list (List.rev vs @ [prt_entry]) s;
       Some (e, iter, s) } }"

definition prt_hit :: "lai_prt_iterator \<Rightarrow> u8 \<Rightarrow> u8 \<Rightarrow> u8 \<Rightarrow> bool" where
  "prt_hit iter sl func pin \<longleftrightarrow> it_slot iter = uint sl \<and> (it_function iter = uint func \<or> it_function iter = -1) \<and> it_pin iter = pin"

definition prt_resource :: "lai_prt_iterator \<Rightarrow> acpi_resource" where
  "prt_resource iter = \<lparr>ar_type = ACPI_RESOURCE_IRQ, ar_base = ucast (it_gsi iter),
     ar_irq_flags = (if it_level_triggered iter then 0 else ACPI_SMALL_IRQ_EDGE_TRIGGERED) OR
       (if it_active_low iter then ACPI_SMALL_IRQ_ACTIVE_LOW else 0)\<rparr>"

partial_function (option) route_loop :: "('d, 'a) env \<Rightarrow> u8 \<Rightarrow> u8 \<Rightarrow> u8 \<Rightarrow> lai_prt_iterator \<Rightarrow> ('d, 'a) lai_exec_state_scheme \<Rightarrow>
    ((lai_api_error + acpi_resource) \<times> ('d, 'a) lai_exec_state_scheme) option" where
  "route_loop env sl func pin iter s = do {
     (err, iter, s) \<leftarrow> lai_pci_parse_prt env iter s;
     if err \<noteq> LAI_ERROR_NONE then Some (Inl err, s)
     else if prt_hit iter sl func pin then Some (Inr (prt_resource iter), s)
     else route_loop env sl func pin iter s }"

text \<open>The destination is written only on success: the result is the error code or what is written.\<close>

definition lai_pci_route_pin :: "('d, 'a) env \<Rightarrow> u16 \<Rightarrow> u8 \<Rightarrow> u8 \<Rightarrow> u8 \<Rightarrow> u8 \<Rightarrow> ('d, 'a) lai_exec_state_scheme \<Rightarrow>
    ((lai_api_error + acpi_resource) \<times> ('d, 'a) lai_exec_state_scheme) option" where
  "lai_pci_route_pin env sg b sl func pin s =
     (if pin = 0 \<or> 4 < pin then None
      else do {
        (handle, st, s) \<leftarrow> lai_pci_find_bus env sg b lai_init_state s;
        if handle = 0 then do { s \<leftarrow> lai_finalize_state st s; Some (Inl LAI_ERROR_NO_SUCH_NODE, s) }
        else do {
          prt_handle \<leftarrow> lai_resolve_path s handle (path_of ''_PRT'');
          if prt_handle = 0 then do { s \<leftarrow> lai_finalize_state st s; Some (Inl LAI_ERROR_NO_SUCH_NODE, s) }
          else do {
            (e, prt, st, s) \<leftarrow> eval_new env prt_handle st s;
            (r, s) \<leftarrow> (if e \<noteq> LAI_ERROR_NONE then Some (Inl LAI_ERROR_EXECUTION_FAILURE, s)
              else route_loop env sl func (pin - 1) (lai_initialize_prt_iterator prt) s);
            s \<leftarrow> finalize_list [prt] s;
            s \<leftarrow> lai_finalize_state st s;
            Some (r, s) } } })"

definition lai_pci_route :: "('d, 'a) env \<Rightarrow> u16 \<Rightarrow> u8 \<Rightarrow> u8 \<Rightarrow> u8 \<Rightarrow> ('d, 'a) lai_exec_state_scheme \<Rightarrow>
    (acpi_resource option \<times> ('d, 'a) lai_exec_state_scheme) option" where
  "lai_pci_route env sg b sl func s =
     (let (pin, d) = laihost_pci_readb (bus.truncate (xe_io env)) sg b sl func 0x3D (dev s); s = s\<lparr>dev := d\<rparr>
      in if pin = 0 \<or> 4 < pin then Some (None, s)
         else do {
           (r, s) \<leftarrow> lai_pci_route_pin env sg b sl func pin s;
           Some (case r of Inl _ \<Rightarrow> None | Inr x \<Rightarrow> Some x, s) })"

subsection \<open>Resources of a device\<close>

definition lai_read_resource :: "('d, 'a) env \<Rightarrow> addr \<Rightarrow> ('d, 'a) lai_exec_state_scheme \<Rightarrow>
    (acpi_resource list \<times> ('d, 'a) lai_exec_state_scheme) option" where
  "lai_read_resource env dv s = do {
     crs_handle \<leftarrow> lai_resolve_path s dv (path_of ''_CRS'');
     if crs_handle = 0 then do { s \<leftarrow> lai_finalize_state lai_init_state s; Some ([], s) }
     else do {
       (status, buffer, st, s) \<leftarrow> eval_new env crs_handle lai_init_state s;
       rs \<leftarrow> (if status \<noteq> LAI_ERROR_NONE then Some []
         else do { (content, m) \<leftarrow> buffer_view buffer s; read_resources m content [] });
       s \<leftarrow> finalize_list [buffer] s;
       s \<leftarrow> lai_finalize_state st s;
       Some (rs, s) } }"

subsection \<open>Creating the namespace\<close>

definition signature_of :: "string \<Rightarrow> u32" where
  "signature_of cs = (let b = (\<lambda>i. of_char (cs ! i) :: u32) in b 0 OR push_bit 8 (b 1) OR push_bit 16 (b 2) OR push_bit 24 (b 3))"

definition load_and_populate :: "('d, 'a) env \<Rightarrow> addr \<Rightarrow> addr \<Rightarrow> u32 \<Rightarrow> ('d, 'a) lai_exec_state_scheme \<Rightarrow>
    ('d, 'a) lai_exec_state_scheme option" where
  "load_and_populate env root table index s = do {
     (amls, s) \<leftarrow> lai_load_table table index s;
     (_, st, s) \<leftarrow> lai_populate env root amls lai_init_state s;
     lai_finalize_state st s }"

partial_function (option) populate_all :: "('d, 'a) env \<Rightarrow> addr \<Rightarrow> addr \<Rightarrow> u32 \<Rightarrow> u64 \<Rightarrow> ('d, 'a) lai_exec_state_scheme \<Rightarrow>
    ('d, 'a) lai_exec_state_scheme option" where
  "populate_all env rsdp root sig index s =
     (let table = laihost_scan rsdp sig index (mem s)
      in if table = 0 then Some s
         else do {
           s \<leftarrow> load_and_populate env root table (ucast index) s;
           populate_all env rsdp root sig (index + 1) s })"

definition lai_create_namespace :: "('d, 'a) env \<Rightarrow> addr \<Rightarrow> addr \<Rightarrow> addr \<Rightarrow> addr \<Rightarrow> ('d, 'a) lai_exec_state_scheme \<Rightarrow>
    ('d, 'a) lai_exec_state_scheme option" where
  "lai_create_namespace env rsdp osi_fn os_fn rev_fn s = do {
     let fadt = laihost_scan rsdp (signature_of ''FACP'') 0 (mem s);
     let s = s\<lparr>lai_fadt := fadt\<rparr>;
     if fadt = 0 then None
     else do {
       (root, s) \<leftarrow> lai_create_root osi_fn os_fn rev_fn s;
       let dsdt = laihost_scan rsdp (signature_of ''DSDT'') 0 (mem s);
       if dsdt = 0 then None
       else do {
         s \<leftarrow> load_and_populate env root dsdt 0 s;
         s \<leftarrow> populate_all env rsdp root (signature_of ''SSDT'') 0 s;
         populate_all env rsdp root (signature_of ''PSDT'') 0 s } } }"

subsection \<open>Routing by the table\<close>

text \<open>
  A routing table whose entries route to an interrupt directly: the package of the table holds packages of four integers,
  the address, the pin, a source without meaning and the interrupt.
\<close>

definition direct_entry :: "heads \<Rightarrow> addr \<Rightarrow> u64 \<times> u64 \<times> u64 \<Rightarrow> bool" where
  "direct_entry hs q x \<longleftrightarrow> (\<exists>h z. hs q = Some (HPkg h) \<and> 0 < ph_rc h \<and> ph_size h = 4 \<and>
     ph_elems h = [VInteger (fst x), VInteger (fst (snd x)), VInteger z, VInteger (snd (snd x))])"

definition routing_table :: "heads \<Rightarrow> addr \<Rightarrow> (u64 \<times> u64 \<times> u64) list \<Rightarrow> bool" where
  "routing_table hs p es \<longleftrightarrow> (\<exists>h. hs p = Some (HPkg h) \<and> length (ph_elems h) = length es \<and> unat (ph_size h) = length es \<and>
     (\<forall>i < length es. \<exists>q. ph_elems h ! i = VPackage q \<and> direct_entry hs q (es ! i)))"

text \<open>Whether an entry is for a pin (counted from 0) of a function: the function \<open>0xFFFF\<close> stands for all of them.\<close>

definition routes :: "u8 \<Rightarrow> u8 \<Rightarrow> u8 \<Rightarrow> u64 \<times> u64 \<times> u64 \<Rightarrow> bool" where
  "routes sl func pin x \<longleftrightarrow> drop_bit 16 (fst x) AND 0xFFFF = ucast sl \<and>
     (fst x AND 0xFFFF = ucast func \<or> fst x AND 0xFFFF = 0xFFFF) \<and> ucast (fst (snd x)) = pin"

lemma prt_address_hit:
  "it_slot (prt_address a iter) = uint (sl :: u8) \<longleftrightarrow> drop_bit 16 a AND 0xFFFF = ucast sl"
  "it_function (prt_address a iter) = uint (func :: u8) \<or> it_function (prt_address a iter) = -1 \<longleftrightarrow>
     a AND 0xFFFF = ucast func \<or> a AND 0xFFFF = 0xFFFF"
proof -
  have eq: "uint (x :: u64) = uint (b :: u8) \<longleftrightarrow> x = ucast b" for x b
    using uint_lt2p [of b] by (simp add: word_uint_eq_iff unsigned_ucast_eq take_bit_int_eq_self)
  have nneg: "uint (x :: u64) \<noteq> -1" for x using uint_ge_0 [of x] by linarith
  have "ucast func \<noteq> (0xFFFF :: u64)"
  proof
    assume "ucast func = (0xFFFF :: u64)"
    then have "uint (ucast func :: u64) = 0xFFFF" by simp
    then show False using uint_lt2p [of func] by (simp add: unsigned_ucast_eq take_bit_int_eq_self)
  qed
  then show "it_slot (prt_address a iter) = uint (sl :: u8) \<longleftrightarrow> drop_bit 16 a AND 0xFFFF = ucast sl"
    "it_function (prt_address a iter) = uint (func :: u8) \<or> it_function (prt_address a iter) = -1 \<longleftrightarrow>
     a AND 0xFFFF = ucast func \<or> a AND 0xFFFF = 0xFFFF"
    using nneg by (auto simp: prt_address_def eq)
qed

lemma release_entry:
  assumes "hs q = Some (HPkg h)" "0 < ph_rc h" "list_all (\<lambda>v. counted v = None) vs"
  shows "release (vs @ [VPackage q]) (hs(q \<mapsto> HPkg (h\<lparr>ph_rc := ph_rc h + 1\<rparr>))) = Some (hs, [])"
  using assms(3)
proof (induction vs)
  case Nil
  then show ?case using assms(1,2)
    by (auto simp: release.simps counted_head_def lai_rc_unref_def)
next
  case (Cons v vs)
  then show ?case by (subst release.simps) (simp del: fun_upd_apply)
qed

lemma load_plain:
  assumes "pkg_head (head_at s) p = Some h" "i < unat (ph_size h)" "i < length (ph_elems h)" "counted (ph_elems h ! i) = None"
  shows "lai_obj_get_pkg (VPackage p) i VNone s = Some (LAI_ERROR_NONE, ph_elems h ! i, s)"
  using assms by (simp add: lai_obj_get_pkg_def lai_exec_pkg_size_def lai_exec_pkg_load_def lai_exec_pkg_var_load_def)

lemma parse_direct_entry:
  assumes T: "routing_table (head_at s) p es" and i: "it_prt iter = VPackage p" "it_i iter < length es"
  shows "\<exists>iter'. lai_pci_parse_prt env iter s = Some (LAI_ERROR_NONE, iter', s) \<and> it_i iter' = it_i iter + 1 \<and> it_prt iter' = VPackage p \<and>
    (prt_hit iter' sl func pin \<longleftrightarrow> routes sl func pin (es ! it_i iter)) \<and>
    prt_resource iter' = \<lparr>ar_type = ACPI_RESOURCE_IRQ, ar_base = take_bit 32 (snd (snd (es ! it_i iter))), ar_irq_flags = ACPI_SMALL_IRQ_ACTIVE_LOW\<rparr>"
proof -
  obtain h q where h: "head_at s p = Some (HPkg h)" "length (ph_elems h) = length es" "unat (ph_size h) = length es"
      "ph_elems h ! it_i iter = VPackage q" "direct_entry (head_at s) q (es ! it_i iter)"
    using T i(2) by (auto simp: routing_table_def)
  obtain a pn g where x: "es ! it_i iter = (a, pn, g)" by (cases "es ! it_i iter")
  obtain e z where e: "head_at s q = Some (HPkg e)" "0 < ph_rc e" "ph_size e = 4" "ph_elems e = [VInteger a, VInteger pn, VInteger z, VInteger g]"
    using h(5) x by (auto simp: direct_entry_def)
  let ?s = "s\<lparr>head_at := (head_at s)(q \<mapsto> HPkg (e\<lparr>ph_rc := ph_rc e + 1\<rparr>))\<rparr>"
  have get: "lai_obj_get_pkg (VPackage p) (it_i iter) VNone s = Some (LAI_ERROR_NONE, VPackage q, ?s)"
    using h e i by (simp add: lai_obj_get_pkg_def lai_exec_pkg_size_def lai_exec_pkg_load_def lai_exec_pkg_var_load_def pkg_head_def
      lai_var_assign_def add_ref_def counted_head_def lai_rc_ref_def)
  have hq: "pkg_head (head_at ?s) q = Some (e\<lparr>ph_rc := ph_rc e + 1\<rparr>)" by (simp add: pkg_head_def)
  have members: "load_members (VPackage q) [0, 1, 2, 3] ?s = Some (True, [VInteger a, VInteger pn, VInteger z, VInteger g], ?s)"
    using e load_plain [OF hq, of 0] load_plain [OF hq, of 1] load_plain [OF hq, of 2] load_plain [OF hq, of 3] by simp
  have fin: "finalize_list [VInteger g, VInteger z, VInteger pn, VInteger a, VPackage q] ?s = Some s"
    using release_entry [of "head_at s" q e "[VInteger g, VInteger z, VInteger pn, VInteger a]"] e(1,2) by (simp add: finalize_list_def)
  let ?iter = "(prt_address a (iter\<lparr>it_i := it_i iter + 1\<rparr>))\<lparr>it_pin := ucast pn, it_link := 0, it_resource_idx := 0,
    it_level_triggered := True, it_active_low := True, it_gsi := ucast g\<rparr>"
  have "lai_pci_parse_prt env iter s = Some (LAI_ERROR_NONE, ?iter, s)"
    using get members fin i(1)
    by (simp add: lai_pci_parse_prt_def prt_members_def prt_source_def lai_obj_get_integer_def lai_obj_get_type_def lai_object_type_of_objref_def
      Let_def del: load_members.simps)
  moreover have "prt_hit ?iter sl func pin \<longleftrightarrow> routes sl func pin (a, pn, g)"
    using prt_address_hit(1) [of a "iter\<lparr>it_i := it_i iter + 1\<rparr>" sl] prt_address_hit(2) [of a "iter\<lparr>it_i := it_i iter + 1\<rparr>" func]
    by (auto simp: prt_hit_def routes_def)
  moreover have "prt_resource ?iter = \<lparr>ar_type = ACPI_RESOURCE_IRQ, ar_base = take_bit 32 g, ar_irq_flags = ACPI_SMALL_IRQ_ACTIVE_LOW\<rparr>"
    by (simp add: prt_resource_def) (rule bit_word_eqI, auto simp: bit_simps)
  ultimately show ?thesis using x i(1) by (auto simp: prt_address_def)
qed

lemma route_loop_find:
  assumes T: "routing_table (head_at s) p es" and "it_prt iter = VPackage p" "it_i iter \<le> length es"
  shows "route_loop env sl func pin iter s = Some (case find (routes sl func pin) (List.drop (it_i iter) es) of
      Some x \<Rightarrow> Inr \<lparr>ar_type = ACPI_RESOURCE_IRQ, ar_base = take_bit 32 (snd (snd x)), ar_irq_flags = ACPI_SMALL_IRQ_ACTIVE_LOW\<rparr>
    | None \<Rightarrow> Inl LAI_ERROR_UNEXPECTED_RESULT, s)"
  using assms(2,3)
proof (induction "length es - it_i iter" arbitrary: iter)
  case 0
  then have "lai_obj_get_pkg (VPackage p) (it_i iter) VNone s = Some (LAI_ERROR_OUT_OF_BOUNDS, VNone, s)"
    using T by (auto simp: routing_table_def lai_obj_get_pkg_def lai_exec_pkg_size_def pkg_head_def)
  then show ?case using 0 by (subst route_loop.simps) (simp add: lai_pci_parse_prt_def)
next
  case (Suc n)
  then have lt: "it_i iter < length es" by simp
  obtain iter' where i: "lai_pci_parse_prt env iter s = Some (LAI_ERROR_NONE, iter', s)" "it_i iter' = it_i iter + 1" "it_prt iter' = VPackage p"
    "prt_hit iter' sl func pin \<longleftrightarrow> routes sl func pin (es ! it_i iter)"
    "prt_resource iter' = \<lparr>ar_type = ACPI_RESOURCE_IRQ, ar_base = take_bit 32 (snd (snd (es ! it_i iter))), ar_irq_flags = ACPI_SMALL_IRQ_ACTIVE_LOW\<rparr>"
    using parse_direct_entry [OF T Suc.prems(1) lt, of env sl func pin] by blast
  have d: "List.drop (it_i iter) es = es ! it_i iter # List.drop (it_i iter + 1) es" using lt by (simp add: Cons_nth_drop_Suc)
  have "n = length es - it_i iter'" "it_i iter' \<le> length es" using Suc.hyps(2) lt i(2) by simp_all
  from Suc.hyps(1) [OF this(1) i(3) this(2)] show ?case
    using i d by (subst route_loop.simps) simp
qed

text \<open>C37: Searching a routing table of direct entries ends, takes the first entry for the slot, the function and the pin, and
  gives its interrupt, level triggered and active low; without such an entry the result is an error.  The objects of the
  table have the reference counts they had.
\<close>

theorem lai_pci_route_first:
  assumes "routing_table (head_at s) p es"
  shows "route_loop env sl func pin (lai_initialize_prt_iterator (VPackage p)) s = Some (case find (routes sl func pin) es of
      Some x \<Rightarrow> Inr \<lparr>ar_type = ACPI_RESOURCE_IRQ, ar_base = take_bit 32 (snd (snd x)), ar_irq_flags = ACPI_SMALL_IRQ_ACTIVE_LOW\<rparr>
    | None \<Rightarrow> Inl LAI_ERROR_UNEXPECTED_RESULT, s)"
  using route_loop_find [OF assms, of "lai_initialize_prt_iterator (VPackage p)" env sl func pin] by (simp add: lai_initialize_prt_iterator_def)

text \<open>A table at \<open>0x200\<close> with two entries: pin 0 of slot 2 is interrupt 16, pin 1 of slot 2 interrupt 17.\<close>

definition table_example :: heads where
  "table_example = [0x200 \<mapsto> HPkg \<lparr>ph_rc = 1, ph_size = 2, ph_elems_ptr = 0x280, ph_elems = [VPackage 0x300, VPackage 0x400]\<rparr>,
     0x300 \<mapsto> HPkg \<lparr>ph_rc = 1, ph_size = 4, ph_elems_ptr = 0x380, ph_elems = [VInteger 0x2FFFF, VInteger 0, VInteger 0, VInteger 16]\<rparr>,
     0x400 \<mapsto> HPkg \<lparr>ph_rc = 1, ph_size = 4, ph_elems_ptr = 0x480, ph_elems = [VInteger 0x2FFFF, VInteger 1, VInteger 0, VInteger 17]\<rparr>]"

definition routing_example :: "(u32 \<times> (u8 \<Rightarrow> u32)) lai_exec_state" where
  "routing_example = lai_obj_state.extend (obj_example\<lparr>head_at := table_example\<rparr>) (lai_exec_state.fields Map.empty (\<lambda>_. \<lparr>le_next = 0, le_prev = 0\<rparr>))"

lemma routing_example_table: "routing_table (head_at routing_example) 0x200 [(0x2FFFF, 0, 16), (0x2FFFF, 1, 17)]"
proof -
  have "head_at routing_example = table_example" by (simp add: routing_example_def lai_obj_state.defs lai_exec_state.defs)
  moreover have "direct_entry table_example 0x300 (0x2FFFF, 0, 16)" "direct_entry table_example 0x400 (0x2FFFF, 1, 17)"
    by (simp_all add: direct_entry_def table_example_def)
  ultimately show ?thesis
    by (simp add: routing_table_def) (simp add: table_example_def All_less_Suc2 less_2_cases_iff all_conj_distrib)
qed

theorem lai_pci_route_first_witness:
  "\<forall>env. route_loop env 2 5 1 (lai_initialize_prt_iterator (VPackage 0x200)) routing_example =
     Some (Inr \<lparr>ar_type = 3, ar_base = 17, ar_irq_flags = 8\<rparr>, routing_example)"
proof
  fix env
  have "find (routes 2 5 1) [(0x2FFFF, 0, 16), (0x2FFFF, 1, 17)] = Some (0x2FFFF, 1, 17)" by (simp add: routes_def)
  then show "route_loop env 2 5 1 (lai_initialize_prt_iterator (VPackage 0x200)) routing_example =
     Some (Inr \<lparr>ar_type = 3, ar_base = 17, ar_irq_flags = 8\<rparr>, routing_example)"
    using lai_pci_route_first [OF routing_example_table, of env 2 5 1]
    by (simp add: ACPI_RESOURCE_IRQ_def ACPI_SMALL_IRQ_ACTIVE_LOW_def)
qed

subsection \<open>Devices with an integer identifier\<close>

definition has_integer :: "('d, 'a) lai_ns_state_scheme \<Rightarrow> addr \<Rightarrow> string \<Rightarrow> u64 \<Rightarrow> bool" where
  "has_integer s dv nm i \<longleftrightarrow> (\<exists>h. lai_resolve_path s dv (path_of nm) = Some h \<and> h \<noteq> 0 \<and>
     nd_type (node_at s h) = LAI_NAMESPACE_NAME \<and> nd_object (node_at s h) = VInteger i)"

lemma eval_integer_name:
  assumes "h \<noteq> 0" "nd_type (node_at s h) = LAI_NAMESPACE_NAME" "nd_object (node_at s h) = VInteger i"
  shows "eval_new env h st s = Some (LAI_ERROR_NONE, VInteger i, st, s)"
  using assms by (simp add: eval_new_def lai_eval_def lai_eval_args_def lai_obj_clone_def namespace_types)

lemma check_integer_id:
  assumes "has_integer s dv ''_HID'' i"
  shows "lai_check_device_pnp_id env dv (VInteger j) st s = Some (i \<noteq> j, st, s)"
  using assms
  by (auto simp: has_integer_def lai_check_device_pnp_id_def device_hid_def eval_integer_name same_id_def finalize_uncounted)

lemma bus_ids:
  "lai_eisaid VNone (path_of ACPI_PCI_ROOT_BUS_PNP_ID) s = Some (VInteger 0x030AD041, s)"
  "lai_eisaid VNone (path_of ACPI_PCIE_ROOT_BUS_PNP_ID) s = Some (VInteger 0x080AD041, s)"
  by (simp_all add: lai_eisaid_def path_of_def ACPI_PCI_ROOT_BUS_PNP_ID_def ACPI_PCIE_ROOT_BUS_PNP_ID_def char_to_hex_def bswap32_def)

text \<open>
  The climb to the root bus does not climb: the tests return 0 for a match, but a node is taken when one of them does not
  match, and no identifier matches both.  A device whose identifier is not that of a bus is returned as its own root bus.
\<close>

theorem lai_find_parent_root_of_itself:
  assumes "node \<noteq> 0" "has_integer s node ''_HID'' i"
  shows "lai_find_parent_root_of env node st s = Some (node, st, s)"
  using assms
  by (auto simp: lai_find_parent_root_of_def bus_ids climb_to_root_bus.simps [of env _ _ node] check_integer_id finalize_uncounted)

lemma bus_spec:
  assumes "has_integer s node ''_HID'' i" "has_integer s node ''_BBN'' bbn" "has_integer s node ''_SEG'' sn"
  shows "is_bus env (VInteger 0x030AD041) (VInteger 0x080AD041) sg b node st s =
    Some (i \<in> {0x030AD041, 0x080AD041} \<and> sn = ucast sg \<and> bbn = ucast b, st, s)"
proof -
  have n: "has_integer s node nm x \<Longrightarrow> bus_number env node nm st s = Some (Some x, VInteger x, st, s)" for nm x
    by (auto simp: has_integer_def bus_number_def eval_integer_name lai_obj_get_integer_def)
  show ?thesis
    using n [OF assms(2)] n [OF assms(3)] by (auto simp: is_bus_def check_integer_id [OF assms(1)] finalize_uncounted)
qed

text \<open>The iteration over the children visits the entries that are not null, in order.\<close>

lemma ns_next_filter:
  "filter (\<lambda>n. n \<noteq> 0) (List.drop i xs) = (case ns_next xs i of (n, j) \<Rightarrow> if n = 0 then [] else n # filter (\<lambda>n. n \<noteq> 0) (List.drop j xs))"
proof (induction xs i rule: ns_next.induct)
  case (1 xs i)
  show ?case
  proof (cases "i < length xs")
    case True
    then have "List.drop i xs = xs ! i # List.drop (i + 1) xs" by (simp add: Cons_nth_drop_Suc)
    then show ?thesis using 1 True by (subst ns_next.simps) (simp del: drop_eq_Nil)
  next
    case False
    then show ?thesis by (subst ns_next.simps) simp
  qed
qed

lemma ns_next_bound: "ns_next xs i = (n, j) \<Longrightarrow> n \<noteq> 0 \<Longrightarrow> i < j \<and> j \<le> length xs"
proof (induction xs i rule: ns_next.induct)
  case (1 xs i)
  then show ?case by (subst (asm) (2) ns_next.simps) (auto split: if_splits)
qed

definition child_list :: "('d, 'a) lai_ns_state_scheme \<Rightarrow> addr \<Rightarrow> addr list" where
  "child_list s p = take (elem_capacity (children (node_at s p))) (ptr_entries (children (node_at s p)))"

definition bus_object :: "('d, 'a) lai_ns_state_scheme \<Rightarrow> addr \<Rightarrow> u64 \<times> u64 \<times> u64 \<Rightarrow> bool" where
  "bus_object s node x \<longleftrightarrow> has_integer s node ''_HID'' (fst x) \<and> has_integer s node ''_BBN'' (fst (snd x)) \<and> has_integer s node ''_SEG'' (snd (snd x))"

definition wanted_bus :: "u16 \<Rightarrow> u8 \<Rightarrow> u64 \<times> u64 \<times> u64 \<Rightarrow> bool" where
  "wanted_bus sg b x \<longleftrightarrow> fst x \<in> {0x030AD041, 0x080AD041} \<and> snd (snd x) = ucast sg \<and> fst (snd x) = ucast b"

lemma find_bus_loop_find:
  assumes "\<forall>n \<in> set (child_list s sb). n \<noteq> 0 \<longrightarrow> bus_object s n (ids n)" "i \<le> length (child_list s sb)"
  shows "find_bus_loop env (VInteger 0x030AD041) (VInteger 0x080AD041) sg b sb i st s =
    Some (case find (\<lambda>n. wanted_bus sg b (ids n)) (filter (\<lambda>n. n \<noteq> 0) (List.drop i (child_list s sb))) of Some n \<Rightarrow> n | None \<Rightarrow> 0, st, s)"
  using assms(2)
proof (induction "length (child_list s sb) - i" arbitrary: i rule: less_induct)
  case less
  obtain n j where nj: "ns_next (child_list s sb) i = (n, j)" by (cases "ns_next (child_list s sb) i")
  then have it: "lai_ns_child_iterate s sb i = (n, j)" by (simp add: lai_ns_child_iterate_def child_list_def)
  show ?case
  proof (cases "n = 0")
    case True
    then show ?thesis using ns_next_filter [of i "child_list s sb"] nj it by (subst find_bus_loop.simps) simp
  next
    case False
    have f: "filter (\<lambda>n. n \<noteq> 0) (List.drop i (child_list s sb)) = n # filter (\<lambda>n. n \<noteq> 0) (List.drop j (child_list s sb))"
      using ns_next_filter [of i "child_list s sb"] nj False by simp
    then have "n \<in> set (filter (\<lambda>n. n \<noteq> 0) (List.drop i (child_list s sb)))" by simp
    then have "n \<in> set (child_list s sb)" by (auto dest: in_set_dropD)
    then have o: "bus_object s n (ids n)" using assms(1) False by blast
    have step: "is_bus env (VInteger 0x030AD041) (VInteger 0x080AD041) sg b n st s = Some (wanted_bus sg b (ids n), st, s)"
      using o bus_spec unfolding bus_object_def wanted_bus_def by blast
    have "i < j" "j \<le> length (child_list s sb)" using ns_next_bound [OF nj False] by simp_all
    then show ?thesis using less.hyps [of j] it False step f by (subst find_bus_loop.simps) (simp add: diff_less_mono2)
  qed
qed

definition system_bus_path :: "u8 list" where "system_bus_path = [0x5C, 0x5F, 0x53, 0x42, 0x5F]"


text \<open>An example: below \<open>_SB_\<close> the bus \<open>PCI0\<close> with an identifier, a number and a segment.\<close>

definition integer_node :: "u8 list \<Rightarrow> u64 \<Rightarrow> lai_nsnode" where
  "integer_node nm i = zero_nsnode\<lparr>nd_name := nm, nd_type := LAI_NAMESPACE_NAME, nd_parent := 0x3000, nd_object := VInteger i\<rparr>"

definition with_child :: "u8 list \<Rightarrow> addr \<Rightarrow> lai_hashtable \<Rightarrow> lai_hashtable" where
  "with_child nm e ht = the (place_elem ht (lai_hash_string nm) e)"

definition bus_nodes :: "addr \<Rightarrow> lai_nsnode" where
  "bus_nodes a =
     (if a = 0x1000 then zero_nsnode\<lparr>nd_name := [0x5C, 0x5F, 0x5F, 0x5F], nd_type := LAI_NAMESPACE_ROOT,
        children := with_child [0x5F, 0x53, 0x42, 0x5F] 0x2000 ht_empty_example\<rparr>
      else if a = 0x2000 then zero_nsnode\<lparr>nd_name := [0x5F, 0x53, 0x42, 0x5F], nd_type := LAI_NAMESPACE_DEVICE, nd_parent := 0x1000,
        children := with_child [0x50, 0x43, 0x49, 0x30] 0x3000 ht_empty_example\<rparr>
      else if a = 0x3000 then zero_nsnode\<lparr>nd_name := [0x50, 0x43, 0x49, 0x30], nd_type := LAI_NAMESPACE_DEVICE, nd_parent := 0x2000,
        children := with_child (path_of ''_SEG'') 0x6000 (with_child (path_of ''_BBN'') 0x5000 (with_child (path_of ''_HID'') 0x4000 ht_empty_example))\<rparr>
      else if a = 0x4000 then integer_node (path_of ''_HID'') 0x030AD041
      else if a = 0x5000 then integer_node (path_of ''_BBN'') 2
      else if a = 0x6000 then integer_node (path_of ''_SEG'') 0
      else zero_nsnode)"

definition bus_example :: "(u32 \<times> (u8 \<Rightarrow> u32)) lai_exec_state" where
  "bus_example = routing_example\<lparr>node_at := bus_nodes, root_node := 0x1000\<rparr>"

declare find_child.simps [code] climb_to_root.simps [code]

lemma bus_example_paths:
  "lai_resolve_path bus_example 0 system_bus_path = Some 0x2000"
  "lai_resolve_path bus_example 0x3000 (path_of ''_HID'') = Some 0x4000"
  "lai_resolve_path bus_example 0x3000 (path_of ''_BBN'') = Some 0x5000"
  "lai_resolve_path bus_example 0x3000 (path_of ''_SEG'') = Some 0x6000"
  "child_list bus_example 0x2000 = [0x3000, 0, 0, 0]"
  by code_simp+

lemma bus_example_object: "bus_object bus_example 0x3000 (0x030AD041, 2, 0)"
  by (simp add: bus_object_def has_integer_def bus_example_paths) (simp add: bus_example_def bus_nodes_def integer_node_def)


theorem lai_find_parent_root_of_itself_witness:
  "\<forall>env. lai_find_parent_root_of env 0x3000 lai_init_state bus_example = Some (0x3000, lai_init_state, bus_example)"
proof
  fix env
  have "has_integer bus_example 0x3000 ''_HID'' 0x030AD041" using bus_example_object by (simp add: bus_object_def)
  then show "lai_find_parent_root_of env 0x3000 lai_init_state bus_example = Some (0x3000, lai_init_state, bus_example)"
    by (intro lai_find_parent_root_of_itself) simp_all
qed

end
