(* ===== verification/LaiPower.thy ===== *)
theory LaiPower
  imports LaiDevices
begin

text \<open>
  Power management: the system control interrupt (\<open>helpers/sci.c\<close>), the sleep states and the reset (\<open>helpers/pm.c\<close>) and the
  power management timer (\<open>drivers/timer.c\<close>).  The registers are at the ports that the FADT names; \<open>laihost_sleep\<close> of this
  kernel does not wait.  The static variables of the timer driver are a record.
\<close>

subsection \<open>The FADT\<close>

text \<open>Members by their offsets in the packed structure of \<open>acpispec/tables.h\<close>.\<close>

definition fadt_smi_command_port :: "('d, 'a) lai_ns_state_scheme \<Rightarrow> u32" where "fadt_smi_command_port s = load32 (mem s) (lai_fadt s + 48)"
definition fadt_acpi_enable :: "('d, 'a) lai_ns_state_scheme \<Rightarrow> u8" where "fadt_acpi_enable s = load8 (mem s) (lai_fadt s + 52)"
definition fadt_acpi_disable :: "('d, 'a) lai_ns_state_scheme \<Rightarrow> u8" where "fadt_acpi_disable s = load8 (mem s) (lai_fadt s + 53)"
definition fadt_pm1a_event_block :: "('d, 'a) lai_ns_state_scheme \<Rightarrow> u32" where "fadt_pm1a_event_block s = load32 (mem s) (lai_fadt s + 56)"
definition fadt_pm1b_event_block :: "('d, 'a) lai_ns_state_scheme \<Rightarrow> u32" where "fadt_pm1b_event_block s = load32 (mem s) (lai_fadt s + 60)"
definition fadt_pm1a_control_block :: "('d, 'a) lai_ns_state_scheme \<Rightarrow> u32" where "fadt_pm1a_control_block s = load32 (mem s) (lai_fadt s + 64)"
definition fadt_pm1b_control_block :: "('d, 'a) lai_ns_state_scheme \<Rightarrow> u32" where "fadt_pm1b_control_block s = load32 (mem s) (lai_fadt s + 68)"
definition fadt_pm_timer_block :: "('d, 'a) lai_ns_state_scheme \<Rightarrow> u32" where "fadt_pm_timer_block s = load32 (mem s) (lai_fadt s + 76)"
definition fadt_pm1_event_length :: "('d, 'a) lai_ns_state_scheme \<Rightarrow> u8" where "fadt_pm1_event_length s = load8 (mem s) (lai_fadt s + 88)"
definition fadt_pm_timer_length :: "('d, 'a) lai_ns_state_scheme \<Rightarrow> u8" where "fadt_pm_timer_length s = load8 (mem s) (lai_fadt s + 91)"
definition fadt_flags :: "('d, 'a) lai_ns_state_scheme \<Rightarrow> u32" where "fadt_flags s = load32 (mem s) (lai_fadt s + 112)"

definition ACPI_TIMER :: u16 where "ACPI_TIMER = 0x0001"
definition ACPI_POWER_BUTTON :: u16 where "ACPI_POWER_BUTTON = 0x0100"
definition ACPI_SLEEP_BUTTON :: u16 where "ACPI_SLEEP_BUTTON = 0x0200"
definition ACPI_WAKE :: u16 where "ACPI_WAKE = 0x8000"
definition ACPI_ENABLED :: u16 where "ACPI_ENABLED = 0x0001"
definition ACPI_SLEEP :: u16 where "ACPI_SLEEP = 0x2000"
definition ACPI_GAS_MMIO :: u8 where "ACPI_GAS_MMIO = 0"
definition ACPI_GAS_IO :: u8 where "ACPI_GAS_IO = 1"
definition ACPI_GAS_PCI :: u8 where "ACPI_GAS_PCI = 2"
definition ACPI_STA_PRESENT :: u32 where "ACPI_STA_PRESENT = 1"
definition ACPI_STA_FUNCTION :: u32 where "ACPI_STA_FUNCTION = 8"

subsection \<open>Events\<close>

text \<open>A status register that is there is read and the events found are written back, which acknowledges them.\<close>

definition ack_events :: "'d bus \<Rightarrow> u32 \<Rightarrow> 'd \<Rightarrow> u16 \<times> 'd" where
  "ack_events io block d =
     (if block = 0 then (0, d) else let (v, d) = laihost_inw io (ucast block) d in (v, laihost_outw io (ucast block) v d))"

definition lai_get_sci_event :: "'d bus \<Rightarrow> ('d, 'a) lai_ns_state_scheme \<Rightarrow> u16 \<times> ('d, 'a) lai_ns_state_scheme" where
  "lai_get_sci_event io s =
     (let (a, d) = ack_events io (fadt_pm1a_event_block s) (dev s); (b, d) = ack_events io (fadt_pm1b_event_block s) d
      in (a OR b, s\<lparr>dev := d\<rparr>))"

definition lai_set_sci_event :: "'d bus \<Rightarrow> u16 \<Rightarrow> ('d, 'a) lai_ns_state_scheme \<Rightarrow> ('d, 'a) lai_ns_state_scheme" where
  "lai_set_sci_event io value s =
     (let half = ucast (fadt_pm1_event_length s div 2) :: u32;
          a = ucast (fadt_pm1a_event_block s + half) :: u16; b = ucast (fadt_pm1b_event_block s + half) :: u16;
          d = (if fadt_pm1a_event_block s \<noteq> 0 then laihost_outw io a value (dev s) else dev s);
          d = (if fadt_pm1b_event_block s \<noteq> 0 then laihost_outw io b value d else d)
      in s\<lparr>dev := d\<rparr>)"

subsection \<open>Presence and initialisation of devices\<close>

definition lai_evaluate_sta :: "('d, 'a) env \<Rightarrow> addr \<Rightarrow> ('d, 'a) lai_exec_state_scheme \<Rightarrow> (u32 \<times> ('d, 'a) lai_exec_state_scheme) option" where
  "lai_evaluate_sta env node s = do {
     handle \<leftarrow> lai_resolve_path s node (path_of ''_STA'');
     if handle = 0 then Some (0x0F, s)
     else do {
       (e, result, st, s) \<leftarrow> eval_new env handle lai_init_state s;
       if e \<noteq> LAI_ERROR_NONE then None
       else (case lai_obj_get_integer result of Inl _ \<Rightarrow> None
         | Inr sta \<Rightarrow> do { s \<leftarrow> finalize_list [result] s; s \<leftarrow> lai_finalize_state st s; Some (ucast sta, s) }) } }"

text \<open>The method or object at a handle, with arguments and without a result; the handle may be null.\<close>

definition run_object :: "('d, 'a) env \<Rightarrow> addr \<Rightarrow> lai_variable list \<Rightarrow> ('d, 'a) lai_exec_state_scheme \<Rightarrow>
    (lai_api_error \<times> lai_state \<times> ('d, 'a) lai_exec_state_scheme) option" where
  "run_object env handle args s = do {
     (e, _, st, s) \<leftarrow> (if args = [] then lai_eval env None handle lai_init_state s else lai_eval_largs env None handle args lai_init_state s);
     s \<leftarrow> lai_finalize_state st s;
     Some (e, st, s) }"

definition run_if_there :: "('d, 'a) env \<Rightarrow> addr \<Rightarrow> lai_variable list \<Rightarrow> ('d, 'a) lai_exec_state_scheme \<Rightarrow>
    ('d, 'a) lai_exec_state_scheme option" where
  "run_if_there env handle args s = (if handle = 0 then Some s else do { (_, _, s) \<leftarrow> run_object env handle args s; Some s })"

text \<open>The full path of an initialised device is built for the log and freed; the host does not use the size.\<close>

definition init_device :: "('d, 'a) env \<Rightarrow> addr \<Rightarrow> ('d, 'a) lai_exec_state_scheme \<Rightarrow> ('d, 'a) lai_exec_state_scheme option" where
  "init_device env node s = do {
     handle \<leftarrow> lai_resolve_path s node (path_of ''_INI'');
     if handle = 0 then Some s
     else do {
       (e, _, st, s) \<leftarrow> lai_eval env None handle lai_init_state s;
       s \<leftarrow> (if e \<noteq> LAI_ERROR_NONE then Some s
         else do { (fullpath, s) \<leftarrow> lai_stringify_node_path handle s; laihost_free fullpath 0 s });
       lai_finalize_state st s } }"

text \<open>
  The children of a node from position \<open>i\<close> on: a device that is present is initialised; one that is present or functional
  has its own children visited before the next one.  A null parent is accessed (no result).
\<close>

partial_function (option) init_children_from :: "('d, 'a) env \<Rightarrow> addr \<Rightarrow> nat \<Rightarrow> ('d, 'a) lai_exec_state_scheme \<Rightarrow>
    ('d, 'a) lai_exec_state_scheme option" where
  "init_children_from env parent i s =
     (case lai_ns_child_iterate s parent i of (node, i) \<Rightarrow>
      if node = 0 then Some s
      else if lai_ns_get_node_type s node = LAI_NODETYPE_DEVICE
      then do {
        (sta, s) \<leftarrow> lai_evaluate_sta env node s;
        s \<leftarrow> (if sta AND ACPI_STA_PRESENT \<noteq> 0 then init_device env node s else Some s);
        s \<leftarrow> (if sta AND ACPI_STA_PRESENT \<noteq> 0 \<or> sta AND ACPI_STA_FUNCTION \<noteq> 0 then init_children_from env node 0 s else Some s);
        init_children_from env parent i s }
      else init_children_from env parent i s)"

definition lai_init_children :: "('d, 'a) env \<Rightarrow> addr \<Rightarrow> ('d, 'a) lai_exec_state_scheme \<Rightarrow> ('d, 'a) lai_exec_state_scheme option" where
  "lai_init_children env parent s = (if parent = 0 then None else init_children_from env parent 0 s)"

subsection \<open>Switching to ACPI mode and back\<close>

fun poll_enabled :: "'d bus \<Rightarrow> u16 \<Rightarrow> nat \<Rightarrow> 'd \<Rightarrow> 'd" where
  "poll_enabled io port 0 d = d"
| "poll_enabled io port (Suc n) d =
     (let (v, d) = laihost_inw io port d in if v AND ACPI_ENABLED \<noteq> 0 then d else poll_enabled io port n (laihost_sleep 10 d))"

definition enter_acpi_mode :: "'d bus \<Rightarrow> ('d, 'a) lai_ns_state_scheme \<Rightarrow> ('d, 'a) lai_ns_state_scheme" where
  "enter_acpi_mode io s =
     (let d = laihost_sleep 10 (laihost_outb io (ucast (fadt_smi_command_port s)) (fadt_acpi_enable s) (dev s));
          s = s\<lparr>dev := poll_enabled io (ucast (fadt_pm1a_control_block s)) 100 d\<rparr>;
          s = lai_set_sci_event io (ACPI_POWER_BUTTON OR ACPI_SLEEP_BUTTON OR ACPI_WAKE) s
      in snd (lai_get_sci_event io s))"

definition root_path :: "string \<Rightarrow> u8 list" where "root_path cs = 0x5C # path_of cs"

definition lai_enable_acpi :: "('d, 'a) env \<Rightarrow> u32 \<Rightarrow> ('d, 'a) lai_exec_state_scheme \<Rightarrow> ('d, 'a) lai_exec_state_scheme option" where
  "lai_enable_acpi env mode s = do {
     handle \<leftarrow> lai_resolve_path s 0 (root_path ''_SB_._INI'');
     s \<leftarrow> run_if_there env handle [] s;
     handle \<leftarrow> lai_resolve_path s 0 (root_path ''_SB_'');
     s \<leftarrow> lai_init_children env handle s;
     handle \<leftarrow> lai_resolve_path s 0 (root_path ''_PIC'');
     s \<leftarrow> run_if_there env handle [VInteger (ucast mode)] s;
     Some (enter_acpi_mode (bus.truncate (xe_io env)) s) }"

definition clear_enabled :: "'d bus \<Rightarrow> u32 \<Rightarrow> 'd \<Rightarrow> 'd" where
  "clear_enabled io block d =
     (let (v, d) = laihost_inw io (ucast block) d in laihost_outw io (ucast block) (v AND NOT ACPI_ENABLED) d)"

definition lai_disable_acpi :: "'d bus \<Rightarrow> ('d, 'a) lai_ns_state_scheme \<Rightarrow> ('d, 'a) lai_ns_state_scheme" where
  "lai_disable_acpi io s =
     (let s = snd (lai_get_sci_event io (lai_set_sci_event io 0 s));
          d = clear_enabled io (fadt_pm1a_control_block s) (dev s);
          d = (if fadt_pm1b_control_block s \<noteq> 0 then clear_enabled io (fadt_pm1b_control_block s) d else d)
      in s\<lparr>dev := laihost_outb io (ucast (fadt_smi_command_port s)) (fadt_acpi_disable s) d\<rparr>)"

subsection \<open>Sleep states\<close>

text \<open>What is left of a state after \<open>lai_finalize_state\<close>: the stacks are empty but keep their memory.\<close>

definition finalized :: "lai_state \<Rightarrow> lai_state" where
  "finalized st = st\<lparr>ctxstack := (ctxstack st)\<lparr>st_items := []\<rparr>, blkstack := (blkstack st)\<lparr>st_items := []\<rparr>,
     stack := (stack st)\<lparr>st_items := []\<rparr>, opstack := (opstack st)\<lparr>st_items := []\<rparr>\<rparr>"

definition sleep_name :: "u8 \<Rightarrow> u8 list option" where
  "sleep_name sleep_state = (if sleep_state \<le> 5 then Some (root_path ''_S'' @ [0x30 + sleep_state]) else None)"

text \<open>A preparation method gets the number of the state; the state of the interpreter is set up anew and finalised.\<close>

definition prepare_sleep :: "('d, 'a) env \<Rightarrow> string \<Rightarrow> u8 \<Rightarrow> lai_state \<Rightarrow> ('d, 'a) lai_exec_state_scheme \<Rightarrow>
    (lai_state \<times> ('d, 'a) lai_exec_state_scheme) option" where
  "prepare_sleep env nm sleep_state st s = do {
     handle \<leftarrow> lai_resolve_path s 0 (root_path nm);
     if handle = 0 then Some (st, s)
     else do { (_, st, s) \<leftarrow> run_object env handle [VInteger (ucast sleep_state)] s; Some (finalized st, s) } }"

definition sleep_word :: "u16 \<Rightarrow> u64 \<Rightarrow> u16" where
  "sleep_word data slp_typ = (data AND 0xE3FF) OR ucast (push_bit 10 slp_typ OR ucast ACPI_SLEEP)"

definition write_sleep :: "'d bus \<Rightarrow> u32 \<Rightarrow> u64 \<Rightarrow> 'd \<Rightarrow> 'd" where
  "write_sleep io block slp_typ d =
     (let (v, d) = laihost_inw io (ucast block) d in laihost_outw io (ucast block) (sleep_word v slp_typ) d)"

definition enter_sleep_registers :: "'d bus \<Rightarrow> u64 \<Rightarrow> u64 \<Rightarrow> ('d, 'a) lai_ns_state_scheme \<Rightarrow> ('d, 'a) lai_ns_state_scheme" where
  "enter_sleep_registers io slp_typa slp_typb s =
     (let d = write_sleep io (fadt_pm1a_control_block s) slp_typa (dev s);
          d = (if fadt_pm1b_control_block s \<noteq> 0 then write_sleep io (fadt_pm1b_control_block s) slp_typb d else d)
      in s\<lparr>dev := d\<rparr>)"

definition lai_enter_sleep :: "('d, 'a) env \<Rightarrow> u8 \<Rightarrow> ('d, 'a) lai_exec_state_scheme \<Rightarrow> (lai_api_error \<times> ('d, 'a) lai_exec_state_scheme) option" where
  "lai_enter_sleep env sleep_state s = do {
     nm \<leftarrow> sleep_name sleep_state;
     handle \<leftarrow> lai_resolve_path s 0 nm;
     if handle = 0 then do { s \<leftarrow> lai_finalize_state lai_init_state s; Some (LAI_ERROR_UNSUPPORTED, s) }
     else do {
       (e, package, st, s) \<leftarrow> eval_new env handle lai_init_state s;
       if e \<noteq> LAI_ERROR_NONE
       then do { s \<leftarrow> finalize_list [package] s; s \<leftarrow> lai_finalize_state st s; Some (LAI_ERROR_UNSUPPORTED, s) }
       else do {
         (st, s) \<leftarrow> prepare_sleep env ''_PTS'' sleep_state st s;
         (st, s) \<leftarrow> prepare_sleep env ''_GTS'' sleep_state st s;
         (_, slp_typa, s) \<leftarrow> lai_obj_get_pkg package 0 VNone s;
         (_, slp_typb, s) \<leftarrow> lai_obj_get_pkg package 1 VNone s;
         a \<leftarrow> var_integer slp_typa;
         b \<leftarrow> (if fadt_pm1b_control_block s \<noteq> 0 then var_integer slp_typb else Some 0);
         let s = enter_sleep_registers (bus.truncate (xe_io env)) a b s;
         s \<leftarrow> finalize_list [slp_typb, slp_typa, package] s;
         s \<leftarrow> lai_finalize_state st s;
         Some (LAI_ERROR_NONE, s) } } }"

subsection \<open>Reset\<close>

definition reset_registers :: "'d wide_bus \<Rightarrow> addr \<Rightarrow> ('d, 'a) lai_ns_state_scheme \<Rightarrow> (lai_api_error \<times> ('d, 'a) lai_ns_state_scheme) option" where
  "reset_registers io fadt s =
     (let space = load8 (mem s) (fadt + 116); base = load64 (mem s) (fadt + 120); cmd = load8 (mem s) (fadt + 128)
      in if space = ACPI_GAS_MMIO
         then do { (_, s) \<leftarrow> laihost_map base 1 s; Some (LAI_ERROR_NONE, s\<lparr>dev := mmio_write8 io base cmd (dev s)\<rparr>) }
         else if space = ACPI_GAS_IO
         then Some (LAI_ERROR_NONE, s\<lparr>dev := laihost_outb (bus.truncate io) (ucast base) cmd (dev s)\<rparr>)
         else if space = ACPI_GAS_PCI
         then Some (LAI_ERROR_NONE, s\<lparr>dev := laihost_pci_writeb (bus.truncate io) 0 0 (ucast (drop_bit 32 base AND 0xFFFF))
           (ucast (drop_bit 16 base AND 0xFFFF)) (ucast (base AND 0xFFFF)) cmd (dev s)\<rparr>)
         else None)"

definition lai_acpi_reset :: "'d wide_bus \<Rightarrow> addr \<Rightarrow> ('d, 'a) lai_ns_state_scheme \<Rightarrow> (lai_api_error \<times> ('d, 'a) lai_ns_state_scheme) option" where
  "lai_acpi_reset io rsdp s =
     (let fadt = (if lai_fadt s \<noteq> 0 then lai_fadt s else laihost_scan rsdp (signature_of ''FACP'') 0 (mem s))
      in if fadt = 0 then None
         else if \<not> bit (load32 (mem s) (fadt + 112)) 10 then Some (LAI_ERROR_UNSUPPORTED, s)
         else reset_registers io fadt s)"

subsection \<open>The timer\<close>

text \<open>The other members of the register block are copied but not used.\<close>

record lai_timer =
  timer_address_space :: u8
  timer_base :: u64
  extended_timer :: bool
  timer_supported :: bool

definition lai_read_pm_timer_value :: "'d bus \<Rightarrow> lai_timer \<Rightarrow> 'd \<Rightarrow> (u32 \<times> 'd) option" where
  "lai_read_pm_timer_value io t d =
     (if timer_address_space t = ACPI_GAS_IO then Some (laihost_ind io (ucast (timer_base t)) d)
      else if timer_address_space t = ACPI_GAS_MMIO then Some (mmio_read32 io (timer_base t) d)
      else None)"

definition select_timer_block :: "lai_timer \<Rightarrow> ('d, 'a) lai_ns_state_scheme \<Rightarrow> (lai_timer \<times> ('d, 'a) lai_ns_state_scheme) option" where
  "select_timer_block t s =
     (let base = load64 (mem s) (lai_fadt s + 212)
      in if 2 \<le> sint (acpi_revision s) \<and> base \<noteq> 0
         then let t = t\<lparr>timer_address_space := load8 (mem s) (lai_fadt s + 208), timer_base := base\<rparr>
           in if timer_address_space t = ACPI_GAS_MMIO then do { (_, s) \<leftarrow> laihost_map base 4 s; Some (t, s) } else Some (t, s)
         else Some (t\<lparr>timer_address_space := ACPI_GAS_IO, timer_base := ucast (fadt_pm_timer_block s)\<rparr>, s))"

definition lai_start_pm_timer :: "'d bus \<Rightarrow> lai_timer \<Rightarrow> ('d, 'a) lai_ns_state_scheme \<Rightarrow>
    (lai_api_error \<times> lai_timer \<times> ('d, 'a) lai_ns_state_scheme) option" where
  "lai_start_pm_timer io t s =
     (if fadt_pm_timer_length s \<noteq> 4 then Some (LAI_ERROR_UNSUPPORTED, t, s)
      else do {
        (t, s) \<leftarrow> select_timer_block (t\<lparr>timer_supported := True\<rparr>) s;
        let t = (if bit (fadt_flags s) 8 then t\<lparr>extended_timer := True\<rparr> else t);
        let (ev, s) = lai_get_sci_event io s;
        Some (LAI_ERROR_NONE, t, lai_set_sci_event io (ev OR ACPI_TIMER) s) })"

definition lai_stop_pm_timer :: "'d bus \<Rightarrow> lai_timer \<Rightarrow> ('d, 'a) lai_ns_state_scheme \<Rightarrow> lai_api_error \<times> ('d, 'a) lai_ns_state_scheme" where
  "lai_stop_pm_timer io t s =
     (if \<not> timer_supported t then (LAI_ERROR_UNSUPPORTED, s)
      else let (ev, s) = lai_get_sci_event io s in (LAI_ERROR_NONE, lai_set_sci_event io (ev AND NOT ACPI_TIMER) s))"

partial_function (option) wait_until :: "'d bus \<Rightarrow> lai_timer \<Rightarrow> u32 \<Rightarrow> 'd \<Rightarrow> 'd option" where
  "wait_until io t goal d = do {
     (v, d) \<leftarrow> lai_read_pm_timer_value io t d;
     if v < goal then wait_until io t goal d else Some d }"

definition lai_busy_wait_pm_timer :: "'d bus \<Rightarrow> lai_timer \<Rightarrow> u64 \<Rightarrow> 'd \<Rightarrow> (lai_api_error \<times> 'd) option" where
  "lai_busy_wait_pm_timer io t ms d =
     (if \<not> timer_supported t then Some (LAI_ERROR_UNSUPPORTED, d)
      else do {
        (v, d) \<leftarrow> lai_read_pm_timer_value io t d;
        let goal = (ucast (ucast v + ms * 3580) :: u32);
        if \<not> extended_timer t \<and> 0xFFFFFF < goal then Some (LAI_ERROR_UNSUPPORTED, d)
        else do { d \<leftarrow> wait_until io t goal d; Some (LAI_ERROR_NONE, d) } })"

subsection \<open>The word that starts a sleep\<close>

lemma bit_below_16:
  fixes w :: u16
  assumes "\<forall>i \<in> set [0..<16]. bit w i = P i" "\<And>i. P i \<Longrightarrow> i < 16"
  shows "bit w i = P i"
  using assms bit_imp_le_length [of w i] by (cases "i < 16") auto

lemma bit_sleep_mask: "bit (0xE3FF :: u16) i \<longleftrightarrow> i < 16 \<and> i \<notin> {10, 11, 12}"
  by (rule bit_below_16) (code_simp, simp)

lemma bit_sleep_enable: "bit (0x2000 :: u16) i \<longleftrightarrow> i = 13"
  by (rule bit_below_16) (code_simp, simp)

lemma bit_sleep_word:
  assumes "t < 8"
  shows "bit (sleep_word v t) i \<longleftrightarrow> i < 16 \<and> (bit v i \<and> i \<notin> {10, 11, 12} \<or> i = 13 \<or> 10 \<le> i \<and> bit t (i - 10))"
  unfolding sleep_word_def ACPI_SLEEP_def bit_or_iff bit_and_iff bit_unsigned_iff bit_push_bit_iff bit_sleep_mask bit_sleep_enable
  using bit_imp_le_length [of v i] by auto

text \<open>A sleep type of three bits is written into bits 10 to 12 of the control register together with the sleep enable bit 13;
  the other bits keep the value that was read.
\<close>

theorem sleep_word_fields:
  assumes "t < 8"
  shows "take_bit 3 (drop_bit 10 (sleep_word v t)) = ucast t \<and> bit (sleep_word v t) 13 \<and>
    (\<forall>i. i \<notin> {10, 11, 12, 13} \<longrightarrow> bit (sleep_word v t) i = bit v i)"
proof -
  have "take_bit 3 t = t" using assms by (simp add: word_unat_eq_iff unsigned_take_bit_eq take_bit_nat_eq_self word_less_nat_alt)
  then have t: "bit t i \<Longrightarrow> i < 3" for i by (metis bit_take_bit_iff)
  have "take_bit 3 (drop_bit 10 (sleep_word v t)) = ucast t"
  proof (rule bit_word_eqI)
    fix i assume "i < LENGTH(16)"
    then show "bit (take_bit 3 (drop_bit 10 (sleep_word v t))) i = bit (ucast t :: u16) i"
      using t [of i] by (auto simp: bit_take_bit_iff bit_drop_bit_eq bit_sleep_word [OF assms] bit_unsigned_iff)
  qed
  moreover have "bit (sleep_word v t) i = bit v i" if "i \<notin> {10, 11, 12, 13}" for i
    using that t [of "i - 10"] bit_imp_le_length [of v i] by (auto simp: bit_sleep_word [OF assms])
  ultimately show ?thesis using bit_sleep_word [OF assms, of v 13] by simp
qed

theorem sleep_word_fields_witness: "take_bit 3 (drop_bit 10 (sleep_word 0x1C01 5)) = 5 \<and> bit (sleep_word 0x1C01 5) 0"
  using sleep_word_fields [of 5 "0x1C01"] by (simp add: bit_simps)

subsection \<open>Waiting with the timer\<close>

text \<open>A 32-bit counter at the port: a read returns the count, which then advances by at least one tick and at most \<open>step\<close>.\<close>

definition timer_contract :: "'d bus \<Rightarrow> lai_timer \<Rightarrow> ('d \<Rightarrow> nat) \<Rightarrow> nat \<Rightarrow> bool" where
  "timer_contract io t ticks step \<longleftrightarrow> timer_address_space t = ACPI_GAS_IO \<and>
     (\<forall>d. case in32 io (ucast (timer_base t)) d of (v, d') \<Rightarrow> v = of_nat (ticks d) \<and> ticks d < ticks d' \<and> ticks d' \<le> ticks d + step)"

lemma timer_read:
  assumes "timer_contract io t ticks step"
  obtains d' where "lai_read_pm_timer_value io t d = Some (of_nat (ticks d), d')" "ticks d < ticks d'" "ticks d' \<le> ticks d + step"
proof -
  obtain v d' where e: "in32 io (ucast (timer_base t)) d = (v, d')" by (cases "in32 io (ucast (timer_base t)) d")
  have "timer_address_space t = ACPI_GAS_IO" using assms by (simp add: timer_contract_def)
  moreover have "v = of_nat (ticks d) \<and> ticks d < ticks d' \<and> ticks d' \<le> ticks d + step"
    using assms [unfolded timer_contract_def] e by (metis (mono_tags, lifting) case_prod_conv)
  ultimately show ?thesis using that [of d'] e by (simp add: lai_read_pm_timer_value_def laihost_ind_def)
qed

lemma wait_until_reaches:
  assumes C: "timer_contract io t ticks step" and "unat goal + step < 2 ^ 32" "ticks d \<le> unat goal + step"
  shows "\<exists>d'. wait_until io t goal d = Some d' \<and> unat goal \<le> ticks d'"
  using assms(3)
proof (induction "unat goal - ticks d" arbitrary: d rule: less_induct)
  case less
  obtain d' where r: "lai_read_pm_timer_value io t d = Some (of_nat (ticks d), d')" "ticks d < ticks d'" "ticks d' \<le> ticks d + step"
    using timer_read [OF C] by blast
  have small: "ticks d < 2 ^ 32" using less.prems assms(2) by simp
  then have v: "unat (of_nat (ticks d) :: u32) = ticks d" by (simp add: unsigned_of_nat take_bit_nat_eq_self)
  show ?case
  proof (cases "ticks d < unat goal")
    case True
    then have "\<exists>d''. wait_until io t goal d' = Some d'' \<and> unat goal \<le> ticks d''"
      using r by (intro less.hyps) auto
    then show ?thesis using r True v by (subst wait_until.simps) (simp add: word_less_nat_alt)
  next
    case False
    then show ?thesis using r v by (subst wait_until.simps) (simp add: word_less_nat_alt)
  qed
qed

text \<open>The goal of a wait, as long as it does not pass the end of the counter.\<close>

lemma wait_goal:
  assumes "ticks + unat (ms :: u64) * 3580 < 2 ^ 32"
  shows "unat (ucast (ucast (of_nat ticks :: u32) + ms * 3580) :: u32) = ticks + unat ms * 3580"
proof -
  have "unat (ucast (of_nat ticks :: u32) :: u64) = ticks"
    using assms by (simp add: unsigned_ucast_eq unsigned_of_nat take_bit_nat_eq_self)
  moreover have "unat (ms * 3580) = unat ms * 3580" using assms by (simp add: unat_word_ariths)
  ultimately show ?thesis using assms by (simp add: unsigned_ucast_eq unat_word_ariths take_bit_nat_eq_self)
qed

text \<open>C40: With a 32-bit counter that keeps counting, and as long as the goal plus one step of the counter stays below its end,
  the wait ends and at least \<open>ms\<close> times 3580 ticks have passed.
\<close>

theorem lai_busy_wait_elapsed:
  assumes C: "timer_contract io t ticks step" and "timer_supported t" "extended_timer t"
    and "ticks d + unat ms * 3580 + step < 2 ^ 32"
  shows "\<exists>d'. lai_busy_wait_pm_timer io t ms d = Some (LAI_ERROR_NONE, d') \<and> ticks d + unat ms * 3580 \<le> ticks d'"
proof -
  obtain d1 where r: "lai_read_pm_timer_value io t d = Some (of_nat (ticks d), d1)" "ticks d < ticks d1" "ticks d1 \<le> ticks d + step"
    using timer_read [OF C] by blast
  let ?goal = "ucast (ucast (of_nat (ticks d) :: u32) + ms * 3580) :: u32"
  have g: "unat ?goal = ticks d + unat ms * 3580" using assms(4) by (intro wait_goal) simp
  show ?thesis
    using wait_until_reaches [OF C, of ?goal d1] assms g r by (auto simp: lai_busy_wait_pm_timer_def)
qed

definition timer_example_bus :: "nat bus" where
  "timer_example_bus = \<lparr>in8 = (\<lambda>_ d. (0, d)), in16 = (\<lambda>_ d. (0, d)), in32 = (\<lambda>_ d. (of_nat d, d + 7)), out8 = (\<lambda>_ _ d. d),
     out16 = (\<lambda>_ _ d. d), out32 = (\<lambda>_ _ d. d), mmio_read8 = (\<lambda>_ d. (0, d)), mmio_read32 = (\<lambda>_ d. (0, d)),
     mmio_write32 = (\<lambda>_ _ d. d), mmio_write64 = (\<lambda>_ _ d. d)\<rparr>"

definition timer_example :: lai_timer where
  "timer_example = \<lparr>timer_address_space = ACPI_GAS_IO, timer_base = 0x408, extended_timer = True, timer_supported = True\<rparr>"

lemma timer_example_contract: "timer_contract timer_example_bus timer_example (\<lambda>d. d) 7"
  by (simp add: timer_contract_def timer_example_bus_def timer_example_def)

theorem lai_busy_wait_elapsed_witness:
  "\<exists>d'. lai_busy_wait_pm_timer timer_example_bus timer_example 20 1000 = Some (LAI_ERROR_NONE, d') \<and> 72600 \<le> d'"
proof -
  have "timer_supported timer_example" "extended_timer timer_example" "(1000 :: nat) + unat (20 :: u64) * 3580 + 7 < 2 ^ 32"
    by (simp_all add: timer_example_def)
  from lai_busy_wait_elapsed [OF timer_example_contract this] show ?thesis by simp
qed

text \<open>
  A wait whose goal passes the end of the 32-bit counter ends after two reads of the counter, however long it should be.
\<close>

theorem lai_busy_wait_wraps:
  assumes C: "timer_contract io t ticks step" and "timer_supported t" "extended_timer t"
    and "ticks d + step < 2 ^ 32" "2 ^ 32 \<le> ticks d + unat ms * 3580" "unat ms * 3580 < 2 ^ 32"
  shows "\<exists>d'. lai_busy_wait_pm_timer io t ms d = Some (LAI_ERROR_NONE, d') \<and> ticks d' \<le> ticks d + 2 * step"
proof -
  obtain d1 where 1: "lai_read_pm_timer_value io t d = Some (of_nat (ticks d), d1)" "ticks d < ticks d1" "ticks d1 \<le> ticks d + step"
    using timer_read [OF C] by blast
  obtain d2 where 2: "lai_read_pm_timer_value io t d1 = Some (of_nat (ticks d1), d2)" "ticks d2 \<le> ticks d1 + step"
    using timer_read [OF C] by blast
  let ?goal = "ucast (ucast (of_nat (ticks d) :: u32) + ms * 3580) :: u32"
  have "unat (ucast (of_nat (ticks d) :: u32) :: u64) = ticks d"
    using assms(4) by (simp add: unsigned_ucast_eq unsigned_of_nat take_bit_nat_eq_self)
  moreover have "unat (ms * 3580) = unat ms * 3580" using assms(6) by (simp add: unat_word_ariths)
  ultimately have "unat ?goal = (ticks d + unat ms * 3580) mod 2 ^ 32"
    using assms(4,6) by (simp add: unsigned_ucast_eq unat_word_ariths take_bit_eq_mod)
  moreover have "(ticks d + unat ms * 3580) mod 2 ^ 32 = ticks d + unat ms * 3580 - 2 ^ 32"
    using assms(4-6) by (subst le_mod_geq) auto
  ultimately have "unat ?goal \<le> ticks d" using assms(6) by linarith
  moreover have "unat (of_nat (ticks d1) :: u32) = ticks d1" using 1 assms(4) by (simp add: unsigned_of_nat take_bit_nat_eq_self)
  ultimately have "\<not> of_nat (ticks d1) < ?goal" using 1 by (simp add: word_less_nat_alt)
  then have "wait_until io t ?goal d1 = Some d2" using 2 by (subst wait_until.simps) simp
  then show ?thesis using 1 2 assms by (simp add: lai_busy_wait_pm_timer_def)
qed

subsection \<open>Events\<close>

text \<open>
  A single block of event registers: reading the status does not change it, a one written to a bit of it clears the bit,
  and the enable register holds what is written to it.
\<close>

definition event_contract :: "'d bus \<Rightarrow> ('d, 'a) lai_ns_state_scheme \<Rightarrow> ('d \<Rightarrow> u16) \<Rightarrow> ('d \<Rightarrow> u16) \<Rightarrow> bool" where
  "event_contract io s status enable \<longleftrightarrow> fadt_pm1a_event_block s \<noteq> 0 \<and> fadt_pm1b_event_block s = 0 \<and>
     (let p = ucast (fadt_pm1a_event_block s); q = ucast (fadt_pm1a_event_block s + ucast (fadt_pm1_event_length s div 2))
      in \<forall>d v. in16 io p d = (status d, d) \<and> status (out16 io p v d) = status d AND NOT v \<and> enable (out16 io p v d) = enable d \<and>
         enable (out16 io q v d) = v \<and> status (out16 io q v d) = status d)"

lemma fadt_dev [simp]:
  "fadt_pm1a_event_block (s\<lparr>dev := d\<rparr>) = fadt_pm1a_event_block s" "fadt_pm1b_event_block (s\<lparr>dev := d\<rparr>) = fadt_pm1b_event_block s"
  "fadt_pm1_event_length (s\<lparr>dev := d\<rparr>) = fadt_pm1_event_length s"
  by (simp_all add: fadt_pm1a_event_block_def fadt_pm1b_event_block_def fadt_pm1_event_length_def)

lemma get_sci_event_acks:
  assumes "event_contract io s status enable"
  shows "\<exists>d. lai_get_sci_event io s = (status (dev s), s\<lparr>dev := d\<rparr>) \<and> status d = 0 \<and> enable d = enable (dev s)"
  using assms by (auto simp: event_contract_def lai_get_sci_event_def ack_events_def laihost_inw_def laihost_outw_def Let_def)

lemma set_sci_event_enables:
  assumes "event_contract io s status enable"
  shows "\<exists>d. lai_set_sci_event io v (s\<lparr>dev := d0\<rparr>) = s\<lparr>dev := d\<rparr> \<and> status d = status d0 \<and> enable d = v"
  using assms by (auto simp: event_contract_def lai_set_sci_event_def laihost_outw_def Let_def)

text \<open>
  Starting the timer reads the status register where it means the enable register: whatever was enabled before, only the
  timer and the events that happened to be pending are enabled afterwards, and the pending events are acknowledged.
\<close>

theorem lai_start_pm_timer_overwrites:
  assumes C: "event_contract io s status enable" and "fadt_pm_timer_length s = 4" "acpi_revision s = 1"
  shows "\<exists>t' d. lai_start_pm_timer io t s = Some (LAI_ERROR_NONE, t', s\<lparr>dev := d\<rparr>) \<and> enable d = status (dev s) OR ACPI_TIMER \<and> status d = 0"
proof -
  obtain d1 where 1: "lai_get_sci_event io s = (status (dev s), s\<lparr>dev := d1\<rparr>)" "status d1 = 0"
    using get_sci_event_acks [OF C] by blast
  obtain d2 where 2: "lai_set_sci_event io (status (dev s) OR ACPI_TIMER) (s\<lparr>dev := d1\<rparr>) = s\<lparr>dev := d2\<rparr>" "status d2 = status d1"
      "enable d2 = status (dev s) OR ACPI_TIMER"
    using set_sci_event_enables [OF C] by blast
  show ?thesis using 1 2 assms by (auto simp: lai_start_pm_timer_def select_timer_block_def)
qed

end
