(* ===== verification/LaiEc.thy ===== *)
theory LaiEc
  imports LaiDevices
begin

text \<open>
  \<open>drivers/ec.c\<close>: how the driver of the embedded controller finds its ports, and the protocol by which it
  reads and writes the bytes of the controller through a command port and a data port.  The controller is the device behind the bus; every wait is a loop over its
  status register that may not end (no result), as has a panic.
\<close>

subsection \<open>Registers and commands\<close>

definition ACPI_EC_READ :: u8 where "ACPI_EC_READ = 0x80"
definition ACPI_EC_WRITE :: u8 where "ACPI_EC_WRITE = 0x81"
definition ACPI_EC_BURST_ENABLE :: u8 where "ACPI_EC_BURST_ENABLE = 0x82"
definition ACPI_EC_BURST_DISABLE :: u8 where "ACPI_EC_BURST_DISABLE = 0x83"
definition ACPI_EC_QUERY :: u8 where "ACPI_EC_QUERY = 0x84"
definition ACPI_EC_STATUS_OBF :: u8 where "ACPI_EC_STATUS_OBF = 0x1"
definition ACPI_EC_STATUS_IBF :: u8 where "ACPI_EC_STATUS_IBF = 0x2"
definition ACPI_EC_STATUS_BURST :: u8 where "ACPI_EC_STATUS_BURST = 0x10"

record lai_ec_driver =
  cmd_port :: u16
  data_port :: u16

definition lai_initialize_ec_driver :: lai_ec_driver where
  "lai_initialize_ec_driver = \<lparr>cmd_port = 0, data_port = 0\<rparr>"

subsection \<open>Finding the ports\<close>

definition ec_gas_io :: u8 where "ec_gas_io = 1"

text \<open>From the table \<open>ECDT\<close>: the control register is described at offset 36, the data register at 48.\<close>

definition lai_early_init_ec :: "addr \<Rightarrow> mem \<Rightarrow> lai_ec_driver \<Rightarrow> lai_ec_driver" where
  "lai_early_init_ec rsdp m driver =
     (let ecdt = laihost_scan rsdp (signature_of ''ECDT'') 0 m
      in if ecdt = 0 \<or> load8 m (ecdt + 36) \<noteq> ec_gas_io then driver
         else let driver = driver\<lparr>cmd_port := ucast (load64 m (ecdt + 40))\<rparr>
              in if load8 m (ecdt + 48) \<noteq> ec_gas_io then driver else driver\<lparr>data_port := ucast (load64 m (ecdt + 52))\<rparr>)"

text \<open>From the resources of the device: the data port comes first.\<close>

definition ec_ports_of :: "mem \<Rightarrow> addr \<Rightarrow> lai_ec_driver \<Rightarrow> lai_ec_driver option" where
  "ec_ports_of m content driver = do {
     (e, it) \<leftarrow> lai_resource_iterate m (lai_initialize_resource_view content);
     if e \<noteq> LAI_ERROR_NONE then Some driver
     else do {
       ty \<leftarrow> lai_resource_get_type m it;
       if ty \<noteq> LAI_RESOURCE_IO then Some driver
       else do {
         let driver = driver\<lparr>data_port := ucast (rv_base it)\<rparr>;
         (e, it) \<leftarrow> lai_resource_iterate m it;
         if e \<noteq> LAI_ERROR_NONE then Some driver
         else do {
           ty \<leftarrow> lai_resource_get_type m it;
           Some (if ty \<noteq> LAI_RESOURCE_IO then driver else driver\<lparr>cmd_port := ucast (rv_base it)\<rparr>) } } } }"

definition lai_init_ec :: "('d, 'a) env \<Rightarrow> addr \<Rightarrow> lai_ec_driver \<Rightarrow> ('d, 'a) lai_exec_state_scheme \<Rightarrow>
    (lai_ec_driver \<times> ('d, 'a) lai_exec_state_scheme) option" where
  "lai_init_ec env node driver s = do {
     (pnp_id, s) \<leftarrow> lai_eisaid VNone (path_of ''PNP0C09'') s;
     (differs, st, s) \<leftarrow> lai_check_device_pnp_id env node pnp_id lai_init_state s;
     crs_node \<leftarrow> (if differs then Some 0 else lai_resolve_path s node (path_of ''_CRS''));
     if crs_node = 0 then do { s \<leftarrow> finalize_list [pnp_id] s; s \<leftarrow> lai_finalize_state st s; Some (driver, s) }
     else do {
       (e, crs, st, s) \<leftarrow> eval_new env crs_node st s;
       driver \<leftarrow> (if e \<noteq> LAI_ERROR_NONE then Some driver
         else do { (content, m) \<leftarrow> buffer_view crs s; ec_ports_of m content driver });
       s \<leftarrow> finalize_list [crs, pnp_id] s;
       s \<leftarrow> lai_finalize_state st s;
       Some (driver, s) } }"

subsection \<open>Waiting\<close>

partial_function (option) poll_ibf :: "'d bus \<Rightarrow> lai_ec_driver \<Rightarrow> 'd \<Rightarrow> 'd option" where
  "poll_ibf io driver d =
     (case laihost_inb io (cmd_port driver) d of (status, d) \<Rightarrow>
        if status AND ACPI_EC_STATUS_IBF = 0 then Some d else poll_ibf io driver d)"

partial_function (option) poll_obf :: "'d bus \<Rightarrow> lai_ec_driver \<Rightarrow> 'd \<Rightarrow> 'd option" where
  "poll_obf io driver d =
     (case laihost_inb io (cmd_port driver) d of (status, d) \<Rightarrow>
        if status AND ACPI_EC_STATUS_OBF \<noteq> 0 then Some d else poll_obf io driver d)"

partial_function (option) poll_burst :: "'d bus \<Rightarrow> lai_ec_driver \<Rightarrow> 'd \<Rightarrow> 'd option" where
  "poll_burst io driver d =
     (case laihost_inb io (cmd_port driver) d of (status, d) \<Rightarrow>
        if status AND ACPI_EC_STATUS_BURST \<noteq> 0 then poll_burst io driver d else Some d)"

definition enable_burst :: "'d bus \<Rightarrow> lai_ec_driver \<Rightarrow> 'd \<Rightarrow> 'd option" where
  "enable_burst io driver d = do {
     d \<leftarrow> poll_obf io driver (laihost_outb io (cmd_port driver) ACPI_EC_BURST_ENABLE d);
     let (answer, d) = laihost_inb io (data_port driver) d;
     if answer \<noteq> 0x90 then None else Some d }"

definition disable_burst :: "'d bus \<Rightarrow> lai_ec_driver \<Rightarrow> 'd \<Rightarrow> 'd option" where
  "disable_burst io driver d = do {
     d \<leftarrow> poll_ibf io driver d;
     poll_burst io driver (laihost_outb io (cmd_port driver) ACPI_EC_BURST_DISABLE d) }"

subsection \<open>Bytes\<close>

definition lai_read_ec :: "'d bus \<Rightarrow> u8 \<Rightarrow> lai_ec_driver \<Rightarrow> 'd \<Rightarrow> (u8 \<times> 'd) option" where
  "lai_read_ec io offset driver d =
     (if cmd_port driver = 0 \<or> data_port driver = 0 then Some (0, d)
      else do {
        d \<leftarrow> poll_ibf io driver d;
        d \<leftarrow> poll_ibf io driver (laihost_outb io (cmd_port driver) ACPI_EC_READ d);
        d \<leftarrow> poll_obf io driver (laihost_outb io (data_port driver) offset d);
        Some (laihost_inb io (data_port driver) d) })"

definition lai_write_ec :: "'d bus \<Rightarrow> u8 \<Rightarrow> u8 \<Rightarrow> lai_ec_driver \<Rightarrow> 'd \<Rightarrow> 'd option" where
  "lai_write_ec io offset value driver d =
     (if cmd_port driver = 0 \<or> data_port driver = 0 then Some d
      else do {
        d \<leftarrow> poll_ibf io driver d;
        d \<leftarrow> poll_ibf io driver (laihost_outb io (cmd_port driver) ACPI_EC_WRITE d);
        d \<leftarrow> poll_ibf io driver (laihost_outb io (data_port driver) offset d);
        Some (laihost_outb io (data_port driver) value d) })"

definition lai_query_ec :: "'d bus \<Rightarrow> lai_ec_driver \<Rightarrow> 'd \<Rightarrow> (u8 \<times> 'd) option" where
  "lai_query_ec io driver d =
     (if cmd_port driver = 0 \<or> data_port driver = 0 then Some (0, d)
      else do {
        d \<leftarrow> enable_burst io driver d;
        d \<leftarrow> poll_obf io driver (laihost_outb io (cmd_port driver) ACPI_EC_QUERY d);
        d \<leftarrow> disable_burst io driver d;
        Some (laihost_inb io (data_port driver) d) })"

subsection \<open>Accesses of an operation region\<close>

text \<open>
  The bytes of an access, lowest first.  The order in which C evaluates the operands of \<open>|\<close> is not fixed; the bytes are
  read from left to right.
\<close>

fun read_bytes :: "'d bus \<Rightarrow> u64 \<Rightarrow> nat \<Rightarrow> lai_ec_driver \<Rightarrow> 'd \<Rightarrow> (u8 list \<times> 'd) option" where
  "read_bytes io offset 0 driver d = Some ([], d)"
| "read_bytes io offset (Suc n) driver d = do {
     (b, d) \<leftarrow> lai_read_ec io (ucast offset) driver d;
     (bs, d) \<leftarrow> read_bytes io (offset + 1) n driver d;
     Some (b # bs, d) }"

fun write_bytes :: "'d bus \<Rightarrow> u64 \<Rightarrow> u8 list \<Rightarrow> lai_ec_driver \<Rightarrow> 'd \<Rightarrow> 'd option" where
  "write_bytes io offset [] driver d = Some d"
| "write_bytes io offset (b # bs) driver d = do {
     d \<leftarrow> lai_write_ec io (ucast offset) b driver d;
     write_bytes io (offset + 1) bs driver d }"

fun bytes_value :: "u8 list \<Rightarrow> 'a::len word" where
  "bytes_value [] = 0"
| "bytes_value (b # bs) = ucast b OR push_bit 8 (bytes_value bs)"

definition value_bytes :: "nat \<Rightarrow> 'a::len word \<Rightarrow> u8 list" where
  "value_bytes n v = map (\<lambda>k. ucast (drop_bit (8 * k) v AND 0xFF)) [0..<n]"

definition burst_read :: "nat \<Rightarrow> 'd bus \<Rightarrow> u64 \<Rightarrow> lai_ec_driver \<Rightarrow> 'd \<Rightarrow> (u8 list \<times> 'd) option" where
  "burst_read n io offset driver d = do {
     d \<leftarrow> enable_burst io driver d;
     (bs, d) \<leftarrow> read_bytes io offset n driver d;
     d \<leftarrow> disable_burst io driver d;
     Some (bs, d) }"

definition burst_write :: "'d bus \<Rightarrow> u64 \<Rightarrow> u8 list \<Rightarrow> lai_ec_driver \<Rightarrow> 'd \<Rightarrow> 'd option" where
  "burst_write io offset bs driver d = do {
     d \<leftarrow> enable_burst io driver d;
     d \<leftarrow> write_bytes io offset bs driver d;
     disable_burst io driver d }"

definition readb :: "'d bus \<Rightarrow> u64 \<Rightarrow> lai_ec_driver \<Rightarrow> 'd \<Rightarrow> (u8 \<times> 'd) option" where
  "readb io offset driver d = map_option (apfst bytes_value) (burst_read 1 io offset driver d)"

definition readw :: "'d bus \<Rightarrow> u64 \<Rightarrow> lai_ec_driver \<Rightarrow> 'd \<Rightarrow> (u16 \<times> 'd) option" where
  "readw io offset driver d = map_option (apfst bytes_value) (burst_read 2 io offset driver d)"

definition readd :: "'d bus \<Rightarrow> u64 \<Rightarrow> lai_ec_driver \<Rightarrow> 'd \<Rightarrow> (u32 \<times> 'd) option" where
  "readd io offset driver d = map_option (apfst bytes_value) (burst_read 4 io offset driver d)"

definition readq :: "'d bus \<Rightarrow> u64 \<Rightarrow> lai_ec_driver \<Rightarrow> 'd \<Rightarrow> (u64 \<times> 'd) option" where
  "readq io offset driver d = map_option (apfst bytes_value) (burst_read 8 io offset driver d)"

definition writeb :: "'d bus \<Rightarrow> u64 \<Rightarrow> u8 \<Rightarrow> lai_ec_driver \<Rightarrow> 'd \<Rightarrow> 'd option" where
  "writeb io offset value driver d = burst_write io offset [value] driver d"

definition writew :: "'d bus \<Rightarrow> u64 \<Rightarrow> u16 \<Rightarrow> lai_ec_driver \<Rightarrow> 'd \<Rightarrow> 'd option" where
  "writew io offset value driver d = burst_write io offset (value_bytes 2 value) driver d"

definition writed :: "'d bus \<Rightarrow> u64 \<Rightarrow> u32 \<Rightarrow> lai_ec_driver \<Rightarrow> 'd \<Rightarrow> 'd option" where
  "writed io offset value driver d = burst_write io offset (value_bytes 4 value) driver d"

definition writeq :: "'d bus \<Rightarrow> u64 \<Rightarrow> u64 \<Rightarrow> lai_ec_driver \<Rightarrow> 'd \<Rightarrow> 'd option" where
  "writeq io offset value driver d = burst_write io offset (value_bytes 8 value) driver d"

text \<open>
  The eight functions as the overrides of an operation region, by the size of the access; the user pointer of the region
  is the driver.
\<close>

definition on_ec :: "('d \<Rightarrow> ('v::len word \<times> 'd) option) \<Rightarrow> ('d, 'a) lai_ns_state_scheme \<Rightarrow> (u64 \<times> ('d, 'a) lai_ns_state_scheme) option" where
  "on_ec f s = do { (v, d) \<leftarrow> f (dev s); Some (ucast v, s\<lparr>dev := d\<rparr>) }"

definition to_ec :: "('d \<Rightarrow> 'd option) \<Rightarrow> ('d, 'a) lai_ns_state_scheme \<Rightarrow> ('d, 'a) lai_ns_state_scheme option" where
  "to_ec f s = do { d \<leftarrow> f (dev s); Some (s\<lparr>dev := d\<rparr>) }"

definition lai_ec_opregion_override :: "'d bus \<Rightarrow> (addr \<Rightarrow> lai_ec_driver) \<Rightarrow> ('d, 'a) lai_ns_state_scheme region_env" where
  "lai_ec_opregion_override io driver_at = \<lparr>
     call_read = (\<lambda>_ access_size offset userptr.
       if access_size = 8 then on_ec (readb io offset (driver_at userptr))
       else if access_size = 16 then on_ec (readw io offset (driver_at userptr))
       else if access_size = 32 then on_ec (readd io offset (driver_at userptr))
       else if access_size = 64 then on_ec (readq io offset (driver_at userptr)) else (\<lambda>_. None)),
     call_write = (\<lambda>_ access_size offset value userptr.
       if access_size = 8 then to_ec (writeb io offset (ucast value) (driver_at userptr))
       else if access_size = 16 then to_ec (writew io offset (ucast value) (driver_at userptr))
       else if access_size = 32 then to_ec (writed io offset (ucast value) (driver_at userptr))
       else if access_size = 64 then to_ec (writeq io offset value (driver_at userptr)) else (\<lambda>_. None)),
     pci_params = (\<lambda>_ _. None)\<rparr>"

subsection \<open>The controller\<close>

text \<open>
  What the protocol of the specification lets the driver rely on.  \<open>phase\<close> is what the controller expects or offers,
  \<open>ram\<close> the bytes it holds and \<open>busy\<close> how many reads of the status register see it still at work: until then the input
  buffer counts as full and nothing is offered.  Reading the status lets the work go on; a command or a byte may be
  given only when the controller is not busy, and it may then be busy for any time.
\<close>

datatype ec_phase = EcIdle | EcRead | EcWrite | EcWriteAt u8 | EcOut u8 | EcClosing

definition expects_command :: "ec_phase \<Rightarrow> bool" where
  "expects_command p \<longleftrightarrow> p = EcIdle \<or> p = EcClosing"

definition ec_status_law :: "'d bus \<Rightarrow> lai_ec_driver \<Rightarrow> ('d \<Rightarrow> ec_phase) \<Rightarrow> ('d \<Rightarrow> u8 \<Rightarrow> u8) \<Rightarrow> ('d \<Rightarrow> nat) \<Rightarrow> bool" where
  "ec_status_law io driver phase ram busy \<longleftrightarrow> (\<forall>d. case in8 io (cmd_port driver) d of (st, d') \<Rightarrow>
     phase d' = phase d \<and> ram d' = ram d \<and> busy d' = busy d - 1 \<and>
     (st AND ACPI_EC_STATUS_IBF = 0 \<longleftrightarrow> busy d = 0) \<and>
     (st AND ACPI_EC_STATUS_OBF \<noteq> 0 \<longleftrightarrow> busy d = 0 \<and> (\<exists>v. phase d = EcOut v)) \<and>
     (phase d = EcClosing \<longrightarrow> (st AND ACPI_EC_STATUS_BURST \<noteq> 0 \<longleftrightarrow> busy d \<noteq> 0)))"

definition ec_command_law :: "'d bus \<Rightarrow> lai_ec_driver \<Rightarrow> ('d \<Rightarrow> ec_phase) \<Rightarrow> ('d \<Rightarrow> u8 \<Rightarrow> u8) \<Rightarrow> ('d \<Rightarrow> nat) \<Rightarrow> bool" where
  "ec_command_law io driver phase ram busy \<longleftrightarrow> (\<forall>d. busy d = 0 \<and> expects_command (phase d) \<longrightarrow>
     (\<forall>(c, p) \<in> {(ACPI_EC_READ, EcRead), (ACPI_EC_WRITE, EcWrite), (ACPI_EC_BURST_ENABLE, EcOut 0x90), (ACPI_EC_BURST_DISABLE, EcClosing)}.
        phase (out8 io (cmd_port driver) c d) = p \<and> ram (out8 io (cmd_port driver) c d) = ram d))"

definition ec_data_law :: "'d bus \<Rightarrow> lai_ec_driver \<Rightarrow> ('d \<Rightarrow> ec_phase) \<Rightarrow> ('d \<Rightarrow> u8 \<Rightarrow> u8) \<Rightarrow> ('d \<Rightarrow> nat) \<Rightarrow> bool" where
  "ec_data_law io driver phase ram busy \<longleftrightarrow> (\<forall>d x. busy d = 0 \<longrightarrow>
     (let d' = out8 io (data_port driver) x d
      in (phase d = EcRead \<longrightarrow> phase d' = EcOut (ram d x) \<and> ram d' = ram d) \<and>
         (phase d = EcWrite \<longrightarrow> phase d' = EcWriteAt x \<and> ram d' = ram d) \<and>
         (\<forall>a. phase d = EcWriteAt a \<longrightarrow> phase d' = EcIdle \<and> ram d' = (ram d)(a := x))))"

definition ec_answer_law :: "'d bus \<Rightarrow> lai_ec_driver \<Rightarrow> ('d \<Rightarrow> ec_phase) \<Rightarrow> ('d \<Rightarrow> u8 \<Rightarrow> u8) \<Rightarrow> ('d \<Rightarrow> nat) \<Rightarrow> bool" where
  "ec_answer_law io driver phase ram busy \<longleftrightarrow> (\<forall>d v. busy d = 0 \<and> phase d = EcOut v \<longrightarrow>
     (case in8 io (data_port driver) d of (b, d') \<Rightarrow> b = v \<and> phase d' = EcIdle \<and> ram d' = ram d \<and> busy d' = 0))"

definition ec_contract :: "'d bus \<Rightarrow> lai_ec_driver \<Rightarrow> ('d \<Rightarrow> ec_phase) \<Rightarrow> ('d \<Rightarrow> u8 \<Rightarrow> u8) \<Rightarrow> ('d \<Rightarrow> nat) \<Rightarrow> bool" where
  "ec_contract io driver phase ram busy \<longleftrightarrow> cmd_port driver \<noteq> 0 \<and> data_port driver \<noteq> 0 \<and>
     ec_status_law io driver phase ram busy \<and> ec_command_law io driver phase ram busy \<and>
     ec_data_law io driver phase ram busy \<and> ec_answer_law io driver phase ram busy"

subsection \<open>The driver with such a controller\<close>

lemma ec_ports: "ec_contract io driver phase ram busy \<Longrightarrow> cmd_port driver \<noteq> 0 \<and> data_port driver \<noteq> 0"
  by (simp add: ec_contract_def)

lemma ec_status:
  assumes "ec_contract io driver phase ram busy"
  obtains st d' where "in8 io (cmd_port driver) d = (st, d')" "phase d' = phase d" "ram d' = ram d" "busy d' = busy d - 1"
    "st AND ACPI_EC_STATUS_IBF = 0 \<longleftrightarrow> busy d = 0"
    "st AND ACPI_EC_STATUS_OBF \<noteq> 0 \<longleftrightarrow> busy d = 0 \<and> (\<exists>v. phase d = EcOut v)"
    "phase d = EcClosing \<Longrightarrow> st AND ACPI_EC_STATUS_BURST \<noteq> 0 \<longleftrightarrow> busy d \<noteq> 0"
proof -
  obtain st d' where e: "in8 io (cmd_port driver) d = (st, d')" by (cases "in8 io (cmd_port driver) d")
  have "ec_status_law io driver phase ram busy" using assms by (simp add: ec_contract_def)
  from this [unfolded ec_status_law_def, rule_format, of d] show ?thesis
    using e by (intro that [OF e]) simp_all
qed

definition settles :: "('d \<Rightarrow> ec_phase) \<Rightarrow> ('d \<Rightarrow> u8 \<Rightarrow> u8) \<Rightarrow> ('d \<Rightarrow> nat) \<Rightarrow> 'd option \<Rightarrow> ec_phase \<Rightarrow> (u8 \<Rightarrow> u8) \<Rightarrow> bool" where
  "settles phase ram busy r p m \<longleftrightarrow> (\<exists>d'. r = Some d' \<and> phase d' = p \<and> ram d' = m \<and> busy d' = 0)"

lemma settlesI: "r = Some d' \<Longrightarrow> phase d' = p \<Longrightarrow> ram d' = m \<Longrightarrow> busy d' = 0 \<Longrightarrow> settles phase ram busy r p m"
  by (auto simp: settles_def)

text \<open>A wait that stops when the controller is no longer busy ends.\<close>

lemma poll_settles:
  assumes C: "ec_contract io driver phase ram busy"
    and step: "\<And>d st d'. in8 io (cmd_port driver) d = (st, d') \<Longrightarrow> P (phase d) \<Longrightarrow> poll d = (if busy d = 0 then Some d' else poll d')"
    and "P (phase d)"
  shows "settles phase ram busy (poll d) (phase d) (ram d)"
  using assms(3)
proof (induction "busy d" arbitrary: d)
  case 0
  obtain st d' where "in8 io (cmd_port driver) d = (st, d')" "phase d' = phase d" "ram d' = ram d" "busy d' = busy d - 1"
    using ec_status [OF C] by metis
  with 0 step show ?case by (auto simp: settles_def)
next
  case (Suc n)
  obtain st d' where d': "in8 io (cmd_port driver) d = (st, d')" "phase d' = phase d" "ram d' = ram d" "busy d' = busy d - 1"
    using ec_status [OF C] by metis
  have "settles phase ram busy (poll d') (phase d') (ram d')"
    using Suc.hyps(2) Suc.prems d' by (intro Suc.hyps(1)) simp_all
  moreover have "poll d = poll d'" using step [OF d'(1) Suc.prems] Suc.hyps(2) by simp
  ultimately show ?case using d' by simp
qed

lemma poll_ibf_settles:
  assumes C: "ec_contract io driver phase ram busy"
  shows "settles phase ram busy (poll_ibf io driver d) (phase d) (ram d)"
proof (rule poll_settles [OF C, where P = "\<lambda>_. True"])
  fix d st d' assume a: "in8 io (cmd_port driver) d = (st, d')"
  show "poll_ibf io driver d = (if busy d = 0 then Some d' else poll_ibf io driver d')"
    using a by (rule_tac ec_status [OF C, of d]) (simp add: poll_ibf.simps [of io driver d] laihost_inb_def)
qed simp

lemma poll_obf_settles:
  assumes C: "ec_contract io driver phase ram busy" and "phase d = EcOut v"
  shows "settles phase ram busy (poll_obf io driver d) (phase d) (ram d)"
proof (rule poll_settles [OF C, where P = "\<lambda>p. p = EcOut v"])
  fix d st d' assume a: "in8 io (cmd_port driver) d = (st, d')" "phase d = EcOut v"
  then show "poll_obf io driver d = (if busy d = 0 then Some d' else poll_obf io driver d')"
    by (rule_tac ec_status [OF C, of d]) (simp add: poll_obf.simps [of io driver d] laihost_inb_def)
qed (fact assms(2))

lemma poll_burst_settles:
  assumes C: "ec_contract io driver phase ram busy" and "phase d = EcClosing"
  shows "settles phase ram busy (poll_burst io driver d) (phase d) (ram d)"
proof (rule poll_settles [OF C, where P = "\<lambda>p. p = EcClosing"])
  fix d st d' assume a: "in8 io (cmd_port driver) d = (st, d')" "phase d = EcClosing"
  then show "poll_burst io driver d = (if busy d = 0 then Some d' else poll_burst io driver d')"
    by (rule_tac ec_status [OF C, of d]) (simp add: poll_burst.simps [of io driver d] laihost_inb_def)
qed (fact assms(2))

lemma ec_command:
  assumes "ec_contract io driver phase ram busy" "busy d = 0" "expects_command (phase d)"
  shows "phase (laihost_outb io (cmd_port driver) ACPI_EC_READ d) = EcRead"
    "phase (laihost_outb io (cmd_port driver) ACPI_EC_WRITE d) = EcWrite"
    "phase (laihost_outb io (cmd_port driver) ACPI_EC_BURST_ENABLE d) = EcOut 0x90"
    "phase (laihost_outb io (cmd_port driver) ACPI_EC_BURST_DISABLE d) = EcClosing"
    "c \<in> {ACPI_EC_READ, ACPI_EC_WRITE, ACPI_EC_BURST_ENABLE, ACPI_EC_BURST_DISABLE} \<Longrightarrow> ram (laihost_outb io (cmd_port driver) c d) = ram d"
  using assms by (auto simp: ec_contract_def ec_command_law_def laihost_outb_def)

lemma ec_data_out:
  assumes "ec_contract io driver phase ram busy" "busy d = 0"
  shows "phase d = EcRead \<Longrightarrow> phase (laihost_outb io (data_port driver) x d) = EcOut (ram d x) \<and> ram (laihost_outb io (data_port driver) x d) = ram d"
    "phase d = EcWrite \<Longrightarrow> phase (laihost_outb io (data_port driver) x d) = EcWriteAt x \<and> ram (laihost_outb io (data_port driver) x d) = ram d"
    "phase d = EcWriteAt a \<Longrightarrow> phase (laihost_outb io (data_port driver) x d) = EcIdle \<and> ram (laihost_outb io (data_port driver) x d) = (ram d)(a := x)"
  using assms by (auto simp: ec_contract_def ec_data_law_def laihost_outb_def Let_def)

lemma ec_data_in:
  assumes "ec_contract io driver phase ram busy" "busy d = 0" "phase d = EcOut v"
  shows "\<exists>d'. laihost_inb io (data_port driver) d = (v, d') \<and> phase d' = EcIdle \<and> ram d' = ram d \<and> busy d' = 0"
  using assms by (cases "in8 io (data_port driver) d") (force simp: ec_contract_def ec_answer_law_def laihost_inb_def)

text \<open>One byte.\<close>

lemma lai_write_ec_settles:
  assumes C: "ec_contract io driver phase ram busy" and "expects_command (phase d)"
  shows "\<exists>d'. lai_write_ec io a v driver d = Some d' \<and> phase d' = EcIdle \<and> ram d' = (ram d)(a := v)"
proof -
  note poll = poll_ibf_settles [OF C, unfolded settles_def]
  obtain d1 where 1: "poll_ibf io driver d = Some d1" "phase d1 = phase d" "ram d1 = ram d" "busy d1 = 0"
    using poll [of d] by blast
  let ?d1 = "laihost_outb io (cmd_port driver) ACPI_EC_WRITE d1"
  obtain d2 where 2: "poll_ibf io driver ?d1 = Some d2" "phase d2 = phase ?d1" "ram d2 = ram ?d1" "busy d2 = 0"
    using poll [of ?d1] by blast
  let ?d2 = "laihost_outb io (data_port driver) a d2"
  obtain d3 where 3: "poll_ibf io driver ?d2 = Some d3" "phase d3 = phase ?d2" "ram d3 = ram ?d2" "busy d3 = 0"
    using poll [of ?d2] by blast
  show ?thesis
    using assms 1 2 3 ec_ports [OF C] by (simp add: lai_write_ec_def ec_command [OF C] ec_data_out [OF C])
qed

lemma lai_read_ec_settles:
  assumes C: "ec_contract io driver phase ram busy" and "expects_command (phase d)"
  shows "\<exists>d'. lai_read_ec io a driver d = Some (ram d a, d') \<and> phase d' = EcIdle \<and> ram d' = ram d"
proof -
  note poll = poll_ibf_settles [OF C, unfolded settles_def]
  obtain d1 where 1: "poll_ibf io driver d = Some d1" "phase d1 = phase d" "ram d1 = ram d" "busy d1 = 0"
    using poll [of d] by blast
  let ?d1 = "laihost_outb io (cmd_port driver) ACPI_EC_READ d1"
  obtain d2 where 2: "poll_ibf io driver ?d1 = Some d2" "phase d2 = phase ?d1" "ram d2 = ram ?d1" "busy d2 = 0"
    using poll [of ?d1] by blast
  let ?d2 = "laihost_outb io (data_port driver) a d2"
  have out: "phase ?d2 = EcOut (ram d a)" "ram ?d2 = ram d" using assms 1 2 by (simp_all add: ec_command [OF C] ec_data_out [OF C])
  obtain d3 where 3: "poll_obf io driver ?d2 = Some d3" "phase d3 = phase ?d2" "ram d3 = ram ?d2" "busy d3 = 0"
    using poll_obf_settles [OF C out(1)] by (auto simp: settles_def)
  show ?thesis
    using 1 2 3 out ec_ports [OF C] ec_data_in [OF C, of d3] by (auto simp: lai_read_ec_def)
qed

lemma enable_burst_settles:
  assumes C: "ec_contract io driver phase ram busy" and "expects_command (phase d)" "busy d = 0"
  shows "settles phase ram busy (enable_burst io driver d) EcIdle (ram d)"
proof -
  let ?d = "laihost_outb io (cmd_port driver) ACPI_EC_BURST_ENABLE d"
  have out: "phase ?d = EcOut 0x90" "ram ?d = ram d" using assms by (simp_all add: ec_command [OF C])
  obtain d1 where 1: "poll_obf io driver ?d = Some d1" "phase d1 = phase ?d" "ram d1 = ram ?d" "busy d1 = 0"
    using poll_obf_settles [OF C out(1)] by (auto simp: settles_def)
  show ?thesis
    using 1 out ec_data_in [OF C, of d1] by (auto simp: enable_burst_def settles_def)
qed

lemma disable_burst_settles:
  assumes C: "ec_contract io driver phase ram busy" and "expects_command (phase d)"
  shows "settles phase ram busy (disable_burst io driver d) EcClosing (ram d)"
proof -
  obtain d1 where 1: "poll_ibf io driver d = Some d1" "phase d1 = phase d" "ram d1 = ram d" "busy d1 = 0"
    using poll_ibf_settles [OF C, of d] by (auto simp: settles_def)
  let ?d1 = "laihost_outb io (cmd_port driver) ACPI_EC_BURST_DISABLE d1"
  have "phase ?d1 = EcClosing" "ram ?d1 = ram d" using assms 1 by (simp_all add: ec_command [OF C])
  then show ?thesis using 1 poll_burst_settles [OF C, of ?d1] by (simp add: disable_burst_def)
qed

text \<open>Several bytes.\<close>

fun ec_store :: "(u8 \<Rightarrow> u8) \<Rightarrow> u64 \<Rightarrow> u8 list \<Rightarrow> u8 \<Rightarrow> u8" where
  "ec_store m offset [] = m"
| "ec_store m offset (b # bs) = ec_store (m(ucast offset := b)) (offset + 1) bs"

fun ec_load :: "(u8 \<Rightarrow> u8) \<Rightarrow> u64 \<Rightarrow> nat \<Rightarrow> u8 list" where
  "ec_load m offset 0 = []"
| "ec_load m offset (Suc n) = m (ucast offset) # ec_load m (offset + 1) n"

lemma read_bytes_settles:
  assumes C: "ec_contract io driver phase ram busy" and "expects_command (phase d)"
  shows "\<exists>d'. read_bytes io offset n driver d = Some (ec_load (ram d) offset n, d') \<and> expects_command (phase d') \<and> ram d' = ram d"
  using assms(2)
proof (induction n arbitrary: offset d)
  case (Suc n)
  obtain d1 where "lai_read_ec io (ucast offset) driver d = Some (ram d (ucast offset), d1)" "phase d1 = EcIdle" "ram d1 = ram d"
    using lai_read_ec_settles [OF C Suc.prems] by blast
  then show ?case using Suc.IH [of d1 "offset + 1"] by (auto simp: expects_command_def)
qed simp

lemma write_bytes_settles:
  assumes C: "ec_contract io driver phase ram busy" and "expects_command (phase d)"
  shows "\<exists>d'. write_bytes io offset bs driver d = Some d' \<and> expects_command (phase d') \<and> ram d' = ec_store (ram d) offset bs"
  using assms(2)
proof (induction bs arbitrary: offset d)
  case (Cons b bs)
  obtain d1 where "lai_write_ec io (ucast offset) b driver d = Some d1" "phase d1 = EcIdle" "ram d1 = (ram d)(ucast offset := b)"
    using lai_write_ec_settles [OF C Cons.prems] by blast
  then show ?case using Cons.IH [of d1 "offset + 1"] by (auto simp: expects_command_def simp del: fun_upd_apply)
qed simp

lemma burst_read_settles:
  assumes C: "ec_contract io driver phase ram busy" and "expects_command (phase d)" "busy d = 0"
  shows "\<exists>d'. burst_read n io offset driver d = Some (ec_load (ram d) offset n, d') \<and> phase d' = EcClosing \<and> ram d' = ram d \<and> busy d' = 0"
proof -
  obtain d1 where 1: "enable_burst io driver d = Some d1" "phase d1 = EcIdle" "ram d1 = ram d"
    using enable_burst_settles [OF assms] by (auto simp: settles_def)
  obtain d2 where 2: "read_bytes io offset n driver d1 = Some (ec_load (ram d) offset n, d2)" "expects_command (phase d2)" "ram d2 = ram d"
    using read_bytes_settles [OF C, of d1 offset n] 1 by (auto simp: expects_command_def)
  show ?thesis using 1 2 disable_burst_settles [OF C 2(2)] by (auto simp: burst_read_def settles_def)
qed

lemma burst_write_settles:
  assumes C: "ec_contract io driver phase ram busy" and "expects_command (phase d)" "busy d = 0"
  shows "settles phase ram busy (burst_write io offset bs driver d) EcClosing (ec_store (ram d) offset bs)"
proof -
  obtain d1 where 1: "enable_burst io driver d = Some d1" "phase d1 = EcIdle" "ram d1 = ram d"
    using enable_burst_settles [OF assms] by (auto simp: settles_def)
  obtain d2 where 2: "write_bytes io offset bs driver d1 = Some d2" "expects_command (phase d2)" "ram d2 = ec_store (ram d) offset bs"
    using write_bytes_settles [OF C, of d1 offset bs] 1 by (auto simp: expects_command_def)
  show ?thesis using 1 2 disable_burst_settles [OF C 2(2)] by (simp add: burst_write_def)
qed

subsection \<open>Values and their bytes\<close>

lemma ec_load_map: "ec_load m offset n = map (\<lambda>k. m (ucast (offset + of_nat k))) [0..<n]"
  by (induction n arbitrary: offset) (simp_all add: map_upt_Suc add.assoc del: upt_Suc)

lemma byte_of_offset: "(ucast (offset + of_nat k :: u64) :: u8) = ucast offset + of_nat k"
proof -
  have "(uint offset + int k) mod 2 ^ 64 mod 2 ^ 8 = (uint offset mod 2 ^ 8 + int k) mod 2 ^ 8"
    by (subst mod_mod_cancel) (simp_all add: mod_simps)
  then have "uint (ucast (offset + of_nat k :: u64) :: u8) = uint (ucast offset + of_nat k :: u8)"
    by (simp add: unsigned_ucast_eq uint_word_ariths take_bit_eq_mod mod_simps unsigned_of_nat zmod_int)
  then show ?thesis by (simp add: word_uint_eq_iff)
qed

lemma byte_index_eq:
  assumes "j < 256" "k < 256"
  shows "(ucast (offset + of_nat j :: u64) :: u8) = ucast (offset + of_nat k) \<longleftrightarrow> j = k"
  using assms by (simp add: byte_of_offset word_of_nat_eq_iff take_bit_nat_eq_self)

lemma ec_store_lookup:
  assumes "length bs \<le> 256"
  shows "k < length bs \<Longrightarrow> ec_store m offset bs (ucast (offset + of_nat k)) = bs ! k"
    and "(\<And>k. k < length bs \<Longrightarrow> a \<noteq> ucast (offset + of_nat k)) \<Longrightarrow> ec_store m offset bs a = m a"
proof -
  have other: "(\<And>k. k < length bs \<Longrightarrow> a \<noteq> ucast (offset + of_nat k)) \<Longrightarrow> ec_store m offset bs a = m a" for bs offset m a
  proof (induction bs arbitrary: offset m)
    case (Cons b bs)
    have "a \<noteq> ucast (offset + 1 + of_nat k)" if "k < length bs" for k
      using Cons.prems [of "Suc k"] that by (simp add: add.assoc)
    then show ?case using Cons.IH [of "offset + 1" "m(ucast offset := b)"] Cons.prems [of 0] by (simp add: fun_upd_def)
  qed simp
  then show "(\<And>k. k < length bs \<Longrightarrow> a \<noteq> ucast (offset + of_nat k)) \<Longrightarrow> ec_store m offset bs a = m a" .
  show "k < length bs \<Longrightarrow> ec_store m offset bs (ucast (offset + of_nat k)) = bs ! k" using assms
  proof (induction bs arbitrary: offset m k)
    case (Cons b bs)
    show ?case
    proof (cases k)
      case 0
      have "ucast offset \<noteq> (ucast (offset + 1 + of_nat j) :: u8)" if "j < length bs" for j
        using byte_index_eq [of 0 "Suc j" offset] Cons.prems(2) that by (simp add: add.assoc)
      then show ?thesis using 0 other [of bs "ucast offset" "offset + 1" "m(ucast offset := b)"] by simp
    next
      case (Suc j)
      then show ?thesis using Cons.IH [of j "m(ucast offset := b)" "offset + 1"] Cons.prems by (simp add: add.assoc fun_upd_def)
    qed
  qed simp
qed

lemma ec_load_store: "length bs \<le> 256 \<Longrightarrow> ec_load (ec_store m offset bs) offset (length bs) = bs"
  by (rule nth_equalityI) (simp_all add: ec_load_map ec_store_lookup)

lemma bit_bytes_value:
  "bit (bytes_value bs :: 'a::len word) i \<longleftrightarrow> i < LENGTH('a) \<and> i div 8 < length bs \<and> bit (bs ! (i div 8)) (i mod 8)"
proof (induction bs arbitrary: i)
  case (Cons b bs)
  show ?case
  proof (cases "i < 8")
    case True
    then show ?thesis by (auto simp: bit_simps)
  next
    case False
    then have "i div 8 = Suc ((i - 8) div 8)" "(i - 8) mod 8 = i mod 8" by (simp_all add: le_div_geq le_mod_geq)
    then show ?thesis using False Cons.IH [of "i - 8"] bit_imp_le_length [of b i] by (auto simp: bit_simps)
  qed
qed simp

lemma bit_byte_mask: "bit (0xFF :: 'a::len word) i \<longleftrightarrow> i < LENGTH('a) \<and> i < 8"
proof -
  have "(0xFF :: 'a word) = mask 8" by (simp add: mask_eq_exp_minus_1)
  then show ?thesis by (simp only: bit_mask_iff) simp
qed

lemma bytes_value_bytes:
  fixes v :: "'a::len word"
  assumes "LENGTH('a) = 8 * n"
  shows "bytes_value (value_bytes n v) = v"
proof (rule bit_word_eqI)
  fix i assume i: "i < LENGTH('a)"
  then have "i div 8 < n" using assms by simp
  moreover have "i mod 8 < 8" by simp
  moreover have "bit (0xFF :: 'a word) (i mod 8)" unfolding bit_byte_mask using i
    by (simp add: order.strict_trans1 [OF mod_less_eq_dividend])
  ultimately show "bit (bytes_value (value_bytes n v) :: 'a word) i = bit v i"
    using i by (simp add: bit_bytes_value value_bytes_def bit_and_iff bit_drop_bit_eq bit_unsigned_iff)
qed

subsection \<open>Round trip\<close>

lemma burst_roundtrip:
  assumes C: "ec_contract io driver phase ram busy" and "expects_command (phase d)" "busy d = 0" "length bs \<le> 256"
  obtains d1 d2 where "burst_write io offset bs driver d = Some d1" "burst_read (length bs) io offset driver d1 = Some (bs, d2)"
    "\<forall>a. (\<forall>k<length bs. a \<noteq> ucast (offset + of_nat k)) \<longrightarrow> ram d2 a = ram d a" "expects_command (phase d2)" "busy d2 = 0"
proof -
  obtain d1 where 1: "burst_write io offset bs driver d = Some d1" "phase d1 = EcClosing" "ram d1 = ec_store (ram d) offset bs" "busy d1 = 0"
    using burst_write_settles [OF assms(1-3)] by (auto simp: settles_def)
  have "expects_command (phase d1)" using 1 by (simp add: expects_command_def)
  then obtain d2 where 2: "burst_read (length bs) io offset driver d1 = Some (ec_load (ram d1) offset (length bs), d2)"
      "phase d2 = EcClosing" "ram d2 = ram d1" "busy d2 = 0"
    using burst_read_settles [OF C _ 1(4), of "length bs" offset] by blast
  have "ec_load (ram d1) offset (length bs) = bs" using ec_load_store [OF assms(4), of "ram d" offset] 1 by simp
  moreover have "\<forall>a. (\<forall>k<length bs. a \<noteq> ucast (offset + of_nat k)) \<longrightarrow> ram d2 a = ram d a"
    using ec_store_lookup(2) [OF assms(4), of _ offset "ram d"] 1 2 by simp
  ultimately show ?thesis using that [of d1 d2] 1 2 by (simp add: expects_command_def)
qed

lemma length_value_bytes [simp]: "length (value_bytes n v) = n"
  by (simp add: value_bytes_def)

lemma ucast_ucast_take:
  "LENGTH('v) \<le> 64 \<Longrightarrow> (ucast (ucast (v :: u64) :: 'v::len word) :: u64) = take_bit LENGTH('v) v"
  by (rule bit_word_eqI) (auto simp: bit_simps)

lemma value_bytes_one: "value_bytes (Suc 0) b = [b :: u8]"
proof -
  have "(0xFF :: u8) = -1" by simp
  then have "b AND 0xFF = b" by (simp only: and.right_neutral)
  then show ?thesis by (simp add: value_bytes_def)
qed

lemmas ec_sizes = readb_def [abs_def] readw_def [abs_def] readd_def [abs_def] readq_def [abs_def]
  writeb_def [abs_def] writew_def [abs_def] writed_def [abs_def] writeq_def [abs_def] value_bytes_one

lemmas ec_region_access = lai_perform_write_def lai_perform_read_def lai_ec_opregion_override_def Let_def

text \<open>The write and the read of one size, as a region sees them.\<close>

lemma ec_sized_roundtrip:
  fixes rd :: "'d \<Rightarrow> ('v::len word \<times> 'd) option"
  assumes C: "ec_contract io driver phase ram busy" and "expects_command (phase (dev s))" "busy (dev s) = 0"
    and n: "LENGTH('v) = 8 * n" "n \<le> 8"
    and wr: "wr = (\<lambda>d. burst_write io offset (value_bytes n (ucast v :: 'v word)) driver d)"
    and rd: "rd = (\<lambda>d. map_option (apfst bytes_value) (burst_read n io offset driver d))"
  shows "\<exists>d1 d2. to_ec wr s = Some (s\<lparr>dev := d1\<rparr>) \<and> on_ec rd (s\<lparr>dev := d1\<rparr>) = Some (take_bit (8 * n) v, s\<lparr>dev := d2\<rparr>) \<and>
    (\<forall>a. (\<forall>k<n. a \<noteq> ucast (offset + of_nat k)) \<longrightarrow> ram d2 a = ram (dev s) a) \<and> expects_command (phase d2) \<and> busy d2 = 0"
proof -
  let ?bs = "value_bytes n (ucast v :: 'v word)"
  obtain d1 d2 where d: "burst_write io offset ?bs driver (dev s) = Some d1" "burst_read n io offset driver d1 = Some (?bs, d2)"
    "\<forall>a. (\<forall>k<n. a \<noteq> ucast (offset + of_nat k)) \<longrightarrow> ram d2 a = ram (dev s) a" "expects_command (phase d2)" "busy d2 = 0"
    using burst_roundtrip [OF assms(1-3), of ?bs offset] n by auto
  have "bytes_value ?bs = (ucast v :: 'v word)" using n by (intro bytes_value_bytes) simp
  moreover have "ucast (ucast v :: 'v word) = take_bit (8 * n) v" using ucast_ucast_take [where 'v = 'v and v = v] n by simp
  ultimately have "on_ec rd (s\<lparr>dev := d1\<rparr>) = Some (take_bit (8 * n) v, s\<lparr>dev := d2\<rparr>)" using d rd by (simp add: on_ec_def)
  moreover have "to_ec wr s = Some (s\<lparr>dev := d1\<rparr>)" using d wr by (simp add: to_ec_def)
  ultimately show ?thesis using d(3-5) by blast
qed


text \<open>A controller that takes two reads of its status for every command and byte.\<close>

record ec_example =
  ex_phase :: ec_phase
  ex_ram :: "u8 \<Rightarrow> u8"
  ex_busy :: nat

definition ec_example_status :: "ec_example \<Rightarrow> u8" where
  "ec_example_status d = (if ex_busy d \<noteq> 0 then ACPI_EC_STATUS_IBF OR ACPI_EC_STATUS_BURST
     else case ex_phase d of EcOut v \<Rightarrow> ACPI_EC_STATUS_OBF | _ \<Rightarrow> 0)"

definition ec_example_in :: "u16 \<Rightarrow> ec_example \<Rightarrow> u8 \<times> ec_example" where
  "ec_example_in port d =
     (if port = 0x66 then (ec_example_status d, d\<lparr>ex_busy := ex_busy d - 1\<rparr>)
      else case ex_phase d of EcOut v \<Rightarrow> (v, d\<lparr>ex_phase := EcIdle\<rparr>) | _ \<Rightarrow> (0, d))"

definition ec_example_out :: "u16 \<Rightarrow> u8 \<Rightarrow> ec_example \<Rightarrow> ec_example" where
  "ec_example_out port x d = (let d = d\<lparr>ex_busy := 2\<rparr>
     in if port = 0x66
        then d\<lparr>ex_phase := if x = ACPI_EC_READ then EcRead else if x = ACPI_EC_WRITE then EcWrite
           else if x = ACPI_EC_BURST_ENABLE then EcOut 0x90 else EcClosing\<rparr>
        else case ex_phase d of EcRead \<Rightarrow> d\<lparr>ex_phase := EcOut (ex_ram d x)\<rparr> | EcWrite \<Rightarrow> d\<lparr>ex_phase := EcWriteAt x\<rparr>
          | EcWriteAt a \<Rightarrow> d\<lparr>ex_phase := EcIdle, ex_ram := (ex_ram d)(a := x)\<rparr> | _ \<Rightarrow> d)"

definition ec_example_bus :: "ec_example bus" where
  "ec_example_bus = \<lparr>in8 = ec_example_in, in16 = (\<lambda>_ d. (0, d)), in32 = (\<lambda>_ d. (0, d)), out8 = ec_example_out, out16 = (\<lambda>_ _ d. d),
     out32 = (\<lambda>_ _ d. d), mmio_read8 = (\<lambda>_ d. (0, d)), mmio_read32 = (\<lambda>_ d. (0, d)), mmio_write32 = (\<lambda>_ _ d. d), mmio_write64 = (\<lambda>_ _ d. d)\<rparr>"

lemmas ec_constants = ACPI_EC_READ_def ACPI_EC_WRITE_def ACPI_EC_BURST_ENABLE_def ACPI_EC_BURST_DISABLE_def
  ACPI_EC_STATUS_OBF_def ACPI_EC_STATUS_IBF_def ACPI_EC_STATUS_BURST_def

lemma ec_example_contract: "ec_contract ec_example_bus \<lparr>cmd_port = 0x66, data_port = 0x62\<rparr> ex_phase ex_ram ex_busy"
  by (auto simp: ec_contract_def ec_status_law_def ec_command_law_def ec_data_law_def ec_answer_law_def ec_example_bus_def
    ec_example_in_def ec_example_out_def ec_example_status_def ec_constants Let_def expects_command_def split: ec_phase.splits)

definition ec_region_example :: "ec_example lai_ns_state" where
  "ec_region_example = apic_state.extend (sched_state.extend sched_example (apic_state.fields
       \<lparr>ex_phase = EcIdle, ex_ram = (\<lambda>a. a), ex_busy = 0\<rparr> (io_at apic_example) (kIoApics apic_example) 1 0xFEE00000))
     (lai_ns_state.fields (\<lambda>a. zero_nsnode\<lparr>nd_type := LAI_NAMESPACE_OPREGION, op_base := 0xF0, op_override := 0x7000, op_userptr := 0x8000\<rparr>)
       0x1000 0x9000 [] 128 2 0)"

lemma ec_region_example_fields:
  "dev ec_region_example = \<lparr>ex_phase = EcIdle, ex_ram = (\<lambda>a. a), ex_busy = 0\<rparr>"
  "node_at ec_region_example a = zero_nsnode\<lparr>nd_type := LAI_NAMESPACE_OPREGION, op_base := 0xF0, op_override := 0x7000, op_userptr := 0x8000\<rparr>"
  by (simp_all add: ec_region_example_def apic_state.defs lai_ns_state.defs sched_state.defs)


end
