(* ===== verification/Spec2Isabelle.thy ===== *)
theory Spec2Isabelle
  imports Heap DList Sched Intel Irq Kernel LaiPrintf LaiResource LaiField LaiEval LaiBufferField LaiControl LaiBios LaiPower LaiEc
begin

text \<open>
  A verification library for the gewodsys kernel, a small x86-64 kernel in C (\<open>src/kernel\<close>).

  \<^bold>\<open>The program.\<close>  \<open>KeMain\<close> (\<open>kernel.c\<close>) loads the processor tables, takes over the memory map of the boot
  loader, sets up paging and a heap, creates the idle task, reads the ACPI tables, starts the interrupt
  controllers, enumerates the PCI functions and starts their drivers, and registers the handlers of the
  keyboard and the mouse.  The heap takes pages from the page allocator and maps them through the page
  tables; tasks, controller structures and rings are heap blocks; drivers reach devices through ports,
  configuration space and mapped registers.  An ACPI interpreter (\<open>cpu/lai\<close>) is part of the tree and
  calls back into the kernel through the \<open>laihost\<close> functions of \<open>cpu/acpi.c\<close>.

  \<^bold>\<open>The library.\<close>  Each theory models the files it names, one definition per C function with the C
  name; loops are separate recursive functions.
  \<^item> \<open>Prelude\<close>: machine integers, the flat byte memory, little-endian access, zones and bit-fields.
  \<^item> \<open>RtMemory\<close> (\<open>lib/memory.c\<close>), \<open>OrderedArray\<close> (\<open>lib/array.c\<close>), \<open>DList\<close> (\<open>lib/list.h\<close>): byte loops are
    exact copies and fills; insertion into the array refines ordered insertion; the list macros refine
    the operations on a sequence (locale \<open>linked_sequence\<close>, interpreted on the macros).
  \<^item> \<open>Pmm\<close> (\<open>mem/pmm.c\<close>): pages handed out were free and are marked; the accounting is an invariant of
    every sequence of operations; a request returns exactly when a page of the scanned range is free.
  \<^item> \<open>Vmm\<close> (\<open>mem/vmm.c\<close>): a mapped page translates to its frame, other translations stay, mapping ends when
    three pages are free.
  \<^item> \<open>Heap\<close> (\<open>mem/heap.c\<close>): the blocks tile the heap and the index lists the holes; \<open>kmalloc\<close> and \<open>kfree\<close>
    keep that and the bytes of the other blocks (locale \<open>block_allocator\<close>, interpreted on \<open>kmalloc\<close>).
  \<^item> \<open>Machine\<close>, \<open>Intel\<close> (\<open>cpu/intel.c\<close>), \<open>Apic\<close> (\<open>cpu/apic.c\<close>), \<open>Irq\<close> (\<open>cpu/irqhandler.c\<close>): descriptor tables,
    redirection entries, the handler table and the allocation of interrupt numbers.
  \<^item> \<open>Sched\<close> (\<open>tsk/sched.c\<close>): creating a task appends it; scheduling is a round robin.
  \<^item> \<open>Pci\<close> (\<open>dev/pci.c\<close>, \<open>dev/gpu/cherrytrail.c\<close>), \<open>XhciRing\<close> and \<open>Xhci\<close> (\<open>dev/usb/xhci.c\<close>): configuration
    space reads back, the enumeration visits every function and enters the first accepting driver, ring
    entries are laid out in laps with alternating cycle bits.
  \<^item> \<open>Acpi\<close> (\<open>cpu/acpi.c\<close>), \<open>Serial\<close> (\<open>utl/serial.c\<close>), \<open>Kernel\<close> (\<open>kernel.c\<close>): table lookup, the console's
    conversions read back, mouse packets are reassembled, and the boot sequence.
  \<^item> \<open>LaiLibc\<close>, \<open>LaiPrintf\<close>, \<open>LaiResource\<close> (\<open>cpu/lai/core/libc.c\<close>, \<open>vsnprintf.c\<close>, \<open>error.c\<close>,
    \<open>helpers/resource.c\<close>): string comparison, formatting, resource descriptors.
  \<^item> \<open>HeapFrame\<close>: what allocation leaves alone, for the clients of the heap.
  \<^item> \<open>LaiHash\<close> (\<open>core/util-hash.h\<close>): insertion and removal keep the table consistent and change one chain (locale
    \<open>element_chain\<close>, interpreted on the table).
  \<^item> \<open>LaiNames\<close>, \<open>LaiNs\<close> (\<open>core/ns.c\<close>): names in byte code parse back and print; an installed node is found under its
    name; the printed path of a node resolves to it.
  \<^item> \<open>LaiField\<close> (\<open>core/opregion.c\<close>): bit fields of regions; what is written to a field is read back and its
    neighbours stay (locale \<open>bit_region\<close>, interpreted on byte-wide port regions).
  \<^item> \<open>LaiList\<close> (\<open>core/util-list.h\<close>): the ring of links is a sequence (a second interpretation of \<open>linked_sequence\<close>).
  \<^item> \<open>LaiObject\<close> (\<open>core/variable.c\<close>, \<open>internal-exec.h\<close>, the first half of \<open>core/object.c\<close>), \<open>LaiRefs\<close>: objects are values
    that point to counted heads; every count is the number of references, so assignment frees exactly what is no
    longer reachable through them.  \<open>LaiConvert\<close> (the rest of \<open>core/object.c\<close>): conversions have the type they promise
    and read back, comparison is the lexicographic order.
  \<^item> \<open>LaiEval\<close> (\<open>core/eval.c\<close>, \<open>core/os_methods.c\<close>): identifiers and the predefined methods.
  \<^item> \<open>LaiSync\<close> (mutexes and events of \<open>core/exec_impl.h\<close>): one step per atomic access; exclusion and the balance of
    signals are invariants of every interleaving of threads.
  \<^item> \<open>LaiState\<close> (\<open>core/internal-exec.h\<close>, \<open>exec_impl.h\<close>): the four stacks of the interpreter.  \<open>LaiOperand\<close>
    (\<open>core/exec-operand.c\<close>): loads and stores; \<open>LaiBufferField\<close> shows what a field of a buffer reads and writes.
  \<^item> \<open>LaiOpcodes\<close>, \<open>LaiReduce\<close>, \<open>LaiParse\<close>, \<open>LaiExec\<close> (\<open>core/exec.c\<close>): the reduction of every operator, the parser of
    every opcode, the processing of every stack item, the main loop and the entry points.  \<open>LaiMachine\<close> has the
    step relation of the main loop, \<open>LaiExpr\<close> shows that the byte code of integer expressions is evaluated right,
    \<open>LaiControl\<close> that sizes read back, that a condition takes its branch and that \<open>Continue\<close> does not end.
  \<^item> \<open>LaiDevices\<close> (\<open>helpers/pci.c\<close>, the rest of \<open>core/ns.c\<close>, \<open>core/opregion.c\<close> and \<open>helpers/resource.c\<close>): what evaluates objects
    of devices; the search for a bus and the routing of an interrupt find the first entry that fits.
  \<^item> \<open>LaiPower\<close> (\<open>helpers/sci.c\<close>, \<open>helpers/pm.c\<close>, \<open>drivers/timer.c\<close>): events, ACPI mode, sleep states, reset; a busy wait ends
    and is long enough when its goal does not wrap.
  \<^item> \<open>LaiEc\<close> (\<open>drivers/ec.c\<close>): the byte protocol of the embedded controller; with a controller that keeps to it every
    wait ends and what is written to a region is read back.
  \<^item> \<open>LaiBios\<close> (\<open>helpers/pc-bios.c\<close>): the search for the root pointer reports the first valid one of its window.

  \<^bold>\<open>Conventions.\<close>  Integers have their C width and wrap.  Memory is total, so a read outside an object
  is a read of whatever is there.  \<open>None\<close> is the result of a loop that does not end, of an operation C
  leaves undefined, or of a panic; theorems that a routine returns show \<open>Some\<close>.  Loops that
  may run forever are \<open>partial_function (option)\<close>.  The only fuel is the nesting depth of index fields in
  \<open>LaiField\<close> (an index field whose registers are plain fields needs depth 1, and a chain of index fields that
  leads back to itself never ends in the code) and the depth of \<open>nested_env\<close> in \<open>LaiDevices\<close> (a region in configuration space
  whose parameters are plain names needs depth 1).

  \<^bold>\<open>Parameters.\<close>  Devices are a state and a \<open>bus\<close> record of accesses; the hypotheses about them
  (\<open>config_reads\<close>, \<open>config_writes\<close>, \<open>ioapic_window\<close>, \<open>ec_contract\<close>, \<open>timer_contract\<close>, \<open>event_contract\<close>) state documented register behaviour and each property
  that has one has a witness with a concrete device.  What the boot loader hands over, and the addresses
  of linked symbols and interrupt stubs, are arguments.

  The host functions that the interpreter may call (timer, waiting, notification, methods of the host) are members of the
  record \<open>exec_env\<close>; no property assumes anything of them.

  \<^bold>\<open>Not modelled.\<close>  \<open>MmDebugPrint\<close>, the test tasks and other code that only prints, and the tracing of the interpreter.  \<open>cpu/interrupt.asm\<close> is assembly; \<open>fs/fat32.c\<close> is empty; the MSI routines at the
  end of \<open>dev/pci.c\<close> and \<open>KeSMPMain\<close> are disabled in the source.
\<close>

end
